(* ===== verification/Trilogy_Prelude.thy ===== *)
theory Trilogy_Prelude
  imports Main "HOL-Library.Word"
begin

unbundle bit_operations_syntax

text \<open>
  The shared part of the development: the machine integers of the C sources, the
  error codes of \<^verbatim>\<open>inc/trilogy/error.h\<close>, the type of an operation that
  changes a state and may stop, the memory primitives the sources use, and the generic
  lemmas on lists and words that the component theories share.
\<close>

section \<open>Machine integers\<close>

type_synonym u8 = "8 word"
type_synonym u16 = "16 word"
type_synonym u24 = "24 word"
type_synonym u32 = "32 word"
type_synonym u64 = "64 word"
type_synonym size_t = "64 word"

text \<open>Largest \<^verbatim>\<open>size_t\<close>, and the bound below which a C object lies (\<^verbatim>\<open>PTRDIFF_MAX + 1\<close>).\<close>

abbreviation SIZE_MAX :: size_t where
  "SIZE_MAX \<equiv> - 1"

definition object_limit :: nat where
  "object_limit = 2 ^ 63"

section \<open>Error codes\<close>

datatype trilogy_rc =
    TRILOGY_OK
  | TRILOGY_ERR
  | TRILOGY_EOF
  | TRILOGY_SYSERR
  | TRILOGY_UNEXPECTED_PACKET
  | TRILOGY_TRUNCATED_PACKET
  | TRILOGY_PROTOCOL_VIOLATION
  | TRILOGY_AUTH_PLUGIN_TOO_LONG
  | TRILOGY_EXTRA_DATA_IN_PACKET
  | TRILOGY_INVALID_CHARSET
  | TRILOGY_AGAIN
  | TRILOGY_CLOSED_CONNECTION
  | TRILOGY_HAVE_RESULTS
  | TRILOGY_NULL_VALUE
  | TRILOGY_INVALID_SEQUENCE_ID
  | TRILOGY_TYPE_OVERFLOW
  | TRILOGY_OPENSSL_ERR
  | TRILOGY_UNSUPPORTED
  | TRILOGY_DNS_ERR
  | TRILOGY_AUTH_SWITCH
  | TRILOGY_MAX_PACKET_EXCEEDED
  | TRILOGY_UNKNOWN_TYPE
  | TRILOGY_TIMEOUT
  | TRILOGY_AUTH_PLUGIN_ERROR
  | TRILOGY_MEM_ERROR

text \<open>
  How a C function can end other than by returning \<^verbatim>\<open>TRILOGY_OK\<close>: it returns another
  code (\<open>Rc\<close>), it reads or writes outside an object, which is undefined behaviour
  (\<open>Fault\<close>), or a loop of it never ends (\<open>Hang\<close>). The last two are not values of
  the program; the model has them so that their absence is a theorem.
\<close>

datatype stop = Rc trilogy_rc | Fault | Hang

section \<open>Operations\<close>

text \<open>
  An operation on a state of type \<open>'s\<close> that yields a value of type \<open>'a\<close> on
  \<^verbatim>\<open>TRILOGY_OK\<close>. The state is returned in both cases: a C function that fails keeps the
  changes it has made. \<open>checked m k\<close> is the sources' \<^verbatim>\<open>CHECKED(m); k\<close>.
\<close>

type_synonym ('s, 'a) op = "'s \<Rightarrow> (stop + 'a) \<times> 's"

definition ret :: "'a \<Rightarrow> ('s, 'a) op" where
  "ret x = (\<lambda>s. (Inr x, s))"

definition halt :: "stop \<Rightarrow> ('s, 'a) op" where
  "halt e = (\<lambda>s. (Inl e, s))"

abbreviation throw :: "trilogy_rc \<Rightarrow> ('s, 'a) op" where
  "throw e \<equiv> halt (Rc e)"

definition checked :: "('s, 'a) op \<Rightarrow> ('a \<Rightarrow> ('s, 'b) op) \<Rightarrow> ('s, 'b) op" where
  "checked m k =
     (\<lambda>s. case m s of (r, s') \<Rightarrow> (case r of Inl e \<Rightarrow> (Inl e, s') | Inr x \<Rightarrow> k x s'))"

definition get_state :: "('s, 's) op" where
  "get_state = (\<lambda>s. (Inr s, s))"

definition put_state :: "('s \<Rightarrow> 's) \<Rightarrow> ('s, unit) op" where
  "put_state f = (\<lambda>s. (Inr (), f s))"

named_theorems op_simps "evaluation of operations"
named_theorems holds_intros "rules for the triples of operations"

lemma ret_apply [simp, op_simps]: "ret x s = (Inr x, s)"
  by (simp add: ret_def)

lemma halt_apply [simp, op_simps]: "halt e s = (Inl e, s)"
  by (simp add: halt_def)

lemma get_state_apply [simp, op_simps]: "get_state s = (Inr s, s)"
  by (simp add: get_state_def)

lemma put_state_apply [simp, op_simps]: "put_state f s = (Inr (), f s)"
  by (simp add: put_state_def)

lemma checked_apply:
  "checked m k s = (case m s of (r, s') \<Rightarrow> (case r of Inl e \<Rightarrow> (Inl e, s') | Inr x \<Rightarrow> k x s'))"
  by (simp add: checked_def)

lemma checked_Inr [op_simps]: "m s = (Inr x, s') \<Longrightarrow> checked m k s = k x s'"
  by (simp add: checked_def)

lemma checked_Inl [op_simps]: "m s = (Inl e, s') \<Longrightarrow> checked m k s = (Inl e, s')"
  by (simp add: checked_def)

lemma checked_fst_Inl: "fst (m s) = Inl e \<Longrightarrow> fst (checked m k s) = Inl e"
  by (auto simp: checked_def split: prod.splits)

lemma checked_ret [simp]: "checked (ret x) k = k x"
  by (simp add: checked_def ret_def)

lemma checked_Pair [simp]: "checked (Pair (Inr x)) k = k x"
  by (simp add: checked_def)

lemma checked_halt [simp]: "checked (halt e) k = halt e"
  by (simp add: checked_def halt_def)

lemma checked_get_state [simp]: "checked get_state k s = k s s"
  by (simp add: checked_def)

lemma checked_put_state [simp]: "checked (put_state f) k s = k () (f s)"
  by (simp add: checked_def)

lemma checked_assoc: "checked (checked m f) g = checked m (\<lambda>x. checked (f x) g)"
  by (rule ext) (auto simp: checked_def split: prod.splits sum.splits)

lemma checked_eq_Inr:
  "checked m k s = (Inr y, t) \<longleftrightarrow> (\<exists>x s'. m s = (Inr x, s') \<and> k x s' = (Inr y, t))"
  by (auto simp: checked_def split: prod.splits sum.splits)

text \<open>Run an operation on a component of a larger state.\<close>

definition on_part :: "('t \<Rightarrow> 's) \<Rightarrow> ('s \<Rightarrow> 't \<Rightarrow> 't) \<Rightarrow> ('s, 'a) op \<Rightarrow> ('t, 'a) op" where
  "on_part get put m = (\<lambda>t. case m (get t) of (r, s') \<Rightarrow> (r, put s' t))"

section \<open>Triples\<close>

text \<open>
  \<open>holds P m Q E\<close>: from a state satisfying \<open>P\<close>, \<open>m\<close> either yields \<open>x\<close> in a state with
  \<open>Q x\<close>, or stops with \<open>e\<close> in a state with \<open>E e\<close>. With \<open>E\<close> false on \<open>Fault\<close> and
  \<open>Hang\<close> it also states that the memory accesses are in bounds and the loops end.
\<close>

definition holds ::
  "('s \<Rightarrow> bool) \<Rightarrow> ('s, 'a) op \<Rightarrow> ('a \<Rightarrow> 's \<Rightarrow> bool) \<Rightarrow> (stop \<Rightarrow> 's \<Rightarrow> bool) \<Rightarrow> bool" where
  "holds P m Q E \<longleftrightarrow>
     (\<forall>s. P s \<longrightarrow> (case m s of (r, s') \<Rightarrow> (case r of Inl e \<Rightarrow> E e s' | Inr x \<Rightarrow> Q x s')))"

lemma holdsI:
  assumes "\<And>s x s'. P s \<Longrightarrow> m s = (Inr x, s') \<Longrightarrow> Q x s'"
    and "\<And>s e s'. P s \<Longrightarrow> m s = (Inl e, s') \<Longrightarrow> E e s'"
  shows "holds P m Q E"
  using assms by (auto simp: holds_def split: prod.splits sum.splits)

lemma holds_Inr: "holds P m Q E \<Longrightarrow> P s \<Longrightarrow> m s = (Inr x, s') \<Longrightarrow> Q x s'"
  by (auto simp: holds_def)

lemma holds_Inl: "holds P m Q E \<Longrightarrow> P s \<Longrightarrow> m s = (Inl e, s') \<Longrightarrow> E e s'"
  by (auto simp: holds_def)

lemma holds_ret [holds_intros]: "(\<And>s. P s \<Longrightarrow> Q x s) \<Longrightarrow> holds P (ret x) Q E"
  by (simp add: holds_def)

lemma holds_halt [holds_intros]: "(\<And>s. P s \<Longrightarrow> E e s) \<Longrightarrow> holds P (halt e) Q E"
  by (simp add: holds_def)

lemma holds_checked:
  assumes "holds P m R E" and "\<And>x. holds (R x) (k x) Q E"
  shows "holds P (checked m k) Q E"
proof (rule holdsI)
  fix s x s' assume "P s" "checked m k s = (Inr x, s')"
  then show "Q x s'"
    using assms by (auto simp: checked_eq_Inr dest: holds_Inr)
next
  fix s e s' assume "P s" and "checked m k s = (Inl e, s')"
  then show "E e s'"
    using assms
    by (auto simp: checked_def split: prod.splits sum.splits dest: holds_Inr holds_Inl)
qed

lemma holds_get_state:
  assumes "\<And>t. P t \<Longrightarrow> holds P (k t) Q E"
  shows "holds P (checked get_state k) Q E"
  using assms by (simp add: holds_def)

lemma holds_put_state: "(\<And>s. P s \<Longrightarrow> Q () (f s)) \<Longrightarrow> holds P (put_state f) Q E"
  by (simp add: holds_def)

lemma holds_put_state_then:
  assumes "holds R (k ()) Q E" and "\<And>s. P s \<Longrightarrow> R (f s)"
  shows "holds P (checked (put_state f) k) Q E"
  using assms by (simp add: holds_def)

lemma holds_if:
  assumes "c \<Longrightarrow> holds P m Q E" and "\<not> c \<Longrightarrow> holds P m' Q E"
  shows "holds P (if c then m else m') Q E"
  using assms by simp

lemma holds_ex:
  assumes "\<And>x. holds (P x) m Q E"
  shows "holds (\<lambda>s. \<exists>x. P x s) m Q E"
  using assms by (blast intro: holdsI dest: holds_Inr holds_Inl)

lemma holds_vacuous: "(\<And>s. \<not> P s) \<Longrightarrow> holds P m Q E"
  by (simp add: holds_def)

lemma holds_pure: "(c \<Longrightarrow> holds P m Q E) \<Longrightarrow> holds (\<lambda>s. c \<and> P s) m Q E"
  by (auto simp: holds_def)

lemma holds_weaken:
  assumes "holds P' m Q' E'"
    and "\<And>s. P s \<Longrightarrow> P' s" and "\<And>x s. Q' x s \<Longrightarrow> Q x s" and "\<And>e s. E' e s \<Longrightarrow> E e s"
  shows "holds P m Q E"
  using assms by (fastforce simp: holds_def split: prod.splits sum.splits)

text \<open>Change the conditions of a triple that is known, with the state before at hand.\<close>

lemma holds_update:
  assumes "holds P' m Q' E'"
    and "\<And>s. P s \<Longrightarrow> P' s"
    and "\<And>s x t. P s \<Longrightarrow> Q' x t \<Longrightarrow> Q x t" and "\<And>s e t. P s \<Longrightarrow> E' e t \<Longrightarrow> E e t"
  shows "holds P m Q E"
  using assms by (blast intro: holdsI dest: holds_Inr holds_Inl)

section \<open>Memory\<close>

text \<open>
  What \<^verbatim>\<open>malloc\<close> and \<^verbatim>\<open>realloc\<close> answer is not determined by the program: for a request of
  \<open>n\<close> bytes the environment refuses (\<open>None\<close>) or gives a block whose initial bytes
  are arbitrary. As documented for \<^verbatim>\<open>malloc(3)\<close>, no request beyond \<^verbatim>\<open>PTRDIFF_MAX\<close> is granted.
  \<^verbatim>\<open>realloc\<close> keeps the common prefix of the old block.
\<close>

type_synonym allocator = "size_t \<Rightarrow> (nat \<Rightarrow> u8) option"

definition malloc :: "allocator \<Rightarrow> size_t \<Rightarrow> u8 list option" where
  "malloc alloc n =
     (if unat n < object_limit then map_option (\<lambda>g. map g [0..<unat n]) (alloc n) else None)"

definition realloc :: "allocator \<Rightarrow> u8 list \<Rightarrow> size_t \<Rightarrow> u8 list option" where
  "realloc alloc old n =
     (if unat n < object_limit
      then map_option (\<lambda>g. take (unat n) old @ map g [length old..<unat n]) (alloc n)
      else None)"

lemma length_malloc: "malloc alloc n = Some m \<Longrightarrow> length m = unat n"
  by (auto simp: malloc_def split: if_splits)

lemma length_realloc: "realloc alloc old n = Some m \<Longrightarrow> length m = unat n"
  by (auto simp: realloc_def split: if_splits)

lemma take_realloc:
  "realloc alloc old n = Some m \<Longrightarrow> k \<le> length old \<Longrightarrow> k \<le> unat n \<Longrightarrow> take k m = take k old"
  by (auto simp: realloc_def split: if_splits)

text \<open>Overwrite the bytes from index \<open>i\<close> on (\<^verbatim>\<open>memcpy\<close> into a block).\<close>

definition blit :: "nat \<Rightarrow> 'a list \<Rightarrow> 'a list \<Rightarrow> 'a list" where
  "blit i bs mem = take i mem @ bs @ drop (i + length bs) mem"

lemma length_blit [simp]: "i + length bs \<le> length mem \<Longrightarrow> length (blit i bs mem) = length mem"
  by (simp add: blit_def)

lemma take_blit:
  "i + length bs \<le> length mem \<Longrightarrow> take (i + length bs) (blit i bs mem) = take i mem @ bs"
  by (simp add: blit_def)

lemma take_blit_same:
  "i + length bs \<le> length mem \<Longrightarrow> n = length bs \<Longrightarrow> take (i + n) (blit i bs mem) = take i mem @ bs"
  by (simp add: take_blit)

lemma blit_single: "i < length mem \<Longrightarrow> mem[i := v] = blit i [v] mem"
  by (simp add: blit_def upd_conv_take_nth_drop)

lemma blit_append_left:
  "n + length bs \<le> length xs \<Longrightarrow> blit n bs (xs @ ys) = blit n bs xs @ ys"
  by (simp add: blit_def)

lemma blit_append_right:
  "n = length xs \<Longrightarrow> blit n bs (xs @ ys) = xs @ blit 0 bs ys"
  by (simp add: blit_def)

lemma blit_nul: "i + length bs \<le> length mem \<Longrightarrow> 0 \<in> set bs \<Longrightarrow> 0 \<in> set (blit i bs mem)"
  by (simp add: blit_def)

text \<open>
  \<^verbatim>\<open>memchr\<close>: the index of the first byte \<open>c\<close>. \<^verbatim>\<open>strlen\<close> looks for the NUL; when the object
  has none, the caller reads past it.
\<close>

fun memchr :: "u8 \<Rightarrow> u8 list \<Rightarrow> nat option" where
  "memchr c [] = None"
| "memchr c (x # xs) = (if x = c then Some 0 else map_option Suc (memchr c xs))"

abbreviation strlen :: "u8 list \<Rightarrow> nat option" where
  "strlen \<equiv> memchr 0"

lemma memchr_Some:
  "memchr c xs = Some n \<Longrightarrow> n < length xs \<and> xs ! n = c \<and> c \<notin> set (take n xs)"
  by (induction xs arbitrary: n) (auto split: if_splits)

lemma memchr_append: "c \<notin> set xs \<Longrightarrow> memchr c (xs @ c # ys) = Some (length xs)"
  by (induction xs) auto

lemma memchr_None: "memchr c xs = None \<longleftrightarrow> c \<notin> set xs"
  by (induction xs) auto

lemmas strlen_Some = memchr_Some [where c = 0]

text \<open>The C string at the start of an object.\<close>

definition c_string :: "u8 list \<Rightarrow> u8 list" where
  "c_string xs = takeWhile (\<lambda>b. b \<noteq> 0) xs"

lemma c_string_blit: "0 \<notin> set bs \<Longrightarrow> c_string (blit 0 (bs @ [0]) old) = bs"
  by (simp add: c_string_def blit_def) (subst takeWhile_append2; auto)

lemma strlen_c_string: "0 \<in> set xs \<Longrightarrow> strlen xs = Some (length (c_string xs))"
  by (induction xs) (auto simp: c_string_def)

lemma take_c_string: "take (length (c_string xs)) xs = c_string xs"
  by (simp add: c_string_def takeWhile_eq_take [symmetric])

lemma c_string_no_nul: "0 \<notin> set (c_string xs)"
  by (auto simp: c_string_def dest: set_takeWhileD)

section \<open>Words\<close>

lemma unat_add_lt: "unat x + unat y < 2 ^ LENGTH('a) \<Longrightarrow> unat (x + y) = unat x + unat y"
  for x y :: "'a::len word"
  by (simp add: unat_word_ariths)

lemma unat_size_t_lt: "unat (x :: size_t) < 18446744073709551616"
  using unsigned_less [of x] by simp

lemma unat_add_size_t:
  "unat x + unat y < 18446744073709551616 \<Longrightarrow> unat (x + y) = unat x + unat y"
  for x y :: size_t
  by (rule unat_add_lt) simp

lemma unat_diff_size_t: "y \<le> x \<Longrightarrow> unat (x - y) = unat x - unat y"
  for x y :: "'a::len word"
  by (rule unat_sub)

lemma unat_word_of_nat_size_t: "n < 18446744073709551616 \<Longrightarrow> unat (word_of_nat n :: size_t) = n"
  by (simp add: unat_of_nat take_bit_eq_mod)

lemma word_of_nat_unat: "word_of_nat (unat x) = (x :: 'a::len word)"
  by simp

lemma unat_ucast_small:
  "unat x < 2 ^ LENGTH('b) \<Longrightarrow> unat (ucast (x :: 'a::len word) :: 'b::len word) = unat x"
  by (simp add: unsigned_ucast_eq take_bit_nat_eq_self)

end
