(* ===== verification/Error_Codes.thy ===== *)
theory Error_Codes
  imports Trilogy_Prelude
begin

text \<open>
  \<^verbatim>\<open>inc/trilogy/error.h\<close> and \<^verbatim>\<open>src/error.c\<close>: the integer of each code, its name as the
  macro \<^verbatim>\<open>XX\<close> writes it, and the lookup \<^verbatim>\<open>trilogy_error\<close> from an integer to a name.
  The codes are told apart by their integers, and the lookup knows exactly these integers.
\<close>

section \<open>Codes and names\<close>

fun rc_code :: "trilogy_rc \<Rightarrow> int" where
  "rc_code TRILOGY_OK = 0"
| "rc_code TRILOGY_ERR = -1"
| "rc_code TRILOGY_EOF = -2"
| "rc_code TRILOGY_SYSERR = -3"
| "rc_code TRILOGY_UNEXPECTED_PACKET = -4"
| "rc_code TRILOGY_TRUNCATED_PACKET = -5"
| "rc_code TRILOGY_PROTOCOL_VIOLATION = -6"
| "rc_code TRILOGY_AUTH_PLUGIN_TOO_LONG = -7"
| "rc_code TRILOGY_EXTRA_DATA_IN_PACKET = -8"
| "rc_code TRILOGY_INVALID_CHARSET = -9"
| "rc_code TRILOGY_AGAIN = -10"
| "rc_code TRILOGY_CLOSED_CONNECTION = -11"
| "rc_code TRILOGY_HAVE_RESULTS = -12"
| "rc_code TRILOGY_NULL_VALUE = -13"
| "rc_code TRILOGY_INVALID_SEQUENCE_ID = -14"
| "rc_code TRILOGY_TYPE_OVERFLOW = -15"
| "rc_code TRILOGY_OPENSSL_ERR = -16"
| "rc_code TRILOGY_UNSUPPORTED = -17"
| "rc_code TRILOGY_DNS_ERR = -18"
| "rc_code TRILOGY_AUTH_SWITCH = -19"
| "rc_code TRILOGY_MAX_PACKET_EXCEEDED = -20"
| "rc_code TRILOGY_UNKNOWN_TYPE = -21"
| "rc_code TRILOGY_TIMEOUT = -22"
| "rc_code TRILOGY_AUTH_PLUGIN_ERROR = -23"
| "rc_code TRILOGY_MEM_ERROR = -24"

fun rc_name :: "trilogy_rc \<Rightarrow> string" where
  "rc_name TRILOGY_OK = ''TRILOGY_OK''"
| "rc_name TRILOGY_ERR = ''TRILOGY_ERR''"
| "rc_name TRILOGY_EOF = ''TRILOGY_EOF''"
| "rc_name TRILOGY_SYSERR = ''TRILOGY_SYSERR''"
| "rc_name TRILOGY_UNEXPECTED_PACKET = ''TRILOGY_UNEXPECTED_PACKET''"
| "rc_name TRILOGY_TRUNCATED_PACKET = ''TRILOGY_TRUNCATED_PACKET''"
| "rc_name TRILOGY_PROTOCOL_VIOLATION = ''TRILOGY_PROTOCOL_VIOLATION''"
| "rc_name TRILOGY_AUTH_PLUGIN_TOO_LONG = ''TRILOGY_AUTH_PLUGIN_TOO_LONG''"
| "rc_name TRILOGY_EXTRA_DATA_IN_PACKET = ''TRILOGY_EXTRA_DATA_IN_PACKET''"
| "rc_name TRILOGY_INVALID_CHARSET = ''TRILOGY_INVALID_CHARSET''"
| "rc_name TRILOGY_AGAIN = ''TRILOGY_AGAIN''"
| "rc_name TRILOGY_CLOSED_CONNECTION = ''TRILOGY_CLOSED_CONNECTION''"
| "rc_name TRILOGY_HAVE_RESULTS = ''TRILOGY_HAVE_RESULTS''"
| "rc_name TRILOGY_NULL_VALUE = ''TRILOGY_NULL_VALUE''"
| "rc_name TRILOGY_INVALID_SEQUENCE_ID = ''TRILOGY_INVALID_SEQUENCE_ID''"
| "rc_name TRILOGY_TYPE_OVERFLOW = ''TRILOGY_TYPE_OVERFLOW''"
| "rc_name TRILOGY_OPENSSL_ERR = ''TRILOGY_OPENSSL_ERR''"
| "rc_name TRILOGY_UNSUPPORTED = ''TRILOGY_UNSUPPORTED''"
| "rc_name TRILOGY_DNS_ERR = ''TRILOGY_DNS_ERR''"
| "rc_name TRILOGY_AUTH_SWITCH = ''TRILOGY_AUTH_SWITCH''"
| "rc_name TRILOGY_MAX_PACKET_EXCEEDED = ''TRILOGY_MAX_PACKET_EXCEEDED''"
| "rc_name TRILOGY_UNKNOWN_TYPE = ''TRILOGY_UNKNOWN_TYPE''"
| "rc_name TRILOGY_TIMEOUT = ''TRILOGY_TIMEOUT''"
| "rc_name TRILOGY_AUTH_PLUGIN_ERROR = ''TRILOGY_AUTH_PLUGIN_ERROR''"
| "rc_name TRILOGY_MEM_ERROR = ''TRILOGY_MEM_ERROR''"

text \<open>\<^verbatim>\<open>trilogy_error\<close>: a \<^verbatim>\<open>switch\<close> over the codes, \<^verbatim>\<open>NULL\<close> by default.\<close>

definition trilogy_error :: "int \<Rightarrow> string option" where
  "trilogy_error n =
     (if n = 0 then Some ''TRILOGY_OK''
      else if n = -1 then Some ''TRILOGY_ERR''
      else if n = -2 then Some ''TRILOGY_EOF''
      else if n = -3 then Some ''TRILOGY_SYSERR''
      else if n = -4 then Some ''TRILOGY_UNEXPECTED_PACKET''
      else if n = -5 then Some ''TRILOGY_TRUNCATED_PACKET''
      else if n = -6 then Some ''TRILOGY_PROTOCOL_VIOLATION''
      else if n = -7 then Some ''TRILOGY_AUTH_PLUGIN_TOO_LONG''
      else if n = -8 then Some ''TRILOGY_EXTRA_DATA_IN_PACKET''
      else if n = -9 then Some ''TRILOGY_INVALID_CHARSET''
      else if n = -10 then Some ''TRILOGY_AGAIN''
      else if n = -11 then Some ''TRILOGY_CLOSED_CONNECTION''
      else if n = -12 then Some ''TRILOGY_HAVE_RESULTS''
      else if n = -13 then Some ''TRILOGY_NULL_VALUE''
      else if n = -14 then Some ''TRILOGY_INVALID_SEQUENCE_ID''
      else if n = -15 then Some ''TRILOGY_TYPE_OVERFLOW''
      else if n = -16 then Some ''TRILOGY_OPENSSL_ERR''
      else if n = -17 then Some ''TRILOGY_UNSUPPORTED''
      else if n = -18 then Some ''TRILOGY_DNS_ERR''
      else if n = -19 then Some ''TRILOGY_AUTH_SWITCH''
      else if n = -20 then Some ''TRILOGY_MAX_PACKET_EXCEEDED''
      else if n = -21 then Some ''TRILOGY_UNKNOWN_TYPE''
      else if n = -22 then Some ''TRILOGY_TIMEOUT''
      else if n = -23 then Some ''TRILOGY_AUTH_PLUGIN_ERROR''
      else if n = -24 then Some ''TRILOGY_MEM_ERROR''
      else None)"

section \<open>Lemmas\<close>

lemma rc_code_inject [simp]: "rc_code a = rc_code b \<longleftrightarrow> a = b"
  by (cases a; cases b; simp)

lemma rc_code_range: "- 24 \<le> rc_code e \<and> rc_code e \<le> 0"
  by (cases e) simp_all

lemma rc_code_neg: "rc_code e < 0 \<longleftrightarrow> e \<noteq> TRILOGY_OK"
  by (cases e) simp_all

lemma trilogy_error_code: "trilogy_error (rc_code e) = Some (rc_name e)"
  by (cases e) (simp_all add: trilogy_error_def)

lemma trilogy_error_Some:
  assumes "trilogy_error n = Some s"
  shows "n \<in> range rc_code"
proof (rule ccontr)
  assume none: "n \<notin> range rc_code"
  then have "n \<noteq> rc_code e" for e by blast
  from this [of TRILOGY_OK] this [of TRILOGY_ERR] this [of TRILOGY_EOF] this [of TRILOGY_SYSERR] this [of TRILOGY_UNEXPECTED_PACKET] this [of TRILOGY_TRUNCATED_PACKET] this [of TRILOGY_PROTOCOL_VIOLATION] this [of TRILOGY_AUTH_PLUGIN_TOO_LONG] this [of TRILOGY_EXTRA_DATA_IN_PACKET] this [of TRILOGY_INVALID_CHARSET] this [of TRILOGY_AGAIN] this [of TRILOGY_CLOSED_CONNECTION] this [of TRILOGY_HAVE_RESULTS] this [of TRILOGY_NULL_VALUE] this [of TRILOGY_INVALID_SEQUENCE_ID] this [of TRILOGY_TYPE_OVERFLOW] this [of TRILOGY_OPENSSL_ERR] this [of TRILOGY_UNSUPPORTED] this [of TRILOGY_DNS_ERR] this [of TRILOGY_AUTH_SWITCH] this [of TRILOGY_MAX_PACKET_EXCEEDED] this [of TRILOGY_UNKNOWN_TYPE] this [of TRILOGY_TIMEOUT] this [of TRILOGY_AUTH_PLUGIN_ERROR] this [of TRILOGY_MEM_ERROR]
  have "trilogy_error n = None" by (simp add: trilogy_error_def)
  with assms show False by simp
qed

text \<open>The code of an integer that a callback returned, for callers that compare codes.\<close>

definition rc_of_int :: "int \<Rightarrow> trilogy_rc" where
  "rc_of_int n =
     (if n = 0 then TRILOGY_OK
      else if n = -1 then TRILOGY_ERR
      else if n = -2 then TRILOGY_EOF
      else if n = -3 then TRILOGY_SYSERR
      else if n = -4 then TRILOGY_UNEXPECTED_PACKET
      else if n = -5 then TRILOGY_TRUNCATED_PACKET
      else if n = -6 then TRILOGY_PROTOCOL_VIOLATION
      else if n = -7 then TRILOGY_AUTH_PLUGIN_TOO_LONG
      else if n = -8 then TRILOGY_EXTRA_DATA_IN_PACKET
      else if n = -9 then TRILOGY_INVALID_CHARSET
      else if n = -10 then TRILOGY_AGAIN
      else if n = -11 then TRILOGY_CLOSED_CONNECTION
      else if n = -12 then TRILOGY_HAVE_RESULTS
      else if n = -13 then TRILOGY_NULL_VALUE
      else if n = -14 then TRILOGY_INVALID_SEQUENCE_ID
      else if n = -15 then TRILOGY_TYPE_OVERFLOW
      else if n = -16 then TRILOGY_OPENSSL_ERR
      else if n = -17 then TRILOGY_UNSUPPORTED
      else if n = -18 then TRILOGY_DNS_ERR
      else if n = -19 then TRILOGY_AUTH_SWITCH
      else if n = -20 then TRILOGY_MAX_PACKET_EXCEEDED
      else if n = -21 then TRILOGY_UNKNOWN_TYPE
      else if n = -22 then TRILOGY_TIMEOUT
      else if n = -23 then TRILOGY_AUTH_PLUGIN_ERROR
      else if n = -24 then TRILOGY_MEM_ERROR
      else TRILOGY_ERR)"

lemma rc_of_int_code [simp]: "rc_of_int (rc_code e) = e"
  by (cases e) (simp_all add: rc_of_int_def)

lemma error_names:
  "trilogy_error (rc_code e) = Some (rc_name e)
   \<and> (trilogy_error n \<noteq> None \<longrightarrow> n \<in> range rc_code)
   \<and> (rc_code e < 0 \<longleftrightarrow> e \<noteq> TRILOGY_OK) \<and> (rc_code e = rc_code e' \<longleftrightarrow> e = e')"
  using trilogy_error_code trilogy_error_Some rc_code_neg rc_code_inject by blast

end
