(* ===== verification/Buffer.thy ===== *)
theory Buffer
  imports Error_Codes
begin

text \<open>
  \<^verbatim>\<open>src/buffer.c\<close>: the growable byte buffer. A buffer is its \<^verbatim>\<open>len\<close>, its \<^verbatim>\<open>cap\<close> and the block
  \<^verbatim>\<open>buff\<close> points to, \<open>None\<close> for \<^verbatim>\<open>NULL\<close>. The block is modelled in full, the bytes beyond
  \<^verbatim>\<open>len\<close> included, since later code reads it. Writes check the block's bounds and stop with
  \<open>Fault\<close> outside it; the lemmas show that they never do when the buffer is well formed.
\<close>

section \<open>The structure and its operations\<close>

record trilogy_buffer =
  buf_len :: size_t
  buf_cap :: size_t
  buf_mem :: "u8 list option"

definition trilogy_buffer_init ::
  "allocator \<Rightarrow> size_t \<Rightarrow> (trilogy_buffer, unit) op" where
  "trilogy_buffer_init alloc initial_capacity = (\<lambda>b.
     (let b' = b\<lparr>buf_len := 0, buf_cap := initial_capacity,
                 buf_mem := malloc alloc initial_capacity\<rparr>
      in if buf_mem b' = None then (Inl (Rc TRILOGY_SYSERR), b') else (Inr (), b')))"

text \<open>
  The loop of \<^verbatim>\<open>trilogy_buffer_expand\<close>: double \<^verbatim>\<open>new_cap\<close> until \<^verbatim>\<open>len + needed\<close> fits.
  \<open>None\<close>: the loop does not end; \<open>Some None\<close>: \<^verbatim>\<open>TRILOGY_TYPE_OVERFLOW\<close>.
\<close>

partial_function (option) grow_loop :: "size_t \<Rightarrow> size_t \<Rightarrow> size_t option option" where
  "grow_loop target new_cap =
     (if target > new_cap
      then if new_cap > SIZE_MAX div 2 then Some None
           else grow_loop target (new_cap * 2)
      else Some (Some new_cap))"

definition trilogy_buffer_expand ::
  "allocator \<Rightarrow> size_t \<Rightarrow> (trilogy_buffer, unit) op" where
  "trilogy_buffer_expand alloc needed = (\<lambda>b.
     if buf_len b + needed > buf_cap b then
       (case buf_mem b of
          None \<Rightarrow> (Inl (Rc TRILOGY_MEM_ERROR), b)
        | Some mem \<Rightarrow>
            (case grow_loop (buf_len b + needed) (buf_cap b) of
               None \<Rightarrow> (Inl Hang, b)
             | Some None \<Rightarrow> (Inl (Rc TRILOGY_TYPE_OVERFLOW), b)
             | Some (Some new_cap) \<Rightarrow>
                 (case realloc alloc mem new_cap of
                    None \<Rightarrow> (Inl (Rc TRILOGY_SYSERR), b)
                  | Some mem' \<Rightarrow> (Inr (), b\<lparr>buf_mem := Some mem', buf_cap := new_cap\<rparr>))))
     else (Inr (), b))"

text \<open>
  The two ways the sources write to the end of the buffer: \<^verbatim>\<open>buff[len++] = c\<close>, and
  \<^verbatim>\<open>memcpy(buff + len, ptr, n); len += n\<close> where \<open>src\<close> is the object \<^verbatim>\<open>ptr\<close> points into.
\<close>

definition buffer_push :: "u8 \<Rightarrow> (trilogy_buffer, unit) op" where
  "buffer_push c = (\<lambda>b.
     case buf_mem b of
       None \<Rightarrow> (Inl Fault, b)
     | Some mem \<Rightarrow>
         if unat (buf_len b) < length mem
         then (Inr (), b\<lparr>buf_mem := Some (mem[unat (buf_len b) := c]), buf_len := buf_len b + 1\<rparr>)
         else (Inl Fault, b))"

definition buffer_copy :: "u8 list \<Rightarrow> size_t \<Rightarrow> (trilogy_buffer, unit) op" where
  "buffer_copy src n = (\<lambda>b.
     case buf_mem b of
       None \<Rightarrow> (Inl Fault, b)
     | Some mem \<Rightarrow>
         if unat n \<le> length src \<and> unat (buf_len b) + unat n \<le> length mem
         then (Inr (), b\<lparr>buf_mem := Some (blit (unat (buf_len b)) (take (unat n) src) mem),
                         buf_len := buf_len b + n\<rparr>)
         else (Inl Fault, b))"

text \<open>\<^verbatim>\<open>buff[i] = c\<close> at a given index.\<close>

definition buffer_poke :: "size_t \<Rightarrow> u8 \<Rightarrow> (trilogy_buffer, unit) op" where
  "buffer_poke i c = (\<lambda>b.
     case buf_mem b of
       None \<Rightarrow> (Inl Fault, b)
     | Some mem \<Rightarrow>
         if unat i < length mem
         then (Inr (), b\<lparr>buf_mem := Some (mem[unat i := c])\<rparr>)
         else (Inl Fault, b))"

definition trilogy_buffer_putc :: "allocator \<Rightarrow> u8 \<Rightarrow> (trilogy_buffer, unit) op" where
  "trilogy_buffer_putc alloc c =
     checked (trilogy_buffer_expand alloc 1) (\<lambda>_. buffer_push c)"

definition trilogy_buffer_write ::
  "allocator \<Rightarrow> u8 list \<Rightarrow> size_t \<Rightarrow> (trilogy_buffer, unit) op" where
  "trilogy_buffer_write alloc ptr len =
     checked (trilogy_buffer_expand alloc len) (\<lambda>_. buffer_copy ptr len)"

definition trilogy_buffer_free :: "trilogy_buffer \<Rightarrow> trilogy_buffer" where
  "trilogy_buffer_free b =
     (if buf_mem b \<noteq> None then b\<lparr>buf_mem := None, buf_len := 0, buf_cap := 0\<rparr> else b)"

section \<open>The growth loop\<close>

text \<open>
  With capacity 0 the loop doubles 0 for ever; from any other capacity it ends, after at
  most 64 doublings, and its result is the first doubling that is large enough.
\<close>

lemma grow_loop_zero: "0 < target \<Longrightarrow> grow_loop target 0 = None"
proof (rule ccontr)
  assume pos: "0 < target" and "grow_loop target 0 \<noteq> None"
  then obtain r where ret: "grow_loop target 0 = Some r" by auto
  have "c = 0 \<longrightarrow> \<not> 0 < t" if "grow_loop t c = Some r" for t c
    by (rule grow_loop.raw_induct [where P = "\<lambda>t c r. c = 0 \<longrightarrow> \<not> 0 < t", OF _ that])
      (auto split: if_splits)
  from this [OF ret] pos show False by simp
qed

lemma unat_double:
  assumes "\<not> c > SIZE_MAX div 2"
  shows "unat (c * 2) = 2 * unat (c :: size_t)"
proof -
  have "unat c \<le> unat (SIZE_MAX div 2 :: size_t)"
    using assms by (simp add: word_le_nat_alt not_less)
  also have "unat (SIZE_MAX div 2 :: size_t) = 9223372036854775807"
    by simp
  finally have "2 * unat c < 2 ^ 64" by simp
  then show ?thesis by (simp add: unat_word_ariths mult.commute)
qed

lemma grow_loop_Some:
  assumes "c \<noteq> 0"
  shows "\<exists>r. grow_loop target c = Some r \<and>
     (\<forall>c'. r = Some c' \<longrightarrow>
        target \<le> c' \<and> (\<exists>k. unat c' = 2 ^ k * unat c \<and> (\<forall>j<k. 2 ^ j * unat c < unat target)))
     \<and> (r = None \<longrightarrow> 2 ^ 63 < unat target)"
  using assms
proof (induction "2 ^ 64 - unat c" arbitrary: c rule: less_induct)
  case less
  show ?case
  proof (cases "target > c")
    case fits: False
    then have "grow_loop target c = Some (Some c)" by (simp add: grow_loop.simps)
    with fits show ?thesis by (auto simp: not_less intro!: exI [of _ 0])
  next
    case big: True
    show ?thesis
    proof (cases "c > SIZE_MAX div 2")
      case True
      then have "unat (SIZE_MAX div 2 :: size_t) < unat c" by (simp add: word_less_nat_alt)
      then have "9223372036854775807 < unat c" by simp
      moreover have "unat c < unat target" using big by (simp add: word_less_nat_alt)
      ultimately have "2 ^ 63 < unat target" by simp
      with big True show ?thesis by (simp add: grow_loop.simps)
    next
      case False
      have dbl: "unat (c * 2) = 2 * unat c" by (rule unat_double) (rule False)
      have pos: "0 < unat c" using less.prems by (simp add: unat_gt_0)
      have "c * 2 \<noteq> 0" using dbl pos by (metis mult_pos_pos unat_0 less_numeral_extra(3) zero_less_numeral)
      moreover have "unat c < 2 ^ 64" using unsigned_less [of c] by simp
      then have "2 ^ 64 - unat (c * 2) < 2 ^ 64 - unat c" using dbl pos by simp
      ultimately obtain r where r: "grow_loop target (c * 2) = Some r"
        and bound: "\<And>c'. r = Some c' \<Longrightarrow> target \<le> c' \<and>
              (\<exists>k. unat c' = 2 ^ k * unat (c * 2) \<and> (\<forall>j<k. 2 ^ j * unat (c * 2) < unat target))"
        and none: "r = None \<Longrightarrow> 2 ^ 63 < unat target"
        using less.hyps by blast
      have "grow_loop target c = Some r"
        using r big False by (simp add: grow_loop.simps [of target c])
      moreover have "target \<le> c' \<and>
              (\<exists>k. unat c' = 2 ^ k * unat c \<and> (\<forall>j<k. 2 ^ j * unat c < unat target))"
        if "r = Some c'" for c'
      proof -
        from bound [OF that] obtain k where k: "target \<le> c'" "unat c' = 2 ^ k * unat (c * 2)"
          "\<forall>j<k. 2 ^ j * unat (c * 2) < unat target" by blast
        have "2 ^ j * unat c < unat target" if "j < Suc k" for j
        proof (cases j)
          case 0
          with big show ?thesis by (simp add: word_less_nat_alt)
        next
          case (Suc i)
          then have "2 ^ i * (2 * unat c) < unat target" using that k(3) dbl by simp
          then show ?thesis using Suc by (simp add: mult.left_commute)
        qed
        moreover have "unat c' = 2 ^ Suc k * unat c" using k(2) dbl by simp
        ultimately show ?thesis using k(1) by blast
      qed
      ultimately show ?thesis using none by blast
    qed
  qed
qed

lemma grow_loop_None_iff: "grow_loop target c = None \<longleftrightarrow> c = 0 \<and> 0 < target"
proof (cases "c = 0")
  case True
  show ?thesis
  proof (cases "0 < target")
    case False
    then show ?thesis using True by (subst grow_loop.simps) simp
  qed (simp add: True grow_loop_zero)
next
  case False
  then show ?thesis using grow_loop_Some [OF False, of target] by auto
qed

section \<open>Well-formed buffers\<close>

text \<open>
  A buffer is well formed when its block has \<^verbatim>\<open>cap\<close> bytes, \<^verbatim>\<open>len\<close> of them in use, and the
  capacity is not 0 (otherwise the growth loop would not end) and within the size of an
  object. Its contents are the bytes in use.
\<close>

definition buffer_ok :: "trilogy_buffer \<Rightarrow> bool" where
  "buffer_ok b \<longleftrightarrow>
     (case buf_mem b of None \<Rightarrow> False | Some mem \<Rightarrow> length mem = unat (buf_cap b))
     \<and> unat (buf_len b) \<le> unat (buf_cap b) \<and> 0 < unat (buf_cap b) \<and> unat (buf_cap b) < object_limit"

definition contents :: "trilogy_buffer \<Rightarrow> u8 list" where
  "contents b = (case buf_mem b of None \<Rightarrow> [] | Some mem \<Rightarrow> take (unat (buf_len b)) mem)"

text \<open>The room left behind the contents.\<close>

definition room :: "trilogy_buffer \<Rightarrow> nat" where
  "room b = unat (buf_cap b) - unat (buf_len b)"

lemma buffer_okE:
  assumes "buffer_ok b"
  obtains mem where "buf_mem b = Some mem" "length mem = unat (buf_cap b)"
    "unat (buf_len b) \<le> length mem" "contents b = take (unat (buf_len b)) mem"
    "length mem < object_limit" "0 < length mem"
  using assms by (auto simp: buffer_ok_def contents_def split: option.splits)

lemma length_contents: "buffer_ok b \<Longrightarrow> length (contents b) = unat (buf_len b)"
  by (erule buffer_okE) simp

lemma buffer_ok_reset:
  "buffer_ok b \<Longrightarrow> buffer_ok (b\<lparr>buf_len := 0\<rparr>) \<and> contents (b\<lparr>buf_len := 0\<rparr>) = []"
  by (auto simp: buffer_ok_def contents_def split: option.splits)

lemma buffer_init_ok:
  assumes "0 < unat n" and "trilogy_buffer_init alloc n b = (Inr (), b')"
  shows "buffer_ok b' \<and> contents b' = [] \<and> buf_cap b' = n"
  using assms
  by (auto simp: trilogy_buffer_init_def Let_def buffer_ok_def contents_def malloc_def
      split: if_splits)

lemma object_limit_size_t: "2 * object_limit = 18446744073709551616"
  by (simp add: object_limit_def)

text \<open>
  Making room: with a request that an object could hold, \<^verbatim>\<open>trilogy_buffer_expand\<close> keeps the
  contents and, on \<^verbatim>\<open>TRILOGY_OK\<close>, leaves room for the request; it neither faults nor hangs.
  It can only answer \<^verbatim>\<open>TRILOGY_SYSERR\<close> or \<^verbatim>\<open>TRILOGY_TYPE_OVERFLOW\<close>, and neither when the
  allocator grants every request and at most \<open>2 ^ 62\<close> bytes are needed in all.
\<close>

definition code_only :: "stop \<Rightarrow> bool" where
  "code_only e \<longleftrightarrow> (case e of Rc c \<Rightarrow> True | Fault \<Rightarrow> False | Hang \<Rightarrow> False)"

lemma code_only_simps [simp]: "code_only (Rc c)" "\<not> code_only Fault" "\<not> code_only Hang"
  by (simp_all add: code_only_def)

lemma unat_len_plus:
  assumes "buffer_ok b" and "unat n < object_limit"
  shows "unat (buf_len b + n) = unat (buf_len b) + unat n"
proof -
  from assms(1) have "unat (buf_len b) < object_limit" by (auto simp: buffer_ok_def)
  with assms(2) have "unat (buf_len b) + unat n < 18446744073709551616"
    using object_limit_size_t by linarith
  then show ?thesis by (rule unat_add_size_t)
qed

definition generous :: "allocator \<Rightarrow> bool" where
  "generous alloc \<longleftrightarrow> (\<forall>n. alloc n \<noteq> None)"

definition refuses :: "allocator \<Rightarrow> nat \<Rightarrow> stop \<Rightarrow> bool" where
  "refuses alloc n e \<longleftrightarrow>
     (e = Rc TRILOGY_SYSERR \<or> e = Rc TRILOGY_TYPE_OVERFLOW) \<and> \<not> (generous alloc \<and> n \<le> 2 ^ 62)"

lemma refuses_code: "refuses alloc n e \<Longrightarrow> code_only e"
  by (auto simp: refuses_def)

lemma refuses_mono: "refuses alloc n e \<Longrightarrow> n \<le> m \<Longrightarrow> refuses alloc m e"
  by (auto simp: refuses_def)

lemma expand_refuses:
  assumes ok: "buffer_ok b" and n: "unat n < object_limit"
    and run: "trilogy_buffer_expand alloc n b = (Inl e, b')"
  shows "b' = b \<and> refuses alloc (unat (buf_len b) + unat n) e"
proof -
  from ok obtain mem where mem: "buf_mem b = Some mem" "0 < length mem" "length mem = unat (buf_cap b)"
    "length mem < object_limit"
    by (blast elim: buffer_okE)
  then have cap: "buf_cap b \<noteq> 0" by auto
  have sum: "unat (buf_len b + n) = unat (buf_len b) + unat n" by (rule unat_len_plus) (fact ok n)+
  obtain r where r: "grow_loop (buf_len b + n) (buf_cap b) = Some r"
    and big: "r = None \<Longrightarrow> 2 ^ 63 < unat (buf_len b + n)"
    and dbl: "\<And>c. r = Some c \<Longrightarrow>
      \<exists>k. unat c = 2 ^ k * unat (buf_cap b) \<and> (\<forall>j<k. 2 ^ j * unat (buf_cap b) < unat (buf_len b + n))"
    using grow_loop_Some [OF cap, of "buf_len b + n"] by blast
  show ?thesis
  proof (cases r)
    case None
    with run mem r big sum show ?thesis
      by (auto simp: trilogy_buffer_expand_def refuses_def split: if_splits)
  next
    case (Some c)
    with run mem r have *: "b' = b" "e = Rc TRILOGY_SYSERR" "realloc alloc mem c = None"
      by (auto simp: trilogy_buffer_expand_def split: if_splits option.splits)
    have "\<not> (generous alloc \<and> unat (buf_len b) + unat n \<le> 2 ^ 62)"
    proof
      assume gen: "generous alloc \<and> unat (buf_len b) + unat n \<le> 2 ^ 62"
      obtain k where k: "unat c = 2 ^ k * unat (buf_cap b)"
        "\<forall>j<k. 2 ^ j * unat (buf_cap b) < unat (buf_len b) + unat n"
        using dbl [OF Some] sum by auto
      have "unat c < object_limit"
      proof (cases k)
        case 0
        with k mem show ?thesis by simp
      next
        case (Suc j)
        then have "2 ^ j * unat (buf_cap b) < 2 ^ 62" using k(2) gen by fastforce
        with Suc k(1) show ?thesis by (simp add: object_limit_def mult.commute)
      qed
      moreover have "alloc c \<noteq> None" using gen unfolding generous_def by blast
      ultimately show False using *(3) by (auto simp: realloc_def)
    qed
    with * show ?thesis by (simp add: refuses_def)
  qed
qed

lemma expand_holds:
  assumes n: "unat n < object_limit"
  shows "holds (\<lambda>b. buffer_ok b \<and> contents b = c) (trilogy_buffer_expand alloc n)
    (\<lambda>_ b. buffer_ok b \<and> contents b = c \<and> unat n \<le> room b)
    (\<lambda>e b. buffer_ok b \<and> contents b = c \<and> refuses alloc (length c + unat n) e)"
proof (rule holdsI)
  fix b x b'
  assume pre: "buffer_ok b \<and> contents b = c" and run: "trilogy_buffer_expand alloc n b = (Inr x, b')"
  then obtain mem where mem: "buf_mem b = Some mem" "length mem = unat (buf_cap b)"
    "unat (buf_len b) \<le> length mem" "contents b = take (unat (buf_len b)) mem"
    "length mem < object_limit" "0 < length mem" by (blast elim: buffer_okE)
  have sum: "unat (buf_len b + n) = unat (buf_len b) + unat n"
    using pre n by (simp add: unat_len_plus)
  show "buffer_ok b' \<and> contents b' = c \<and> unat n \<le> room b'"
  proof (cases "buf_len b + n > buf_cap b")
    case False
    then have "unat (buf_len b) + unat n \<le> unat (buf_cap b)"
      using sum by (simp add: not_less word_le_nat_alt)
    with False run pre show ?thesis by (auto simp: trilogy_buffer_expand_def room_def)
  next
    case True
    from mem have cap: "buf_cap b \<noteq> 0" by auto
    from True run mem obtain cap' mem' where
      grow: "grow_loop (buf_len b + n) (buf_cap b) = Some (Some cap')" and
      alc: "realloc alloc mem cap' = Some mem'" and b': "b' = b\<lparr>buf_mem := Some mem', buf_cap := cap'\<rparr>"
      by (auto simp: trilogy_buffer_expand_def split: option.splits)
    have fit: "unat (buf_len b) + unat n \<le> unat cap'"
      using grow_loop_Some [OF cap, of "buf_len b + n"] grow sum by (auto simp: word_le_nat_alt)
    have len': "length mem' = unat cap'" using alc by (rule length_realloc)
    have "unat cap' < object_limit" using alc by (auto simp: realloc_def split: if_splits)
    moreover have "take (unat (buf_len b)) mem' = take (unat (buf_len b)) mem"
      using take_realloc [OF alc] mem fit by simp
    moreover have "0 < unat cap'"
      using fit True sum by (auto simp: word_less_nat_alt)
    ultimately show ?thesis
      using len' fit mem pre by (auto simp: b' buffer_ok_def contents_def room_def)
  qed
next
  fix b e b'
  assume "buffer_ok b \<and> contents b = c" and "trilogy_buffer_expand alloc n b = (Inl e, b')"
  then show "buffer_ok b' \<and> contents b' = c \<and> refuses alloc (length c + unat n) e"
    using expand_refuses [OF _ n] length_contents by fastforce
qed

text \<open>The capacity reached is the first doubling of the old one that is large enough.\<close>

lemma expand_least_doubling:
  assumes "buffer_ok b" and "unat n < object_limit"
    and run: "trilogy_buffer_expand alloc n b = (Inr (), b')"
  shows "\<exists>k. unat (buf_cap b') = 2 ^ k * unat (buf_cap b)
    \<and> unat (buf_len b) + unat n \<le> unat (buf_cap b')
    \<and> (\<forall>j<k. 2 ^ j * unat (buf_cap b) < unat (buf_len b) + unat n)"
proof (cases "buf_len b + n > buf_cap b")
  case False
  then have "unat (buf_len b) + unat n \<le> unat (buf_cap b)"
    using unat_len_plus [OF assms(1,2)] by (simp add: not_less word_le_nat_alt)
  with False run show ?thesis
    by (auto simp: trilogy_buffer_expand_def intro!: exI [of _ 0])
next
  case True
  from assms(1) have cap: "buf_cap b \<noteq> 0" by (auto simp: buffer_ok_def)
  from True run obtain cap' where
    grow: "grow_loop (buf_len b + n) (buf_cap b) = Some (Some cap')" and b': "buf_cap b' = cap'"
    by (auto simp: trilogy_buffer_expand_def split: option.splits)
  with grow_loop_Some [OF cap, of "buf_len b + n"] unat_len_plus [OF assms(1,2)]
  show ?thesis by (auto simp: word_le_nat_alt)
qed

section \<open>The interface of a growable store\<close>

text \<open>
  What the callers of the buffer (the builder, the packet callbacks, the escaping of
  strings) rely on: a store with its bytes, in which room is reserved first and bytes are
  written behind the others afterwards. Appending as the sources do it, reserving first,
  is proved once, from these laws.
\<close>

locale growable =
  fixes reserve :: "size_t \<Rightarrow> ('s, unit) op"
    and push :: "u8 \<Rightarrow> ('s, unit) op"
    and copy :: "u8 list \<Rightarrow> size_t \<Rightarrow> ('s, unit) op"
    and poke :: "size_t \<Rightarrow> u8 \<Rightarrow> ('s, unit) op"
    and ok :: "'s \<Rightarrow> bool"
    and bytes :: "'s \<Rightarrow> u8 list"
    and space :: "'s \<Rightarrow> nat"
    and refused :: "nat \<Rightarrow> stop \<Rightarrow> bool"
  assumes reserve_law: "unat n < object_limit \<Longrightarrow>
      holds (\<lambda>s. ok s \<and> bytes s = c) (reserve n)
        (\<lambda>_ s. ok s \<and> bytes s = c \<and> unat n \<le> space s)
        (\<lambda>e s. ok s \<and> bytes s = c \<and> refused (length c + unat n) e)"
    and push_law:
      "holds (\<lambda>s. ok s \<and> bytes s = c \<and> Suc k \<le> space s) (push v)
        (\<lambda>_ s. ok s \<and> bytes s = c @ [v] \<and> k \<le> space s) (\<lambda>_ _. False)"
    and copy_law: "unat n \<le> length src \<Longrightarrow>
      holds (\<lambda>s. ok s \<and> bytes s = c \<and> unat n \<le> space s) (copy src n)
        (\<lambda>_ s. ok s \<and> bytes s = c @ take (unat n) src) (\<lambda>_ _. False)"
    and poke_law: "unat i < length c \<Longrightarrow>
      holds (\<lambda>s. ok s \<and> bytes s = c) (poke i v)
        (\<lambda>_ s. ok s \<and> bytes s = c[unat i := v]) (\<lambda>_ _. False)"
    and refused_code: "refused size1 e \<Longrightarrow> code_only e"
    and refused_mono: "refused size1 e \<Longrightarrow> size1 \<le> size2 \<Longrightarrow> refused size2 e"
begin

lemma append_byte:
  "holds (\<lambda>s. ok s \<and> bytes s = c) (checked (reserve 1) (\<lambda>_. push v))
     (\<lambda>_ s. ok s \<and> bytes s = c @ [v]) (\<lambda>e s. ok s \<and> bytes s = c \<and> refused (length c + 1) e)"
proof (rule holds_checked)
  show "holds (\<lambda>s. ok s \<and> bytes s = c) (reserve 1)
      (\<lambda>_ s. ok s \<and> bytes s = c \<and> unat (1 :: size_t) \<le> space s)
      (\<lambda>e s. ok s \<and> bytes s = c \<and> refused (length c + 1) e)"
    by (rule holds_weaken [OF reserve_law [of 1 c]]) (simp_all add: object_limit_def)
  show "holds (\<lambda>s. ok s \<and> bytes s = c \<and> unat (1 :: size_t) \<le> space s) (push v)
      (\<lambda>_ s. ok s \<and> bytes s = c @ [v])
      (\<lambda>e s. ok s \<and> bytes s = c \<and> refused (length c + 1) e)"
    by (rule holds_weaken [OF push_law [of c 0 v]]) auto
qed

lemma append_copy:
  assumes "unat n \<le> length src" and "unat n < object_limit"
  shows "holds (\<lambda>s. ok s \<and> bytes s = c) (checked (reserve n) (\<lambda>_. copy src n))
     (\<lambda>_ s. ok s \<and> bytes s = c @ take (unat n) src)
     (\<lambda>e s. ok s \<and> bytes s = c \<and> refused (length c + unat n) e)"
  by (rule holds_checked [OF reserve_law [OF assms(2)]])
    (rule holds_weaken [OF copy_law [OF assms(1)]], auto)

end

lemma push_holds:
  "holds (\<lambda>b. buffer_ok b \<and> contents b = c \<and> Suc k \<le> room b) (buffer_push v)
     (\<lambda>_ b. buffer_ok b \<and> contents b = c @ [v] \<and> k \<le> room b) (\<lambda>_ _. False)"
  unfolding holds_def
proof (intro allI impI)
  fix b assume pre: "buffer_ok b \<and> contents b = c \<and> Suc k \<le> room b"
  then obtain mem where mem: "buf_mem b = Some mem" "length mem = unat (buf_cap b)"
    "contents b = take (unat (buf_len b)) mem" "length mem < object_limit"
    by (blast elim: buffer_okE)
  have "Suc k \<le> room b" using pre by blast
  then have lt: "unat (buf_len b) < length mem" using mem(2) unfolding room_def by linarith
  have "unat (buf_len b + 1) = unat (buf_len b) + unat (1 :: size_t)"
    by (rule unat_len_plus) (use pre in \<open>simp_all add: object_limit_def\<close>)
  then have len: "unat (buf_len b + 1) = Suc (unat (buf_len b))" by simp
  have "take (Suc (unat (buf_len b))) (mem[unat (buf_len b) := v]) = take (unat (buf_len b)) mem @ [v]"
    using lt by (simp add: take_Suc_conv_app_nth)
  with lt len mem pre
  show "case buffer_push v b of (r, s') \<Rightarrow> case r of Inl e \<Rightarrow> False
      | Inr x \<Rightarrow> buffer_ok s' \<and> contents s' = c @ [v] \<and> k \<le> room s'"
    by (auto simp: buffer_push_def buffer_ok_def contents_def room_def)
qed

lemma copy_holds:
  assumes n: "unat n \<le> length src"
  shows "holds (\<lambda>b. buffer_ok b \<and> contents b = c \<and> unat n \<le> room b) (buffer_copy src n)
     (\<lambda>_ b. buffer_ok b \<and> contents b = c @ take (unat n) src) (\<lambda>_ _. False)"
  unfolding holds_def
proof (intro allI impI)
  fix b assume pre: "buffer_ok b \<and> contents b = c \<and> unat n \<le> room b"
  then obtain mem where mem: "buf_mem b = Some mem" "length mem = unat (buf_cap b)"
    "unat (buf_len b) \<le> length mem" "contents b = take (unat (buf_len b)) mem"
    "length mem < object_limit" by (blast elim: buffer_okE)
  have "unat n \<le> room b" using pre by blast
  then have fit: "unat (buf_len b) + unat n \<le> length mem"
    using mem(2,3) unfolding room_def by linarith
  have "unat (buf_len b + n) = unat (buf_len b) + unat n"
    by (rule unat_len_plus) (use pre fit mem(5) in auto)
  with fit n mem pre
  show "case buffer_copy src n b of (r, s') \<Rightarrow> case r of Inl e \<Rightarrow> False
      | Inr x \<Rightarrow> buffer_ok s' \<and> contents s' = c @ take (unat n) src"
    by (auto simp: buffer_copy_def buffer_ok_def contents_def take_blit_same)
qed

lemma poke_holds:
  assumes i: "unat i < length c"
  shows "holds (\<lambda>b. buffer_ok b \<and> contents b = c) (buffer_poke i v)
     (\<lambda>_ b. buffer_ok b \<and> contents b = c[unat i := v]) (\<lambda>_ _. False)"
  unfolding holds_def
proof (intro allI impI)
  fix b assume pre: "buffer_ok b \<and> contents b = c"
  then obtain mem where mem: "buf_mem b = Some mem" "length mem = unat (buf_cap b)"
    "unat (buf_len b) \<le> length mem" "contents b = take (unat (buf_len b)) mem"
    by (blast elim: buffer_okE)
  have "length c = unat (buf_len b)" using pre by (auto simp: length_contents)
  with i mem have "unat i < length mem" by linarith
  with mem pre show "case buffer_poke i v b of (r, s') \<Rightarrow> case r of Inl e \<Rightarrow> False
      | Inr x \<Rightarrow> buffer_ok s' \<and> contents s' = c[unat i := v]"
    by (auto simp: buffer_poke_def buffer_ok_def contents_def take_update_swap)
qed

interpretation store: growable "trilogy_buffer_expand alloc" buffer_push buffer_copy buffer_poke
    buffer_ok contents room "refuses alloc" for alloc
  by unfold_locales
    (rule expand_holds push_holds copy_holds poke_holds refuses_code refuses_mono; assumption)+

lemma buffer_putc_holds:
  "holds (\<lambda>b. buffer_ok b \<and> contents b = c) (trilogy_buffer_putc alloc v)
     (\<lambda>_ b. buffer_ok b \<and> contents b = c @ [v])
     (\<lambda>e b. buffer_ok b \<and> contents b = c \<and> refuses alloc (length c + 1) e)"
  unfolding trilogy_buffer_putc_def by (rule store.append_byte)

lemma buffer_write_holds:
  "unat n \<le> length src \<Longrightarrow> unat n < object_limit \<Longrightarrow>
   holds (\<lambda>b. buffer_ok b \<and> contents b = c) (trilogy_buffer_write alloc src n)
     (\<lambda>_ b. buffer_ok b \<and> contents b = c @ take (unat n) src)
     (\<lambda>e b. buffer_ok b \<and> contents b = c \<and> refuses alloc (length c + unat n) e)"
  unfolding trilogy_buffer_write_def by (rule store.append_copy)

end
