(* ===== verification/Wire_Format.thy ===== *)
theory Wire_Format
  imports Trilogy_Prelude
begin

text \<open>
  The byte formats of the protocol, as the abstract side of the round trips: little-endian
  integers, length-encoded integers and strings, and the framing of a payload into packets
  of at most \<^verbatim>\<open>TRILOGY_MAX_PACKET_LEN\<close> bytes. The builder is shown to produce these bytes,
  the reader and the packet parser to read them back.
\<close>

section \<open>Little-endian integers\<close>

text \<open>The \<open>n\<close> lowest bytes of a word, least significant first.\<close>

definition le_bytes :: "nat \<Rightarrow> 'a::len word \<Rightarrow> u8 list" where
  "le_bytes n v = map (\<lambda>i. ucast (drop_bit (8 * i) v)) [0..<n]"

text \<open>The word whose bytes are given, least significant first.\<close>

primrec of_le_bytes :: "u8 list \<Rightarrow> 'a::len word" where
  "of_le_bytes [] = 0"
| "of_le_bytes (b # bs) = ucast b OR push_bit 8 (of_le_bytes bs)"

lemma length_le_bytes [simp]: "length (le_bytes n v) = n"
  by (simp add: le_bytes_def)

lemma le_bytes_0 [simp]: "le_bytes 0 v = []"
  by (simp add: le_bytes_def)

lemma le_bytes_Suc: "le_bytes (Suc n) v = ucast v # le_bytes n (drop_bit 8 v)"
proof -
  have "[0..<Suc n] = 0 # map Suc [0..<n]"
    by (simp add: map_Suc_upt upt_conv_Cons del: upt_Suc)
  then show ?thesis
    by (simp add: le_bytes_def drop_bit_drop_bit add.commute del: upt_Suc)
qed

lemma of_le_bytes_le_bytes: "of_le_bytes (le_bytes n v) = take_bit (8 * n) v"
  for v :: "'a::len word"
proof (induction n arbitrary: v)
  case 0
  then show ?case by simp
next
  case (Suc n)
  have "(ucast (ucast v :: u8) :: 'a word) OR push_bit 8 (take_bit (8 * n) (drop_bit 8 v))
      = take_bit (8 * Suc n) v"
    by (rule bit_word_eqI) (auto simp: bit_simps not_less)
  with Suc show ?case by (simp add: le_bytes_Suc)
qed

lemma of_le_bytes_full: "LENGTH('a) \<le> 8 * n \<Longrightarrow> of_le_bytes (le_bytes n v) = (v :: 'a::len word)"
  by (rule bit_word_eqI) (simp add: of_le_bytes_le_bytes bit_simps)

lemma bit_of_le_bytes:
  "bit (of_le_bytes bs :: 'a::len word) i \<longleftrightarrow>
     i < LENGTH('a) \<and> i < 8 * length bs \<and> bit (bs ! (i div 8)) (i mod 8)"
proof (induction bs arbitrary: i)
  case Nil
  then show ?case by simp
next
  case (Cons b bs)
  show ?case
  proof (cases "i < 8")
    case True
    then show ?thesis by (auto simp: bit_simps)
  next
    case False
    then have "i div 8 = Suc ((i - 8) div 8)" and "i mod 8 = (i - 8) mod 8" and "\<not> bit b i"
      using bit_imp_le_length [of b i] by (auto simp: le_div_geq le_mod_geq)
    with False show ?thesis by (auto simp: bit_simps Cons)
  qed
qed

lemma ucast_of_le_bytes:
  assumes "8 * length bs \<le> LENGTH('a)" and "LENGTH('a) \<le> LENGTH('b)"
  shows "ucast (of_le_bytes bs :: 'a::len word) = (of_le_bytes bs :: 'b::len word)"
  using assms by (intro bit_word_eqI) (auto simp: bit_simps bit_of_le_bytes)

section \<open>Length-encoded integers and strings\<close>

definition lenenc_bytes :: "u64 \<Rightarrow> u8 list" where
  "lenenc_bytes v =
     (if v < 251 then [ucast v]
      else if v \<le> 0xffff then 0xfc # le_bytes 2 v
      else if v \<le> 0xffffff then 0xfd # le_bytes 3 v
      else 0xfe # le_bytes 8 v)"

definition lenenc_string :: "u8 list \<Rightarrow> u8 list" where
  "lenenc_string bs = lenenc_bytes (word_of_nat (length bs)) @ bs"

lemma lenenc_bytes_not_Nil [simp]: "lenenc_bytes v \<noteq> []"
  by (simp add: lenenc_bytes_def)

lemma length_lenenc_bytes: "length (lenenc_bytes v) \<le> 9"
  by (simp add: lenenc_bytes_def)

section \<open>Frames\<close>

definition TRILOGY_MAX_PACKET_LEN :: nat where
  "TRILOGY_MAX_PACKET_LEN = 0xffffff"

definition packet_header :: "nat \<Rightarrow> u8 \<Rightarrow> u8 list" where
  "packet_header n seq =
     [word_of_nat n, word_of_nat (n div 256), word_of_nat (n div 65536), seq]"

lemma length_packet_header [simp]: "length (packet_header n seq) = 4"
  by (simp add: packet_header_def)

lemma max_packet_pos [simp]: "0 < TRILOGY_MAX_PACKET_LEN"
  by (simp add: TRILOGY_MAX_PACKET_LEN_def)

text \<open>
  A payload as it goes over the wire: fragments of exactly \<^verbatim>\<open>TRILOGY_MAX_PACKET_LEN\<close> bytes,
  each with the next sequence number, and a last, shorter one, which is empty when the
  length of the payload is a multiple of the limit.
\<close>

function frames :: "u8 \<Rightarrow> u8 list \<Rightarrow> u8 list" where
  "frames seq p =
     (if length p < TRILOGY_MAX_PACKET_LEN then packet_header (length p) seq @ p
      else packet_header TRILOGY_MAX_PACKET_LEN seq @ take TRILOGY_MAX_PACKET_LEN p
           @ frames (seq + 1) (drop TRILOGY_MAX_PACKET_LEN p))"
  by pat_completeness auto
termination
proof (relation "measure (\<lambda>(seq, p). length p)", goal_cases)
  case (2 seq p)
  then have "0 < length p" using max_packet_pos by linarith
  then show ?case by simp
qed simp

declare frames.simps [simp del]

lemma frames_short:
  "length p < TRILOGY_MAX_PACKET_LEN \<Longrightarrow> frames seq p = packet_header (length p) seq @ p"
  by (simp add: frames.simps)

lemma frames_full:
  "length p = TRILOGY_MAX_PACKET_LEN \<Longrightarrow>
   frames seq (p @ q) = packet_header TRILOGY_MAX_PACKET_LEN seq @ p @ frames (seq + 1) q"
  by (simp add: frames.simps [of seq "p @ q"])

lemma length_frames:
  "length (frames seq p) = length p + 4 * (length p div TRILOGY_MAX_PACKET_LEN + 1)"
proof (induction seq p rule: frames.induct)
  case (1 seq p)
  show ?case
  proof (cases "length p < TRILOGY_MAX_PACKET_LEN")
    case True
    then show ?thesis by (simp add: frames_short)
  next
    case False
    then have "length p div TRILOGY_MAX_PACKET_LEN =
        Suc ((length p - TRILOGY_MAX_PACKET_LEN) div TRILOGY_MAX_PACKET_LEN)"
      by (simp add: le_div_geq)
    with 1 False show ?thesis by (simp add: frames.simps [of seq p])
  qed
qed

end
