(* ===== verification/Builder.thy ===== *)
theory Builder
  imports Buffer Wire_Format
begin

text \<open>
  \<^verbatim>\<open>src/builder.c\<close>: writing a packet into a buffer, cut into fragments on the fly. The C
  builder points to the buffer it writes; the model's builder holds it, and the caller takes
  it back afterwards. A \<^verbatim>\<open>(ptr, len)\<close> argument is the list of the bytes of the object from
  \<^verbatim>\<open>ptr\<close> on and the \<^verbatim>\<open>size_t\<close> length; copying more than the object has is a \<open>Fault\<close>. The
  main result is that writing \<open>bs\<close> appends \<open>bs\<close> to the payload, for every fragmentation.
\<close>

section \<open>The structure and its operations\<close>

record trilogy_builder =
  bld_buffer :: trilogy_buffer
  header_offset :: size_t
  packet_length :: size_t
  packet_max_length :: size_t
  fragment_length :: u32
  bld_seq :: u8

abbreviation on_buffer :: "(trilogy_buffer, 'a) op \<Rightarrow> (trilogy_builder, 'a) op" where
  "on_buffer \<equiv> on_part bld_buffer (\<lambda>x b. b\<lparr>bld_buffer := x\<rparr>)"

definition write_header :: "allocator \<Rightarrow> (trilogy_builder, unit) op" where
  "write_header alloc =
     checked (on_buffer (trilogy_buffer_expand alloc 4)) (\<lambda>_.
     checked (put_state (\<lambda>b. b\<lparr>header_offset := buf_len (bld_buffer b), fragment_length := 0\<rparr>)) (\<lambda>_.
     checked (on_buffer (buffer_push 0)) (\<lambda>_.
     checked (on_buffer (buffer_push 0)) (\<lambda>_.
     checked (on_buffer (buffer_push 0)) (\<lambda>_.
     checked get_state (\<lambda>b.
     checked (on_buffer (buffer_push (bld_seq b))) (\<lambda>_.
     put_state (\<lambda>b. b\<lparr>bld_seq := bld_seq b + 1\<rparr>))))))))"

definition write_continuation_header :: "allocator \<Rightarrow> (trilogy_builder, unit) op" where
  "write_continuation_header alloc =
     checked get_state (\<lambda>b.
     checked (on_buffer (buffer_poke (header_offset b) 0xff)) (\<lambda>_.
     checked (on_buffer (buffer_poke (header_offset b + 1) 0xff)) (\<lambda>_.
     checked (on_buffer (buffer_poke (header_offset b + 2) 0xff)) (\<lambda>_.
     write_header alloc))))"

definition trilogy_builder_init ::
  "allocator \<Rightarrow> trilogy_buffer \<Rightarrow> u8 \<Rightarrow> (trilogy_builder, unit) op" where
  "trilogy_builder_init alloc buff seq =
     checked (put_state (\<lambda>b. b\<lparr>bld_buffer := buff\<lparr>buf_len := 0\<rparr>, bld_seq := seq,
                               packet_length := 0, packet_max_length := SIZE_MAX\<rparr>)) (\<lambda>_.
     write_header alloc)"

definition trilogy_builder_finalize :: "(trilogy_builder, unit) op" where
  "trilogy_builder_finalize =
     checked get_state (\<lambda>b.
     checked (on_buffer (buffer_poke (header_offset b + 0)
                (ucast (drop_bit 0 (fragment_length b) AND 0xff)))) (\<lambda>_.
     checked (on_buffer (buffer_poke (header_offset b + 1)
                (ucast (drop_bit 8 (fragment_length b) AND 0xff)))) (\<lambda>_.
     on_buffer (buffer_poke (header_offset b + 2)
                (ucast (drop_bit 16 (fragment_length b) AND 0xff))))))"

definition trilogy_builder_write_uint8 ::
  "allocator \<Rightarrow> u8 \<Rightarrow> (trilogy_builder, unit) op" where
  "trilogy_builder_write_uint8 alloc val =
     checked get_state (\<lambda>b.
     if packet_length b \<ge> packet_max_length b - 1 then throw TRILOGY_MAX_PACKET_EXCEEDED
     else
       checked (on_buffer (trilogy_buffer_expand alloc 1)) (\<lambda>_.
       checked (on_buffer (buffer_push val)) (\<lambda>_.
       checked (put_state (\<lambda>b. b\<lparr>fragment_length := fragment_length b + 1,
                                 packet_length := packet_length b + 1\<rparr>)) (\<lambda>_.
       checked get_state (\<lambda>b.
       if fragment_length b = word_of_nat TRILOGY_MAX_PACKET_LEN
       then write_continuation_header alloc else ret ())))))"

definition trilogy_builder_write_uint16 ::
  "allocator \<Rightarrow> u16 \<Rightarrow> (trilogy_builder, unit) op" where
  "trilogy_builder_write_uint16 alloc val =
     checked (trilogy_builder_write_uint8 alloc (ucast (val AND 0xff))) (\<lambda>_.
     trilogy_builder_write_uint8 alloc (ucast (drop_bit 8 val AND 0xff)))"

definition trilogy_builder_write_uint24 ::
  "allocator \<Rightarrow> u32 \<Rightarrow> (trilogy_builder, unit) op" where
  "trilogy_builder_write_uint24 alloc val =
     checked (trilogy_builder_write_uint8 alloc (ucast (val AND 0xff))) (\<lambda>_.
     checked (trilogy_builder_write_uint8 alloc (ucast (drop_bit 8 val AND 0xff))) (\<lambda>_.
     trilogy_builder_write_uint8 alloc (ucast (drop_bit 16 val AND 0xff))))"

definition trilogy_builder_write_uint32 ::
  "allocator \<Rightarrow> u32 \<Rightarrow> (trilogy_builder, unit) op" where
  "trilogy_builder_write_uint32 alloc val =
     checked (trilogy_builder_write_uint8 alloc (ucast (val AND 0xff))) (\<lambda>_.
     checked (trilogy_builder_write_uint8 alloc (ucast (drop_bit 8 val AND 0xff))) (\<lambda>_.
     checked (trilogy_builder_write_uint8 alloc (ucast (drop_bit 16 val AND 0xff))) (\<lambda>_.
     trilogy_builder_write_uint8 alloc (ucast (drop_bit 24 val AND 0xff)))))"

definition trilogy_builder_write_uint64 ::
  "allocator \<Rightarrow> u64 \<Rightarrow> (trilogy_builder, unit) op" where
  "trilogy_builder_write_uint64 alloc val =
     checked (trilogy_builder_write_uint8 alloc (ucast (val AND 0xff))) (\<lambda>_.
     checked (trilogy_builder_write_uint8 alloc (ucast (drop_bit 8 val AND 0xff))) (\<lambda>_.
     checked (trilogy_builder_write_uint8 alloc (ucast (drop_bit 16 val AND 0xff))) (\<lambda>_.
     checked (trilogy_builder_write_uint8 alloc (ucast (drop_bit 24 val AND 0xff))) (\<lambda>_.
     checked (trilogy_builder_write_uint8 alloc (ucast (drop_bit 32 val AND 0xff))) (\<lambda>_.
     checked (trilogy_builder_write_uint8 alloc (ucast (drop_bit 40 val AND 0xff))) (\<lambda>_.
     checked (trilogy_builder_write_uint8 alloc (ucast (drop_bit 48 val AND 0xff))) (\<lambda>_.
     trilogy_builder_write_uint8 alloc (ucast (drop_bit 56 val AND 0xff)))))))))"

text \<open>A \<^verbatim>\<open>float\<close> or \<^verbatim>\<open>double\<close> is the integer with its bits: the sources only move the bits, by a union.\<close>

definition trilogy_builder_write_float ::
  "allocator \<Rightarrow> u32 \<Rightarrow> (trilogy_builder, unit) op" where
  "trilogy_builder_write_float alloc val =
     checked (trilogy_builder_write_uint8 alloc (ucast (val AND 0xff))) (\<lambda>_.
     checked (trilogy_builder_write_uint8 alloc (ucast (drop_bit 8 val AND 0xff))) (\<lambda>_.
     checked (trilogy_builder_write_uint8 alloc (ucast (drop_bit 16 val AND 0xff))) (\<lambda>_.
     trilogy_builder_write_uint8 alloc (ucast (drop_bit 24 val AND 0xff)))))"

definition trilogy_builder_write_double ::
  "allocator \<Rightarrow> u64 \<Rightarrow> (trilogy_builder, unit) op" where
  "trilogy_builder_write_double alloc val =
     checked (trilogy_builder_write_uint8 alloc (ucast (val AND 0xff))) (\<lambda>_.
     checked (trilogy_builder_write_uint8 alloc (ucast (drop_bit 8 val AND 0xff))) (\<lambda>_.
     checked (trilogy_builder_write_uint8 alloc (ucast (drop_bit 16 val AND 0xff))) (\<lambda>_.
     checked (trilogy_builder_write_uint8 alloc (ucast (drop_bit 24 val AND 0xff))) (\<lambda>_.
     checked (trilogy_builder_write_uint8 alloc (ucast (drop_bit 32 val AND 0xff))) (\<lambda>_.
     checked (trilogy_builder_write_uint8 alloc (ucast (drop_bit 40 val AND 0xff))) (\<lambda>_.
     checked (trilogy_builder_write_uint8 alloc (ucast (drop_bit 48 val AND 0xff))) (\<lambda>_.
     trilogy_builder_write_uint8 alloc (ucast (drop_bit 56 val AND 0xff)))))))))"

definition trilogy_builder_write_lenenc ::
  "allocator \<Rightarrow> u64 \<Rightarrow> (trilogy_builder, unit) op" where
  "trilogy_builder_write_lenenc alloc val =
     (if val < 251 then trilogy_builder_write_uint8 alloc (ucast val)
      else if val \<le> 0xffff then
        checked (trilogy_builder_write_uint8 alloc 0xfc) (\<lambda>_.
        trilogy_builder_write_uint16 alloc (ucast val))
      else if val \<le> 0xffffff then
        checked (trilogy_builder_write_uint8 alloc 0xfd) (\<lambda>_.
        trilogy_builder_write_uint24 alloc (ucast val))
      else
        checked (trilogy_builder_write_uint8 alloc 0xfe) (\<lambda>_.
        trilogy_builder_write_uint64 alloc val))"

text \<open>
  One \<^verbatim>\<open>memcpy\<close> of \<^verbatim>\<open>trilogy_builder_write_buffer\<close> with the updates of the lengths that follow
  it, and its \<^verbatim>\<open>while\<close> loop, which yields what is left of \<^verbatim>\<open>ptr\<close> and \<^verbatim>\<open>len\<close>.
\<close>

definition write_piece :: "allocator \<Rightarrow> u8 list \<Rightarrow> size_t \<Rightarrow> (trilogy_builder, unit) op" where
  "write_piece alloc ptr n =
     checked (on_buffer (trilogy_buffer_expand alloc n)) (\<lambda>_.
     checked (on_buffer (buffer_copy ptr n)) (\<lambda>_.
     put_state (\<lambda>b. b\<lparr>fragment_length := fragment_length b + ucast n,
                      packet_length := packet_length b + n\<rparr>)))"

function write_fragments ::
  "allocator \<Rightarrow> u8 list \<Rightarrow> size_t \<Rightarrow> size_t \<Rightarrow> (trilogy_builder, u8 list \<times> size_t) op" where
  "write_fragments alloc ptr len fragment_remaining =
     (if len \<ge> fragment_remaining then
        checked (write_piece alloc ptr fragment_remaining) (\<lambda>_.
        checked (write_continuation_header alloc) (\<lambda>_.
        write_fragments alloc (drop (unat fragment_remaining) ptr) (len - fragment_remaining)
          (word_of_nat TRILOGY_MAX_PACKET_LEN)))
      else ret (ptr, len))"
  by pat_completeness auto
termination
proof (relation "measure (\<lambda>(a, p, l, f). 2 * unat l + of_bool (f = 0))", goal_cases)
  case (2 alloc ptr len fr)
  have max: "(word_of_nat TRILOGY_MAX_PACKET_LEN :: size_t) \<noteq> 0"
    by (simp add: TRILOGY_MAX_PACKET_LEN_def)
  show ?case
  proof (cases "fr = 0")
    case False
    then have "0 < unat fr" by (simp add: unat_gt_0)
    with 2 max show ?thesis by (simp add: unat_sub word_le_nat_alt)
  qed (use max in simp)
qed simp

declare write_fragments.simps [simp del]

definition trilogy_builder_write_buffer ::
  "allocator \<Rightarrow> u8 list \<Rightarrow> size_t \<Rightarrow> (trilogy_builder, unit) op" where
  "trilogy_builder_write_buffer alloc data len =
     checked get_state (\<lambda>b.
     let fragment_remaining =
           (ucast (word_of_nat TRILOGY_MAX_PACKET_LEN - fragment_length b) :: size_t)
     in if packet_length b + len \<ge> packet_max_length b then throw TRILOGY_MAX_PACKET_EXCEEDED
        else if len < fragment_remaining then write_piece alloc data len
        else
          checked (write_fragments alloc data len fragment_remaining) (\<lambda>(ptr, len).
          if len \<noteq> 0 then write_piece alloc ptr len else ret ()))"

definition trilogy_builder_write_lenenc_buffer ::
  "allocator \<Rightarrow> u8 list \<Rightarrow> size_t \<Rightarrow> (trilogy_builder, unit) op" where
  "trilogy_builder_write_lenenc_buffer alloc data len =
     checked (trilogy_builder_write_lenenc alloc len) (\<lambda>_.
     trilogy_builder_write_buffer alloc data len)"

definition trilogy_builder_write_string ::
  "allocator \<Rightarrow> u8 list \<Rightarrow> (trilogy_builder, unit) op" where
  "trilogy_builder_write_string alloc data =
     (case strlen data of
        None \<Rightarrow> halt Fault
      | Some n \<Rightarrow>
          checked (trilogy_builder_write_buffer alloc data (word_of_nat n)) (\<lambda>_.
          trilogy_builder_write_uint8 alloc 0))"

definition trilogy_builder_set_max_packet_length ::
  "size_t \<Rightarrow> (trilogy_builder, unit) op" where
  "trilogy_builder_set_max_packet_length max_length =
     checked get_state (\<lambda>b.
     if packet_length b > max_length then throw TRILOGY_MAX_PACKET_EXCEEDED
     else put_state (\<lambda>b. b\<lparr>packet_max_length := max_length\<rparr>))"

section \<open>Operations on the buffer inside the builder\<close>

text \<open>All fields of the builder at once, the buffer by its contents.\<close>

definition builder_fields ::
  "u8 list \<Rightarrow> size_t \<Rightarrow> size_t \<Rightarrow> size_t \<Rightarrow> u32 \<Rightarrow> u8 \<Rightarrow> trilogy_builder \<Rightarrow> bool" where
  "builder_fields c h pl pm fl sq b \<longleftrightarrow>
     buffer_ok (bld_buffer b) \<and> contents (bld_buffer b) = c \<and> header_offset b = h
     \<and> packet_length b = pl \<and> packet_max_length b = pm \<and> fragment_length b = fl \<and> bld_seq b = sq"

lemma on_buffer_holds:
  assumes "holds (\<lambda>x. buffer_ok x \<and> contents x = c \<and> P x) m
     (\<lambda>y x. buffer_ok x \<and> contents x = c' \<and> Q x) (\<lambda>e x. buffer_ok x \<and> E e)"
  shows "holds (\<lambda>b. builder_fields c h pl pm fl sq b \<and> P (bld_buffer b)) (on_buffer m)
     (\<lambda>y b. builder_fields c' h pl pm fl sq b \<and> Q (bld_buffer b))
     (\<lambda>e b. buffer_ok (bld_buffer b) \<and> E e)"
  using assms by (fastforce simp: holds_def on_part_def builder_fields_def split: prod.splits sum.splits)

lemma reserve_fields:
  assumes "unat n < object_limit"
  shows "holds (builder_fields c h pl pm fl sq) (on_buffer (trilogy_buffer_expand alloc n))
     (\<lambda>_ b. builder_fields c h pl pm fl sq b \<and> unat n \<le> room (bld_buffer b))
     (\<lambda>e b. buffer_ok (bld_buffer b) \<and> refuses alloc (length c + unat n) e)"
  by (rule holds_weaken [OF on_buffer_holds [where P = "\<lambda>_. True" and c = c and c' = c
        and Q = "\<lambda>x. unat n \<le> room x" and E = "refuses alloc (length c + unat n)"]])
    (use store.reserve_law [OF assms, of c alloc] in \<open>auto elim: holds_weaken\<close>)

lemma push_fields:
  "holds (\<lambda>b. builder_fields c h pl pm fl sq b \<and> Suc k \<le> room (bld_buffer b)) (on_buffer (buffer_push v))
     (\<lambda>_ b. builder_fields (c @ [v]) h pl pm fl sq b \<and> k \<le> room (bld_buffer b)) (\<lambda>_ _. False)"
  by (rule holds_weaken [OF on_buffer_holds [where P = "\<lambda>x. Suc k \<le> room x" and c = c
        and c' = "c @ [v]" and Q = "\<lambda>x. k \<le> room x" and E = "\<lambda>_. False"]])
    (use store.push_law [of c k v] in \<open>auto elim: holds_weaken\<close>)

lemma copy_fields:
  assumes "unat n \<le> length src"
  shows "holds (\<lambda>b. builder_fields c h pl pm fl sq b \<and> unat n \<le> room (bld_buffer b))
     (on_buffer (buffer_copy src n))
     (\<lambda>_. builder_fields (c @ take (unat n) src) h pl pm fl sq) (\<lambda>_ _. False)"
  by (rule holds_weaken [OF on_buffer_holds [where P = "\<lambda>x. unat n \<le> room x" and c = c
        and c' = "c @ take (unat n) src" and Q = "\<lambda>_. True" and E = "\<lambda>_. False"]])
    (use store.copy_law [OF assms, of c] in \<open>auto elim: holds_weaken\<close>)

lemma poke_fields:
  assumes "unat i < length c"
  shows "holds (builder_fields c h pl pm fl sq) (on_buffer (buffer_poke i v))
     (\<lambda>_. builder_fields (c[unat i := v]) h pl pm fl sq) (\<lambda>_ _. False)"
  by (rule holds_weaken [OF on_buffer_holds [where P = "\<lambda>_. True" and c = c
        and c' = "c[unat i := v]" and Q = "\<lambda>_. True" and E = "\<lambda>_. False"]])
    (use store.poke_law [OF assms, of v] in \<open>auto elim: holds_weaken\<close>)

lemma fields_length: "builder_fields c h pl pm fl sq b \<Longrightarrow> length c < object_limit"
  using length_contents by (fastforce simp: builder_fields_def buffer_ok_def)

lemma write_header_fields:
  "holds (builder_fields c h pl pm fl sq) (write_header alloc)
     (\<lambda>_. builder_fields (c @ [0, 0, 0, sq]) (word_of_nat (length c)) pl pm 0 (sq + 1))
     (\<lambda>e b. buffer_ok (bld_buffer b) \<and> refuses alloc (length c + 4) e)"
proof -
  let ?h = "word_of_nat (length c) :: size_t"
  have push: "holds (\<lambda>b. builder_fields c' ?h pl pm 0 sq' b \<and> Suc k \<le> room (bld_buffer b))
      (on_buffer (buffer_push v))
      (\<lambda>_ b. builder_fields (c' @ [v]) ?h pl pm 0 sq' b \<and> k \<le> room (bld_buffer b))
      (\<lambda>e b. buffer_ok (bld_buffer b) \<and> refuses alloc (length c + 4) e)" for c' k v sq'
    by (rule holds_weaken [OF push_fields]) auto
  have reserve: "holds (builder_fields c h pl pm fl sq) (on_buffer (trilogy_buffer_expand alloc 4))
      (\<lambda>_ b. builder_fields c h pl pm fl sq b \<and> Suc (Suc (Suc (Suc 0))) \<le> room (bld_buffer b))
      (\<lambda>e b. buffer_ok (bld_buffer b) \<and> refuses alloc (length c + 4) e)"
    by (rule holds_weaken [OF reserve_fields [of 4]]) (auto simp: object_limit_def)
  show ?thesis
    unfolding write_header_def
    apply (rule holds_checked [OF reserve])
    apply (rule holds_put_state_then)
     apply (rule holds_checked [OF push])+
     apply (rule holds_get_state)
     apply (rule holds_checked [OF push])
     apply (rule holds_put_state)
     apply (auto simp: builder_fields_def length_contents)
    done
qed

lemma write_continuation_header_fields:
  assumes h: "unat h = length pre"
  shows "holds (builder_fields (pre @ [x, y, z, q] @ tail) h pl pm fl sq)
     (write_continuation_header alloc)
     (\<lambda>_. builder_fields (pre @ [0xff, 0xff, 0xff, q] @ tail @ [0, 0, 0, sq])
            (word_of_nat (length pre + 4 + length tail)) pl pm 0 (sq + 1))
     (\<lambda>e b. buffer_ok (bld_buffer b) \<and> refuses alloc (length pre + 4 + length tail + 4) e)"
    (is "holds ?P _ _ ?E")
proof (cases "\<exists>b. ?P b")
  case False
  then show ?thesis by (intro holds_vacuous) blast
next
  case True
  then have "length pre + 4 < object_limit" by (auto dest: fields_length)
  then have small: "unat h + 2 < 18446744073709551616" using h by (simp add: object_limit_def)
  have h1: "unat (h + 1) = length pre + 1"
    using unat_add_size_t [of h 1] small h by simp
  have h2: "unat (h + 2) = length pre + 2"
    using unat_add_size_t [of h 2] small h by simp
  have poke: "holds (builder_fields c h pl pm fl sq) (on_buffer (buffer_poke i v))
      (\<lambda>_. builder_fields (c[unat i := v]) h pl pm fl sq) ?E" if "unat i < length c" for c i v
    by (rule holds_weaken [OF poke_fields [OF that]]) simp_all
  have header: "holds (builder_fields (pre @ [0xff, 0xff, 0xff, q] @ tail) h pl pm fl sq) (write_header alloc)
      (\<lambda>_. builder_fields (pre @ [0xff, 0xff, 0xff, q] @ tail @ [0, 0, 0, sq])
            (word_of_nat (length pre + 4 + length tail)) pl pm 0 (sq + 1)) ?E"
  proof -
    have "length (pre @ [0xff, 0xff, 0xff, q] @ tail) = length pre + 4 + length tail" by simp
    then show ?thesis
      using write_header_fields [of "pre @ [0xff, 0xff, 0xff, q] @ tail" h pl pm fl sq alloc]
      by (simp only: append_assoc)
  qed
  show ?thesis
    unfolding write_continuation_header_def
  proof (rule holds_get_state)
    fix b assume "?P b"
    then have b: "header_offset b = h" by (simp add: builder_fields_def)
    show "holds ?P
       (checked (on_buffer (buffer_poke (header_offset b) 0xff)) (\<lambda>_.
        checked (on_buffer (buffer_poke (header_offset b + 1) 0xff)) (\<lambda>_.
        checked (on_buffer (buffer_poke (header_offset b + 2) 0xff)) (\<lambda>_. write_header alloc))))
       (\<lambda>_. builder_fields (pre @ [0xff, 0xff, 0xff, q] @ tail @ [0, 0, 0, sq])
            (word_of_nat (length pre + 4 + length tail)) pl pm 0 (sq + 1)) ?E"
      unfolding b
      by (rule holds_checked [OF poke], simp add: h,
          rule holds_checked [OF poke], simp add: h1,
          rule holds_checked [OF poke], simp add: h2,
          rule holds_weaken [OF header])
        (simp_all add: h h1 h2 list_update_append numeral_2_eq_2)
  qed
qed

section \<open>The payload being built\<close>

text \<open>
  \<open>full\<close> fills whole fragments, framed as \<open>pre\<close>, and what follows goes on at sequence
  number \<open>q\<close>.
\<close>

definition framed :: "u8 \<Rightarrow> u8 list \<Rightarrow> u8 list \<Rightarrow> u8 \<Rightarrow> bool" where
  "framed s full pre q \<longleftrightarrow>
     (\<exists>k. length full = k * TRILOGY_MAX_PACKET_LEN \<and> length pre = length full + 4 * k
        \<and> q = s + word_of_nat k)
     \<and> (\<forall>t. frames s (full @ t) = pre @ frames q t)"

lemma framedE:
  assumes "framed s full pre q"
  obtains k where "length full = k * TRILOGY_MAX_PACKET_LEN" "length pre = length full + 4 * k"
    "\<And>t. frames s (full @ t) = pre @ frames q t" "q = s + word_of_nat k"
  using assms unfolding framed_def by blast

lemma framed_Nil: "framed s [] [] s"
  by (simp add: framed_def)

lemma framed_step:
  assumes "framed s full pre q" and "length tail = TRILOGY_MAX_PACKET_LEN"
  shows "framed s (full @ tail) (pre @ packet_header TRILOGY_MAX_PACKET_LEN q @ tail) (q + 1)"
proof -
  from assms(1) obtain k where k: "length full = k * TRILOGY_MAX_PACKET_LEN"
    "length pre = length full + 4 * k" "\<And>t. frames s (full @ t) = pre @ frames q t"
    "q = s + word_of_nat k" by (rule framedE) blast
  have "length (full @ tail) = Suc k * TRILOGY_MAX_PACKET_LEN" using k(1) assms(2) by simp
  moreover have "frames s ((full @ tail) @ t)
      = (pre @ packet_header TRILOGY_MAX_PACKET_LEN q @ tail) @ frames (q + 1) t" for t
    using k(3) [of "tail @ t"] frames_full [OF assms(2), of q t] by simp
  ultimately show ?thesis
    using k(2,4) assms(2) by (auto simp: framed_def algebra_simps intro!: exI [of _ "Suc k"])
qed

text \<open>
  The builder holds payload \<open>p\<close>, begun at sequence number \<open>s\<close>, with \<open>n\<close> bytes of it in
  the open fragment; between operations the open fragment is not full.
\<close>

definition filled :: "u8 \<Rightarrow> size_t \<Rightarrow> u8 list \<Rightarrow> nat \<Rightarrow> trilogy_builder \<Rightarrow> bool" where
  "filled s lim p n b \<longleftrightarrow>
     (\<exists>full tail pre q h pl fl. p = full @ tail \<and> length tail = n \<and> framed s full pre q
        \<and> builder_fields (pre @ [0, 0, 0, q] @ tail) h pl lim fl (q + 1) b
        \<and> unat h = length pre \<and> unat fl = n \<and> unat pl = length p)"

definition building :: "u8 \<Rightarrow> size_t \<Rightarrow> u8 list \<Rightarrow> trilogy_builder \<Rightarrow> bool" where
  "building s lim p b \<longleftrightarrow> filled s lim p (length p mod TRILOGY_MAX_PACKET_LEN) b"

lemma filledI:
  assumes "p = full @ tail" and "length tail = n" and "framed s full pre q"
    and "builder_fields (pre @ [0, 0, 0, q] @ tail) h pl lim fl (q + 1) b"
    and "unat h = length pre" and "unat fl = n" and "unat pl = length p"
  shows "filled s lim p n b"
  using assms unfolding filled_def by blast

text \<open>
  How an operation that was to bring the payload to \<open>n\<close> bytes can fail: the limit set on
  the payload is reached, or the buffer could not grow. The buffer stays well formed.
\<close>

definition build_fails :: "allocator \<Rightarrow> size_t \<Rightarrow> nat \<Rightarrow> stop \<Rightarrow> trilogy_builder \<Rightarrow> bool" where
  "build_fails alloc lim n e b \<longleftrightarrow>
     buffer_ok (bld_buffer b)
     \<and> (e = Rc TRILOGY_MAX_PACKET_EXCEEDED \<and> unat lim \<le> n \<or> refuses alloc (2 * n + 8) e)"

lemma build_fails_mono: "build_fails alloc lim n e b \<Longrightarrow> n \<le> m \<Longrightarrow> build_fails alloc lim m e b"
  using refuses_mono [of alloc "2 * n + 8" e "2 * m + 8"] by (auto simp: build_fails_def)

lemma filled_open:
  assumes "filled s lim p n b"
  shows "n \<le> length p" and "(length p - n) mod TRILOGY_MAX_PACKET_LEN = 0"
  using assms by (auto simp: filled_def framed_def)

lemma filled_mod:
  assumes "filled s lim p n b" and "n < TRILOGY_MAX_PACKET_LEN"
  shows "n = length p mod TRILOGY_MAX_PACKET_LEN"
  using assms by (auto simp: filled_def framed_def)

lemma filled_building:
  "filled s lim p n b \<Longrightarrow> n < TRILOGY_MAX_PACKET_LEN \<Longrightarrow> building s lim p b"
  using filled_mod unfolding building_def by metis

text \<open>The bytes in the buffer are at most twice the payload, and the first header.\<close>

lemma framed_size:
  assumes "framed s full pre q"
  shows "length pre \<le> 2 * length full"
proof -
  from assms obtain k where "length full = k * TRILOGY_MAX_PACKET_LEN"
    "length pre = length full + 4 * k" by (rule framedE)
  moreover have "4 * k \<le> TRILOGY_MAX_PACKET_LEN * k"
    by (rule mult_right_mono) (simp_all add: TRILOGY_MAX_PACKET_LEN_def)
  ultimately show ?thesis by (simp add: mult.commute)
qed

lemma filled_bounds:
  assumes "filled s lim p n b" and "n \<le> TRILOGY_MAX_PACKET_LEN"
  shows "length p < object_limit" "unat (packet_length b) = length p"
    "unat (fragment_length b) = n" "packet_max_length b = lim"
proof -
  from assms(1) obtain full tail pre q h pl fl where
    p: "p = full @ tail" and fr: "framed s full pre q"
    and b: "builder_fields (pre @ [0, 0, 0, q] @ tail) h pl lim fl (q + 1) b"
    and rest: "unat fl = n" "unat pl = length p"
    unfolding filled_def by blast
  from fr obtain k where "length pre = length full + 4 * k" by (rule framedE)
  then have "length p \<le> length (pre @ [0, 0, 0, q] @ tail)" using p by simp
  also have "\<dots> < object_limit" using b by (rule fields_length)
  finally show "length p < object_limit" .
  from b rest show "unat (packet_length b) = length p" "unat (fragment_length b) = n"
    "packet_max_length b = lim" by (auto simp: builder_fields_def)
qed

lemma write_piece_filled:
  assumes fit: "n + unat m \<le> TRILOGY_MAX_PACKET_LEN" and src: "unat m \<le> length src"
  shows "holds (filled s lim p n) (write_piece alloc src m)
    (\<lambda>_. filled s lim (p @ take (unat m) src) (n + unat m))
    (build_fails alloc lim (length p + unat m))"
  unfolding filled_def [of s lim p n]
proof (intro holds_ex holds_pure)
  fix full tail pre q h pl fl
  assume p: "p = full @ tail" and n: "length tail = n" and fr: "framed s full pre q"
  let ?c = "pre @ [0, 0, 0, q] @ tail"
  let ?E = "build_fails alloc lim (length p + unat m)"
  have m: "unat m < object_limit"
    using fit by (simp add: TRILOGY_MAX_PACKET_LEN_def object_limit_def)
  have "length ?c + unat m \<le> 2 * (length p + unat m) + 8"
    using framed_size [OF fr] p by simp
  then have size: "refuses alloc (length ?c + unat m) e \<Longrightarrow> refuses alloc (2 * (length p + unat m) + 8) e" for e
    by (rule refuses_mono [rotated])
  have copy: "holds (\<lambda>b. builder_fields ?c h pl lim fl (q + 1) b \<and> unat m \<le> room (bld_buffer b))
      (on_buffer (buffer_copy src m))
      (\<lambda>_. builder_fields (?c @ take (unat m) src) h pl lim fl (q + 1)) ?E"
    by (rule holds_weaken [OF copy_fields [OF src]]) auto
  have "holds (builder_fields ?c h pl lim fl (q + 1)) (write_piece alloc src m)
      (\<lambda>_. builder_fields (?c @ take (unat m) src) h (pl + m) lim (fl + ucast m) (q + 1)) ?E"
    unfolding write_piece_def
  proof (rule holds_checked)
    show "holds (builder_fields ?c h pl lim fl (q + 1)) (on_buffer (trilogy_buffer_expand alloc m))
        (\<lambda>_ b. builder_fields ?c h pl lim fl (q + 1) b \<and> unat m \<le> room (bld_buffer b)) ?E"
      by (rule holds_weaken [OF reserve_fields [OF m]])
        (use size in \<open>auto simp: build_fails_def simp del: length_append\<close>)
    show "holds (\<lambda>b. builder_fields ?c h pl lim fl (q + 1) b \<and> unat m \<le> room (bld_buffer b))
        (checked (on_buffer (buffer_copy src m)) (\<lambda>_. put_state (\<lambda>b.
          b\<lparr>fragment_length := fragment_length b + ucast m, packet_length := packet_length b + m\<rparr>)))
        (\<lambda>_. builder_fields (?c @ take (unat m) src) h (pl + m) lim (fl + ucast m) (q + 1)) ?E" for x
      by (rule holds_checked [OF copy]) (rule holds_put_state, simp add: builder_fields_def)
  qed
  then show "holds (\<lambda>b. builder_fields ?c h pl lim fl (q + 1) b \<and> unat h = length pre
        \<and> unat fl = n \<and> unat pl = length p) (write_piece alloc src m)
      (\<lambda>_. filled s lim (p @ take (unat m) src) (n + unat m)) ?E"
  proof (rule holds_update)
    fix b b'
    assume pre: "builder_fields ?c h pl lim fl (q + 1) b \<and> unat h = length pre
        \<and> unat fl = n \<and> unat pl = length p"
      and post: "builder_fields (?c @ take (unat m) src) h (pl + m) lim (fl + ucast m) (q + 1) b'"
    have "filled s lim p n b" using p n fr pre by (blast intro: filledI)
    then have "length p < object_limit" by (rule filled_bounds(1)) (use fit in simp)
    then have "unat (pl + m) = length p + unat m"
      using pre m object_limit_size_t by (subst unat_add_size_t) auto
    moreover have "unat (fl + ucast m) = n + unat m"
    proof -
      have "unat m < 2 ^ 32" using fit by (simp add: TRILOGY_MAX_PACKET_LEN_def)
      then have "unat (ucast m :: u32) = unat m"
        by (intro unat_ucast_small) simp
      moreover have "unat fl + unat (ucast m :: u32) < 2 ^ LENGTH(32)"
        using fit pre calculation by (simp add: TRILOGY_MAX_PACKET_LEN_def)
      ultimately show ?thesis using pre by (simp add: unat_add_lt)
    qed
    ultimately show "filled s lim (p @ take (unat m) src) (n + unat m) b'"
      using p n fr post pre src
      by (intro filledI [where tail = "tail @ take (unat m) src"]) auto
  qed auto
qed

lemma write_continuation_header_filled:
  "holds (filled s lim p TRILOGY_MAX_PACKET_LEN) (write_continuation_header alloc)
     (\<lambda>_. filled s lim p 0) (build_fails alloc lim (length p))"
  unfolding filled_def [of s lim p TRILOGY_MAX_PACKET_LEN]
proof (intro holds_ex)
  fix full tail pre q h pl fl
  let ?P = "\<lambda>b. p = full @ tail \<and> length tail = TRILOGY_MAX_PACKET_LEN \<and> framed s full pre q
      \<and> builder_fields (pre @ [0, 0, 0, q] @ tail) h pl lim fl (q + 1) b \<and> unat h = length pre
      \<and> unat fl = TRILOGY_MAX_PACKET_LEN \<and> unat pl = length p"
  show "holds ?P (write_continuation_header alloc)
      (\<lambda>_. filled s lim p 0) (build_fails alloc lim (length p))"
  proof (cases "\<exists>b. ?P b")
    case False
    then show ?thesis by (intro holds_vacuous) blast
  next
    case True
    then have h: "unat h = length pre" and p: "p = full @ tail" and fr: "framed s full pre q"
      and tl: "length tail = TRILOGY_MAX_PACKET_LEN" and pl: "unat pl = length p" by auto
    let ?pre = "pre @ packet_header TRILOGY_MAX_PACKET_LEN q @ tail"
    have hd: "packet_header TRILOGY_MAX_PACKET_LEN q = [0xff, 0xff, 0xff, q]"
      by (simp add: packet_header_def TRILOGY_MAX_PACKET_LEN_def)
    have fr': "framed s p ?pre (q + 1)" using framed_step [OF fr tl] p by simp
    have size: "refuses alloc (length pre + 4 + length tail + 4) e \<Longrightarrow> refuses alloc (2 * length p + 8) e" for e
      by (erule refuses_mono) (use framed_size [OF fr] p in simp)
    show ?thesis
    proof (rule holds_update [OF write_continuation_header_fields [OF h, of 0 0 0 q tail pl lim fl "q + 1" alloc]])
      fix b b' assume "?P b"
        and post: "builder_fields (pre @ [0xff, 0xff, 0xff, q] @ tail @ [0, 0, 0, q + 1])
          (word_of_nat (length pre + 4 + length tail)) pl lim 0 (q + 1 + 1) b'"
      have len: "length pre + 4 + length tail = length ?pre" by simp
      have "length ?pre < object_limit" using fields_length [OF post] hd by simp
      then have "unat (word_of_nat (length ?pre) :: size_t) = length ?pre"
        using object_limit_size_t by (intro unat_word_of_nat_size_t) linarith
      moreover have "builder_fields (?pre @ [0, 0, 0, q + 1] @ [])
          (word_of_nat (length ?pre)) pl lim 0 (q + 1 + 1) b'"
        using post unfolding len hd by simp
      ultimately show "filled s lim p 0 b'"
        using fr' pl
        by (intro filledI [of p p "[]" 0 s ?pre "q + 1" "word_of_nat (length ?pre)" pl lim 0]) simp_all
    qed (use size in \<open>auto simp: build_fails_def\<close>)
  qed
qed

lemma write_uint8_building:
  assumes lim: "lim \<noteq> 0"
  shows "holds (building s lim p) (trilogy_builder_write_uint8 alloc v)
    (\<lambda>_. building s lim (p @ [v])) (build_fails alloc lim (length p + 1))"
  unfolding trilogy_builder_write_uint8_def
proof (rule holds_get_state)
  fix b assume b: "building s lim p b"
  let ?n = "length p mod TRILOGY_MAX_PACKET_LEN"
  let ?E = "build_fails alloc lim (length p + 1)"
  have n: "?n < TRILOGY_MAX_PACKET_LEN" by simp
  have pl: "unat (packet_length b) = length p" "packet_max_length b = lim"
    using filled_bounds b n unfolding building_def by (meson less_imp_le)+
  have lim1: "unat (lim - 1) = unat lim - 1"
    using lim by (simp add: unat_sub word_le_nat_alt unat_gt_0 Suc_le_eq)
  have piece: "holds (filled s lim p ?n) (write_piece alloc [v] 1)
      (\<lambda>_. filled s lim (p @ [v]) (?n + 1)) ?E"
  proof -
    have "?n + unat (1 :: size_t) \<le> TRILOGY_MAX_PACKET_LEN" using n unfolding unsigned_1 by linarith
    from write_piece_filled [OF this, of "[v]"] show ?thesis by simp
  qed
  have copy_push: "buffer_copy [v] 1 = buffer_push v"
    by (rule ext) (simp add: buffer_copy_def buffer_push_def blit_single Suc_le_eq split: option.splits)
  let ?tail = "checked get_state (\<lambda>b. if fragment_length b = word_of_nat TRILOGY_MAX_PACKET_LEN
       then write_continuation_header alloc else ret ())"
  have tail: "holds (filled s lim (p @ [v]) (?n + 1)) ?tail (\<lambda>_. building s lim (p @ [v])) ?E"
  proof (rule holds_get_state)
    fix b assume b: "filled s lim (p @ [v]) (?n + 1) b"
    have fl: "unat (fragment_length b) = ?n + 1"
      by (rule filled_bounds(3) [OF b]) (use n in linarith)
    have max: "unat (word_of_nat TRILOGY_MAX_PACKET_LEN :: u32) = TRILOGY_MAX_PACKET_LEN"
      by (simp add: TRILOGY_MAX_PACKET_LEN_def)
    show "holds (filled s lim (p @ [v]) (?n + 1))
       (if fragment_length b = word_of_nat TRILOGY_MAX_PACKET_LEN
        then write_continuation_header alloc else ret ()) (\<lambda>_. building s lim (p @ [v])) ?E"
    proof (rule holds_if)
      assume "fragment_length b = word_of_nat TRILOGY_MAX_PACKET_LEN"
      then have full: "?n + 1 = TRILOGY_MAX_PACKET_LEN" using fl max by simp
      show "holds (filled s lim (p @ [v]) (?n + 1)) (write_continuation_header alloc)
          (\<lambda>_. building s lim (p @ [v])) ?E"
        unfolding full
        by (rule holds_weaken [OF write_continuation_header_filled]) (auto intro: filled_building)
    next
      assume "fragment_length b \<noteq> word_of_nat TRILOGY_MAX_PACKET_LEN"
      then have "?n + 1 \<noteq> TRILOGY_MAX_PACKET_LEN" using fl max by (auto simp: word_unat_eq_iff)
      with n have "?n + 1 < TRILOGY_MAX_PACKET_LEN" by linarith
      then show "holds (filled s lim (p @ [v]) (?n + 1)) (ret ()) (\<lambda>_. building s lim (p @ [v])) ?E"
        by (intro holds_ret filled_building)
    qed
  qed
  show "holds (building s lim p)
      (if packet_length b \<ge> packet_max_length b - 1 then throw TRILOGY_MAX_PACKET_EXCEEDED
       else checked (on_buffer (trilogy_buffer_expand alloc 1)) (\<lambda>_.
         checked (on_buffer (buffer_push v)) (\<lambda>_.
         checked (put_state (\<lambda>b. b\<lparr>fragment_length := fragment_length b + 1,
                                   packet_length := packet_length b + 1\<rparr>)) (\<lambda>_. ?tail))))
      (\<lambda>_. building s lim (p @ [v])) ?E"
  proof (rule holds_if)
    assume "packet_length b \<ge> packet_max_length b - 1"
    then have "unat lim \<le> length p + 1"
      using pl lim1 by (simp add: word_le_nat_alt)
    then show "holds (building s lim p) (throw TRILOGY_MAX_PACKET_EXCEEDED)
        (\<lambda>_. building s lim (p @ [v])) ?E"
      by (intro holds_halt) (auto simp: build_fails_def building_def filled_def builder_fields_def)
  next
    have "holds (filled s lim p ?n) (checked (write_piece alloc [v] 1) (\<lambda>_. ?tail))
        (\<lambda>_. building s lim (p @ [v])) ?E"
      by (rule holds_checked [OF piece tail])
    then show "holds (building s lim p) (checked (on_buffer (trilogy_buffer_expand alloc 1)) (\<lambda>_.
         checked (on_buffer (buffer_push v)) (\<lambda>_.
         checked (put_state (\<lambda>b. b\<lparr>fragment_length := fragment_length b + 1,
                                   packet_length := packet_length b + 1\<rparr>)) (\<lambda>_. ?tail))))
        (\<lambda>_. building s lim (p @ [v])) ?E"
      by (simp add: write_piece_def checked_assoc copy_push building_def [abs_def])
  qed
qed

section \<open>Writing appends to the payload\<close>

text \<open>
  \<open>writes alloc m bs\<close>: from any builder with a limit set, \<open>m\<close> appends \<open>bs\<close> to the
  payload or fails as \<open>build_fails\<close> allows. The rule for \<open>checked\<close> composes it, so every
  packet of the protocol gets its payload by following its definition.
\<close>

definition writes :: "allocator \<Rightarrow> (trilogy_builder, unit) op \<Rightarrow> u8 list \<Rightarrow> bool" where
  "writes alloc m bs \<longleftrightarrow>
     (\<forall>s lim p. lim \<noteq> 0 \<longrightarrow>
        holds (building s lim p) m (\<lambda>_. building s lim (p @ bs))
          (build_fails alloc lim (length p + length bs)))"

named_theorems writes_intros "what the operations of the builder append"

lemma writesD:
  "writes alloc m bs \<Longrightarrow> lim \<noteq> 0 \<Longrightarrow>
   holds (building s lim p) m (\<lambda>_. building s lim (p @ bs))
     (build_fails alloc lim (length p + length bs))"
  by (simp add: writes_def)

lemma writes_ret [writes_intros]: "writes alloc (ret ()) []"
  by (simp add: writes_def holds_ret)

lemma writes_checked [writes_intros]:
  assumes m: "writes alloc m bs" and k: "writes alloc (k ()) cs"
  shows "writes alloc (checked m k) (bs @ cs)"
  unfolding writes_def
proof (intro allI impI)
  fix s lim p assume lim: "(lim :: size_t) \<noteq> 0"
  show "holds (building s lim p) (checked m k) (\<lambda>_. building s lim (p @ bs @ cs))
      (build_fails alloc lim (length p + length (bs @ cs)))"
  proof (rule holds_checked)
    show "holds (building s lim p) m (\<lambda>_. building s lim (p @ bs))
        (build_fails alloc lim (length p + length (bs @ cs)))"
      by (rule holds_weaken [OF writesD [OF m lim]]) (auto elim: build_fails_mono)
    show "holds (building s lim (p @ bs)) (k x) (\<lambda>_. building s lim (p @ bs @ cs))
        (build_fails alloc lim (length p + length (bs @ cs)))" for x
      using writesD [OF k lim, of s "p @ bs"] by (cases x) (simp add: add.assoc)
  qed
qed

lemma writes_if:
  "(c \<Longrightarrow> writes alloc m bs) \<Longrightarrow> (\<not> c \<Longrightarrow> writes alloc m' bs) \<Longrightarrow> writes alloc (if c then m else m') bs"
  by simp

lemma writes_uint8 [writes_intros]: "writes alloc (trilogy_builder_write_uint8 alloc v) [v]"
  by (simp add: writes_def write_uint8_building [simplified])

lemma mask_byte: "ucast (v AND 0xff) = (ucast v :: u8)" for v :: "'a::len word"
proof -
  have ff: "0xff = (mask 8 :: 'a word)" by (simp add: mask_eq_exp_minus_1)
  show ?thesis
    unfolding ff by (rule bit_word_eqI) (use bit_imp_le_length [of v] in \<open>auto simp: bit_simps\<close>)
qed

lemma writes_uint16 [writes_intros]: "writes alloc (trilogy_builder_write_uint16 alloc v) (le_bytes 2 v)"
proof -
  have "writes alloc (trilogy_builder_write_uint16 alloc v) ([ucast v] @ [ucast (drop_bit 8 v)])"
    unfolding trilogy_builder_write_uint16_def mask_byte by (intro writes_intros)
  then show ?thesis by (simp add: le_bytes_Suc numeral_2_eq_2)
qed

lemma writes_uint24 [writes_intros]: "writes alloc (trilogy_builder_write_uint24 alloc v) (le_bytes 3 v)"
proof -
  have "writes alloc (trilogy_builder_write_uint24 alloc v)
      ([ucast v] @ [ucast (drop_bit 8 v)] @ [ucast (drop_bit 16 v)])"
    unfolding trilogy_builder_write_uint24_def mask_byte by (intro writes_intros)
  then show ?thesis by (simp add: le_bytes_Suc numeral_3_eq_3 drop_bit_drop_bit)
qed

lemma le_bytes_4: "le_bytes 4 v = [ucast v] @ [ucast (drop_bit 8 v)] @ [ucast (drop_bit 16 v)]
    @ [ucast (drop_bit 24 v)]"
  by (simp add: le_bytes_Suc eval_nat_numeral drop_bit_drop_bit)

lemma le_bytes_8: "le_bytes 8 v = [ucast v] @ [ucast (drop_bit 8 v)] @ [ucast (drop_bit 16 v)]
    @ [ucast (drop_bit 24 v)] @ [ucast (drop_bit 32 v)] @ [ucast (drop_bit 40 v)]
    @ [ucast (drop_bit 48 v)] @ [ucast (drop_bit 56 v)]"
  by (simp add: le_bytes_Suc eval_nat_numeral drop_bit_drop_bit)

lemma writes_uint32 [writes_intros]: "writes alloc (trilogy_builder_write_uint32 alloc v) (le_bytes 4 v)"
  unfolding trilogy_builder_write_uint32_def mask_byte le_bytes_4 by (intro writes_intros)

lemma writes_uint64 [writes_intros]: "writes alloc (trilogy_builder_write_uint64 alloc v) (le_bytes 8 v)"
  unfolding trilogy_builder_write_uint64_def mask_byte le_bytes_8 by (intro writes_intros)

lemma writes_float [writes_intros]: "writes alloc (trilogy_builder_write_float alloc v) (le_bytes 4 v)"
  unfolding trilogy_builder_write_float_def mask_byte le_bytes_4 by (intro writes_intros)

lemma writes_double [writes_intros]: "writes alloc (trilogy_builder_write_double alloc v) (le_bytes 8 v)"
  unfolding trilogy_builder_write_double_def mask_byte le_bytes_8 by (intro writes_intros)

lemma le_bytes_ucast:
  assumes "8 * n \<le> LENGTH('b)"
  shows "le_bytes n (ucast (v :: 'a::len word) :: 'b::len word) = le_bytes n v"
proof -
  have "(ucast (drop_bit (8 * i) (ucast v :: 'b word)) :: u8) = ucast (drop_bit (8 * i) v)" if "i < n" for i
    by (rule bit_word_eqI) (use that assms bit_imp_le_length [of v] in \<open>auto simp: bit_simps\<close>)
  then show ?thesis by (simp add: le_bytes_def)
qed

lemma writes_lenenc [writes_intros]: "writes alloc (trilogy_builder_write_lenenc alloc v) (lenenc_bytes v)"
proof -
  have two: "lenenc_bytes v = [0xfc] @ le_bytes 2 (ucast v :: u16)" if "\<not> v < 251" "v \<le> 0xffff"
    using that by (simp add: lenenc_bytes_def le_bytes_ucast)
  have three: "lenenc_bytes v = [0xfd] @ le_bytes 3 (ucast v :: u32)"
    if "\<not> v < 251" "\<not> v \<le> 0xffff" "v \<le> 0xffffff"
    using that by (simp add: lenenc_bytes_def le_bytes_ucast)
  have eight: "lenenc_bytes v = [0xfe] @ le_bytes 8 v"
    if "\<not> v < 251" "\<not> v \<le> 0xffff" "\<not> v \<le> 0xffffff"
    using that by (simp add: lenenc_bytes_def)
  have one: "lenenc_bytes v = [ucast v]" if "v < 251"
    using that by (simp add: lenenc_bytes_def)
  show ?thesis
    unfolding trilogy_builder_write_lenenc_def
    by (auto intro!: writes_if simp: one two three eight simp del: append.simps intro: writes_intros)
qed

text \<open>
  The loop over the fragments: what it has written and what it leaves make up the data, and
  what is left fits in the open fragment.
\<close>

lemma write_fragments_filled:
  assumes "n < TRILOGY_MAX_PACKET_LEN" and "unat fr = TRILOGY_MAX_PACKET_LEN - n"
    and "unat len \<le> length ptr"
  shows "holds (filled s lim p n) (write_fragments alloc ptr len fr)
    (\<lambda>(ptr', len') b. \<exists>d n'. filled s lim (p @ d) n' b
        \<and> take (unat len) ptr = d @ take (unat len') ptr' \<and> unat len' \<le> length ptr'
        \<and> n' + unat len' < TRILOGY_MAX_PACKET_LEN)
    (build_fails alloc lim (length p + unat len))"
  using assms
proof (induction alloc ptr len fr arbitrary: p n rule: write_fragments.induct)
  case (1 alloc ptr len fr)
  let ?Q = "\<lambda>p len (ptr :: u8 list) (ptr', len') b. \<exists>d n'. filled s lim (p @ d) n' b
        \<and> take (unat len) ptr = d @ take (unat (len' :: size_t)) ptr' \<and> unat len' \<le> length ptr'
        \<and> n' + unat len' < TRILOGY_MAX_PACKET_LEN"
  show ?case
  proof (cases "len \<ge> fr")
    case False
    then have "unat len < unat fr" by (simp add: word_less_nat_alt not_le)
    then have "n + unat len < TRILOGY_MAX_PACKET_LEN" using "1.prems"(1,2) by linarith
    with False "1.prems"(3) show ?thesis
      by (subst write_fragments.simps) (auto intro!: holds_ret exI [of _ "[]"] exI [of _ n])
  next
    case True
    then have le: "unat fr \<le> unat len" by (simp add: word_le_nat_alt)
    let ?M = "word_of_nat TRILOGY_MAX_PACKET_LEN :: size_t"
    let ?p = "p @ take (unat fr) ptr" and ?ptr = "drop (unat fr) ptr" and ?len = "len - fr"
    have M: "unat ?M = TRILOGY_MAX_PACKET_LEN" by (simp add: TRILOGY_MAX_PACKET_LEN_def)
    have len: "unat ?len = unat len - unat fr" using True by (rule unat_diff_size_t)
    have fill: "n + unat fr = TRILOGY_MAX_PACKET_LEN" using "1.prems"(1,2) by linarith
    let ?E = "build_fails alloc lim (length p + unat len)"
    have piece: "holds (filled s lim p n) (write_piece alloc ptr fr)
        (\<lambda>_. filled s lim ?p TRILOGY_MAX_PACKET_LEN) ?E"
      by (rule holds_weaken [OF write_piece_filled [of n fr ptr]])
        (use fill le "1.prems"(3) in \<open>auto elim: build_fails_mono\<close>)
    have header: "holds (filled s lim ?p TRILOGY_MAX_PACKET_LEN) (write_continuation_header alloc)
        (\<lambda>_. filled s lim ?p 0) ?E"
      by (rule holds_weaken [OF write_continuation_header_filled])
        (use le "1.prems"(3) in \<open>auto elim: build_fails_mono\<close>)
    have "holds (filled s lim ?p 0) (write_fragments alloc ?ptr ?len ?M)
        (?Q ?p ?len ?ptr) (build_fails alloc lim (length ?p + unat ?len))"
      by (rule "1.IH" [OF True]) (use M len "1.prems"(3) le in simp_all)
    then have rest: "holds (filled s lim ?p 0) (write_fragments alloc ?ptr ?len ?M) (?Q p len ptr) ?E"
    proof (rule holds_update)
      fix b r t assume "?Q ?p ?len ?ptr r t"
      then obtain ptr' len' d n' where r: "r = (ptr', len')" "filled s lim (?p @ d) n' t"
        "take (unat ?len) ?ptr = d @ take (unat len') ptr'" "unat len' \<le> length ptr'"
        "n' + unat len' < TRILOGY_MAX_PACKET_LEN" by (cases r) auto
      have "take (unat len) ptr = take (unat fr) ptr @ take (unat ?len) ?ptr"
        using len le by (simp add: take_add [symmetric])
      with r show "?Q p len ptr r t"
        by (auto intro!: exI [of _ "take (unat fr) ptr @ d"] exI [of _ n'])
    qed (use len le "1.prems"(3) in auto)
    have "holds (filled s lim p n)
       (checked (write_piece alloc ptr fr) (\<lambda>_. checked (write_continuation_header alloc) (\<lambda>_.
          write_fragments alloc ?ptr ?len ?M))) (?Q p len ptr) ?E"
      by (rule holds_checked [OF piece holds_checked [OF header rest]])
    with True show ?thesis by (subst write_fragments.simps) simp
  qed
qed

lemma writes_buffer [writes_intros]:
  assumes src: "unat len \<le> length data" and len: "unat len < object_limit"
  shows "writes alloc (trilogy_builder_write_buffer alloc data len) (take (unat len) data)"
  unfolding writes_def trilogy_builder_write_buffer_def
proof (intro allI impI, rule holds_get_state)
  fix s lim p b assume b: "building s lim p b"
  let ?n = "length p mod TRILOGY_MAX_PACKET_LEN"
  let ?d = "take (unat len) data"
  let ?fr = "ucast (word_of_nat TRILOGY_MAX_PACKET_LEN - fragment_length b) :: size_t"
  let ?E = "build_fails alloc lim (length p + length ?d)"
  have n: "?n < TRILOGY_MAX_PACKET_LEN" by simp
  have pl: "unat (packet_length b) = length p" "packet_max_length b = lim"
    "unat (fragment_length b) = ?n" "length p < object_limit"
    using filled_bounds [of s lim p ?n b] b n unfolding building_def by (meson less_imp_le)+
  have d: "length ?d = unat len" using src by simp
  have sum: "unat (packet_length b + len) = length p + unat len"
    using pl len object_limit_size_t by (subst unat_add_size_t) auto
  have fr: "unat ?fr = TRILOGY_MAX_PACKET_LEN - ?n"
  proof -
    have max: "unat (word_of_nat TRILOGY_MAX_PACKET_LEN :: u32) = TRILOGY_MAX_PACKET_LEN"
      by (simp add: TRILOGY_MAX_PACKET_LEN_def)
    have "unat (word_of_nat TRILOGY_MAX_PACKET_LEN - fragment_length b) = TRILOGY_MAX_PACKET_LEN - ?n"
      using max pl(3) n by (subst unat_sub) (simp_all add: word_le_nat_alt less_imp_le)
    moreover have "TRILOGY_MAX_PACKET_LEN - ?n < 2 ^ 64"
      by (simp add: TRILOGY_MAX_PACKET_LEN_def)
    ultimately show ?thesis by (subst unat_ucast_small) simp_all
  qed
  have last: "holds (filled s lim q m) (if len' \<noteq> 0 then write_piece alloc ptr len' else ret ())
      (\<lambda>_. building s lim (q @ take (unat len') ptr)) (build_fails alloc lim (length q + unat len'))"
    if fit: "m + unat len' < TRILOGY_MAX_PACKET_LEN" and le: "unat len' \<le> length ptr" for q m len' ptr
  proof (rule holds_if)
    show "holds (filled s lim q m) (write_piece alloc ptr len')
      (\<lambda>_. building s lim (q @ take (unat len') ptr)) (build_fails alloc lim (length q + unat len'))"
      by (rule holds_weaken [OF write_piece_filled [OF less_imp_le [OF fit] le]])
        (use fit in \<open>auto intro: filled_building\<close>)
    assume "\<not> len' \<noteq> 0"
    then show "holds (filled s lim q m) (ret ())
      (\<lambda>_. building s lim (q @ take (unat len') ptr)) (build_fails alloc lim (length q + unat len'))"
      using fit by (intro holds_ret) (auto intro: filled_building)
  qed
  have loop: "holds (filled s lim p ?n) (checked (write_fragments alloc data len ?fr) (\<lambda>(ptr, len).
      if len \<noteq> 0 then write_piece alloc ptr len else ret ())) (\<lambda>_. building s lim (p @ ?d)) ?E"
  proof (rule holds_checked)
    show "holds (filled s lim p ?n) (write_fragments alloc data len ?fr)
        (\<lambda>(ptr', len') b. \<exists>x m. filled s lim (p @ x) m b \<and> ?d = x @ take (unat len') ptr'
          \<and> unat len' \<le> length ptr' \<and> m + unat len' < TRILOGY_MAX_PACKET_LEN) ?E"
      using write_fragments_filled [OF n fr src, of s lim p alloc] d by simp
    show "holds ((\<lambda>(ptr', len') b. \<exists>x m. filled s lim (p @ x) m b \<and> ?d = x @ take (unat len') ptr'
          \<and> unat len' \<le> length ptr' \<and> m + unat len' < TRILOGY_MAX_PACKET_LEN) r)
        ((\<lambda>(ptr, len). if len \<noteq> 0 then write_piece alloc ptr len else ret ()) r)
        (\<lambda>_. building s lim (p @ ?d)) ?E" for r
    proof (cases r)
      case (Pair ptr' len')
      have "holds (\<lambda>b. filled s lim (p @ x) m b \<and> ?d = x @ take (unat len') ptr'
          \<and> unat len' \<le> length ptr' \<and> m + unat len' < TRILOGY_MAX_PACKET_LEN)
        (if len' \<noteq> 0 then write_piece alloc ptr' len' else ret ())
        (\<lambda>_. building s lim (p @ ?d)) ?E" for x m
      proof (cases "?d = x @ take (unat len') ptr' \<and> unat len' \<le> length ptr'
          \<and> m + unat len' < TRILOGY_MAX_PACKET_LEN")
        case True
        then have "length (p @ x) + unat len' = length p + length ?d" by simp
        moreover have "(p @ x) @ take (unat len') ptr' = p @ ?d" using True by simp
        ultimately show ?thesis
          using last [of m len' ptr' "p @ x"] True by (auto simp: add.assoc elim!: holds_weaken)
      qed (auto intro: holds_vacuous)
      then show ?thesis unfolding Pair prod.case by (intro holds_ex)
    qed
  qed
  have short: "holds (filled s lim p ?n) (write_piece alloc data len) (\<lambda>_. building s lim (p @ ?d)) ?E"
    if "len < ?fr"
  proof -
    have fit: "?n + unat len < TRILOGY_MAX_PACKET_LEN"
      using that fr n by (simp add: word_less_nat_alt)
    show ?thesis
      by (rule holds_weaken [OF write_piece_filled [OF less_imp_le [OF fit] src]])
        (use fit d in \<open>auto intro: filled_building\<close>)
  qed
  have full: "holds (building s lim p) (throw TRILOGY_MAX_PACKET_EXCEEDED)
      (\<lambda>_. building s lim (p @ ?d)) ?E" if "packet_max_length b \<le> packet_length b + len"
    using that sum pl(2) d
    by (intro holds_halt)
      (auto simp: build_fails_def building_def filled_def builder_fields_def word_le_nat_alt)
  show "holds (building s lim p)
      (let fragment_remaining = ?fr
       in if packet_max_length b \<le> packet_length b + len then throw TRILOGY_MAX_PACKET_EXCEEDED
          else if len < fragment_remaining then write_piece alloc data len
          else checked (write_fragments alloc data len fragment_remaining) (\<lambda>(ptr, len).
            if len \<noteq> 0 then write_piece alloc ptr len else ret ()))
      (\<lambda>_. building s lim (p @ ?d)) ?E"
    unfolding Let_def
    by (intro holds_if full) (use short loop in \<open>simp_all add: building_def [abs_def]\<close>)
qed

lemma writes_lenenc_buffer [writes_intros]:
  assumes "unat len \<le> length data" and "unat len < object_limit"
  shows "writes alloc (trilogy_builder_write_lenenc_buffer alloc data len)
    (lenenc_string (take (unat len) data))"
proof -
  have "(word_of_nat (length (take (unat len) data)) :: u64) = len" using assms(1) by simp
  then have "lenenc_string (take (unat len) data) = lenenc_bytes len @ take (unat len) data"
    by (simp add: lenenc_string_def)
  then show ?thesis
    unfolding trilogy_builder_write_lenenc_buffer_def by (simp add: writes_intros assms)
qed

lemma writes_string [writes_intros]:
  assumes n: "strlen data = Some n" and len: "n < object_limit"
  shows "writes alloc (trilogy_builder_write_string alloc data) (take n data @ [0])"
proof -
  have u: "unat (word_of_nat n :: size_t) = n"
    using len object_limit_size_t by (intro unat_word_of_nat_size_t) linarith
  have "writes alloc (trilogy_builder_write_buffer alloc data (word_of_nat n)) (take n data)"
    using writes_buffer [of "word_of_nat n" data alloc] u len strlen_Some [OF n] by simp
  then show ?thesis
    unfolding trilogy_builder_write_string_def n by (simp add: writes_intros)
qed

section \<open>Begin, limit, end\<close>

lemma builder_init_building:
  assumes "buffer_ok buff"
  shows "holds (\<lambda>_. True) (trilogy_builder_init alloc buff s)
    (\<lambda>_. building s SIZE_MAX []) (build_fails alloc lim 0)"
proof -
  have start: "builder_fields [] h 0 SIZE_MAX fl s
      (b\<lparr>bld_buffer := buff\<lparr>buf_len := 0\<rparr>, bld_seq := s, packet_length := 0, packet_max_length := SIZE_MAX\<rparr>)
      \<longleftrightarrow> header_offset b = h \<and> fragment_length b = fl" for b h fl
    using buffer_ok_reset [OF assms] by (auto simp: builder_fields_def)
  have "holds (builder_fields [] h 0 SIZE_MAX fl s) (write_header alloc)
      (\<lambda>_. building s SIZE_MAX []) (build_fails alloc lim 0)" for h fl
  proof (rule holds_weaken [OF write_header_fields])
    fix b assume "builder_fields ([] @ [0, 0, 0, s]) (word_of_nat (length ([] :: u8 list))) 0 SIZE_MAX 0 (s + 1) b"
    then show "building s SIZE_MAX [] b"
      unfolding building_def
      by (intro filledI [of _ "[]" "[]" _ s "[]" s 0 0 _ 0]) (simp_all add: framed_Nil)
  qed (use refuses_mono [of alloc 4 _ 8] in \<open>auto simp: build_fails_def\<close>)
  then have "holds (\<lambda>b. \<exists>h fl. builder_fields [] h 0 SIZE_MAX fl s b) (write_header alloc)
      (\<lambda>_. building s SIZE_MAX []) (build_fails alloc lim 0)"
    by (intro holds_ex)
  then show ?thesis
    unfolding trilogy_builder_init_def by (rule holds_put_state_then) (simp add: start)
qed

lemma set_max_packet_length_building:
  assumes "length p \<le> unat mx"
  shows "holds (building s lim p) (trilogy_builder_set_max_packet_length mx)
    (\<lambda>_. building s mx p) (\<lambda>_ _. False)"
  unfolding trilogy_builder_set_max_packet_length_def
proof (rule holds_get_state)
  fix b assume "building s lim p b"
  then have "unat (packet_length b) = length p"
    using filled_bounds(2) unfolding building_def by (meson less_imp_le max_packet_pos mod_less_divisor)
  then have "\<not> packet_length b > mx" using assms by (simp add: word_less_nat_alt)
  moreover have "building s mx p (b\<lparr>packet_max_length := mx\<rparr>)" if "building s lim p b" for b
    using that unfolding building_def filled_def by (fastforce simp: builder_fields_def)
  ultimately show "holds (building s lim p)
      (if packet_length b > mx then throw TRILOGY_MAX_PACKET_EXCEEDED
       else put_state (\<lambda>b. b\<lparr>packet_max_length := mx\<rparr>)) (\<lambda>_. building s mx p) (\<lambda>_ _. False)"
    by (auto intro: holds_put_state)
qed

text \<open>Finalizing writes the last header: the buffer then holds the frames of the payload.\<close>

lemma header_byte: "ucast (drop_bit k fl AND 0xff) = (word_of_nat (unat (fl :: u32) div 2 ^ k) :: u8)"
proof -
  have small: "unat fl < 4294967296" using unsigned_less [of fl] by simp
  have "unat (drop_bit k fl) = unat fl div 2 ^ k"
    unfolding unsigned_drop_bit_eq by (simp add: drop_bit_eq_div take_bit_nat_eq_self small)
  then have "drop_bit k fl = word_of_nat (unat fl div 2 ^ k)"
    using word_of_nat_unat [of "drop_bit k fl"] by simp
  moreover have "ucast (word_of_nat n :: u32) = (word_of_nat n :: u8)" for n
    by (rule bit_word_eqI) (auto simp: bit_simps)
  ultimately show ?thesis by (simp add: mask_byte)
qed

lemma finalize_frames:
  "holds (building s lim p) trilogy_builder_finalize
     (\<lambda>_ b. buffer_ok (bld_buffer b) \<and> contents (bld_buffer b) = frames s p
       \<and> bld_seq b = s + word_of_nat (length p div TRILOGY_MAX_PACKET_LEN) + 1)
     (\<lambda>_ _. False)"
  unfolding building_def filled_def
proof (intro holds_ex)
  fix full tail pre q h pl fl
  let ?n = "length p mod TRILOGY_MAX_PACKET_LEN"
  let ?P = "\<lambda>b. p = full @ tail \<and> length tail = ?n \<and> framed s full pre q
      \<and> builder_fields (pre @ [0, 0, 0, q] @ tail) h pl lim fl (q + 1) b \<and> unat h = length pre
      \<and> unat fl = ?n \<and> unat pl = length p"
  let ?Q = "\<lambda>b. buffer_ok (bld_buffer b) \<and> contents (bld_buffer b) = frames s p
       \<and> bld_seq b = s + word_of_nat (length p div TRILOGY_MAX_PACKET_LEN) + 1"
  show "holds ?P trilogy_builder_finalize (\<lambda>_. ?Q) (\<lambda>_ _. False)"
  proof (cases "\<exists>b. ?P b")
    case False
    then show ?thesis by (intro holds_vacuous) blast
  next
    case True
    then obtain b where b: "?P b" by blast
    then have p: "p = full @ tail" and tl: "length tail = ?n" and fr: "framed s full pre q"
      and h: "unat h = length pre" and fl: "unat fl = ?n" by blast+
    from b have len: "length (pre @ [0, 0, 0, q] @ tail) < object_limit"
      by (blast intro: fields_length)
    have small: "unat h + 2 < 18446744073709551616"
      using len h by (simp add: object_limit_def)
    have h0: "unat (h + 0) = length pre" using h by simp
    have h1: "unat (h + 1) = length pre + 1" using unat_add_size_t [of h 1] small h by simp
    have h2: "unat (h + 2) = length pre + 2" using unat_add_size_t [of h 2] small h by simp
    obtain k where k: "length full = k * TRILOGY_MAX_PACKET_LEN"
      "frames s (full @ tail) = pre @ frames q tail" "q = s + word_of_nat k"
      using fr by (rule framedE) blast
    have tlt: "length tail < TRILOGY_MAX_PACKET_LEN" unfolding tl by simp
    have "length p = k * TRILOGY_MAX_PACKET_LEN + length tail" using p k(1) by simp
    with tlt have kp: "length p div TRILOGY_MAX_PACKET_LEN = k" by simp
    let ?a = "ucast (drop_bit 0 fl AND 0xff) :: u8" and ?b = "ucast (drop_bit 8 fl AND 0xff) :: u8"
      and ?c = "ucast (drop_bit 16 fl AND 0xff) :: u8"
    have "packet_header (length tail) q = [?a, ?b, ?c, q]"
      unfolding packet_header_def header_byte fl tl by simp
    then have final: "frames s p = pre @ [?a, ?b, ?c, q] @ tail"
      using k(2) frames_short [OF tlt, of q] unfolding p by simp
    have poke: "holds (builder_fields c h pl lim fl (q + 1)) (on_buffer (buffer_poke i v))
        (\<lambda>_. builder_fields (c[unat i := v]) h pl lim fl (q + 1)) (\<lambda>_ _. False)" if "unat i < length c" for c i v
      using poke_fields [OF that] .
    have last: "holds (builder_fields (pre @ [?a, ?b, 0, q] @ tail) h pl lim fl (q + 1))
        (on_buffer (buffer_poke (h + 2) ?c)) (\<lambda>_. ?Q) (\<lambda>_ _. False)"
    proof (rule holds_weaken [OF poke])
      fix b assume "builder_fields ((pre @ [?a, ?b, 0, q] @ tail)[unat (h + 2) := ?c]) h pl lim fl (q + 1) b"
      then show "?Q b"
        using final k(3) kp by (simp add: h2 list_update_append builder_fields_def numeral_2_eq_2)
    qed (simp_all add: h2)
    show ?thesis
      unfolding trilogy_builder_finalize_def
    proof (rule holds_get_state)
      fix b assume "?P b"
      then have b: "header_offset b = h" "fragment_length b = fl" by (auto simp: builder_fields_def)
      have "holds (builder_fields (pre @ [0, 0, 0, q] @ tail) h pl lim fl (q + 1))
         (checked (on_buffer (buffer_poke (h + 0) ?a)) (\<lambda>_.
          checked (on_buffer (buffer_poke (h + 1) ?b)) (\<lambda>_.
          on_buffer (buffer_poke (h + 2) ?c)))) (\<lambda>_. ?Q) (\<lambda>_ _. False)"
      proof (rule holds_checked, rule poke)
        show "unat (h + 0) < length (pre @ [0, 0, 0, q] @ tail)" by (simp add: h)
        have "holds (builder_fields ((pre @ [?a, 0, 0, q] @ tail)) h pl lim fl (q + 1))
            (on_buffer (buffer_poke (h + 1) ?b))
            (\<lambda>_. builder_fields (pre @ [?a, ?b, 0, q] @ tail) h pl lim fl (q + 1)) (\<lambda>_ _. False)"
          using poke [of "h + 1" "pre @ [?a, 0, 0, q] @ tail" ?b] by (simp add: h1 list_update_append)
        then show "holds (builder_fields ((pre @ [0, 0, 0, q] @ tail)[unat (h + 0) := ?a]) h pl lim fl (q + 1))
            (checked (on_buffer (buffer_poke (h + 1) ?b)) (\<lambda>_. on_buffer (buffer_poke (h + 2) ?c)))
            (\<lambda>_. ?Q) (\<lambda>_ _. False)" for x
          unfolding h0 by (simp add: list_update_append holds_checked [OF _ last [simplified]])
      qed
      then show "holds ?P
         (checked (on_buffer (buffer_poke (header_offset b + 0) (ucast (drop_bit 0 (fragment_length b) AND 0xff)))) (\<lambda>_.
          checked (on_buffer (buffer_poke (header_offset b + 1) (ucast (drop_bit 8 (fragment_length b) AND 0xff)))) (\<lambda>_.
          on_buffer (buffer_poke (header_offset b + 2) (ucast (drop_bit 16 (fragment_length b) AND 0xff))))))
         (\<lambda>_. ?Q) (\<lambda>_ _. False)"
        unfolding b by (rule holds_weaken) auto
    qed
  qed
qed

text \<open>The limit is what decides whether a buffer is accepted, as long as memory does not run out.\<close>

lemma write_buffer_limit:
  assumes b: "building s lim p b" and data: "unat len \<le> length data"
    and alloc: "generous alloc" and small: "2 * (length p + unat len) + 8 \<le> 2 ^ 62" and lim: "lim \<noteq> 0"
  shows "fst (trilogy_builder_write_buffer alloc data len b) =
    (if length p + unat len < unat lim then Inr () else Inl (Rc TRILOGY_MAX_PACKET_EXCEEDED))"
proof -
  have pl: "unat (packet_length b) = length p" and pm: "packet_max_length b = lim"
    using filled_bounds [of s lim p "length p mod TRILOGY_MAX_PACKET_LEN" b] b
    by (simp_all add: building_def TRILOGY_MAX_PACKET_LEN_def)
  have sum: "unat (packet_length b + len) = length p + unat len"
    using small pl by (subst unat_add_size_t) simp_all
  have taken: "length (take (unat len) data) = unat len" using data by simp
  have "unat len < object_limit" using small by (simp add: object_limit_def)
  then have h: "holds (building s lim p) (trilogy_builder_write_buffer alloc data len)
      (\<lambda>_. building s lim (p @ take (unat len) data)) (build_fails alloc lim (length p + unat len))"
    using writesD [OF writes_buffer [OF data] lim, where s = s and p = p] unfolding taken by simp
  show ?thesis
  proof (cases "length p + unat len < unat lim")
    case False
    then have "lim \<le> packet_length b + len" using sum by (simp add: word_le_nat_alt)
    with False pm show ?thesis by (simp add: trilogy_builder_write_buffer_def Let_def)
  next
    case True
    obtain r b' where run: "trilogy_builder_write_buffer alloc data len b = (r, b')" by (cases "trilogy_builder_write_buffer alloc data len b")
    have "r = Inr ()"
    proof (cases r)
      case (Inl e)
      with h b run have "build_fails alloc lim (length p + unat len) e b'"
        by (auto dest: holds_Inl)
      then show ?thesis using True alloc small by (auto simp: build_fails_def refuses_def)
    qed simp
    with run True show ?thesis by simp
  qed
qed

end
