(* ===== verification/Protocol_Types.thy ===== *)
theory Protocol_Types
  imports Trilogy_Prelude
begin

text \<open>
  The data of \<^verbatim>\<open>inc/trilogy/protocol.h\<close>: the enumerations with their codes, and the structures
  the parsers fill and the builders read. A pointer with its length is the list of the bytes it
  spans, and an optional one where the C code tells \<^verbatim>\<open>NULL\<close> from an empty span. A \<^verbatim>\<open>char\<close> array
  of fixed size is the list of its bytes.
\<close>

section \<open>Enumerations\<close>

datatype TRILOGY_CAPABILITIES_t =
    TRILOGY_CAPABILITIES_NONE
  | TRILOGY_CAPABILITIES_LONG_PASSWORD
  | TRILOGY_CAPABILITIES_FOUND_ROWS
  | TRILOGY_CAPABILITIES_LONG_FLAG
  | TRILOGY_CAPABILITIES_CONNECT_WITH_DB
  | TRILOGY_CAPABILITIES_NO_SCHEMA
  | TRILOGY_CAPABILITIES_COMPRESS
  | TRILOGY_CAPABILITIES_ODBC
  | TRILOGY_CAPABILITIES_LOCAL_FILES
  | TRILOGY_CAPABILITIES_IGNORE_SPACE
  | TRILOGY_CAPABILITIES_PROTOCOL_41
  | TRILOGY_CAPABILITIES_INTERACTIVE
  | TRILOGY_CAPABILITIES_SSL
  | TRILOGY_CAPABILITIES_TRANSACTIONS
  | TRILOGY_CAPABILITIES_RESERVED
  | TRILOGY_CAPABILITIES_SECURE_CONNECTION
  | TRILOGY_CAPABILITIES_MULTI_STATEMENTS
  | TRILOGY_CAPABILITIES_MULTI_RESULTS
  | TRILOGY_CAPABILITIES_PS_MULTI_RESULTS
  | TRILOGY_CAPABILITIES_PLUGIN_AUTH
  | TRILOGY_CAPABILITIES_CONNECT_ATTRS
  | TRILOGY_CAPABILITIES_PLUGIN_AUTH_LENENC_CLIENT_DATA
  | TRILOGY_CAPABILITIES_CAN_HANDLE_EXPIRED_PASSWORDS
  | TRILOGY_CAPABILITIES_SESSION_TRACK
  | TRILOGY_CAPABILITIES_DEPRECATE_EOF

primrec capability :: "TRILOGY_CAPABILITIES_t \<Rightarrow> u32" where
  "capability TRILOGY_CAPABILITIES_NONE = 0"
| "capability TRILOGY_CAPABILITIES_LONG_PASSWORD = 0x00000001"
| "capability TRILOGY_CAPABILITIES_FOUND_ROWS = 0x00000002"
| "capability TRILOGY_CAPABILITIES_LONG_FLAG = 0x00000004"
| "capability TRILOGY_CAPABILITIES_CONNECT_WITH_DB = 0x00000008"
| "capability TRILOGY_CAPABILITIES_NO_SCHEMA = 0x00000010"
| "capability TRILOGY_CAPABILITIES_COMPRESS = 0x00000020"
| "capability TRILOGY_CAPABILITIES_ODBC = 0x00000040"
| "capability TRILOGY_CAPABILITIES_LOCAL_FILES = 0x00000080"
| "capability TRILOGY_CAPABILITIES_IGNORE_SPACE = 0x00000100"
| "capability TRILOGY_CAPABILITIES_PROTOCOL_41 = 0x00000200"
| "capability TRILOGY_CAPABILITIES_INTERACTIVE = 0x00000400"
| "capability TRILOGY_CAPABILITIES_SSL = 0x00000800"
| "capability TRILOGY_CAPABILITIES_TRANSACTIONS = 0x00002000"
| "capability TRILOGY_CAPABILITIES_RESERVED = 0x00004000"
| "capability TRILOGY_CAPABILITIES_SECURE_CONNECTION = 0x00008000"
| "capability TRILOGY_CAPABILITIES_MULTI_STATEMENTS = 0x00010000"
| "capability TRILOGY_CAPABILITIES_MULTI_RESULTS = 0x00020000"
| "capability TRILOGY_CAPABILITIES_PS_MULTI_RESULTS = 0x00040000"
| "capability TRILOGY_CAPABILITIES_PLUGIN_AUTH = 0x00080000"
| "capability TRILOGY_CAPABILITIES_CONNECT_ATTRS = 0x00100000"
| "capability TRILOGY_CAPABILITIES_PLUGIN_AUTH_LENENC_CLIENT_DATA = 0x00200000"
| "capability TRILOGY_CAPABILITIES_CAN_HANDLE_EXPIRED_PASSWORDS = 0x00400000"
| "capability TRILOGY_CAPABILITIES_SESSION_TRACK = 0x00800000"
| "capability TRILOGY_CAPABILITIES_DEPRECATE_EOF = 0x01000000"

datatype TRILOGY_SERVER_STATUS_t =
    TRILOGY_SERVER_STATUS_IN_TRANS
  | TRILOGY_SERVER_STATUS_AUTOCOMMIT
  | TRILOGY_SERVER_STATUS_MORE_RESULTS_EXISTS
  | TRILOGY_SERVER_STATUS_NO_GOOD_INDEX_USED
  | TRILOGY_SERVER_STATUS_NO_INDEX_USED
  | TRILOGY_SERVER_STATUS_CURSOR_EXISTS
  | TRILOGY_SERVER_STATUS_LAST_ROW_SENT
  | TRILOGY_SERVER_STATUS_DB_DROPPED
  | TRILOGY_SERVER_STATUS_NO_BACKSLASH_ESCAPES
  | TRILOGY_SERVER_STATUS_METADATA_CHANGED
  | TRILOGY_SERVER_STATUS_QUERY_WAS_SLOW
  | TRILOGY_SERVER_STATUS_PS_OUT_PARAMS
  | TRILOGY_SERVER_STATUS_STATUS_IN_TRANS_READONLY
  | TRILOGY_SERVER_STATUS_SESSION_STATE_CHANGED

primrec server_status_flag :: "TRILOGY_SERVER_STATUS_t \<Rightarrow> u16" where
  "server_status_flag TRILOGY_SERVER_STATUS_IN_TRANS = 0x0001"
| "server_status_flag TRILOGY_SERVER_STATUS_AUTOCOMMIT = 0x0002"
| "server_status_flag TRILOGY_SERVER_STATUS_MORE_RESULTS_EXISTS = 0x0008"
| "server_status_flag TRILOGY_SERVER_STATUS_NO_GOOD_INDEX_USED = 0x0010"
| "server_status_flag TRILOGY_SERVER_STATUS_NO_INDEX_USED = 0x0020"
| "server_status_flag TRILOGY_SERVER_STATUS_CURSOR_EXISTS = 0x0040"
| "server_status_flag TRILOGY_SERVER_STATUS_LAST_ROW_SENT = 0x0080"
| "server_status_flag TRILOGY_SERVER_STATUS_DB_DROPPED = 0x0100"
| "server_status_flag TRILOGY_SERVER_STATUS_NO_BACKSLASH_ESCAPES = 0x0200"
| "server_status_flag TRILOGY_SERVER_STATUS_METADATA_CHANGED = 0x0400"
| "server_status_flag TRILOGY_SERVER_STATUS_QUERY_WAS_SLOW = 0x0800"
| "server_status_flag TRILOGY_SERVER_STATUS_PS_OUT_PARAMS = 0x1000"
| "server_status_flag TRILOGY_SERVER_STATUS_STATUS_IN_TRANS_READONLY = 0x2000"
| "server_status_flag TRILOGY_SERVER_STATUS_SESSION_STATE_CHANGED = 0x4000"

datatype TRILOGY_TYPE_t =
    TRILOGY_TYPE_DECIMAL
  | TRILOGY_TYPE_TINY
  | TRILOGY_TYPE_SHORT
  | TRILOGY_TYPE_LONG
  | TRILOGY_TYPE_FLOAT
  | TRILOGY_TYPE_DOUBLE
  | TRILOGY_TYPE_NULL
  | TRILOGY_TYPE_TIMESTAMP
  | TRILOGY_TYPE_LONGLONG
  | TRILOGY_TYPE_INT24
  | TRILOGY_TYPE_DATE
  | TRILOGY_TYPE_TIME
  | TRILOGY_TYPE_DATETIME
  | TRILOGY_TYPE_YEAR
  | TRILOGY_TYPE_VARCHAR
  | TRILOGY_TYPE_BIT
  | TRILOGY_TYPE_VECTOR
  | TRILOGY_TYPE_JSON
  | TRILOGY_TYPE_NEWDECIMAL
  | TRILOGY_TYPE_ENUM
  | TRILOGY_TYPE_SET
  | TRILOGY_TYPE_TINY_BLOB
  | TRILOGY_TYPE_MEDIUM_BLOB
  | TRILOGY_TYPE_LONG_BLOB
  | TRILOGY_TYPE_BLOB
  | TRILOGY_TYPE_VAR_STRING
  | TRILOGY_TYPE_STRING
  | TRILOGY_TYPE_GEOMETRY

primrec type_code :: "TRILOGY_TYPE_t \<Rightarrow> u8" where
  "type_code TRILOGY_TYPE_DECIMAL = 0x00"
| "type_code TRILOGY_TYPE_TINY = 0x01"
| "type_code TRILOGY_TYPE_SHORT = 0x02"
| "type_code TRILOGY_TYPE_LONG = 0x03"
| "type_code TRILOGY_TYPE_FLOAT = 0x04"
| "type_code TRILOGY_TYPE_DOUBLE = 0x05"
| "type_code TRILOGY_TYPE_NULL = 0x06"
| "type_code TRILOGY_TYPE_TIMESTAMP = 0x07"
| "type_code TRILOGY_TYPE_LONGLONG = 0x08"
| "type_code TRILOGY_TYPE_INT24 = 0x09"
| "type_code TRILOGY_TYPE_DATE = 0x0a"
| "type_code TRILOGY_TYPE_TIME = 0x0b"
| "type_code TRILOGY_TYPE_DATETIME = 0x0c"
| "type_code TRILOGY_TYPE_YEAR = 0x0d"
| "type_code TRILOGY_TYPE_VARCHAR = 0x0f"
| "type_code TRILOGY_TYPE_BIT = 0x10"
| "type_code TRILOGY_TYPE_VECTOR = 0xf2"
| "type_code TRILOGY_TYPE_JSON = 0xf5"
| "type_code TRILOGY_TYPE_NEWDECIMAL = 0xf6"
| "type_code TRILOGY_TYPE_ENUM = 0xf7"
| "type_code TRILOGY_TYPE_SET = 0xf8"
| "type_code TRILOGY_TYPE_TINY_BLOB = 0xf9"
| "type_code TRILOGY_TYPE_MEDIUM_BLOB = 0xfa"
| "type_code TRILOGY_TYPE_LONG_BLOB = 0xfb"
| "type_code TRILOGY_TYPE_BLOB = 0xfc"
| "type_code TRILOGY_TYPE_VAR_STRING = 0xfd"
| "type_code TRILOGY_TYPE_STRING = 0xfe"
| "type_code TRILOGY_TYPE_GEOMETRY = 0xff"

datatype TRILOGY_COLUMN_FLAG_t =
    TRILOGY_COLUMN_FLAG_NONE
  | TRILOGY_COLUMN_FLAG_NOT_NULL
  | TRILOGY_COLUMN_FLAG_PRI_KEY
  | TRILOGY_COLUMN_FLAG_UNIQUE_KEY
  | TRILOGY_COLUMN_FLAG_MULTIPLE_KEY
  | TRILOGY_COLUMN_FLAG_BLOB
  | TRILOGY_COLUMN_FLAG_UNSIGNED
  | TRILOGY_COLUMN_FLAG_ZEROFILL
  | TRILOGY_COLUMN_FLAG_BINARY
  | TRILOGY_COLUMN_FLAG_ENUM
  | TRILOGY_COLUMN_FLAG_AUTO_INCREMENT
  | TRILOGY_COLUMN_FLAG_TIMESTAMP
  | TRILOGY_COLUMN_FLAG_SET
  | TRILOGY_COLUMN_FLAG_NO_DEFAULT_VALUE
  | TRILOGY_COLUMN_FLAG_ON_UPDATE_NOW
  | TRILOGY_COLUMN_FLAG_IN_PART_FUNC

primrec column_flag :: "TRILOGY_COLUMN_FLAG_t \<Rightarrow> u32" where
  "column_flag TRILOGY_COLUMN_FLAG_NONE = 0x0"
| "column_flag TRILOGY_COLUMN_FLAG_NOT_NULL = 0x1"
| "column_flag TRILOGY_COLUMN_FLAG_PRI_KEY = 0x2"
| "column_flag TRILOGY_COLUMN_FLAG_UNIQUE_KEY = 0x4"
| "column_flag TRILOGY_COLUMN_FLAG_MULTIPLE_KEY = 0x8"
| "column_flag TRILOGY_COLUMN_FLAG_BLOB = 0x10"
| "column_flag TRILOGY_COLUMN_FLAG_UNSIGNED = 0x20"
| "column_flag TRILOGY_COLUMN_FLAG_ZEROFILL = 0x40"
| "column_flag TRILOGY_COLUMN_FLAG_BINARY = 0x80"
| "column_flag TRILOGY_COLUMN_FLAG_ENUM = 0x100"
| "column_flag TRILOGY_COLUMN_FLAG_AUTO_INCREMENT = 0x200"
| "column_flag TRILOGY_COLUMN_FLAG_TIMESTAMP = 0x400"
| "column_flag TRILOGY_COLUMN_FLAG_SET = 0x800"
| "column_flag TRILOGY_COLUMN_FLAG_NO_DEFAULT_VALUE = 0x1000"
| "column_flag TRILOGY_COLUMN_FLAG_ON_UPDATE_NOW = 0x2000"
| "column_flag TRILOGY_COLUMN_FLAG_IN_PART_FUNC = 0x80000"

datatype TRILOGY_SESSION_TRACK_TYPE_t =
    TRILOGY_SESSION_TRACK_SYSTEM_VARIABLES
  | TRILOGY_SESSION_TRACK_SCHEMA
  | TRILOGY_SESSION_TRACK_STATE_CHANGE
  | TRILOGY_SESSION_TRACK_GTIDS
  | TRILOGY_SESSION_TRACK_TRANSACTION_CHARACTERISTICS
  | TRILOGY_SESSION_TRACK_TRANSACTION_STATE

primrec session_track_code :: "TRILOGY_SESSION_TRACK_TYPE_t \<Rightarrow> u8" where
  "session_track_code TRILOGY_SESSION_TRACK_SYSTEM_VARIABLES = 0x00"
| "session_track_code TRILOGY_SESSION_TRACK_SCHEMA = 0x01"
| "session_track_code TRILOGY_SESSION_TRACK_STATE_CHANGE = 0x02"
| "session_track_code TRILOGY_SESSION_TRACK_GTIDS = 0x03"
| "session_track_code TRILOGY_SESSION_TRACK_TRANSACTION_CHARACTERISTICS = 0x04"
| "session_track_code TRILOGY_SESSION_TRACK_TRANSACTION_STATE = 0x05"

datatype TRILOGY_SET_SERVER_OPTION_TYPE_t =
    TRILOGY_SET_SERVER_MULTI_STATEMENTS_ON
  | TRILOGY_SET_SERVER_MULTI_STATEMENTS_OFF

primrec set_option_code :: "TRILOGY_SET_SERVER_OPTION_TYPE_t \<Rightarrow> u16" where
  "set_option_code TRILOGY_SET_SERVER_MULTI_STATEMENTS_ON = 0x00"
| "set_option_code TRILOGY_SET_SERVER_MULTI_STATEMENTS_OFF = 0x01"

definition all_types :: "TRILOGY_TYPE_t list" where
  "all_types = [
     TRILOGY_TYPE_DECIMAL,
     TRILOGY_TYPE_TINY,
     TRILOGY_TYPE_SHORT,
     TRILOGY_TYPE_LONG,
     TRILOGY_TYPE_FLOAT,
     TRILOGY_TYPE_DOUBLE,
     TRILOGY_TYPE_NULL,
     TRILOGY_TYPE_TIMESTAMP,
     TRILOGY_TYPE_LONGLONG,
     TRILOGY_TYPE_INT24,
     TRILOGY_TYPE_DATE,
     TRILOGY_TYPE_TIME,
     TRILOGY_TYPE_DATETIME,
     TRILOGY_TYPE_YEAR,
     TRILOGY_TYPE_VARCHAR,
     TRILOGY_TYPE_BIT,
     TRILOGY_TYPE_VECTOR,
     TRILOGY_TYPE_JSON,
     TRILOGY_TYPE_NEWDECIMAL,
     TRILOGY_TYPE_ENUM,
     TRILOGY_TYPE_SET,
     TRILOGY_TYPE_TINY_BLOB,
     TRILOGY_TYPE_MEDIUM_BLOB,
     TRILOGY_TYPE_LONG_BLOB,
     TRILOGY_TYPE_BLOB,
     TRILOGY_TYPE_VAR_STRING,
     TRILOGY_TYPE_STRING,
     TRILOGY_TYPE_GEOMETRY]"

definition has_capability :: "u32 \<Rightarrow> TRILOGY_CAPABILITIES_t \<Rightarrow> bool" where
  "has_capability caps c \<longleftrightarrow> caps AND capability c \<noteq> 0"

definition TRILOGY_CAPABILITIES_CLIENT :: u32 where
  "TRILOGY_CAPABILITIES_CLIENT =
     capability TRILOGY_CAPABILITIES_PROTOCOL_41 OR capability TRILOGY_CAPABILITIES_SECURE_CONNECTION OR
     capability TRILOGY_CAPABILITIES_DEPRECATE_EOF OR capability TRILOGY_CAPABILITIES_SESSION_TRACK OR
     capability TRILOGY_CAPABILITIES_PLUGIN_AUTH OR capability TRILOGY_CAPABILITIES_TRANSACTIONS"

text \<open>
  The enumerator of a type code, for the \<^verbatim>\<open>switch\<close> statements: a code without one takes the
  \<^verbatim>\<open>default\<close> branch.
\<close>

definition type_of_code :: "u8 \<Rightarrow> TRILOGY_TYPE_t option" where
  "type_of_code c = find (\<lambda>t. type_code t = c) all_types"

datatype TRILOGY_PACKET_TYPE_t =
    TRILOGY_PACKET_OK
  | TRILOGY_PACKET_AUTH_MORE_DATA
  | TRILOGY_PACKET_EOF
  | TRILOGY_PACKET_ERR
  | TRILOGY_PACKET_UNKNOWN

primrec packet_type_code :: "TRILOGY_PACKET_TYPE_t \<Rightarrow> nat" where
  "packet_type_code TRILOGY_PACKET_OK = 0x0"
| "packet_type_code TRILOGY_PACKET_AUTH_MORE_DATA = 0x01"
| "packet_type_code TRILOGY_PACKET_EOF = 0xfe"
| "packet_type_code TRILOGY_PACKET_ERR = 0xff"
| "packet_type_code TRILOGY_PACKET_UNKNOWN = 0x100"

datatype TRILOGY_STMT_FLAGS_t =
    TRILOGY_CURSOR_TYPE_NO_CURSOR
  | TRILOGY_CURSOR_TYPE_READ_ONLY
  | TRILOGY_CURSOR_TYPE_FOR_UPDATE
  | TRILOGY_CURSOR_TYPE_SCROLLABLE
  | TRILOGY_CURSOR_TYPE_UNKNOWN

primrec stmt_flag :: "TRILOGY_STMT_FLAGS_t \<Rightarrow> u8" where
  "stmt_flag TRILOGY_CURSOR_TYPE_NO_CURSOR = 0x00"
| "stmt_flag TRILOGY_CURSOR_TYPE_READ_ONLY = 0x01"
| "stmt_flag TRILOGY_CURSOR_TYPE_FOR_UPDATE = 0x02"
| "stmt_flag TRILOGY_CURSOR_TYPE_SCROLLABLE = 0x04"
| "stmt_flag TRILOGY_CURSOR_TYPE_UNKNOWN = 0x05"

definition TRILOGY_MAX_LAST_GTID_LEN :: nat where
  "TRILOGY_MAX_LAST_GTID_LEN = 57"

definition SCRAMBLE_LEN :: nat where
  "SCRAMBLE_LEN = 20"

section \<open>Packets\<close>

text \<open>\<^verbatim>\<open>char server_version[32]\<close>, \<^verbatim>\<open>char scramble[21]\<close> and \<^verbatim>\<open>char auth_plugin[32]\<close> are arrays.\<close>

record trilogy_handshake =
  hs_proto_version :: u8
  hs_server_version :: "u8 list"
  hs_conn_id :: u32
  hs_scramble :: "u8 list"
  hs_capabilities :: u32
  hs_server_charset :: u8
  hs_server_status :: u16
  hs_auth_plugin :: "u8 list"

record trilogy_ok_packet =
  ok_affected_rows :: u64
  ok_last_insert_id :: u64
  ok_status_flags :: u16
  ok_warning_count :: u16
  ok_txn_status_flags :: u16
  ok_session_status :: "u8 list option"
  ok_session_state_changes :: "u8 list option"
  ok_info :: "u8 list option"
  ok_last_gtid :: "u8 list"

record trilogy_stmt_ok_packet =
  stmt_ok_id :: u32
  stmt_ok_column_count :: u16
  stmt_ok_parameter_count :: u16
  stmt_ok_warning_count :: u16

record trilogy_eof_packet =
  eof_warning_count :: u16
  eof_status_flags :: u16

record trilogy_err_packet =
  err_error_code :: u16
  err_sql_state_marker :: u8
  err_sql_state :: "u8 list"
  err_error_message :: "u8 list"

record trilogy_auth_switch_request_packet =
  switch_auth_plugin :: "u8 list"
  switch_scramble :: "u8 list"

record trilogy_column_packet =
  col_catalog :: "u8 list"
  col_schema :: "u8 list"
  col_table :: "u8 list"
  col_original_table :: "u8 list"
  col_name :: "u8 list"
  col_original_name :: "u8 list"
  col_charset :: u16
  col_len :: u32
  col_type :: u8
  col_flags :: u16
  col_decimals :: u8
  col_default_value :: "u8 list"

record trilogy_result_packet =
  res_column_count :: u64

section \<open>Values\<close>

text \<open>\<^verbatim>\<open>data\<close> keeps what it was when the value is null.\<close>

record trilogy_value =
  val_is_null :: bool
  val_data :: "u8 list"
  val_data_len :: size_t

record trilogy_datetime =
  dt_hour :: u8
  dt_minute :: u8
  dt_second :: u8
  dt_micro_seconds :: u32

record trilogy_date =
  date_year :: u16
  date_month :: u8
  date_day :: u8
  date_datetime :: trilogy_datetime

record trilogy_time =
  time_is_negative :: bool
  time_days :: u32
  time_hour :: u8
  time_minute :: u8
  time_second :: u8
  time_micro_seconds :: u32

text \<open>
  The union \<^verbatim>\<open>as\<close>: the member written last. To read another member is to reinterpret the bytes
  of this one, which the model does not do: it counts as a fault.
\<close>

datatype trilogy_as =
    As_none
  | As_dbl u64
  | As_uint64 u64
  | As_flt u32
  | As_uint32 u32
  | As_uint16 u16
  | As_uint8 u8
  | As_str "u8 list"
  | As_year u16
  | As_date trilogy_date
  | As_time trilogy_time

record trilogy_binary_value =
  bv_is_null :: bool
  bv_is_unsigned :: bool
  bv_type :: u8
  bv_as :: trilogy_as

section \<open>Lemmas\<close>

lemma type_of_code_code [simp]: "type_of_code (type_code t) = Some t"
  by (cases t) (simp_all add: type_of_code_def all_types_def)

lemma type_of_code_Some: "type_of_code c = Some t \<Longrightarrow> type_code t = c"
  by (auto simp: type_of_code_def find_Some_iff)

lemma type_code_inject: "type_code s = type_code t \<longleftrightarrow> s = t"
  by (metis option.inject type_of_code_code)

lemma client_capabilities:
  "has_capability TRILOGY_CAPABILITIES_CLIENT TRILOGY_CAPABILITIES_PROTOCOL_41"
  "has_capability TRILOGY_CAPABILITIES_CLIENT TRILOGY_CAPABILITIES_SECURE_CONNECTION"
  "has_capability TRILOGY_CAPABILITIES_CLIENT TRILOGY_CAPABILITIES_DEPRECATE_EOF"
  "has_capability TRILOGY_CAPABILITIES_CLIENT TRILOGY_CAPABILITIES_SESSION_TRACK"
  "has_capability TRILOGY_CAPABILITIES_CLIENT TRILOGY_CAPABILITIES_PLUGIN_AUTH"
  "has_capability TRILOGY_CAPABILITIES_CLIENT TRILOGY_CAPABILITIES_TRANSACTIONS"
  by (simp_all add: has_capability_def TRILOGY_CAPABILITIES_CLIENT_def)

lemma has_capability_or: "has_capability (a OR b) c \<longleftrightarrow> has_capability a c \<or> has_capability b c"
  by (auto simp: has_capability_def bit.conj_disj_distrib2 or_eq_0_iff)

end
