(* ===== verification/Protocol_Build.thy ===== *)
theory Protocol_Build
  imports Builder Protocol_Types
begin

text \<open>
  The builders of \<^verbatim>\<open>src/protocol.c\<close>: the packets the client sends. A C string is an object with
  a NUL in it; a pointer with a length is an object and the length, except for a password that
  is hashed, which is the list of its bytes. The digests
  \<^verbatim>\<open>EVP_sha1\<close> and \<^verbatim>\<open>EVP_sha256\<close> of OpenSSL are parameters: functions from the bytes that were
  fed to the digest to its value.
\<close>

section \<open>Commands and strings\<close>

definition TRILOGY_CMD_QUIT :: u8 where "TRILOGY_CMD_QUIT = 0x01"
definition TRILOGY_CMD_CHANGE_DB :: u8 where "TRILOGY_CMD_CHANGE_DB = 0x02"
definition TRILOGY_CMD_QUERY :: u8 where "TRILOGY_CMD_QUERY = 0x03"
definition TRILOGY_CMD_PING :: u8 where "TRILOGY_CMD_PING = 0x0e"
definition TRILOGY_CMD_SET_OPTION :: u8 where "TRILOGY_CMD_SET_OPTION = 0x1b"
definition TRILOGY_CMD_STMT_PREPARE :: u8 where "TRILOGY_CMD_STMT_PREPARE = 0x16"
definition TRILOGY_CMD_STMT_EXECUTE :: u8 where "TRILOGY_CMD_STMT_EXECUTE = 0x17"
definition TRILOGY_CMD_STMT_SEND_LONG_DATA :: u8 where "TRILOGY_CMD_STMT_SEND_LONG_DATA = 0x18"
definition TRILOGY_CMD_STMT_CLOSE :: u8 where "TRILOGY_CMD_STMT_CLOSE = 0x19"
definition TRILOGY_CMD_STMT_RESET :: u8 where "TRILOGY_CMD_STMT_RESET = 0x1a"

text \<open>A string literal, with its NUL.\<close>

definition literal :: "string \<Rightarrow> u8 list" where
  "literal s = map (\<lambda>c. word_of_nat (of_char c)) s @ [0]"

text \<open>\<^verbatim>\<open>!strcmp(a, b)\<close>; \<open>None\<close> when it reads past the end of an object.\<close>

fun strcmp_equal :: "u8 list \<Rightarrow> u8 list \<Rightarrow> bool option" where
  "strcmp_equal (a # as) (b # bs) =
     (if a \<noteq> b then Some False else if a = 0 then Some True else strcmp_equal as bs)"
| "strcmp_equal _ _ = None"

text \<open>Branch on \<^verbatim>\<open>!strcmp(s, plugin)\<close>.\<close>

definition if_plugin :: "string \<Rightarrow> u8 list \<Rightarrow> ('s, 'a) op \<Rightarrow> ('s, 'a) op \<Rightarrow> ('s, 'a) op" where
  "if_plugin s plugin m m' =
     (case strcmp_equal (literal s) plugin of
        None \<Rightarrow> halt Fault | Some True \<Rightarrow> m | Some False \<Rightarrow> m')"

section \<open>Authentication\<close>

text \<open>
  The two responses. \<open>password\<close> and \<open>scramble\<close> are the bytes the digest is fed with, the last
  loop runs over the bytes of the digest.
\<close>

definition trilogy_pack_scramble_native_hash ::
  "(u8 list \<Rightarrow> u8 list) \<Rightarrow> u8 list \<Rightarrow> u8 list \<Rightarrow> u8 list" where
  "trilogy_pack_scramble_native_hash sha1 scramble password =
     (let hash_tmp1 = sha1 password;
          hash_tmp2 = sha1 hash_tmp1;
          buffer = sha1 (take SCRAMBLE_LEN scramble @ hash_tmp2)
      in map (\<lambda>x. buffer ! x XOR hash_tmp1 ! x) [0..<length buffer])"

definition trilogy_pack_scramble_sha2_hash ::
  "(u8 list \<Rightarrow> u8 list) \<Rightarrow> u8 list \<Rightarrow> u8 list \<Rightarrow> u8 list" where
  "trilogy_pack_scramble_sha2_hash sha256 scramble password =
     (let hash_tmp1 = sha256 password;
          hash_tmp2 = sha256 hash_tmp1;
          buffer = sha256 (hash_tmp2 @ take SCRAMBLE_LEN scramble)
      in map (\<lambda>x. hash_tmp1 ! x XOR buffer ! x) [0..<length buffer])"

definition zeroes :: "u8 list" where
  "zeroes = replicate 23 0"

text \<open>\<^verbatim>\<open>trilogy_builder_finalize\<close> at the end of each builder.\<close>

abbreviation finalized :: "(trilogy_builder, unit) op \<Rightarrow> (trilogy_builder, unit) op" where
  "finalized m \<equiv> checked m (\<lambda>_. trilogy_builder_finalize)"

definition auth_response ::
  "(u8 list \<Rightarrow> u8 list) \<Rightarrow> (u8 list \<Rightarrow> u8 list) \<Rightarrow> u8 list \<Rightarrow> u8 list \<Rightarrow> u8 list \<Rightarrow>
   ('s, u8 list \<times> u8 list) op" where
  "auth_response sha1 sha256 pass auth_plugin scramble =
     (if length pass > 0 then
        if_plugin ''caching_sha2_password'' auth_plugin
          (ret (trilogy_pack_scramble_sha2_hash sha256 scramble pass, auth_plugin))
          (ret (trilogy_pack_scramble_native_hash sha1 scramble pass, literal ''mysql_native_password''))
      else ret ([], auth_plugin))"

definition trilogy_build_auth_packet ::
  "(u8 list \<Rightarrow> u8 list) \<Rightarrow> (u8 list \<Rightarrow> u8 list) \<Rightarrow> allocator \<Rightarrow> u8 list option \<Rightarrow> u8 list \<Rightarrow>
   u8 list option \<Rightarrow> int \<Rightarrow> u8 list \<Rightarrow> u8 list \<Rightarrow> u32 \<Rightarrow> (trilogy_builder, unit) op" where
  "trilogy_build_auth_packet sha1 sha256 alloc user pass database client_encoding auth_plugin scramble flags =
     (let capabilities = flags OR TRILOGY_CAPABILITIES_CLIENT OR
            (if database \<noteq> None then capability TRILOGY_CAPABILITIES_CONNECT_WITH_DB else 0)
      in finalized
       (checked (trilogy_builder_write_uint32 alloc capabilities) (\<lambda>_.
        checked (trilogy_builder_write_uint32 alloc (word_of_nat TRILOGY_MAX_PACKET_LEN)) (\<lambda>_.
        checked (trilogy_builder_write_uint8 alloc (word_of_int client_encoding)) (\<lambda>_.
        checked (trilogy_builder_write_buffer alloc zeroes 23) (\<lambda>_.
        checked (trilogy_builder_write_string alloc (case user of Some u \<Rightarrow> u | None \<Rightarrow> literal ''root'')) (\<lambda>_.
        checked (auth_response sha1 sha256 pass auth_plugin scramble) (\<lambda>(response, auth_plugin).
        checked (trilogy_builder_write_uint8 alloc (word_of_nat (length response))) (\<lambda>_.
        checked (if length response > 0
                 then trilogy_builder_write_buffer alloc response (word_of_nat (length response))
                 else ret ()) (\<lambda>_.
        checked (case database of Some d \<Rightarrow> trilogy_builder_write_string alloc d | None \<Rightarrow> ret ()) (\<lambda>_.
        if has_capability capabilities TRILOGY_CAPABILITIES_PLUGIN_AUTH
        then trilogy_builder_write_string alloc auth_plugin else ret ())))))))))))"

definition trilogy_build_auth_clear_password ::
  "allocator \<Rightarrow> u8 list \<Rightarrow> size_t \<Rightarrow> (trilogy_builder, unit) op" where
  "trilogy_build_auth_clear_password alloc pass pass_len = finalized
     (checked (trilogy_builder_write_buffer alloc pass pass_len) (\<lambda>_.
      trilogy_builder_write_uint8 alloc 0))"

definition trilogy_build_auth_switch_response_packet ::
  "(u8 list \<Rightarrow> u8 list) \<Rightarrow> (u8 list \<Rightarrow> u8 list) \<Rightarrow> allocator \<Rightarrow> u8 list \<Rightarrow> u8 list \<Rightarrow> u8 list \<Rightarrow> bool \<Rightarrow>
   (trilogy_builder, unit) op" where
  "trilogy_build_auth_switch_response_packet sha1 sha256 alloc pass auth_plugin scramble enable_cleartext_plugin =
     finalized
       (if length pass > 0 then
          if_plugin ''mysql_clear_password'' auth_plugin
            (if enable_cleartext_plugin
             then trilogy_builder_write_buffer alloc pass (word_of_nat (length pass))
             else throw TRILOGY_AUTH_PLUGIN_ERROR)
            (if_plugin ''caching_sha2_password'' auth_plugin
              (let response = trilogy_pack_scramble_sha2_hash sha256 scramble pass
               in trilogy_builder_write_buffer alloc response (word_of_nat (length response)))
              (if_plugin ''mysql_native_password'' auth_plugin
                (let response = trilogy_pack_scramble_native_hash sha1 scramble pass
                 in trilogy_builder_write_buffer alloc response (word_of_nat (length response)))
                (throw TRILOGY_AUTH_PLUGIN_ERROR)))
        else ret ())"

definition trilogy_build_ssl_request_packet ::
  "allocator \<Rightarrow> u32 \<Rightarrow> int \<Rightarrow> (trilogy_builder, unit) op" where
  "trilogy_build_ssl_request_packet alloc flags client_encoding = finalized
     (checked (trilogy_builder_write_uint32 alloc
                (flags OR TRILOGY_CAPABILITIES_CLIENT OR capability TRILOGY_CAPABILITIES_SSL)) (\<lambda>_.
      checked (trilogy_builder_write_uint32 alloc (word_of_nat TRILOGY_MAX_PACKET_LEN)) (\<lambda>_.
      checked (trilogy_builder_write_uint8 alloc (word_of_int client_encoding)) (\<lambda>_.
      trilogy_builder_write_buffer alloc zeroes 23))))"

section \<open>Commands\<close>

definition trilogy_build_ping_packet :: "allocator \<Rightarrow> (trilogy_builder, unit) op" where
  "trilogy_build_ping_packet alloc =
     finalized (trilogy_builder_write_uint8 alloc TRILOGY_CMD_PING)"

definition trilogy_build_query_packet ::
  "allocator \<Rightarrow> u8 list \<Rightarrow> size_t \<Rightarrow> (trilogy_builder, unit) op" where
  "trilogy_build_query_packet alloc sql sql_len = finalized
     (checked (trilogy_builder_write_uint8 alloc TRILOGY_CMD_QUERY) (\<lambda>_.
      trilogy_builder_write_buffer alloc sql sql_len))"

definition trilogy_build_change_db_packet ::
  "allocator \<Rightarrow> u8 list \<Rightarrow> size_t \<Rightarrow> (trilogy_builder, unit) op" where
  "trilogy_build_change_db_packet alloc name name_len = finalized
     (checked (trilogy_builder_write_uint8 alloc TRILOGY_CMD_CHANGE_DB) (\<lambda>_.
      trilogy_builder_write_buffer alloc name name_len))"

definition trilogy_build_quit_packet :: "allocator \<Rightarrow> (trilogy_builder, unit) op" where
  "trilogy_build_quit_packet alloc =
     finalized (trilogy_builder_write_uint8 alloc TRILOGY_CMD_QUIT)"

definition trilogy_build_set_option_packet :: "allocator \<Rightarrow> u16 \<Rightarrow> (trilogy_builder, unit) op" where
  "trilogy_build_set_option_packet alloc option = finalized
     (checked (trilogy_builder_write_uint8 alloc TRILOGY_CMD_SET_OPTION) (\<lambda>_.
      trilogy_builder_write_uint16 alloc option))"

definition trilogy_build_stmt_prepare_packet ::
  "allocator \<Rightarrow> u8 list \<Rightarrow> size_t \<Rightarrow> (trilogy_builder, unit) op" where
  "trilogy_build_stmt_prepare_packet alloc sql sql_len = finalized
     (checked (trilogy_builder_write_uint8 alloc TRILOGY_CMD_STMT_PREPARE) (\<lambda>_.
      trilogy_builder_write_buffer alloc sql sql_len))"

definition trilogy_build_stmt_bind_data_packet ::
  "allocator \<Rightarrow> u32 \<Rightarrow> u16 \<Rightarrow> u8 list \<Rightarrow> size_t \<Rightarrow> (trilogy_builder, unit) op" where
  "trilogy_build_stmt_bind_data_packet alloc stmt_id param_id data data_len = finalized
     (checked (trilogy_builder_write_uint8 alloc TRILOGY_CMD_STMT_SEND_LONG_DATA) (\<lambda>_.
      checked (trilogy_builder_write_uint32 alloc stmt_id) (\<lambda>_.
      checked (trilogy_builder_write_uint16 alloc param_id) (\<lambda>_.
      trilogy_builder_write_buffer alloc data data_len))))"

definition trilogy_build_stmt_reset_packet :: "allocator \<Rightarrow> u32 \<Rightarrow> (trilogy_builder, unit) op" where
  "trilogy_build_stmt_reset_packet alloc stmt_id = finalized
     (checked (trilogy_builder_write_uint8 alloc TRILOGY_CMD_STMT_RESET) (\<lambda>_.
      trilogy_builder_write_uint32 alloc stmt_id))"

definition trilogy_build_stmt_close_packet :: "allocator \<Rightarrow> u32 \<Rightarrow> (trilogy_builder, unit) op" where
  "trilogy_build_stmt_close_packet alloc stmt_id = finalized
     (checked (trilogy_builder_write_uint8 alloc TRILOGY_CMD_STMT_CLOSE) (\<lambda>_.
      trilogy_builder_write_uint32 alloc stmt_id))"

section \<open>Executing a statement\<close>

text \<open>
  The bitmap of the null values: the loop is at index \<open>i\<close>, with \<open>n\<close> binds to go, and collects
  the bits of the current byte.
\<close>

primrec null_bitmap_loop ::
  "nat \<Rightarrow> allocator \<Rightarrow> trilogy_binary_value list \<Rightarrow> nat \<Rightarrow> u8 \<Rightarrow> (trilogy_builder, u8) op" where
  "null_bitmap_loop 0 alloc binds i current_bits = ret current_bits"
| "null_bitmap_loop (Suc n) alloc binds i current_bits =
     (if \<not> i < length binds then halt Fault
      else
        let current_bits = (if bv_is_null (binds ! i) then current_bits OR push_bit (i mod 8) 1
                            else current_bits)
        in if i mod 8 = 7
           then checked (trilogy_builder_write_uint8 alloc current_bits) (\<lambda>_.
                null_bitmap_loop n alloc binds (i + 1) 0)
           else null_bitmap_loop n alloc binds (i + 1) current_bits)"

primrec bind_types_loop ::
  "nat \<Rightarrow> allocator \<Rightarrow> trilogy_binary_value list \<Rightarrow> nat \<Rightarrow> (trilogy_builder, unit) op" where
  "bind_types_loop 0 alloc binds i = ret ()"
| "bind_types_loop (Suc n) alloc binds i =
     (if \<not> i < length binds then halt Fault
      else
        checked (trilogy_builder_write_uint8 alloc (bv_type (binds ! i))) (\<lambda>_.
        checked (if bv_is_unsigned (binds ! i) then trilogy_builder_write_uint8 alloc 0x80
                 else trilogy_builder_write_uint8 alloc 0x00) (\<lambda>_.
        bind_types_loop n alloc binds (i + 1))))"

definition write_time :: "allocator \<Rightarrow> trilogy_time \<Rightarrow> (trilogy_builder, unit) op" where
  "write_time alloc t =
     (let field_len = (if time_micro_seconds t \<noteq> 0 then 12
                       else if time_hour t \<noteq> 0 \<or> time_minute t \<noteq> 0 \<or> time_second t \<noteq> 0 then 8
                       else 0) :: u8
      in checked (trilogy_builder_write_uint8 alloc field_len) (\<lambda>_.
         if field_len > 0 then
           checked (trilogy_builder_write_uint8 alloc (if time_is_negative t then 1 else 0)) (\<lambda>_.
           checked (trilogy_builder_write_uint32 alloc (time_days t)) (\<lambda>_.
           checked (trilogy_builder_write_uint8 alloc (time_hour t)) (\<lambda>_.
           checked (trilogy_builder_write_uint8 alloc (time_minute t)) (\<lambda>_.
           checked (trilogy_builder_write_uint8 alloc (time_second t)) (\<lambda>_.
           if field_len > 8 then trilogy_builder_write_uint32 alloc (time_micro_seconds t)
           else ret ())))))
         else ret ()))"

definition write_date :: "allocator \<Rightarrow> trilogy_date \<Rightarrow> (trilogy_builder, unit) op" where
  "write_date alloc d =
     (let dt = date_datetime d;
          field_len = (if dt_micro_seconds dt \<noteq> 0 then 11
                       else if dt_hour dt \<noteq> 0 \<or> dt_minute dt \<noteq> 0 \<or> dt_second dt \<noteq> 0 then 7
                       else if date_year d \<noteq> 0 \<or> date_month d \<noteq> 0 \<or> date_day d \<noteq> 0 then 4
                       else 0) :: u8
      in checked (trilogy_builder_write_uint8 alloc field_len) (\<lambda>_.
         if field_len > 0 then
           checked (trilogy_builder_write_uint16 alloc (date_year d)) (\<lambda>_.
           checked (trilogy_builder_write_uint8 alloc (date_month d)) (\<lambda>_.
           checked (trilogy_builder_write_uint8 alloc (date_day d)) (\<lambda>_.
           if field_len > 4 then
             checked (trilogy_builder_write_uint8 alloc (dt_hour dt)) (\<lambda>_.
             checked (trilogy_builder_write_uint8 alloc (dt_minute dt)) (\<lambda>_.
             checked (trilogy_builder_write_uint8 alloc (dt_second dt)) (\<lambda>_.
             if field_len > 7 then trilogy_builder_write_uint32 alloc (dt_micro_seconds dt)
             else ret ())))
           else ret ())))
         else ret ()))"

text \<open>\<^verbatim>\<open>switch (val.type)\<close>; another member of the union than the type names is a fault.\<close>

definition write_value :: "allocator \<Rightarrow> trilogy_binary_value \<Rightarrow> (trilogy_builder, unit) op" where
  "write_value alloc val =
     (case type_of_code (bv_type val) of
        None \<Rightarrow> throw TRILOGY_UNKNOWN_TYPE
      | Some t \<Rightarrow>
          if t = TRILOGY_TYPE_TINY then
            (case bv_as val of As_uint8 v \<Rightarrow> trilogy_builder_write_uint8 alloc v | _ \<Rightarrow> halt Fault)
          else if t = TRILOGY_TYPE_SHORT then
            (case bv_as val of As_uint16 v \<Rightarrow> trilogy_builder_write_uint16 alloc v | _ \<Rightarrow> halt Fault)
          else if t = TRILOGY_TYPE_INT24 \<or> t = TRILOGY_TYPE_LONG then
            (case bv_as val of As_uint32 v \<Rightarrow> trilogy_builder_write_uint32 alloc v | _ \<Rightarrow> halt Fault)
          else if t = TRILOGY_TYPE_LONGLONG then
            (case bv_as val of As_uint64 v \<Rightarrow> trilogy_builder_write_uint64 alloc v | _ \<Rightarrow> halt Fault)
          else if t = TRILOGY_TYPE_FLOAT then
            (case bv_as val of As_flt v \<Rightarrow> trilogy_builder_write_float alloc v | _ \<Rightarrow> halt Fault)
          else if t = TRILOGY_TYPE_DOUBLE then
            (case bv_as val of As_dbl v \<Rightarrow> trilogy_builder_write_double alloc v | _ \<Rightarrow> halt Fault)
          else if t = TRILOGY_TYPE_YEAR then
            (case bv_as val of As_year v \<Rightarrow> trilogy_builder_write_uint16 alloc v | _ \<Rightarrow> halt Fault)
          else if t = TRILOGY_TYPE_TIME then
            (case bv_as val of As_time v \<Rightarrow> write_time alloc v | _ \<Rightarrow> halt Fault)
          else if t \<in> set [TRILOGY_TYPE_DATE, TRILOGY_TYPE_DATETIME, TRILOGY_TYPE_TIMESTAMP] then
            (case bv_as val of As_date v \<Rightarrow> write_date alloc v | _ \<Rightarrow> halt Fault)
          else if t \<in> set [TRILOGY_TYPE_DECIMAL, TRILOGY_TYPE_VARCHAR, TRILOGY_TYPE_BIT,
                 TRILOGY_TYPE_NEWDECIMAL, TRILOGY_TYPE_ENUM, TRILOGY_TYPE_SET,
                 TRILOGY_TYPE_TINY_BLOB, TRILOGY_TYPE_BLOB, TRILOGY_TYPE_MEDIUM_BLOB,
                 TRILOGY_TYPE_LONG_BLOB, TRILOGY_TYPE_VAR_STRING, TRILOGY_TYPE_STRING,
                 TRILOGY_TYPE_GEOMETRY, TRILOGY_TYPE_JSON, TRILOGY_TYPE_VECTOR] then
            (case bv_as val of
               As_str v \<Rightarrow> trilogy_builder_write_lenenc_buffer alloc v (word_of_nat (length v))
             | _ \<Rightarrow> halt Fault)
          else if t = TRILOGY_TYPE_NULL then ret ()
          else throw TRILOGY_UNKNOWN_TYPE)"

primrec bind_values_loop ::
  "nat \<Rightarrow> allocator \<Rightarrow> trilogy_binary_value list \<Rightarrow> nat \<Rightarrow> (trilogy_builder, unit) op" where
  "bind_values_loop 0 alloc binds i = ret ()"
| "bind_values_loop (Suc n) alloc binds i =
     (if \<not> i < length binds then halt Fault
      else checked (write_value alloc (binds ! i)) (\<lambda>_. bind_values_loop n alloc binds (i + 1)))"

definition trilogy_build_stmt_execute_packet ::
  "allocator \<Rightarrow> u32 \<Rightarrow> u8 \<Rightarrow> trilogy_binary_value list option \<Rightarrow> u16 \<Rightarrow> (trilogy_builder, unit) op" where
  "trilogy_build_stmt_execute_packet alloc stmt_id flags binds num_binds = finalized
     (checked (trilogy_builder_write_uint8 alloc TRILOGY_CMD_STMT_EXECUTE) (\<lambda>_.
      checked (trilogy_builder_write_uint32 alloc stmt_id) (\<lambda>_.
      checked (trilogy_builder_write_uint8 alloc flags) (\<lambda>_.
      checked (trilogy_builder_write_uint32 alloc 1) (\<lambda>_.
      if num_binds > 0 then
        (case binds of
           None \<Rightarrow> throw TRILOGY_PROTOCOL_VIOLATION
         | Some binds \<Rightarrow>
             checked (null_bitmap_loop (unat num_binds) alloc binds 0 0) (\<lambda>current_bits.
             checked (if num_binds mod 8 \<noteq> 0 then trilogy_builder_write_uint8 alloc current_bits
                      else ret ()) (\<lambda>_.
             checked (trilogy_builder_write_uint8 alloc 0x1) (\<lambda>_.
             checked (bind_types_loop (unat num_binds) alloc binds 0) (\<lambda>_.
             bind_values_loop (unat num_binds) alloc binds 0)))))
      else ret ())))))"

section \<open>What is built\<close>

text \<open>
  \<open>builds alloc m payload\<close>: on a builder that was begun at any sequence number, with any limit,
  \<open>m\<close> leaves the frames of the payload in the buffer, and its sequence number is the one after
  them; or it fails as \<open>build_fails\<close> allows.
\<close>

definition builds :: "allocator \<Rightarrow> (trilogy_builder, unit) op \<Rightarrow> u8 list \<Rightarrow> bool" where
  "builds alloc m payload \<longleftrightarrow>
     (\<forall>s lim. lim \<noteq> 0 \<longrightarrow>
        holds (building s lim []) m
          (\<lambda>_ b. buffer_ok (bld_buffer b) \<and> contents (bld_buffer b) = frames s payload
             \<and> bld_seq b = s + word_of_nat (length payload div TRILOGY_MAX_PACKET_LEN) + 1)
          (build_fails alloc lim (length payload)))"

lemma builds_finalized:
  assumes "writes alloc m p"
  shows "builds alloc (finalized m) p"
  unfolding builds_def
proof (intro allI impI)
  fix s lim assume lim: "(lim :: size_t) \<noteq> 0"
  show "holds (building s lim []) (finalized m)
      (\<lambda>_ b. buffer_ok (bld_buffer b) \<and> contents (bld_buffer b) = frames s p
        \<and> bld_seq b = s + word_of_nat (length p div TRILOGY_MAX_PACKET_LEN) + 1)
      (build_fails alloc lim (length p))"
  proof (rule holds_checked)
    show "holds (building s lim []) m (\<lambda>_. building s lim p) (build_fails alloc lim (length p))"
      using writesD [OF assms lim, of s "[]"] by simp
    show "holds (building s lim p) trilogy_builder_finalize
        (\<lambda>_ b. buffer_ok (bld_buffer b) \<and> contents (bld_buffer b) = frames s p
        \<and> bld_seq b = s + word_of_nat (length p div TRILOGY_MAX_PACKET_LEN) + 1)
        (build_fails alloc lim (length p))"
      by (rule holds_weaken [OF finalize_frames]) auto
  qed
qed

text \<open>The same from the beginning of the builder on.\<close>

lemma built_frames:
  assumes "builds alloc m payload" and "buffer_ok buff"
    and "checked (trilogy_builder_init alloc buff s) (\<lambda>_. m) b = (Inr (), b')"
  shows "buffer_ok (bld_buffer b')" and "contents (bld_buffer b') = frames s payload"
    and "bld_seq b' = s + word_of_nat (length payload div TRILOGY_MAX_PACKET_LEN) + 1"
proof -
  obtain b1 where init: "trilogy_builder_init alloc buff s b = (Inr (), b1)" and m: "m b1 = (Inr (), b')"
    using assms(3) by (auto simp: checked_eq_Inr)
  have "building s SIZE_MAX [] b1"
    using holds_Inr [OF builder_init_building [OF assms(2)] TrueI init] .
  moreover have "holds (building s SIZE_MAX []) m
      (\<lambda>_ b. buffer_ok (bld_buffer b) \<and> contents (bld_buffer b) = frames s payload
             \<and> bld_seq b = s + word_of_nat (length payload div TRILOGY_MAX_PACKET_LEN) + 1)
      (build_fails alloc SIZE_MAX (length payload))"
    using assms(1) by (simp add: builds_def)
  ultimately show "buffer_ok (bld_buffer b')" and "contents (bld_buffer b') = frames s payload"
    and "bld_seq b' = s + word_of_nat (length payload div TRILOGY_MAX_PACKET_LEN) + 1"
    using m by (auto dest: holds_Inr)
qed

lemma writes_cong: "writes alloc m bs \<Longrightarrow> bs = cs \<Longrightarrow> writes alloc m cs"
  by simp

lemma builds_cong: "builds alloc m bs \<Longrightarrow> bs = cs \<Longrightarrow> builds alloc m cs"
  by simp

lemma writes_option:
  "(x = None \<Longrightarrow> writes alloc m bs) \<Longrightarrow> (\<And>y. x = Some y \<Longrightarrow> writes alloc (k y) bs) \<Longrightarrow>
   writes alloc (case x of None \<Rightarrow> m | Some y \<Rightarrow> k y) bs"
  by (cases x) simp_all

lemma writes_all:
  "length data < object_limit \<Longrightarrow>
   writes alloc (trilogy_builder_write_buffer alloc data (word_of_nat (length data))) data"
proof -
  assume len: "length data < object_limit"
  then have "unat (word_of_nat (length data) :: size_t) = length data"
    by (intro unat_word_of_nat_size_t) (simp add: object_limit_def)
  then show ?thesis using writes_buffer [of "word_of_nat (length data)" data alloc] len by simp
qed

lemma ping_builds: "builds alloc (trilogy_build_ping_packet alloc) [0x0e]"
  unfolding trilogy_build_ping_packet_def
  by (rule builds_finalized, rule writes_cong, rule writes_intros) (simp add: TRILOGY_CMD_PING_def)

lemma quit_builds: "builds alloc (trilogy_build_quit_packet alloc) [0x01]"
  unfolding trilogy_build_quit_packet_def
  by (rule builds_finalized, rule writes_cong, rule writes_intros) (simp add: TRILOGY_CMD_QUIT_def)

lemma query_builds:
  assumes "unat len \<le> length sql" and "unat len < object_limit"
  shows "builds alloc (trilogy_build_query_packet alloc sql len) (0x03 # take (unat len) sql)"
  unfolding trilogy_build_query_packet_def
  by (rule builds_finalized, rule writes_cong, (rule writes_intros)+)
    (use assms in \<open>simp_all add: TRILOGY_CMD_QUERY_def\<close>)

lemma change_db_builds:
  assumes "unat len \<le> length name" and "unat len < object_limit"
  shows "builds alloc (trilogy_build_change_db_packet alloc name len) (0x02 # take (unat len) name)"
  unfolding trilogy_build_change_db_packet_def
  by (rule builds_finalized, rule writes_cong, (rule writes_intros)+)
    (use assms in \<open>simp_all add: TRILOGY_CMD_CHANGE_DB_def\<close>)

lemma set_option_builds:
  "builds alloc (trilogy_build_set_option_packet alloc option) (0x1b # le_bytes 2 option)"
  unfolding trilogy_build_set_option_packet_def
  by (rule builds_finalized, rule writes_cong, (rule writes_intros)+)
    (simp_all add: TRILOGY_CMD_SET_OPTION_def)

lemma stmt_prepare_builds:
  assumes "unat len \<le> length sql" and "unat len < object_limit"
  shows "builds alloc (trilogy_build_stmt_prepare_packet alloc sql len) (0x16 # take (unat len) sql)"
  unfolding trilogy_build_stmt_prepare_packet_def
  by (rule builds_finalized, rule writes_cong, (rule writes_intros)+)
    (use assms in \<open>simp_all add: TRILOGY_CMD_STMT_PREPARE_def\<close>)

lemma bind_data_builds:
  assumes "unat len \<le> length data" and "unat len < object_limit"
  shows "builds alloc (trilogy_build_stmt_bind_data_packet alloc stmt_id param_id data len)
    (0x18 # le_bytes 4 stmt_id @ le_bytes 2 param_id @ take (unat len) data)"
  unfolding trilogy_build_stmt_bind_data_packet_def
  by (rule builds_finalized, rule writes_cong, (rule writes_intros)+)
    (use assms in \<open>simp_all add: TRILOGY_CMD_STMT_SEND_LONG_DATA_def\<close>)

lemma stmt_reset_builds:
  "builds alloc (trilogy_build_stmt_reset_packet alloc stmt_id) (0x1a # le_bytes 4 stmt_id)"
  unfolding trilogy_build_stmt_reset_packet_def
  by (rule builds_finalized, rule writes_cong, (rule writes_intros)+)
    (simp_all add: TRILOGY_CMD_STMT_RESET_def)

lemma stmt_close_builds:
  "builds alloc (trilogy_build_stmt_close_packet alloc stmt_id) (0x19 # le_bytes 4 stmt_id)"
  unfolding trilogy_build_stmt_close_packet_def
  by (rule builds_finalized, rule writes_cong, (rule writes_intros)+)
    (simp_all add: TRILOGY_CMD_STMT_CLOSE_def)

lemma clear_password_builds:
  assumes "unat len \<le> length pass" and "unat len < object_limit"
  shows "builds alloc (trilogy_build_auth_clear_password alloc pass len) (take (unat len) pass @ [0])"
  unfolding trilogy_build_auth_clear_password_def
  by (rule builds_finalized, intro writes_intros) (use assms in simp_all)

section \<open>Authentication packets\<close>

lemma writes_c_string:
  assumes "0 \<in> set data" and "length (c_string data) < object_limit"
  shows "writes alloc (trilogy_builder_write_string alloc data) (c_string data @ [0])"
  using writes_string [OF strlen_c_string [OF assms(1)] assms(2)] by (simp add: take_c_string)

lemma strcmp_equal_c_string:
  "0 \<in> set xs \<Longrightarrow> 0 \<in> set ys \<Longrightarrow> strcmp_equal xs ys = Some (c_string xs = c_string ys)"
proof (induction xs ys rule: strcmp_equal.induct)
  case (1 a as b bs)
  then show ?case by (auto simp: c_string_def)
qed auto

lemma nul_in_literal [simp]: "0 \<in> set (literal s)"
  by (simp add: literal_def)

text \<open>The bytes of a name.\<close>

definition ascii :: "string \<Rightarrow> u8 list" where
  "ascii s = c_string (literal s)"

lemma if_plugin_eq:
  "0 \<in> set plugin \<Longrightarrow> if_plugin s plugin m m' = (if c_string plugin = ascii s then m else m')"
  by (auto simp: if_plugin_def strcmp_equal_c_string ascii_def split: bool.splits)

text \<open>The response to the scramble, and the plugin that is named with it.\<close>

definition response_bytes ::
  "(u8 list \<Rightarrow> u8 list) \<Rightarrow> (u8 list \<Rightarrow> u8 list) \<Rightarrow> u8 list \<Rightarrow> u8 list \<Rightarrow> u8 list \<Rightarrow> u8 list \<times> u8 list" where
  "response_bytes sha1 sha256 pass plugin scramble =
     (if pass = [] then ([], plugin)
      else if plugin = ascii ''caching_sha2_password''
      then (trilogy_pack_scramble_sha2_hash sha256 scramble pass, plugin)
      else (trilogy_pack_scramble_native_hash sha1 scramble pass, ascii ''mysql_native_password''))"

definition auth_packet_payload ::
  "u8 list \<Rightarrow> u8 list option \<Rightarrow> int \<Rightarrow> u8 list \<times> u8 list \<Rightarrow> u32 \<Rightarrow> u8 list" where
  "auth_packet_payload user database charset response flags =
     le_bytes 4 (flags OR TRILOGY_CAPABILITIES_CLIENT OR
       (if database \<noteq> None then capability TRILOGY_CAPABILITIES_CONNECT_WITH_DB else 0)) @
     le_bytes 4 (0xffffff :: u32) @ [word_of_int charset] @ zeroes @ (user @ [0]) @
     [word_of_nat (length (fst response))] @ fst response @
     (case database of None \<Rightarrow> [] | Some d \<Rightarrow> d @ [0]) @ (snd response @ [0])"

lemma length_native_hash: "length (trilogy_pack_scramble_native_hash sha1 scramble pass) =
    length (sha1 (take SCRAMBLE_LEN scramble @ sha1 (sha1 pass)))"
  by (simp add: trilogy_pack_scramble_native_hash_def Let_def)

lemma length_sha2_hash: "length (trilogy_pack_scramble_sha2_hash sha256 scramble pass) =
    length (sha256 (sha256 (sha256 pass) @ take SCRAMBLE_LEN scramble))"
  by (simp add: trilogy_pack_scramble_sha2_hash_def Let_def)

lemma writes_response:
  assumes "length r < object_limit"
  shows "writes alloc (if length r > 0 then trilogy_builder_write_buffer alloc r (word_of_nat (length r)) else ret ()) r"
  using writes_all [OF assms] writes_ret by (cases "r = []") simp_all

lemma auth_builds:
  assumes user: "case user of None \<Rightarrow> u = ascii ''root'' | Some obj \<Rightarrow> 0 \<in> set obj \<and> u = c_string obj"
    and plugin: "0 \<in> set auth_plugin"
    and db: "\<And>obj. database = Some obj \<Longrightarrow> 0 \<in> set obj \<and> length (c_string obj) < object_limit"
    and small: "length u < object_limit" "length (c_string auth_plugin) < object_limit"
      "length (fst (response_bytes sha1 sha256 pass (c_string auth_plugin) scramble)) < object_limit"
  shows "builds alloc
    (trilogy_build_auth_packet sha1 sha256 alloc user pass database charset auth_plugin scramble flags)
    (auth_packet_payload u (map_option c_string database) charset
      (response_bytes sha1 sha256 pass (c_string auth_plugin) scramble) flags)"
proof -
  let ?caps = "flags OR TRILOGY_CAPABILITIES_CLIENT OR
            (if database \<noteq> None then capability TRILOGY_CAPABILITIES_CONNECT_WITH_DB else 0)"
  have pa: "has_capability ?caps TRILOGY_CAPABILITIES_PLUGIN_AUTH"
    by (simp add: has_capability_or client_capabilities)
  obtain obj where obj: "(case user of Some u \<Rightarrow> u | None \<Rightarrow> literal ''root'') = obj" "0 \<in> set obj" "c_string obj = u"
    using user by (cases user) (auto simp: ascii_def)
  obtain r pl where resp: "auth_response sha1 sha256 pass auth_plugin scramble = (ret (r, pl) :: (trilogy_builder, _) op)"
      and r: "response_bytes sha1 sha256 pass (c_string auth_plugin) scramble = (r, c_string pl)"
      and pl: "0 \<in> set pl" "length (c_string pl) < object_limit"
  proof (cases "pass \<noteq> [] \<and> c_string auth_plugin \<noteq> ascii ''caching_sha2_password''")
    case True
    show ?thesis
    proof (rule that [of "trilogy_pack_scramble_native_hash sha1 scramble pass" "literal ''mysql_native_password''"])
      show "length (c_string (literal ''mysql_native_password'')) < object_limit"
        by (simp add: c_string_def literal_def object_limit_def)
    qed (use True plugin in \<open>simp_all add: auth_response_def if_plugin_eq response_bytes_def ascii_def\<close>)
  next
    case False
    then show ?thesis
      using plugin small(2) that [of _ auth_plugin]
      by (cases "pass = []") (auto simp: auth_response_def if_plugin_eq response_bytes_def)
  qed
  have db': "writes alloc (case database of None \<Rightarrow> ret () | Some d \<Rightarrow> trilogy_builder_write_string alloc d)
      (case map_option c_string database of None \<Rightarrow> [] | Some d \<Rightarrow> d @ [0])"
    using db by (cases database) (auto intro: writes_ret writes_c_string)
  have "unat (23 :: size_t) \<le> length zeroes" "unat (23 :: size_t) < object_limit"
    by (simp_all add: zeroes_def object_limit_def)
  from writes_buffer [OF this] have zero: "writes alloc (trilogy_builder_write_buffer alloc zeroes 23) zeroes"
    by (simp add: zeroes_def)
  have W: "writes alloc
     (checked (trilogy_builder_write_uint32 alloc ?caps) (\<lambda>_.
        checked (trilogy_builder_write_uint32 alloc (word_of_nat TRILOGY_MAX_PACKET_LEN)) (\<lambda>_.
        checked (trilogy_builder_write_uint8 alloc (word_of_int charset)) (\<lambda>_.
        checked (trilogy_builder_write_buffer alloc zeroes 23) (\<lambda>_.
        checked (trilogy_builder_write_string alloc obj) (\<lambda>_.
        checked (trilogy_builder_write_uint8 alloc (word_of_nat (length r))) (\<lambda>_.
        checked (if length r > 0 then trilogy_builder_write_buffer alloc r (word_of_nat (length r)) else ret ()) (\<lambda>_.
        checked (case database of None \<Rightarrow> ret () | Some d \<Rightarrow> trilogy_builder_write_string alloc d) (\<lambda>_.
        trilogy_builder_write_string alloc pl)))))))))
      (le_bytes 4 ?caps @ le_bytes 4 (word_of_nat TRILOGY_MAX_PACKET_LEN :: u32) @ [word_of_int charset] @
       zeroes @ (c_string obj @ [0]) @ [word_of_nat (length r)] @ r @
       (case map_option c_string database of None \<Rightarrow> [] | Some d \<Rightarrow> d @ [0]) @ (c_string pl @ [0]))"
      by (rule writes_checked, rule writes_uint32, rule writes_checked, rule writes_uint32,
          rule writes_checked, rule writes_uint8, rule writes_checked, rule zero,
          rule writes_checked, rule writes_c_string, rule obj, use obj small in simp,
          rule writes_checked, rule writes_uint8, rule writes_checked, rule writes_response,
          use small r in simp, rule writes_checked, rule db', rule writes_c_string, rule pl, rule pl)
  have "trilogy_build_auth_packet sha1 sha256 alloc user pass database charset auth_plugin scramble flags =
      finalized
     (checked (trilogy_builder_write_uint32 alloc ?caps) (\<lambda>_.
        checked (trilogy_builder_write_uint32 alloc (word_of_nat TRILOGY_MAX_PACKET_LEN)) (\<lambda>_.
        checked (trilogy_builder_write_uint8 alloc (word_of_int charset)) (\<lambda>_.
        checked (trilogy_builder_write_buffer alloc zeroes 23) (\<lambda>_.
        checked (trilogy_builder_write_string alloc obj) (\<lambda>_.
        checked (trilogy_builder_write_uint8 alloc (word_of_nat (length r))) (\<lambda>_.
        checked (if length r > 0 then trilogy_builder_write_buffer alloc r (word_of_nat (length r)) else ret ()) (\<lambda>_.
        checked (case database of None \<Rightarrow> ret () | Some d \<Rightarrow> trilogy_builder_write_string alloc d) (\<lambda>_.
        trilogy_builder_write_string alloc pl)))))))))"
    unfolding trilogy_build_auth_packet_def Let_def obj(1) resp checked_ret prod.case if_P [OF pa] ..
  then show ?thesis
    using builds_finalized [OF W]
    by (simp add: auth_packet_payload_def r obj(3) TRILOGY_MAX_PACKET_LEN_def)
qed

lemma switch_native_builds:
  assumes "0 \<in> set auth_plugin" and "c_string auth_plugin = ascii ''mysql_native_password''" and "pass \<noteq> []"
    and "length (trilogy_pack_scramble_native_hash sha1 scramble pass) < object_limit"
  shows "builds alloc (trilogy_build_auth_switch_response_packet sha1 sha256 alloc pass auth_plugin scramble clear)
    (trilogy_pack_scramble_native_hash sha1 scramble pass)"
proof -
  have "ascii ''mysql_native_password'' \<noteq> ascii ''mysql_clear_password''"
    "ascii ''mysql_native_password'' \<noteq> ascii ''caching_sha2_password''"
    by (simp_all add: ascii_def literal_def c_string_def)
  with assms show ?thesis
    unfolding trilogy_build_auth_switch_response_packet_def Let_def
    by (intro builds_finalized) (simp add: if_plugin_eq writes_all)
qed

lemma switch_sha2_builds:
  assumes "0 \<in> set auth_plugin" and "c_string auth_plugin = ascii ''caching_sha2_password''" and "pass \<noteq> []"
    and "length (trilogy_pack_scramble_sha2_hash sha256 scramble pass) < object_limit"
  shows "builds alloc (trilogy_build_auth_switch_response_packet sha1 sha256 alloc pass auth_plugin scramble clear)
    (trilogy_pack_scramble_sha2_hash sha256 scramble pass)"
proof -
  have "ascii ''caching_sha2_password'' \<noteq> ascii ''mysql_clear_password''"
    by (simp add: ascii_def literal_def c_string_def)
  with assms show ?thesis
    unfolding trilogy_build_auth_switch_response_packet_def Let_def
    by (intro builds_finalized) (simp add: if_plugin_eq writes_all)
qed

text \<open>
  A password is sent in the clear only to a server that asks for it and a client that allows
  it; an unknown plugin is refused. In both cases nothing is written.
\<close>

lemma switch_refused:
  assumes "0 \<in> set auth_plugin" and "pass \<noteq> []"
    and "c_string auth_plugin = ascii ''mysql_clear_password'' \<and> \<not> clear
      \<or> c_string auth_plugin \<notin> {ascii ''mysql_clear_password'', ascii ''caching_sha2_password'',
           ascii ''mysql_native_password''}"
  shows "trilogy_build_auth_switch_response_packet sha1 sha256 alloc pass auth_plugin scramble clear b
    = (Inl (Rc TRILOGY_AUTH_PLUGIN_ERROR), b)"
  using assms
  by (auto simp: trilogy_build_auth_switch_response_packet_def if_plugin_eq)

text \<open>
  What the server checks. It keeps \<^verbatim>\<open>SHA1(SHA1(password))\<close>; from the response and the scramble it
  recovers \<^verbatim>\<open>SHA1(password)\<close> and hashes it once more. The plugin of 8.0 does the same with
  \<^verbatim>\<open>SHA256\<close>.
\<close>

lemma xor_nth_cancel:
  assumes "length xs = length (ys :: u8 list)"
  shows "map2 (XOR) (map (\<lambda>x. xs ! x XOR ys ! x) [0..<length xs]) xs = ys"
  using assms by (intro nth_equalityI) (simp_all add: xor.assoc xor.commute [of "xs ! _"] xor.left_commute)

lemma native_hash_verifies:
  assumes "\<And>x. length (sha1 x) = n"
  shows "sha1 (map2 (XOR) (trilogy_pack_scramble_native_hash sha1 scramble pass)
           (sha1 (take SCRAMBLE_LEN scramble @ sha1 (sha1 pass)))) = sha1 (sha1 pass)"
  unfolding trilogy_pack_scramble_native_hash_def Let_def
  by (subst xor_nth_cancel) (simp_all add: assms)

lemma sha2_hash_verifies:
  assumes "\<And>x. length (sha256 x) = n"
  shows "sha256 (map2 (XOR) (trilogy_pack_scramble_sha2_hash sha256 scramble pass)
           (sha256 (sha256 (sha256 pass) @ take SCRAMBLE_LEN scramble))) = sha256 (sha256 pass)"
proof -
  define buffer where "buffer = sha256 (sha256 (sha256 pass) @ take SCRAMBLE_LEN scramble)"
  have "trilogy_pack_scramble_sha2_hash sha256 scramble pass =
      map (\<lambda>x. buffer ! x XOR sha256 pass ! x) [0..<length buffer]"
    by (simp add: trilogy_pack_scramble_sha2_hash_def buffer_def Let_def xor.commute)
  moreover have "map2 (XOR) (map (\<lambda>x. buffer ! x XOR sha256 pass ! x) [0..<length buffer]) buffer = sha256 pass"
    by (rule xor_nth_cancel) (simp add: buffer_def assms)
  ultimately show ?thesis
    unfolding buffer_def [symmetric] by metis
qed

lemma ssl_request_builds:
  "builds alloc (trilogy_build_ssl_request_packet alloc flags charset)
     (le_bytes 4 (flags OR TRILOGY_CAPABILITIES_CLIENT OR capability TRILOGY_CAPABILITIES_SSL) @
      le_bytes 4 (0xffffff :: u32) @ [word_of_int charset] @ zeroes)"
proof -
  have "unat (23 :: size_t) \<le> length zeroes" "unat (23 :: size_t) < object_limit"
    by (simp_all add: zeroes_def object_limit_def)
  from writes_buffer [OF this] have zero: "writes alloc (trilogy_builder_write_buffer alloc zeroes 23) zeroes"
    by (simp add: zeroes_def)
  show ?thesis
    unfolding trilogy_build_ssl_request_packet_def
    by (rule builds_finalized, rule writes_cong, rule writes_checked, rule writes_uint32,
        rule writes_checked, rule writes_uint32, rule writes_checked, rule writes_uint8, rule zero)
      (simp add: TRILOGY_MAX_PACKET_LEN_def)
qed

end
