(* ===== verification/Reader.thy ===== *)
theory Reader
  imports Wire_Format Buffer
begin

text \<open>
  \<^verbatim>\<open>src/reader.c\<close>: reading values off a packet. A reader is the object its \<^verbatim>\<open>buff\<close> points to,
  a length and a position. A pointer and length that a C function hands out is the list of
  the bytes it spans; an out parameter is the value of the operation. The state is returned
  on failure too, since \<^verbatim>\<open>trilogy_parse_row_packet\<close> reads on after \<^verbatim>\<open>TRILOGY_NULL_VALUE\<close>.
\<close>

section \<open>The structure and its operations\<close>

record trilogy_reader =
  rd_buff :: "u8 list"
  rd_len :: size_t
  rd_pos :: size_t

definition TRILOGY_READER :: "u8 list \<Rightarrow> size_t \<Rightarrow> trilogy_reader" where
  "TRILOGY_READER buff len = \<lparr>rd_buff = buff, rd_len = len, rd_pos = 0\<rparr>"

definition trilogy_reader_init :: "u8 list \<Rightarrow> size_t \<Rightarrow> trilogy_reader \<Rightarrow> trilogy_reader" where
  "trilogy_reader_init buff len r = r\<lparr>rd_buff := buff, rd_len := len, rd_pos := 0\<rparr>"

text \<open>The macro \<^verbatim>\<open>CHECK\<close>.\<close>

definition check_bytes :: "size_t \<Rightarrow> (trilogy_reader, unit) op" where
  "check_bytes bytes =
     checked get_state (\<lambda>r.
     if bytes > rd_len r - rd_pos r then throw TRILOGY_TRUNCATED_PACKET else ret ())"

definition next_uint8 :: "(trilogy_reader, u8) op" where
  "next_uint8 = (\<lambda>r.
     if unat (rd_pos r) < length (rd_buff r)
     then (Inr (rd_buff r ! unat (rd_pos r)), r\<lparr>rd_pos := rd_pos r + 1\<rparr>)
     else (Inl Fault, r))"

definition trilogy_reader_get_uint8 :: "(trilogy_reader, u8) op" where
  "trilogy_reader_get_uint8 = checked (check_bytes 1) (\<lambda>_. next_uint8)"

definition trilogy_reader_get_uint16 :: "(trilogy_reader, u16) op" where
  "trilogy_reader_get_uint16 =
     checked (check_bytes 2) (\<lambda>_.
     checked next_uint8 (\<lambda>a.
     checked next_uint8 (\<lambda>b.
     ret (ucast a OR push_bit 8 (ucast b)))))"

definition trilogy_reader_get_uint24 :: "(trilogy_reader, u32) op" where
  "trilogy_reader_get_uint24 =
     checked (check_bytes 3) (\<lambda>_.
     checked next_uint8 (\<lambda>a.
     checked next_uint8 (\<lambda>b.
     checked next_uint8 (\<lambda>c.
     ret (ucast a OR push_bit 8 (ucast b) OR push_bit 16 (ucast c))))))"

definition trilogy_reader_get_uint32 :: "(trilogy_reader, u32) op" where
  "trilogy_reader_get_uint32 =
     checked (check_bytes 4) (\<lambda>_.
     checked next_uint8 (\<lambda>a.
     checked next_uint8 (\<lambda>b.
     checked next_uint8 (\<lambda>c.
     checked next_uint8 (\<lambda>d.
     ret (ucast a OR push_bit 8 (ucast b) OR push_bit 16 (ucast c) OR push_bit 24 (ucast d)))))))"

definition trilogy_reader_get_uint64 :: "(trilogy_reader, u64) op" where
  "trilogy_reader_get_uint64 =
     checked (check_bytes 8) (\<lambda>_.
     checked next_uint8 (\<lambda>a.
     checked next_uint8 (\<lambda>b.
     checked next_uint8 (\<lambda>c.
     checked next_uint8 (\<lambda>d.
     checked next_uint8 (\<lambda>e.
     checked next_uint8 (\<lambda>f.
     checked next_uint8 (\<lambda>g.
     checked next_uint8 (\<lambda>h.
     ret (ucast a OR push_bit 8 (ucast b) OR push_bit 16 (ucast c) OR push_bit 24 (ucast d)
          OR push_bit 32 (ucast e) OR push_bit 40 (ucast f) OR push_bit 48 (ucast g)
          OR push_bit 56 (ucast h)))))))))))"

text \<open>The bits of a \<^verbatim>\<open>float\<close> or \<^verbatim>\<open>double\<close>, moved by a union.\<close>

definition trilogy_reader_get_float :: "(trilogy_reader, u32) op" where
  "trilogy_reader_get_float =
     checked (check_bytes 4) (\<lambda>_. trilogy_reader_get_uint32)"

definition trilogy_reader_get_double :: "(trilogy_reader, u64) op" where
  "trilogy_reader_get_double =
     checked (check_bytes 8) (\<lambda>_. trilogy_reader_get_uint64)"

definition trilogy_reader_get_lenenc :: "(trilogy_reader, u64) op" where
  "trilogy_reader_get_lenenc =
     checked (check_bytes 1) (\<lambda>_.
     checked next_uint8 (\<lambda>leader.
     if leader < 0xfb then ret (ucast leader)
     else if leader = 0xfb then throw TRILOGY_NULL_VALUE
     else if leader = 0xfc then checked trilogy_reader_get_uint16 (\<lambda>u16. ret (ucast u16))
     else if leader = 0xfd then checked trilogy_reader_get_uint24 (\<lambda>u24. ret (ucast u24))
     else if leader = 0xfe then trilogy_reader_get_uint64
     else throw TRILOGY_PROTOCOL_VIOLATION))"

text \<open>The bytes \<open>[pos, pos + len)\<close> of the object, and the step over them.\<close>

definition slice :: "size_t \<Rightarrow> (trilogy_reader, u8 list) op" where
  "slice len = (\<lambda>r.
     if unat (rd_pos r) + unat len \<le> length (rd_buff r)
     then (Inr (take (unat len) (drop (unat (rd_pos r)) (rd_buff r))), r\<lparr>rd_pos := rd_pos r + len\<rparr>)
     else (Inl Fault, r))"

definition trilogy_reader_get_buffer :: "size_t \<Rightarrow> (trilogy_reader, u8 list) op" where
  "trilogy_reader_get_buffer len = checked (check_bytes len) (\<lambda>_. slice len)"

definition trilogy_reader_copy_buffer :: "size_t \<Rightarrow> (trilogy_reader, u8 list) op" where
  "trilogy_reader_copy_buffer len = checked (check_bytes len) (\<lambda>_. slice len)"

definition trilogy_reader_get_lenenc_buffer :: "(trilogy_reader, u8 list) op" where
  "trilogy_reader_get_lenenc_buffer =
     checked trilogy_reader_get_lenenc (\<lambda>len.
     checked get_state (\<lambda>r.
     if len > rd_len r - rd_pos r then throw TRILOGY_TRUNCATED_PACKET
     else trilogy_reader_get_buffer len))"

definition trilogy_reader_get_string :: "(trilogy_reader, u8 list) op" where
  "trilogy_reader_get_string = (\<lambda>r.
     let pos = drop (unat (rd_pos r)) (rd_buff r);
         n = unat (rd_len r - rd_pos r)
     in case memchr 0 (take n pos) of
          None \<Rightarrow> (Inl (if n \<le> length pos then Rc TRILOGY_TRUNCATED_PACKET else Fault), r)
        | Some len \<Rightarrow> (Inr (take len pos), r\<lparr>rd_pos := rd_pos r + (word_of_nat len + 1)\<rparr>))"

definition trilogy_reader_get_eof_buffer :: "(trilogy_reader, u8 list) op" where
  "trilogy_reader_get_eof_buffer =
     checked get_state (\<lambda>r.
     checked (slice (rd_len r - rd_pos r)) (\<lambda>out.
     checked (put_state (\<lambda>r. r\<lparr>rd_pos := rd_len r\<rparr>)) (\<lambda>_. ret out)))"

definition trilogy_reader_eof :: "trilogy_reader \<Rightarrow> bool" where
  "trilogy_reader_eof r \<longleftrightarrow> \<not> (rd_pos r < rd_len r)"

definition trilogy_reader_finish :: "(trilogy_reader, unit) op" where
  "trilogy_reader_finish =
     checked get_state (\<lambda>r.
     if rd_pos r < rd_len r then throw TRILOGY_EXTRA_DATA_IN_PACKET else ret ())"

section \<open>Well-formed readers\<close>

text \<open>
  The position is within the length and the length within the object; what is left to read
  is the bytes between them.
\<close>

definition reader_ok :: "trilogy_reader \<Rightarrow> bool" where
  "reader_ok r \<longleftrightarrow> rd_pos r \<le> rd_len r \<and> unat (rd_len r) \<le> length (rd_buff r)"

definition rest :: "trilogy_reader \<Rightarrow> u8 list" where
  "rest r = drop (unat (rd_pos r)) (take (unat (rd_len r)) (rd_buff r))"

definition advance :: "nat \<Rightarrow> trilogy_reader \<Rightarrow> trilogy_reader" where
  "advance n r = r\<lparr>rd_pos := rd_pos r + word_of_nat n\<rparr>"

lemma length_rest: "reader_ok r \<Longrightarrow> length (rest r) = unat (rd_len r - rd_pos r)"
  by (simp add: reader_ok_def rest_def unat_diff_size_t)

lemma length_rest_diff: "reader_ok r \<Longrightarrow> length (rest r) = unat (rd_len r) - unat (rd_pos r)"
  by (simp add: reader_ok_def rest_def)

lemma advance_pos:
  assumes "reader_ok r" and "n \<le> length (rest r)"
  shows "unat (rd_pos r + word_of_nat n) = unat (rd_pos r) + n"
proof -
  have le: "unat (rd_pos r) + n \<le> unat (rd_len r)"
    using assms length_rest_diff [OF assms(1)]
    by (auto simp: reader_ok_def word_le_nat_alt)
  then have "unat (rd_pos r) + n < 18446744073709551616" using unat_size_t_lt [of "rd_len r"] by linarith
  moreover from this have "unat (word_of_nat n :: size_t) = n" by (intro unat_word_of_nat_size_t) simp
  ultimately show ?thesis by (subst unat_add_size_t) simp_all
qed

lemma reader_ok_advance:
  assumes "reader_ok r" and "n \<le> length (rest r)"
  shows "reader_ok (advance n r)"
  using assms advance_pos [OF assms] length_rest_diff [OF assms(1)]
  by (auto simp: reader_ok_def advance_def word_le_nat_alt)

lemma rest_advance:
  assumes "reader_ok r" and "n \<le> length (rest r)"
  shows "rest (advance n r) = drop n (rest r)"
  using advance_pos [OF assms] by (simp add: rest_def advance_def add.commute)

lemma advance_frame [simp]: "rd_buff (advance n r) = rd_buff r" "rd_len (advance n r) = rd_len r"
  by (simp_all add: advance_def)

lemma advance_advance: "advance m (advance n r) = advance (n + m) r"
  by (simp add: advance_def add.assoc)

lemma advance_0 [simp]: "advance 0 r = r"
  by (simp add: advance_def)

lemma reader_start:
  assumes "unat len \<le> length buff"
  shows "reader_ok (TRILOGY_READER buff len)" and "rest (TRILOGY_READER buff len) = take (unat len) buff"
  using assms by (simp_all add: TRILOGY_READER_def reader_ok_def rest_def)

lemma eof_rest: "reader_ok r \<Longrightarrow> trilogy_reader_eof r \<longleftrightarrow> rest r = []"
  by (auto simp: trilogy_reader_eof_def reader_ok_def rest_def word_less_nat_alt word_le_nat_alt)

section \<open>What each read does\<close>

lemma check_bytes_view:
  "reader_ok r \<Longrightarrow>
   check_bytes n r = (if unat n \<le> length (rest r) then (Inr (), r)
                      else (Inl (Rc TRILOGY_TRUNCATED_PACKET), r))"
  by (simp add: check_bytes_def length_rest word_less_nat_alt not_less)

lemma checked_check_bytes:
  "reader_ok r \<Longrightarrow>
   checked (check_bytes n) k r = (if unat n \<le> length (rest r) then k () r
                                  else (Inl (Rc TRILOGY_TRUNCATED_PACKET), r))"
  by (simp add: checked_apply check_bytes_view)

lemma next_uint8_view:
  assumes "reader_ok r" and "Suc 0 \<le> length (rest r)"
  shows "next_uint8 r = (Inr (rest r ! 0), advance (Suc 0) r)"
proof -
  have "unat (rd_pos r) < unat (rd_len r)"
    using assms(2) length_rest_diff [OF assms(1)] by linarith
  with assms(1) show ?thesis
    by (simp add: next_uint8_def rest_def advance_def reader_ok_def)
qed

lemma next_uint8_at:
  assumes "reader_ok r" and "n < length (rest r)"
  shows "next_uint8 (advance n r) = (Inr (rest r ! n), advance (Suc n) r)"
proof -
  have "Suc 0 \<le> length (rest (advance n r))"
    using assms by (simp add: rest_advance)
  with assms show ?thesis
    by (simp add: next_uint8_view reader_ok_advance rest_advance advance_advance)
qed

lemma checked_next_uint8:
  "reader_ok r \<Longrightarrow> n < length (rest r) \<Longrightarrow>
   checked next_uint8 k (advance n r) = k (rest r ! n) (advance (Suc n) r)"
  by (simp add: checked_apply next_uint8_at)

lemma checked_next_uint8_first:
  "reader_ok r \<Longrightarrow> Suc 0 \<le> length (rest r) \<Longrightarrow>
   checked next_uint8 k r = k (rest r ! 0) (advance (Suc 0) r)"
  using checked_next_uint8 [of r 0 k] by (simp add: Suc_le_eq)

lemma slice_view:
  assumes "reader_ok r" and "unat n \<le> length (rest r)"
  shows "slice n r = (Inr (take (unat n) (rest r)), advance (unat n) r)"
proof -
  have "unat (rd_pos r) + unat n \<le> unat (rd_len r)"
    using assms length_rest_diff [OF assms(1)] by (auto simp: reader_ok_def word_le_nat_alt)
  with assms(1) show ?thesis
    by (auto simp: slice_def rest_def advance_def reader_ok_def take_drop min_def add.commute)
qed

text \<open>A read of \<open>n\<close> bytes: it fails, and moves nothing, exactly when fewer are left.\<close>

definition fixed_read :: "(trilogy_reader, 'a) op \<Rightarrow> nat \<Rightarrow> (u8 list \<Rightarrow> 'a) \<Rightarrow> bool" where
  "fixed_read m n f \<longleftrightarrow>
     (\<forall>r. reader_ok r \<longrightarrow>
        m r = (if n \<le> length (rest r) then (Inr (f (take n (rest r))), advance n r)
               else (Inl (Rc TRILOGY_TRUNCATED_PACKET), r)))"

lemma fixed_readD:
  "fixed_read m n f \<Longrightarrow> reader_ok r \<Longrightarrow>
   m r = (if n \<le> length (rest r) then (Inr (f (take n (rest r))), advance n r)
          else (Inl (Rc TRILOGY_TRUNCATED_PACKET), r))"
  by (simp add: fixed_read_def)

lemma fixed_readI:
  assumes "unat w = n"
    and "\<And>r. reader_ok r \<Longrightarrow> n \<le> length (rest r) \<Longrightarrow> k () r = (Inr (f (take n (rest r))), advance n r)"
  shows "fixed_read (checked (check_bytes w) k) n f"
  unfolding fixed_read_def using assms by (simp add: checked_check_bytes)

lemma take_Suc_nth: "n < length xs \<Longrightarrow> take (Suc n) xs = take n xs @ [xs ! n]"
  by (rule take_Suc_conv_app_nth)

lemma take_nth_1: "Suc 0 \<le> length xs \<Longrightarrow> take (Suc 0) xs = [xs ! 0]"
  using take_Suc_nth [of 0 xs] by (simp add: Suc_le_eq)

lemma take_nth_2: "2 \<le> length xs \<Longrightarrow> take 2 xs = [xs ! 0, xs ! 1]"
  using take_Suc_nth [of 1 xs] by (simp add: take_nth_1 numeral_2_eq_2)

lemma take_nth_3: "3 \<le> length xs \<Longrightarrow> take 3 xs = [xs ! 0, xs ! 1, xs ! 2]"
  using take_Suc_nth [of 2 xs] by (simp add: take_nth_2)

lemma take_nth_4: "4 \<le> length xs \<Longrightarrow> take 4 xs = [xs ! 0, xs ! 1, xs ! 2, xs ! 3]"
  using take_Suc_nth [of 3 xs] by (simp add: take_nth_3)

lemma take_nth_8:
  assumes "8 \<le> length xs"
  shows "take 8 xs = [xs ! 0, xs ! 1, xs ! 2, xs ! 3, xs ! 4, xs ! 5, xs ! 6, xs ! 7]"
  using assms take_add [of 4 4 xs] by (simp add: take_nth_4)

lemmas byte_reads =
  checked_next_uint8 checked_next_uint8_first numeral_2_eq_2 [symmetric]

lemma get_uint8_fixed: "fixed_read trilogy_reader_get_uint8 1 hd"
  unfolding trilogy_reader_get_uint8_def
  by (rule fixed_readI) (simp_all add: next_uint8_view take_nth_1)

lemma get_uint16_fixed: "fixed_read trilogy_reader_get_uint16 2 of_le_bytes"
  unfolding trilogy_reader_get_uint16_def
  by (rule fixed_readI) (simp_all add: byte_reads take_nth_2)

lemma get_uint24_fixed: "fixed_read trilogy_reader_get_uint24 3 of_le_bytes"
  unfolding trilogy_reader_get_uint24_def
  by (rule fixed_readI) (simp_all add: byte_reads take_nth_3 push_bit_or)

lemma get_uint32_fixed: "fixed_read trilogy_reader_get_uint32 4 of_le_bytes"
  unfolding trilogy_reader_get_uint32_def
  by (rule fixed_readI) (simp_all add: byte_reads take_nth_4 push_bit_or)

lemma get_uint64_fixed: "fixed_read trilogy_reader_get_uint64 8 of_le_bytes"
  unfolding trilogy_reader_get_uint64_def
  by (rule fixed_readI) (simp_all add: byte_reads take_nth_8 push_bit_or)

lemma get_float_fixed: "fixed_read trilogy_reader_get_float 4 of_le_bytes"
  unfolding trilogy_reader_get_float_def
  by (rule fixed_readI) (simp_all add: fixed_readD [OF get_uint32_fixed])

lemma get_double_fixed: "fixed_read trilogy_reader_get_double 8 of_le_bytes"
  unfolding trilogy_reader_get_double_def
  by (rule fixed_readI) (simp_all add: fixed_readD [OF get_uint64_fixed])

lemma get_buffer_fixed: "fixed_read (trilogy_reader_get_buffer len) (unat len) (\<lambda>bs. bs)"
  unfolding trilogy_reader_get_buffer_def
  by (rule fixed_readI) (simp_all add: slice_view)

lemma copy_buffer_fixed: "fixed_read (trilogy_reader_copy_buffer len) (unat len) (\<lambda>bs. bs)"
  unfolding trilogy_reader_copy_buffer_def
  by (rule fixed_readI) (simp_all add: slice_view)

lemma checked_get_state_apply: "checked get_state k r = k r r"
  by simp

lemma get_eof_buffer_view:
  assumes "reader_ok r"
  shows "trilogy_reader_get_eof_buffer r = (Inr (rest r), advance (length (rest r)) r)"
proof -
  have "advance (length (rest r)) r = r\<lparr>rd_pos := rd_len r\<rparr>"
    using assms by (simp add: advance_def length_rest)
  moreover have "slice (rd_len r - rd_pos r) r = (Inr (rest r), advance (length (rest r)) r)"
    using slice_view [of r "rd_len r - rd_pos r"] assms by (simp add: length_rest)
  ultimately show ?thesis
    by (simp add: trilogy_reader_get_eof_buffer_def checked_Inr)
qed

lemma get_string_view:
  assumes "reader_ok r"
  shows "trilogy_reader_get_string r =
    (case strlen (rest r) of None \<Rightarrow> (Inl (Rc TRILOGY_TRUNCATED_PACKET), r)
     | Some n \<Rightarrow> (Inr (take n (rest r)), advance (Suc n) r))"
proof -
  have take: "take (unat (rd_len r - rd_pos r)) (drop (unat (rd_pos r)) (rd_buff r)) = rest r"
    using assms by (simp add: rest_def take_drop unat_diff_size_t reader_ok_def word_le_nat_alt)
  have enough: "unat (rd_len r - rd_pos r) \<le> length (rd_buff r) - unat (rd_pos r)"
    using assms by (auto simp: reader_ok_def unat_diff_size_t)
  have "take n (drop (unat (rd_pos r)) (rd_buff r)) = take n (rest r)" if "strlen (rest r) = Some n" for n
  proof -
    have "n < length (rest r)" using that by (simp add: strlen_Some)
    then have "n \<le> unat (rd_len r - rd_pos r)" using assms by (simp add: length_rest)
    then show ?thesis unfolding take [symmetric] by (simp add: min_def)
  qed
  then show ?thesis
    using take enough
    by (auto simp: trilogy_reader_get_string_def Let_def advance_def add.commute split: option.splits)
qed

lemma finish_view:
  "reader_ok r \<Longrightarrow>
   trilogy_reader_finish r = (if rest r = [] then Inr () else Inl (Rc TRILOGY_EXTRA_DATA_IN_PACKET), r)"
  using eof_rest [of r] by (auto simp: trilogy_reader_finish_def trilogy_reader_eof_def)

lemma byte_leader:
  fixes b :: u8
  shows "b < 0xfb \<or> b = 0xfb \<or> b = 0xfc \<or> b = 0xfd \<or> b = 0xfe \<or> b = 0xff"
proof -
  have "unat b < 256" using unsigned_less [of b] by simp
  then have "unat b < 251 \<or> unat b = 251 \<or> unat b = 252 \<or> unat b = 253 \<or> unat b = 254 \<or> unat b = 255"
    by linarith
  then show ?thesis by (simp add: word_less_nat_alt word_unat_eq_iff)
qed

text \<open>A length-encoded integer, decoded from the list of the bytes that are left.\<close>

definition lenenc_width :: "u8 \<Rightarrow> nat" where
  "lenenc_width b = (if b = 0xfc then 2 else if b = 0xfd then 3 else if b = 0xfe then 8 else 0)"

lemma get_lenenc_view:
  assumes "reader_ok r"
  shows "trilogy_reader_get_lenenc r =
    (case rest r of [] \<Rightarrow> (Inl (Rc TRILOGY_TRUNCATED_PACKET), r)
     | b # bs \<Rightarrow>
         if b < 0xfb then (Inr (ucast b), advance 1 r)
         else if b = 0xfb then (Inl (Rc TRILOGY_NULL_VALUE), advance 1 r)
         else if b = 0xff then (Inl (Rc TRILOGY_PROTOCOL_VIOLATION), advance 1 r)
         else if length bs < lenenc_width b then (Inl (Rc TRILOGY_TRUNCATED_PACKET), advance 1 r)
         else (Inr (of_le_bytes (take (lenenc_width b) bs)), advance (1 + lenenc_width b) r))"
proof (cases "rest r")
  case Nil
  then show ?thesis
    using assms by (simp add: trilogy_reader_get_lenenc_def checked_check_bytes)
next
  case (Cons b bs)
  have ok: "reader_ok (advance (Suc 0) r)" and left: "rest (advance (Suc 0) r) = bs"
    using assms Cons by (simp_all add: reader_ok_advance rest_advance)
  have get: "trilogy_reader_get_lenenc r =
     (if b < 0xfb then ret (ucast b)
      else if b = 0xfb then throw TRILOGY_NULL_VALUE
      else if b = 0xfc then checked trilogy_reader_get_uint16 (\<lambda>u16. ret (ucast u16))
      else if b = 0xfd then checked trilogy_reader_get_uint24 (\<lambda>u24. ret (ucast u24))
      else if b = 0xfe then trilogy_reader_get_uint64
      else throw TRILOGY_PROTOCOL_VIOLATION) (advance (Suc 0) r)"
    using assms Cons by (simp add: trilogy_reader_get_lenenc_def checked_check_bytes byte_reads)
  consider "b < 0xfb" | "b = 0xfb" | "b = 0xfc" | "b = 0xfd" | "b = 0xfe" | "b = 0xff"
    using byte_leader by blast
  then show ?thesis
    by cases
      (simp_all add: get Cons ok left lenenc_width_def checked_apply advance_advance
        fixed_readD [OF get_uint16_fixed] fixed_readD [OF get_uint24_fixed]
        fixed_readD [OF get_uint64_fixed] ucast_of_le_bytes not_le)
qed

section \<open>Sound reads\<close>

text \<open>
  A read is sound when it stays inside the bytes that are left: it never faults or hangs, nor does
  it report \<^verbatim>\<open>TRILOGY_OK\<close> or \<^verbatim>\<open>TRILOGY_AGAIN\<close> as an error; it only moves the position, forwards and not past the length, and what it yields and how
  far it moves depend on nothing but those bytes (so a pointer past the packet is not
  looked at). Sound reads compose.
\<close>

definition settled :: "stop + 'a \<Rightarrow> bool" where
  "settled v \<longleftrightarrow> v \<noteq> Inl Fault \<and> v \<noteq> Inl Hang \<and> v \<noteq> Inl (Rc TRILOGY_OK) \<and> v \<noteq> Inl (Rc TRILOGY_AGAIN)"

lemma settled_simps [simp]:
  "settled (Inr x)"
  "settled (Inl e) \<longleftrightarrow> e \<noteq> Fault \<and> e \<noteq> Hang \<and> e \<noteq> Rc TRILOGY_OK \<and> e \<noteq> Rc TRILOGY_AGAIN"
  by (simp_all add: settled_def)

definition sound_read :: "(trilogy_reader, 'a) op \<Rightarrow> bool" where
  "sound_read m \<longleftrightarrow>
     (\<forall>r r'. reader_ok r \<and> reader_ok r' \<and> rest r = rest r' \<longrightarrow>
        (\<exists>n v. n \<le> length (rest r) \<and> m r = (v, advance n r) \<and> m r' = (v, advance n r') \<and>
               settled v))"

named_theorems sound_intros "rules for sound reads"

lemma sound_readD:
  assumes "sound_read m" and "reader_ok r"
  obtains n v where "n \<le> length (rest r)" and "m r = (v, advance n r)"
    and "settled v"
  using assms unfolding sound_read_def by blast

lemma sound_ret [sound_intros]: "sound_read (ret x)"
  unfolding sound_read_def by (auto intro!: exI [of _ 0])

lemma sound_throw: "e \<noteq> TRILOGY_OK \<Longrightarrow> e \<noteq> TRILOGY_AGAIN \<Longrightarrow> sound_read (throw e)"
  unfolding sound_read_def by (auto intro!: exI [of _ 0])

lemmas sound_throws [sound_intros] =
  sound_throw [of TRILOGY_TRUNCATED_PACKET, simplified] sound_throw [of TRILOGY_NULL_VALUE, simplified]
  sound_throw [of TRILOGY_PROTOCOL_VIOLATION, simplified] sound_throw [of TRILOGY_UNKNOWN_TYPE, simplified]
  sound_throw [of TRILOGY_AUTH_PLUGIN_TOO_LONG, simplified]

lemma sound_checked_post:
  assumes m: "sound_read m" and Q: "\<And>r x r'. m r = (Inr x, r') \<Longrightarrow> Q x"
    and k: "\<And>x. Q x \<Longrightarrow> sound_read (k x)"
  shows "sound_read (checked m k)"
  unfolding sound_read_def
proof (intro allI impI, elim conjE)
  fix r r' assume ok: "reader_ok r" "reader_ok r'" and same: "rest r = rest r'"
  then obtain n v where n: "n \<le> length (rest r)" and v: "m r = (v, advance n r)" "m r' = (v, advance n r')"
      and fine: "settled v"
    using m unfolding sound_read_def by blast
  show "\<exists>n v. n \<le> length (rest r) \<and> checked m k r = (v, advance n r) \<and>
          checked m k r' = (v, advance n r') \<and> settled v"
  proof (cases v)
    case (Inl e)
    with n v fine show ?thesis by (auto simp: checked_apply)
  next
    case (Inr x)
    have "reader_ok (advance n r)" "reader_ok (advance n r')" "rest (advance n r) = rest (advance n r')"
      using ok same n by (simp_all add: reader_ok_advance rest_advance)
    then obtain n' v' where n': "n' \<le> length (rest (advance n r))"
        and v': "k x (advance n r) = (v', advance n' (advance n r))"
          "k x (advance n r') = (v', advance n' (advance n r'))"
        and fine': "settled v'"
      using k [OF Q] v(1) Inr unfolding sound_read_def by blast
    have "n + n' \<le> length (rest r)" using n' n ok by (simp add: rest_advance)
    with Inr v v' fine' show ?thesis
      by (intro exI [of _ "n + n'"] exI [of _ v']) (simp add: checked_apply advance_advance)
  qed
qed

lemma sound_checked [sound_intros]:
  "sound_read m \<Longrightarrow> (\<And>x. sound_read (k x)) \<Longrightarrow> sound_read (checked m k)"
  by (rule sound_checked_post [where Q = "\<lambda>_. True"]) simp_all

lemma sound_if [sound_intros]:
  "(c \<Longrightarrow> sound_read m) \<Longrightarrow> (\<not> c \<Longrightarrow> sound_read m') \<Longrightarrow> sound_read (if c then m else m')"
  by simp

lemma sound_case_option [sound_intros]:
  "(x = None \<Longrightarrow> sound_read m) \<Longrightarrow> (\<And>y. x = Some y \<Longrightarrow> sound_read (k y)) \<Longrightarrow>
   sound_read (case x of None \<Rightarrow> m | Some y \<Rightarrow> k y)"
  by (cases x) simp_all

lemma sound_fixed: "fixed_read m n f \<Longrightarrow> sound_read m"
  unfolding sound_read_def
proof (intro allI impI, elim conjE)
  fix r r' assume "fixed_read m n f" "reader_ok r" "reader_ok r'" "rest r = rest r'"
  then show "\<exists>n v. n \<le> length (rest r) \<and> m r = (v, advance n r) \<and> m r' = (v, advance n r') \<and>
               settled v"
    by (cases "n \<le> length (rest r')"; intro exI [of _ "if n \<le> length (rest r') then n else 0"])
      (simp_all add: fixed_readD)
qed

lemma sound_view:
  assumes "\<And>r. reader_ok r \<Longrightarrow> m r = (fst (f (rest r)), advance (snd (f (rest r))) r)"
    and "\<And>bs. snd (f bs) \<le> length bs" and "\<And>bs. settled (fst (f bs))"
  shows "sound_read m"
  unfolding sound_read_def using assms by (metis insertCI)

lemma sound_get_lenenc [sound_intros]: "sound_read trilogy_reader_get_lenenc"
proof (rule sound_view)
  let ?f = "\<lambda>bs. case bs of [] \<Rightarrow> (Inl (Rc TRILOGY_TRUNCATED_PACKET), 0)
     | b # bs \<Rightarrow>
         if b < 0xfb then (Inr (ucast b), 1)
         else if b = 0xfb then (Inl (Rc TRILOGY_NULL_VALUE), 1)
         else if b = 0xff then (Inl (Rc TRILOGY_PROTOCOL_VIOLATION), 1)
         else if length bs < lenenc_width b then (Inl (Rc TRILOGY_TRUNCATED_PACKET), 1)
         else (Inr (of_le_bytes (take (lenenc_width b) bs)), 1 + lenenc_width b)"
  show "reader_ok r \<Longrightarrow>
      trilogy_reader_get_lenenc r = (fst (?f (rest r)), advance (snd (?f (rest r))) r)" for r
    by (cases "rest r") (simp_all add: get_lenenc_view)
  show "snd (?f bs) \<le> length bs" for bs :: "u8 list"
    by (cases bs) auto
  show "settled (fst (?f bs))" for bs :: "u8 list"
    by (cases bs) auto
qed

lemma sound_get_string [sound_intros]: "sound_read trilogy_reader_get_string"
proof (rule sound_view)
  let ?f = "\<lambda>bs. case strlen bs of None \<Rightarrow> (Inl (Rc TRILOGY_TRUNCATED_PACKET), 0)
     | Some n \<Rightarrow> (Inr (take n bs), Suc n)"
  show "reader_ok r \<Longrightarrow>
      trilogy_reader_get_string r = (fst (?f (rest r)), advance (snd (?f (rest r))) r)" for r
    by (simp add: get_string_view split: option.splits)
  show "snd (?f bs) \<le> length bs" for bs :: "u8 list"
    by (auto split: option.splits dest: strlen_Some)
  show "settled (fst (?f bs))" for bs :: "u8 list"
    by (auto split: option.splits)
qed

lemma sound_get_eof_buffer [sound_intros]: "sound_read trilogy_reader_get_eof_buffer"
  by (rule sound_view [where f = "\<lambda>bs. (Inr bs, length bs)"]) (simp_all add: get_eof_buffer_view)

lemma sound_finish [sound_intros]: "sound_read trilogy_reader_finish"
  by (rule sound_view [where f = "\<lambda>bs. (if bs = [] then Inr () else Inl (Rc TRILOGY_EXTRA_DATA_IN_PACKET), 0)"])
    (simp_all add: finish_view)

lemmas sound_gets [sound_intros] =
  sound_fixed [OF get_uint8_fixed] sound_fixed [OF get_uint16_fixed] sound_fixed [OF get_uint24_fixed]
  sound_fixed [OF get_uint32_fixed] sound_fixed [OF get_uint64_fixed] sound_fixed [OF get_float_fixed]
  sound_fixed [OF get_double_fixed] sound_fixed [OF get_buffer_fixed] sound_fixed [OF copy_buffer_fixed]

text \<open>A step that looks at the reader only through the bytes that are left.\<close>

lemma sound_get_state:
  assumes "\<And>bs. sound_read (k' bs)" and "\<And>r. reader_ok r \<Longrightarrow> k r r = k' (rest r) r"
  shows "sound_read (checked get_state k)"
  unfolding sound_read_def
proof (intro allI impI, elim conjE)
  fix r r' assume ok: "reader_ok r" "reader_ok r'" and same: "rest r = rest r'"
  with assms(1) [of "rest r"] show "\<exists>n v. n \<le> length (rest r) \<and> checked get_state k r = (v, advance n r) \<and>
          checked get_state k r' = (v, advance n r') \<and> settled v"
    unfolding sound_read_def by (simp add: assms(2))
qed

lemma sound_get_lenenc_buffer [sound_intros]: "sound_read trilogy_reader_get_lenenc_buffer"
  unfolding trilogy_reader_get_lenenc_buffer_def
  by (rule sound_checked [OF sound_get_lenenc])
    (rule sound_get_state [where k' = "\<lambda>bs. if length bs < unat len then throw TRILOGY_TRUNCATED_PACKET
        else trilogy_reader_get_buffer len" for len],
     auto intro!: sound_intros simp: length_rest word_less_nat_alt)

lemma sound_eof:
  assumes "sound_read m" and "sound_read m'"
  shows "sound_read (checked get_state (\<lambda>r. if trilogy_reader_eof r then m else m'))"
  by (rule sound_get_state [where k' = "\<lambda>bs. if bs = [] then m else m'"])
    (auto intro: assms simp: eof_rest)

text \<open>
  A parser that is a sound read reads nothing outside the first \<open>len\<close> bytes of its object: its
  result is the same for any other object that begins with them.
\<close>

definition reads_only :: "(u8 list \<Rightarrow> size_t \<Rightarrow> stop + 'a) \<Rightarrow> bool" where
  "reads_only parse \<longleftrightarrow>
     (\<forall>buff buff' len. unat len \<le> length buff \<and> unat len \<le> length buff' \<and>
        take (unat len) buff = take (unat len) buff' \<longrightarrow>
        parse buff len = parse buff' len \<and> settled (parse buff len))"

lemma reads_onlyI:
  assumes "sound_read m" and "\<And>buff len. parse buff len = fst (m (TRILOGY_READER buff len))"
  shows "reads_only parse"
  unfolding reads_only_def
proof (intro allI impI, elim conjE)
  fix buff buff' :: "u8 list" and len :: size_t
  assume len: "unat len \<le> length buff" "unat len \<le> length buff'"
    and same: "take (unat len) buff = take (unat len) buff'"
  have "reader_ok (TRILOGY_READER buff len)" "reader_ok (TRILOGY_READER buff' len)"
    "rest (TRILOGY_READER buff len) = rest (TRILOGY_READER buff' len)"
    using len same by (simp_all add: reader_start)
  then obtain n v where "m (TRILOGY_READER buff len) = (v, advance n (TRILOGY_READER buff len))"
    "m (TRILOGY_READER buff' len) = (v, advance n (TRILOGY_READER buff' len))"
    "settled v"
    using assms(1) unfolding sound_read_def by blast
  then show "parse buff len = parse buff' len \<and> settled (parse buff len)"
    by (simp add: assms(2))
qed

section \<open>Decoding\<close>

text \<open>
  \<open>decodes m bs x\<close>: wherever the bytes that are left begin with \<open>bs\<close>, \<open>m\<close> yields \<open>x\<close> and
  steps over \<open>bs\<close>. \<open>parses m bs x\<close>: from a reader with exactly \<open>bs\<close> left, \<open>m\<close> yields \<open>x\<close>.
\<close>

definition decodes :: "(trilogy_reader, 'a) op \<Rightarrow> u8 list \<Rightarrow> 'a \<Rightarrow> bool" where
  "decodes m bs x \<longleftrightarrow>
     (\<forall>r ys. reader_ok r \<and> rest r = bs @ ys \<longrightarrow> m r = (Inr x, advance (length bs) r))"

definition parses :: "(trilogy_reader, 'a) op \<Rightarrow> u8 list \<Rightarrow> 'a \<Rightarrow> bool" where
  "parses m bs x \<longleftrightarrow> (\<forall>r. reader_ok r \<and> rest r = bs \<longrightarrow> fst (m r) = Inr x)"

named_theorems parses_intros "rules for decoding"

lemma decodesD:
  "decodes m bs x \<Longrightarrow> reader_ok r \<Longrightarrow> rest r = bs @ ys \<Longrightarrow> m r = (Inr x, advance (length bs) r)"
  by (auto simp: decodes_def)

lemma decodes_ret: "decodes (ret x) [] x"
  by (simp add: decodes_def)

lemma decodes_checked:
  assumes "decodes m bs x" and "decodes (k x) cs y"
  shows "decodes (checked m k) (bs @ cs) y"
  unfolding decodes_def
proof (intro allI impI, elim conjE)
  fix r ys assume ok: "reader_ok r" and left: "rest r = (bs @ cs) @ ys"
  have m: "m r = (Inr x, advance (length bs) r)"
    using decodesD [OF assms(1) ok] left by simp
  have "k x (advance (length bs) r) = (Inr y, advance (length cs) (advance (length bs) r))"
    using left ok by (intro decodesD [OF assms(2), where ys = ys]) (simp_all add: reader_ok_advance rest_advance)
  with m show "checked m k r = (Inr y, advance (length (bs @ cs)) r)"
    by (simp add: checked_Inr advance_advance)
qed

lemma parses_checked [parses_intros]:
  assumes "decodes m bs x" and "parses (k x) cs y"
  shows "parses (checked m k) (bs @ cs) y"
  unfolding parses_def
proof (intro allI impI, elim conjE)
  fix r assume ok: "reader_ok r" and left: "rest r = bs @ cs"
  have "m r = (Inr x, advance (length bs) r)"
    by (rule decodesD [OF assms(1) ok left])
  moreover have "reader_ok (advance (length bs) r)" "rest (advance (length bs) r) = cs"
    using ok left by (simp_all add: reader_ok_advance rest_advance)
  ultimately show "fst (checked m k r) = Inr y"
    using assms(2) by (simp add: checked_Inr parses_def)
qed

lemma decodes_parses: "decodes m bs x \<Longrightarrow> parses m bs x"
  unfolding parses_def decodes_def by (metis append_Nil2 fst_conv)

lemma decodes_fixed:
  "fixed_read m n f \<Longrightarrow> length bs = n \<Longrightarrow> decodes m bs (f bs)"
  by (auto simp: decodes_def fixed_readD)

lemma parses_eof_buffer:
  assumes "parses (k bs) [] y"
  shows "parses (checked trilogy_reader_get_eof_buffer k) bs y"
  using assms
  by (auto simp: parses_def checked_apply get_eof_buffer_view reader_ok_advance rest_advance)

lemma parses_finish: "parses (checked trilogy_reader_finish (\<lambda>_. ret y)) [] y"
  by (simp add: parses_def checked_apply finish_view)

lemma parses_start:
  assumes "parses m (take (unat len) buff) y" and "unat len \<le> length buff"
  shows "fst (m (TRILOGY_READER buff len)) = Inr y"
  using assms by (simp add: parses_def reader_start)

lemma parses_eof:
  assumes "parses (if bs = [] then m else m') bs y"
  shows "parses (checked get_state (\<lambda>r. if trilogy_reader_eof r then m else m')) bs y"
  using assms by (auto simp: parses_def eof_rest)

text \<open>
  The contract of the typed reads: what the writer \<open>put\<close> of the builder puts on the wire for
  a valid value, the read \<open>get\<close> takes off it; and cut short anywhere, the read reports a
  truncated packet. Each pair of \<^verbatim>\<open>builder.c\<close> and \<^verbatim>\<open>reader.c\<close> is an instance.
\<close>

locale decoder =
  fixes get :: "(trilogy_reader, 'a) op" and put :: "'a \<Rightarrow> u8 list" and valid :: "'a \<Rightarrow> bool"
  assumes decode_law: "valid x \<Longrightarrow> decodes get (put x) x"
    and short_law: "valid x \<Longrightarrow> reader_ok r \<Longrightarrow> n < length (put x) \<Longrightarrow> rest r = take n (put x) \<Longrightarrow>
          fst (get r) = Inl (Rc TRILOGY_TRUNCATED_PACKET)"
begin

lemma then_parses:
  "valid x \<Longrightarrow> parses (k x) cs y \<Longrightarrow> parses (checked get k) (put x @ cs) y"
  by (rule parses_checked [OF decode_law])

lemma put_inject_valid:
  assumes "valid x" and "valid y" and "put x @ xs = put y @ ys" and "unat (len :: size_t) = length (put x @ xs)"
  shows "x = y \<and> xs = ys"
proof -
  let ?r = "TRILOGY_READER (put x @ xs) len"
  have r: "reader_ok ?r" "rest ?r = put x @ xs" using assms(4) by (simp_all add: reader_start)
  then have "get ?r = (Inr x, advance (length (put x)) ?r)"
    using decode_law [OF assms(1)] by (auto intro: decodesD)
  moreover have "get ?r = (Inr y, advance (length (put y)) ?r)"
    using decode_law [OF assms(2)] r assms(3) by (auto intro: decodesD)
  ultimately have "x = y" by simp
  with assms(3) show ?thesis by simp
qed

lemma truncated:
  assumes "valid x" and "n < length (put x)" and "unat len = n" and "n \<le> length buff"
    and "take n buff = take n (put x)"
  shows "fst (checked get k (TRILOGY_READER buff len)) = Inl (Rc TRILOGY_TRUNCATED_PACKET)"
proof -
  have "fst (get (TRILOGY_READER buff len)) = Inl (Rc TRILOGY_TRUNCATED_PACKET)"
    using assms by (intro short_law [of x _ n]) (simp_all add: reader_start)
  then show ?thesis by (rule checked_fst_Inl)
qed

end

lemma decoder_fixed:
  assumes "fixed_read get n f" and "\<And>x. valid x \<Longrightarrow> length (put x) = n" and "\<And>x. valid x \<Longrightarrow> f (put x) = x"
  shows "decoder get put valid"
proof (rule decoder.intro)
  show "decodes get (put x) x" if "valid x" for x
    using decodes_fixed [OF assms(1) assms(2) [OF that]] assms(3) [OF that] by simp
  show "fst (get r) = Inl (Rc TRILOGY_TRUNCATED_PACKET)"
    if "valid x" "reader_ok r" "k < length (put x)" "rest r = take k (put x)" for x r k
    using that assms(2) [OF that(1)] by (simp add: fixed_readD [OF assms(1)])
qed

lemma take_bit_small: "v < 0x1000000 \<Longrightarrow> take_bit 24 v = v" for v :: u32
  by (simp add: word_unat_eq_iff unsigned_take_bit_eq word_less_nat_alt take_bit_nat_eq_self)

interpretation uint8: decoder trilogy_reader_get_uint8 "\<lambda>v. [v]" "\<lambda>_. True"
  by (rule decoder_fixed [OF get_uint8_fixed]) simp_all

interpretation uint16: decoder trilogy_reader_get_uint16 "le_bytes 2" "\<lambda>_. True"
  by (rule decoder_fixed [OF get_uint16_fixed]) (simp_all add: of_le_bytes_full)

interpretation uint24: decoder trilogy_reader_get_uint24 "le_bytes 3" "\<lambda>v. v < 0x1000000"
  by (rule decoder_fixed [OF get_uint24_fixed]) (simp_all add: of_le_bytes_le_bytes take_bit_small)

interpretation uint32: decoder trilogy_reader_get_uint32 "le_bytes 4" "\<lambda>_. True"
  by (rule decoder_fixed [OF get_uint32_fixed]) (simp_all add: of_le_bytes_full)

interpretation uint64: decoder trilogy_reader_get_uint64 "le_bytes 8" "\<lambda>_. True"
  by (rule decoder_fixed [OF get_uint64_fixed]) (simp_all add: of_le_bytes_full)

interpretation float: decoder trilogy_reader_get_float "le_bytes 4" "\<lambda>_. True"
  by (rule decoder_fixed [OF get_float_fixed]) (simp_all add: of_le_bytes_full)

interpretation double: decoder trilogy_reader_get_double "le_bytes 8" "\<lambda>_. True"
  by (rule decoder_fixed [OF get_double_fixed]) (simp_all add: of_le_bytes_full)

lemma small_leader:
  fixes v :: u64
  assumes "v < 251"
  shows "(ucast v :: u8) < 0xfb" and "ucast (ucast v :: u8) = v"
proof -
  have "unat v < 251" using assms by (simp add: word_less_nat_alt)
  then have "unat (ucast v :: u8) = unat v"
    by (intro unat_ucast_small) simp
  then show "(ucast v :: u8) < 0xfb" and "ucast (ucast v :: u8) = v"
    using \<open>unat v < 251\<close> by (simp_all add: word_less_nat_alt word_unat_eq_iff unat_ucast_small)
qed

lemma take_bit_bound: "v \<le> of_nat (2 ^ n - 1) \<Longrightarrow> n < 64 \<Longrightarrow> take_bit n v = v" for v :: u64
proof -
  assume v: "v \<le> of_nat (2 ^ n - 1)" and n: "n < 64"
  have "(2::nat) ^ n < 18446744073709551616" using power_strict_increasing [of n 64 "2::nat"] n by simp
  moreover have "(0::nat) < 2 ^ n" by simp
  ultimately have "unat (of_nat (2 ^ n - 1) :: u64) = 2 ^ n - 1"
    by (intro unat_word_of_nat_size_t) linarith
  then have "unat v < 2 ^ n"
    using v \<open>(0::nat) < 2 ^ n\<close> unfolding word_le_nat_alt by linarith
  then show ?thesis
    by (simp add: word_unat_eq_iff unsigned_take_bit_eq take_bit_nat_eq_self)
qed

lemma lenenc_bytes_cases:
  fixes v :: u64
  obtains "lenenc_bytes v = [ucast v]" "(ucast v :: u8) < 0xfb" "ucast (ucast v :: u8) = v"
  | b where "lenenc_bytes v = b # le_bytes (lenenc_width b) v" "b \<noteq> 0xfb" "b \<noteq> 0xff" "\<not> b < 0xfb"
      "of_le_bytes (le_bytes (lenenc_width b) v) = v" "0 < lenenc_width b"
proof -
  consider "v < 251" | "\<not> v < 251" "v \<le> 0xffff" | "\<not> v < 251" "\<not> v \<le> 0xffff" "v \<le> 0xffffff"
    | "\<not> v < 251" "\<not> v \<le> 0xffff" "\<not> v \<le> 0xffffff"
    by blast
  then show ?thesis
  proof cases
    case 1
    then show ?thesis using small_leader [OF 1] by (intro that(1)) (simp_all add: lenenc_bytes_def)
  next
    case 2
    then show ?thesis using take_bit_bound [of v 16]
      by (intro that(2) [where b = "0xfc"]) (simp_all add: lenenc_bytes_def lenenc_width_def of_le_bytes_le_bytes)
  next
    case 3
    then show ?thesis using take_bit_bound [of v 24]
      by (intro that(2) [where b = "0xfd"]) (simp_all add: lenenc_bytes_def lenenc_width_def of_le_bytes_le_bytes)
  next
    case 4
    then show ?thesis
      by (intro that(2) [where b = "0xfe"]) (simp_all add: lenenc_bytes_def lenenc_width_def of_le_bytes_full)
  qed
qed

interpretation lenenc: decoder trilogy_reader_get_lenenc lenenc_bytes "\<lambda>_. True"
proof (rule decoder.intro)
  fix v :: u64
  show "decodes trilogy_reader_get_lenenc (lenenc_bytes v) v"
    by (rule lenenc_bytes_cases [of v]) (auto simp: decodes_def get_lenenc_view)
next
  fix v :: u64 and r n
  assume "reader_ok r" and "n < length (lenenc_bytes v)" and "rest r = take n (lenenc_bytes v)"
  then show "fst (trilogy_reader_get_lenenc r) = Inl (Rc TRILOGY_TRUNCATED_PACKET)"
    by - (cases n; rule lenenc_bytes_cases [of v]; auto simp: get_lenenc_view)
qed

lemma get_lenenc_buffer_at:
  assumes "reader_ok r" and "trilogy_reader_get_lenenc r = (Inr len, advance k r)" and "k \<le> length (rest r)"
  shows "trilogy_reader_get_lenenc_buffer r =
    (if unat len \<le> length (rest r) - k
     then (Inr (take (unat len) (drop k (rest r))), advance (k + unat len) r)
     else (Inl (Rc TRILOGY_TRUNCATED_PACKET), advance k r))"
proof -
  have ok: "reader_ok (advance k r)" and left: "rest (advance k r) = drop k (rest r)"
    using assms by (simp_all add: reader_ok_advance rest_advance)
  have "rd_len r - rd_pos (advance k r) < len \<longleftrightarrow> length (rest r) - k < unat len"
    using length_rest [OF ok] left by (simp add: word_less_nat_alt)
  then show ?thesis
    using fixed_readD [OF get_buffer_fixed ok, of len] assms(2) left
    by (auto simp: trilogy_reader_get_lenenc_buffer_def checked_Inr advance_advance)
qed

interpretation lenenc_buffer: decoder trilogy_reader_get_lenenc_buffer lenenc_string
    "\<lambda>bs. length bs < 2 ^ 64"
proof (rule decoder.intro)
  fix bs :: "u8 list"
  assume "length bs < 2 ^ 64"
  then have len: "unat (word_of_nat (length bs) :: u64) = length bs"
    by (intro unat_word_of_nat_size_t) simp
  show "decodes trilogy_reader_get_lenenc_buffer (lenenc_string bs) bs"
    unfolding decodes_def
  proof (intro allI impI, elim conjE)
    fix r ys assume ok: "reader_ok r" and left: "rest r = lenenc_string bs @ ys"
    have "trilogy_reader_get_lenenc r =
        (Inr (word_of_nat (length bs)), advance (length (lenenc_bytes (word_of_nat (length bs)))) r)"
      using left by (intro decodesD [OF lenenc.decode_law ok]) (simp_all add: lenenc_string_def)
    from get_lenenc_buffer_at [OF ok this] left len
    show "trilogy_reader_get_lenenc_buffer r = (Inr bs, advance (length (lenenc_string bs)) r)"
      by (simp add: lenenc_string_def)
  qed
next
  fix bs :: "u8 list" and r n
  assume "length bs < 2 ^ 64" and ok: "reader_ok r" and n: "n < length (lenenc_string bs)"
    and left: "rest r = take n (lenenc_string bs)"
  then have len: "unat (word_of_nat (length bs) :: u64) = length bs"
    by (intro unat_word_of_nat_size_t) simp
  let ?h = "lenenc_bytes (word_of_nat (length bs))"
  show "fst (trilogy_reader_get_lenenc_buffer r) = Inl (Rc TRILOGY_TRUNCATED_PACKET)"
  proof (cases "n < length ?h")
    case True
    then have "fst (trilogy_reader_get_lenenc r) = Inl (Rc TRILOGY_TRUNCATED_PACKET)"
      using left ok by (intro lenenc.short_law [where x = "word_of_nat (length bs)" and n = n]) (simp_all add: lenenc_string_def)
    then show ?thesis
      unfolding trilogy_reader_get_lenenc_buffer_def by (rule checked_fst_Inl)
  next
    case False
    then have "rest r = ?h @ take (n - length ?h) bs" using left by (simp add: lenenc_string_def)
    moreover have "trilogy_reader_get_lenenc r = (Inr (word_of_nat (length bs)), advance (length ?h) r)"
      using calculation by (intro decodesD [OF lenenc.decode_law ok]) simp_all
    ultimately show ?thesis
      using get_lenenc_buffer_at [OF ok, of "word_of_nat (length bs)" "length ?h"] len n False
      by (auto simp: lenenc_string_def)
  qed
qed

interpretation string: decoder trilogy_reader_get_string "\<lambda>bs. bs @ [0]" "\<lambda>bs. 0 \<notin> set bs"
proof (rule decoder.intro)
  fix bs :: "u8 list" assume "0 \<notin> set bs"
  then show "decodes trilogy_reader_get_string (bs @ [0]) bs"
    by (auto simp: decodes_def get_string_view memchr_append)
next
  fix bs :: "u8 list" and r n
  assume "0 \<notin> set bs" and "reader_ok r" and "n < length (bs @ [0])" and "rest r = take n (bs @ [0])"
  then have "strlen (rest r) = None" by (auto simp: memchr_None dest: in_set_takeD)
  with \<open>reader_ok r\<close> show "fst (trilogy_reader_get_string r) = Inl (Rc TRILOGY_TRUNCATED_PACKET)"
    by (simp add: get_string_view)
qed

section \<open>Progress\<close>

text \<open>
  A successful read moves the position forwards and not past the length, whatever the object
  is. This is what loops over a packet terminate by; it does not assume \<open>reader_ok\<close>.
\<close>

definition forward :: "(trilogy_reader, 'a) op \<Rightarrow> bool" where
  "forward m \<longleftrightarrow>
     (\<forall>r x r'. rd_pos r \<le> rd_len r \<and> m r = (Inr x, r') \<longrightarrow>
        rd_len r' = rd_len r \<and> rd_pos r \<le> rd_pos r' \<and> rd_pos r' \<le> rd_len r')"

lemma forwardD:
  assumes "forward m" and "rd_pos r \<le> rd_len r" and "m r = (Inr x, r')"
  shows "rd_len r' = rd_len r" and "rd_pos r \<le> rd_pos r'" and "rd_pos r' \<le> rd_len r'"
  using assms unfolding forward_def by blast+

lemma forward_ret: "forward (ret x)"
  by (simp add: forward_def)

lemma forward_throw: "forward (throw e)"
  by (simp add: forward_def)

lemma forward_checked:
  assumes "forward m" and "\<And>x. forward (k x)"
  shows "forward (checked m k)"
  unfolding forward_def
proof (intro allI impI, elim conjE)
  fix r y t assume le: "rd_pos r \<le> rd_len r" and "checked m k r = (Inr y, t)"
  then obtain x s where m: "m r = (Inr x, s)" and k: "k x s = (Inr y, t)"
    by (auto simp: checked_eq_Inr)
  note 1 = forwardD [OF assms(1) le m] and 2 = forwardD [OF assms(2) _ k]
  show "rd_len t = rd_len r \<and> rd_pos r \<le> rd_pos t \<and> rd_pos t \<le> rd_len t"
    using 1 2 by auto
qed

text \<open>A read that, when it succeeds, has moved by \<open>n\<close>.\<close>

definition moves :: "(trilogy_reader, 'a) op \<Rightarrow> nat \<Rightarrow> bool" where
  "moves m n \<longleftrightarrow>
     (\<forall>r x r'. m r = (Inr x, r') \<longrightarrow> r' = r\<lparr>rd_pos := rd_pos r + word_of_nat n\<rparr>)"

lemma moves_next_uint8: "moves next_uint8 (Suc 0)"
  by (auto simp: moves_def next_uint8_def split: if_splits)

lemma moves_slice: "moves (slice w) (unat w)"
  by (auto simp: moves_def slice_def split: if_splits)

lemma moves_ret: "moves (ret x) 0"
  by (auto simp: moves_def)

lemma moves_then:
  assumes "\<And>x. moves (k x) n"
  shows "moves (checked next_uint8 k) (Suc n)"
  unfolding moves_def
proof (intro allI impI)
  fix r y t assume "checked next_uint8 k r = (Inr y, t)"
  then obtain x s where "next_uint8 r = (Inr x, s)" and "k x s = (Inr y, t)"
    by (auto simp: checked_eq_Inr)
  then have "s = r\<lparr>rd_pos := rd_pos r + 1\<rparr>" and "t = s\<lparr>rd_pos := rd_pos s + word_of_nat n\<rparr>"
    using moves_next_uint8 assms [of x] unfolding moves_def by auto
  then show "t = r\<lparr>rd_pos := rd_pos r + word_of_nat (Suc n)\<rparr>" by simp
qed

lemma word_step:
  fixes p w l :: size_t
  assumes "p \<le> l" and "w \<le> l - p"
  shows "p \<le> p + w" and "p + w \<le> l"
proof -
  have "unat p + unat w \<le> unat l"
    using assms by (simp add: word_le_nat_alt unat_diff_size_t)
  moreover from this have "unat (p + w) = unat p + unat w"
    using unat_size_t_lt [of l] by (intro unat_add_size_t) linarith
  ultimately show "p \<le> p + w" and "p + w \<le> l" by (simp_all add: word_le_nat_alt)
qed

lemma forward_moves:
  assumes "moves (k ()) n" and "word_of_nat n = w"
  shows "forward (checked (check_bytes w) k)"
  unfolding forward_def
proof (intro allI impI, elim conjE)
  fix r y t assume le: "rd_pos r \<le> rd_len r" and "checked (check_bytes w) k r = (Inr y, t)"
  then have "w \<le> rd_len r - rd_pos r" and "k () r = (Inr y, t)"
    by (auto simp: checked_eq_Inr check_bytes_def not_less split: if_splits)
  moreover from this have "t = r\<lparr>rd_pos := rd_pos r + w\<rparr>"
    using assms unfolding moves_def by auto
  ultimately show "rd_len t = rd_len r \<and> rd_pos r \<le> rd_pos t \<and> rd_pos t \<le> rd_len t"
    using word_step [OF le] by simp
qed

lemma forward_get_state:
  assumes "\<And>r. forward (k r)"
  shows "forward (checked get_state k)"
  unfolding forward_def
proof (intro allI impI, elim conjE)
  fix r x r' assume le: "rd_pos r \<le> rd_len r" and "checked get_state k r = (Inr x, r')"
  then have k: "k r r = (Inr x, r')" by (simp add: checked_def)
  show "rd_len r' = rd_len r \<and> rd_pos r \<le> rd_pos r' \<and> rd_pos r' \<le> rd_len r'"
    using forwardD [OF assms le k] by (intro conjI)
qed

lemma forward_uint16: "forward trilogy_reader_get_uint16"
  unfolding trilogy_reader_get_uint16_def
  by (rule forward_moves, (rule moves_then moves_ret)+, simp)

lemma forward_uint24: "forward trilogy_reader_get_uint24"
  unfolding trilogy_reader_get_uint24_def
  by (rule forward_moves, (rule moves_then moves_ret)+, simp)

lemma forward_uint64: "forward trilogy_reader_get_uint64"
  unfolding trilogy_reader_get_uint64_def
  by (rule forward_moves, (rule moves_then moves_ret)+, simp)

lemma forward_uint8: "forward trilogy_reader_get_uint8"
  unfolding trilogy_reader_get_uint8_def by (rule forward_moves, rule moves_next_uint8, simp)

lemma forward_lenenc: "forward trilogy_reader_get_lenenc"
proof -
  let ?k = "\<lambda>leader :: u8. if leader < 0xfb then ret (ucast leader)
     else if leader = 0xfb then throw TRILOGY_NULL_VALUE
     else if leader = 0xfc then checked trilogy_reader_get_uint16 (\<lambda>u16. ret (ucast u16))
     else if leader = 0xfd then checked trilogy_reader_get_uint24 (\<lambda>u24. ret (ucast u24))
     else if leader = 0xfe then trilogy_reader_get_uint64
     else throw TRILOGY_PROTOCOL_VIOLATION"
  have "trilogy_reader_get_lenenc = checked trilogy_reader_get_uint8 ?k"
    by (simp add: trilogy_reader_get_lenenc_def trilogy_reader_get_uint8_def checked_assoc)
  moreover have "forward (?k leader)" for leader
    by (simp add: forward_ret forward_throw forward_checked forward_uint16 forward_uint24 forward_uint64)
  ultimately show ?thesis
    using forward_checked [OF forward_uint8, of ?k] by metis
qed

lemma forward_get_buffer: "forward (trilogy_reader_get_buffer len)"
  unfolding trilogy_reader_get_buffer_def by (rule forward_moves, rule moves_slice, simp)

lemma forward_get_lenenc_buffer: "forward trilogy_reader_get_lenenc_buffer"
  unfolding trilogy_reader_get_lenenc_buffer_def
  by (intro forward_checked [OF forward_lenenc] forward_get_state)
    (simp add: forward_throw forward_get_buffer)

lemma get_uint8_moves:
  assumes "rd_pos r < rd_len r" and "trilogy_reader_get_uint8 r = (Inr b, r')"
  shows "rd_len r' = rd_len r" and "rd_pos r < rd_pos r'" and "rd_pos r' \<le> rd_len r'"
proof -
  have r': "r' = r\<lparr>rd_pos := rd_pos r + 1\<rparr>"
    using assms(2)
    by (auto simp: trilogy_reader_get_uint8_def checked_eq_Inr check_bytes_def next_uint8_def
        split: if_splits)
  have "unat (rd_pos r) < unat (rd_len r)" using assms(1) by (simp add: word_less_nat_alt)
  moreover from this have "unat (rd_pos r + 1) = unat (rd_pos r) + 1"
    using unat_size_t_lt [of "rd_len r"] by (subst unat_add_size_t) simp_all
  ultimately show "rd_len r' = rd_len r" "rd_pos r < rd_pos r'" "rd_pos r' \<le> rd_len r'"
    unfolding r' by (simp_all add: word_less_nat_alt word_le_nat_alt)
qed

end
