(* ===== verification/Protocol_Parse.thy ===== *)
theory Protocol_Parse
  imports Reader Protocol_Types
begin

text \<open>
  The parsers of \<^verbatim>\<open>src/protocol.c\<close>. A parser runs on a reader over the packet; its value on
  \<^verbatim>\<open>TRILOGY_OK\<close> is the structure it fills. The parsers of the handshake, of the request to
  switch the authentication, of rows and of statement rows leave parts of that structure as
  they were: they take it as an argument. What a parser that fails has already stored is not
  modelled; no caller reads it.
\<close>

section \<open>The packets of the text protocol\<close>

text \<open>
  The session state changes: a list of typed entries. The last GTID entry counts, and one
  longer than \<^verbatim>\<open>TRILOGY_MAX_LAST_GTID_LEN\<close> is a violation.
\<close>

definition gtid_entry :: "(trilogy_reader, u8 list) op" where
  "gtid_entry =
     checked trilogy_reader_get_uint8 (\<lambda>_.
     checked trilogy_reader_get_lenenc_buffer (\<lambda>last_gtid.
     if length last_gtid > TRILOGY_MAX_LAST_GTID_LEN then throw TRILOGY_PROTOCOL_VIOLATION
     else ret last_gtid))"

text \<open>A reader of its own over \<open>bytes\<close>, whose state does not outlive the operation.\<close>

definition with_reader :: "u8 list \<Rightarrow> (trilogy_reader, 'a) op \<Rightarrow> ('s, 'a) op" where
  "with_reader bytes m = (\<lambda>s. (fst (m (TRILOGY_READER bytes (word_of_nat (length bytes)))), s))"

definition state_entry :: "u8 list \<Rightarrow> (trilogy_reader, u8 list) op" where
  "state_entry last_gtid =
     checked trilogy_reader_get_uint8 (\<lambda>type.
     checked trilogy_reader_get_lenenc_buffer (\<lambda>state_info.
     if type = session_track_code TRILOGY_SESSION_TRACK_GTIDS then with_reader state_info gtid_entry
     else ret last_gtid))"

lemma state_entry_moves:
  assumes "rd_pos r < rd_len r" and "state_entry g r = (Inr x, r')"
  shows "rd_len r' = rd_len r" and "rd_pos r < rd_pos r'" and "rd_pos r' \<le> rd_len r'"
proof -
  obtain ty info r1 where 1: "trilogy_reader_get_uint8 r = (Inr ty, r1)"
    and 2: "trilogy_reader_get_lenenc_buffer r1 = (Inr info, r')"
    using assms(2) by (auto simp: state_entry_def checked_eq_Inr with_reader_def split: if_splits)
  note m = get_uint8_moves [OF assms(1) 1] and f = forwardD [OF forward_get_lenenc_buffer _ 2]
  show "rd_len r' = rd_len r" "rd_pos r < rd_pos r'" "rd_pos r' \<le> rd_len r'"
    using m f by auto
qed

lemma state_entry_measure:
  assumes "\<not> trilogy_reader_eof r" and "state_entry g r = (Inr g', r')"
  shows "unat (rd_len r' - rd_pos r') < unat (rd_len r - rd_pos r)"
proof -
  have lt: "rd_pos r < rd_len r" using assms(1) by (simp add: trilogy_reader_eof_def)
  note m = state_entry_moves [OF lt assms(2)]
  have "unat (rd_len r' - rd_pos r') = unat (rd_len r) - unat (rd_pos r')"
    using m by (simp add: unat_diff_size_t)
  moreover have "unat (rd_len r - rd_pos r) = unat (rd_len r) - unat (rd_pos r)"
    using lt by (simp add: unat_diff_size_t)
  ultimately show ?thesis
    using m by (simp add: word_less_nat_alt word_le_nat_alt)
qed

function state_changes_loop :: "u8 list \<Rightarrow> (trilogy_reader, u8 list) op" where
  "state_changes_loop last_gtid r =
     (if \<not> trilogy_reader_eof r
      then (case state_entry last_gtid r of (v, r') \<Rightarrow>
              (case v of Inl e \<Rightarrow> (Inl e, r') | Inr last_gtid' \<Rightarrow> state_changes_loop last_gtid' r'))
      else (Inr last_gtid, r))"
  by pat_completeness auto
termination
  by (relation "measure (\<lambda>(g, r). unat (rd_len r - rd_pos r))")
    (auto dest!: sym [of _ "state_entry _ _"] intro: state_entry_measure)

declare state_changes_loop.simps [simp del]

definition ok_session ::
  "u16 \<Rightarrow> trilogy_ok_packet \<Rightarrow> (trilogy_reader, trilogy_ok_packet) op" where
  "ok_session status_flags p =
     checked trilogy_reader_get_lenenc_buffer (\<lambda>session_status.
     if status_flags AND server_status_flag TRILOGY_SERVER_STATUS_SESSION_STATE_CHANGED \<noteq> 0 then
       checked trilogy_reader_get_lenenc_buffer (\<lambda>changes.
       checked (with_reader changes (state_changes_loop [])) (\<lambda>last_gtid.
       ret (p\<lparr>ok_session_status := Some session_status, ok_session_state_changes := Some changes,
              ok_last_gtid := last_gtid\<rparr>)))
     else ret (p\<lparr>ok_session_status := Some session_status\<rparr>))"

definition ok_fields :: "u32 \<Rightarrow> (trilogy_reader, u16 \<times> u16 \<times> u16) op" where
  "ok_fields capabilities =
     (if has_capability capabilities TRILOGY_CAPABILITIES_PROTOCOL_41 then
        checked trilogy_reader_get_uint16 (\<lambda>status_flags.
        checked trilogy_reader_get_uint16 (\<lambda>warning_count.
        ret (status_flags, warning_count, 0)))
      else if has_capability capabilities TRILOGY_CAPABILITIES_TRANSACTIONS then
        checked trilogy_reader_get_uint16 (\<lambda>txn_status_flags. ret (0, 0, txn_status_flags))
      else ret (0, 0, 0))"

definition parse_ok_packet :: "u32 \<Rightarrow> (trilogy_reader, trilogy_ok_packet) op" where
  "parse_ok_packet capabilities =
     checked trilogy_reader_get_uint8 (\<lambda>_.
     checked trilogy_reader_get_lenenc (\<lambda>affected_rows.
     checked trilogy_reader_get_lenenc (\<lambda>last_insert_id.
     checked (ok_fields capabilities) (\<lambda>(status_flags, warning_count, txn_status_flags).
     let p = \<lparr>ok_affected_rows = affected_rows, ok_last_insert_id = last_insert_id,
              ok_status_flags = status_flags, ok_warning_count = warning_count,
              ok_txn_status_flags = txn_status_flags, ok_session_status = None,
              ok_session_state_changes = None, ok_info = None, ok_last_gtid = []\<rparr>
     in checked
          (checked get_state (\<lambda>r.
           if has_capability capabilities TRILOGY_CAPABILITIES_SESSION_TRACK \<and> \<not> trilogy_reader_eof r
           then ok_session status_flags p
           else checked trilogy_reader_get_eof_buffer (\<lambda>info. ret (p\<lparr>ok_info := Some info\<rparr>)))) (\<lambda>p.
        checked trilogy_reader_finish (\<lambda>_. ret p))))))"

definition trilogy_parse_ok_packet :: "u8 list \<Rightarrow> size_t \<Rightarrow> u32 \<Rightarrow> stop + trilogy_ok_packet" where
  "trilogy_parse_ok_packet buff len capabilities =
     fst (parse_ok_packet capabilities (TRILOGY_READER buff len))"

definition parse_eof_packet :: "u32 \<Rightarrow> (trilogy_reader, trilogy_eof_packet) op" where
  "parse_eof_packet capabilities =
     checked trilogy_reader_get_uint8 (\<lambda>_.
     checked
       (if has_capability capabilities TRILOGY_CAPABILITIES_PROTOCOL_41 then
          checked trilogy_reader_get_uint16 (\<lambda>warning_count.
          checked trilogy_reader_get_uint16 (\<lambda>status_flags.
          ret \<lparr>eof_warning_count = warning_count, eof_status_flags = status_flags\<rparr>))
        else ret \<lparr>eof_warning_count = 0, eof_status_flags = 0\<rparr>) (\<lambda>p.
     checked trilogy_reader_finish (\<lambda>_. ret p)))"

definition trilogy_parse_eof_packet :: "u8 list \<Rightarrow> size_t \<Rightarrow> u32 \<Rightarrow> stop + trilogy_eof_packet" where
  "trilogy_parse_eof_packet buff len capabilities =
     fst (parse_eof_packet capabilities (TRILOGY_READER buff len))"

definition parse_err_packet :: "u32 \<Rightarrow> (trilogy_reader, trilogy_err_packet) op" where
  "parse_err_packet capabilities =
     checked trilogy_reader_get_uint8 (\<lambda>_.
     checked trilogy_reader_get_uint16 (\<lambda>error_code.
     checked
       (if has_capability capabilities TRILOGY_CAPABILITIES_PROTOCOL_41 then
          checked trilogy_reader_get_uint8 (\<lambda>sql_state_marker.
          checked (trilogy_reader_copy_buffer 5) (\<lambda>sql_state.
          ret (sql_state_marker, sql_state)))
        else ret (0, [0, 0, 0, 0, 0])) (\<lambda>(sql_state_marker, sql_state).
     checked trilogy_reader_get_eof_buffer (\<lambda>error_message.
     checked trilogy_reader_finish (\<lambda>_.
     ret \<lparr>err_error_code = error_code, err_sql_state_marker = sql_state_marker,
          err_sql_state = sql_state, err_error_message = error_message\<rparr>)))))"

definition trilogy_parse_err_packet :: "u8 list \<Rightarrow> size_t \<Rightarrow> u32 \<Rightarrow> stop + trilogy_err_packet" where
  "trilogy_parse_err_packet buff len capabilities =
     fst (parse_err_packet capabilities (TRILOGY_READER buff len))"

section \<open>The packets of the connection phase\<close>

text \<open>\<^verbatim>\<open>sizeof\<close> of the arrays of the two structures.\<close>

abbreviation (input) auth_plugin_size :: nat where "auth_plugin_size \<equiv> 32"
abbreviation (input) scramble_size :: nat where "scramble_size \<equiv> 21"
abbreviation (input) server_version_size :: nat where "server_version_size \<equiv> 32"

definition parse_auth_switch_request_packet ::
  "u32 \<Rightarrow> trilogy_auth_switch_request_packet \<Rightarrow> (trilogy_reader, trilogy_auth_switch_request_packet) op" where
  "parse_auth_switch_request_packet capabilities out =
     checked trilogy_reader_get_uint8 (\<lambda>_.
     if has_capability capabilities TRILOGY_CAPABILITIES_PLUGIN_AUTH then
       checked trilogy_reader_get_string (\<lambda>auth_plugin.
       if length auth_plugin > auth_plugin_size - 1 then throw TRILOGY_AUTH_PLUGIN_TOO_LONG
       else
         checked trilogy_reader_get_eof_buffer (\<lambda>auth_data.
         checked trilogy_reader_finish (\<lambda>_.
         ret (out\<lparr>switch_auth_plugin := blit 0 (auth_plugin @ [0]) (switch_auth_plugin out),
                  switch_scramble := blit 0 (take 21 auth_data) (switch_scramble out)\<rparr>))))
     else throw TRILOGY_PROTOCOL_VIOLATION)"

definition trilogy_parse_auth_switch_request_packet ::
  "u8 list \<Rightarrow> size_t \<Rightarrow> u32 \<Rightarrow> trilogy_auth_switch_request_packet \<Rightarrow>
   stop + trilogy_auth_switch_request_packet" where
  "trilogy_parse_auth_switch_request_packet buff len capabilities out =
     fst (parse_auth_switch_request_packet capabilities out (TRILOGY_READER buff len))"

text \<open>
  The handshake: \<^verbatim>\<open>scramble\<close> is filled in two steps, and \<^verbatim>\<open>auth_plugin\<close> only with
  \<^verbatim>\<open>TRILOGY_CAPABILITIES_PLUGIN_AUTH\<close>. \<open>handshake_tail\<close> is the code from the reserved bytes on.
\<close>

definition handshake_tail ::
  "u8 \<Rightarrow> trilogy_handshake \<Rightarrow> (trilogy_reader, trilogy_handshake) op" where
  "handshake_tail auth_data_len p =
     checked (trilogy_reader_get_buffer 10) (\<lambda>_.
     if has_capability (hs_capabilities p) TRILOGY_CAPABILITIES_SECURE_CONNECTION \<and> auth_data_len > 8 then
       if SCRAMBLE_LEN + 1 \<noteq> unat auth_data_len then throw TRILOGY_PROTOCOL_VIOLATION
       else
         checked (trilogy_reader_copy_buffer (ucast (auth_data_len - 8))) (\<lambda>bytes.
         let p = p\<lparr>hs_scramble := blit 8 bytes (hs_scramble p)\<rparr>
         in checked
              (if has_capability (hs_capabilities p) TRILOGY_CAPABILITIES_PLUGIN_AUTH then
                 checked trilogy_reader_get_string (\<lambda>auth_plugin.
                 if length auth_plugin > auth_plugin_size - 1 then throw TRILOGY_AUTH_PLUGIN_TOO_LONG
                 else ret (p\<lparr>hs_auth_plugin := blit 0 (auth_plugin @ [0]) (hs_auth_plugin p)\<rparr>))
               else ret p) (\<lambda>p.
            checked trilogy_reader_finish (\<lambda>_. ret p)))
     else throw TRILOGY_PROTOCOL_VIOLATION)"

definition parse_handshake_packet ::
  "trilogy_handshake \<Rightarrow> (trilogy_reader, trilogy_handshake) op" where
  "parse_handshake_packet out =
     checked trilogy_reader_get_uint8 (\<lambda>proto_version.
     if proto_version \<noteq> 0xa then throw TRILOGY_PROTOCOL_VIOLATION
     else
     checked trilogy_reader_get_string (\<lambda>server_version.
     checked trilogy_reader_get_uint32 (\<lambda>conn_id.
     checked (trilogy_reader_copy_buffer 8) (\<lambda>scramble.
     checked trilogy_reader_get_uint8 (\<lambda>filler.
     if filler \<noteq> 0 then throw TRILOGY_PROTOCOL_VIOLATION
     else
     checked trilogy_reader_get_uint16 (\<lambda>caps_low.
     if \<not> has_capability (ucast caps_low) TRILOGY_CAPABILITIES_PROTOCOL_41
     then throw TRILOGY_PROTOCOL_VIOLATION
     else
     checked trilogy_reader_get_uint8 (\<lambda>server_charset.
     checked trilogy_reader_get_uint16 (\<lambda>server_status.
     checked trilogy_reader_get_uint16 (\<lambda>caps_high.
     let capabilities = (ucast caps_low OR push_bit 16 (ucast caps_high)) :: u32
     in checked trilogy_reader_get_uint8 (\<lambda>auth_data_len.
     if \<not> has_capability capabilities TRILOGY_CAPABILITIES_PLUGIN_AUTH \<and> auth_data_len \<noteq> 0
     then throw TRILOGY_PROTOCOL_VIOLATION
     else handshake_tail auth_data_len
            (out\<lparr>hs_proto_version := proto_version,
                 hs_server_version := blit 0 (take (server_version_size - 1) server_version @ [0])
                   (hs_server_version out),
                 hs_conn_id := conn_id,
                 hs_scramble := blit 0 scramble (hs_scramble out),
                 hs_capabilities := capabilities,
                 hs_server_charset := server_charset,
                 hs_server_status := server_status\<rparr>)))))))))))"

definition trilogy_parse_handshake_packet ::
  "u8 list \<Rightarrow> size_t \<Rightarrow> trilogy_handshake \<Rightarrow> stop + trilogy_handshake" where
  "trilogy_parse_handshake_packet buff len out =
     fst (parse_handshake_packet out (TRILOGY_READER buff len))"

section \<open>Result sets\<close>

definition parse_result_packet :: "(trilogy_reader, trilogy_result_packet) op" where
  "parse_result_packet =
     checked trilogy_reader_get_lenenc (\<lambda>column_count.
     checked trilogy_reader_finish (\<lambda>_. ret \<lparr>res_column_count = column_count\<rparr>))"

definition trilogy_parse_result_packet :: "u8 list \<Rightarrow> size_t \<Rightarrow> stop + trilogy_result_packet" where
  "trilogy_parse_result_packet buff len = fst (parse_result_packet (TRILOGY_READER buff len))"

text \<open>
  The value of column \<open>i\<close>: a length-encoded buffer, or the \<^verbatim>\<open>NULL\<close> leader byte, which is not an
  error here. \<open>out_values\<close> is the array of the caller.
\<close>

definition row_value ::
  "nat \<Rightarrow> trilogy_value list \<Rightarrow> (trilogy_reader, trilogy_value list) op" where
  "row_value i out_values = (\<lambda>r.
     case trilogy_reader_get_lenenc_buffer r of (v, r') \<Rightarrow>
       (case v of
          Inr data \<Rightarrow>
            (if i < length out_values
             then Inr (out_values[i := \<lparr>val_is_null = False, val_data = data,
                                        val_data_len = word_of_nat (length data)\<rparr>])
             else Inl Fault)
        | Inl e \<Rightarrow>
            (if e = Rc TRILOGY_NULL_VALUE
             then if i < length out_values
                  then Inr (out_values[i := (out_values ! i)\<lparr>val_is_null := True, val_data_len := 0\<rparr>])
                  else Inl Fault
             else Inl e), r'))"

text \<open>\<^verbatim>\<open>for (i = 0; i < column_count; i++)\<close>, from index \<open>i\<close> with \<open>n\<close> columns to go.\<close>

primrec row_loop :: "nat \<Rightarrow> nat \<Rightarrow> trilogy_value list \<Rightarrow> (trilogy_reader, trilogy_value list) op" where
  "row_loop 0 i out_values = ret out_values"
| "row_loop (Suc n) i out_values = checked (row_value i out_values) (row_loop n (i + 1))"

definition parse_row_packet ::
  "u64 \<Rightarrow> trilogy_value list \<Rightarrow> (trilogy_reader, trilogy_value list) op" where
  "parse_row_packet column_count out_values =
     checked (row_loop (unat column_count) 0 out_values) (\<lambda>out_values.
     checked trilogy_reader_finish (\<lambda>_. ret out_values))"

definition trilogy_parse_row_packet ::
  "u8 list \<Rightarrow> size_t \<Rightarrow> u64 \<Rightarrow> trilogy_value list \<Rightarrow> stop + trilogy_value list" where
  "trilogy_parse_row_packet buff len column_count out_values =
     fst (parse_row_packet column_count out_values (TRILOGY_READER buff len))"

definition parse_column_packet :: "bool \<Rightarrow> (trilogy_reader, trilogy_column_packet) op" where
  "parse_column_packet field_list =
     checked trilogy_reader_get_lenenc_buffer (\<lambda>catalog.
     checked trilogy_reader_get_lenenc_buffer (\<lambda>schema.
     checked trilogy_reader_get_lenenc_buffer (\<lambda>table.
     checked trilogy_reader_get_lenenc_buffer (\<lambda>original_table.
     checked trilogy_reader_get_lenenc_buffer (\<lambda>name.
     checked trilogy_reader_get_lenenc_buffer (\<lambda>original_name.
     checked trilogy_reader_get_lenenc (\<lambda>_.
     checked trilogy_reader_get_uint16 (\<lambda>charset.
     checked trilogy_reader_get_uint32 (\<lambda>len.
     checked trilogy_reader_get_uint8 (\<lambda>type.
     checked trilogy_reader_get_uint16 (\<lambda>flags.
     checked trilogy_reader_get_uint8 (\<lambda>decimals.
     checked trilogy_reader_get_uint16 (\<lambda>_.
     checked (if field_list then trilogy_reader_get_lenenc_buffer else ret []) (\<lambda>default_value.
     checked trilogy_reader_finish (\<lambda>_.
     ret \<lparr>col_catalog = catalog, col_schema = schema, col_table = table,
          col_original_table = original_table, col_name = name, col_original_name = original_name,
          col_charset = charset, col_len = len, col_type = type, col_flags = flags,
          col_decimals = decimals, col_default_value = default_value\<rparr>)))))))))))))))"

definition trilogy_parse_column_packet ::
  "u8 list \<Rightarrow> size_t \<Rightarrow> bool \<Rightarrow> stop + trilogy_column_packet" where
  "trilogy_parse_column_packet buff len field_list =
     fst (parse_column_packet field_list (TRILOGY_READER buff len))"

definition parse_stmt_ok_packet :: "(trilogy_reader, trilogy_stmt_ok_packet) op" where
  "parse_stmt_ok_packet =
     checked trilogy_reader_get_uint8 (\<lambda>_.
     checked trilogy_reader_get_uint32 (\<lambda>id.
     checked trilogy_reader_get_uint16 (\<lambda>column_count.
     checked trilogy_reader_get_uint16 (\<lambda>parameter_count.
     checked trilogy_reader_get_uint8 (\<lambda>filler.
     if filler \<noteq> 0 then throw TRILOGY_PROTOCOL_VIOLATION
     else
     checked trilogy_reader_get_uint16 (\<lambda>warning_count.
     checked trilogy_reader_finish (\<lambda>_.
     ret \<lparr>stmt_ok_id = id, stmt_ok_column_count = column_count,
          stmt_ok_parameter_count = parameter_count, stmt_ok_warning_count = warning_count\<rparr>)))))))"

definition trilogy_parse_stmt_ok_packet :: "u8 list \<Rightarrow> size_t \<Rightarrow> stop + trilogy_stmt_ok_packet" where
  "trilogy_parse_stmt_ok_packet buff len = fst (parse_stmt_ok_packet (TRILOGY_READER buff len))"

section \<open>Soundness\<close>

lemma sound_with_reader [sound_intros]:
  assumes "sound_read m"
  shows "sound_read (with_reader bytes m)"
proof -
  have "unat (word_of_nat (length bytes) :: size_t) \<le> length bytes"
    by (simp add: unat_of_nat take_bit_nat_less_eq_self)
  then have "reader_ok (TRILOGY_READER bytes (word_of_nat (length bytes)))"
    by (rule reader_start(1))
  then obtain n v where "m (TRILOGY_READER bytes (word_of_nat (length bytes))) =
      (v, advance n (TRILOGY_READER bytes (word_of_nat (length bytes))))" "settled v"
    using sound_readD [OF assms] by blast
  then show ?thesis
    by (intro sound_view [where f = "\<lambda>_. (v, 0)"]) (simp_all add: with_reader_def)
qed

lemma sound_gtid_entry [sound_intros]: "sound_read gtid_entry"
  unfolding gtid_entry_def by (intro sound_intros)

lemma sound_state_entry [sound_intros]: "sound_read (state_entry g)"
  unfolding state_entry_def by (intro sound_intros)

lemma sound_state_changes_loop [sound_intros]: "sound_read (state_changes_loop g)"
proof -
  have "\<exists>n v. n \<le> length (rest r) \<and> state_changes_loop g r = (v, advance n r) \<and>
          state_changes_loop g r' = (v, advance n r') \<and> settled v"
    if "reader_ok r" "reader_ok r'" "rest r = rest r'" for g r r'
    using that
  proof (induction "length (rest r)" arbitrary: g r r' rule: less_induct)
    case less
    show ?case
    proof (cases "trilogy_reader_eof r")
      case True
      then have "trilogy_reader_eof r'" using less.prems by (simp add: eof_rest)
      with True show ?thesis by (auto simp: state_changes_loop.simps intro!: exI [of _ 0])
    next
      case False
      then have False': "\<not> trilogy_reader_eof r'" using less.prems by (simp add: eof_rest)
      obtain n v where n: "n \<le> length (rest r)" and run: "state_entry g r = (v, advance n r)"
          "state_entry g r' = (v, advance n r')" and fine: "settled v"
        using sound_state_entry [of g] less.prems unfolding sound_read_def by blast
      show ?thesis
      proof (cases v)
        case (Inl e)
        with n run fine False False' show ?thesis
          by (auto simp: state_changes_loop.simps intro!: exI [of _ n])
      next
        case (Inr g')
        have "rd_pos r < rd_pos (advance n r)"
          using state_entry_moves(2) False run(1) Inr by (auto simp: trilogy_reader_eof_def)
        then have "n \<noteq> 0" by (cases n) simp_all
        then have shorter: "length (rest (advance n r)) < length (rest r)"
          using less.prems n by (simp add: rest_advance)
        have "\<exists>m v. m \<le> length (rest (advance n r)) \<and>
            state_changes_loop g' (advance n r) = (v, advance m (advance n r)) \<and>
            state_changes_loop g' (advance n r') = (v, advance m (advance n r')) \<and> settled v"
          using less.prems n by (intro less.hyps [OF shorter]) (simp_all add: reader_ok_advance rest_advance)
        then obtain m w where "m \<le> length (rest r) - n" "settled w"
            "state_changes_loop g' (advance n r) = (w, advance (n + m) r)"
            "state_changes_loop g' (advance n r') = (w, advance (n + m) r')"
          using less.prems n by (auto simp: rest_advance advance_advance)
        with n run Inr False False' show ?thesis
          by (intro exI [of _ "n + m"] exI [of _ w]) (simp add: state_changes_loop.simps [of g])
      qed
    qed
  qed
  then show ?thesis unfolding sound_read_def by blast
qed

lemma sound_branch_eof:
  assumes "sound_read m" and "sound_read m'"
  shows "sound_read (checked get_state (\<lambda>r. if c \<and> \<not> trilogy_reader_eof r then m else m'))"
  by (rule sound_get_state [where k' = "\<lambda>bs. if c \<and> bs \<noteq> [] then m else m'"])
    (auto intro: assms simp: eof_rest)

lemma sound_ok_fields [sound_intros]: "sound_read (ok_fields c)"
  unfolding ok_fields_def by (intro sound_intros)

lemma sound_ok_session [sound_intros]: "sound_read (ok_session s p)"
  unfolding ok_session_def by (intro sound_intros)

lemma sound_case_prod [sound_intros]:
  "(\<And>a b. x = (a, b) \<Longrightarrow> sound_read (k a b)) \<Longrightarrow> sound_read (case x of (a, b) \<Rightarrow> k a b)"
  by (cases x) simp

lemma sound_parse_ok_packet: "sound_read (parse_ok_packet c)"
  unfolding parse_ok_packet_def Let_def by (intro sound_intros sound_branch_eof)

lemma sound_parse_eof_packet: "sound_read (parse_eof_packet c)"
  unfolding parse_eof_packet_def by (intro sound_intros)

lemma sound_parse_err_packet: "sound_read (parse_err_packet c)"
  unfolding parse_err_packet_def by (intro sound_intros)

lemma sound_parse_auth_switch: "sound_read (parse_auth_switch_request_packet c out)"
  unfolding parse_auth_switch_request_packet_def by (intro sound_intros)

lemma sound_handshake_tail [sound_intros]: "sound_read (handshake_tail n p)"
  unfolding handshake_tail_def Let_def by (intro sound_intros)

lemma sound_parse_handshake: "sound_read (parse_handshake_packet out)"
  unfolding parse_handshake_packet_def Let_def by (intro sound_intros)

lemma sound_parse_result: "sound_read parse_result_packet"
  unfolding parse_result_packet_def by (intro sound_intros)

lemma sound_parse_column: "sound_read (parse_column_packet b)"
  unfolding parse_column_packet_def by (intro sound_intros)

lemma sound_parse_stmt_ok: "sound_read parse_stmt_ok_packet"
  unfolding parse_stmt_ok_packet_def by (intro sound_intros)

lemma sound_row_value: "i < length out \<Longrightarrow> sound_read (row_value i out)"
proof -
  assume "i < length out"
  then show ?thesis
    unfolding sound_read_def
  proof (intro allI impI, elim conjE)
    fix r r' assume "reader_ok r" "reader_ok r'" "rest r = rest r'"
    then obtain n v where "n \<le> length (rest r)" "settled v"
        "trilogy_reader_get_lenenc_buffer r = (v, advance n r)"
        "trilogy_reader_get_lenenc_buffer r' = (v, advance n r')"
      using sound_get_lenenc_buffer unfolding sound_read_def by blast
    with \<open>i < length out\<close> show "\<exists>n v. n \<le> length (rest r) \<and> row_value i out r = (v, advance n r) \<and>
        row_value i out r' = (v, advance n r') \<and> settled v"
      by (intro exI [of _ n]) (cases v; simp add: row_value_def)
  qed
qed

lemma length_row_value: "row_value i out r = (Inr out', r') \<Longrightarrow> length out' = length out"
  by (auto simp: row_value_def split: prod.splits sum.splits if_splits)

lemma sound_row_loop: "i + n \<le> length out \<Longrightarrow> sound_read (row_loop n i out)"
proof (induction n arbitrary: i out)
  case (Suc n)
  show ?case
    unfolding row_loop.simps
  proof (rule sound_checked_post [where Q = "\<lambda>out'. length out' = length out"])
    show "sound_read (row_value i out)" using Suc.prems by (simp add: sound_row_value)
    show "sound_read (row_loop n (i + 1) out')" if "length out' = length out" for out'
      using Suc that by simp
  qed (rule length_row_value)
qed (simp add: sound_ret)

lemma sound_parse_row: "unat n \<le> length out \<Longrightarrow> sound_read (parse_row_packet n out)"
  unfolding parse_row_packet_def by (intro sound_checked sound_row_loop sound_intros) simp

section \<open>What a success guarantees\<close>

lemma handshake_tail_success:
  assumes "handshake_tail n p r = (Inr h, r')" and "length (hs_scramble p) = 21" and "length (hs_auth_plugin p) = 32"
  shows "has_capability (hs_capabilities h) TRILOGY_CAPABILITIES_SECURE_CONNECTION"
    and "\<exists>bs. length bs = 13 \<and> hs_scramble h = blit 8 bs (hs_scramble p)"
    and "length (hs_auth_plugin h) = 32"
    and "has_capability (hs_capabilities h) TRILOGY_CAPABILITIES_PLUGIN_AUTH \<Longrightarrow> 0 \<in> set (hs_auth_plugin h)"
    and "hs_capabilities h = hs_capabilities p" "hs_proto_version h = hs_proto_version p"
      "hs_server_version h = hs_server_version p"
proof -
  have len: "length bs = unat k" if "trilogy_reader_copy_buffer k r = (Inr bs, r')" for k r bs r'
    using that by (auto simp: trilogy_reader_copy_buffer_def checked_eq_Inr check_bytes_def slice_def split: if_splits)
  obtain bytes r1 r2 where sec: "has_capability (hs_capabilities p) TRILOGY_CAPABILITIES_SECURE_CONNECTION"
    and n: "SCRAMBLE_LEN + 1 = unat n"
    and copy: "trilogy_reader_copy_buffer (ucast (n - 8)) r1 = (Inr bytes, r2)"
    and rest: "checked
              (if has_capability (hs_capabilities p) TRILOGY_CAPABILITIES_PLUGIN_AUTH then
                 checked trilogy_reader_get_string (\<lambda>auth_plugin.
                 if length auth_plugin > 31 then throw TRILOGY_AUTH_PLUGIN_TOO_LONG
                 else ret (p\<lparr>hs_scramble := blit 8 bytes (hs_scramble p), hs_auth_plugin := blit 0 (auth_plugin @ [0]) (hs_auth_plugin p)\<rparr>))
               else ret (p\<lparr>hs_scramble := blit 8 bytes (hs_scramble p)\<rparr>)) (\<lambda>p.
            checked trilogy_reader_finish (\<lambda>_. ret p)) r2 = (Inr h, r')"
    using assms(1) by (auto simp: handshake_tail_def checked_eq_Inr Let_def split: if_splits)
  have "n = 21" using n by (simp add: SCRAMBLE_LEN_def word_unat_eq_iff)
  then have bytes: "length bytes = 13" using len [OF copy] by simp
  note simps = checked_eq_Inr
  from rest sec bytes assms show "has_capability (hs_capabilities h) TRILOGY_CAPABILITIES_SECURE_CONNECTION"
    "\<exists>bs. length bs = 13 \<and> hs_scramble h = blit 8 bs (hs_scramble p)"
    "length (hs_auth_plugin h) = 32"
    "has_capability (hs_capabilities h) TRILOGY_CAPABILITIES_PLUGIN_AUTH \<Longrightarrow> 0 \<in> set (hs_auth_plugin h)"
    "hs_capabilities h = hs_capabilities p" "hs_proto_version h = hs_proto_version p"
      "hs_server_version h = hs_server_version p"
    by (auto simp: checked_eq_Inr blit_nul split: if_splits)
qed

lemma handshake_success:
  assumes run: "parse_handshake_packet out r = (Inr h, r')"
    and out: "length (hs_server_version out) = 32" "length (hs_scramble out) = 21" "length (hs_auth_plugin out) = 32"
  shows "hs_proto_version h = 10"
    and "has_capability (hs_capabilities h) TRILOGY_CAPABILITIES_PROTOCOL_41"
    and "has_capability (hs_capabilities h) TRILOGY_CAPABILITIES_SECURE_CONNECTION"
    and "length (hs_scramble h) = 21" and "length (hs_server_version h) = 32" and "length (hs_auth_plugin h) = 32"
    and "0 \<in> set (hs_server_version h)"
    and "has_capability (hs_capabilities h) TRILOGY_CAPABILITIES_PLUGIN_AUTH \<Longrightarrow> 0 \<in> set (hs_auth_plugin h)"
proof -
  have len: "length bs = unat k" if "trilogy_reader_copy_buffer k r = (Inr bs, r')" for k r bs r'
    using that by (auto simp: trilogy_reader_copy_buffer_def checked_eq_Inr check_bytes_def slice_def split: if_splits)
  obtain version id scr low cs st high n r1 r2 r3 where
      low: "has_capability (ucast (low :: u16)) TRILOGY_CAPABILITIES_PROTOCOL_41"
    and scr: "trilogy_reader_copy_buffer 8 r1 = (Inr scr, r2)"
    and tail: "handshake_tail n
            (out\<lparr>hs_proto_version := 0xa,
                 hs_server_version := blit 0 (take 31 version @ [0]) (hs_server_version out),
                 hs_conn_id := id,
                 hs_scramble := blit 0 scr (hs_scramble out),
                 hs_capabilities := ucast low OR push_bit 16 (ucast (high :: u16)),
                 hs_server_charset := cs,
                 hs_server_status := st\<rparr>) r3 = (Inr h, r')" (is "handshake_tail n ?p r3 = _")
    using run by (auto simp: parse_handshake_packet_def checked_eq_Inr Let_def split: if_splits)
  have sizes: "length (hs_scramble ?p) = 21" "length (hs_auth_plugin ?p) = 32"
    using len [OF scr] out by simp_all
  note t = handshake_tail_success [OF tail sizes]
  from t(2) obtain bs where "length bs = 13" "hs_scramble h = blit 8 bs (hs_scramble ?p)" by blast
  with sizes show "length (hs_scramble h) = 21" by simp
  show "has_capability (hs_capabilities h) TRILOGY_CAPABILITIES_PROTOCOL_41"
    using t(5) low by (simp add: has_capability_or)
  show "0 \<in> set (hs_server_version h)" "length (hs_server_version h) = 32"
    using t(7) out by (simp_all add: blit_nul)
  show "hs_proto_version h = 10" "has_capability (hs_capabilities h) TRILOGY_CAPABILITIES_SECURE_CONNECTION"
    "length (hs_auth_plugin h) = 32"
    "has_capability (hs_capabilities h) TRILOGY_CAPABILITIES_PLUGIN_AUTH \<Longrightarrow> 0 \<in> set (hs_auth_plugin h)"
    using t by simp_all
qed

lemma gtid_entry_bound: "gtid_entry r = (Inr g, r') \<Longrightarrow> length g \<le> TRILOGY_MAX_LAST_GTID_LEN"
  by (auto simp: gtid_entry_def checked_eq_Inr split: if_splits)

lemma state_entry_bound:
  assumes "state_entry g r = (Inr g', r')" and "length g \<le> TRILOGY_MAX_LAST_GTID_LEN"
  shows "length g' \<le> TRILOGY_MAX_LAST_GTID_LEN"
proof -
  have "with_reader info gtid_entry s = (Inr g', s') \<Longrightarrow> length g' \<le> TRILOGY_MAX_LAST_GTID_LEN"
    for info and s s' :: trilogy_reader
    using gtid_entry_bound by (cases "gtid_entry (TRILOGY_READER info (word_of_nat (length info)))")
      (auto simp: with_reader_def)
  with assms show ?thesis
    by (auto simp: state_entry_def checked_eq_Inr split: if_splits)
qed

lemma state_changes_bound:
  "state_changes_loop g r = (Inr g', r') \<Longrightarrow> length g \<le> TRILOGY_MAX_LAST_GTID_LEN \<Longrightarrow>
   length g' \<le> TRILOGY_MAX_LAST_GTID_LEN"
proof (induction g r rule: state_changes_loop.induct)
  case (1 g r)
  show ?case
  proof (cases "trilogy_reader_eof r")
    case True
    with 1 show ?thesis by (simp add: state_changes_loop.simps [of g r])
  next
    case False
    with 1 obtain g1 r1 where step: "state_entry g r = (Inr g1, r1)" and more: "state_changes_loop g1 r1 = (Inr g', r')"
      by (auto simp: state_changes_loop.simps [of g r] split: prod.splits sum.splits)
    show ?thesis
      using "1.IH" [OF False step [symmetric] refl more] state_entry_bound [OF step] "1.prems"(2) by simp
  qed
qed

lemma ok_packet_gtid_bound:
  assumes "parse_ok_packet c r = (Inr p, r')"
  shows "length (ok_last_gtid p) \<le> TRILOGY_MAX_LAST_GTID_LEN"
proof -
  have "with_reader changes (state_changes_loop []) s = (Inr g', s') \<Longrightarrow> length g' \<le> TRILOGY_MAX_LAST_GTID_LEN"
    for changes g' and s s' :: trilogy_reader
    using state_changes_bound [of "[]"]
    by (cases "state_changes_loop [] (TRILOGY_READER changes (word_of_nat (length changes)))") (auto simp: with_reader_def)
  with assms show ?thesis
    by (fastforce simp: parse_ok_packet_def ok_session_def checked_eq_Inr Let_def split: if_splits prod.splits)
qed

end
