(* ===== verification/Protocol_Rows.thy ===== *)
theory Protocol_Rows
  imports Protocol_Parse
begin

text \<open>
  \<^verbatim>\<open>trilogy_parse_stmt_row_packet\<close> of \<^verbatim>\<open>src/protocol.c\<close>: the rows of the binary protocol. The
  bitmap of the null values comes first, with an offset of two bits; each other value has the
  format of the type of its column.
\<close>

section \<open>The bitmap\<close>

text \<open>
  \<^verbatim>\<open>is_null\<close>; \<open>null_bitmap\<close> is the list of the bytes of the bitmap, and a read beyond them is a
  fault, even where more of the packet follows.
\<close>

definition is_null :: "u8 list \<Rightarrow> u64 \<Rightarrow> u64 \<Rightarrow> stop + bool" where
  "is_null null_bitmap bitmap_len column_offset =
     (if column_offset > bitmap_len * 8 - 1 then Inl (Rc TRILOGY_PROTOCOL_VIOLATION)
      else
        let column_offset = column_offset + 2;
            byte_offset = column_offset div 8
        in if unat byte_offset < length null_bitmap
           then Inr ((null_bitmap ! unat byte_offset) AND push_bit (unat (column_offset mod 8)) 1 \<noteq> 0)
           else Inl Fault)"

section \<open>The values\<close>

definition get_date :: "(trilogy_reader, trilogy_date) op" where
  "get_date =
     checked trilogy_reader_get_uint8 (\<lambda>time_len.
     if time_len = 0 then ret \<lparr>date_year = 0, date_month = 0, date_day = 0,
         date_datetime = \<lparr>dt_hour = 0, dt_minute = 0, dt_second = 0, dt_micro_seconds = 0\<rparr>\<rparr>
     else if time_len = 4 then
       checked trilogy_reader_get_uint16 (\<lambda>year.
       checked trilogy_reader_get_uint8 (\<lambda>month.
       checked trilogy_reader_get_uint8 (\<lambda>day.
       ret \<lparr>date_year = year, date_month = month, date_day = day,
            date_datetime = \<lparr>dt_hour = 0, dt_minute = 0, dt_second = 0, dt_micro_seconds = 0\<rparr>\<rparr>)))
     else if time_len = 7 then
       checked trilogy_reader_get_uint16 (\<lambda>year.
       checked trilogy_reader_get_uint8 (\<lambda>month.
       checked trilogy_reader_get_uint8 (\<lambda>day.
       checked trilogy_reader_get_uint8 (\<lambda>hour.
       checked trilogy_reader_get_uint8 (\<lambda>minute.
       checked trilogy_reader_get_uint8 (\<lambda>second.
       ret \<lparr>date_year = year, date_month = month, date_day = day,
            date_datetime = \<lparr>dt_hour = hour, dt_minute = minute, dt_second = second,
                             dt_micro_seconds = 0\<rparr>\<rparr>))))))
     else if time_len = 11 then
       checked trilogy_reader_get_uint16 (\<lambda>year.
       checked trilogy_reader_get_uint8 (\<lambda>month.
       checked trilogy_reader_get_uint8 (\<lambda>day.
       checked trilogy_reader_get_uint8 (\<lambda>hour.
       checked trilogy_reader_get_uint8 (\<lambda>minute.
       checked trilogy_reader_get_uint8 (\<lambda>second.
       checked trilogy_reader_get_uint32 (\<lambda>micro_seconds.
       ret \<lparr>date_year = year, date_month = month, date_day = day,
            date_datetime = \<lparr>dt_hour = hour, dt_minute = minute, dt_second = second,
                             dt_micro_seconds = micro_seconds\<rparr>\<rparr>)))))))
     else throw TRILOGY_PROTOCOL_VIOLATION)"

definition get_time :: "(trilogy_reader, trilogy_time) op" where
  "get_time =
     checked trilogy_reader_get_uint8 (\<lambda>time_len.
     if time_len = 0 then ret \<lparr>time_is_negative = False, time_days = 0, time_hour = 0,
                               time_minute = 0, time_second = 0, time_micro_seconds = 0\<rparr>
     else if time_len = 8 then
       checked trilogy_reader_get_uint8 (\<lambda>is_negative.
       checked trilogy_reader_get_uint32 (\<lambda>days.
       checked trilogy_reader_get_uint8 (\<lambda>hour.
       checked trilogy_reader_get_uint8 (\<lambda>minute.
       checked trilogy_reader_get_uint8 (\<lambda>second.
       ret \<lparr>time_is_negative = (is_negative = 1), time_days = days, time_hour = hour,
            time_minute = minute, time_second = second, time_micro_seconds = 0\<rparr>)))))
     else if time_len = 12 then
       checked trilogy_reader_get_uint8 (\<lambda>is_negative.
       checked trilogy_reader_get_uint32 (\<lambda>days.
       checked trilogy_reader_get_uint8 (\<lambda>hour.
       checked trilogy_reader_get_uint8 (\<lambda>minute.
       checked trilogy_reader_get_uint8 (\<lambda>second.
       checked trilogy_reader_get_uint32 (\<lambda>micro_seconds.
       ret \<lparr>time_is_negative = (is_negative = 1), time_days = days, time_hour = hour,
            time_minute = minute, time_second = second, time_micro_seconds = micro_seconds\<rparr>))))))
     else throw TRILOGY_PROTOCOL_VIOLATION)"

definition get_value :: "u8 \<Rightarrow> (trilogy_reader, trilogy_as) op" where
  "get_value type =
     (case type_of_code type of
        None \<Rightarrow> throw TRILOGY_UNKNOWN_TYPE
      | Some t \<Rightarrow>
          if t \<in> set [TRILOGY_TYPE_STRING, TRILOGY_TYPE_VARCHAR, TRILOGY_TYPE_VAR_STRING,
                 TRILOGY_TYPE_ENUM, TRILOGY_TYPE_SET, TRILOGY_TYPE_LONG_BLOB,
                 TRILOGY_TYPE_MEDIUM_BLOB, TRILOGY_TYPE_BLOB, TRILOGY_TYPE_TINY_BLOB,
                 TRILOGY_TYPE_GEOMETRY, TRILOGY_TYPE_BIT, TRILOGY_TYPE_DECIMAL,
                 TRILOGY_TYPE_NEWDECIMAL, TRILOGY_TYPE_JSON, TRILOGY_TYPE_VECTOR]
          then checked trilogy_reader_get_lenenc_buffer (\<lambda>v. ret (As_str v))
          else if t = TRILOGY_TYPE_LONGLONG then checked trilogy_reader_get_uint64 (\<lambda>v. ret (As_uint64 v))
          else if t = TRILOGY_TYPE_DOUBLE then checked trilogy_reader_get_double (\<lambda>v. ret (As_dbl v))
          else if t = TRILOGY_TYPE_LONG \<or> t = TRILOGY_TYPE_INT24
          then checked trilogy_reader_get_uint32 (\<lambda>v. ret (As_uint32 v))
          else if t = TRILOGY_TYPE_FLOAT then checked trilogy_reader_get_float (\<lambda>v. ret (As_flt v))
          else if t = TRILOGY_TYPE_SHORT then checked trilogy_reader_get_uint16 (\<lambda>v. ret (As_uint16 v))
          else if t = TRILOGY_TYPE_YEAR then checked trilogy_reader_get_uint16 (\<lambda>v. ret (As_year v))
          else if t = TRILOGY_TYPE_TINY then checked trilogy_reader_get_uint8 (\<lambda>v. ret (As_uint8 v))
          else if t \<in> set [TRILOGY_TYPE_DATE, TRILOGY_TYPE_DATETIME, TRILOGY_TYPE_TIMESTAMP]
          then checked get_date (\<lambda>v. ret (As_date v))
          else if t = TRILOGY_TYPE_TIME then checked get_time (\<lambda>v. ret (As_time v))
          else throw TRILOGY_UNKNOWN_TYPE)"

section \<open>The row\<close>

text \<open>
  The value of column \<open>i\<close>. \<^verbatim>\<open>is_unsigned\<close> is only ever set, never cleared, and \<^verbatim>\<open>as\<close> keeps its
  content when the value is null.
\<close>

definition stmt_row_value ::
  "u8 list \<Rightarrow> u64 \<Rightarrow> trilogy_column_packet list \<Rightarrow> nat \<Rightarrow> trilogy_binary_value list \<Rightarrow>
   (trilogy_reader, trilogy_binary_value list) op" where
  "stmt_row_value null_bitmap bitmap_len columns i out_values =
     (if \<not> i < length out_values then halt Fault
      else
        case is_null null_bitmap bitmap_len (word_of_nat i) of
          Inl e \<Rightarrow> halt e
        | Inr True \<Rightarrow>
            ret (out_values[i := (out_values ! i)\<lparr>bv_is_null := True,
                                   bv_type := type_code TRILOGY_TYPE_NULL\<rparr>])
        | Inr False \<Rightarrow>
            if \<not> i < length columns then halt Fault
            else
            checked (get_value (col_type (columns ! i))) (\<lambda>v.
            ret (out_values[i := (out_values ! i)
                  \<lparr>bv_is_null := False,
                   bv_is_unsigned := (bv_is_unsigned (out_values ! i) \<or>
                      ucast (col_flags (columns ! i)) AND column_flag TRILOGY_COLUMN_FLAG_UNSIGNED \<noteq> 0),
                   bv_type := col_type (columns ! i), bv_as := v\<rparr>])))"

primrec stmt_row_loop ::
  "nat \<Rightarrow> u8 list \<Rightarrow> u64 \<Rightarrow> trilogy_column_packet list \<Rightarrow> nat \<Rightarrow> trilogy_binary_value list \<Rightarrow>
   (trilogy_reader, trilogy_binary_value list) op" where
  "stmt_row_loop 0 null_bitmap bitmap_len columns i out_values = ret out_values"
| "stmt_row_loop (Suc n) null_bitmap bitmap_len columns i out_values =
     checked (stmt_row_value null_bitmap bitmap_len columns i out_values)
       (stmt_row_loop n null_bitmap bitmap_len columns (i + 1))"

definition parse_stmt_row_packet ::
  "trilogy_column_packet list \<Rightarrow> u64 \<Rightarrow> trilogy_binary_value list \<Rightarrow>
   (trilogy_reader, trilogy_binary_value list) op" where
  "parse_stmt_row_packet columns column_count out_values =
     checked trilogy_reader_get_uint8 (\<lambda>_.
     let bitmap_len = (column_count + 7 + 2) div 8
     in checked (trilogy_reader_get_buffer bitmap_len) (\<lambda>null_bitmap.
     checked (stmt_row_loop (unat column_count) null_bitmap bitmap_len columns 0 out_values) (\<lambda>out_values.
     checked trilogy_reader_finish (\<lambda>_. ret out_values))))"

definition trilogy_parse_stmt_row_packet ::
  "u8 list \<Rightarrow> size_t \<Rightarrow> trilogy_column_packet list \<Rightarrow> u64 \<Rightarrow> trilogy_binary_value list \<Rightarrow>
   stop + trilogy_binary_value list" where
  "trilogy_parse_stmt_row_packet buff len columns column_count out_values =
     fst (parse_stmt_row_packet columns column_count out_values (TRILOGY_READER buff len))"

section \<open>What the bitmap says\<close>

text \<open>The bitmap of \<open>n\<close> columns has a bit for each of them, behind two unused ones.\<close>

lemma unat_bitmap_len:
  fixes n :: u64
  assumes "unat n + 9 < 2 ^ 64"
  shows "unat ((n + 7 + 2) div 8) = (unat n + 9) div 8"
proof -
  have "n + 7 + 2 = n + 9" by simp
  moreover have "unat (n + 9) = unat n + 9" using assms by (subst unat_add_size_t) simp_all
  ultimately have "unat (n + 7 + 2) = unat n + 9" by metis
  then show ?thesis unfolding unat_div by simp
qed

lemma bit_test: "(b AND push_bit k 1 \<noteq> 0) = bit b k" for b :: u8
proof
  assume "b AND push_bit k 1 \<noteq> 0"
  then obtain j where "bit (b AND push_bit k 1) j" by (auto simp: bit_eq_iff)
  then show "bit b k" by (auto simp: bit_simps)
next
  assume "bit b k"
  then have "bit (b AND push_bit k 1) k" using bit_imp_le_length [of b k] by (simp add: bit_simps)
  then show "b AND push_bit k 1 \<noteq> 0" by (metis bit_0_eq bot_apply bot_bool_def)
qed

lemma bitmap_byte: "i < m \<Longrightarrow> (i + 2) div 8 < (m + 9) div 8" for i m :: nat
  using div_le_mono [of "i + 10" "m + 9" 8] by linarith

lemma bitmap_bits: "(m + 9) div 8 * 8 \<ge> m + 2" for m :: nat
  using div_mult_mod_eq [of "m + 9" 8] mod_less_divisor [of 8 "m + 9"] by linarith

lemma is_null_bit:
  fixes n :: u64
  assumes n: "unat n + 9 < 2 ^ 64" and i: "i < unat n" and len: "length bitmap = (unat n + 9) div 8"
  shows "is_null bitmap ((n + 7 + 2) div 8) (word_of_nat i) = Inr (bit (bitmap ! ((i + 2) div 8)) ((i + 2) mod 8))"
proof -
  define bl where "bl = (n + 7 + 2) div 8"
  have bl: "unat bl = (unat n + 9) div 8" unfolding bl_def using n by (rule unat_bitmap_len)
  have mult: "unat (bl * 8) = (unat n + 9) div 8 * 8"
    using n by (simp add: unat_word_ariths bl)
  have pos: "(unat n + 9) div 8 * 8 \<ge> unat n + 2" by (rule bitmap_bits)
  have sub: "unat (bl * 8 - 1) = (unat n + 9) div 8 * 8 - 1"
    using unat_diff_size_t [of 1 "bl * 8"] mult pos by (simp add: word_le_nat_alt)
  have iw: "unat (word_of_nat i :: u64) = i"
    using i n by (intro unat_word_of_nat_size_t) simp
  have fits: "\<not> word_of_nat i > bl * 8 - 1"
    unfolding word_less_nat_alt iw sub using i pos by linarith
  have i2: "unat (word_of_nat i + 2 :: u64) = i + 2"
    using i n iw by (subst unat_add_size_t) simp_all
  have byte: "unat ((word_of_nat i + 2 :: u64) div 8) = (i + 2) div 8" unfolding unat_div i2 by simp
  have shift: "unat ((word_of_nat i + 2 :: u64) mod 8) = (i + 2) mod 8" unfolding unat_mod i2 by simp
  have inside: "(i + 2) div 8 < length bitmap" unfolding len using i by (rule bitmap_byte)
  show ?thesis
    unfolding is_null_def Let_def bl_def [symmetric] if_not_P [OF fits] byte shift if_P [OF inside] bit_test ..
qed

section \<open>Soundness\<close>

lemma sound_get_date [sound_intros]: "sound_read get_date"
  unfolding get_date_def by (intro sound_intros)

lemma sound_get_time [sound_intros]: "sound_read get_time"
  unfolding get_time_def by (intro sound_intros)

lemma sound_get_value [sound_intros]: "sound_read (get_value t)"
  unfolding get_value_def by (intro sound_intros)

lemma sound_stmt_row_value:
  assumes "unat n + 9 < 2 ^ 64" and "i < unat n" and "length bitmap = (unat n + 9) div 8"
    and "i < length out" and "i < length columns"
  shows "sound_read (stmt_row_value bitmap ((n + 7 + 2) div 8) columns i out)"
  using assms(4,5) unfolding stmt_row_value_def is_null_bit [OF assms(1-3)]
  by (auto intro!: sound_intros split: bool.split)

lemma length_stmt_row_value:
  "stmt_row_value bitmap bl columns i out r = (Inr out', r') \<Longrightarrow> length out' = length out"
  by (auto simp: stmt_row_value_def checked_eq_Inr split: if_splits sum.splits bool.splits)

lemma sound_stmt_row_loop:
  assumes "unat n + 9 < 2 ^ 64" and "length bitmap = (unat n + 9) div 8" and "unat n \<le> length columns"
  shows "unat n \<le> length out \<Longrightarrow> i + k \<le> unat n \<Longrightarrow>
    sound_read (stmt_row_loop k bitmap ((n + 7 + 2) div 8) columns i out)"
proof (induction k arbitrary: i out)
  case (Suc k)
  show ?case
    unfolding stmt_row_loop.simps
  proof (rule sound_checked_post [where Q = "\<lambda>out'. length out' = length out"])
    show "sound_read (stmt_row_value bitmap ((n + 7 + 2) div 8) columns i out)"
      using Suc.prems assms by (intro sound_stmt_row_value) simp_all
    show "sound_read (stmt_row_loop k bitmap ((n + 7 + 2) div 8) columns (i + 1) out')"
      if "length out' = length out" for out'
      using Suc that by simp
  qed (rule length_stmt_row_value)
qed (simp add: sound_ret)

lemma length_get_buffer:
  "trilogy_reader_get_buffer n r = (Inr bs, r') \<Longrightarrow> length bs = unat n"
  by (auto simp: trilogy_reader_get_buffer_def checked_eq_Inr check_bytes_def slice_def split: if_splits)

lemma sound_parse_stmt_row:
  assumes "unat n + 9 < 2 ^ 64" and "unat n \<le> length out" and "unat n \<le> length columns"
  shows "sound_read (parse_stmt_row_packet columns n out)"
  unfolding parse_stmt_row_packet_def Let_def
proof (rule sound_checked, rule sound_gets(1))
  show "sound_read (checked (trilogy_reader_get_buffer ((n + 7 + 2) div 8)) (\<lambda>null_bitmap.
      checked (stmt_row_loop (unat n) null_bitmap ((n + 7 + 2) div 8) columns 0 out) (\<lambda>out_values.
      checked trilogy_reader_finish (\<lambda>_. ret out_values))))"
  proof (rule sound_checked_post [where Q = "\<lambda>bs. length bs = (unat n + 9) div 8"])
    show "trilogy_reader_get_buffer ((n + 7 + 2) div 8) r = (Inr bs, r') \<Longrightarrow> length bs = (unat n + 9) div 8"
      for r bs r'
      using length_get_buffer unat_bitmap_len [OF assms(1)] by fastforce
    show "sound_read (checked (stmt_row_loop (unat n) bs ((n + 7 + 2) div 8) columns 0 out) (\<lambda>out_values.
        checked trilogy_reader_finish (\<lambda>_. ret out_values)))"
      if "length bs = (unat n + 9) div 8" for bs
      using that assms by (intro sound_checked sound_stmt_row_loop sound_finish sound_ret) simp_all
  qed (intro sound_intros)
qed

end
