(* ===== verification/Protocol_Encode.thy ===== *)
theory Protocol_Encode
  imports Protocol_Rows
begin

text \<open>
  The packets a server sends, as bytes, and the round trips: each parser of
  \<^verbatim>\<open>src/protocol.c\<close> reads back the structure that was encoded. The encoders follow the packet
  formats of the MySQL client/server protocol, as the comments of \<^verbatim>\<open>inc/trilogy/protocol.h\<close>
  and the fields of the structures name them.
\<close>

lemma parses_done: "y' = y \<Longrightarrow> parses (checked trilogy_reader_finish (\<lambda>_. ret y')) [] y"
  by (simp add: parses_finish)

lemmas parse_steps =
  uint8.then_parses [OF TrueI] uint16.then_parses [OF TrueI] uint32.then_parses [OF TrueI]
  uint64.then_parses [OF TrueI] float.then_parses [OF TrueI] double.then_parses [OF TrueI]
  lenenc.then_parses [OF TrueI] lenenc_buffer.then_parses string.then_parses
  parses_done parses_eof_buffer

lemma parses_copy_buffer:
  "length bs = unat n \<Longrightarrow> parses (k bs) cs y \<Longrightarrow> parses (checked (trilogy_reader_copy_buffer n) k) (bs @ cs) y"
  by (rule parses_checked [OF decodes_fixed [OF copy_buffer_fixed]]) simp_all

lemma parses_get_buffer:
  "length bs = unat n \<Longrightarrow> parses (k bs) cs y \<Longrightarrow> parses (checked (trilogy_reader_get_buffer n) k) (bs @ cs) y"
  by (rule parses_checked [OF decodes_fixed [OF get_buffer_fixed]]) simp_all

lemma parses_whole:
  assumes "parses m bs y" and "length bs < 2 ^ 64"
  shows "fst (m (TRILOGY_READER bs (word_of_nat (length bs)))) = Inr y"
proof -
  have "unat (word_of_nat (length bs) :: size_t) = length bs"
    using assms(2) by (intro unat_word_of_nat_size_t) simp
  with assms(1) show ?thesis by (intro parses_start) simp_all
qed

section \<open>Error and end-of-file packets\<close>

definition err_packet_bytes :: "u32 \<Rightarrow> trilogy_err_packet \<Rightarrow> u8 list" where
  "err_packet_bytes capabilities p =
     [0xff] @ le_bytes 2 (err_error_code p) @
     (if has_capability capabilities TRILOGY_CAPABILITIES_PROTOCOL_41
      then [err_sql_state_marker p] @ err_sql_state p else []) @
     err_error_message p"

text \<open>Without the 4.1 protocol the state is not sent, and is zero.\<close>

definition err_packet_valid :: "u32 \<Rightarrow> trilogy_err_packet \<Rightarrow> bool" where
  "err_packet_valid capabilities p \<longleftrightarrow> length (err_sql_state p) = 5 \<and>
     (has_capability capabilities TRILOGY_CAPABILITIES_PROTOCOL_41 \<or>
      err_sql_state_marker p = 0 \<and> err_sql_state p = [0, 0, 0, 0, 0])"

lemma parses_err_packet:
  assumes "err_packet_valid c p"
  shows "parses (parse_err_packet c) (err_packet_bytes c p) p"
proof (cases "has_capability c TRILOGY_CAPABILITIES_PROTOCOL_41")
  case True
  then show ?thesis
    using assms unfolding parse_err_packet_def err_packet_bytes_def
    by (simp only: if_True checked_assoc checked_ret prod.case append_assoc)
      (intro parse_steps parses_copy_buffer, simp_all add: err_packet_valid_def)
next
  case False
  then show ?thesis
    using assms unfolding parse_err_packet_def err_packet_bytes_def
    by (simp only: if_False checked_assoc checked_ret prod.case append_Nil)
      (intro parse_steps, simp add: err_packet_valid_def)
qed

definition eof_packet_bytes :: "u32 \<Rightarrow> trilogy_eof_packet \<Rightarrow> u8 list" where
  "eof_packet_bytes capabilities p =
     [0xfe] @ (if has_capability capabilities TRILOGY_CAPABILITIES_PROTOCOL_41
               then le_bytes 2 (eof_warning_count p) @ le_bytes 2 (eof_status_flags p) @ [] else [])"

lemma parses_eof_packet:
  assumes "has_capability c TRILOGY_CAPABILITIES_PROTOCOL_41 \<or> eof_warning_count p = 0 \<and> eof_status_flags p = 0"
  shows "parses (parse_eof_packet c) (eof_packet_bytes c p) p"
proof (cases "has_capability c TRILOGY_CAPABILITIES_PROTOCOL_41")
  case True
  then show ?thesis
    using assms unfolding parse_eof_packet_def eof_packet_bytes_def
    by (simp only: if_True checked_assoc checked_ret) (intro parse_steps, simp)
next
  case False
  then show ?thesis
    using assms unfolding parse_eof_packet_def eof_packet_bytes_def
    by (simp only: if_False checked_assoc checked_ret) (intro parse_steps, simp)
qed

section \<open>Result sets\<close>

definition result_packet_bytes :: "trilogy_result_packet \<Rightarrow> u8 list" where
  "result_packet_bytes p = lenenc_bytes (res_column_count p)"

lemma parses_result_packet: "parses parse_result_packet (result_packet_bytes p) p"
  unfolding parse_result_packet_def result_packet_bytes_def
  by (subst append_Nil2 [symmetric]) (intro parse_steps, simp)

text \<open>The length of the fixed fields (always 12) and the filler are skipped by the parser.\<close>

definition column_packet_bytes :: "bool \<Rightarrow> u64 \<Rightarrow> u16 \<Rightarrow> trilogy_column_packet \<Rightarrow> u8 list" where
  "column_packet_bytes field_list fixed_length filler p =
     lenenc_string (col_catalog p) @ lenenc_string (col_schema p) @ lenenc_string (col_table p) @
     lenenc_string (col_original_table p) @ lenenc_string (col_name p) @
     lenenc_string (col_original_name p) @ lenenc_bytes fixed_length @
     le_bytes 2 (col_charset p) @ le_bytes 4 (col_len p) @ [col_type p] @ le_bytes 2 (col_flags p) @
     [col_decimals p] @ le_bytes 2 filler @
     (if field_list then lenenc_string (col_default_value p) @ [] else [])"

definition column_strings :: "trilogy_column_packet \<Rightarrow> u8 list list" where
  "column_strings p = [col_catalog p, col_schema p, col_table p, col_original_table p, col_name p,
     col_original_name p, col_default_value p]"

lemma parses_column_packet:
  assumes "\<forall>bs \<in> set (column_strings p). length bs < 2 ^ 64"
    and "field_list \<or> col_default_value p = []"
  shows "parses (parse_column_packet field_list) (column_packet_bytes field_list fl filler p) p"
proof (cases field_list)
  case True
  then show ?thesis
    using assms unfolding parse_column_packet_def column_packet_bytes_def
    by (simp only: if_True) (intro parse_steps, simp_all add: column_strings_def)
next
  case False
  then show ?thesis
    using assms unfolding parse_column_packet_def column_packet_bytes_def
    by (simp only: if_False checked_ret) (intro parse_steps, simp_all add: column_strings_def)
qed

definition stmt_ok_packet_bytes :: "trilogy_stmt_ok_packet \<Rightarrow> u8 list" where
  "stmt_ok_packet_bytes p =
     [0] @ le_bytes 4 (stmt_ok_id p) @ le_bytes 2 (stmt_ok_column_count p) @
     le_bytes 2 (stmt_ok_parameter_count p) @ [0] @ le_bytes 2 (stmt_ok_warning_count p) @ []"

lemma parses_stmt_ok_packet: "parses parse_stmt_ok_packet (stmt_ok_packet_bytes p) p"
proof -
  have "parses (if (0 :: u8) \<noteq> 0 then throw TRILOGY_PROTOCOL_VIOLATION
      else checked trilogy_reader_get_uint16 (\<lambda>warning_count.
           checked trilogy_reader_finish (\<lambda>_.
           ret \<lparr>stmt_ok_id = stmt_ok_id p, stmt_ok_column_count = stmt_ok_column_count p,
                stmt_ok_parameter_count = stmt_ok_parameter_count p, stmt_ok_warning_count = warning_count\<rparr>)))
      (le_bytes 2 (stmt_ok_warning_count p) @ []) p"
    by (simp only: not_False_eq_True if_False simp_thms) (intro parse_steps, simp)
  then show ?thesis
    unfolding parse_stmt_ok_packet_def stmt_ok_packet_bytes_def by (intro parse_steps)
qed

text \<open>A row of the text protocol: a string, or the byte \<^verbatim>\<open>0xfb\<close> for a null value.\<close>

definition row_packet_bytes :: "u8 list option list \<Rightarrow> u8 list" where
  "row_packet_bytes vs =
     concat (map (\<lambda>v. case v of None \<Rightarrow> [0xfb] | Some bs \<Rightarrow> lenenc_string bs) vs)"

text \<open>What the array of the caller holds afterwards, from index \<open>i\<close> on.\<close>

definition stored_value :: "u8 list option \<Rightarrow> trilogy_value \<Rightarrow> trilogy_value" where
  "stored_value v old =
     (case v of
        None \<Rightarrow> old\<lparr>val_is_null := True, val_data_len := 0\<rparr>
      | Some bs \<Rightarrow> \<lparr>val_is_null = False, val_data = bs, val_data_len = word_of_nat (length bs)\<rparr>)"

lemma decodes_row_value:
  assumes "i < length out" and "\<And>bs. v = Some bs \<Longrightarrow> length bs < 2 ^ 64"
  shows "decodes (row_value i out) (case v of None \<Rightarrow> [0xfb] | Some bs \<Rightarrow> lenenc_string bs)
           (out[i := stored_value v (out ! i)])"
proof (cases v)
  case None
  have "trilogy_reader_get_lenenc_buffer r = (Inl (Rc TRILOGY_NULL_VALUE), advance 1 r)"
    if "reader_ok r" "rest r = 0xfb # ys" for r ys
    using that by (simp add: trilogy_reader_get_lenenc_buffer_def checked_apply get_lenenc_view)
  with None assms(1) show ?thesis
    by (auto simp: decodes_def row_value_def stored_value_def)
next
  case (Some bs)
  with assms have "decodes trilogy_reader_get_lenenc_buffer (lenenc_string bs) bs"
    by (intro lenenc_buffer.decode_law) simp
  with Some assms(1) show ?thesis
    unfolding decodes_def by (auto simp: row_value_def stored_value_def)
qed

definition stored_row :: "nat \<Rightarrow> u8 list option list \<Rightarrow> trilogy_value list \<Rightarrow> trilogy_value list" where
  "stored_row i vs out =
     take i out @ map2 stored_value vs (drop i out) @ drop (i + length vs) out"

lemma stored_row_Cons:
  assumes "i < length out"
  shows "stored_row (i + 1) vs (out[i := stored_value v (out ! i)]) = stored_row i (v # vs) out"
  using assms
  by (simp add: stored_row_def take_Suc_conv_app_nth Cons_nth_drop_Suc [symmetric] drop_update_swap)

lemma decodes_row_loop:
  assumes "i + length vs \<le> length out" and "\<And>bs. Some bs \<in> set vs \<Longrightarrow> length bs < 2 ^ 64"
  shows "decodes (row_loop (length vs) i out) (row_packet_bytes vs) (stored_row i vs out)"
  using assms
proof (induction vs arbitrary: i out)
  case Nil
  then show ?case by (simp add: row_packet_bytes_def stored_row_def decodes_def)
next
  case (Cons v vs)
  have "decodes (row_value i out) (case v of None \<Rightarrow> [0xfb] | Some bs \<Rightarrow> lenenc_string bs)
      (out[i := stored_value v (out ! i)])"
    using Cons.prems by (intro decodes_row_value) auto
  moreover have "decodes (row_loop (length vs) (i + 1) (out[i := stored_value v (out ! i)]))
      (row_packet_bytes vs) (stored_row i (v # vs) out)"
    using Cons.IH [of "i + 1" "out[i := stored_value v (out ! i)]"] Cons.prems
      stored_row_Cons [of i out vs v] by simp
  ultimately show ?case
    using decodes_checked by (fastforce simp: row_packet_bytes_def)
qed

lemma parses_row_packet:
  assumes "unat n = length vs" and "length vs \<le> length out"
    and "\<And>bs. Some bs \<in> set vs \<Longrightarrow> length bs < 2 ^ 64"
  shows "parses (parse_row_packet n out) (row_packet_bytes vs) (stored_row 0 vs out)"
proof -
  have "parses (parse_row_packet n out) (row_packet_bytes vs @ []) (stored_row 0 vs out)"
    unfolding parse_row_packet_def assms(1)
    by (rule parses_checked [OF decodes_row_loop parses_done]) (use assms(2,3) in simp_all)
  then show ?thesis by simp
qed

section \<open>The connection phase\<close>

definition auth_switch_bytes :: "u8 list \<Rightarrow> u8 list \<Rightarrow> u8 list" where
  "auth_switch_bytes plugin auth_data = [0xfe] @ (plugin @ [0]) @ auth_data"

lemma parses_auth_switch:
  assumes "has_capability c TRILOGY_CAPABILITIES_PLUGIN_AUTH" and "0 \<notin> set plugin" and "length plugin \<le> 31"
  shows "parses (parse_auth_switch_request_packet c out) (auth_switch_bytes plugin auth_data)
    (out\<lparr>switch_auth_plugin := blit 0 (plugin @ [0]) (switch_auth_plugin out),
         switch_scramble := blit 0 (take 21 auth_data) (switch_scramble out)\<rparr>)"
proof -
  have "\<not> auth_plugin_size - 1 < length plugin" using assms(3) by simp
  then have "parses (if auth_plugin_size - 1 < length plugin then throw TRILOGY_AUTH_PLUGIN_TOO_LONG
      else checked trilogy_reader_get_eof_buffer (\<lambda>auth_data. checked trilogy_reader_finish (\<lambda>_.
         ret (out\<lparr>switch_auth_plugin := blit 0 (plugin @ [0]) (switch_auth_plugin out),
                  switch_scramble := blit 0 (take 21 auth_data) (switch_scramble out)\<rparr>)))) auth_data
      (out\<lparr>switch_auth_plugin := blit 0 (plugin @ [0]) (switch_auth_plugin out),
         switch_scramble := blit 0 (take 21 auth_data) (switch_scramble out)\<rparr>)"
    by (simp only: if_False) (intro parse_steps, simp)
  then show ?thesis
    unfolding parse_auth_switch_request_packet_def auth_switch_bytes_def if_P [OF assms(1)]
    by (intro parse_steps) (simp_all add: assms)
qed

definition handshake_bytes ::
  "trilogy_handshake \<Rightarrow> u8 list \<Rightarrow> u8 list \<Rightarrow> u8 list \<Rightarrow> u8 list" where
  "handshake_bytes h version reserved plugin =
     [0xa] @ (version @ [0]) @ le_bytes 4 (hs_conn_id h) @ take 8 (hs_scramble h) @ [0] @
     le_bytes 2 (ucast (hs_capabilities h) :: u16) @ [hs_server_charset h] @
     le_bytes 2 (hs_server_status h) @ le_bytes 2 (ucast (drop_bit 16 (hs_capabilities h)) :: u16) @
     [21] @ reserved @ drop 8 (hs_scramble h) @ (plugin @ [0]) @ []"

text \<open>The structure after the handshake \<open>h\<close>, with the rest of its arrays as they were in \<open>out\<close>.\<close>

definition received_handshake ::
  "trilogy_handshake \<Rightarrow> u8 list \<Rightarrow> u8 list \<Rightarrow> trilogy_handshake \<Rightarrow> trilogy_handshake" where
  "received_handshake h version plugin out =
     \<lparr>hs_proto_version = 0xa,
      hs_server_version = blit 0 (take 31 version @ [0]) (hs_server_version out),
      hs_conn_id = hs_conn_id h, hs_scramble = hs_scramble h, hs_capabilities = hs_capabilities h,
      hs_server_charset = hs_server_charset h, hs_server_status = hs_server_status h,
      hs_auth_plugin = blit 0 (plugin @ [0]) (hs_auth_plugin out)\<rparr>"

lemma capability_halves:
  "(ucast (ucast c :: u16) OR push_bit 16 (ucast (ucast (drop_bit 16 c) :: u16)) :: u32) = c" for c :: u32
  by (rule bit_word_eqI) (auto simp: bit_simps)

lemma protocol_41_low:
  "has_capability (ucast (ucast c :: u16)) TRILOGY_CAPABILITIES_PROTOCOL_41
     \<longleftrightarrow> has_capability c TRILOGY_CAPABILITIES_PROTOCOL_41" for c :: u32
proof -
  have flag: "capability TRILOGY_CAPABILITIES_PROTOCOL_41 = push_bit 9 1" by simp
  have "(ucast (ucast c :: u16) AND push_bit k 1 :: u32) = c AND push_bit k 1" if "k < 16" for k
    using that by (intro bit_word_eqI) (auto simp: bit_simps)
  from this [of 9] show ?thesis unfolding has_capability_def flag by simp
qed

text \<open>A guard of the parser that the packet passes.\<close>

lemma parses_guard:
  "\<not> c \<Longrightarrow> parses m bs y \<Longrightarrow> parses (if c then throw e else m) bs y"
  by simp

lemma handshake_tail_parses:
  assumes "has_capability (hs_capabilities p) TRILOGY_CAPABILITIES_SECURE_CONNECTION"
    and "has_capability (hs_capabilities p) TRILOGY_CAPABILITIES_PLUGIN_AUTH"
    and "length reserved = 10" and "length bytes = 13" and "0 \<notin> set plugin" and "length plugin \<le> 31"
  shows "parses (handshake_tail 21 p) (reserved @ bytes @ (plugin @ [0]) @ [])
    (p\<lparr>hs_scramble := blit 8 bytes (hs_scramble p),
       hs_auth_plugin := blit 0 (plugin @ [0]) (hs_auth_plugin p)\<rparr>)"
proof -
  have guards: "(21 :: u8) > 8" "SCRAMBLE_LEN + 1 = unat (21 :: u8)" "(ucast ((21 :: u8) - 8) :: size_t) = 13"
    by (simp_all add: SCRAMBLE_LEN_def)
  let ?q = "p\<lparr>hs_scramble := blit 8 bytes (hs_scramble p)\<rparr>"
  have "parses (checked (if 32 - 1 < length plugin then throw TRILOGY_AUTH_PLUGIN_TOO_LONG
        else ret (?q\<lparr>hs_auth_plugin := blit 0 (plugin @ [0]) (hs_auth_plugin ?q)\<rparr>))
      (\<lambda>p. checked trilogy_reader_finish (\<lambda>_. ret p))) []
      (p\<lparr>hs_scramble := blit 8 bytes (hs_scramble p),
         hs_auth_plugin := blit 0 (plugin @ [0]) (hs_auth_plugin p)\<rparr>)"
    using assms(6) by (simp add: parses_finish)
  then have plugin: "parses (checked (checked trilogy_reader_get_string (\<lambda>auth_plugin.
        if 32 - 1 < length auth_plugin then throw TRILOGY_AUTH_PLUGIN_TOO_LONG
        else ret (?q\<lparr>hs_auth_plugin := blit 0 (auth_plugin @ [0]) (hs_auth_plugin ?q)\<rparr>)))
      (\<lambda>p. checked trilogy_reader_finish (\<lambda>_. ret p))) ((plugin @ [0]) @ [])
      (p\<lparr>hs_scramble := blit 8 bytes (hs_scramble p),
         hs_auth_plugin := blit 0 (plugin @ [0]) (hs_auth_plugin p)\<rparr>)"
    unfolding checked_assoc by (rule string.then_parses [OF assms(5)])
  have caps: "has_capability (hs_capabilities ?q) TRILOGY_CAPABILITIES_PLUGIN_AUTH"
    using assms(2) by simp
  show ?thesis
    unfolding handshake_tail_def Let_def guards(3) if_P [OF conjI [OF assms(1) guards(1)]]
    by (rule parses_get_buffer, simp add: assms, rule parses_guard, simp add: SCRAMBLE_LEN_def,
        rule parses_copy_buffer, simp add: assms, unfold if_P [OF caps], rule plugin)
qed

theorem parses_handshake:
  assumes caps: "has_capability (hs_capabilities h) TRILOGY_CAPABILITIES_PROTOCOL_41"
      "has_capability (hs_capabilities h) TRILOGY_CAPABILITIES_SECURE_CONNECTION"
      "has_capability (hs_capabilities h) TRILOGY_CAPABILITIES_PLUGIN_AUTH"
    and version: "0 \<notin> set version" and reserved: "length reserved = 10"
    and scramble: "length (hs_scramble h) = 21" "length (hs_scramble out) = 21"
    and plugin: "0 \<notin> set plugin" "length plugin \<le> 31"
  shows "parses (parse_handshake_packet out) (handshake_bytes h version reserved plugin)
    (received_handshake h version plugin out)"
proof -
  let ?p = "out\<lparr>hs_proto_version := 0xa,
                 hs_server_version := blit 0 (take (32 - 1) version @ [0]) (hs_server_version out),
                 hs_conn_id := hs_conn_id h,
                 hs_scramble := blit 0 (take 8 (hs_scramble h)) (hs_scramble out),
                 hs_capabilities := hs_capabilities h,
                 hs_server_charset := hs_server_charset h,
                 hs_server_status := hs_server_status h\<rparr>"
  have low: "has_capability (ucast (ucast (hs_capabilities h) :: u16)) TRILOGY_CAPABILITIES_PROTOCOL_41"
    using caps(1) by (simp only: protocol_41_low)
  have scr: "blit 8 (drop 8 (hs_scramble h)) (blit 0 (take 8 (hs_scramble h)) (hs_scramble out)) = hs_scramble h"
    using scramble by (simp add: blit_def)
  have tail: "parses (handshake_tail 21 ?p) (reserved @ drop 8 (hs_scramble h) @ (plugin @ [0]) @ [])
      (?p\<lparr>hs_scramble := blit 8 (drop 8 (hs_scramble h)) (hs_scramble ?p),
         hs_auth_plugin := blit 0 (plugin @ [0]) (hs_auth_plugin ?p)\<rparr>)"
    using assms by (intro handshake_tail_parses) simp_all
  moreover have "?p\<lparr>hs_scramble := blit 8 (drop 8 (hs_scramble h)) (hs_scramble ?p),
         hs_auth_plugin := blit 0 (plugin @ [0]) (hs_auth_plugin ?p)\<rparr> = received_handshake h version plugin out"
    by (simp add: received_handshake_def scr)
  ultimately have tail: "parses (handshake_tail 21 ?p)
      (reserved @ drop 8 (hs_scramble h) @ (plugin @ [0]) @ []) (received_handshake h version plugin out)"
    by simp
  show ?thesis
    unfolding parse_handshake_packet_def handshake_bytes_def Let_def
    by (intro parse_steps parses_guard parses_copy_buffer; (simp only: capability_halves)?)
      (use tail caps low version scramble in simp_all)
qed

section \<open>OK packets\<close>

text \<open>An entry of the session state changes: a GTID with its tag, or one of another type.\<close>

datatype session_entry = Gtid u8 "u8 list" | Other_entry u8 "u8 list"

primrec entry_bytes :: "session_entry \<Rightarrow> u8 list" where
  "entry_bytes (Gtid tag gtid) =
     [session_track_code TRILOGY_SESSION_TRACK_GTIDS] @ lenenc_string ([tag] @ lenenc_string gtid)"
| "entry_bytes (Other_entry type data) = [type] @ lenenc_string data"

primrec entry_valid :: "session_entry \<Rightarrow> bool" where
  "entry_valid (Gtid tag gtid) \<longleftrightarrow> length gtid \<le> TRILOGY_MAX_LAST_GTID_LEN"
| "entry_valid (Other_entry type data) \<longleftrightarrow>
     type \<noteq> session_track_code TRILOGY_SESSION_TRACK_GTIDS \<and> length data < 2 ^ 64"

primrec latest_gtid :: "u8 list \<Rightarrow> session_entry list \<Rightarrow> u8 list" where
  "latest_gtid g [] = g"
| "latest_gtid g (e # es) = latest_gtid (case e of Gtid _ gtid \<Rightarrow> gtid | Other_entry _ _ \<Rightarrow> g) es"

lemma decodes_with_reader:
  "parses m bytes y \<Longrightarrow> length bytes < 2 ^ 64 \<Longrightarrow> decodes (with_reader bytes m) [] y"
  by (simp add: decodes_def with_reader_def parses_whole)

lemma parses_ret: "y' = y \<Longrightarrow> parses (ret y') bs y"
  by (simp add: parses_def)

lemma decodes_lenenc_buffer: "length bs < 2 ^ 64 \<Longrightarrow> decodes trilogy_reader_get_lenenc_buffer (lenenc_string bs) bs"
  by (rule lenenc_buffer.decode_law)

lemma decodes_uint8: "decodes trilogy_reader_get_uint8 [b] b"
  by (rule uint8.decode_law) simp

lemma length_gtid_entry:
  assumes "length gtid \<le> TRILOGY_MAX_LAST_GTID_LEN"
  shows "length ([tag] @ lenenc_string gtid) < 2 ^ 64" and "length gtid < 2 ^ 64"
  using assms length_lenenc_bytes [of "word_of_nat (length gtid)"]
  by (simp_all add: lenenc_string_def TRILOGY_MAX_LAST_GTID_LEN_def)

lemma decodes_state_entry:
  assumes "entry_valid e"
  shows "decodes (state_entry g) (entry_bytes e) (case e of Gtid _ gtid \<Rightarrow> gtid | Other_entry _ _ \<Rightarrow> g)"
proof (cases e)
  case (Gtid tag gtid)
  then have len: "length gtid \<le> TRILOGY_MAX_LAST_GTID_LEN" using assms by simp
  note lens = length_gtid_entry(1) [OF len, of tag] length_gtid_entry(2) [OF len]
  have "parses gtid_entry ([tag] @ lenenc_string gtid @ []) gtid"
    unfolding gtid_entry_def
    using len lens by (intro parse_steps parses_guard parses_ret) simp_all
  then have "decodes (with_reader ([tag] @ lenenc_string gtid) gtid_entry) [] gtid"
    using lens by (intro decodes_with_reader) simp_all
  then have "decodes (state_entry g) ([session_track_code TRILOGY_SESSION_TRACK_GTIDS] @
      lenenc_string ([tag] @ lenenc_string gtid) @ []) gtid"
    unfolding state_entry_def
    using lens by (intro decodes_checked [OF decodes_uint8] decodes_checked [OF decodes_lenenc_buffer]) simp_all
  with Gtid show ?thesis by simp
next
  case (Other_entry ty data)
  then have "decodes (state_entry g) ([ty] @ lenenc_string data @ []) g"
    unfolding state_entry_def using assms decodes_ret [of g]
    by (intro decodes_checked [OF decodes_uint8] decodes_checked [OF decodes_lenenc_buffer]) simp_all
  with Other_entry show ?thesis by simp
qed

lemma entry_bytes_not_Nil: "entry_bytes e \<noteq> []"
  by (cases e) simp_all

lemma parses_state_changes:
  assumes "list_all entry_valid es"
  shows "parses (state_changes_loop g) (concat (map entry_bytes es)) (latest_gtid g es)"
  using assms
proof (induction es arbitrary: g)
  case Nil
  then show ?case by (simp add: parses_def state_changes_loop.simps eof_rest)
next
  case (Cons e es)
  let ?g = "case e of Gtid _ gtid \<Rightarrow> gtid | Other_entry _ _ \<Rightarrow> g"
  show ?case
    unfolding parses_def
  proof (intro allI impI, elim conjE)
    fix r assume ok: "reader_ok r" and left: "rest r = concat (map entry_bytes (e # es))"
    then have more: "\<not> trilogy_reader_eof r" by (simp add: eof_rest entry_bytes_not_Nil)
    have "state_entry g r = (Inr ?g, advance (length (entry_bytes e)) r)"
      using Cons.prems left by (intro decodesD [OF decodes_state_entry ok]) simp_all
    moreover have "fst (state_changes_loop ?g (advance (length (entry_bytes e)) r)) = Inr (latest_gtid ?g es)"
      using Cons ok left unfolding parses_def by (simp add: reader_ok_advance rest_advance)
    ultimately show "fst (state_changes_loop g r) = Inr (latest_gtid g (e # es))"
      using more by (simp add: state_changes_loop.simps [of g r])
  qed
qed

text \<open>
  What follows the numbers of an OK packet: the text of older servers, or with session
  tracking the status and, when the server says so, the changes; nothing at all is the empty
  text in both cases.
\<close>

datatype ok_tail = Ok_info "u8 list" | Ok_status "u8 list" | Ok_changes "u8 list" "session_entry list"

primrec ok_tail_bytes :: "ok_tail \<Rightarrow> u8 list" where
  "ok_tail_bytes (Ok_info info) = info"
| "ok_tail_bytes (Ok_status status) = lenenc_string status @ []"
| "ok_tail_bytes (Ok_changes status es) =
     lenenc_string status @ lenenc_string (concat (map entry_bytes es)) @ []"

fun ok_tail_valid :: "u32 \<Rightarrow> u16 \<Rightarrow> ok_tail \<Rightarrow> bool" where
  "ok_tail_valid c flags (Ok_info info) \<longleftrightarrow>
     (has_capability c TRILOGY_CAPABILITIES_SESSION_TRACK \<longrightarrow> info = [])"
| "ok_tail_valid c flags (Ok_status status) \<longleftrightarrow>
     has_capability c TRILOGY_CAPABILITIES_SESSION_TRACK \<and> length status < 2 ^ 64 \<and>
     flags AND server_status_flag TRILOGY_SERVER_STATUS_SESSION_STATE_CHANGED = 0"
| "ok_tail_valid c flags (Ok_changes status es) \<longleftrightarrow>
     has_capability c TRILOGY_CAPABILITIES_SESSION_TRACK \<and> length status < 2 ^ 64 \<and>
     flags AND server_status_flag TRILOGY_SERVER_STATUS_SESSION_STATE_CHANGED \<noteq> 0 \<and>
     length (concat (map entry_bytes es)) < 2 ^ 64 \<and> list_all entry_valid es"

primrec with_ok_tail :: "ok_tail \<Rightarrow> trilogy_ok_packet \<Rightarrow> trilogy_ok_packet" where
  "with_ok_tail (Ok_info info) p = p\<lparr>ok_info := Some info\<rparr>"
| "with_ok_tail (Ok_status status) p = p\<lparr>ok_session_status := Some status\<rparr>"
| "with_ok_tail (Ok_changes status es) p =
     p\<lparr>ok_session_status := Some status, ok_session_state_changes := Some (concat (map entry_bytes es)),
       ok_last_gtid := latest_gtid [] es\<rparr>"

definition ok_packet_bytes :: "u64 \<Rightarrow> u64 \<Rightarrow> u16 \<Rightarrow> u16 \<Rightarrow> ok_tail \<Rightarrow> u8 list" where
  "ok_packet_bytes affected last_id flags warnings t =
     [0] @ lenenc_bytes affected @ lenenc_bytes last_id @ le_bytes 2 flags @ le_bytes 2 warnings @
     ok_tail_bytes t"

definition plain_ok_packet :: "u64 \<Rightarrow> u64 \<Rightarrow> u16 \<Rightarrow> u16 \<Rightarrow> trilogy_ok_packet" where
  "plain_ok_packet affected last_id flags warnings =
     \<lparr>ok_affected_rows = affected, ok_last_insert_id = last_id, ok_status_flags = flags,
      ok_warning_count = warnings, ok_txn_status_flags = 0, ok_session_status = None,
      ok_session_state_changes = None, ok_info = None, ok_last_gtid = []\<rparr>"

lemma lenenc_string_not_Nil [simp]: "lenenc_string bs \<noteq> []"
  by (simp add: lenenc_string_def)

lemma parses_ok_tail:
  assumes "ok_tail_valid c flags t"
  shows "parses (checked (checked get_state (\<lambda>r.
           if has_capability c TRILOGY_CAPABILITIES_SESSION_TRACK \<and> \<not> trilogy_reader_eof r
           then ok_session flags p
           else checked trilogy_reader_get_eof_buffer (\<lambda>info. ret (p\<lparr>ok_info := Some info\<rparr>)))) (\<lambda>p.
        checked trilogy_reader_finish (\<lambda>_. ret p))) (ok_tail_bytes t) (with_ok_tail t p)"
    (is "parses (checked ?m ?k) _ _")
proof (cases t)
  case (Ok_info info)
  have "parses (checked trilogy_reader_get_eof_buffer (\<lambda>info. checked (ret (p\<lparr>ok_info := Some info\<rparr>)) ?k))
      info (p\<lparr>ok_info := Some info\<rparr>)"
    by (simp only: checked_ret) (intro parse_steps, simp)
  then show ?thesis
    using Ok_info assms unfolding parses_def
    by (auto simp: checked_assoc eof_rest)
next
  case (Ok_status status)
  then have "parses (checked (ok_session flags p) ?k) (lenenc_string status @ []) (p\<lparr>ok_session_status := Some status\<rparr>)"
    using assms unfolding ok_session_def checked_assoc by (intro parse_steps) (simp_all add: parses_finish)
  then show ?thesis
    using Ok_status assms unfolding parses_def by (auto simp: checked_assoc eof_rest)
next
  case (Ok_changes status es)
  let ?changes = "concat (map entry_bytes es)"
  let ?q = "p\<lparr>ok_session_status := Some status, ok_session_state_changes := Some ?changes,
       ok_last_gtid := latest_gtid [] es\<rparr>"
  have valid: "length status < 2 ^ 64" "length ?changes < 2 ^ 64" "list_all entry_valid es"
      and flag: "flags AND server_status_flag TRILOGY_SERVER_STATUS_SESSION_STATE_CHANGED \<noteq> 0"
    using assms Ok_changes by simp_all
  have "decodes (with_reader ?changes (state_changes_loop [])) [] (latest_gtid [] es)"
    by (rule decodes_with_reader [OF parses_state_changes [OF valid(3)] valid(2)])
  then have "parses (checked (with_reader ?changes (state_changes_loop [])) (\<lambda>last_gtid.
      checked (ret (p\<lparr>ok_session_status := Some status, ok_session_state_changes := Some ?changes,
              ok_last_gtid := last_gtid\<rparr>)) ?k)) ([] @ []) ?q"
    by (rule parses_checked) (simp add: parses_finish)
  then have "parses (checked (ok_session flags p) ?k) (lenenc_string status @ lenenc_string ?changes @ []) ?q"
    unfolding ok_session_def if_P [OF flag] checked_assoc using valid
    by (intro parse_steps) simp_all
  then show ?thesis
    using Ok_changes assms unfolding parses_def by (auto simp: checked_assoc eof_rest)
qed

text \<open>The parser does not look at the first byte: the packet that ends a result has another.\<close>

lemma parses_ok_fields:
  assumes "has_capability c TRILOGY_CAPABILITIES_PROTOCOL_41" and "ok_tail_valid c flags t"
  shows "parses (parse_ok_packet c)
      ([b] @ lenenc_bytes affected @ lenenc_bytes last_id @ le_bytes 2 flags @ le_bytes 2 warnings @ ok_tail_bytes t)
    (with_ok_tail t (plain_ok_packet affected last_id flags warnings))"
  unfolding parse_ok_packet_def ok_fields_def if_P [OF assms(1)] checked_assoc
    checked_ret prod.case Let_def plain_ok_packet_def
  by (intro parse_steps parses_ok_tail [unfolded checked_assoc] assms)

lemma parses_ok_packet:
  assumes "has_capability c TRILOGY_CAPABILITIES_PROTOCOL_41" and "ok_tail_valid c flags t"
  shows "parses (parse_ok_packet c) (ok_packet_bytes affected last_id flags warnings t)
    (with_ok_tail t (plain_ok_packet affected last_id flags warnings))"
  unfolding ok_packet_bytes_def by (rule parses_ok_fields [OF assms])

end
