(* ===== verification/Binary_Values.thy ===== *)
theory Binary_Values
  imports Protocol_Build Protocol_Encode
begin

text \<open>
  The binary protocol of prepared statements, both ways: what
  \<^verbatim>\<open>trilogy_build_stmt_execute_packet\<close> writes for a value, \<^verbatim>\<open>trilogy_parse_stmt_row_packet\<close>
  reads back, since both use the same formats. The exception is a time of whole days.
\<close>

section \<open>The formats\<close>

definition date_bytes :: "trilogy_date \<Rightarrow> u8 list" where
  "date_bytes d =
     (let dt = date_datetime d;
          head = le_bytes 2 (date_year d) @ [date_month d, date_day d];
          clock = [dt_hour dt, dt_minute dt, dt_second dt]
      in if dt_micro_seconds dt \<noteq> 0 then 11 # head @ clock @ le_bytes 4 (dt_micro_seconds dt)
         else if clock \<noteq> [0, 0, 0] then 7 # head @ clock
         else if date_year d \<noteq> 0 \<or> date_month d \<noteq> 0 \<or> date_day d \<noteq> 0 then 4 # head
         else [0])"

definition time_bytes :: "trilogy_time \<Rightarrow> u8 list" where
  "time_bytes t =
     (let head = [if time_is_negative t then 1 else 0] @ le_bytes 4 (time_days t) @
            [time_hour t, time_minute t, time_second t]
      in if time_micro_seconds t \<noteq> 0 then 12 # head @ le_bytes 4 (time_micro_seconds t)
         else if [time_hour t, time_minute t, time_second t] \<noteq> [0, 0, 0] then 8 # head
         else [0])"

definition string_types :: "TRILOGY_TYPE_t list" where
  "string_types =
     [TRILOGY_TYPE_DECIMAL, TRILOGY_TYPE_VARCHAR, TRILOGY_TYPE_BIT, TRILOGY_TYPE_NEWDECIMAL,
      TRILOGY_TYPE_ENUM, TRILOGY_TYPE_SET, TRILOGY_TYPE_TINY_BLOB, TRILOGY_TYPE_BLOB,
      TRILOGY_TYPE_MEDIUM_BLOB, TRILOGY_TYPE_LONG_BLOB, TRILOGY_TYPE_VAR_STRING,
      TRILOGY_TYPE_STRING, TRILOGY_TYPE_GEOMETRY, TRILOGY_TYPE_JSON, TRILOGY_TYPE_VECTOR]"

text \<open>The value of a type, in the member of the union that belongs to it.\<close>

definition value_bytes :: "TRILOGY_TYPE_t \<Rightarrow> trilogy_as \<Rightarrow> u8 list option" where
  "value_bytes t v =
     (let fits = (\<lambda>ts bs. if t \<in> set ts then Some bs else None)
      in case v of
           As_none \<Rightarrow> None
         | As_uint8 v \<Rightarrow> fits [TRILOGY_TYPE_TINY] [v]
         | As_uint16 v \<Rightarrow> fits [TRILOGY_TYPE_SHORT] (le_bytes 2 v)
         | As_uint32 v \<Rightarrow> fits [TRILOGY_TYPE_INT24, TRILOGY_TYPE_LONG] (le_bytes 4 v)
         | As_uint64 v \<Rightarrow> fits [TRILOGY_TYPE_LONGLONG] (le_bytes 8 v)
         | As_flt v \<Rightarrow> fits [TRILOGY_TYPE_FLOAT] (le_bytes 4 v)
         | As_dbl v \<Rightarrow> fits [TRILOGY_TYPE_DOUBLE] (le_bytes 8 v)
         | As_year v \<Rightarrow> fits [TRILOGY_TYPE_YEAR] (le_bytes 2 v)
         | As_time v \<Rightarrow> fits [TRILOGY_TYPE_TIME] (time_bytes v)
         | As_date v \<Rightarrow>
             fits [TRILOGY_TYPE_DATE, TRILOGY_TYPE_DATETIME, TRILOGY_TYPE_TIMESTAMP] (date_bytes v)
         | As_str v \<Rightarrow> fits string_types (lenenc_string v))"

section \<open>Writing\<close>

lemma writes_date: "writes alloc (write_date alloc d) (date_bytes d)"
proof -
  obtain y m dy h mi s us where d: "d = \<lparr>date_year = y, date_month = m, date_day = dy,
      date_datetime = \<lparr>dt_hour = h, dt_minute = mi, dt_second = s, dt_micro_seconds = us\<rparr>\<rparr>"
    by (metis trilogy_date.surjective trilogy_datetime.surjective unit.exhaust)
  note w = writes_checked [OF writes_uint8] writes_checked [OF writes_uint16] writes_uint8 writes_uint32 writes_ret
  consider "us \<noteq> 0" | "us = 0" "h \<noteq> 0 \<or> mi \<noteq> 0 \<or> s \<noteq> 0"
    | "us = 0" "h = 0" "mi = 0" "s = 0" "y \<noteq> 0 \<or> m \<noteq> 0 \<or> dy \<noteq> 0"
    | "us = 0" "h = 0" "mi = 0" "s = 0" "y = 0" "m = 0" "dy = 0" by blast
  then show ?thesis
  proof cases
    case 1
    then show ?thesis
      by (simp add: d write_date_def date_bytes_def Let_def) (rule writes_cong, (rule w)+, simp)
  next
    case 2
    then show ?thesis
      by (simp add: d write_date_def date_bytes_def Let_def) (rule writes_cong, (rule w)+, simp)
  next
    case 3
    then show ?thesis
      by (simp add: d write_date_def date_bytes_def Let_def) (rule writes_cong, (rule w)+, simp)
  next
    case 4
    then show ?thesis
      by (simp add: d write_date_def date_bytes_def Let_def) (rule writes_cong, (rule w)+, simp)
  qed
qed

lemma writes_time: "writes alloc (write_time alloc t) (time_bytes t)"
proof -
  obtain neg dy h mi s us where t: "t = \<lparr>time_is_negative = neg, time_days = dy, time_hour = h,
      time_minute = mi, time_second = s, time_micro_seconds = us\<rparr>"
    by (metis trilogy_time.surjective unit.exhaust)
  note w = writes_checked [OF writes_uint8] writes_checked [OF writes_uint32] writes_uint8 writes_uint32 writes_ret
  consider "us \<noteq> 0" | "us = 0" "h \<noteq> 0 \<or> mi \<noteq> 0 \<or> s \<noteq> 0" | "us = 0" "h = 0" "mi = 0" "s = 0" by blast
  then show ?thesis
  proof cases
    case 1
    then show ?thesis
      by (simp add: t write_time_def time_bytes_def Let_def split del: if_split) (rule writes_cong, (rule w)+, simp)
  next
    case 2
    then show ?thesis
      by (simp add: t write_time_def time_bytes_def Let_def split del: if_split) (rule writes_cong, (rule w)+, simp)
  next
    case 3
    then show ?thesis
      by (simp add: t write_time_def time_bytes_def Let_def split del: if_split) (rule writes_cong, (rule w)+, simp)
  qed
qed

lemma value_bytes_cases:
  assumes "value_bytes t v = Some bs"
  obtains (tiny) x where "t = TRILOGY_TYPE_TINY" "v = As_uint8 x" "bs = [x]"
  | (short) x where "t = TRILOGY_TYPE_SHORT" "v = As_uint16 x" "bs = le_bytes 2 x"
  | (long) x where "t \<in> {TRILOGY_TYPE_INT24, TRILOGY_TYPE_LONG}" "v = As_uint32 x" "bs = le_bytes 4 x"
  | (longlong) x where "t = TRILOGY_TYPE_LONGLONG" "v = As_uint64 x" "bs = le_bytes 8 x"
  | (flt) x where "t = TRILOGY_TYPE_FLOAT" "v = As_flt x" "bs = le_bytes 4 x"
  | (dbl) x where "t = TRILOGY_TYPE_DOUBLE" "v = As_dbl x" "bs = le_bytes 8 x"
  | (year) x where "t = TRILOGY_TYPE_YEAR" "v = As_year x" "bs = le_bytes 2 x"
  | (time) x where "t = TRILOGY_TYPE_TIME" "v = As_time x" "bs = time_bytes x"
  | (date) x where "t \<in> {TRILOGY_TYPE_DATE, TRILOGY_TYPE_DATETIME, TRILOGY_TYPE_TIMESTAMP}"
      "v = As_date x" "bs = date_bytes x"
  | (str) x where "t \<in> set string_types" "v = As_str x" "bs = lenenc_string x"
proof (cases v)
  case As_none
  then show ?thesis using assms by (simp add: value_bytes_def)
next
  case (As_str x)
  then show ?thesis using assms str [of x] by (simp add: value_bytes_def Let_def split: if_splits)
next
  case (As_dbl x)
  then show ?thesis using assms dbl [of x] by (simp add: value_bytes_def Let_def split: if_splits)
next
  case (As_uint64 x)
  then show ?thesis using assms longlong [of x] by (simp add: value_bytes_def Let_def split: if_splits)
next
  case (As_flt x)
  then show ?thesis using assms flt [of x] by (simp add: value_bytes_def Let_def split: if_splits)
next
  case (As_uint32 x)
  then show ?thesis using assms long [of x] by (simp add: value_bytes_def Let_def split: if_splits)
next
  case (As_uint16 x)
  then show ?thesis using assms short [of x] by (simp add: value_bytes_def Let_def split: if_splits)
next
  case (As_uint8 x)
  then show ?thesis using assms tiny [of x] by (simp add: value_bytes_def Let_def split: if_splits)
next
  case (As_year x)
  then show ?thesis using assms year [of x] by (simp add: value_bytes_def Let_def split: if_splits)
next
  case (As_date x)
  then show ?thesis using assms date [of x] by (simp add: value_bytes_def Let_def split: if_splits)
next
  case (As_time x)
  then show ?thesis using assms time [of x] by (simp add: value_bytes_def Let_def split: if_splits)
qed

lemma writes_lenenc_all:
  "length v < object_limit \<Longrightarrow>
   writes alloc (trilogy_builder_write_lenenc_buffer alloc v (word_of_nat (length v))) (lenenc_string v)"
proof -
  assume len: "length v < object_limit"
  then have "unat (word_of_nat (length v) :: size_t) = length v"
    by (intro unat_word_of_nat_size_t) (simp add: object_limit_def)
  then show ?thesis using writes_lenenc_buffer [of "word_of_nat (length v)" v alloc] len by simp
qed

lemma string_type_other:
  "t \<in> set string_types \<Longrightarrow> t \<notin> {TRILOGY_TYPE_TINY, TRILOGY_TYPE_SHORT, TRILOGY_TYPE_INT24,
     TRILOGY_TYPE_LONG, TRILOGY_TYPE_LONGLONG, TRILOGY_TYPE_FLOAT, TRILOGY_TYPE_DOUBLE,
     TRILOGY_TYPE_YEAR, TRILOGY_TYPE_TIME, TRILOGY_TYPE_DATE, TRILOGY_TYPE_DATETIME,
     TRILOGY_TYPE_TIMESTAMP, TRILOGY_TYPE_NULL}"
  by (auto simp: string_types_def)

lemma write_value_str:
  assumes "t \<in> set string_types"
  shows "write_value alloc \<lparr>bv_is_null = n, bv_is_unsigned = u, bv_type = type_code t, bv_as = As_str v\<rparr> =
    trilogy_builder_write_lenenc_buffer alloc v (word_of_nat (length v))"
  using assms string_type_other [OF assms]
  by (simp add: write_value_def string_types_def)

lemma writes_value:
  assumes "value_bytes t v = Some bs" and "length bs < object_limit"
  shows "writes alloc (write_value alloc \<lparr>bv_is_null = n, bv_is_unsigned = u, bv_type = type_code t, bv_as = v\<rparr>) bs"
  using assms(1)
proof (cases rule: value_bytes_cases)
  case (str x)
  have "length x < object_limit" using assms(2) str by (simp add: lenenc_string_def)
  with str show ?thesis by (simp add: write_value_str writes_lenenc_all)
qed (auto simp: write_value_def writes_intros writes_date writes_time simp del: type_code.simps)

lemma writes_null_value:
  "writes alloc (write_value alloc \<lparr>bv_is_null = n, bv_is_unsigned = u,
     bv_type = type_code TRILOGY_TYPE_NULL, bv_as = v\<rparr>) []"
  by (simp add: write_value_def writes_ret del: type_code.simps)

section \<open>The bitmap of the null parameters\<close>

text \<open>The byte whose bits below \<open>m\<close> are given by \<open>f\<close>.\<close>

primrec bits_byte :: "(nat \<Rightarrow> bool) \<Rightarrow> nat \<Rightarrow> u8" where
  "bits_byte f 0 = 0"
| "bits_byte f (Suc m) = (if f m then bits_byte f m OR push_bit m 1 else bits_byte f m)"

lemma bit_bits_byte: "m \<le> 8 \<Longrightarrow> bit (bits_byte f m) j \<longleftrightarrow> j < m \<and> f j"
  by (induction m) (auto simp: bit_simps less_Suc_eq)

definition null_bitmap :: "bool list \<Rightarrow> u8 list" where
  "null_bitmap ns =
     map (\<lambda>k. bits_byte (\<lambda>j. ns ! (8 * k + j)) 8) [0..<length ns div 8] @
     (if length ns mod 8 \<noteq> 0
      then [bits_byte (\<lambda>j. ns ! (8 * (length ns div 8) + j)) (length ns mod 8)] else [])"

lemma length_null_bitmap: "length (null_bitmap ns) = (length ns + 7) div 8"
  by (auto simp: null_bitmap_def) presburger+

lemma bit_null_bitmap:
  assumes "i < length ns"
  shows "bit (null_bitmap ns ! (i div 8)) (i mod 8) = ns ! i"
proof (cases "i div 8 < length ns div 8")
  case True
  then show ?thesis by (simp add: null_bitmap_def nth_append bit_bits_byte)
next
  case False
  with assms have k: "i div 8 = length ns div 8"
    using div_le_mono [of i "length ns" 8] by simp
  have "i mod 8 < length ns mod 8"
    using assms k div_mult_mod_eq [of i 8] div_mult_mod_eq [of "length ns" 8] by linarith
  with k show ?thesis
    using div_mult_mod_eq [of i 8]
    by (simp add: null_bitmap_def nth_append bit_bits_byte mult.commute [of 8])
qed

lemma writes_null_bitmap_loop:
  assumes "writes alloc (k (bits_byte (\<lambda>j. bv_is_null (binds ! (8 * (N div 8) + j))) (N mod 8))) cs"
    and "i + n = N" and "N \<le> length binds"
    and "cur = bits_byte (\<lambda>j. bv_is_null (binds ! (8 * (i div 8) + j))) (i mod 8)"
  shows "writes alloc (checked (null_bitmap_loop n alloc binds i cur) k)
    (map (\<lambda>k. bits_byte (\<lambda>j. bv_is_null (binds ! (8 * k + j))) 8) [i div 8..<N div 8] @ cs)"
  using assms(2-)
proof (induction n arbitrary: i cur)
  case 0
  then show ?case using assms(1) by simp
next
  case (Suc n)
  let ?f = "\<lambda>k j. bv_is_null (binds ! (8 * k + j))"
  define cur' where "cur' = (if bv_is_null (binds ! i) then cur OR push_bit (i mod 8) 1 else cur)"
  have i: "i < length binds" using Suc.prems by simp
  have cur': "cur' = bits_byte (?f (i div 8)) (Suc (i mod 8))"
    using Suc.prems(3) by (simp add: cur'_def)
  show ?case
  proof (cases "i mod 8 = 7")
    case True
    then have next': "(i + 1) div 8 = i div 8 + 1" "(i + 1) mod 8 = 0" by presburger+
    have "(i + 1) div 8 \<le> N div 8" using Suc.prems by (intro div_le_mono) simp
    then have split: "[i div 8..<N div 8] = i div 8 # [(i + 1) div 8..<N div 8]"
      using next' by (simp add: upt_conv_Cons)
    have "writes alloc (checked (null_bitmap_loop n alloc binds (i + 1) 0) k)
        (map (\<lambda>k. bits_byte (?f k) 8) [(i + 1) div 8..<N div 8] @ cs)"
      using Suc.prems next' by (intro Suc.IH) simp_all
    then have "writes alloc (checked (trilogy_builder_write_uint8 alloc cur')
        (\<lambda>_. checked (null_bitmap_loop n alloc binds (i + 1) 0) k))
        ([cur'] @ map (\<lambda>k. bits_byte (?f k) 8) [(i + 1) div 8..<N div 8] @ cs)"
      by (rule writes_checked [OF writes_uint8])
    then show ?thesis
      using True i cur' by (simp add: Let_def cur'_def [symmetric] checked_assoc split del: if_split add: split)
  next
    case False
    then have next': "(i + 1) div 8 = i div 8" "(i + 1) mod 8 = Suc (i mod 8)" by presburger+
    have "writes alloc (checked (null_bitmap_loop n alloc binds (i + 1) cur') k)
        (map (\<lambda>k. bits_byte (?f k) 8) [(i + 1) div 8..<N div 8] @ cs)"
      using Suc.prems next' cur' by (intro Suc.IH) simp_all
    then show ?thesis
      using False i next' by (simp add: Let_def cur'_def [symmetric] split del: if_split)
  qed
qed

lemma bits_byte_cong: "(\<And>j. j < m \<Longrightarrow> f j = g j) \<Longrightarrow> bits_byte f m = bits_byte g m"
  by (induction m) simp_all

lemma null_bitmap_binds:
  "null_bitmap (map f binds) =
     map (\<lambda>k. bits_byte (\<lambda>j. f (binds ! (8 * k + j))) 8) [0..<length binds div 8] @
     (if length binds mod 8 \<noteq> 0
      then [bits_byte (\<lambda>j. f (binds ! (8 * (length binds div 8) + j))) (length binds mod 8)] else [])"
proof -
  have full: "8 * k + j < length binds" if "k < length binds div 8" "j < 8" for k j
    using that div_mult_mod_eq [of "length binds" 8] by linarith
  have last: "8 * (length binds div 8) + j < length binds" if "j < length binds mod 8" for j
    using that div_mult_mod_eq [of "length binds" 8] by linarith
  have "map (\<lambda>k. bits_byte (\<lambda>j. map f binds ! (8 * k + j)) 8) [0..<length binds div 8] =
      map (\<lambda>k. bits_byte (\<lambda>j. f (binds ! (8 * k + j))) 8) [0..<length binds div 8]"
    by (intro map_cong refl bits_byte_cong) (simp add: full)
  moreover have "bits_byte (\<lambda>j. map f binds ! (8 * (length binds div 8) + j)) (length binds mod 8) =
      bits_byte (\<lambda>j. f (binds ! (8 * (length binds div 8) + j))) (length binds mod 8)"
    by (intro bits_byte_cong) (simp add: last)
  ultimately show ?thesis by (simp add: null_bitmap_def)
qed

lemma writes_null_bitmap:
  assumes "unat num = length binds" and "writes alloc m cs"
  shows "writes alloc (checked (null_bitmap_loop (unat (num :: u16)) alloc binds 0 0) (\<lambda>current_bits.
      checked (if num mod 8 \<noteq> 0 then trilogy_builder_write_uint8 alloc current_bits else ret ()) (\<lambda>_. m)))
    (null_bitmap (map bv_is_null binds) @ cs)"
proof -
  let ?N = "length binds"
  let ?last = "bits_byte (\<lambda>j. bv_is_null (binds ! (8 * (?N div 8) + j))) (?N mod 8)"
  have num: "num mod 8 \<noteq> 0 \<longleftrightarrow> ?N mod 8 \<noteq> 0"
    using assms(1) by (simp add: word_unat_eq_iff unat_mod)
  have "writes alloc (checked (if num mod 8 \<noteq> 0 then trilogy_builder_write_uint8 alloc ?last else ret ()) (\<lambda>_. m))
      ((if ?N mod 8 \<noteq> 0 then [?last] else []) @ cs)"
    unfolding num using writes_checked [OF writes_uint8 assms(2), of ?last] assms(2)
    by (cases "?N mod 8 = 0") simp_all
  from writes_null_bitmap_loop [where k = "\<lambda>current_bits. checked (if num mod 8 \<noteq> 0 then
      trilogy_builder_write_uint8 alloc current_bits else ret ()) (\<lambda>_. m)", OF this, of 0 ?N 0]
  show ?thesis
    unfolding assms(1) null_bitmap_binds by simp
qed

section \<open>The execute packet\<close>

definition bind_type_bytes :: "trilogy_binary_value \<Rightarrow> u8 list" where
  "bind_type_bytes v = [bv_type v, if bv_is_unsigned v then 0x80 else 0]"

text \<open>What is sent for a bind: nothing when its type is the null type, else its value.\<close>

definition bind_value_bytes :: "trilogy_binary_value \<Rightarrow> u8 list option" where
  "bind_value_bytes v =
     (case type_of_code (bv_type v) of
        None \<Rightarrow> None
      | Some t \<Rightarrow> if t = TRILOGY_TYPE_NULL then Some [] else value_bytes t (bv_as v))"

definition bind_ok :: "trilogy_binary_value \<Rightarrow> bool" where
  "bind_ok v \<longleftrightarrow> (case bind_value_bytes v of None \<Rightarrow> False | Some bs \<Rightarrow> length bs < object_limit)"

definition execute_payload :: "u32 \<Rightarrow> u8 \<Rightarrow> trilogy_binary_value list \<Rightarrow> u8 list" where
  "execute_payload stmt_id flags binds =
     [0x17] @ le_bytes 4 stmt_id @ [flags] @ le_bytes 4 (1 :: u32) @
     (if binds = [] then []
      else null_bitmap (map bv_is_null binds) @ [1] @ concat (map bind_type_bytes binds) @
           concat (map (\<lambda>v. the (bind_value_bytes v)) binds))"

lemma writes_bind_value:
  assumes "bind_ok v"
  shows "writes alloc (write_value alloc v) (the (bind_value_bytes v))"
proof -
  obtain t bs where t: "type_of_code (bv_type v) = Some t" and bs: "bind_value_bytes v = Some bs"
      and len: "length bs < object_limit"
    using assms by (auto simp: bind_ok_def bind_value_bytes_def split: option.splits)
  then have ty: "bv_type v = type_code t" using type_of_code_Some by simp
  have v: "v = \<lparr>bv_is_null = bv_is_null v, bv_is_unsigned = bv_is_unsigned v, bv_type = type_code t, bv_as = bv_as v\<rparr>"
    by (simp add: ty [symmetric])
  show ?thesis
  proof (cases "t = TRILOGY_TYPE_NULL")
    case True
    then have "bs = []" using bs t by (simp add: bind_value_bytes_def)
    then show ?thesis using writes_null_value bs v True by (metis option.sel)
  next
    case False
    then have "value_bytes t (bv_as v) = Some bs" using bs t by (simp add: bind_value_bytes_def)
    from writes_value [OF this len] show ?thesis using bs v by (metis option.sel)
  qed
qed

lemma writes_bind_values_loop:
  assumes "i + n = length binds" and "list_all bind_ok binds"
  shows "writes alloc (bind_values_loop n alloc binds i)
    (concat (map (\<lambda>v. the (bind_value_bytes v)) (drop i binds)))"
  using assms(1)
proof (induction n arbitrary: i)
  case 0
  then show ?case using writes_ret by (simp add: writes_def holds_def)
next
  case (Suc n)
  then have i: "i < length binds" by simp
  have "writes alloc (write_value alloc (binds ! i)) (the (bind_value_bytes (binds ! i)))"
    using assms(2) i by (intro writes_bind_value) (simp add: list_all_length)
  moreover have "writes alloc (bind_values_loop n alloc binds (i + 1))
      (concat (map (\<lambda>v. the (bind_value_bytes v)) (drop (i + 1) binds)))"
    using Suc by simp
  ultimately have "writes alloc (checked (write_value alloc (binds ! i)) (\<lambda>_. bind_values_loop n alloc binds (i + 1)))
      (the (bind_value_bytes (binds ! i)) @ concat (map (\<lambda>v. the (bind_value_bytes v)) (drop (i + 1) binds)))"
    by (rule writes_checked)
  then show ?case using i by (simp add: Cons_nth_drop_Suc [symmetric])
qed

lemma writes_bind_types_loop:
  assumes "i + n = length binds"
  shows "writes alloc (bind_types_loop n alloc binds i) (concat (map bind_type_bytes (drop i binds)))"
  using assms
proof (induction n arbitrary: i)
  case 0
  then show ?case using writes_ret by (simp add: writes_def holds_def)
next
  case (Suc n)
  then have i: "i < length binds" by simp
  have "writes alloc (bind_types_loop n alloc binds (i + 1)) (concat (map bind_type_bytes (drop (i + 1) binds)))"
    using Suc by simp
  then have chain: "writes alloc (checked (trilogy_builder_write_uint8 alloc (bv_type (binds ! i))) (\<lambda>_.
      checked (trilogy_builder_write_uint8 alloc u) (\<lambda>_. bind_types_loop n alloc binds (i + 1))))
      ([bv_type (binds ! i)] @ [u] @ concat (map bind_type_bytes (drop (i + 1) binds)))" for u
    by (intro writes_checked writes_uint8)
  show ?case
    using i chain [of "0x80"] chain [of 0]
    by (cases "bv_is_unsigned (binds ! i)") (simp_all add: Cons_nth_drop_Suc [symmetric] bind_type_bytes_def [of "binds ! i"])
qed

lemma execute_builds:
  assumes "unat num = length binds" and "list_all bind_ok binds"
  shows "builds alloc (trilogy_build_stmt_execute_packet alloc stmt_id flags (Some binds) num)
    (execute_payload stmt_id flags binds)"
proof (cases "binds = []")
  case True
  then have "\<not> num > 0" using assms(1) by (simp add: unat_eq_0)
  show ?thesis
    unfolding trilogy_build_stmt_execute_packet_def if_not_P [OF \<open>\<not> num > 0\<close>]
    by (rule builds_finalized, rule writes_cong, rule writes_checked [OF writes_uint8],
        rule writes_checked [OF writes_uint32], rule writes_checked [OF writes_uint8],
        rule writes_checked [OF writes_uint32], rule writes_ret)
      (simp add: True execute_payload_def TRILOGY_CMD_STMT_EXECUTE_def)
next
  case False
  then have pos: "num > 0" using assms(1) by (auto simp: word_less_nat_alt)
  have "writes alloc (checked (bind_types_loop (unat num) alloc binds 0) (\<lambda>_.
             bind_values_loop (unat num) alloc binds 0))
      (concat (map bind_type_bytes binds) @ concat (map (\<lambda>v. the (bind_value_bytes v)) binds))"
    using writes_bind_types_loop [of 0 "unat num" binds alloc] writes_bind_values_loop [of 0 "unat num" binds alloc]
      assms by (intro writes_checked) simp_all
  then have "writes alloc (checked (trilogy_builder_write_uint8 alloc 0x1) (\<lambda>_.
      checked (bind_types_loop (unat num) alloc binds 0) (\<lambda>_. bind_values_loop (unat num) alloc binds 0)))
      ([1] @ concat (map bind_type_bytes binds) @ concat (map (\<lambda>v. the (bind_value_bytes v)) binds))"
    by (rule writes_checked [OF writes_uint8])
  note tail = writes_null_bitmap [OF assms(1) this]
  show ?thesis
    unfolding trilogy_build_stmt_execute_packet_def if_P [OF pos] option.case execute_payload_def if_not_P [OF False]
    by (rule builds_finalized, rule writes_cong, rule writes_checked [OF writes_uint8],
        rule writes_checked [OF writes_uint32], rule writes_checked [OF writes_uint8],
        rule writes_checked [OF writes_uint32], rule tail)
      (simp add: TRILOGY_CMD_STMT_EXECUTE_def)
qed


section \<open>Reading\<close>

lemmas decode_steps =
  decodes_checked [OF uint8.decode_law [OF TrueI]] decodes_checked [OF uint16.decode_law [OF TrueI]]
  decodes_checked [OF uint32.decode_law [OF TrueI]] decodes_ret

lemma decodes_cong: "decodes m bs x \<Longrightarrow> bs = cs \<Longrightarrow> x = y \<Longrightarrow> decodes m cs y"
  by simp

lemma decodes_length_byte:
  "decodes (k n) bs x \<Longrightarrow> decodes (checked trilogy_reader_get_uint8 k) (n # bs) x"
  using decodes_checked [OF uint8.decode_law [OF TrueI], of k n bs x] by simp

lemma decodes_mapped: "decodes m bs x \<Longrightarrow> decodes (checked m (\<lambda>x. ret (f x))) bs (f x)"
  by (rule decodes_cong [OF decodes_checked [OF _ decodes_ret]]) simp_all

lemma decodes_date: "decodes get_date (date_bytes d) d"
proof -
  obtain y m dy h mi s us where d: "d = \<lparr>date_year = y, date_month = m, date_day = dy,
      date_datetime = \<lparr>dt_hour = h, dt_minute = mi, dt_second = s, dt_micro_seconds = us\<rparr>\<rparr>"
    by (metis trilogy_date.surjective trilogy_datetime.surjective unit.exhaust)
  consider (us) "us \<noteq> 0" | (clock) "us = 0" "h \<noteq> 0 \<or> mi \<noteq> 0 \<or> s \<noteq> 0"
    | (day) "us = 0" "h = 0" "mi = 0" "s = 0" "y \<noteq> 0 \<or> m \<noteq> 0 \<or> dy \<noteq> 0"
    | (zero) "us = 0" "h = 0" "mi = 0" "s = 0" "y = 0" "m = 0" "dy = 0" by blast
  then show ?thesis
  proof cases
    case us
    then have "date_bytes d = 11 # (le_bytes 2 y @ [m] @ [dy] @ [h] @ [mi] @ [s] @ le_bytes 4 us @ [])"
      by (simp add: d date_bytes_def Let_def)
    then show ?thesis
      unfolding get_date_def by (simp only:) (rule decodes_length_byte, simp, rule decodes_cong, (rule decode_steps)+, simp_all add: d)
  next
    case clock
    then have "date_bytes d = 7 # (le_bytes 2 y @ [m] @ [dy] @ [h] @ [mi] @ [s] @ [])"
      by (auto simp: d date_bytes_def Let_def)
    then show ?thesis
      using clock unfolding get_date_def
      by (simp only:) (rule decodes_length_byte, simp, rule decodes_cong, (rule decode_steps)+, simp_all add: d)
  next
    case day
    then have "date_bytes d = 4 # (le_bytes 2 y @ [m] @ [dy] @ [])"
      by (auto simp: d date_bytes_def Let_def)
    then show ?thesis
      using day unfolding get_date_def
      by (simp only:) (rule decodes_length_byte, simp, rule decodes_cong, (rule decode_steps)+, simp_all add: d)
  next
    case zero
    then show ?thesis
      unfolding get_date_def
      by (simp add: d date_bytes_def Let_def) (rule decodes_length_byte, simp add: decodes_ret d)
  qed
qed

text \<open>The time that is read back: one of whole days, or only a sign, comes back as zero.\<close>

definition received_time :: "trilogy_time \<Rightarrow> trilogy_time" where
  "received_time t =
     (if time_hour t = 0 \<and> time_minute t = 0 \<and> time_second t = 0 \<and> time_micro_seconds t = 0
      then \<lparr>time_is_negative = False, time_days = 0, time_hour = 0, time_minute = 0,
            time_second = 0, time_micro_seconds = 0\<rparr>
      else t)"

lemma decodes_time: "decodes get_time (time_bytes t) (received_time t)"
proof -
  obtain neg dy h mi s us where t: "t = \<lparr>time_is_negative = neg, time_days = dy, time_hour = h,
      time_minute = mi, time_second = s, time_micro_seconds = us\<rparr>"
    by (metis trilogy_time.surjective unit.exhaust)
  define sg :: u8 where "sg = (if neg then 1 else 0)"
  have sg: "(sg = 1) = neg" by (simp add: sg_def)
  consider (us) "us \<noteq> 0" | (clock) "us = 0" "h \<noteq> 0 \<or> mi \<noteq> 0 \<or> s \<noteq> 0"
    | (zero) "us = 0" "h = 0" "mi = 0" "s = 0" by blast
  then show ?thesis
  proof cases
    case us
    then have "time_bytes t = 12 # ([sg] @ le_bytes 4 dy @ [h] @ [mi] @ [s] @ le_bytes 4 us @ [])"
      by (simp add: t time_bytes_def Let_def sg_def)
    then show ?thesis
      using us unfolding get_time_def
      by (simp only:) (rule decodes_length_byte, simp, rule decodes_cong, (rule decode_steps)+, auto simp: t received_time_def sg)
  next
    case clock
    then have "time_bytes t = 8 # ([sg] @ le_bytes 4 dy @ [h] @ [mi] @ [s] @ [])"
      by (auto simp: t time_bytes_def Let_def sg_def)
    then show ?thesis
      using clock unfolding get_time_def
      by (simp only:) (rule decodes_length_byte, simp, rule decodes_cong, (rule decode_steps)+, auto simp: t received_time_def sg)
  next
    case zero
    then show ?thesis
      unfolding get_time_def
      by (simp add: t time_bytes_def Let_def) (rule decodes_length_byte, simp add: decodes_ret t received_time_def)
  qed
qed

definition received_value :: "trilogy_as \<Rightarrow> trilogy_as" where
  "received_value v = (case v of As_time t \<Rightarrow> As_time (received_time t) | _ \<Rightarrow> v)"

lemma get_value_str:
  "t \<in> set string_types \<Longrightarrow>
   get_value (type_code t) = checked trilogy_reader_get_lenenc_buffer (\<lambda>v. ret (As_str v))"
  by (auto simp: get_value_def string_types_def simp del: type_code.simps)

lemma decodes_value:
  assumes "value_bytes t v = Some bs" and "length bs < 2 ^ 64"
  shows "decodes (get_value (type_code t)) bs (received_value v)"
proof -
  show ?thesis
    using assms(1)
  proof (cases rule: value_bytes_cases)
    case (str x)
    have "length x < 2 ^ 64" using assms(2) str by (simp add: lenenc_string_def)
    with str decodes_mapped [OF lenenc_buffer.decode_law] show ?thesis
      by (simp add: get_value_str received_value_def)
  qed (auto simp: get_value_def received_value_def simp del: type_code.simps
        intro: decodes_mapped decodes_date decodes_time uint8.decode_law uint16.decode_law uint32.decode_law
          uint64.decode_law float.decode_law double.decode_law)
qed

lemma length_time_bytes: "length (time_bytes t) \<le> 13"
  by (simp add: time_bytes_def Let_def)

lemma length_date_bytes: "length (date_bytes t) \<le> 12"
  by (simp add: date_bytes_def Let_def)

end
