(* ===== verification/Binary_Rows.thy ===== *)
theory Binary_Rows
  imports Binary_Values
begin

text \<open>
  The rows of the binary protocol as a server sends them, and their round trip through
  \<^verbatim>\<open>trilogy_parse_stmt_row_packet\<close>.
\<close>

text \<open>The bytes of a value for a column, when the value has the type of the column.\<close>

definition cell_bytes :: "trilogy_column_packet \<Rightarrow> trilogy_as option \<Rightarrow> u8 list option" where
  "cell_bytes c v =
     (case v of
        None \<Rightarrow> Some []
      | Some x \<Rightarrow> (case type_of_code (col_type c) of None \<Rightarrow> None | Some t \<Rightarrow> value_bytes t x))"

definition cell_ok :: "trilogy_column_packet \<Rightarrow> trilogy_as option \<Rightarrow> bool" where
  "cell_ok c v \<longleftrightarrow> (case cell_bytes c v of None \<Rightarrow> False | Some bs \<Rightarrow> length bs < 2 ^ 64)"

definition stmt_row_bytes :: "trilogy_column_packet list \<Rightarrow> trilogy_as option list \<Rightarrow> u8 list" where
  "stmt_row_bytes columns vs =
     [0] @ null_bitmap ([False, False] @ map (\<lambda>v. v = None) vs) @
     concat (map (\<lambda>i. the (cell_bytes (columns ! i) (vs ! i))) [0..<length vs])"

text \<open>What an element of the array of the caller, \<open>old\<close> before, holds afterwards.\<close>

definition stored_cell ::
  "trilogy_column_packet \<Rightarrow> trilogy_as option \<Rightarrow> trilogy_binary_value \<Rightarrow> trilogy_binary_value" where
  "stored_cell c v old =
     (case v of
        None \<Rightarrow> old\<lparr>bv_is_null := True, bv_type := type_code TRILOGY_TYPE_NULL\<rparr>
      | Some x \<Rightarrow>
          \<lparr>bv_is_null = False,
           bv_is_unsigned = (bv_is_unsigned old \<or>
             ucast (col_flags c) AND column_flag TRILOGY_COLUMN_FLAG_UNSIGNED \<noteq> 0),
           bv_type = col_type c, bv_as = received_value x\<rparr>)"

definition stored_cells ::
  "nat \<Rightarrow> trilogy_column_packet list \<Rightarrow> trilogy_as option list \<Rightarrow> trilogy_binary_value list \<Rightarrow>
   trilogy_binary_value list" where
  "stored_cells i columns vs out =
     take i out @ map (\<lambda>j. stored_cell (columns ! j) (vs ! j) (out ! j)) [i..<length vs] @
     drop (length vs) out"

lemma stored_cells_step:
  assumes "i < length vs" and "length vs \<le> length out"
  shows "stored_cells (i + 1) columns vs (out[i := stored_cell (columns ! i) (vs ! i) (out ! i)]) =
    stored_cells i columns vs out"
  using assms
  by (simp add: stored_cells_def take_Suc_conv_app_nth upt_conv_Cons)

lemma cell_decodes:
  assumes "cell_bytes c (Some x) = Some bs" and "length bs < 2 ^ 64"
  shows "decodes (get_value (col_type c)) bs (received_value x)"
proof -
  obtain t where t: "type_of_code (col_type c) = Some t" "value_bytes t x = Some bs"
    using assms(1) by (auto simp: cell_bytes_def split: option.splits)
  then have "col_type c = type_code t" using type_of_code_Some by simp
  with decodes_value [OF t(2) assms(2)] show ?thesis by simp
qed

lemma binary_value_update:
  "v\<lparr>bv_is_null := a, bv_is_unsigned := b, bv_type := c, bv_as := d\<rparr> =
   \<lparr>bv_is_null = a, bv_is_unsigned = b, bv_type = c, bv_as = d\<rparr>"
  by (cases v) simp

lemma decodes_stmt_row_value:
  assumes "is_null bitmap bl (word_of_nat i) = Inr (v = None)"
    and "i < length out" and "i < length columns" and "cell_ok (columns ! i) v"
  shows "decodes (stmt_row_value bitmap bl columns i out) (the (cell_bytes (columns ! i) v))
           (out[i := stored_cell (columns ! i) v (out ! i)])"
proof (cases v)
  case None
  with assms show ?thesis
    by (simp add: stmt_row_value_def stored_cell_def cell_bytes_def decodes_ret)
next
  case (Some x)
  then obtain bs where bs: "cell_bytes (columns ! i) (Some x) = Some bs" "length bs < 2 ^ 64"
    using assms(4) by (auto simp: cell_ok_def split: option.splits)
  have "decodes (checked (get_value (col_type (columns ! i))) (\<lambda>v. ret (f v))) bs (f (received_value x))"
    for f :: "trilogy_as \<Rightarrow> trilogy_binary_value list"
    using cell_decodes [OF bs] by (rule decodes_mapped)
  with assms Some bs show ?thesis
    by (simp add: stmt_row_value_def stored_cell_def binary_value_update)
qed

lemma decodes_stmt_row_loop:
  assumes "\<And>i. i < length vs \<Longrightarrow> is_null bitmap bl (word_of_nat i) = Inr (vs ! i = None)"
    and "length vs \<le> length columns" and "\<And>i. i < length vs \<Longrightarrow> cell_ok (columns ! i) (vs ! i)"
  shows "i + k = length vs \<Longrightarrow> length vs \<le> length out \<Longrightarrow>
    decodes (stmt_row_loop k bitmap bl columns i out)
      (concat (map (\<lambda>i. the (cell_bytes (columns ! i) (vs ! i))) [i..<length vs]))
      (stored_cells i columns vs out)"
proof (induction k arbitrary: i out)
  case 0
  then show ?case by (simp add: stored_cells_def decodes_def)
next
  case (Suc k)
  let ?out = "out[i := stored_cell (columns ! i) (vs ! i) (out ! i)]"
  have i: "i < length vs" using Suc.prems by simp
  have step: "decodes (stmt_row_value bitmap bl columns i out) (the (cell_bytes (columns ! i) (vs ! i))) ?out"
    using assms i Suc.prems by (intro decodes_stmt_row_value) simp_all
  have "decodes (stmt_row_loop k bitmap bl columns (i + 1) ?out)
      (concat (map (\<lambda>i. the (cell_bytes (columns ! i) (vs ! i))) [i + 1..<length vs]))
      (stored_cells (i + 1) columns vs ?out)"
    using Suc.prems by (intro Suc.IH) simp_all
  from decodes_checked [where k = "stmt_row_loop k bitmap bl columns (i + 1)", OF step this] show ?case
    using i Suc.prems by (simp add: stored_cells_step [simplified] upt_conv_Cons)
qed

lemma parses_stmt_row:
  fixes n :: u64
  assumes "length vs + 9 < 2 ^ 64" and "unat n = length vs"
    and "length vs \<le> length columns" and "length vs \<le> length out"
    and "\<And>i. i < length vs \<Longrightarrow> cell_ok (columns ! i) (vs ! i)"
  shows "parses (parse_stmt_row_packet columns n out) (stmt_row_bytes columns vs) (stored_cells 0 columns vs out)"
proof -
  define bitmap where "bitmap = null_bitmap ([False, False] @ map (\<lambda>v. v = None) vs)"
  have bitmap: "length bitmap = (unat n + 9) div 8"
    using assms(2) by (simp add: bitmap_def length_null_bitmap)
  have null: "is_null bitmap ((n + 7 + 2) div 8) (word_of_nat i) = Inr (vs ! i = None)"
    if "i < length vs" for i
    using that assms(1,2) is_null_bit [of n i bitmap] bitmap
      bit_null_bitmap [of "i + 2" "[False, False] @ map (\<lambda>v. v = None) vs"]
    by (simp add: bitmap_def)
  have loop: "decodes (stmt_row_loop (unat n) bitmap ((n + 7 + 2) div 8) columns 0 out)
      (concat (map (\<lambda>i. the (cell_bytes (columns ! i) (vs ! i))) [0..<length vs])) (stored_cells 0 columns vs out)"
    unfolding assms(2) using null assms(3-5) by (intro decodes_stmt_row_loop) simp_all
  have "parses (checked (stmt_row_loop (unat n) bitmap ((n + 7 + 2) div 8) columns 0 out) (\<lambda>out_values.
      checked trilogy_reader_finish (\<lambda>_. ret out_values)))
      (concat (map (\<lambda>i. the (cell_bytes (columns ! i) (vs ! i))) [0..<length vs]) @ []) (stored_cells 0 columns vs out)"
    by (rule parses_checked [OF loop]) (rule parses_finish)
  moreover have "length bitmap = unat ((n + 7 + 2) div 8)"
    using bitmap unat_bitmap_len [of n] assms(1,2) by simp
  ultimately show ?thesis
    unfolding parse_stmt_row_packet_def stmt_row_bytes_def bitmap_def [symmetric] Let_def
    by (intro parse_steps parses_get_buffer) simp_all
qed

end
