(* ===== verification/Packet_Parser.thy ===== *)
theory Packet_Parser
  imports Wire_Format Buffer Error_Codes
begin

text \<open>
  \<^verbatim>\<open>src/packet_parser.c\<close>: the state machine that takes the frames off the byte stream and hands
  their payload to three callbacks. The callbacks and their \<^verbatim>\<open>user_data\<close> are the fields of a
  record over a type \<open>'u\<close>; a callback yields the \<^verbatim>\<open>int\<close> it returns, and \<open>Inl\<close> is for one that
  faults or never returns. The buffer of a call is the list of its \<^verbatim>\<open>len\<close> bytes, and the index
  \<^verbatim>\<open>i\<close> a natural number, since it never exceeds \<^verbatim>\<open>len\<close>.
\<close>

section \<open>The state machine\<close>

datatype parser_state = S_LEN_0 | S_LEN_1 | S_LEN_2 | S_SEQ | S_PAYLOAD

record 'u trilogy_packet_parser_callbacks =
  on_packet_begin :: "('u, int) op"
  on_packet_data :: "u8 list \<Rightarrow> ('u, int) op"
  on_packet_end :: "('u, int) op"

record trilogy_packet_parser =
  sequence_number :: u8
  bytes_remaining :: u24
  state :: parser_state
  fragment :: bool
  deferred_end_callback :: bool

text \<open>\<^verbatim>\<open>bytes_remaining\<close> is not set by the C function: it is the parameter \<open>garbage\<close>.\<close>

definition trilogy_packet_parser_init :: "u24 \<Rightarrow> trilogy_packet_parser" where
  "trilogy_packet_parser_init garbage =
     \<lparr>sequence_number = 0, bytes_remaining = garbage, state = S_LEN_0, fragment = False,
      deferred_end_callback = False\<rparr>"

text \<open>How an iteration ends: the loop goes on at an index, or the function returns.\<close>

datatype flow = Next nat | Return nat int

definition on_user :: "('u, 'a) op \<Rightarrow> (trilogy_packet_parser \<times> 'u, 'a) op" where
  "on_user m = on_part snd (\<lambda>u (p, _). (p, u)) m"

definition update ::
  "(trilogy_packet_parser \<Rightarrow> trilogy_packet_parser) \<Rightarrow> (trilogy_packet_parser \<times> 'u, unit) op" where
  "update f = put_state (\<lambda>(p, u). (f p, u))"

text \<open>Call a callback; a result other than 0 is the error and ends the function.\<close>

definition callback :: "('u, int) op \<Rightarrow> nat \<Rightarrow> (trilogy_packet_parser \<times> 'u, flow) op" where
  "callback m i =
     checked (on_user m) (\<lambda>rc. if rc \<noteq> 0 then ret (Return i rc) else ret (Next i))"

definition end_of_payload ::
  "'u trilogy_packet_parser_callbacks \<Rightarrow> nat \<Rightarrow> (trilogy_packet_parser \<times> 'u, flow) op" where
  "end_of_payload cb i =
     checked (update (\<lambda>p. p\<lparr>state := S_LEN_0\<rparr>)) (\<lambda>_.
     checked get_state (\<lambda>(p, u).
     if \<not> fragment p then callback (on_packet_end cb) i else ret (Next i)))"

definition parser_step ::
  "'u trilogy_packet_parser_callbacks \<Rightarrow> u8 list \<Rightarrow> nat \<Rightarrow> (trilogy_packet_parser \<times> 'u, flow) op" where
  "parser_step cb buff i =
     checked get_state (\<lambda>(p, u).
     let cur_byte = buff ! i in
     case state p of
       S_LEN_0 \<Rightarrow>
         checked (update (\<lambda>p. p\<lparr>bytes_remaining := ucast cur_byte, state := S_LEN_1\<rparr>)) (\<lambda>_.
         ret (Next (i + 1)))
     | S_LEN_1 \<Rightarrow>
         checked (update (\<lambda>p. p\<lparr>bytes_remaining := bytes_remaining p OR push_bit 8 (ucast cur_byte),
                                 state := S_LEN_2\<rparr>)) (\<lambda>_.
         ret (Next (i + 1)))
     | S_LEN_2 \<Rightarrow>
         (let was_fragment = fragment p;
              remaining = bytes_remaining p OR push_bit 16 (ucast cur_byte)
          in checked (update (\<lambda>p. p\<lparr>bytes_remaining := remaining,
                                     fragment := (unat remaining = TRILOGY_MAX_PACKET_LEN),
                                     state := S_SEQ\<rparr>)) (\<lambda>_.
             if \<not> was_fragment then callback (on_packet_begin cb) (i + 1) else ret (Next (i + 1))))
     | S_SEQ \<Rightarrow>
         if cur_byte \<noteq> sequence_number p then ret (Return i (rc_code TRILOGY_INVALID_SEQUENCE_ID))
         else checked (update (\<lambda>p. p\<lparr>sequence_number := sequence_number p + 1, state := S_PAYLOAD\<rparr>)) (\<lambda>_.
              if bytes_remaining p = 0 then end_of_payload cb (i + 1) else ret (Next (i + 1)))
     | S_PAYLOAD \<Rightarrow>
         (let ptr = drop i buff;
              chunk_length = (if length buff - i > unat (bytes_remaining p)
                              then unat (bytes_remaining p) else length buff - i);
              remaining = bytes_remaining p - word_of_nat chunk_length
          in checked (update (\<lambda>p. p\<lparr>bytes_remaining := remaining\<rparr>)) (\<lambda>_.
             checked (on_user (on_packet_data cb (take chunk_length ptr))) (\<lambda>rc.
             if rc \<noteq> 0 then
               checked (if remaining = 0 then update (\<lambda>p. p\<lparr>deferred_end_callback := True\<rparr>)
                        else ret ()) (\<lambda>_.
               ret (Return (i + chunk_length) rc))
             else if remaining = 0 then end_of_payload cb (i + chunk_length)
             else ret (Next (i + chunk_length))))))"

section \<open>Evaluation\<close>

lemma on_user_apply [simp]: "on_user m (p, u) = (case m u of (r, u') \<Rightarrow> (r, (p, u')))"
  by (simp add: on_user_def on_part_def)

lemma checked_update [simp]: "checked (update f) k (p, u) = k () (f p, u)"
  by (simp add: update_def)

lemma checked_get_pair [simp]: "checked get_state (\<lambda>(p, u). k p u) (p, u) = k p u (p, u)"
  by simp

lemma callback_apply:
  "callback m i (p, u) =
     (case m u of (r, u') \<Rightarrow>
        (case r of Inl e \<Rightarrow> Inl e | Inr rc \<Rightarrow> Inr (if rc \<noteq> 0 then Return i rc else Next i), (p, u')))"
  by (auto simp: callback_def checked_apply split: prod.splits sum.splits)

lemma end_of_payload_apply:
  "end_of_payload cb i (p, u) =
     (if \<not> fragment p then callback (on_packet_end cb) i (p\<lparr>state := S_LEN_0\<rparr>, u)
      else (Inr (Next i), (p\<lparr>state := S_LEN_0\<rparr>, u)))"
  by (simp add: end_of_payload_def)

lemma callback_Next:
  "callback m i (p, u) = (Inr (Next j), (p', u')) \<Longrightarrow> j = i \<and> p' = p"
  by (auto simp: callback_apply split: prod.splits sum.splits if_splits)

lemma end_of_payload_Next:
  "end_of_payload cb i (p, u) = (Inr (Next j), (p', u')) \<Longrightarrow> j = i \<and> state p' = S_LEN_0"
  by (auto simp: end_of_payload_apply split: if_splits dest: callback_Next)

text \<open>
  The step of each state, on a pair of the parser and the user data.
\<close>

lemma parser_step_len:
  "state p = S_LEN_0 \<Longrightarrow> parser_step cb buff i (p, u) =
     (Inr (Next (i + 1)), (p\<lparr>bytes_remaining := ucast (buff ! i), state := S_LEN_1\<rparr>, u))"
  "state p = S_LEN_1 \<Longrightarrow> parser_step cb buff i (p, u) =
     (Inr (Next (i + 1)),
      (p\<lparr>bytes_remaining := bytes_remaining p OR push_bit 8 (ucast (buff ! i)), state := S_LEN_2\<rparr>, u))"
  by (simp_all add: parser_step_def Let_def)

lemma parser_step_len_2:
  assumes "state p = S_LEN_2"
    and "p' = p\<lparr>bytes_remaining := bytes_remaining p OR push_bit 16 (ucast (buff ! i)),
        fragment := (unat (bytes_remaining p OR push_bit 16 (ucast (buff ! i))) = TRILOGY_MAX_PACKET_LEN),
        state := S_SEQ\<rparr>"
  shows "parser_step cb buff i (p, u) =
     (if fragment p then (Inr (Next (i + 1)), (p', u)) else callback (on_packet_begin cb) (i + 1) (p', u))"
  using assms(1) by (simp add: assms(2) parser_step_def Let_def)

lemma parser_step_seq:
  assumes "state p = S_SEQ" and "p' = p\<lparr>sequence_number := sequence_number p + 1, state := S_PAYLOAD\<rparr>"
  shows "parser_step cb buff i (p, u) =
     (if buff ! i \<noteq> sequence_number p then (Inr (Return i (rc_code TRILOGY_INVALID_SEQUENCE_ID)), (p, u))
      else if bytes_remaining p = 0 then end_of_payload cb (i + 1) (p', u)
      else (Inr (Next (i + 1)), (p', u)))"
  using assms(1) by (simp add: assms(2) parser_step_def Let_def)

lemma parser_step_payload:
  assumes "state p = S_PAYLOAD"
    and n: "n = min (length buff - i) (unat (bytes_remaining p))"
    and q: "q = p\<lparr>bytes_remaining := bytes_remaining p - word_of_nat n\<rparr>"
  shows "parser_step cb buff i (p, u) =
     (case on_packet_data cb (take n (drop i buff)) u of (r, u') \<Rightarrow>
       (case r of Inl e \<Rightarrow> (Inl e, (q, u'))
        | Inr rc \<Rightarrow>
            if rc \<noteq> 0 then
              (Inr (Return (i + n) rc),
               (if bytes_remaining q = 0 then q\<lparr>deferred_end_callback := True\<rparr> else q, u'))
            else if bytes_remaining q = 0 then end_of_payload cb (i + n) (q, u')
            else (Inr (Next (i + n)), (q, u'))))"
proof -
  have "(if length buff - i > unat (bytes_remaining p) then unat (bytes_remaining p) else length buff - i) = n"
    by (simp add: n min_def)
  then have "parser_step cb buff i (p, u) =
      checked (on_user (on_packet_data cb (take n (drop i buff)))) (\<lambda>rc.
        if rc \<noteq> 0 then
          checked (if bytes_remaining q = 0 then update (\<lambda>p. p\<lparr>deferred_end_callback := True\<rparr>) else ret ())
            (\<lambda>_. ret (Return (i + n) rc))
        else if bytes_remaining q = 0 then end_of_payload cb (i + n)
        else ret (Next (i + n))) (q, u)"
    by (simp add: parser_step_def Let_def assms(1) q)
  moreover obtain r u' where "on_packet_data cb (take n (drop i buff)) u = (r, u')"
    by (cases "on_packet_data cb (take n (drop i buff)) u")
  ultimately show ?thesis
    by (cases r) (simp_all add: checked_apply update_def)
qed

section \<open>The loop\<close>

text \<open>
  Every iteration consumes a byte, except one on a payload of which nothing remains: that one
  leaves the payload.
\<close>

definition parser_measure :: "u8 list \<Rightarrow> nat \<Rightarrow> trilogy_packet_parser \<Rightarrow> nat" where
  "parser_measure buff i p = 2 * (length buff - i) + (if state p = S_PAYLOAD then 1 else 0)"

lemma parser_step_measure:
  assumes i: "i < length buff" and step: "parser_step cb buff i (p, u) = (Inr (Next j), (p', u'))"
  shows "parser_measure buff j p' < parser_measure buff i p"
proof (cases "state p")
  case S_LEN_0
  with assms show ?thesis by (auto simp: parser_step_len parser_measure_def)
next
  case S_LEN_1
  with assms show ?thesis by (auto simp: parser_step_len parser_measure_def)
next
  case S_LEN_2
  with assms show ?thesis
    by (auto simp: parser_step_len_2 [OF _ refl] parser_measure_def split: if_splits dest: callback_Next)
next
  case S_SEQ
  with assms show ?thesis
    by (auto simp: parser_step_seq [OF _ refl] parser_measure_def split: if_splits dest: end_of_payload_Next)
next
  case S_PAYLOAD
  define n where "n = min (length buff - i) (unat (bytes_remaining p))"
  define q where "q = p\<lparr>bytes_remaining := bytes_remaining p - word_of_nat n\<rparr>"
  have "n \<noteq> 0" if "bytes_remaining q \<noteq> 0"
    using that i by (auto simp: n_def q_def min_def unat_gt_0 split: if_splits)
  moreover have "j = i + n \<and> (state p' = S_LEN_0 \<or> bytes_remaining q \<noteq> 0)"
    using step parser_step_payload [OF S_PAYLOAD n_def q_def, of cb u]
    by (auto split: prod.splits sum.splits if_splits dest: end_of_payload_Next)
  moreover have "n \<le> length buff - i" by (simp add: n_def)
  ultimately show ?thesis
    using i S_PAYLOAD by (auto simp: parser_measure_def)
qed

function execute_loop ::
  "'u trilogy_packet_parser_callbacks \<Rightarrow> u8 list \<Rightarrow> nat \<Rightarrow> (trilogy_packet_parser \<times> 'u, nat \<times> int) op" where
  "execute_loop cb buff i (p, u) =
     (if i < length buff then
        (case parser_step cb buff i (p, u) of (r, (p', u')) \<Rightarrow>
          (case r of Inl e \<Rightarrow> (Inl e, (p', u'))
           | Inr (Return j rc) \<Rightarrow> (Inr (j, rc), (p', u'))
           | Inr (Next j) \<Rightarrow> execute_loop cb buff j (p', u')))
      else (Inr (i, 0), (p, u)))"
  by pat_completeness auto
termination
  by (relation "measure (\<lambda>(cb, buff, i, p, u). parser_measure buff i p)")
    (auto dest!: sym [of _ "parser_step _ _ _ _"] intro: parser_step_measure)

declare execute_loop.simps [simp del]

definition trilogy_packet_parser_execute ::
  "'u trilogy_packet_parser_callbacks \<Rightarrow> u8 list \<Rightarrow> (trilogy_packet_parser \<times> 'u, nat \<times> int) op" where
  "trilogy_packet_parser_execute cb buff =
     checked get_state (\<lambda>(p, u).
     if deferred_end_callback p then
       checked (update (\<lambda>p. p\<lparr>deferred_end_callback := False\<rparr>)) (\<lambda>_.
       checked (on_user (on_packet_end cb)) (\<lambda>rc.
       if rc \<noteq> 0 then ret (0, rc) else execute_loop cb buff 0))
     else execute_loop cb buff 0)"

lemma execute_loop_end: "length buff \<le> i \<Longrightarrow> execute_loop cb buff i (p, u) = (Inr (i, 0), (p, u))"
  by (simp add: execute_loop.simps)

lemma execute_loop_Next:
  "i < length buff \<Longrightarrow> parser_step cb buff i (p, u) = (Inr (Next j), (p', u')) \<Longrightarrow>
   execute_loop cb buff i (p, u) = execute_loop cb buff j (p', u')"
  by (simp add: execute_loop.simps [of cb buff i p])

lemma execute_loop_Return:
  "i < length buff \<Longrightarrow> parser_step cb buff i (p, u) = (Inr (Return j rc), (p', u')) \<Longrightarrow>
   execute_loop cb buff i (p, u) = (Inr (j, rc), (p', u'))"
  by (simp add: execute_loop.simps)

lemma execute_fresh:
  "\<not> deferred_end_callback p \<Longrightarrow>
   trilogy_packet_parser_execute cb buff (p, u) = execute_loop cb buff 0 (p, u)"
  by (simp add: trilogy_packet_parser_execute_def)

section \<open>The bytes of a header\<close>

lemma header_length_bytes:
  "(ucast (word_of_nat n :: u8) OR push_bit 8 (ucast (word_of_nat (n div 256) :: u8))
           OR push_bit 16 (ucast (word_of_nat (n div 65536) :: u8)) :: u24) = word_of_nat n"
proof -
  have d: "n div 256 = drop_bit 8 n" "n div 65536 = drop_bit 16 n"
    by (simp_all add: drop_bit_eq_div)
  have "(word_of_nat (n div 256) :: u8) = ucast (drop_bit 8 (word_of_nat n :: u24))"
    and "(word_of_nat (n div 65536) :: u8) = ucast (drop_bit 16 (word_of_nat n :: u24))"
    and "(word_of_nat n :: u8) = ucast (word_of_nat n :: u24)"
    unfolding d by (auto intro!: bit_word_eqI simp: bit_simps)
  moreover have "of_le_bytes (le_bytes 3 (word_of_nat n :: u24)) = (word_of_nat n :: u24)"
    by (rule of_le_bytes_full) simp
  ultimately show ?thesis
    by (simp add: le_bytes_def numeral_3_eq_3 push_bit_or ac_simps)
qed

lemma unat_u24_lt: "unat (x :: u24) < 16777216"
  using unsigned_less [of x] by simp

lemma unat_header_length:
  "n \<le> TRILOGY_MAX_PACKET_LEN \<Longrightarrow> unat (word_of_nat n :: u24) = n"
  by (simp add: TRILOGY_MAX_PACKET_LEN_def unat_of_nat take_bit_nat_eq_self)

text \<open>The length in the next header of a payload, and the header.\<close>

definition frame_length :: "u8 list \<Rightarrow> nat" where
  "frame_length t = min (length t) TRILOGY_MAX_PACKET_LEN"

definition is_fragment :: "u8 list \<Rightarrow> bool" where
  "is_fragment t \<longleftrightarrow> TRILOGY_MAX_PACKET_LEN \<le> length t"

text \<open>What follows the header: the bytes of the frame, and the frames after it.\<close>

definition body :: "u8 \<Rightarrow> u8 list \<Rightarrow> u8 list" where
  "body seq t =
     (if is_fragment t
      then take TRILOGY_MAX_PACKET_LEN t @ frames (seq + 1) (drop TRILOGY_MAX_PACKET_LEN t) else t)"

lemma frames_body: "frames seq t = packet_header (frame_length t) seq @ body seq t"
  by (simp add: frames.simps [of seq t] frame_length_def is_fragment_def body_def not_less)

lemma fragment_length_eq: "frame_length t = TRILOGY_MAX_PACKET_LEN \<longleftrightarrow> is_fragment t"
  unfolding frame_length_def is_fragment_def by linarith

lemma frame_length_le [simp]: "frame_length t \<le> TRILOGY_MAX_PACKET_LEN"
  by (simp add: frame_length_def)

text \<open>The sequence number after all frames of a payload.\<close>

definition after_fragments :: "u8 \<Rightarrow> u8 list \<Rightarrow> u8" where
  "after_fragments seq t = seq + word_of_nat (length t div TRILOGY_MAX_PACKET_LEN + 1)"

lemma after_fragments_short: "\<not> is_fragment t \<Longrightarrow> after_fragments seq t = seq + 1"
  by (simp add: after_fragments_def is_fragment_def)

lemma after_fragments_full:
  "is_fragment t \<Longrightarrow> after_fragments seq t = after_fragments (seq + 1) (drop TRILOGY_MAX_PACKET_LEN t)"
  by (simp add: after_fragments_def is_fragment_def le_div_geq)

text \<open>Two lists of which one is a prefix of the other.\<close>

definition agree :: "'a list \<Rightarrow> 'a list \<Rightarrow> bool" where
  "agree xs ys \<longleftrightarrow> take (length ys) xs = take (length xs) ys"

lemma agree_drop: "agree xs ys \<Longrightarrow> agree (drop n xs) (drop n ys)"
  by (auto simp: agree_def take_drop [symmetric] add.commute) (metis drop_take)

lemma agree_take: "agree xs ys \<Longrightarrow> n \<le> length xs \<Longrightarrow> n \<le> length ys \<Longrightarrow> take n xs = take n ys"
  unfolding agree_def by (metis min.absorb1 take_take)

lemma agree_append: "agree (xs @ ys) zs \<Longrightarrow> agree xs zs"
proof (cases "length xs \<le> length zs")
  case True
  assume "agree (xs @ ys) zs"
  from agree_take [OF this, of "length xs"] True show ?thesis by (simp add: agree_def)
next
  case False
  assume "agree (xs @ ys) zs"
  from agree_take [OF this, of "length zs"] False show ?thesis by (simp add: agree_def)
qed

lemma agree_hd: "agree (drop i buff) (y # ys) \<Longrightarrow> i < length buff \<Longrightarrow> buff ! i = y"
  by (auto simp: agree_def Cons_nth_drop_Suc [symmetric] take_Cons' split: if_splits)

section \<open>Reading in pieces\<close>

text \<open>
  The caller's loop: hand over the pieces one after the other until a call returns an error
  or a pause. The result is the number of bytes consumed in all, and the last code.
\<close>

primrec feed ::
  "'u trilogy_packet_parser_callbacks \<Rightarrow> u8 list list \<Rightarrow> (trilogy_packet_parser \<times> 'u, nat \<times> int) op" where
  "feed cb [] = ret (0, 0)"
| "feed cb (c # cs) =
     checked (trilogy_packet_parser_execute cb c) (\<lambda>(n, rc).
     if rc \<noteq> 0 then ret (n, rc)
     else checked (feed cb cs) (\<lambda>(m, rc). ret (n + m, rc)))"

section \<open>Delivery\<close>

text \<open>
  The contract of the callbacks that collect a packet: \<^verbatim>\<open>on_packet_begin\<close> empties what has been
  collected, \<^verbatim>\<open>on_packet_data\<close> appends or refuses with a negative code, and \<^verbatim>\<open>on_packet_end\<close>
  pauses the parser by returning 1. The parser delivers the payload of a stream of frames to
  any such sink, in whatever pieces the bytes arrive.
\<close>

locale packet_sink =
  fixes cb :: "'u trilogy_packet_parser_callbacks"
    and content :: "'u \<Rightarrow> u8 list" and sound :: "'u \<Rightarrow> bool" and tight :: "nat \<Rightarrow> bool"
  assumes begin_law: "sound u \<Longrightarrow>
      \<exists>u'. on_packet_begin cb u = (Inr 0, u') \<and> sound u' \<and> content u' = []"
    and data_law: "sound u \<Longrightarrow> length bs \<le> TRILOGY_MAX_PACKET_LEN \<Longrightarrow>
      \<exists>rc u'. on_packet_data cb bs u = (Inr rc, u') \<and> sound u' \<and> rc \<le> 0 \<and>
        (rc = 0 \<longrightarrow> content u' = content u @ bs) \<and> (rc < 0 \<longrightarrow> tight (length (content u) + length bs))"
    and end_law: "sound u \<Longrightarrow> on_packet_end cb u = (Inr 1, u)"
    and tight_mono: "tight m \<Longrightarrow> m \<le> n \<Longrightarrow> tight n"
begin

text \<open>
  \<open>expects p fin todo s\<close>: the parser is inside the frames of the payload \<open>p\<close>; \<open>todo\<close> is what
  remains of them, and \<open>fin\<close> the sequence number after them.
\<close>

fun expects :: "u8 list \<Rightarrow> u8 \<Rightarrow> u8 list \<Rightarrow> trilogy_packet_parser \<times> 'u \<Rightarrow> bool" where
  "expects p fin todo (q, u) \<longleftrightarrow>
     sound u \<and> \<not> deferred_end_callback q \<and>
     (\<exists>t. case state q of
        S_LEN_0 \<Rightarrow> todo = frames (sequence_number q) t \<and> fin = after_fragments (sequence_number q) t
            \<and> p = (if fragment q then content u @ t else t)
      | S_LEN_1 \<Rightarrow> todo = drop 1 (frames (sequence_number q) t) \<and> fin = after_fragments (sequence_number q) t
            \<and> p = (if fragment q then content u @ t else t)
            \<and> bytes_remaining q = ucast (word_of_nat (frame_length t) :: u8)
      | S_LEN_2 \<Rightarrow> todo = drop 2 (frames (sequence_number q) t) \<and> fin = after_fragments (sequence_number q) t
            \<and> p = (if fragment q then content u @ t else t)
            \<and> bytes_remaining q = (ucast (word_of_nat (frame_length t) :: u8)
                OR push_bit 8 (ucast (word_of_nat (frame_length t div 256) :: u8)))
      | S_SEQ \<Rightarrow> todo = drop 3 (frames (sequence_number q) t) \<and> fin = after_fragments (sequence_number q) t
            \<and> p = content u @ t \<and> fragment q = is_fragment t
            \<and> bytes_remaining q = word_of_nat (frame_length t)
      | S_PAYLOAD \<Rightarrow> bytes_remaining q \<noteq> 0 \<and> unat (bytes_remaining q) \<le> length t \<and> p = content u @ t
            \<and> (if fragment q
               then todo = take (unat (bytes_remaining q)) t
                        @ frames (sequence_number q) (drop (unat (bytes_remaining q)) t)
                 \<and> fin = after_fragments (sequence_number q) (drop (unat (bytes_remaining q)) t)
               else todo = t \<and> unat (bytes_remaining q) = length t \<and> fin = sequence_number q))"

definition delivered :: "u8 list \<Rightarrow> u8 \<Rightarrow> trilogy_packet_parser \<times> 'u \<Rightarrow> bool" where
  "delivered p fin s \<longleftrightarrow>
     (case s of (q, u) \<Rightarrow> sound u \<and> content u = p \<and> state q = S_LEN_0 \<and> sequence_number q = fin \<and>
        \<not> fragment q \<and> \<not> deferred_end_callback q)"

lemma step_len:
  assumes exp: "expects p fin todo (q, u)" and agree: "agree (drop i buff) todo" and i: "i < length buff"
    and st: "state q = S_LEN_0 \<or> state q = S_LEN_1"
  shows "\<exists>q'. parser_step cb buff i (q, u) = (Inr (Next (i + 1)), (q', u)) \<and>
           1 < length todo \<and> expects p fin (drop 1 todo) (q', u)"
proof (cases "state q = S_LEN_0")
  case True
  obtain t where t: "todo = frames (sequence_number q) t" "fin = after_fragments (sequence_number q) t"
      "p = (if fragment q then content u @ t else t)" and ok: "sound u" "\<not> deferred_end_callback q"
    using exp True by auto
  then have "buff ! i = word_of_nat (frame_length t)"
    using agree i by (auto simp: frames_body packet_header_def dest: agree_hd)
  then show ?thesis
    using True t ok by (auto simp: parser_step_len frames_body [of _ t] intro!: exI [of _ t])
next
  case False
  then have S: "state q = S_LEN_1" using st by simp
  obtain t where t: "todo = drop 1 (frames (sequence_number q) t)" "fin = after_fragments (sequence_number q) t"
      "p = (if fragment q then content u @ t else t)" "bytes_remaining q = ucast (word_of_nat (frame_length t) :: u8)"
      and ok: "sound u" "\<not> deferred_end_callback q"
    using exp S by auto
  then have "buff ! i = word_of_nat (frame_length t div 256)"
    using agree i by (auto simp: frames_body packet_header_def dest: agree_hd)
  then show ?thesis
    using S t ok
    by (auto simp: parser_step_len frames_body [of _ t] numeral_2_eq_2 intro!: exI [of _ t])
qed

lemma step_len_2:
  assumes exp: "expects p fin todo (q, u)" and agree: "agree (drop i buff) todo" and i: "i < length buff"
    and S: "state q = S_LEN_2"
  shows "\<exists>q' u'. parser_step cb buff i (q, u) = (Inr (Next (i + 1)), (q', u')) \<and>
           1 < length todo \<and> expects p fin (drop 1 todo) (q', u')"
proof -
  obtain t where t: "todo = drop 2 (frames (sequence_number q) t)" "fin = after_fragments (sequence_number q) t"
      "p = (if fragment q then content u @ t else t)"
      and br: "bytes_remaining q = (ucast (word_of_nat (frame_length t) :: u8)
          OR push_bit 8 (ucast (word_of_nat (frame_length t div 256) :: u8)))"
      and ok: "sound u" "\<not> deferred_end_callback q"
    using exp S by auto
  define q' where "q' = q\<lparr>bytes_remaining := bytes_remaining q OR push_bit 16 (ucast (buff ! i)),
      fragment := (unat (bytes_remaining q OR push_bit 16 (ucast (buff ! i))) = TRILOGY_MAX_PACKET_LEN),
      state := S_SEQ\<rparr>"
  have "buff ! i = word_of_nat (frame_length t div 65536)"
    using agree i t(1) by (auto simp: frames_body packet_header_def dest: agree_hd)
  then have br': "bytes_remaining q OR push_bit 16 (ucast (buff ! i)) = word_of_nat (frame_length t)"
    by (simp add: br header_length_bytes or.assoc)
  moreover have "unat (word_of_nat (frame_length t) :: u24) = TRILOGY_MAX_PACKET_LEN \<longleftrightarrow> is_fragment t"
    using fragment_length_eq by (simp add: unat_header_length)
  ultimately have q': "q' = q\<lparr>bytes_remaining := word_of_nat (frame_length t), fragment := is_fragment t,
      state := S_SEQ\<rparr>"
    by (simp add: q'_def)
  have exp': "expects p fin (drop 1 todo) (q', u')" if "sound u'" "p = content u' @ t" for u'
    using that t(1,2) ok q' by (auto simp: numeral_3_eq_3 intro!: exI [of _ t])
  have long: "1 < length todo" using t(1) by (simp add: frames_body)
  show ?thesis
  proof (cases "fragment q")
    case True
    then show ?thesis
      using parser_step_len_2 [OF S q'_def, of cb u] exp' [of u] ok t long by auto
  next
    case False
    moreover obtain u' where "on_packet_begin cb u = (Inr 0, u')" "sound u'" "content u' = []"
      using begin_law [OF ok(1)] by blast
    ultimately show ?thesis
      using parser_step_len_2 [OF S q'_def, of cb u] exp' [of u'] t long by (auto simp: callback_apply)
  qed
qed

lemma leave_payload:
  assumes "sound u" and "\<not> deferred_end_callback q" and "\<not> fragment q"
    and "content u = p" and "sequence_number q = fin"
  shows "\<exists>q'. end_of_payload cb i (q, u) = (Inr (Return i 1), (q', u)) \<and> delivered p fin (q', u)"
  using assms end_law [OF assms(1)]
  by (auto simp: end_of_payload_apply callback_apply delivered_def)

lemma step_seq:
  assumes exp: "expects p fin todo (q, u)" and agree: "agree (drop i buff) todo" and i: "i < length buff"
    and S: "state q = S_SEQ"
  shows "\<exists>q'. parser_step cb buff i (q, u) = (Inr (Next (i + 1)), (q', u)) \<and>
             1 < length todo \<and> expects p fin (drop 1 todo) (q', u)
         \<or> parser_step cb buff i (q, u) = (Inr (Return (i + 1) 1), (q', u)) \<and>
             length todo = 1 \<and> delivered p fin (q', u)"
proof -
  obtain t where t: "todo = drop 3 (frames (sequence_number q) t)" "fin = after_fragments (sequence_number q) t"
      "p = content u @ t" "fragment q = is_fragment t" "bytes_remaining q = word_of_nat (frame_length t)"
      and ok: "sound u" "\<not> deferred_end_callback q"
    using exp S by auto
  have todo: "todo = sequence_number q # body (sequence_number q) t"
    using t(1) by (simp add: frames_body packet_header_def numeral_3_eq_3)
  then have here: "buff ! i = sequence_number q"
    using agree i by (auto dest: agree_hd)
  define q' where "q' = q\<lparr>sequence_number := sequence_number q + 1, state := S_PAYLOAD\<rparr>"
  show ?thesis
  proof (cases "t = []")
    case True
    then have "\<not> is_fragment t" using max_packet_pos by (simp add: is_fragment_def)
    then obtain q'' where "end_of_payload cb (i + 1) (q', u) = (Inr (Return (i + 1) 1), (q'', u))"
        and "delivered p fin (q'', u)"
      using leave_payload [of u q' p fin "i + 1"] ok t True
      by (auto simp: q'_def after_fragments_short)
    moreover have "bytes_remaining q = 0" using t(5) True by (simp add: frame_length_def)
    ultimately show ?thesis
      using parser_step_seq [OF S q'_def, of cb buff i u] here todo True \<open>\<not> is_fragment t\<close>
      by (auto simp: body_def)
  next
    case False
    have fl: "unat (bytes_remaining q) = frame_length t" using t(5) by (simp add: unat_header_length)
    then have nz: "bytes_remaining q \<noteq> 0" and le: "unat (bytes_remaining q) \<le> length t"
      using False max_packet_pos by (auto simp: frame_length_def word_unat_eq_iff simp del: max_packet_pos)
    have "expects p fin (body (sequence_number q) t) (q', u)"
    proof (cases "is_fragment t")
      case True
      then have "frame_length t = TRILOGY_MAX_PACKET_LEN" by (simp add: frame_length_def is_fragment_def)
      then show ?thesis
        using True nz le ok t fl
        by (auto simp: q'_def body_def after_fragments_full [OF True] intro!: exI [of _ t])
    next
      case False
      then have "frame_length t = length t" by (simp add: frame_length_def is_fragment_def)
      then show ?thesis
        using False nz ok t fl
        by (auto simp: q'_def body_def after_fragments_short intro!: exI [of _ t])
    qed
    moreover have "body (sequence_number q) t \<noteq> []"
      using False by (auto simp: body_def frames_body packet_header_def)
    ultimately show ?thesis
      using parser_step_seq [OF S q'_def, of cb buff i u] here todo nz by auto
  qed
qed

lemma step_payload:
  assumes exp: "expects p fin todo (q, u)" and agree: "agree (drop i buff) todo" and i: "i < length buff"
    and S: "state q = S_PAYLOAD"
  shows "\<exists>n q' u'. 0 < n \<and> n \<le> length todo \<and> i + n \<le> length buff \<and>
           (parser_step cb buff i (q, u) = (Inr (Next (i + n)), (q', u')) \<and>
              n < length todo \<and> expects p fin (drop n todo) (q', u')
          \<or> (\<exists>rc < 0. parser_step cb buff i (q, u) = (Inr (Return (i + n) rc), (q', u')) \<and>
              sound u' \<and> tight (length p))
          \<or> parser_step cb buff i (q, u) = (Inr (Return (i + n) 1), (q', u')) \<and>
              n = length todo \<and> delivered p fin (q', u'))"
proof -
  define n where "n = min (length buff - i) (unat (bytes_remaining q))"
  define q' where "q' = q\<lparr>bytes_remaining := bytes_remaining q - word_of_nat n\<rparr>"
  obtain t where nz: "bytes_remaining q \<noteq> 0" and le: "unat (bytes_remaining q) \<le> length t"
      and p: "p = content u @ t" and ok: "sound u" "\<not> deferred_end_callback q"
      and frag: "fragment q \<Longrightarrow> todo = take (unat (bytes_remaining q)) t
                      @ frames (sequence_number q) (drop (unat (bytes_remaining q)) t)
                \<and> fin = after_fragments (sequence_number q) (drop (unat (bytes_remaining q)) t)"
      and last: "\<not> fragment q \<Longrightarrow> todo = t \<and> unat (bytes_remaining q) = length t \<and> fin = sequence_number q"
    using exp S by (auto split: if_splits)
  have n: "0 < n" "n \<le> unat (bytes_remaining q)" "i + n \<le> length buff"
    using i nz by (auto simp: n_def unat_gt_0)
  have q'n: "unat (bytes_remaining q') = unat (bytes_remaining q) - n"
  proof -
    have "n < 2 ^ 24" using n(2) unat_u24_lt [of "bytes_remaining q"] by simp
    then have "unat (word_of_nat n :: u24) = n" by (simp add: unat_of_nat take_bit_nat_eq_self)
    then show ?thesis using n(2) by (simp add: q'_def unat_sub word_le_nat_alt)
  qed
  have todo: "unat (bytes_remaining q) \<le> length todo" "take n todo = take n t"
    using frag last le n(2) by (cases "fragment q"; auto simp: min_def)+
  then have data: "take n (drop i buff) = take n t"
    using agree_take [OF agree, of n] n by simp
  have "length (take n t) \<le> TRILOGY_MAX_PACKET_LEN"
    using n(2) unat_u24_lt [of "bytes_remaining q"] by (simp add: TRILOGY_MAX_PACKET_LEN_def)
  then obtain rc u' where cb: "on_packet_data cb (take n t) u = (Inr rc, u')" and ok': "sound u'" and "rc \<le> 0"
      and app: "rc = 0 \<longrightarrow> content u' = content u @ take n t"
      and tight: "rc < 0 \<longrightarrow> tight (length (content u) + length (take n t))"
    using data_law [OF ok(1)] by blast
  note step = parser_step_payload [OF S n_def q'_def, of cb u, unfolded data cb prod.case sum.case]
  consider "rc < 0" | "rc = 0" "bytes_remaining q' \<noteq> 0" | "rc = 0" "bytes_remaining q' = 0" "fragment q"
    | "rc = 0" "bytes_remaining q' = 0" "\<not> fragment q"
    using \<open>rc \<le> 0\<close> by fastforce
  then show ?thesis
  proof cases
    case 1
    then have "tight (length p)" using tight by (auto simp: p intro: tight_mono)
    with 1 show ?thesis using step n todo ok' by (intro exI [of _ n]) auto
  next
    case 2
    then have "n < unat (bytes_remaining q)" using q'n n(2) by (cases "n = unat (bytes_remaining q)") (auto simp: word_unat_eq_iff)
    moreover have "expects p fin (drop n todo) (q', u')"
    proof (cases "fragment q")
      case True
      then show ?thesis
        using 2 S frag p app ok ok' le q'n n(2)
        by (auto simp: q'_def drop_take [symmetric] intro!: exI [of _ "drop n t"])
    next
      case False
      then show ?thesis
        using 2 S last p app ok ok' le q'n n(2) by (auto simp: q'_def intro!: exI [of _ "drop n t"])
    qed
    ultimately show ?thesis using step n todo 2 by (intro exI [of _ n]) auto
  next
    case 3
    then have nn: "n = unat (bytes_remaining q)" using q'n n(2) by simp
    have "expects p fin (drop n todo) (q'\<lparr>state := S_LEN_0\<rparr>, u')"
      using 3 frag p app ok ok' le nn by (auto simp: q'_def intro!: exI [of _ "drop n t"])
    moreover have "n < length todo" using frag 3 nn le by (simp add: frames_body)
    moreover have "end_of_payload cb (i + n) (q', u') = (Inr (Next (i + n)), (q'\<lparr>state := S_LEN_0\<rparr>, u'))"
      using 3 by (simp add: end_of_payload_apply q'_def)
    ultimately show ?thesis using step n todo 3 by (intro exI [of _ n]) auto
  next
    case 4
    then have nn: "n = unat (bytes_remaining q)" using q'n n(2) by simp
    then have "n = length t" "n = length todo" "content u' = p"
      using last 4 app p by auto
    moreover obtain q'' where "end_of_payload cb (i + n) (q', u') = (Inr (Return (i + n) 1), (q'', u'))"
        and "delivered p fin (q'', u')"
      using leave_payload [of u' q' p fin "i + n"] ok ok' 4 last calculation by (auto simp: q'_def)
    ultimately show ?thesis using step n 4 by (intro exI [of _ n]) auto
  qed
qed

lemma step_expects:
  assumes "expects p fin todo (q, u)" and "agree (drop i buff) todo" and "i < length buff"
  shows "\<exists>n q' u'. 0 < n \<and> n \<le> length todo \<and> i + n \<le> length buff \<and>
           (parser_step cb buff i (q, u) = (Inr (Next (i + n)), (q', u')) \<and>
              n < length todo \<and> expects p fin (drop n todo) (q', u')
          \<or> (\<exists>rc < 0. parser_step cb buff i (q, u) = (Inr (Return (i + n) rc), (q', u')) \<and>
              sound u' \<and> tight (length p))
          \<or> parser_step cb buff i (q, u) = (Inr (Return (i + n) 1), (q', u')) \<and>
              n = length todo \<and> delivered p fin (q', u'))"
proof (cases "state q")
  case S_PAYLOAD
  then show ?thesis using step_payload [OF assms] by blast
next
  case S_LEN_0
  then show ?thesis using step_len [OF assms] assms(3)
    by (intro exI [of _ 1]) (auto simp del: expects.simps)
next
  case S_LEN_1
  then show ?thesis using step_len [OF assms] assms(3)
    by (intro exI [of _ 1]) (auto simp del: expects.simps)
next
  case S_LEN_2
  then show ?thesis using step_len_2 [OF assms] assms(3)
    by (intro exI [of _ 1]) (auto simp del: expects.simps)
next
  case S_SEQ
  then show ?thesis using step_seq [OF assms] assms(3)
    by (intro exI [of _ 1]) (auto simp del: expects.simps)
qed

declare expects.simps [simp del]

text \<open>
  A call that is at index \<open>i\<close> of a buffer of \<open>len\<close> bytes: it delivers the packet, or consumes
  the whole buffer and waits for the rest, or stops at a refusal of the sink.
\<close>

definition outcome ::
  "u8 list \<Rightarrow> u8 \<Rightarrow> u8 list \<Rightarrow> nat \<Rightarrow> nat \<Rightarrow> (stop + nat \<times> int) \<times> (trilogy_packet_parser \<times> 'u) \<Rightarrow> bool" where
  "outcome p fin todo i len res \<longleftrightarrow>
     (case res of (r, s) \<Rightarrow>
        r = Inr (i + length todo, 1) \<and> i + length todo \<le> len \<and> delivered p fin s
      \<or> r = Inr (len, 0) \<and> len < i + length todo \<and> expects p fin (drop (len - i) todo) s
      \<or> (\<exists>n rc. r = Inr (n, rc) \<and> rc < 0 \<and> i \<le> n \<and> n \<le> i + length todo \<and> n \<le> len \<and> sound (snd s)
          \<and> tight (length p)))"

lemma outcome_later:
  assumes "outcome p fin (drop n todo) (i + n) len res" and "n < length todo" and "i + n \<le> len"
  shows "outcome p fin todo i len res"
proof -
  have "drop (len - (i + n)) (drop n todo) = drop (len - i) todo"
    using assms(3) by simp
  with assms show ?thesis
    unfolding outcome_def by (auto split: prod.splits)
qed

lemma loop_outcome:
  assumes "expects p fin todo (q, u)" and "agree (drop i buff) todo" and "i \<le> length buff" and "todo \<noteq> []"
  shows "outcome p fin todo i (length buff) (execute_loop cb buff i (q, u))"
  using assms
proof (induction "length todo" arbitrary: i q u todo rule: less_induct)
  case less
  show ?case
  proof (cases "i = length buff")
    case True
    then show ?thesis using less.prems by (simp add: execute_loop_end outcome_def)
  next
    case False
    then have i: "i < length buff" using less.prems by simp
    from step_expects [OF less.prems(1,2) i]
    obtain n q' u' where n: "0 < n" "n \<le> length todo" "i + n \<le> length buff"
      and step: "(parser_step cb buff i (q, u) = (Inr (Next (i + n)), (q', u')) \<and>
              n < length todo \<and> expects p fin (drop n todo) (q', u')
          \<or> (\<exists>rc < 0. parser_step cb buff i (q, u) = (Inr (Return (i + n) rc), (q', u')) \<and>
              sound u' \<and> tight (length p))
          \<or> parser_step cb buff i (q, u) = (Inr (Return (i + n) 1), (q', u')) \<and>
              n = length todo \<and> delivered p fin (q', u'))"
      by blast
    from step show ?thesis
    proof (elim disjE exE conjE)
      assume next': "parser_step cb buff i (q, u) = (Inr (Next (i + n)), (q', u'))"
        and lt: "n < length todo" and exp: "expects p fin (drop n todo) (q', u')"
      have "agree (drop (i + n) buff) (drop n todo)"
        using agree_drop [OF less.prems(2), of n] by (simp add: add.commute)
      then have "outcome p fin (drop n todo) (i + n) (length buff) (execute_loop cb buff (i + n) (q', u'))"
        using lt n exp by (intro less.hyps) simp_all
      then show ?thesis
        unfolding execute_loop_Next [OF i next'] using lt n(3) by (rule outcome_later)
    qed (use n i in \<open>auto simp: execute_loop_Return outcome_def\<close>)
  qed
qed

lemma execute_outcome:
  assumes "expects p fin todo (q, u)" and "agree buff todo" and "todo \<noteq> []"
  shows "outcome p fin todo 0 (length buff) (trilogy_packet_parser_execute cb buff (q, u))"
proof -
  have "\<not> deferred_end_callback q" using assms(1) by (simp add: expects.simps)
  with loop_outcome [OF assms(1), of 0 buff] assms(2,3) show ?thesis
    by (simp add: execute_fresh)
qed

lemma expects_start:
  assumes "sound u" and "state q = S_LEN_0" and "\<not> fragment q" and "\<not> deferred_end_callback q"
  shows "expects p (after_fragments (sequence_number q) p) (frames (sequence_number q) p) (q, u)"
  using assms by (auto simp: expects.simps intro!: exI [of _ p])

lemma outcome_shift:
  "outcome p fin todo 0 len (r, s) \<Longrightarrow>
   outcome p fin todo k (k + len) (case r of Inl e \<Rightarrow> Inl e | Inr (m, rc) \<Rightarrow> Inr (k + m, rc), s)"
  by (auto simp: outcome_def)

lemma feed_outcome:
  assumes "expects p fin todo (q, u)" and "agree (concat cs) todo" and "todo \<noteq> []"
  shows "outcome p fin todo 0 (length (concat cs)) (feed cb cs (q, u))"
  using assms
proof (induction cs arbitrary: q u todo)
  case Nil
  then show ?case by (simp add: outcome_def)
next
  case (Cons c cs)
  have "agree c todo"
    using Cons.prems(2) by (intro agree_append [of c "concat cs"]) simp
  from execute_outcome [OF Cons.prems(1) this Cons.prems(3)]
  obtain r q' u' where run: "trilogy_packet_parser_execute cb c (q, u) = (r, (q', u'))"
    and out: "outcome p fin todo 0 (length c) (r, (q', u'))"
    by (cases "trilogy_packet_parser_execute cb c (q, u)") auto
  consider "r = Inr (length todo, 1)" "length todo \<le> length c" "delivered p fin (q', u')"
    | "r = Inr (length c, 0)" "length c < length todo" "expects p fin (drop (length c) todo) (q', u')"
    | n rc where "r = Inr (n, rc)" "rc < 0" "n \<le> length todo" "n \<le> length c" "sound u'" "tight (length p)"
    using out by (auto simp: outcome_def)
  then show ?case
  proof cases
    case 2
    have "agree (concat cs) (drop (length c) todo)"
      using agree_drop [OF Cons.prems(2), of "length c"] by simp
    then have "outcome p fin (drop (length c) todo) 0 (length (concat cs)) (feed cb cs (q', u'))"
      using 2 by (intro Cons.IH) simp_all
    moreover obtain r' s' where feed: "feed cb cs (q', u') = (r', s')" by (cases "feed cb cs (q', u')")
    ultimately have "outcome p fin (drop (length c) todo) (0 + length c) (length c + length (concat cs))
        (case r' of Inl e \<Rightarrow> Inl e | Inr (m, rc) \<Rightarrow> Inr (length c + m, rc), s')"
      using outcome_shift by simp
    then have "outcome p fin todo 0 (length c + length (concat cs))
        (case r' of Inl e \<Rightarrow> Inl e | Inr (m, rc) \<Rightarrow> Inr (length c + m, rc), s')"
      by (rule outcome_later) (simp_all add: 2(2))
    moreover have "feed cb (c # cs) (q, u) =
        (case r' of Inl e \<Rightarrow> Inl e | Inr (m, rc) \<Rightarrow> Inr (length c + m, rc), s')"
      by (cases r') (auto simp: checked_apply run 2(1) feed)
    ultimately show ?thesis by simp
  qed (auto simp: checked_apply run outcome_def)
qed

text \<open>What a caller that feeds the frames of a payload, cut anywhere, and more, can rely on.\<close>

theorem feed_frames:
  assumes "sound u" and "state q = S_LEN_0" and "\<not> fragment q" and "\<not> deferred_end_callback q"
    and "concat cs = frames (sequence_number q) p @ extra"
    and "feed cb cs (q, u) = (r, (q', u'))"
  shows "r = Inr (length (frames (sequence_number q) p), 1) \<and> sound u' \<and> content u' = p
           \<and> state q' = S_LEN_0 \<and> \<not> fragment q' \<and> \<not> deferred_end_callback q'
           \<and> sequence_number q' = after_fragments (sequence_number q) p
       \<or> (\<exists>n rc. r = Inr (n, rc) \<and> rc < 0 \<and> sound u' \<and> tight (length p))"
proof -
  have "frames (sequence_number q) p \<noteq> []" by (simp add: frames_body packet_header_def)
  moreover have "agree (concat cs) (frames (sequence_number q) p)"
    using assms(5) by (simp add: agree_def)
  ultimately have "outcome p (after_fragments (sequence_number q) p) (frames (sequence_number q) p) 0
      (length (concat cs)) (feed cb cs (q, u))"
    using assms(1-4) by (intro feed_outcome expects_start)
  then show ?thesis
    using assms(5,6) by (auto simp: outcome_def delivered_def)
qed

end

section \<open>Rules for the loop\<close>

text \<open>What each step keeps, a call keeps.\<close>

definition loop_result where
  "loop_result Q E x \<longleftrightarrow> (case x of (r, t) \<Rightarrow> (case r of Inl e \<Rightarrow> E e t | Inr (j, rc) \<Rightarrow> Q j rc t))"

lemma execute_loop_rule:
  assumes step: "\<And>i s r t. i < length buff \<Longrightarrow> P s \<Longrightarrow> parser_step cb buff i s = (r, t) \<Longrightarrow>
      (case r of Inl e \<Rightarrow> E e t | Inr f \<Rightarrow> (case f of Next j \<Rightarrow> j \<le> length buff \<and> P t | Return j rc \<Rightarrow> Q j rc t))"
    and finish: "\<And>s. P s \<Longrightarrow> Q (length buff) 0 s"
    and "P s" and "i \<le> length buff"
  shows "loop_result Q E (execute_loop cb buff i s)"
proof -
  have "loop_result Q E (execute_loop cb buff i (p, u))" if "P (p, u)" "i \<le> length buff" for p u i
    using that step finish
  proof (induction cb buff i "(p, u)" arbitrary: p u rule: execute_loop.induct)
    case (1 cb buff i p u)
    show ?case
    proof (cases "i < length buff")
      case True
      obtain r p' u' where s: "parser_step cb buff i (p, u) = (r, (p', u'))"
        by (cases "parser_step cb buff i (p, u)") auto
      note kept = "1.prems"(3) [OF True "1.prems"(1) s]
      show ?thesis
      proof (cases r)
        case (Inl e)
        with s True kept show ?thesis by (simp add: execute_loop.simps [of cb buff i] loop_result_def)
      next
        case (Inr f)
        show ?thesis
        proof (cases f)
          case (Next j)
          with kept Inr have "j \<le> length buff" "P (p', u')" by simp_all
          then have "loop_result Q E (execute_loop cb buff j (p', u'))"
            using "1.hyps" [OF True s [symmetric] refl Inr Next] "1.prems"(3,4) by blast
          then show ?thesis using execute_loop_Next [OF True s [unfolded Inr Next]] by simp
        next
          case (Return j rc)
          with kept Inr show ?thesis
            using execute_loop_Return [OF True s [unfolded Inr Return]] by (simp add: loop_result_def)
        qed
      qed
    next
      case False
      with "1.prems" show ?thesis by (simp add: execute_loop_end loop_result_def)
    qed
  qed
  with assms(3,4) show ?thesis by (cases s) simp
qed

text \<open>The callback that was deferred comes first.\<close>

lemma execute_rule:
  assumes step: "\<And>i s r t. i < length buff \<Longrightarrow> P s \<Longrightarrow> parser_step cb buff i s = (r, t) \<Longrightarrow>
      (case r of Inl e \<Rightarrow> E e t | Inr f \<Rightarrow> (case f of Next j \<Rightarrow> j \<le> length buff \<and> P t | Return j rc \<Rightarrow> Q j rc t))"
    and finish: "\<And>s. P s \<Longrightarrow> Q (length buff) 0 s"
    and deferred: "\<And>p u r u'. P (p, u) \<Longrightarrow> on_packet_end cb u = (r, u') \<Longrightarrow>
      (case r of Inl e \<Rightarrow> E e (p\<lparr>deferred_end_callback := False\<rparr>, u')
       | Inr rc \<Rightarrow> P (p\<lparr>deferred_end_callback := False\<rparr>, u')
           \<and> (rc \<noteq> 0 \<longrightarrow> Q 0 rc (p\<lparr>deferred_end_callback := False\<rparr>, u')))"
    and "P s"
  shows "loop_result Q E (trilogy_packet_parser_execute cb buff s)"
proof -
  obtain p u where s: "s = (p, u)" by (cases s)
  have loop: "loop_result Q E (execute_loop cb buff i s)" if "P s" "i \<le> length buff" for i s
    by (rule execute_loop_rule [where P = P]) (use step finish that in blast)+
  show ?thesis
  proof (cases "deferred_end_callback p")
    case False
    then show ?thesis using loop [OF assms(4), of 0] by (simp add: s execute_fresh)
  next
    case True
    obtain r u' where e: "on_packet_end cb u = (r, u')" by (cases "on_packet_end cb u")
    note d = deferred [OF assms(4) [unfolded s] e]
    have run: "trilogy_packet_parser_execute cb buff s =
        (case r of Inl e \<Rightarrow> (Inl e, (p\<lparr>deferred_end_callback := False\<rparr>, u'))
         | Inr rc \<Rightarrow> if rc \<noteq> 0 then (Inr (0, rc), (p\<lparr>deferred_end_callback := False\<rparr>, u'))
             else execute_loop cb buff 0 (p\<lparr>deferred_end_callback := False\<rparr>, u'))"
      using True e by (simp add: s trilogy_packet_parser_execute_def checked_apply update_def split: sum.splits)
    show ?thesis
    proof (cases r)
      case (Inl e)
      with run d show ?thesis by (simp add: loop_result_def)
    next
      case (Inr rc)
      with d loop [of "(p\<lparr>deferred_end_callback := False\<rparr>, u')" 0] run show ?thesis
        by (cases "rc = 0") (simp_all add: loop_result_def)
    qed
  qed
qed

section \<open>Consumption and the sequence number\<close>

lemma parser_step_within:
  assumes "i < length buff" and "parser_step cb buff i (p, u) = (Inr f, s)"
  shows "case f of Next j \<Rightarrow> j \<le> length buff | Return j rc \<Rightarrow> j \<le> length buff \<and> rc \<noteq> 0"
proof -
  have c: "case f of Next j \<Rightarrow> j = k | Return j rc \<Rightarrow> j = k \<and> rc \<noteq> 0" if "callback m k (q, u) = (Inr f, s)" for m k q
    using that by (auto simp: callback_apply split: prod.splits sum.splits if_splits flow.splits)
  have e: "case f of Next j \<Rightarrow> j = k | Return j rc \<Rightarrow> j = k \<and> rc \<noteq> 0" if "end_of_payload cb k (q, u) = (Inr f, s)" for k q u
    using that by (auto simp: end_of_payload_apply callback_apply split: prod.splits sum.splits if_splits flow.splits)
  show ?thesis
  proof (cases "state p")
    case S_PAYLOAD
    define n where "n = min (length buff - i) (unat (bytes_remaining p))"
    define q where "q = p\<lparr>bytes_remaining := bytes_remaining p - word_of_nat n\<rparr>"
    have "i + n \<le> length buff" using assms(1) by (simp add: n_def)
    moreover from this have "case f of Next j \<Rightarrow> j \<le> length buff | Return j rc \<Rightarrow> j \<le> length buff \<and> rc \<noteq> 0"
      if "end_of_payload cb (i + n) (q, u') = (Inr f, s)" for u'
      using e [OF that] by (simp split: flow.splits)
    ultimately show ?thesis
      using assms(2) parser_step_payload [OF S_PAYLOAD n_def q_def, of cb u]
      by (auto split: prod.splits sum.splits if_splits)
  qed (use assms in \<open>auto simp: parser_step_len parser_step_len_2 [OF _ refl] parser_step_seq [OF _ refl] split: if_splits flow.splits dest!: c e\<close>)
qed

lemma execute_within:
  assumes "trilogy_packet_parser_execute cb buff (p, u) = (Inr (n, rc), s)"
  shows "n \<le> length buff \<and> (rc = 0 \<longrightarrow> n = length buff)"
proof -
  have "loop_result (\<lambda>n rc _. n \<le> length buff \<and> (rc = 0 \<longrightarrow> n = length buff)) (\<lambda>_ _. True)
      (trilogy_packet_parser_execute cb buff (p, u))"
    by (rule execute_rule [where P = "\<lambda>_. True"])
      (auto split: sum.splits flow.splits dest: parser_step_within)
  with assms show ?thesis by (simp add: loop_result_def)
qed

lemma execute_bad_sequence:
  assumes "state p = S_LEN_0" and "\<not> fragment p" and "\<not> deferred_end_callback p"
    and "4 \<le> length buff" and "buff ! 3 \<noteq> sequence_number p" and "on_packet_begin cb u = (Inr 0, u')"
  shows "\<exists>p'. trilogy_packet_parser_execute cb buff (p, u) =
      (Inr (3, rc_code TRILOGY_INVALID_SEQUENCE_ID), (p', u')) \<and> state p' = S_SEQ \<and> sequence_number p' = sequence_number p"
proof -
  define p1 where "p1 = p\<lparr>bytes_remaining := ucast (buff ! 0), state := S_LEN_1\<rparr>"
  define p2 where "p2 = p1\<lparr>bytes_remaining := bytes_remaining p1 OR push_bit 8 (ucast (buff ! 1)), state := S_LEN_2\<rparr>"
  define p3 where "p3 = p2\<lparr>bytes_remaining := bytes_remaining p2 OR push_bit 16 (ucast (buff ! 2)),
        fragment := (unat (bytes_remaining p2 OR push_bit 16 (ucast (buff ! 2))) = TRILOGY_MAX_PACKET_LEN),
        state := S_SEQ\<rparr>"
  have s: "state p1 = S_LEN_1" "state p2 = S_LEN_2" "\<not> fragment p2" "state p3 = S_SEQ"
      "sequence_number p3 = sequence_number p"
    using assms(2) by (simp_all add: p1_def p2_def p3_def)
  have idx: "0 < length buff" "1 < length buff" "2 < length buff" "3 < length buff" using assms(4) by linarith+
  have 1: "parser_step cb buff 0 (p, u) = (Inr (Next 1), (p1, u))"
    using assms(1) by (simp add: parser_step_len p1_def)
  have 2: "parser_step cb buff 1 (p1, u) = (Inr (Next 2), (p2, u))"
    using s(1) by (simp add: parser_step_len p2_def)
  have 3: "parser_step cb buff 2 (p2, u) = (Inr (Next 3), (p3, u'))"
    using parser_step_len_2 [OF s(2) p3_def, of cb u] s(3) assms(6) by (simp add: callback_apply)
  have 4: "parser_step cb buff 3 (p3, u') = (Inr (Return 3 (rc_code TRILOGY_INVALID_SEQUENCE_ID)), (p3, u'))"
    using parser_step_seq [OF s(4) refl, of cb buff 3 u'] s(5) assms(5) by simp
  have "trilogy_packet_parser_execute cb buff (p, u) = (Inr (3, rc_code TRILOGY_INVALID_SEQUENCE_ID), (p3, u'))"
    using execute_loop_Next [OF idx(1) 1] execute_loop_Next [OF idx(2) 2] execute_loop_Next [OF idx(3) 3]
      execute_loop_Return [OF idx(4) 4] execute_fresh [OF assms(3), of cb buff u] by simp
  with s show ?thesis by blast
qed

section \<open>The codes of a call\<close>

text \<open>The numbers that a call of the parser returns: those of the callbacks, and its own code.\<close>

definition yields_in :: "int set \<Rightarrow> 'u trilogy_packet_parser_callbacks \<Rightarrow> bool" where
  "yields_in S cb \<longleftrightarrow> (\<forall>u rc u'.
     (on_packet_begin cb u = (Inr rc, u') \<longrightarrow> rc \<in> S) \<and> (on_packet_end cb u = (Inr rc, u') \<longrightarrow> rc \<in> S) \<and>
     (\<forall>bs. on_packet_data cb bs u = (Inr rc, u') \<longrightarrow> rc \<in> S))"

lemma parser_step_yields:
  assumes "yields_in S cb" and "parser_step cb buff i (p, u) = (Inr (Return j rc), s)"
  shows "rc \<in> insert (rc_code TRILOGY_INVALID_SEQUENCE_ID) S"
proof -
  have c: "rc \<in> S" if "callback m k (q, u) = (Inr (Return j rc), s)"
      and "m = on_packet_begin cb \<or> m = on_packet_end cb" for m k q u
    using that assms(1) by (auto simp: callback_apply yields_in_def split: prod.splits sum.splits if_splits)
  have e: "rc \<in> S" if "end_of_payload cb k (q, u) = (Inr (Return j rc), s)" for k q u
    using that c by (auto simp: end_of_payload_apply split: if_splits)
  show ?thesis
  proof (cases "state p")
    case S_PAYLOAD
    from assms(2) parser_step_payload [OF S_PAYLOAD refl refl, of cb buff i u] show ?thesis
      using assms(1) by (auto simp: yields_in_def split: prod.splits sum.splits if_splits dest!: e)
  qed (use assms(2) in \<open>auto simp: parser_step_len parser_step_len_2 [OF _ refl] parser_step_seq [OF _ refl]
        split: if_splits dest!: c e\<close>)
qed

lemma execute_yields:
  assumes "trilogy_packet_parser_execute cb buff (p, u) = (Inr (n, rc), s)" and "yields_in S cb"
  shows "rc \<in> insert 0 (insert (rc_code TRILOGY_INVALID_SEQUENCE_ID) S)"
proof -
  let ?S = "insert 0 (insert (rc_code TRILOGY_INVALID_SEQUENCE_ID) S)"
  have "loop_result (\<lambda>n rc _. rc \<in> ?S) (\<lambda>_ _. True) (trilogy_packet_parser_execute cb buff (p, u))"
  proof (rule execute_rule [where P = "\<lambda>_. True"])
    show "case r of Inl e \<Rightarrow> True | Inr rc \<Rightarrow> True \<and> (rc \<noteq> 0 \<longrightarrow> rc \<in> ?S)"
      if "on_packet_end cb u = (r, u')" for u r u'
      using that assms(2) by (auto simp: yields_in_def split: sum.splits)
  qed (auto split: sum.splits flow.splits dest: parser_step_within parser_step_yields [OF assms(2)])
  with assms(1) show ?thesis by (simp add: loop_result_def)
qed

section \<open>Any bytes\<close>

text \<open>Whatever bytes arrive, no call faults, and the sink stays sound.\<close>

context packet_sink
begin

lemma parser_step_safe:
  assumes "sound u" and "i < length buff" and "parser_step cb buff i (p, u) = (r, (p', u'))"
  shows "\<exists>f. r = Inr f \<and> sound u'"
proof -
  obtain u0 where b: "on_packet_begin cb u = (Inr 0, u0)" "sound u0" using begin_law [OF assms(1)] by blast
  note e = end_law
  show ?thesis
  proof (cases "state p")
    case S_PAYLOAD
    define n where "n = min (length buff - i) (unat (bytes_remaining p))"
    define q where "q = p\<lparr>bytes_remaining := bytes_remaining p - word_of_nat n\<rparr>"
    have "length (take n (drop i buff)) \<le> TRILOGY_MAX_PACKET_LEN"
      using unat_u24_lt [of "bytes_remaining p"] by (simp add: n_def TRILOGY_MAX_PACKET_LEN_def)
    from data_law [OF assms(1) this] obtain rc u1
      where d: "on_packet_data cb (take n (drop i buff)) u = (Inr rc, u1)" "sound u1" by blast
    show ?thesis
      using assms(3) parser_step_payload [OF S_PAYLOAD n_def q_def, of cb u] d e [OF d(2)]
      by (auto simp: end_of_payload_apply callback_apply split: if_splits)
  qed (use assms b e [OF assms(1)] in \<open>auto simp: parser_step_len parser_step_len_2 [OF _ refl] parser_step_seq [OF _ refl]
        callback_apply end_of_payload_apply split: if_splits\<close>)
qed

lemma execute_safe:
  assumes "sound u"
  shows "\<exists>n rc p' u'. trilogy_packet_parser_execute cb buff (p, u) = (Inr (n, rc), (p', u')) \<and> sound u'"
proof -
  have "loop_result (\<lambda>_ _ (p, u). sound u) (\<lambda>_ _. False) (trilogy_packet_parser_execute cb buff (p, u))"
  proof (rule execute_rule [where P = "\<lambda>(p, u). sound u"])
    fix i s r t
    assume i: "i < length buff" and "case s of (p, u) \<Rightarrow> sound u" and step: "parser_step cb buff i s = (r, t)"
    then obtain p u p' u' where s: "s = (p, u)" "t = (p', u')" "sound u" by (cases s, cases t) auto
    obtain f where f: "r = Inr f" "sound u'" using parser_step_safe [OF s(3) i, of p r p' u'] step s by auto
    with parser_step_within [OF i step [unfolded s f(1)]] s
    show "case r of Inl e \<Rightarrow> False | Inr f \<Rightarrow> (case f of Next j \<Rightarrow> j \<le> length buff \<and> (case t of (p, u) \<Rightarrow> sound u)
        | Return j rc \<Rightarrow> case t of (p, u) \<Rightarrow> sound u)"
      by (auto split: flow.splits)
  qed (use assms end_law in \<open>auto split: sum.splits\<close>)
  then show ?thesis by (auto simp: loop_result_def split: prod.splits sum.splits)
qed

end

end
