(* ===== verification/Packet_Callbacks.thy ===== *)
theory Packet_Callbacks
  imports Packet_Parser Builder
begin

text \<open>
  The packet callbacks of \<^verbatim>\<open>src/client.c\<close>: they collect the payload of a packet in the packet
  buffer of the connection, and pause the parser at the end of it. With them the parser takes
  off the wire what the builder puts on it.
\<close>

section \<open>The callbacks\<close>

text \<open>
  An operation of the buffer that fails with a code makes the callback return that code; a
  fault or a loop without end stays one.
\<close>

definition returning :: "('s, unit) op \<Rightarrow> ('s, int) op" where
  "returning m = (\<lambda>s. case m s of (r, s') \<Rightarrow>
     (case r of Inr _ \<Rightarrow> Inr 0 | Inl (Rc e) \<Rightarrow> Inr (rc_code e) | Inl Fault \<Rightarrow> Inl Fault | Inl Hang \<Rightarrow> Inl Hang, s'))"

definition packet_begin :: "(trilogy_buffer, int) op" where
  "packet_begin = checked (put_state (\<lambda>b. b\<lparr>buf_len := 0\<rparr>)) (\<lambda>_. ret 0)"

definition packet_data :: "allocator \<Rightarrow> u8 list \<Rightarrow> (trilogy_buffer, int) op" where
  "packet_data alloc data =
     returning (checked (trilogy_buffer_expand alloc (word_of_nat (length data))) (\<lambda>_.
                buffer_copy data (word_of_nat (length data))))"

definition packet_end :: "(trilogy_buffer, int) op" where
  "packet_end = ret 1"

definition packet_parser_callbacks :: "allocator \<Rightarrow> trilogy_buffer trilogy_packet_parser_callbacks" where
  "packet_parser_callbacks alloc =
     \<lparr>on_packet_begin = packet_begin, on_packet_data = packet_data alloc, on_packet_end = packet_end\<rparr>"

section \<open>They are a sink\<close>

text \<open>
  With an allocator that grants every request, a packet of up to \<open>2^62\<close> bytes is never refused.
\<close>

definition memory_tight :: "allocator \<Rightarrow> nat \<Rightarrow> bool" where
  "memory_tight alloc n \<longleftrightarrow> \<not> (generous alloc \<and> n \<le> 2 ^ 62)"

lemma returning_holds:
  assumes "holds P m Q E" and "P s" and "\<And>e s'. E e s' \<Longrightarrow> \<exists>c. e = Rc c \<and> c \<noteq> TRILOGY_OK"
  shows "\<exists>rc s'. returning m s = (Inr rc, s') \<and> rc \<le> 0 \<and> (rc = 0 \<longrightarrow> Q () s') \<and>
           (rc < 0 \<longrightarrow> (\<exists>e. E e s'))"
proof (cases "m s")
  case (Pair r s')
  show ?thesis
  proof (cases r)
    case (Inl e)
    with Pair have E: "E e s'" using assms(1,2) by (auto dest: holds_Inl)
    then obtain c where "e = Rc c" "c \<noteq> TRILOGY_OK" using assms(3) by blast
    with Inl Pair E rc_code_range [of c] rc_code_neg [of c] show ?thesis
      by (auto simp: returning_def)
  next
    case (Inr x)
    with Pair have "Q () s'" using assms(1,2) by (auto dest: holds_Inr)
    with Inr Pair show ?thesis by (simp add: returning_def)
  qed
qed

interpretation connection: packet_sink "packet_parser_callbacks alloc" contents buffer_ok "memory_tight alloc" for alloc
proof
  fix u assume "buffer_ok u"
  then show "\<exists>u'. on_packet_begin (packet_parser_callbacks alloc) u = (Inr 0, u') \<and> buffer_ok u' \<and> contents u' = []"
    using buffer_ok_reset by (auto simp: packet_parser_callbacks_def packet_begin_def)
  show "on_packet_end (packet_parser_callbacks alloc) u = (Inr 1, u)"
    by (simp add: packet_parser_callbacks_def packet_end_def)
next
  fix u :: trilogy_buffer and bs :: "u8 list"
  assume ok: "buffer_ok u" and small: "length bs \<le> TRILOGY_MAX_PACKET_LEN"
  then have len: "unat (word_of_nat (length bs) :: size_t) = length bs"
    by (intro unat_word_of_nat_size_t) (simp add: TRILOGY_MAX_PACKET_LEN_def)
  let ?E = "\<lambda>e b. buffer_ok b \<and> contents b = contents u \<and> refuses alloc (length (contents u) + length bs) e"
  have app: "holds (\<lambda>b. buffer_ok b \<and> contents b = contents u)
      (checked (trilogy_buffer_expand alloc (word_of_nat (length bs))) (\<lambda>_. buffer_copy bs (word_of_nat (length bs))))
      (\<lambda>_ b. buffer_ok b \<and> contents b = contents u @ bs) ?E"
    using small store.append_copy [of "word_of_nat (length bs)" bs "contents u" alloc, unfolded len]
    by (simp add: object_limit_def TRILOGY_MAX_PACKET_LEN_def)
  have codes: "\<And>e b. ?E e b \<Longrightarrow> \<exists>c. e = Rc c \<and> c \<noteq> TRILOGY_OK"
    by (auto simp: refuses_def)
  have pre: "buffer_ok u \<and> contents u = contents u" using ok by simp
  have "\<exists>rc u'. packet_data alloc bs u = (Inr rc, u') \<and> rc \<le> 0 \<and>
      (rc = 0 \<longrightarrow> buffer_ok u' \<and> contents u' = contents u @ bs) \<and> (rc < 0 \<longrightarrow> (\<exists>e. ?E e u'))"
    unfolding packet_data_def by (rule returning_holds [OF app pre]) (rule codes)
  then obtain rc u' where "on_packet_data (packet_parser_callbacks alloc) bs u = (Inr rc, u')" "rc \<le> 0"
      and "rc = 0 \<longrightarrow> buffer_ok u' \<and> contents u' = contents u @ bs" and "rc < 0 \<longrightarrow> (\<exists>e. ?E e u')"
    by (auto simp: packet_parser_callbacks_def)
  then show "\<exists>rc u'. on_packet_data (packet_parser_callbacks alloc) bs u = (Inr rc, u') \<and> buffer_ok u' \<and> rc \<le> 0 \<and>
        (rc = 0 \<longrightarrow> contents u' = contents u @ bs) \<and>
        (rc < 0 \<longrightarrow> memory_tight alloc (length (contents u) + length bs))"
    by (intro exI [of _ rc] exI [of _ u']) (cases "rc = 0"; auto simp: refuses_def memory_tight_def)
next
  show "memory_tight alloc m \<Longrightarrow> m \<le> n \<Longrightarrow> memory_tight alloc n" for m n
    by (auto simp: memory_tight_def)
qed

lemma callbacks_yield: "yields_in (rc_code ` {TRILOGY_OK, TRILOGY_SYSERR, TRILOGY_TYPE_OVERFLOW, TRILOGY_MEM_ERROR} \<union> {1})
    (packet_parser_callbacks alloc)"
proof -
  have "rc \<in> rc_code ` {TRILOGY_OK, TRILOGY_SYSERR, TRILOGY_TYPE_OVERFLOW, TRILOGY_MEM_ERROR}"
    if "packet_data alloc bs u = (Inr rc, u')" for bs u rc u'
    using that
    by (auto simp: packet_data_def returning_def checked_apply trilogy_buffer_expand_def buffer_copy_def
        split: prod.splits sum.splits stop.splits if_splits option.splits)
  then show ?thesis
    by (auto simp: yields_in_def packet_parser_callbacks_def packet_begin_def packet_end_def checked_apply)
qed

end
