(* ===== verification/Charset.thy ===== *)
theory Charset
  imports Trilogy_Prelude "HOL-Library.Sublist"
begin

text \<open>
  \<^verbatim>\<open>inc/trilogy/charset.h\<close> and \<^verbatim>\<open>src/charset.c\<close>: the collations a server can name, the encodings,
  and the array that maps one to the other. A collation is an integer, as in the C program,
  where it comes off the wire; the constants of the enumeration are abbreviations, listed with
  their names (less the common prefix) in \<open>TRILOGY_CHARSETS\<close>.
\<close>

section \<open>Collations and encodings\<close>

abbreviation (input) TRILOGY_CHARSET_NONE :: int where "TRILOGY_CHARSET_NONE \<equiv> 0"
abbreviation (input) TRILOGY_CHARSET_BIG5_CHINESE_CI :: int where "TRILOGY_CHARSET_BIG5_CHINESE_CI \<equiv> 1"
abbreviation (input) TRILOGY_CHARSET_LATIN2_CZECH_CS :: int where "TRILOGY_CHARSET_LATIN2_CZECH_CS \<equiv> 2"
abbreviation (input) TRILOGY_CHARSET_DEC8_SWEDISH_CI :: int where "TRILOGY_CHARSET_DEC8_SWEDISH_CI \<equiv> 3"
abbreviation (input) TRILOGY_CHARSET_CP850_GENERAL_CI :: int where "TRILOGY_CHARSET_CP850_GENERAL_CI \<equiv> 4"
abbreviation (input) TRILOGY_CHARSET_LATIN1_GERMAN1_CI :: int where "TRILOGY_CHARSET_LATIN1_GERMAN1_CI \<equiv> 5"
abbreviation (input) TRILOGY_CHARSET_HP8_ENGLISH_CI :: int where "TRILOGY_CHARSET_HP8_ENGLISH_CI \<equiv> 6"
abbreviation (input) TRILOGY_CHARSET_KOI8R_GENERAL_CI :: int where "TRILOGY_CHARSET_KOI8R_GENERAL_CI \<equiv> 7"
abbreviation (input) TRILOGY_CHARSET_LATIN1_SWEDISH_CI :: int where "TRILOGY_CHARSET_LATIN1_SWEDISH_CI \<equiv> 8"
abbreviation (input) TRILOGY_CHARSET_LATIN2_GENERAL_CI :: int where "TRILOGY_CHARSET_LATIN2_GENERAL_CI \<equiv> 9"
abbreviation (input) TRILOGY_CHARSET_SWE7_SWEDISH_CI :: int where "TRILOGY_CHARSET_SWE7_SWEDISH_CI \<equiv> 10"
abbreviation (input) TRILOGY_CHARSET_ASCII_GENERAL_CI :: int where "TRILOGY_CHARSET_ASCII_GENERAL_CI \<equiv> 11"
abbreviation (input) TRILOGY_CHARSET_UJIS_JAPANESE_CI :: int where "TRILOGY_CHARSET_UJIS_JAPANESE_CI \<equiv> 12"
abbreviation (input) TRILOGY_CHARSET_SJIS_JAPANESE_CI :: int where "TRILOGY_CHARSET_SJIS_JAPANESE_CI \<equiv> 13"
abbreviation (input) TRILOGY_CHARSET_CP1251_BULGARIAN_CI :: int where "TRILOGY_CHARSET_CP1251_BULGARIAN_CI \<equiv> 14"
abbreviation (input) TRILOGY_CHARSET_LATIN1_DANISH_CI :: int where "TRILOGY_CHARSET_LATIN1_DANISH_CI \<equiv> 15"
abbreviation (input) TRILOGY_CHARSET_HEBREW_GENERAL_CI :: int where "TRILOGY_CHARSET_HEBREW_GENERAL_CI \<equiv> 16"
abbreviation (input) TRILOGY_CHARSET_TIS620_THAI_CI :: int where "TRILOGY_CHARSET_TIS620_THAI_CI \<equiv> 18"
abbreviation (input) TRILOGY_CHARSET_EUCKR_KOREAN_CI :: int where "TRILOGY_CHARSET_EUCKR_KOREAN_CI \<equiv> 19"
abbreviation (input) TRILOGY_CHARSET_LATIN7_ESTONIAN_CS :: int where "TRILOGY_CHARSET_LATIN7_ESTONIAN_CS \<equiv> 20"
abbreviation (input) TRILOGY_CHARSET_LATIN2_HUNGARIAN_CI :: int where "TRILOGY_CHARSET_LATIN2_HUNGARIAN_CI \<equiv> 21"
abbreviation (input) TRILOGY_CHARSET_KOI8U_GENERAL_CI :: int where "TRILOGY_CHARSET_KOI8U_GENERAL_CI \<equiv> 22"
abbreviation (input) TRILOGY_CHARSET_CP1251_UKRAINIAN_CI :: int where "TRILOGY_CHARSET_CP1251_UKRAINIAN_CI \<equiv> 23"
abbreviation (input) TRILOGY_CHARSET_GB2312_CHINESE_CI :: int where "TRILOGY_CHARSET_GB2312_CHINESE_CI \<equiv> 24"
abbreviation (input) TRILOGY_CHARSET_GREEK_GENERAL_CI :: int where "TRILOGY_CHARSET_GREEK_GENERAL_CI \<equiv> 25"
abbreviation (input) TRILOGY_CHARSET_CP1250_GENERAL_CI :: int where "TRILOGY_CHARSET_CP1250_GENERAL_CI \<equiv> 26"
abbreviation (input) TRILOGY_CHARSET_LATIN2_CROATIAN_CI :: int where "TRILOGY_CHARSET_LATIN2_CROATIAN_CI \<equiv> 27"
abbreviation (input) TRILOGY_CHARSET_GBK_CHINESE_CI :: int where "TRILOGY_CHARSET_GBK_CHINESE_CI \<equiv> 28"
abbreviation (input) TRILOGY_CHARSET_CP1257_LITHUANIAN_CI :: int where "TRILOGY_CHARSET_CP1257_LITHUANIAN_CI \<equiv> 29"
abbreviation (input) TRILOGY_CHARSET_LATIN5_TURKISH_CI :: int where "TRILOGY_CHARSET_LATIN5_TURKISH_CI \<equiv> 30"
abbreviation (input) TRILOGY_CHARSET_LATIN1_GERMAN2_CI :: int where "TRILOGY_CHARSET_LATIN1_GERMAN2_CI \<equiv> 31"
abbreviation (input) TRILOGY_CHARSET_ARMSCII8_GENERAL_CI :: int where "TRILOGY_CHARSET_ARMSCII8_GENERAL_CI \<equiv> 32"
abbreviation (input) TRILOGY_CHARSET_UTF8_GENERAL_CI :: int where "TRILOGY_CHARSET_UTF8_GENERAL_CI \<equiv> 33"
abbreviation (input) TRILOGY_CHARSET_CP1250_CZECH_CS :: int where "TRILOGY_CHARSET_CP1250_CZECH_CS \<equiv> 34"
abbreviation (input) TRILOGY_CHARSET_UCS2_GENERAL_CI :: int where "TRILOGY_CHARSET_UCS2_GENERAL_CI \<equiv> 35"
abbreviation (input) TRILOGY_CHARSET_CP866_GENERAL_CI :: int where "TRILOGY_CHARSET_CP866_GENERAL_CI \<equiv> 36"
abbreviation (input) TRILOGY_CHARSET_KEYBCS2_GENERAL_CI :: int where "TRILOGY_CHARSET_KEYBCS2_GENERAL_CI \<equiv> 37"
abbreviation (input) TRILOGY_CHARSET_MACCE_GENERAL_CI :: int where "TRILOGY_CHARSET_MACCE_GENERAL_CI \<equiv> 38"
abbreviation (input) TRILOGY_CHARSET_MACROMAN_GENERAL_CI :: int where "TRILOGY_CHARSET_MACROMAN_GENERAL_CI \<equiv> 39"
abbreviation (input) TRILOGY_CHARSET_CP852_GENERAL_CI :: int where "TRILOGY_CHARSET_CP852_GENERAL_CI \<equiv> 40"
abbreviation (input) TRILOGY_CHARSET_LATIN7_GENERAL_CI :: int where "TRILOGY_CHARSET_LATIN7_GENERAL_CI \<equiv> 41"
abbreviation (input) TRILOGY_CHARSET_LATIN7_GENERAL_CS :: int where "TRILOGY_CHARSET_LATIN7_GENERAL_CS \<equiv> 42"
abbreviation (input) TRILOGY_CHARSET_MACCE_BIN :: int where "TRILOGY_CHARSET_MACCE_BIN \<equiv> 43"
abbreviation (input) TRILOGY_CHARSET_CP1250_CROATIAN_CI :: int where "TRILOGY_CHARSET_CP1250_CROATIAN_CI \<equiv> 44"
abbreviation (input) TRILOGY_CHARSET_UTF8MB4_GENERAL_CI :: int where "TRILOGY_CHARSET_UTF8MB4_GENERAL_CI \<equiv> 45"
abbreviation (input) TRILOGY_CHARSET_UTF8MB4_BIN :: int where "TRILOGY_CHARSET_UTF8MB4_BIN \<equiv> 46"
abbreviation (input) TRILOGY_CHARSET_LATIN1_BIN :: int where "TRILOGY_CHARSET_LATIN1_BIN \<equiv> 47"
abbreviation (input) TRILOGY_CHARSET_LATIN1_GENERAL_CI :: int where "TRILOGY_CHARSET_LATIN1_GENERAL_CI \<equiv> 48"
abbreviation (input) TRILOGY_CHARSET_LATIN1_GENERAL_CS :: int where "TRILOGY_CHARSET_LATIN1_GENERAL_CS \<equiv> 49"
abbreviation (input) TRILOGY_CHARSET_CP1251_BIN :: int where "TRILOGY_CHARSET_CP1251_BIN \<equiv> 50"
abbreviation (input) TRILOGY_CHARSET_CP1251_GENERAL_CI :: int where "TRILOGY_CHARSET_CP1251_GENERAL_CI \<equiv> 51"
abbreviation (input) TRILOGY_CHARSET_CP1251_GENERAL_CS :: int where "TRILOGY_CHARSET_CP1251_GENERAL_CS \<equiv> 52"
abbreviation (input) TRILOGY_CHARSET_MACROMAN_BIN :: int where "TRILOGY_CHARSET_MACROMAN_BIN \<equiv> 53"
abbreviation (input) TRILOGY_CHARSET_UTF16_GENERAL_CI :: int where "TRILOGY_CHARSET_UTF16_GENERAL_CI \<equiv> 54"
abbreviation (input) TRILOGY_CHARSET_UTF16_BIN :: int where "TRILOGY_CHARSET_UTF16_BIN \<equiv> 55"
abbreviation (input) TRILOGY_CHARSET_CP1256_GENERAL_CI :: int where "TRILOGY_CHARSET_CP1256_GENERAL_CI \<equiv> 57"
abbreviation (input) TRILOGY_CHARSET_CP1257_BIN :: int where "TRILOGY_CHARSET_CP1257_BIN \<equiv> 58"
abbreviation (input) TRILOGY_CHARSET_CP1257_GENERAL_CI :: int where "TRILOGY_CHARSET_CP1257_GENERAL_CI \<equiv> 59"
abbreviation (input) TRILOGY_CHARSET_UTF32_GENERAL_CI :: int where "TRILOGY_CHARSET_UTF32_GENERAL_CI \<equiv> 60"
abbreviation (input) TRILOGY_CHARSET_UTF32_BIN :: int where "TRILOGY_CHARSET_UTF32_BIN \<equiv> 61"
abbreviation (input) TRILOGY_CHARSET_BINARY :: int where "TRILOGY_CHARSET_BINARY \<equiv> 63"
abbreviation (input) TRILOGY_CHARSET_ARMSCII8_BIN :: int where "TRILOGY_CHARSET_ARMSCII8_BIN \<equiv> 64"
abbreviation (input) TRILOGY_CHARSET_ASCII_BIN :: int where "TRILOGY_CHARSET_ASCII_BIN \<equiv> 65"
abbreviation (input) TRILOGY_CHARSET_CP1250_BIN :: int where "TRILOGY_CHARSET_CP1250_BIN \<equiv> 66"
abbreviation (input) TRILOGY_CHARSET_CP1256_BIN :: int where "TRILOGY_CHARSET_CP1256_BIN \<equiv> 67"
abbreviation (input) TRILOGY_CHARSET_CP866_BIN :: int where "TRILOGY_CHARSET_CP866_BIN \<equiv> 68"
abbreviation (input) TRILOGY_CHARSET_DEC8_BIN :: int where "TRILOGY_CHARSET_DEC8_BIN \<equiv> 69"
abbreviation (input) TRILOGY_CHARSET_GREEK_BIN :: int where "TRILOGY_CHARSET_GREEK_BIN \<equiv> 70"
abbreviation (input) TRILOGY_CHARSET_HEBREW_BIN :: int where "TRILOGY_CHARSET_HEBREW_BIN \<equiv> 71"
abbreviation (input) TRILOGY_CHARSET_HP8_BIN :: int where "TRILOGY_CHARSET_HP8_BIN \<equiv> 72"
abbreviation (input) TRILOGY_CHARSET_KEYBCS2_BIN :: int where "TRILOGY_CHARSET_KEYBCS2_BIN \<equiv> 73"
abbreviation (input) TRILOGY_CHARSET_KOI8R_BIN :: int where "TRILOGY_CHARSET_KOI8R_BIN \<equiv> 74"
abbreviation (input) TRILOGY_CHARSET_KOI8U_BIN :: int where "TRILOGY_CHARSET_KOI8U_BIN \<equiv> 75"
abbreviation (input) TRILOGY_CHARSET_LATIN2_BIN :: int where "TRILOGY_CHARSET_LATIN2_BIN \<equiv> 77"
abbreviation (input) TRILOGY_CHARSET_LATIN5_BIN :: int where "TRILOGY_CHARSET_LATIN5_BIN \<equiv> 78"
abbreviation (input) TRILOGY_CHARSET_LATIN7_BIN :: int where "TRILOGY_CHARSET_LATIN7_BIN \<equiv> 79"
abbreviation (input) TRILOGY_CHARSET_CP850_BIN :: int where "TRILOGY_CHARSET_CP850_BIN \<equiv> 80"
abbreviation (input) TRILOGY_CHARSET_CP852_BIN :: int where "TRILOGY_CHARSET_CP852_BIN \<equiv> 81"
abbreviation (input) TRILOGY_CHARSET_SWE7_BIN :: int where "TRILOGY_CHARSET_SWE7_BIN \<equiv> 82"
abbreviation (input) TRILOGY_CHARSET_UTF8_BIN :: int where "TRILOGY_CHARSET_UTF8_BIN \<equiv> 83"
abbreviation (input) TRILOGY_CHARSET_BIG5_BIN :: int where "TRILOGY_CHARSET_BIG5_BIN \<equiv> 84"
abbreviation (input) TRILOGY_CHARSET_EUCKR_BIN :: int where "TRILOGY_CHARSET_EUCKR_BIN \<equiv> 85"
abbreviation (input) TRILOGY_CHARSET_GB2312_BIN :: int where "TRILOGY_CHARSET_GB2312_BIN \<equiv> 86"
abbreviation (input) TRILOGY_CHARSET_GBK_BIN :: int where "TRILOGY_CHARSET_GBK_BIN \<equiv> 87"
abbreviation (input) TRILOGY_CHARSET_SJIS_BIN :: int where "TRILOGY_CHARSET_SJIS_BIN \<equiv> 88"
abbreviation (input) TRILOGY_CHARSET_TIS620_BIN :: int where "TRILOGY_CHARSET_TIS620_BIN \<equiv> 89"
abbreviation (input) TRILOGY_CHARSET_UCS2_BIN :: int where "TRILOGY_CHARSET_UCS2_BIN \<equiv> 90"
abbreviation (input) TRILOGY_CHARSET_UJIS_BIN :: int where "TRILOGY_CHARSET_UJIS_BIN \<equiv> 91"
abbreviation (input) TRILOGY_CHARSET_GEOSTD8_GENERAL_CI :: int where "TRILOGY_CHARSET_GEOSTD8_GENERAL_CI \<equiv> 92"
abbreviation (input) TRILOGY_CHARSET_GEOSTD8_BIN :: int where "TRILOGY_CHARSET_GEOSTD8_BIN \<equiv> 93"
abbreviation (input) TRILOGY_CHARSET_LATIN1_SPANISH_CI :: int where "TRILOGY_CHARSET_LATIN1_SPANISH_CI \<equiv> 94"
abbreviation (input) TRILOGY_CHARSET_CP932_JAPANESE_CI :: int where "TRILOGY_CHARSET_CP932_JAPANESE_CI \<equiv> 95"
abbreviation (input) TRILOGY_CHARSET_CP932_BIN :: int where "TRILOGY_CHARSET_CP932_BIN \<equiv> 96"
abbreviation (input) TRILOGY_CHARSET_EUCJPMS_JAPANESE_CI :: int where "TRILOGY_CHARSET_EUCJPMS_JAPANESE_CI \<equiv> 97"
abbreviation (input) TRILOGY_CHARSET_EUCJPMS_BIN :: int where "TRILOGY_CHARSET_EUCJPMS_BIN \<equiv> 98"
abbreviation (input) TRILOGY_CHARSET_CP1250_POLISH_CI :: int where "TRILOGY_CHARSET_CP1250_POLISH_CI \<equiv> 99"
abbreviation (input) TRILOGY_CHARSET_UTF16_UNICODE_CI :: int where "TRILOGY_CHARSET_UTF16_UNICODE_CI \<equiv> 101"
abbreviation (input) TRILOGY_CHARSET_UTF16_ICELANDIC_CI :: int where "TRILOGY_CHARSET_UTF16_ICELANDIC_CI \<equiv> 102"
abbreviation (input) TRILOGY_CHARSET_UTF16_LATVIAN_CI :: int where "TRILOGY_CHARSET_UTF16_LATVIAN_CI \<equiv> 103"
abbreviation (input) TRILOGY_CHARSET_UTF16_ROMANIAN_CI :: int where "TRILOGY_CHARSET_UTF16_ROMANIAN_CI \<equiv> 104"
abbreviation (input) TRILOGY_CHARSET_UTF16_SLOVENIAN_CI :: int where "TRILOGY_CHARSET_UTF16_SLOVENIAN_CI \<equiv> 105"
abbreviation (input) TRILOGY_CHARSET_UTF16_POLISH_CI :: int where "TRILOGY_CHARSET_UTF16_POLISH_CI \<equiv> 106"
abbreviation (input) TRILOGY_CHARSET_UTF16_ESTONIAN_CI :: int where "TRILOGY_CHARSET_UTF16_ESTONIAN_CI \<equiv> 107"
abbreviation (input) TRILOGY_CHARSET_UTF16_SPANISH_CI :: int where "TRILOGY_CHARSET_UTF16_SPANISH_CI \<equiv> 108"
abbreviation (input) TRILOGY_CHARSET_UTF16_SWEDISH_CI :: int where "TRILOGY_CHARSET_UTF16_SWEDISH_CI \<equiv> 109"
abbreviation (input) TRILOGY_CHARSET_UTF16_TURKISH_CI :: int where "TRILOGY_CHARSET_UTF16_TURKISH_CI \<equiv> 110"
abbreviation (input) TRILOGY_CHARSET_UTF16_CZECH_CI :: int where "TRILOGY_CHARSET_UTF16_CZECH_CI \<equiv> 111"
abbreviation (input) TRILOGY_CHARSET_UTF16_DANISH_CI :: int where "TRILOGY_CHARSET_UTF16_DANISH_CI \<equiv> 112"
abbreviation (input) TRILOGY_CHARSET_UTF16_LITHUANIAN_CI :: int where "TRILOGY_CHARSET_UTF16_LITHUANIAN_CI \<equiv> 113"
abbreviation (input) TRILOGY_CHARSET_UTF16_SLOVAK_CI :: int where "TRILOGY_CHARSET_UTF16_SLOVAK_CI \<equiv> 114"
abbreviation (input) TRILOGY_CHARSET_UTF16_SPANISH2_CI :: int where "TRILOGY_CHARSET_UTF16_SPANISH2_CI \<equiv> 115"
abbreviation (input) TRILOGY_CHARSET_UTF16_ROMAN_CI :: int where "TRILOGY_CHARSET_UTF16_ROMAN_CI \<equiv> 116"
abbreviation (input) TRILOGY_CHARSET_UTF16_PERSIAN_CI :: int where "TRILOGY_CHARSET_UTF16_PERSIAN_CI \<equiv> 117"
abbreviation (input) TRILOGY_CHARSET_UTF16_ESPERANTO_CI :: int where "TRILOGY_CHARSET_UTF16_ESPERANTO_CI \<equiv> 118"
abbreviation (input) TRILOGY_CHARSET_UTF16_HUNGARIAN_CI :: int where "TRILOGY_CHARSET_UTF16_HUNGARIAN_CI \<equiv> 119"
abbreviation (input) TRILOGY_CHARSET_UTF16_SINHALA_CI :: int where "TRILOGY_CHARSET_UTF16_SINHALA_CI \<equiv> 120"
abbreviation (input) TRILOGY_CHARSET_UCS2_UNICODE_CI :: int where "TRILOGY_CHARSET_UCS2_UNICODE_CI \<equiv> 128"
abbreviation (input) TRILOGY_CHARSET_UCS2_ICELANDIC_CI :: int where "TRILOGY_CHARSET_UCS2_ICELANDIC_CI \<equiv> 129"
abbreviation (input) TRILOGY_CHARSET_UCS2_LATVIAN_CI :: int where "TRILOGY_CHARSET_UCS2_LATVIAN_CI \<equiv> 130"
abbreviation (input) TRILOGY_CHARSET_UCS2_ROMANIAN_CI :: int where "TRILOGY_CHARSET_UCS2_ROMANIAN_CI \<equiv> 131"
abbreviation (input) TRILOGY_CHARSET_UCS2_SLOVENIAN_CI :: int where "TRILOGY_CHARSET_UCS2_SLOVENIAN_CI \<equiv> 132"
abbreviation (input) TRILOGY_CHARSET_UCS2_POLISH_CI :: int where "TRILOGY_CHARSET_UCS2_POLISH_CI \<equiv> 133"
abbreviation (input) TRILOGY_CHARSET_UCS2_ESTONIAN_CI :: int where "TRILOGY_CHARSET_UCS2_ESTONIAN_CI \<equiv> 134"
abbreviation (input) TRILOGY_CHARSET_UCS2_SPANISH_CI :: int where "TRILOGY_CHARSET_UCS2_SPANISH_CI \<equiv> 135"
abbreviation (input) TRILOGY_CHARSET_UCS2_SWEDISH_CI :: int where "TRILOGY_CHARSET_UCS2_SWEDISH_CI \<equiv> 136"
abbreviation (input) TRILOGY_CHARSET_UCS2_TURKISH_CI :: int where "TRILOGY_CHARSET_UCS2_TURKISH_CI \<equiv> 137"
abbreviation (input) TRILOGY_CHARSET_UCS2_CZECH_CI :: int where "TRILOGY_CHARSET_UCS2_CZECH_CI \<equiv> 138"
abbreviation (input) TRILOGY_CHARSET_UCS2_DANISH_CI :: int where "TRILOGY_CHARSET_UCS2_DANISH_CI \<equiv> 139"
abbreviation (input) TRILOGY_CHARSET_UCS2_LITHUANIAN_CI :: int where "TRILOGY_CHARSET_UCS2_LITHUANIAN_CI \<equiv> 140"
abbreviation (input) TRILOGY_CHARSET_UCS2_SLOVAK_CI :: int where "TRILOGY_CHARSET_UCS2_SLOVAK_CI \<equiv> 141"
abbreviation (input) TRILOGY_CHARSET_UCS2_SPANISH2_CI :: int where "TRILOGY_CHARSET_UCS2_SPANISH2_CI \<equiv> 142"
abbreviation (input) TRILOGY_CHARSET_UCS2_ROMAN_CI :: int where "TRILOGY_CHARSET_UCS2_ROMAN_CI \<equiv> 143"
abbreviation (input) TRILOGY_CHARSET_UCS2_PERSIAN_CI :: int where "TRILOGY_CHARSET_UCS2_PERSIAN_CI \<equiv> 144"
abbreviation (input) TRILOGY_CHARSET_UCS2_ESPERANTO_CI :: int where "TRILOGY_CHARSET_UCS2_ESPERANTO_CI \<equiv> 145"
abbreviation (input) TRILOGY_CHARSET_UCS2_HUNGARIAN_CI :: int where "TRILOGY_CHARSET_UCS2_HUNGARIAN_CI \<equiv> 146"
abbreviation (input) TRILOGY_CHARSET_UCS2_SINHALA_CI :: int where "TRILOGY_CHARSET_UCS2_SINHALA_CI \<equiv> 147"
abbreviation (input) TRILOGY_CHARSET_UCS2_GENERAL_MYSQL500_CI :: int where "TRILOGY_CHARSET_UCS2_GENERAL_MYSQL500_CI \<equiv> 159"
abbreviation (input) TRILOGY_CHARSET_UTF32_UNICODE_CI :: int where "TRILOGY_CHARSET_UTF32_UNICODE_CI \<equiv> 160"
abbreviation (input) TRILOGY_CHARSET_UTF32_ICELANDIC_CI :: int where "TRILOGY_CHARSET_UTF32_ICELANDIC_CI \<equiv> 161"
abbreviation (input) TRILOGY_CHARSET_UTF32_LATVIAN_CI :: int where "TRILOGY_CHARSET_UTF32_LATVIAN_CI \<equiv> 162"
abbreviation (input) TRILOGY_CHARSET_UTF32_ROMANIAN_CI :: int where "TRILOGY_CHARSET_UTF32_ROMANIAN_CI \<equiv> 163"
abbreviation (input) TRILOGY_CHARSET_UTF32_SLOVENIAN_CI :: int where "TRILOGY_CHARSET_UTF32_SLOVENIAN_CI \<equiv> 164"
abbreviation (input) TRILOGY_CHARSET_UTF32_POLISH_CI :: int where "TRILOGY_CHARSET_UTF32_POLISH_CI \<equiv> 165"
abbreviation (input) TRILOGY_CHARSET_UTF32_ESTONIAN_CI :: int where "TRILOGY_CHARSET_UTF32_ESTONIAN_CI \<equiv> 166"
abbreviation (input) TRILOGY_CHARSET_UTF32_SPANISH_CI :: int where "TRILOGY_CHARSET_UTF32_SPANISH_CI \<equiv> 167"
abbreviation (input) TRILOGY_CHARSET_UTF32_SWEDISH_CI :: int where "TRILOGY_CHARSET_UTF32_SWEDISH_CI \<equiv> 168"
abbreviation (input) TRILOGY_CHARSET_UTF32_TURKISH_CI :: int where "TRILOGY_CHARSET_UTF32_TURKISH_CI \<equiv> 169"
abbreviation (input) TRILOGY_CHARSET_UTF32_CZECH_CI :: int where "TRILOGY_CHARSET_UTF32_CZECH_CI \<equiv> 170"
abbreviation (input) TRILOGY_CHARSET_UTF32_DANISH_CI :: int where "TRILOGY_CHARSET_UTF32_DANISH_CI \<equiv> 171"
abbreviation (input) TRILOGY_CHARSET_UTF32_LITHUANIAN_CI :: int where "TRILOGY_CHARSET_UTF32_LITHUANIAN_CI \<equiv> 172"
abbreviation (input) TRILOGY_CHARSET_UTF32_SLOVAK_CI :: int where "TRILOGY_CHARSET_UTF32_SLOVAK_CI \<equiv> 173"
abbreviation (input) TRILOGY_CHARSET_UTF32_SPANISH2_CI :: int where "TRILOGY_CHARSET_UTF32_SPANISH2_CI \<equiv> 174"
abbreviation (input) TRILOGY_CHARSET_UTF32_ROMAN_CI :: int where "TRILOGY_CHARSET_UTF32_ROMAN_CI \<equiv> 175"
abbreviation (input) TRILOGY_CHARSET_UTF32_PERSIAN_CI :: int where "TRILOGY_CHARSET_UTF32_PERSIAN_CI \<equiv> 176"
abbreviation (input) TRILOGY_CHARSET_UTF32_ESPERANTO_CI :: int where "TRILOGY_CHARSET_UTF32_ESPERANTO_CI \<equiv> 177"
abbreviation (input) TRILOGY_CHARSET_UTF32_HUNGARIAN_CI :: int where "TRILOGY_CHARSET_UTF32_HUNGARIAN_CI \<equiv> 178"
abbreviation (input) TRILOGY_CHARSET_UTF32_SINHALA_CI :: int where "TRILOGY_CHARSET_UTF32_SINHALA_CI \<equiv> 179"
abbreviation (input) TRILOGY_CHARSET_UTF8_UNICODE_CI :: int where "TRILOGY_CHARSET_UTF8_UNICODE_CI \<equiv> 192"
abbreviation (input) TRILOGY_CHARSET_UTF8_ICELANDIC_CI :: int where "TRILOGY_CHARSET_UTF8_ICELANDIC_CI \<equiv> 193"
abbreviation (input) TRILOGY_CHARSET_UTF8_LATVIAN_CI :: int where "TRILOGY_CHARSET_UTF8_LATVIAN_CI \<equiv> 194"
abbreviation (input) TRILOGY_CHARSET_UTF8_ROMANIAN_CI :: int where "TRILOGY_CHARSET_UTF8_ROMANIAN_CI \<equiv> 195"
abbreviation (input) TRILOGY_CHARSET_UTF8_SLOVENIAN_CI :: int where "TRILOGY_CHARSET_UTF8_SLOVENIAN_CI \<equiv> 196"
abbreviation (input) TRILOGY_CHARSET_UTF8_POLISH_CI :: int where "TRILOGY_CHARSET_UTF8_POLISH_CI \<equiv> 197"
abbreviation (input) TRILOGY_CHARSET_UTF8_ESTONIAN_CI :: int where "TRILOGY_CHARSET_UTF8_ESTONIAN_CI \<equiv> 198"
abbreviation (input) TRILOGY_CHARSET_UTF8_SPANISH_CI :: int where "TRILOGY_CHARSET_UTF8_SPANISH_CI \<equiv> 199"
abbreviation (input) TRILOGY_CHARSET_UTF8_SWEDISH_CI :: int where "TRILOGY_CHARSET_UTF8_SWEDISH_CI \<equiv> 200"
abbreviation (input) TRILOGY_CHARSET_UTF8_TURKISH_CI :: int where "TRILOGY_CHARSET_UTF8_TURKISH_CI \<equiv> 201"
abbreviation (input) TRILOGY_CHARSET_UTF8_CZECH_CI :: int where "TRILOGY_CHARSET_UTF8_CZECH_CI \<equiv> 202"
abbreviation (input) TRILOGY_CHARSET_UTF8_DANISH_CI :: int where "TRILOGY_CHARSET_UTF8_DANISH_CI \<equiv> 203"
abbreviation (input) TRILOGY_CHARSET_UTF8_LITHUANIAN_CI :: int where "TRILOGY_CHARSET_UTF8_LITHUANIAN_CI \<equiv> 204"
abbreviation (input) TRILOGY_CHARSET_UTF8_SLOVAK_CI :: int where "TRILOGY_CHARSET_UTF8_SLOVAK_CI \<equiv> 205"
abbreviation (input) TRILOGY_CHARSET_UTF8_SPANISH2_CI :: int where "TRILOGY_CHARSET_UTF8_SPANISH2_CI \<equiv> 206"
abbreviation (input) TRILOGY_CHARSET_UTF8_ROMAN_CI :: int where "TRILOGY_CHARSET_UTF8_ROMAN_CI \<equiv> 207"
abbreviation (input) TRILOGY_CHARSET_UTF8_PERSIAN_CI :: int where "TRILOGY_CHARSET_UTF8_PERSIAN_CI \<equiv> 208"
abbreviation (input) TRILOGY_CHARSET_UTF8_ESPERANTO_CI :: int where "TRILOGY_CHARSET_UTF8_ESPERANTO_CI \<equiv> 209"
abbreviation (input) TRILOGY_CHARSET_UTF8_HUNGARIAN_CI :: int where "TRILOGY_CHARSET_UTF8_HUNGARIAN_CI \<equiv> 210"
abbreviation (input) TRILOGY_CHARSET_UTF8_SINHALA_CI :: int where "TRILOGY_CHARSET_UTF8_SINHALA_CI \<equiv> 211"
abbreviation (input) TRILOGY_CHARSET_UTF8_GENERAL_MYSQL500_CI :: int where "TRILOGY_CHARSET_UTF8_GENERAL_MYSQL500_CI \<equiv> 223"
abbreviation (input) TRILOGY_CHARSET_UTF8MB4_UNICODE_CI :: int where "TRILOGY_CHARSET_UTF8MB4_UNICODE_CI \<equiv> 224"
abbreviation (input) TRILOGY_CHARSET_UTF8MB4_ICELANDIC_CI :: int where "TRILOGY_CHARSET_UTF8MB4_ICELANDIC_CI \<equiv> 225"
abbreviation (input) TRILOGY_CHARSET_UTF8MB4_LATVIAN_CI :: int where "TRILOGY_CHARSET_UTF8MB4_LATVIAN_CI \<equiv> 226"
abbreviation (input) TRILOGY_CHARSET_UTF8MB4_ROMANIAN_CI :: int where "TRILOGY_CHARSET_UTF8MB4_ROMANIAN_CI \<equiv> 227"
abbreviation (input) TRILOGY_CHARSET_UTF8MB4_SLOVENIAN_CI :: int where "TRILOGY_CHARSET_UTF8MB4_SLOVENIAN_CI \<equiv> 228"
abbreviation (input) TRILOGY_CHARSET_UTF8MB4_POLISH_CI :: int where "TRILOGY_CHARSET_UTF8MB4_POLISH_CI \<equiv> 229"
abbreviation (input) TRILOGY_CHARSET_UTF8MB4_ESTONIAN_CI :: int where "TRILOGY_CHARSET_UTF8MB4_ESTONIAN_CI \<equiv> 230"
abbreviation (input) TRILOGY_CHARSET_UTF8MB4_SPANISH_CI :: int where "TRILOGY_CHARSET_UTF8MB4_SPANISH_CI \<equiv> 231"
abbreviation (input) TRILOGY_CHARSET_UTF8MB4_SWEDISH_CI :: int where "TRILOGY_CHARSET_UTF8MB4_SWEDISH_CI \<equiv> 232"
abbreviation (input) TRILOGY_CHARSET_UTF8MB4_TURKISH_CI :: int where "TRILOGY_CHARSET_UTF8MB4_TURKISH_CI \<equiv> 233"
abbreviation (input) TRILOGY_CHARSET_UTF8MB4_CZECH_CI :: int where "TRILOGY_CHARSET_UTF8MB4_CZECH_CI \<equiv> 234"
abbreviation (input) TRILOGY_CHARSET_UTF8MB4_DANISH_CI :: int where "TRILOGY_CHARSET_UTF8MB4_DANISH_CI \<equiv> 235"
abbreviation (input) TRILOGY_CHARSET_UTF8MB4_LITHUANIAN_CI :: int where "TRILOGY_CHARSET_UTF8MB4_LITHUANIAN_CI \<equiv> 236"
abbreviation (input) TRILOGY_CHARSET_UTF8MB4_SLOVAK_CI :: int where "TRILOGY_CHARSET_UTF8MB4_SLOVAK_CI \<equiv> 237"
abbreviation (input) TRILOGY_CHARSET_UTF8MB4_SPANISH2_CI :: int where "TRILOGY_CHARSET_UTF8MB4_SPANISH2_CI \<equiv> 238"
abbreviation (input) TRILOGY_CHARSET_UTF8MB4_ROMAN_CI :: int where "TRILOGY_CHARSET_UTF8MB4_ROMAN_CI \<equiv> 239"
abbreviation (input) TRILOGY_CHARSET_UTF8MB4_PERSIAN_CI :: int where "TRILOGY_CHARSET_UTF8MB4_PERSIAN_CI \<equiv> 240"
abbreviation (input) TRILOGY_CHARSET_UTF8MB4_ESPERANTO_CI :: int where "TRILOGY_CHARSET_UTF8MB4_ESPERANTO_CI \<equiv> 241"
abbreviation (input) TRILOGY_CHARSET_UTF8MB4_HUNGARIAN_CI :: int where "TRILOGY_CHARSET_UTF8MB4_HUNGARIAN_CI \<equiv> 242"
abbreviation (input) TRILOGY_CHARSET_UTF8MB4_SINHALA_CI :: int where "TRILOGY_CHARSET_UTF8MB4_SINHALA_CI \<equiv> 243"
abbreviation (input) TRILOGY_CHARSET_UTF8MB4_GERMAN2_CI :: int where "TRILOGY_CHARSET_UTF8MB4_GERMAN2_CI \<equiv> 244"
abbreviation (input) TRILOGY_CHARSET_UTF8MB4_CROATIAN_CI :: int where "TRILOGY_CHARSET_UTF8MB4_CROATIAN_CI \<equiv> 245"
abbreviation (input) TRILOGY_CHARSET_UTF8MB4_UNICODE_520_CI :: int where "TRILOGY_CHARSET_UTF8MB4_UNICODE_520_CI \<equiv> 246"
abbreviation (input) TRILOGY_CHARSET_UTF8MB4_VIETNAMESE_CI :: int where "TRILOGY_CHARSET_UTF8MB4_VIETNAMESE_CI \<equiv> 247"
abbreviation (input) TRILOGY_CHARSET_GB18030_CHINESE_CI :: int where "TRILOGY_CHARSET_GB18030_CHINESE_CI \<equiv> 248"
abbreviation (input) TRILOGY_CHARSET_GB18030_BIN_CI :: int where "TRILOGY_CHARSET_GB18030_BIN_CI \<equiv> 249"
abbreviation (input) TRILOGY_CHARSET_GB18030_UNICODE_520_CI :: int where "TRILOGY_CHARSET_GB18030_UNICODE_520_CI \<equiv> 250"
abbreviation (input) TRILOGY_CHARSET_UTF8MB4_0900_AI_CI :: int where "TRILOGY_CHARSET_UTF8MB4_0900_AI_CI \<equiv> 255"

definition TRILOGY_CHARSETS :: "(int \<times> string) list" where
  "TRILOGY_CHARSETS = [
     (TRILOGY_CHARSET_NONE, ''NONE''),
     (TRILOGY_CHARSET_BIG5_CHINESE_CI, ''BIG5_CHINESE_CI''),
     (TRILOGY_CHARSET_LATIN2_CZECH_CS, ''LATIN2_CZECH_CS''),
     (TRILOGY_CHARSET_DEC8_SWEDISH_CI, ''DEC8_SWEDISH_CI''),
     (TRILOGY_CHARSET_CP850_GENERAL_CI, ''CP850_GENERAL_CI''),
     (TRILOGY_CHARSET_LATIN1_GERMAN1_CI, ''LATIN1_GERMAN1_CI''),
     (TRILOGY_CHARSET_HP8_ENGLISH_CI, ''HP8_ENGLISH_CI''),
     (TRILOGY_CHARSET_KOI8R_GENERAL_CI, ''KOI8R_GENERAL_CI''),
     (TRILOGY_CHARSET_LATIN1_SWEDISH_CI, ''LATIN1_SWEDISH_CI''),
     (TRILOGY_CHARSET_LATIN2_GENERAL_CI, ''LATIN2_GENERAL_CI''),
     (TRILOGY_CHARSET_SWE7_SWEDISH_CI, ''SWE7_SWEDISH_CI''),
     (TRILOGY_CHARSET_ASCII_GENERAL_CI, ''ASCII_GENERAL_CI''),
     (TRILOGY_CHARSET_UJIS_JAPANESE_CI, ''UJIS_JAPANESE_CI''),
     (TRILOGY_CHARSET_SJIS_JAPANESE_CI, ''SJIS_JAPANESE_CI''),
     (TRILOGY_CHARSET_CP1251_BULGARIAN_CI, ''CP1251_BULGARIAN_CI''),
     (TRILOGY_CHARSET_LATIN1_DANISH_CI, ''LATIN1_DANISH_CI''),
     (TRILOGY_CHARSET_HEBREW_GENERAL_CI, ''HEBREW_GENERAL_CI''),
     (TRILOGY_CHARSET_TIS620_THAI_CI, ''TIS620_THAI_CI''),
     (TRILOGY_CHARSET_EUCKR_KOREAN_CI, ''EUCKR_KOREAN_CI''),
     (TRILOGY_CHARSET_LATIN7_ESTONIAN_CS, ''LATIN7_ESTONIAN_CS''),
     (TRILOGY_CHARSET_LATIN2_HUNGARIAN_CI, ''LATIN2_HUNGARIAN_CI''),
     (TRILOGY_CHARSET_KOI8U_GENERAL_CI, ''KOI8U_GENERAL_CI''),
     (TRILOGY_CHARSET_CP1251_UKRAINIAN_CI, ''CP1251_UKRAINIAN_CI''),
     (TRILOGY_CHARSET_GB2312_CHINESE_CI, ''GB2312_CHINESE_CI''),
     (TRILOGY_CHARSET_GREEK_GENERAL_CI, ''GREEK_GENERAL_CI''),
     (TRILOGY_CHARSET_CP1250_GENERAL_CI, ''CP1250_GENERAL_CI''),
     (TRILOGY_CHARSET_LATIN2_CROATIAN_CI, ''LATIN2_CROATIAN_CI''),
     (TRILOGY_CHARSET_GBK_CHINESE_CI, ''GBK_CHINESE_CI''),
     (TRILOGY_CHARSET_CP1257_LITHUANIAN_CI, ''CP1257_LITHUANIAN_CI''),
     (TRILOGY_CHARSET_LATIN5_TURKISH_CI, ''LATIN5_TURKISH_CI''),
     (TRILOGY_CHARSET_LATIN1_GERMAN2_CI, ''LATIN1_GERMAN2_CI''),
     (TRILOGY_CHARSET_ARMSCII8_GENERAL_CI, ''ARMSCII8_GENERAL_CI''),
     (TRILOGY_CHARSET_UTF8_GENERAL_CI, ''UTF8_GENERAL_CI''),
     (TRILOGY_CHARSET_CP1250_CZECH_CS, ''CP1250_CZECH_CS''),
     (TRILOGY_CHARSET_UCS2_GENERAL_CI, ''UCS2_GENERAL_CI''),
     (TRILOGY_CHARSET_CP866_GENERAL_CI, ''CP866_GENERAL_CI''),
     (TRILOGY_CHARSET_KEYBCS2_GENERAL_CI, ''KEYBCS2_GENERAL_CI''),
     (TRILOGY_CHARSET_MACCE_GENERAL_CI, ''MACCE_GENERAL_CI''),
     (TRILOGY_CHARSET_MACROMAN_GENERAL_CI, ''MACROMAN_GENERAL_CI''),
     (TRILOGY_CHARSET_CP852_GENERAL_CI, ''CP852_GENERAL_CI''),
     (TRILOGY_CHARSET_LATIN7_GENERAL_CI, ''LATIN7_GENERAL_CI''),
     (TRILOGY_CHARSET_LATIN7_GENERAL_CS, ''LATIN7_GENERAL_CS''),
     (TRILOGY_CHARSET_MACCE_BIN, ''MACCE_BIN''),
     (TRILOGY_CHARSET_CP1250_CROATIAN_CI, ''CP1250_CROATIAN_CI''),
     (TRILOGY_CHARSET_UTF8MB4_GENERAL_CI, ''UTF8MB4_GENERAL_CI''),
     (TRILOGY_CHARSET_UTF8MB4_BIN, ''UTF8MB4_BIN''),
     (TRILOGY_CHARSET_LATIN1_BIN, ''LATIN1_BIN''),
     (TRILOGY_CHARSET_LATIN1_GENERAL_CI, ''LATIN1_GENERAL_CI''),
     (TRILOGY_CHARSET_LATIN1_GENERAL_CS, ''LATIN1_GENERAL_CS''),
     (TRILOGY_CHARSET_CP1251_BIN, ''CP1251_BIN''),
     (TRILOGY_CHARSET_CP1251_GENERAL_CI, ''CP1251_GENERAL_CI''),
     (TRILOGY_CHARSET_CP1251_GENERAL_CS, ''CP1251_GENERAL_CS''),
     (TRILOGY_CHARSET_MACROMAN_BIN, ''MACROMAN_BIN''),
     (TRILOGY_CHARSET_UTF16_GENERAL_CI, ''UTF16_GENERAL_CI''),
     (TRILOGY_CHARSET_UTF16_BIN, ''UTF16_BIN''),
     (TRILOGY_CHARSET_CP1256_GENERAL_CI, ''CP1256_GENERAL_CI''),
     (TRILOGY_CHARSET_CP1257_BIN, ''CP1257_BIN''),
     (TRILOGY_CHARSET_CP1257_GENERAL_CI, ''CP1257_GENERAL_CI''),
     (TRILOGY_CHARSET_UTF32_GENERAL_CI, ''UTF32_GENERAL_CI''),
     (TRILOGY_CHARSET_UTF32_BIN, ''UTF32_BIN''),
     (TRILOGY_CHARSET_BINARY, ''BINARY''),
     (TRILOGY_CHARSET_ARMSCII8_BIN, ''ARMSCII8_BIN''),
     (TRILOGY_CHARSET_ASCII_BIN, ''ASCII_BIN''),
     (TRILOGY_CHARSET_CP1250_BIN, ''CP1250_BIN''),
     (TRILOGY_CHARSET_CP1256_BIN, ''CP1256_BIN''),
     (TRILOGY_CHARSET_CP866_BIN, ''CP866_BIN''),
     (TRILOGY_CHARSET_DEC8_BIN, ''DEC8_BIN''),
     (TRILOGY_CHARSET_GREEK_BIN, ''GREEK_BIN''),
     (TRILOGY_CHARSET_HEBREW_BIN, ''HEBREW_BIN''),
     (TRILOGY_CHARSET_HP8_BIN, ''HP8_BIN''),
     (TRILOGY_CHARSET_KEYBCS2_BIN, ''KEYBCS2_BIN''),
     (TRILOGY_CHARSET_KOI8R_BIN, ''KOI8R_BIN''),
     (TRILOGY_CHARSET_KOI8U_BIN, ''KOI8U_BIN''),
     (TRILOGY_CHARSET_LATIN2_BIN, ''LATIN2_BIN''),
     (TRILOGY_CHARSET_LATIN5_BIN, ''LATIN5_BIN''),
     (TRILOGY_CHARSET_LATIN7_BIN, ''LATIN7_BIN''),
     (TRILOGY_CHARSET_CP850_BIN, ''CP850_BIN''),
     (TRILOGY_CHARSET_CP852_BIN, ''CP852_BIN''),
     (TRILOGY_CHARSET_SWE7_BIN, ''SWE7_BIN''),
     (TRILOGY_CHARSET_UTF8_BIN, ''UTF8_BIN''),
     (TRILOGY_CHARSET_BIG5_BIN, ''BIG5_BIN''),
     (TRILOGY_CHARSET_EUCKR_BIN, ''EUCKR_BIN''),
     (TRILOGY_CHARSET_GB2312_BIN, ''GB2312_BIN''),
     (TRILOGY_CHARSET_GBK_BIN, ''GBK_BIN''),
     (TRILOGY_CHARSET_SJIS_BIN, ''SJIS_BIN''),
     (TRILOGY_CHARSET_TIS620_BIN, ''TIS620_BIN''),
     (TRILOGY_CHARSET_UCS2_BIN, ''UCS2_BIN''),
     (TRILOGY_CHARSET_UJIS_BIN, ''UJIS_BIN''),
     (TRILOGY_CHARSET_GEOSTD8_GENERAL_CI, ''GEOSTD8_GENERAL_CI''),
     (TRILOGY_CHARSET_GEOSTD8_BIN, ''GEOSTD8_BIN''),
     (TRILOGY_CHARSET_LATIN1_SPANISH_CI, ''LATIN1_SPANISH_CI''),
     (TRILOGY_CHARSET_CP932_JAPANESE_CI, ''CP932_JAPANESE_CI''),
     (TRILOGY_CHARSET_CP932_BIN, ''CP932_BIN''),
     (TRILOGY_CHARSET_EUCJPMS_JAPANESE_CI, ''EUCJPMS_JAPANESE_CI''),
     (TRILOGY_CHARSET_EUCJPMS_BIN, ''EUCJPMS_BIN''),
     (TRILOGY_CHARSET_CP1250_POLISH_CI, ''CP1250_POLISH_CI''),
     (TRILOGY_CHARSET_UTF16_UNICODE_CI, ''UTF16_UNICODE_CI''),
     (TRILOGY_CHARSET_UTF16_ICELANDIC_CI, ''UTF16_ICELANDIC_CI''),
     (TRILOGY_CHARSET_UTF16_LATVIAN_CI, ''UTF16_LATVIAN_CI''),
     (TRILOGY_CHARSET_UTF16_ROMANIAN_CI, ''UTF16_ROMANIAN_CI''),
     (TRILOGY_CHARSET_UTF16_SLOVENIAN_CI, ''UTF16_SLOVENIAN_CI''),
     (TRILOGY_CHARSET_UTF16_POLISH_CI, ''UTF16_POLISH_CI''),
     (TRILOGY_CHARSET_UTF16_ESTONIAN_CI, ''UTF16_ESTONIAN_CI''),
     (TRILOGY_CHARSET_UTF16_SPANISH_CI, ''UTF16_SPANISH_CI''),
     (TRILOGY_CHARSET_UTF16_SWEDISH_CI, ''UTF16_SWEDISH_CI''),
     (TRILOGY_CHARSET_UTF16_TURKISH_CI, ''UTF16_TURKISH_CI''),
     (TRILOGY_CHARSET_UTF16_CZECH_CI, ''UTF16_CZECH_CI''),
     (TRILOGY_CHARSET_UTF16_DANISH_CI, ''UTF16_DANISH_CI''),
     (TRILOGY_CHARSET_UTF16_LITHUANIAN_CI, ''UTF16_LITHUANIAN_CI''),
     (TRILOGY_CHARSET_UTF16_SLOVAK_CI, ''UTF16_SLOVAK_CI''),
     (TRILOGY_CHARSET_UTF16_SPANISH2_CI, ''UTF16_SPANISH2_CI''),
     (TRILOGY_CHARSET_UTF16_ROMAN_CI, ''UTF16_ROMAN_CI''),
     (TRILOGY_CHARSET_UTF16_PERSIAN_CI, ''UTF16_PERSIAN_CI''),
     (TRILOGY_CHARSET_UTF16_ESPERANTO_CI, ''UTF16_ESPERANTO_CI''),
     (TRILOGY_CHARSET_UTF16_HUNGARIAN_CI, ''UTF16_HUNGARIAN_CI''),
     (TRILOGY_CHARSET_UTF16_SINHALA_CI, ''UTF16_SINHALA_CI''),
     (TRILOGY_CHARSET_UCS2_UNICODE_CI, ''UCS2_UNICODE_CI''),
     (TRILOGY_CHARSET_UCS2_ICELANDIC_CI, ''UCS2_ICELANDIC_CI''),
     (TRILOGY_CHARSET_UCS2_LATVIAN_CI, ''UCS2_LATVIAN_CI''),
     (TRILOGY_CHARSET_UCS2_ROMANIAN_CI, ''UCS2_ROMANIAN_CI''),
     (TRILOGY_CHARSET_UCS2_SLOVENIAN_CI, ''UCS2_SLOVENIAN_CI''),
     (TRILOGY_CHARSET_UCS2_POLISH_CI, ''UCS2_POLISH_CI''),
     (TRILOGY_CHARSET_UCS2_ESTONIAN_CI, ''UCS2_ESTONIAN_CI''),
     (TRILOGY_CHARSET_UCS2_SPANISH_CI, ''UCS2_SPANISH_CI''),
     (TRILOGY_CHARSET_UCS2_SWEDISH_CI, ''UCS2_SWEDISH_CI''),
     (TRILOGY_CHARSET_UCS2_TURKISH_CI, ''UCS2_TURKISH_CI''),
     (TRILOGY_CHARSET_UCS2_CZECH_CI, ''UCS2_CZECH_CI''),
     (TRILOGY_CHARSET_UCS2_DANISH_CI, ''UCS2_DANISH_CI''),
     (TRILOGY_CHARSET_UCS2_LITHUANIAN_CI, ''UCS2_LITHUANIAN_CI''),
     (TRILOGY_CHARSET_UCS2_SLOVAK_CI, ''UCS2_SLOVAK_CI''),
     (TRILOGY_CHARSET_UCS2_SPANISH2_CI, ''UCS2_SPANISH2_CI''),
     (TRILOGY_CHARSET_UCS2_ROMAN_CI, ''UCS2_ROMAN_CI''),
     (TRILOGY_CHARSET_UCS2_PERSIAN_CI, ''UCS2_PERSIAN_CI''),
     (TRILOGY_CHARSET_UCS2_ESPERANTO_CI, ''UCS2_ESPERANTO_CI''),
     (TRILOGY_CHARSET_UCS2_HUNGARIAN_CI, ''UCS2_HUNGARIAN_CI''),
     (TRILOGY_CHARSET_UCS2_SINHALA_CI, ''UCS2_SINHALA_CI''),
     (TRILOGY_CHARSET_UCS2_GENERAL_MYSQL500_CI, ''UCS2_GENERAL_MYSQL500_CI''),
     (TRILOGY_CHARSET_UTF32_UNICODE_CI, ''UTF32_UNICODE_CI''),
     (TRILOGY_CHARSET_UTF32_ICELANDIC_CI, ''UTF32_ICELANDIC_CI''),
     (TRILOGY_CHARSET_UTF32_LATVIAN_CI, ''UTF32_LATVIAN_CI''),
     (TRILOGY_CHARSET_UTF32_ROMANIAN_CI, ''UTF32_ROMANIAN_CI''),
     (TRILOGY_CHARSET_UTF32_SLOVENIAN_CI, ''UTF32_SLOVENIAN_CI''),
     (TRILOGY_CHARSET_UTF32_POLISH_CI, ''UTF32_POLISH_CI''),
     (TRILOGY_CHARSET_UTF32_ESTONIAN_CI, ''UTF32_ESTONIAN_CI''),
     (TRILOGY_CHARSET_UTF32_SPANISH_CI, ''UTF32_SPANISH_CI''),
     (TRILOGY_CHARSET_UTF32_SWEDISH_CI, ''UTF32_SWEDISH_CI''),
     (TRILOGY_CHARSET_UTF32_TURKISH_CI, ''UTF32_TURKISH_CI''),
     (TRILOGY_CHARSET_UTF32_CZECH_CI, ''UTF32_CZECH_CI''),
     (TRILOGY_CHARSET_UTF32_DANISH_CI, ''UTF32_DANISH_CI''),
     (TRILOGY_CHARSET_UTF32_LITHUANIAN_CI, ''UTF32_LITHUANIAN_CI''),
     (TRILOGY_CHARSET_UTF32_SLOVAK_CI, ''UTF32_SLOVAK_CI''),
     (TRILOGY_CHARSET_UTF32_SPANISH2_CI, ''UTF32_SPANISH2_CI''),
     (TRILOGY_CHARSET_UTF32_ROMAN_CI, ''UTF32_ROMAN_CI''),
     (TRILOGY_CHARSET_UTF32_PERSIAN_CI, ''UTF32_PERSIAN_CI''),
     (TRILOGY_CHARSET_UTF32_ESPERANTO_CI, ''UTF32_ESPERANTO_CI''),
     (TRILOGY_CHARSET_UTF32_HUNGARIAN_CI, ''UTF32_HUNGARIAN_CI''),
     (TRILOGY_CHARSET_UTF32_SINHALA_CI, ''UTF32_SINHALA_CI''),
     (TRILOGY_CHARSET_UTF8_UNICODE_CI, ''UTF8_UNICODE_CI''),
     (TRILOGY_CHARSET_UTF8_ICELANDIC_CI, ''UTF8_ICELANDIC_CI''),
     (TRILOGY_CHARSET_UTF8_LATVIAN_CI, ''UTF8_LATVIAN_CI''),
     (TRILOGY_CHARSET_UTF8_ROMANIAN_CI, ''UTF8_ROMANIAN_CI''),
     (TRILOGY_CHARSET_UTF8_SLOVENIAN_CI, ''UTF8_SLOVENIAN_CI''),
     (TRILOGY_CHARSET_UTF8_POLISH_CI, ''UTF8_POLISH_CI''),
     (TRILOGY_CHARSET_UTF8_ESTONIAN_CI, ''UTF8_ESTONIAN_CI''),
     (TRILOGY_CHARSET_UTF8_SPANISH_CI, ''UTF8_SPANISH_CI''),
     (TRILOGY_CHARSET_UTF8_SWEDISH_CI, ''UTF8_SWEDISH_CI''),
     (TRILOGY_CHARSET_UTF8_TURKISH_CI, ''UTF8_TURKISH_CI''),
     (TRILOGY_CHARSET_UTF8_CZECH_CI, ''UTF8_CZECH_CI''),
     (TRILOGY_CHARSET_UTF8_DANISH_CI, ''UTF8_DANISH_CI''),
     (TRILOGY_CHARSET_UTF8_LITHUANIAN_CI, ''UTF8_LITHUANIAN_CI''),
     (TRILOGY_CHARSET_UTF8_SLOVAK_CI, ''UTF8_SLOVAK_CI''),
     (TRILOGY_CHARSET_UTF8_SPANISH2_CI, ''UTF8_SPANISH2_CI''),
     (TRILOGY_CHARSET_UTF8_ROMAN_CI, ''UTF8_ROMAN_CI''),
     (TRILOGY_CHARSET_UTF8_PERSIAN_CI, ''UTF8_PERSIAN_CI''),
     (TRILOGY_CHARSET_UTF8_ESPERANTO_CI, ''UTF8_ESPERANTO_CI''),
     (TRILOGY_CHARSET_UTF8_HUNGARIAN_CI, ''UTF8_HUNGARIAN_CI''),
     (TRILOGY_CHARSET_UTF8_SINHALA_CI, ''UTF8_SINHALA_CI''),
     (TRILOGY_CHARSET_UTF8_GENERAL_MYSQL500_CI, ''UTF8_GENERAL_MYSQL500_CI''),
     (TRILOGY_CHARSET_UTF8MB4_UNICODE_CI, ''UTF8MB4_UNICODE_CI''),
     (TRILOGY_CHARSET_UTF8MB4_ICELANDIC_CI, ''UTF8MB4_ICELANDIC_CI''),
     (TRILOGY_CHARSET_UTF8MB4_LATVIAN_CI, ''UTF8MB4_LATVIAN_CI''),
     (TRILOGY_CHARSET_UTF8MB4_ROMANIAN_CI, ''UTF8MB4_ROMANIAN_CI''),
     (TRILOGY_CHARSET_UTF8MB4_SLOVENIAN_CI, ''UTF8MB4_SLOVENIAN_CI''),
     (TRILOGY_CHARSET_UTF8MB4_POLISH_CI, ''UTF8MB4_POLISH_CI''),
     (TRILOGY_CHARSET_UTF8MB4_ESTONIAN_CI, ''UTF8MB4_ESTONIAN_CI''),
     (TRILOGY_CHARSET_UTF8MB4_SPANISH_CI, ''UTF8MB4_SPANISH_CI''),
     (TRILOGY_CHARSET_UTF8MB4_SWEDISH_CI, ''UTF8MB4_SWEDISH_CI''),
     (TRILOGY_CHARSET_UTF8MB4_TURKISH_CI, ''UTF8MB4_TURKISH_CI''),
     (TRILOGY_CHARSET_UTF8MB4_CZECH_CI, ''UTF8MB4_CZECH_CI''),
     (TRILOGY_CHARSET_UTF8MB4_DANISH_CI, ''UTF8MB4_DANISH_CI''),
     (TRILOGY_CHARSET_UTF8MB4_LITHUANIAN_CI, ''UTF8MB4_LITHUANIAN_CI''),
     (TRILOGY_CHARSET_UTF8MB4_SLOVAK_CI, ''UTF8MB4_SLOVAK_CI''),
     (TRILOGY_CHARSET_UTF8MB4_SPANISH2_CI, ''UTF8MB4_SPANISH2_CI''),
     (TRILOGY_CHARSET_UTF8MB4_ROMAN_CI, ''UTF8MB4_ROMAN_CI''),
     (TRILOGY_CHARSET_UTF8MB4_PERSIAN_CI, ''UTF8MB4_PERSIAN_CI''),
     (TRILOGY_CHARSET_UTF8MB4_ESPERANTO_CI, ''UTF8MB4_ESPERANTO_CI''),
     (TRILOGY_CHARSET_UTF8MB4_HUNGARIAN_CI, ''UTF8MB4_HUNGARIAN_CI''),
     (TRILOGY_CHARSET_UTF8MB4_SINHALA_CI, ''UTF8MB4_SINHALA_CI''),
     (TRILOGY_CHARSET_UTF8MB4_GERMAN2_CI, ''UTF8MB4_GERMAN2_CI''),
     (TRILOGY_CHARSET_UTF8MB4_CROATIAN_CI, ''UTF8MB4_CROATIAN_CI''),
     (TRILOGY_CHARSET_UTF8MB4_UNICODE_520_CI, ''UTF8MB4_UNICODE_520_CI''),
     (TRILOGY_CHARSET_UTF8MB4_VIETNAMESE_CI, ''UTF8MB4_VIETNAMESE_CI''),
     (TRILOGY_CHARSET_GB18030_CHINESE_CI, ''GB18030_CHINESE_CI''),
     (TRILOGY_CHARSET_GB18030_BIN_CI, ''GB18030_BIN_CI''),
     (TRILOGY_CHARSET_GB18030_UNICODE_520_CI, ''GB18030_UNICODE_520_CI''),
     (TRILOGY_CHARSET_UTF8MB4_0900_AI_CI, ''UTF8MB4_0900_AI_CI'')]"

datatype TRILOGY_ENCODING_t =
    TRILOGY_ENCODING_NONE
  | TRILOGY_ENCODING_BIG5
  | TRILOGY_ENCODING_LATIN2
  | TRILOGY_ENCODING_DEC8
  | TRILOGY_ENCODING_CP850
  | TRILOGY_ENCODING_LATIN1
  | TRILOGY_ENCODING_HP8
  | TRILOGY_ENCODING_KOI8R
  | TRILOGY_ENCODING_SWE7
  | TRILOGY_ENCODING_ASCII
  | TRILOGY_ENCODING_UJIS
  | TRILOGY_ENCODING_SJIS
  | TRILOGY_ENCODING_CP1251
  | TRILOGY_ENCODING_HEBREW
  | TRILOGY_ENCODING_TIS620
  | TRILOGY_ENCODING_EUCKR
  | TRILOGY_ENCODING_LATIN7
  | TRILOGY_ENCODING_KOI8U
  | TRILOGY_ENCODING_GB2312
  | TRILOGY_ENCODING_GREEK
  | TRILOGY_ENCODING_CP1250
  | TRILOGY_ENCODING_GBK
  | TRILOGY_ENCODING_CP1257
  | TRILOGY_ENCODING_LATIN5
  | TRILOGY_ENCODING_ARMSCII8
  | TRILOGY_ENCODING_UTF8
  | TRILOGY_ENCODING_UCS2
  | TRILOGY_ENCODING_CP866
  | TRILOGY_ENCODING_KEYBCS2
  | TRILOGY_ENCODING_MACCE
  | TRILOGY_ENCODING_MACROMAN
  | TRILOGY_ENCODING_CP852
  | TRILOGY_ENCODING_UTF8MB4
  | TRILOGY_ENCODING_UTF16
  | TRILOGY_ENCODING_CP1256
  | TRILOGY_ENCODING_UTF32
  | TRILOGY_ENCODING_BINARY
  | TRILOGY_ENCODING_GEOSTD8
  | TRILOGY_ENCODING_CP932
  | TRILOGY_ENCODING_EUCJPMS

primrec encoding_name :: "TRILOGY_ENCODING_t \<Rightarrow> string" where
  "encoding_name TRILOGY_ENCODING_NONE = ''NONE''"
| "encoding_name TRILOGY_ENCODING_BIG5 = ''BIG5''"
| "encoding_name TRILOGY_ENCODING_LATIN2 = ''LATIN2''"
| "encoding_name TRILOGY_ENCODING_DEC8 = ''DEC8''"
| "encoding_name TRILOGY_ENCODING_CP850 = ''CP850''"
| "encoding_name TRILOGY_ENCODING_LATIN1 = ''LATIN1''"
| "encoding_name TRILOGY_ENCODING_HP8 = ''HP8''"
| "encoding_name TRILOGY_ENCODING_KOI8R = ''KOI8R''"
| "encoding_name TRILOGY_ENCODING_SWE7 = ''SWE7''"
| "encoding_name TRILOGY_ENCODING_ASCII = ''ASCII''"
| "encoding_name TRILOGY_ENCODING_UJIS = ''UJIS''"
| "encoding_name TRILOGY_ENCODING_SJIS = ''SJIS''"
| "encoding_name TRILOGY_ENCODING_CP1251 = ''CP1251''"
| "encoding_name TRILOGY_ENCODING_HEBREW = ''HEBREW''"
| "encoding_name TRILOGY_ENCODING_TIS620 = ''TIS620''"
| "encoding_name TRILOGY_ENCODING_EUCKR = ''EUCKR''"
| "encoding_name TRILOGY_ENCODING_LATIN7 = ''LATIN7''"
| "encoding_name TRILOGY_ENCODING_KOI8U = ''KOI8U''"
| "encoding_name TRILOGY_ENCODING_GB2312 = ''GB2312''"
| "encoding_name TRILOGY_ENCODING_GREEK = ''GREEK''"
| "encoding_name TRILOGY_ENCODING_CP1250 = ''CP1250''"
| "encoding_name TRILOGY_ENCODING_GBK = ''GBK''"
| "encoding_name TRILOGY_ENCODING_CP1257 = ''CP1257''"
| "encoding_name TRILOGY_ENCODING_LATIN5 = ''LATIN5''"
| "encoding_name TRILOGY_ENCODING_ARMSCII8 = ''ARMSCII8''"
| "encoding_name TRILOGY_ENCODING_UTF8 = ''UTF8''"
| "encoding_name TRILOGY_ENCODING_UCS2 = ''UCS2''"
| "encoding_name TRILOGY_ENCODING_CP866 = ''CP866''"
| "encoding_name TRILOGY_ENCODING_KEYBCS2 = ''KEYBCS2''"
| "encoding_name TRILOGY_ENCODING_MACCE = ''MACCE''"
| "encoding_name TRILOGY_ENCODING_MACROMAN = ''MACROMAN''"
| "encoding_name TRILOGY_ENCODING_CP852 = ''CP852''"
| "encoding_name TRILOGY_ENCODING_UTF8MB4 = ''UTF8MB4''"
| "encoding_name TRILOGY_ENCODING_UTF16 = ''UTF16''"
| "encoding_name TRILOGY_ENCODING_CP1256 = ''CP1256''"
| "encoding_name TRILOGY_ENCODING_UTF32 = ''UTF32''"
| "encoding_name TRILOGY_ENCODING_BINARY = ''BINARY''"
| "encoding_name TRILOGY_ENCODING_GEOSTD8 = ''GEOSTD8''"
| "encoding_name TRILOGY_ENCODING_CP932 = ''CP932''"
| "encoding_name TRILOGY_ENCODING_EUCJPMS = ''EUCJPMS''"

section \<open>The map\<close>

text \<open>The designated initializers of the array, in the order of the source.\<close>

definition charset_to_encoding_map :: "(int \<times> TRILOGY_ENCODING_t) list" where
  "charset_to_encoding_map = [
     (TRILOGY_CHARSET_NONE, TRILOGY_ENCODING_NONE),
     (TRILOGY_CHARSET_BIG5_CHINESE_CI, TRILOGY_ENCODING_BIG5),
     (TRILOGY_CHARSET_BIG5_BIN, TRILOGY_ENCODING_BIG5),
     (TRILOGY_CHARSET_LATIN2_CZECH_CS, TRILOGY_ENCODING_LATIN2),
     (TRILOGY_CHARSET_LATIN2_GENERAL_CI, TRILOGY_ENCODING_LATIN2),
     (TRILOGY_CHARSET_LATIN2_HUNGARIAN_CI, TRILOGY_ENCODING_LATIN2),
     (TRILOGY_CHARSET_LATIN2_CROATIAN_CI, TRILOGY_ENCODING_LATIN2),
     (TRILOGY_CHARSET_LATIN2_BIN, TRILOGY_ENCODING_LATIN2),
     (TRILOGY_CHARSET_DEC8_SWEDISH_CI, TRILOGY_ENCODING_DEC8),
     (TRILOGY_CHARSET_DEC8_BIN, TRILOGY_ENCODING_DEC8),
     (TRILOGY_CHARSET_CP850_GENERAL_CI, TRILOGY_ENCODING_CP850),
     (TRILOGY_CHARSET_CP850_BIN, TRILOGY_ENCODING_CP850),
     (TRILOGY_CHARSET_LATIN1_GERMAN1_CI, TRILOGY_ENCODING_LATIN1),
     (TRILOGY_CHARSET_LATIN1_SWEDISH_CI, TRILOGY_ENCODING_LATIN1),
     (TRILOGY_CHARSET_LATIN1_DANISH_CI, TRILOGY_ENCODING_LATIN1),
     (TRILOGY_CHARSET_LATIN1_GERMAN2_CI, TRILOGY_ENCODING_LATIN1),
     (TRILOGY_CHARSET_LATIN1_BIN, TRILOGY_ENCODING_LATIN1),
     (TRILOGY_CHARSET_LATIN1_GENERAL_CI, TRILOGY_ENCODING_LATIN1),
     (TRILOGY_CHARSET_LATIN1_GENERAL_CS, TRILOGY_ENCODING_LATIN1),
     (TRILOGY_CHARSET_LATIN1_SPANISH_CI, TRILOGY_ENCODING_LATIN1),
     (TRILOGY_CHARSET_HP8_ENGLISH_CI, TRILOGY_ENCODING_HP8),
     (TRILOGY_CHARSET_HP8_BIN, TRILOGY_ENCODING_HP8),
     (TRILOGY_CHARSET_KOI8R_GENERAL_CI, TRILOGY_ENCODING_KOI8R),
     (TRILOGY_CHARSET_KOI8R_BIN, TRILOGY_ENCODING_KOI8R),
     (TRILOGY_CHARSET_SWE7_SWEDISH_CI, TRILOGY_ENCODING_SWE7),
     (TRILOGY_CHARSET_SWE7_BIN, TRILOGY_ENCODING_SWE7),
     (TRILOGY_CHARSET_ASCII_GENERAL_CI, TRILOGY_ENCODING_ASCII),
     (TRILOGY_CHARSET_ASCII_BIN, TRILOGY_ENCODING_ASCII),
     (TRILOGY_CHARSET_UJIS_JAPANESE_CI, TRILOGY_ENCODING_UJIS),
     (TRILOGY_CHARSET_UJIS_BIN, TRILOGY_ENCODING_UJIS),
     (TRILOGY_CHARSET_SJIS_JAPANESE_CI, TRILOGY_ENCODING_SJIS),
     (TRILOGY_CHARSET_SJIS_BIN, TRILOGY_ENCODING_SJIS),
     (TRILOGY_CHARSET_CP1251_BULGARIAN_CI, TRILOGY_ENCODING_CP1251),
     (TRILOGY_CHARSET_CP1251_UKRAINIAN_CI, TRILOGY_ENCODING_CP1251),
     (TRILOGY_CHARSET_CP1251_BIN, TRILOGY_ENCODING_CP1251),
     (TRILOGY_CHARSET_CP1251_GENERAL_CI, TRILOGY_ENCODING_CP1251),
     (TRILOGY_CHARSET_CP1251_GENERAL_CS, TRILOGY_ENCODING_CP1251),
     (TRILOGY_CHARSET_HEBREW_GENERAL_CI, TRILOGY_ENCODING_HEBREW),
     (TRILOGY_CHARSET_HEBREW_BIN, TRILOGY_ENCODING_HEBREW),
     (TRILOGY_CHARSET_TIS620_THAI_CI, TRILOGY_ENCODING_TIS620),
     (TRILOGY_CHARSET_TIS620_BIN, TRILOGY_ENCODING_TIS620),
     (TRILOGY_CHARSET_EUCKR_KOREAN_CI, TRILOGY_ENCODING_EUCKR),
     (TRILOGY_CHARSET_EUCKR_BIN, TRILOGY_ENCODING_EUCKR),
     (TRILOGY_CHARSET_LATIN7_ESTONIAN_CS, TRILOGY_ENCODING_LATIN7),
     (TRILOGY_CHARSET_LATIN7_GENERAL_CI, TRILOGY_ENCODING_LATIN7),
     (TRILOGY_CHARSET_LATIN7_GENERAL_CS, TRILOGY_ENCODING_LATIN7),
     (TRILOGY_CHARSET_LATIN7_BIN, TRILOGY_ENCODING_LATIN7),
     (TRILOGY_CHARSET_KOI8U_GENERAL_CI, TRILOGY_ENCODING_KOI8U),
     (TRILOGY_CHARSET_KOI8U_BIN, TRILOGY_ENCODING_KOI8U),
     (TRILOGY_CHARSET_GB2312_CHINESE_CI, TRILOGY_ENCODING_GB2312),
     (TRILOGY_CHARSET_GB2312_BIN, TRILOGY_ENCODING_GB2312),
     (TRILOGY_CHARSET_GREEK_GENERAL_CI, TRILOGY_ENCODING_GREEK),
     (TRILOGY_CHARSET_GREEK_BIN, TRILOGY_ENCODING_GREEK),
     (TRILOGY_CHARSET_CP1250_GENERAL_CI, TRILOGY_ENCODING_CP1250),
     (TRILOGY_CHARSET_CP1250_CZECH_CS, TRILOGY_ENCODING_CP1250),
     (TRILOGY_CHARSET_CP1250_CROATIAN_CI, TRILOGY_ENCODING_CP1250),
     (TRILOGY_CHARSET_CP1250_BIN, TRILOGY_ENCODING_CP1250),
     (TRILOGY_CHARSET_CP1250_POLISH_CI, TRILOGY_ENCODING_CP1250),
     (TRILOGY_CHARSET_GBK_CHINESE_CI, TRILOGY_ENCODING_GBK),
     (TRILOGY_CHARSET_GBK_BIN, TRILOGY_ENCODING_GBK),
     (TRILOGY_CHARSET_GB18030_CHINESE_CI, TRILOGY_ENCODING_GBK),
     (TRILOGY_CHARSET_GB18030_BIN_CI, TRILOGY_ENCODING_GBK),
     (TRILOGY_CHARSET_GB18030_UNICODE_520_CI, TRILOGY_ENCODING_GBK),
     (TRILOGY_CHARSET_CP1257_LITHUANIAN_CI, TRILOGY_ENCODING_CP1257),
     (TRILOGY_CHARSET_CP1257_BIN, TRILOGY_ENCODING_CP1257),
     (TRILOGY_CHARSET_CP1257_GENERAL_CI, TRILOGY_ENCODING_CP1257),
     (TRILOGY_CHARSET_LATIN5_TURKISH_CI, TRILOGY_ENCODING_LATIN5),
     (TRILOGY_CHARSET_LATIN5_BIN, TRILOGY_ENCODING_LATIN5),
     (TRILOGY_CHARSET_ARMSCII8_GENERAL_CI, TRILOGY_ENCODING_ARMSCII8),
     (TRILOGY_CHARSET_ARMSCII8_BIN, TRILOGY_ENCODING_ARMSCII8),
     (TRILOGY_CHARSET_UTF8_GENERAL_CI, TRILOGY_ENCODING_UTF8),
     (TRILOGY_CHARSET_UTF8_BIN, TRILOGY_ENCODING_UTF8),
     (TRILOGY_CHARSET_UTF8_UNICODE_CI, TRILOGY_ENCODING_UTF8),
     (TRILOGY_CHARSET_UTF8_ICELANDIC_CI, TRILOGY_ENCODING_UTF8),
     (TRILOGY_CHARSET_UTF8_LATVIAN_CI, TRILOGY_ENCODING_UTF8),
     (TRILOGY_CHARSET_UTF8_ROMANIAN_CI, TRILOGY_ENCODING_UTF8),
     (TRILOGY_CHARSET_UTF8_SLOVENIAN_CI, TRILOGY_ENCODING_UTF8),
     (TRILOGY_CHARSET_UTF8_POLISH_CI, TRILOGY_ENCODING_UTF8),
     (TRILOGY_CHARSET_UTF8_ESTONIAN_CI, TRILOGY_ENCODING_UTF8),
     (TRILOGY_CHARSET_UTF8_SPANISH_CI, TRILOGY_ENCODING_UTF8),
     (TRILOGY_CHARSET_UTF8_SWEDISH_CI, TRILOGY_ENCODING_UTF8),
     (TRILOGY_CHARSET_UTF8_TURKISH_CI, TRILOGY_ENCODING_UTF8),
     (TRILOGY_CHARSET_UTF8_CZECH_CI, TRILOGY_ENCODING_UTF8),
     (TRILOGY_CHARSET_UTF8_DANISH_CI, TRILOGY_ENCODING_UTF8),
     (TRILOGY_CHARSET_UTF8_LITHUANIAN_CI, TRILOGY_ENCODING_UTF8),
     (TRILOGY_CHARSET_UTF8_SLOVAK_CI, TRILOGY_ENCODING_UTF8),
     (TRILOGY_CHARSET_UTF8_SPANISH2_CI, TRILOGY_ENCODING_UTF8),
     (TRILOGY_CHARSET_UTF8_ROMAN_CI, TRILOGY_ENCODING_UTF8),
     (TRILOGY_CHARSET_UTF8_PERSIAN_CI, TRILOGY_ENCODING_UTF8),
     (TRILOGY_CHARSET_UTF8_ESPERANTO_CI, TRILOGY_ENCODING_UTF8),
     (TRILOGY_CHARSET_UTF8_HUNGARIAN_CI, TRILOGY_ENCODING_UTF8),
     (TRILOGY_CHARSET_UTF8_SINHALA_CI, TRILOGY_ENCODING_UTF8),
     (TRILOGY_CHARSET_UTF8_GENERAL_MYSQL500_CI, TRILOGY_ENCODING_UTF8),
     (TRILOGY_CHARSET_UCS2_GENERAL_CI, TRILOGY_ENCODING_UCS2),
     (TRILOGY_CHARSET_UCS2_BIN, TRILOGY_ENCODING_UCS2),
     (TRILOGY_CHARSET_UCS2_UNICODE_CI, TRILOGY_ENCODING_UCS2),
     (TRILOGY_CHARSET_UCS2_ICELANDIC_CI, TRILOGY_ENCODING_UCS2),
     (TRILOGY_CHARSET_UCS2_LATVIAN_CI, TRILOGY_ENCODING_UCS2),
     (TRILOGY_CHARSET_UCS2_ROMANIAN_CI, TRILOGY_ENCODING_UCS2),
     (TRILOGY_CHARSET_UCS2_SLOVENIAN_CI, TRILOGY_ENCODING_UCS2),
     (TRILOGY_CHARSET_UCS2_POLISH_CI, TRILOGY_ENCODING_UCS2),
     (TRILOGY_CHARSET_UCS2_ESTONIAN_CI, TRILOGY_ENCODING_UCS2),
     (TRILOGY_CHARSET_UCS2_SPANISH_CI, TRILOGY_ENCODING_UCS2),
     (TRILOGY_CHARSET_UCS2_SWEDISH_CI, TRILOGY_ENCODING_UCS2),
     (TRILOGY_CHARSET_UCS2_TURKISH_CI, TRILOGY_ENCODING_UCS2),
     (TRILOGY_CHARSET_UCS2_CZECH_CI, TRILOGY_ENCODING_UCS2),
     (TRILOGY_CHARSET_UCS2_DANISH_CI, TRILOGY_ENCODING_UCS2),
     (TRILOGY_CHARSET_UCS2_LITHUANIAN_CI, TRILOGY_ENCODING_UCS2),
     (TRILOGY_CHARSET_UCS2_SLOVAK_CI, TRILOGY_ENCODING_UCS2),
     (TRILOGY_CHARSET_UCS2_SPANISH2_CI, TRILOGY_ENCODING_UCS2),
     (TRILOGY_CHARSET_UCS2_ROMAN_CI, TRILOGY_ENCODING_UCS2),
     (TRILOGY_CHARSET_UCS2_PERSIAN_CI, TRILOGY_ENCODING_UCS2),
     (TRILOGY_CHARSET_UCS2_ESPERANTO_CI, TRILOGY_ENCODING_UCS2),
     (TRILOGY_CHARSET_UCS2_HUNGARIAN_CI, TRILOGY_ENCODING_UCS2),
     (TRILOGY_CHARSET_UCS2_SINHALA_CI, TRILOGY_ENCODING_UCS2),
     (TRILOGY_CHARSET_UCS2_GENERAL_MYSQL500_CI, TRILOGY_ENCODING_UCS2),
     (TRILOGY_CHARSET_CP866_GENERAL_CI, TRILOGY_ENCODING_CP866),
     (TRILOGY_CHARSET_CP866_BIN, TRILOGY_ENCODING_CP866),
     (TRILOGY_CHARSET_KEYBCS2_GENERAL_CI, TRILOGY_ENCODING_KEYBCS2),
     (TRILOGY_CHARSET_KEYBCS2_BIN, TRILOGY_ENCODING_KEYBCS2),
     (TRILOGY_CHARSET_MACCE_GENERAL_CI, TRILOGY_ENCODING_MACCE),
     (TRILOGY_CHARSET_MACCE_BIN, TRILOGY_ENCODING_MACCE),
     (TRILOGY_CHARSET_MACROMAN_GENERAL_CI, TRILOGY_ENCODING_MACROMAN),
     (TRILOGY_CHARSET_MACROMAN_BIN, TRILOGY_ENCODING_MACROMAN),
     (TRILOGY_CHARSET_CP852_GENERAL_CI, TRILOGY_ENCODING_CP852),
     (TRILOGY_CHARSET_CP852_BIN, TRILOGY_ENCODING_CP852),
     (TRILOGY_CHARSET_UTF8MB4_GENERAL_CI, TRILOGY_ENCODING_UTF8MB4),
     (TRILOGY_CHARSET_UTF8MB4_BIN, TRILOGY_ENCODING_UTF8MB4),
     (TRILOGY_CHARSET_UTF8MB4_UNICODE_CI, TRILOGY_ENCODING_UTF8MB4),
     (TRILOGY_CHARSET_UTF8MB4_ICELANDIC_CI, TRILOGY_ENCODING_UTF8MB4),
     (TRILOGY_CHARSET_UTF8MB4_LATVIAN_CI, TRILOGY_ENCODING_UTF8MB4),
     (TRILOGY_CHARSET_UTF8MB4_ROMANIAN_CI, TRILOGY_ENCODING_UTF8MB4),
     (TRILOGY_CHARSET_UTF8MB4_SLOVENIAN_CI, TRILOGY_ENCODING_UTF8MB4),
     (TRILOGY_CHARSET_UTF8MB4_POLISH_CI, TRILOGY_ENCODING_UTF8MB4),
     (TRILOGY_CHARSET_UTF8MB4_ESTONIAN_CI, TRILOGY_ENCODING_UTF8MB4),
     (TRILOGY_CHARSET_UTF8MB4_SPANISH_CI, TRILOGY_ENCODING_UTF8MB4),
     (TRILOGY_CHARSET_UTF8MB4_SWEDISH_CI, TRILOGY_ENCODING_UTF8MB4),
     (TRILOGY_CHARSET_UTF8MB4_TURKISH_CI, TRILOGY_ENCODING_UTF8MB4),
     (TRILOGY_CHARSET_UTF8MB4_CZECH_CI, TRILOGY_ENCODING_UTF8MB4),
     (TRILOGY_CHARSET_UTF8MB4_DANISH_CI, TRILOGY_ENCODING_UTF8MB4),
     (TRILOGY_CHARSET_UTF8MB4_LITHUANIAN_CI, TRILOGY_ENCODING_UTF8MB4),
     (TRILOGY_CHARSET_UTF8MB4_SLOVAK_CI, TRILOGY_ENCODING_UTF8MB4),
     (TRILOGY_CHARSET_UTF8MB4_SPANISH2_CI, TRILOGY_ENCODING_UTF8MB4),
     (TRILOGY_CHARSET_UTF8MB4_ROMAN_CI, TRILOGY_ENCODING_UTF8MB4),
     (TRILOGY_CHARSET_UTF8MB4_PERSIAN_CI, TRILOGY_ENCODING_UTF8MB4),
     (TRILOGY_CHARSET_UTF8MB4_ESPERANTO_CI, TRILOGY_ENCODING_UTF8MB4),
     (TRILOGY_CHARSET_UTF8MB4_HUNGARIAN_CI, TRILOGY_ENCODING_UTF8MB4),
     (TRILOGY_CHARSET_UTF8MB4_SINHALA_CI, TRILOGY_ENCODING_UTF8MB4),
     (TRILOGY_CHARSET_UTF8MB4_GERMAN2_CI, TRILOGY_ENCODING_UTF8MB4),
     (TRILOGY_CHARSET_UTF8MB4_CROATIAN_CI, TRILOGY_ENCODING_UTF8MB4),
     (TRILOGY_CHARSET_UTF8MB4_UNICODE_520_CI, TRILOGY_ENCODING_UTF8MB4),
     (TRILOGY_CHARSET_UTF8MB4_VIETNAMESE_CI, TRILOGY_ENCODING_UTF8MB4),
     (TRILOGY_CHARSET_UTF8MB4_0900_AI_CI, TRILOGY_ENCODING_UTF8MB4),
     (TRILOGY_CHARSET_UTF16_GENERAL_CI, TRILOGY_ENCODING_UTF16),
     (TRILOGY_CHARSET_UTF16_BIN, TRILOGY_ENCODING_UTF16),
     (TRILOGY_CHARSET_UTF16_UNICODE_CI, TRILOGY_ENCODING_UTF16),
     (TRILOGY_CHARSET_UTF16_ICELANDIC_CI, TRILOGY_ENCODING_UTF16),
     (TRILOGY_CHARSET_UTF16_LATVIAN_CI, TRILOGY_ENCODING_UTF16),
     (TRILOGY_CHARSET_UTF16_ROMANIAN_CI, TRILOGY_ENCODING_UTF16),
     (TRILOGY_CHARSET_UTF16_SLOVENIAN_CI, TRILOGY_ENCODING_UTF16),
     (TRILOGY_CHARSET_UTF16_POLISH_CI, TRILOGY_ENCODING_UTF16),
     (TRILOGY_CHARSET_UTF16_ESTONIAN_CI, TRILOGY_ENCODING_UTF16),
     (TRILOGY_CHARSET_UTF16_SPANISH_CI, TRILOGY_ENCODING_UTF16),
     (TRILOGY_CHARSET_UTF16_SWEDISH_CI, TRILOGY_ENCODING_UTF16),
     (TRILOGY_CHARSET_UTF16_TURKISH_CI, TRILOGY_ENCODING_UTF16),
     (TRILOGY_CHARSET_UTF16_CZECH_CI, TRILOGY_ENCODING_UTF16),
     (TRILOGY_CHARSET_UTF16_DANISH_CI, TRILOGY_ENCODING_UTF16),
     (TRILOGY_CHARSET_UTF16_LITHUANIAN_CI, TRILOGY_ENCODING_UTF16),
     (TRILOGY_CHARSET_UTF16_SLOVAK_CI, TRILOGY_ENCODING_UTF16),
     (TRILOGY_CHARSET_UTF16_SPANISH2_CI, TRILOGY_ENCODING_UTF16),
     (TRILOGY_CHARSET_UTF16_ROMAN_CI, TRILOGY_ENCODING_UTF16),
     (TRILOGY_CHARSET_UTF16_PERSIAN_CI, TRILOGY_ENCODING_UTF16),
     (TRILOGY_CHARSET_UTF16_ESPERANTO_CI, TRILOGY_ENCODING_UTF16),
     (TRILOGY_CHARSET_UTF16_HUNGARIAN_CI, TRILOGY_ENCODING_UTF16),
     (TRILOGY_CHARSET_UTF16_SINHALA_CI, TRILOGY_ENCODING_UTF16),
     (TRILOGY_CHARSET_CP1256_GENERAL_CI, TRILOGY_ENCODING_CP1256),
     (TRILOGY_CHARSET_CP1256_BIN, TRILOGY_ENCODING_CP1256),
     (TRILOGY_CHARSET_UTF32_GENERAL_CI, TRILOGY_ENCODING_UTF32),
     (TRILOGY_CHARSET_UTF32_BIN, TRILOGY_ENCODING_UTF32),
     (TRILOGY_CHARSET_UTF32_UNICODE_CI, TRILOGY_ENCODING_UTF32),
     (TRILOGY_CHARSET_UTF32_ICELANDIC_CI, TRILOGY_ENCODING_UTF32),
     (TRILOGY_CHARSET_UTF32_LATVIAN_CI, TRILOGY_ENCODING_UTF32),
     (TRILOGY_CHARSET_UTF32_ROMANIAN_CI, TRILOGY_ENCODING_UTF32),
     (TRILOGY_CHARSET_UTF32_SLOVENIAN_CI, TRILOGY_ENCODING_UTF32),
     (TRILOGY_CHARSET_UTF32_POLISH_CI, TRILOGY_ENCODING_UTF32),
     (TRILOGY_CHARSET_UTF32_ESTONIAN_CI, TRILOGY_ENCODING_UTF32),
     (TRILOGY_CHARSET_UTF32_SPANISH_CI, TRILOGY_ENCODING_UTF32),
     (TRILOGY_CHARSET_UTF32_SWEDISH_CI, TRILOGY_ENCODING_UTF32),
     (TRILOGY_CHARSET_UTF32_TURKISH_CI, TRILOGY_ENCODING_UTF32),
     (TRILOGY_CHARSET_UTF32_CZECH_CI, TRILOGY_ENCODING_UTF32),
     (TRILOGY_CHARSET_UTF32_DANISH_CI, TRILOGY_ENCODING_UTF32),
     (TRILOGY_CHARSET_UTF32_LITHUANIAN_CI, TRILOGY_ENCODING_UTF32),
     (TRILOGY_CHARSET_UTF32_SLOVAK_CI, TRILOGY_ENCODING_UTF32),
     (TRILOGY_CHARSET_UTF32_SPANISH2_CI, TRILOGY_ENCODING_UTF32),
     (TRILOGY_CHARSET_UTF32_ROMAN_CI, TRILOGY_ENCODING_UTF32),
     (TRILOGY_CHARSET_UTF32_PERSIAN_CI, TRILOGY_ENCODING_UTF32),
     (TRILOGY_CHARSET_UTF32_ESPERANTO_CI, TRILOGY_ENCODING_UTF32),
     (TRILOGY_CHARSET_UTF32_HUNGARIAN_CI, TRILOGY_ENCODING_UTF32),
     (TRILOGY_CHARSET_UTF32_SINHALA_CI, TRILOGY_ENCODING_UTF32),
     (TRILOGY_CHARSET_BINARY, TRILOGY_ENCODING_BINARY),
     (TRILOGY_CHARSET_GEOSTD8_GENERAL_CI, TRILOGY_ENCODING_GEOSTD8),
     (TRILOGY_CHARSET_GEOSTD8_BIN, TRILOGY_ENCODING_GEOSTD8),
     (TRILOGY_CHARSET_CP932_JAPANESE_CI, TRILOGY_ENCODING_CP932),
     (TRILOGY_CHARSET_CP932_BIN, TRILOGY_ENCODING_CP932),
     (TRILOGY_CHARSET_EUCJPMS_JAPANESE_CI, TRILOGY_ENCODING_EUCJPMS),
     (TRILOGY_CHARSET_EUCJPMS_BIN, TRILOGY_ENCODING_EUCJPMS)]"

text \<open>
  The array has one element more than the largest index that is initialized; an element
  without an initializer is 0, which is \<^verbatim>\<open>TRILOGY_ENCODING_NONE\<close>; an index beyond the array is
  outside the object.
\<close>

definition last_charset :: int where
  "last_charset = fold (\<lambda>(c, _). max c) charset_to_encoding_map 0"

definition trilogy_encoding_from_charset :: "int \<Rightarrow> stop + TRILOGY_ENCODING_t" where
  "trilogy_encoding_from_charset charset =
     (if 0 \<le> charset \<and> charset \<le> last_charset
      then Inr (case map_of charset_to_encoding_map charset of
                  Some e \<Rightarrow> e | None \<Rightarrow> TRILOGY_ENCODING_NONE)
      else Inl Fault)"

section \<open>Lemmas\<close>

lemma last_charset_value: "last_charset = 255"
  by code_simp

lemma codes_distinct: "distinct (map fst TRILOGY_CHARSETS)"
  by code_simp

lemma charset_table:
  "list_all (\<lambda>(c, name).
     0 \<le> c \<and> c \<le> 255 \<and>
     (case map_of charset_to_encoding_map c of None \<Rightarrow> False
      | Some e \<Rightarrow> prefix (encoding_name e) name \<or> prefix ''GB18030'' name \<and> e = TRILOGY_ENCODING_GBK))
     TRILOGY_CHARSETS"
  by code_simp

lemma charset_lookup_unchecked:
  "trilogy_encoding_from_charset c = Inl Fault \<longleftrightarrow> c < 0 \<or> 255 < c"
  by (auto simp: trilogy_encoding_from_charset_def last_charset_value)

end
