(* ===== verification/Connection.thy ===== *)
theory Connection
  imports Protocol_Build Protocol_Rows Packet_Callbacks Charset
begin

text \<open>
  The connection of \<^verbatim>\<open>inc/trilogy/client.h\<close> and the socket interface of \<^verbatim>\<open>inc/trilogy/socket.h\<close>,
  with the functions of \<^verbatim>\<open>src/client.c\<close> that move bytes: \<^verbatim>\<open>read_packet\<close> takes what the socket
  has and feeds the packet parser, \<^verbatim>\<open>trilogy_flush_writes\<close> hands the rest of the packet buffer to
  the socket. A socket is a table of callbacks over a state \<open>'w\<close>, which stands for the part of
  the socket that is private to it and for the world behind it. The contract \<open>transport\<close>
  states what a stream socket promises; under it, a packet is delivered whatever the pieces
  in which it arrives, and the packet buffer leaves exactly once and in order.
\<close>

section \<open>Sockets\<close>

datatype trilogy_wait =
    TRILOGY_WAIT_READ
  | TRILOGY_WAIT_WRITE
  | TRILOGY_WAIT_HANDSHAKE
  | TRILOGY_WAIT_CONNECT

datatype trilogy_ssl_mode =
    TRILOGY_SSL_DISABLED
  | TRILOGY_SSL_VERIFY_IDENTITY
  | TRILOGY_SSL_VERIFY_CA
  | TRILOGY_SSL_REQUIRED_NOVERIFY
  | TRILOGY_SSL_PREFERRED_NOVERIFY

datatype trilogy_tls_version =
    TRILOGY_TLS_VERSION_UNDEF
  | TRILOGY_TLS_VERSION_10
  | TRILOGY_TLS_VERSION_11
  | TRILOGY_TLS_VERSION_12
  | TRILOGY_TLS_VERSION_13

record timeval =
  tv_sec :: int
  tv_usec :: int

text \<open>A pointer to characters is \<open>None\<close> for \<^verbatim>\<open>NULL\<close>, or the object it points to.\<close>

record trilogy_sockopt =
  opt_hostname :: "u8 list option"
  opt_path :: "u8 list option"
  opt_database :: "u8 list option"
  opt_username :: "u8 list option"
  opt_password :: "u8 list option"
  opt_password_len :: size_t
  opt_encoding :: u8
  opt_ssl_mode :: trilogy_ssl_mode
  opt_tls_min_version :: trilogy_tls_version
  opt_tls_max_version :: trilogy_tls_version
  opt_port :: u16
  opt_ssl_ca :: "u8 list option"
  opt_ssl_capath :: "u8 list option"
  opt_ssl_cert :: "u8 list option"
  opt_ssl_cipher :: "u8 list option"
  opt_ssl_crl :: "u8 list option"
  opt_ssl_crlpath :: "u8 list option"
  opt_ssl_key :: "u8 list option"
  opt_tls_ciphersuites :: "u8 list option"
  opt_connect_timeout :: timeval
  opt_read_timeout :: timeval
  opt_write_timeout :: timeval
  opt_keepalive_enabled :: bool
  opt_keepalive_idle :: u16
  opt_keepalive_count :: u16
  opt_keepalive_interval :: u16
  opt_enable_cleartext_plugin :: bool
  opt_flags :: u32
  opt_max_allowed_packet :: size_t

text \<open>
  The callbacks. A negative result is \<open>Inl (Rc e)\<close>; \<^verbatim>\<open>read_cb\<close> is given the number of bytes that
  fit and yields the bytes it stored, \<^verbatim>\<open>write_cb\<close> is given the bytes and yields how many it took.
\<close>

record 'w trilogy_sock =
  connect_cb :: "('w, unit) op"
  read_cb :: "size_t \<Rightarrow> ('w, u8 list) op"
  write_cb :: "u8 list \<Rightarrow> ('w, size_t) op"
  wait_cb :: "trilogy_wait \<Rightarrow> ('w, unit) op"
  shutdown_cb :: "('w, unit) op"
  close_cb :: "('w, unit) op"
  fd_cb :: "('w, int) op"
  sock_opts :: trilogy_sockopt

section \<open>Connections\<close>

definition TRILOGY_DEFAULT_BUF_SIZE :: nat where
  "TRILOGY_DEFAULT_BUF_SIZE = 32768"

text \<open>
  The fields of the structure in its order, and \<open>outside\<close>, the state of the socket and of what
  is behind it. \<^verbatim>\<open>error_message\<close> points into the packet buffer and is valid until the next
  packet is read; the model keeps the bytes it points to when it is set.
\<close>

record 'w trilogy_conn =
  affected_rows :: u64
  last_insert_id :: u64
  warning_count :: u16
  last_gtid :: "u8 list"
  last_gtid_len :: size_t
  error_code :: u16
  error_message :: "u8 list"
  capabilities :: u32
  server_status :: u16
  socket :: "'w trilogy_sock option"
  recv_buff :: "u8 list"
  recv_buff_pos :: size_t
  recv_buff_len :: size_t
  packet_parser :: trilogy_packet_parser
  packet_buffer :: trilogy_buffer
  packet_buffer_written :: size_t
  column_count :: u64
  started_reading_rows :: bool
  outside :: 'w

text \<open>Call a callback of the socket; without a socket the call dereferences \<^verbatim>\<open>NULL\<close>.\<close>

definition with_socket :: "('w trilogy_sock \<Rightarrow> ('w, 'a) op) \<Rightarrow> ('w trilogy_conn, 'a) op" where
  "with_socket f = (\<lambda>c.
     case socket c of
       None \<Rightarrow> (Inl Fault, c)
     | Some s \<Rightarrow> (case f s (outside c) of (r, w) \<Rightarrow> (r, c\<lparr>outside := w\<rparr>)))"

text \<open>The inline wrappers of \<^verbatim>\<open>socket.h\<close>. A callback that stores more bytes than fit overruns the array.\<close>

definition trilogy_sock_read :: "nat \<Rightarrow> ('w trilogy_conn, u8 list) op" where
  "trilogy_sock_read n =
     checked (with_socket (\<lambda>s. read_cb s (word_of_nat n))) (\<lambda>bs.
     if length bs > n then halt Fault else ret bs)"

definition trilogy_sock_write :: "u8 list \<Rightarrow> ('w trilogy_conn, size_t) op" where
  "trilogy_sock_write bs = with_socket (\<lambda>s. write_cb s bs)"

definition trilogy_sock_wait_read :: "('w trilogy_conn, unit) op" where
  "trilogy_sock_wait_read = with_socket (\<lambda>s. wait_cb s TRILOGY_WAIT_READ)"

definition trilogy_sock_wait_write :: "('w trilogy_conn, unit) op" where
  "trilogy_sock_wait_write = with_socket (\<lambda>s. wait_cb s TRILOGY_WAIT_WRITE)"

definition trilogy_sock_shutdown :: "('w trilogy_conn, unit) op" where
  "trilogy_sock_shutdown = with_socket shutdown_cb"

definition trilogy_sock_close :: "('w trilogy_conn, unit) op" where
  "trilogy_sock_close = with_socket close_cb"

definition socket_opts :: "('w trilogy_conn, trilogy_sockopt) op" where
  "socket_opts = (\<lambda>c. case socket c of None \<Rightarrow> (Inl Fault, c) | Some s \<Rightarrow> (Inr (sock_opts s), c))"

definition set_socket_opts :: "(trilogy_sockopt \<Rightarrow> trilogy_sockopt) \<Rightarrow> ('w trilogy_conn, unit) op" where
  "set_socket_opts f = (\<lambda>c.
     case socket c of
       None \<Rightarrow> (Inl Fault, c)
     | Some s \<Rightarrow> (Inr (), c\<lparr>socket := Some (s\<lparr>sock_opts := f (sock_opts s)\<rparr>)\<rparr>))"

section \<open>Reading a packet\<close>

text \<open>The code of a number; the packet parser returns no other negative numbers.\<close>

definition rc_of_code :: "int \<Rightarrow> trilogy_rc option" where
  "rc_of_code n = find (\<lambda>e. rc_code e = n)
     [TRILOGY_OK, TRILOGY_ERR, TRILOGY_EOF, TRILOGY_SYSERR, TRILOGY_UNEXPECTED_PACKET,
      TRILOGY_TRUNCATED_PACKET, TRILOGY_PROTOCOL_VIOLATION, TRILOGY_AUTH_PLUGIN_TOO_LONG,
      TRILOGY_EXTRA_DATA_IN_PACKET, TRILOGY_INVALID_CHARSET, TRILOGY_AGAIN, TRILOGY_CLOSED_CONNECTION,
      TRILOGY_HAVE_RESULTS, TRILOGY_NULL_VALUE, TRILOGY_INVALID_SEQUENCE_ID, TRILOGY_TYPE_OVERFLOW,
      TRILOGY_OPENSSL_ERR, TRILOGY_UNSUPPORTED, TRILOGY_DNS_ERR, TRILOGY_AUTH_SWITCH,
      TRILOGY_MAX_PACKET_EXCEEDED, TRILOGY_UNKNOWN_TYPE, TRILOGY_TIMEOUT, TRILOGY_AUTH_PLUGIN_ERROR,
      TRILOGY_MEM_ERROR]"

definition return_code :: "int \<Rightarrow> ('s, 'a) op" where
  "return_code n = (case rc_of_code n of Some e \<Rightarrow> throw e | None \<Rightarrow> halt Fault)"

abbreviation on_parser :: "(trilogy_packet_parser \<times> trilogy_buffer, 'a) op \<Rightarrow> ('w trilogy_conn, 'a) op" where
  "on_parser \<equiv> on_part (\<lambda>c. (packet_parser c, packet_buffer c))
     (\<lambda>(p, u) c. c\<lparr>packet_parser := p, packet_buffer := u\<rparr>)"

definition receive :: "('w trilogy_conn, unit) op" where
  "receive =
     checked (trilogy_sock_read TRILOGY_DEFAULT_BUF_SIZE) (\<lambda>bs.
     checked (put_state (\<lambda>c. c\<lparr>recv_buff := blit 0 bs (recv_buff c)\<rparr>)) (\<lambda>_.
     if bs = [] then throw TRILOGY_CLOSED_CONNECTION
     else put_state (\<lambda>c. c\<lparr>recv_buff_len := word_of_nat (length bs), recv_buff_pos := 0\<rparr>)))"

definition parse_received :: "allocator \<Rightarrow> ('w trilogy_conn, unit) op" where
  "parse_received alloc =
     checked get_state (\<lambda>c.
     let len = recv_buff_len c - recv_buff_pos c
     in if unat (recv_buff_pos c) + unat len > length (recv_buff c) then halt Fault
        else
          checked (on_parser (trilogy_packet_parser_execute (packet_parser_callbacks alloc)
                     (take (unat len) (drop (unat (recv_buff_pos c)) (recv_buff c))))) (\<lambda>(n, rc).
          checked (put_state (\<lambda>c. c\<lparr>recv_buff_pos := recv_buff_pos c + word_of_nat n\<rparr>)) (\<lambda>_.
          if rc < 0 then return_code rc
          else if rc > 0 then ret ()
          else throw TRILOGY_AGAIN)))"

definition read_packet :: "allocator \<Rightarrow> ('w trilogy_conn, unit) op" where
  "read_packet alloc =
     checked get_state (\<lambda>c.
     checked (if recv_buff_pos c = recv_buff_len c then receive else ret ()) (\<lambda>_.
     parse_received alloc))"

section \<open>Writing the packet buffer\<close>

definition trilogy_flush_writes :: "('w trilogy_conn, unit) op" where
  "trilogy_flush_writes =
     checked get_state (\<lambda>c.
     case buf_mem (packet_buffer c) of
       None \<Rightarrow> halt Fault
     | Some mem \<Rightarrow>
         let len = buf_len (packet_buffer c) - packet_buffer_written c
         in if unat (packet_buffer_written c) + unat len > length mem then halt Fault
            else
              checked (trilogy_sock_write (take (unat len) (drop (unat (packet_buffer_written c)) mem))) (\<lambda>bytes.
              checked (put_state (\<lambda>c. c\<lparr>packet_buffer_written := packet_buffer_written c + bytes\<rparr>)) (\<lambda>_.
              checked get_state (\<lambda>c.
              if packet_buffer_written c < buf_len (packet_buffer c) then throw TRILOGY_AGAIN else ret ()))))"

definition begin_write :: "('w trilogy_conn, unit) op" where
  "begin_write =
     checked (put_state (\<lambda>c. c\<lparr>packet_buffer_written := 0\<rparr>)) (\<lambda>_. trilogy_flush_writes)"

section \<open>Commands\<close>

text \<open>
  The builder is a local variable of each function that sends; it writes to the packet buffer
  through its pointer. \<open>with_builder b m\<close> runs \<open>m\<close> with the builder \<open>b\<close> on the packet buffer.
\<close>

definition with_builder :: "trilogy_builder \<Rightarrow> (trilogy_builder, 'a) op \<Rightarrow> ('w trilogy_conn, trilogy_builder) op" where
  "with_builder b m = (\<lambda>c.
     case m (b\<lparr>bld_buffer := packet_buffer c\<rparr>) of
       (r, b') \<Rightarrow> (map_sum id (\<lambda>_. b') r, c\<lparr>packet_buffer := bld_buffer b'\<rparr>))"

text \<open>The builder before \<^verbatim>\<open>trilogy_builder_init\<close> has assigned its fields: nothing reads them.\<close>

definition unset_builder :: trilogy_builder where
  "unset_builder = \<lparr>bld_buffer = \<lparr>buf_len = 0, buf_cap = 0, buf_mem = None\<rparr>, header_offset = 0,
     packet_length = 0, packet_max_length = 0, fragment_length = 0, bld_seq = 0\<rparr>"

text \<open>A call whose return code is ignored.\<close>

definition ignored :: "('s, 'a) op \<Rightarrow> ('s, unit) op" where
  "ignored m = (\<lambda>s. case m s of (r, s') \<Rightarrow> (case r of Inl (Rc e) \<Rightarrow> (Inr (), s') | Inl e \<Rightarrow> (Inl e, s') | Inr _ \<Rightarrow> (Inr (), s')))"

definition begin_command_phase :: "allocator \<Rightarrow> u8 \<Rightarrow> ('w trilogy_conn, trilogy_builder) op" where
  "begin_command_phase alloc seq =
     checked get_state (\<lambda>c.
     checked (with_builder unset_builder (trilogy_builder_init alloc (packet_buffer c) seq)) (\<lambda>builder.
     checked socket_opts (\<lambda>opts.
     checked (if opt_max_allowed_packet opts > 0
              then with_builder builder (ignored (trilogy_builder_set_max_packet_length (opt_max_allowed_packet opts)))
              else ret builder) (\<lambda>builder.
     checked (put_state (\<lambda>c. c\<lparr>packet_parser := (packet_parser c)\<lparr>sequence_number := seq + 1\<rparr>\<rparr>)) (\<lambda>_.
     ret builder)))))"

section \<open>Initialisation\<close>

text \<open>
  The structure is the caller's memory: what is not assigned stays as it was.
\<close>

definition trilogy_init_no_buffer :: "('w trilogy_conn, unit) op" where
  "trilogy_init_no_buffer =
     put_state (\<lambda>c. c\<lparr>affected_rows := 0, last_insert_id := 0, warning_count := 0, last_gtid_len := 0,
       last_gtid := replicate TRILOGY_MAX_LAST_GTID_LEN 0, error_code := 0, error_message := [],
       capabilities := 0, server_status := 0, socket := None, recv_buff_pos := 0, recv_buff_len := 0,
       packet_parser := trilogy_packet_parser_init (bytes_remaining (packet_parser c))\<rparr>)"

abbreviation on_packet_buffer :: "(trilogy_buffer, 'a) op \<Rightarrow> ('w trilogy_conn, 'a) op" where
  "on_packet_buffer \<equiv> on_part packet_buffer (\<lambda>b c. c\<lparr>packet_buffer := b\<rparr>)"

definition trilogy_init :: "allocator \<Rightarrow> ('w trilogy_conn, unit) op" where
  "trilogy_init alloc =
     checked trilogy_init_no_buffer (\<lambda>_.
     on_packet_buffer (trilogy_buffer_init alloc (word_of_nat TRILOGY_DEFAULT_BUF_SIZE)))"

section \<open>Retrying\<close>

text \<open>
  The loop of the blocking functions: run \<open>m\<close>; while it reports \<^verbatim>\<open>TRILOGY_AGAIN\<close>, wait for the
  socket and run it again. Whether it ends depends on the socket.
\<close>

fun is_again :: "stop + 'a \<Rightarrow> bool" where
  "is_again (Inl (Rc TRILOGY_AGAIN)) \<longleftrightarrow> True"
| "is_again _ \<longleftrightarrow> False"

partial_function (option) retry ::
  "('s, 'a) op \<Rightarrow> ('s, unit) op \<Rightarrow> 's \<Rightarrow> ((stop + 'a) \<times> 's) option" where
  "retry m wait s =
     (case m s of (r, s1) \<Rightarrow>
        if is_again r
        then (case wait s1 of (w, s2) \<Rightarrow> (case w of Inl e \<Rightarrow> Some (Inl e, s2) | Inr _ \<Rightarrow> retry m wait s2))
        else Some (r, s1))"

definition until_done :: "('s, 'a) op \<Rightarrow> ('s, unit) op \<Rightarrow> ('s, 'a) op" where
  "until_done m wait = (\<lambda>s. case retry m wait s of None \<Rightarrow> (Inl Hang, s) | Some x \<Rightarrow> x)"

lemma is_again_iff: "is_again r \<longleftrightarrow> r = Inl (Rc TRILOGY_AGAIN)"
  by (cases r rule: is_again.cases) auto

text \<open>A loop keeps its invariant, and ends in a result of its body or of the wait.\<close>

lemma retry_Some_rule:
  assumes "retry m wait s = Some (r, t)" and "I s"
    and body: "\<And>s r t. I s \<Longrightarrow> m s = (r, t) \<Longrightarrow> \<not> is_again r \<Longrightarrow> Q r t"
    and stop: "\<And>s r t e u. I s \<Longrightarrow> m s = (r, t) \<Longrightarrow> is_again r \<Longrightarrow> wait t = (Inl e, u) \<Longrightarrow> Q (Inl e) u"
    and again: "\<And>s r t u. I s \<Longrightarrow> m s = (r, t) \<Longrightarrow> is_again r \<Longrightarrow> wait t = (Inr (), u) \<Longrightarrow> I u"
  shows "Q r t"
proof -
  have "I s \<Longrightarrow> Q (fst x) (snd x)" if "retry m wait s = Some x" for s x
    using that body stop again
  proof (induct m wait s x rule: retry.raw_induct [rotated, consumes 1, case_names step])
    case (step retry' m wait s0 x)
    note run = step(2) and I = step(3)
    obtain r1 s1 where m: "m s0 = (r1, s1)" by (cases "m s0")
    obtain w s2 where w: "wait s1 = (w, s2)" by (cases "wait s1")
    show ?case
    proof (cases "is_again r1")
      case False
      with run m step(4) [OF I m False] show ?thesis by auto
    next
      case True
      show ?thesis
      proof (cases w)
        case (Inl e)
        with run m w True step(5) [OF I m True] show ?thesis by auto
      next
        case (Inr y)
        with run m w True have "retry' m wait s2 = Some x" by simp
        from step(1) [OF this _ step(4-6)] step(6) [OF I m True] w Inr show ?thesis by simp
      qed
    qed
  qed
  from this [OF assms(1,2)] show ?thesis by simp
qed

lemma until_done_rule:
  assumes "until_done m wait s = (r, t)" and "I s" and "\<And>s. I s \<Longrightarrow> Q (Inl Hang) s"
    and "\<And>s r t. I s \<Longrightarrow> m s = (r, t) \<Longrightarrow> \<not> is_again r \<Longrightarrow> Q r t"
    and "\<And>s r t e u. I s \<Longrightarrow> m s = (r, t) \<Longrightarrow> is_again r \<Longrightarrow> wait t = (Inl e, u) \<Longrightarrow> Q (Inl e) u"
    and "\<And>s r t u. I s \<Longrightarrow> m s = (r, t) \<Longrightarrow> is_again r \<Longrightarrow> wait t = (Inr (), u) \<Longrightarrow> I u"
  shows "Q r t"
proof (cases "retry m wait s")
  case None
  with assms(1-3) show ?thesis by (simp add: until_done_def)
next
  case (Some x)
  obtain r' t' where x: "x = (r', t')" by (cases x)
  have "Q r' t'"
    by (rule retry_Some_rule [where Q = Q and I = I, OF Some [unfolded x] assms(2)]) (fact assms(4-6))+
  with Some x assms(1) show ?thesis by (simp add: until_done_def)
qed

text \<open>It ends when each round that ends in another one uses something up.\<close>

lemma retry_ends:
  assumes "I s"
    and "\<And>s r t u. I s \<Longrightarrow> m s = (r, t) \<Longrightarrow> is_again r \<Longrightarrow> wait t = (Inr (), u) \<Longrightarrow> I u \<and> f u < (f s :: nat)"
  shows "retry m wait s \<noteq> None"
  using assms(1)
proof (induction "f s" arbitrary: s rule: less_induct)
  case less
  obtain r t where m: "m s = (r, t)" by (cases "m s")
  obtain w u where w: "wait t = (w, u)" by (cases "wait t")
  show ?case
    using less.hyps [of u] assms(2) [OF less.prems m] m w
    by (subst retry.simps) (cases w; auto)
qed

lemma until_done_ends:
  assumes I: "I s"
    and step: "\<And>s r t. I s \<Longrightarrow> m s = (r, t) \<Longrightarrow> (is_again r \<longrightarrow> I t \<and> f t < f s) \<and> r \<noteq> Inl Hang"
    and wait: "\<And>t w u. I t \<Longrightarrow> wait t = (w, u) \<Longrightarrow> I u \<and> f u \<le> (f t :: nat) \<and> w \<noteq> Inl Hang"
    and run: "until_done m wait s = (r, s')"
  shows "r \<noteq> Inl Hang"
proof -
  have "retry m wait s \<noteq> None"
  proof (rule retry_ends [where I = I and f = f, OF I])
    fix s r t u
    assume "I s" "m s = (r, t)" "is_again r" and w: "wait t = (Inr (), u)"
    with step have t: "I t" "f t < f s" by blast+
    from wait [OF t(1) w] t(2) show "I u \<and> f u < f s" by linarith
  qed
  then have "retry m wait s = Some (r, s')" using run by (auto simp: until_done_def)
  then show ?thesis
  proof (rule retry_Some_rule [where I = I and Q = "\<lambda>r _. r \<noteq> Inl Hang"])
    show "I s" by (rule I)
    show "r \<noteq> Inl Hang" if "I s" "m s = (r, t)" for s r t using step [OF that] by blast
    show "Inl e \<noteq> Inl Hang" if "I s" "m s = (r, t)" "is_again r" "wait t = (Inl e, u)" for s r t e u
      using step [OF that(1,2)] that(3) wait [OF _ that(4)] by blast
    show "I u" if "I s" "m s = (r, t)" "is_again r" "wait t = (Inr (), u)" for s r t u
      using step [OF that(1,2)] that(3) wait [OF _ that(4)] by blast
  qed
qed

end
