(* ===== verification/Transport.thy ===== *)
theory Transport
  imports Connection
begin

text \<open>
  What a stream socket promises to the client, and what the client makes of it: packets arrive
  whole whatever the pieces, and the packet buffer leaves once and in order.
\<close>

section \<open>The connection between calls\<close>

definition conn_ok :: "'w trilogy_conn \<Rightarrow> bool" where
  "conn_ok c \<longleftrightarrow>
     length (recv_buff c) = TRILOGY_DEFAULT_BUF_SIZE \<and> recv_buff_pos c \<le> recv_buff_len c \<and>
     unat (recv_buff_len c) \<le> TRILOGY_DEFAULT_BUF_SIZE \<and> buffer_ok (packet_buffer c)"

text \<open>The bytes that were read from the socket and not yet consumed.\<close>

definition buffered :: "'w trilogy_conn \<Rightarrow> u8 list" where
  "buffered c = take (unat (recv_buff_len c - recv_buff_pos c)) (drop (unat (recv_buff_pos c)) (recv_buff c))"

text \<open>The part of the packet buffer that was not yet written to the socket.\<close>

definition unwritten :: "'w trilogy_conn \<Rightarrow> u8 list" where
  "unwritten c = drop (unat (packet_buffer_written c)) (contents (packet_buffer c))"

text \<open>The fields that reading and writing leave alone.\<close>

definition session where
  "session c = ((affected_rows c, last_insert_id c, warning_count c, last_gtid c, last_gtid_len c),
     (error_code c, error_message c, capabilities c, server_status c, socket c, column_count c,
      started_reading_rows c))"

lemma rc_of_code [simp]: "rc_of_code (rc_code e) = Some e"
  by (cases e) (simp_all add: rc_of_code_def)

lemma return_code_rc [simp]: "return_code (rc_code e) = throw e"
  by (simp add: return_code_def)

lemma length_buffered: "conn_ok c \<Longrightarrow> length (buffered c) = unat (recv_buff_len c) - unat (recv_buff_pos c)"
  by (auto simp: conn_ok_def buffered_def unat_sub word_le_nat_alt min_def)

lemma buffered_empty: "conn_ok c \<Longrightarrow> buffered c = [] \<longleftrightarrow> recv_buff_pos c = recv_buff_len c"
  using length_buffered [of c] by (auto simp: conn_ok_def word_le_nat_alt word_unat_eq_iff)

lemma buffered_fill:
  assumes "length (recv_buff c) = TRILOGY_DEFAULT_BUF_SIZE" and "length bs \<le> TRILOGY_DEFAULT_BUF_SIZE"
  shows "buffered (c\<lparr>recv_buff := blit 0 bs (recv_buff c), recv_buff_len := word_of_nat (length bs), recv_buff_pos := 0\<rparr>) = bs"
proof -
  have "unat (word_of_nat (length bs) :: size_t) = length bs"
    using assms(2) by (intro unat_word_of_nat_size_t) (simp add: TRILOGY_DEFAULT_BUF_SIZE_def)
  then show ?thesis by (simp add: buffered_def blit_def)
qed

lemma conn_ok_advance:
  assumes "conn_ok c" and "n \<le> length (buffered c)"
  shows "conn_ok (c\<lparr>recv_buff_pos := recv_buff_pos c + word_of_nat n\<rparr>)"
    and "buffered (c\<lparr>recv_buff_pos := recv_buff_pos c + word_of_nat n\<rparr>) = drop n (buffered c)"
proof -
  note len = length_buffered [OF assms(1)]
  note bound = unat_size_t_lt [of "recv_buff_len c"]
  have n: "unat (recv_buff_pos c) + n \<le> unat (recv_buff_len c)"
    using assms len by (auto simp: conn_ok_def word_le_nat_alt)
  then have w: "unat (word_of_nat n :: size_t) = n"
    using bound by (intro unat_word_of_nat_size_t) simp
  have pos: "unat (recv_buff_pos c + word_of_nat n) = unat (recv_buff_pos c) + n"
    using n bound w by (subst unat_add_size_t) simp_all
  then have le: "recv_buff_pos c + word_of_nat n \<le> recv_buff_len c" using n by (simp add: word_le_nat_alt)
  then show "conn_ok (c\<lparr>recv_buff_pos := recv_buff_pos c + word_of_nat n\<rparr>)"
    using assms(1) by (simp add: conn_ok_def)
  have "unat (recv_buff_len c - (recv_buff_pos c + word_of_nat n)) = unat (recv_buff_len c) - (unat (recv_buff_pos c) + n)"
    using le pos by (simp add: unat_sub)
  moreover have "unat (recv_buff_len c - recv_buff_pos c) = unat (recv_buff_len c) - unat (recv_buff_pos c)"
    using assms(1) by (simp add: conn_ok_def unat_sub)
  ultimately show "buffered (c\<lparr>recv_buff_pos := recv_buff_pos c + word_of_nat n\<rparr>) = drop n (buffered c)"
    using pos n by (simp add: buffered_def drop_take add.commute)
qed

declare connection.expects.simps [simp del]

text \<open>Whatever bytes are there, the packet parser is run within them and a code is returned.\<close>

lemma parse_received_safe:
  assumes ok: "conn_ok c" and run: "parse_received alloc c = (r, c')"
  shows "conn_ok c' \<and> session c' = session c \<and> outside c' = outside c
    \<and> (r = Inr () \<or> (\<exists>rc. r = Inl (Rc rc) \<and> rc \<noteq> TRILOGY_OK))
    \<and> (\<exists>n \<le> length (buffered c). buffered c' = drop n (buffered c)
         \<and> (r = Inl (Rc TRILOGY_AGAIN) \<longrightarrow> n = length (buffered c)))"
proof -
  let ?x = "trilogy_packet_parser_execute (packet_parser_callbacks alloc) (buffered c) (packet_parser c, packet_buffer c)"
  have "buffer_ok (packet_buffer c)" using ok by (simp add: conn_ok_def)
  then obtain n rc q u where x: "?x = (Inr (n, rc), (q, u))" and u: "buffer_ok u"
    using connection.execute_safe by blast
  have fits: "\<not> length (recv_buff c) < unat (recv_buff_pos c) + unat (recv_buff_len c - recv_buff_pos c)"
    using ok by (auto simp: conn_ok_def unat_sub word_le_nat_alt)
  define d where "d = c\<lparr>packet_parser := q, packet_buffer := u\<rparr>"
  have d: "conn_ok d" "buffered d = buffered c" "outside d = outside c" "session d = session c"
    using ok u by (simp_all add: d_def conn_ok_def buffered_def session_def)
  define e where "e = d\<lparr>recv_buff_pos := recv_buff_pos d + word_of_nat n\<rparr>"
  have step: "(r, c') = (if rc < 0 then return_code rc else if rc > 0 then ret () else throw TRILOGY_AGAIN) e"
    using run x fits by (simp add: parse_received_def on_part_def checked_apply buffered_def d_def e_def Let_def)
  have n: "n \<le> length (buffered c)" "rc = 0 \<longrightarrow> n = length (buffered c)" using execute_within [OF x] by simp_all
  have e: "conn_ok e" "buffered e = drop n (buffered c)" "outside e = outside c" "session e = session c"
    using conn_ok_advance [OF d(1), of n] n(1) d by (simp_all add: e_def session_def)
  consider "rc = 0" | "rc > 0" | x where "rc = rc_code x" "rc < 0" "x \<noteq> TRILOGY_AGAIN"
    using execute_yields [OF x callbacks_yield] by (fastforce simp: image_iff)
  then show ?thesis
  proof cases
    case 3
    then have "x \<noteq> TRILOGY_OK" by auto
    with 3 step e n show ?thesis by (auto simp del: rc_code.simps)
  qed (use step e n in auto)
qed

section \<open>Streams\<close>

locale transport =
  fixes rd :: "size_t \<Rightarrow> ('w, u8 list) op" and wr :: "u8 list \<Rightarrow> ('w, size_t) op"
    and wt :: "trilogy_wait \<Rightarrow> ('w, unit) op"
    and incoming :: "'w \<Rightarrow> u8 list" and outgoing :: "'w \<Rightarrow> u8 list"
  assumes read_law: "rd n w = (Inr bs, w') \<Longrightarrow>
      length bs \<le> unat n \<and> incoming w = bs @ incoming w' \<and> outgoing w' = outgoing w"
    and read_fail: "rd n w = (Inl e, w') \<Longrightarrow>
      (\<exists>rc. e = Rc rc \<and> rc \<noteq> TRILOGY_OK) \<and> incoming w' = incoming w \<and> outgoing w' = outgoing w"
    and write_law: "wr bs w = (Inr n, w') \<Longrightarrow>
      unat n \<le> length bs \<and> outgoing w' = outgoing w @ take (unat n) bs \<and> incoming w' = incoming w"
    and write_fail: "wr bs w = (Inl e, w') \<Longrightarrow>
      (\<exists>rc. e = Rc rc \<and> rc \<noteq> TRILOGY_OK) \<and> outgoing w' = outgoing w \<and> incoming w' = incoming w"
    and wait_law: "wt k w = (r, w') \<Longrightarrow>
      r \<noteq> Inl Fault \<and> r \<noteq> Inl (Rc TRILOGY_OK) \<and> incoming w' = incoming w \<and> outgoing w' = outgoing w"
begin

definition uses :: "'w trilogy_conn \<Rightarrow> bool" where
  "uses c \<longleftrightarrow> (\<exists>s. socket c = Some s \<and> read_cb s = rd \<and> write_cb s = wr \<and> wait_cb s = wt)"

definition unread :: "'w trilogy_conn \<Rightarrow> u8 list" where
  "unread c = buffered c @ incoming (outside c)"

lemma session_uses: "session c' = session c \<Longrightarrow> uses c' \<longleftrightarrow> uses c"
  by (simp add: session_def uses_def)

lemma receive_cases:
  assumes ok: "conn_ok c" and "uses c" and run: "receive c = (r, c')" and empty: "buffered c = []"
  shows "conn_ok c' \<and> session c' = session c \<and> unread c' = unread c \<and> outgoing (outside c') = outgoing (outside c)
    \<and> packet_parser c' = packet_parser c \<and> packet_buffer c' = packet_buffer c
    \<and> (r = Inr () \<and> buffered c' \<noteq> [] \<or> (\<exists>rc. r = Inl (Rc rc) \<and> rc \<noteq> TRILOGY_OK))"
proof -
  obtain s where s: "socket c = Some s" "read_cb s = rd" using assms(2) by (auto simp: uses_def)
  obtain a w where a: "rd (word_of_nat TRILOGY_DEFAULT_BUF_SIZE) (outside c) = (a, w)" by fastforce
  have cap: "unat (word_of_nat TRILOGY_DEFAULT_BUF_SIZE :: size_t) = TRILOGY_DEFAULT_BUF_SIZE"
    by (simp add: TRILOGY_DEFAULT_BUF_SIZE_def)
  have len: "length (recv_buff c) = TRILOGY_DEFAULT_BUF_SIZE" using ok by (simp add: conn_ok_def)
  show ?thesis
  proof (cases a)
    case (Inl e)
    with read_fail a obtain rc where "e = Rc rc" "rc \<noteq> TRILOGY_OK" "incoming w = incoming (outside c)"
        "outgoing w = outgoing (outside c)" by blast
    moreover have "r = Inl e" "c' = c\<lparr>outside := w\<rparr>"
      using run Inl a s by (auto simp: receive_def trilogy_sock_read_def with_socket_def checked_apply)
    ultimately show ?thesis using ok by (simp add: conn_ok_def session_def unread_def buffered_def)
  next
    case (Inr bs)
    with read_law a cap have bs: "length bs \<le> TRILOGY_DEFAULT_BUF_SIZE" "incoming (outside c) = bs @ incoming w"
        "outgoing w = outgoing (outside c)" by fastforce+
    show ?thesis
    proof (cases "bs = []")
      case True
      then have "r = Inl (Rc TRILOGY_CLOSED_CONNECTION)" "c' = c\<lparr>outside := w\<rparr>"
        using run Inr a s by (auto simp: receive_def trilogy_sock_read_def with_socket_def checked_apply blit_def)
      with True bs ok show ?thesis by (simp add: conn_ok_def session_def unread_def buffered_def)
    next
      case False
      define d where "d = c\<lparr>outside := w\<rparr>"
      have c': "r = Inr ()" "c' = d\<lparr>recv_buff := blit 0 bs (recv_buff d), recv_buff_len := word_of_nat (length bs), recv_buff_pos := 0\<rparr>"
        using run Inr a s bs(1) False
        by (auto simp: receive_def trilogy_sock_read_def with_socket_def checked_apply d_def)
      have "buffered c' = bs" unfolding c'(2) using bs(1) len by (intro buffered_fill) (simp_all add: d_def)
      moreover have "unat (word_of_nat (length bs) :: size_t) = length bs"
        using bs(1) by (intro unat_word_of_nat_size_t) (simp add: TRILOGY_DEFAULT_BUF_SIZE_def)
      ultimately show ?thesis
        using c' bs ok False len empty by (simp add: conn_ok_def session_def unread_def d_def)
    qed
  qed
qed

lemma parse_received_cases:
  assumes ok: "conn_ok c" and exp: "connection.expects p fin todo (packet_parser c, packet_buffer c)"
    and todo: "todo \<noteq> []" and stream: "unread c = todo @ extra" and run: "parse_received alloc c = (r, c')"
  shows "conn_ok c' \<and> session c' = session c \<and> outside c' = outside c \<and>
    (r = Inr () \<and> connection.delivered p fin (packet_parser c', packet_buffer c') \<and> unread c' = extra
     \<or> r = Inl (Rc TRILOGY_AGAIN) \<and> connection.expects p fin (drop (length (buffered c)) todo) (packet_parser c', packet_buffer c')
         \<and> length (buffered c) < length todo \<and> unread c' = drop (length (buffered c)) todo @ extra
     \<or> memory_tight alloc (length p) \<and> (\<exists>rc. r = Inl (Rc rc)))"
proof -
  let ?x = "trilogy_packet_parser_execute (packet_parser_callbacks alloc) (buffered c) (packet_parser c, packet_buffer c)"
  have fits: "\<not> length (recv_buff c) < unat (recv_buff_pos c) + unat (recv_buff_len c - recv_buff_pos c)"
    using ok by (auto simp: conn_ok_def unat_sub word_le_nat_alt)
  have agree: "agree (buffered c) todo"
    using stream unfolding agree_def unread_def by (metis append_eq_append_conv_if append_take_drop_id nat_le_linear take_all take_append take_eq_Nil)
  obtain res q u where x: "?x = (res, (q, u))" by (cases ?x) auto
  define d where "d = c\<lparr>packet_parser := q, packet_buffer := u\<rparr>"
  have d: "conn_ok d" "buffered d = buffered c" "outside d = outside c" "session d = session c" if "buffer_ok u"
    using ok that by (simp_all add: d_def conn_ok_def buffered_def session_def)
  have step: "parse_received alloc c =
      (if rc < 0 then return_code rc else if rc > 0 then ret () else throw TRILOGY_AGAIN)
        (d\<lparr>recv_buff_pos := recv_buff_pos d + word_of_nat n\<rparr>)" if "res = Inr (n, rc)" for n rc
    using that x fits by (simp add: parse_received_def on_part_def checked_apply buffered_def d_def Let_def)
  have moved: "conn_ok (d\<lparr>recv_buff_pos := recv_buff_pos d + word_of_nat n\<rparr>)
      \<and> session (d\<lparr>recv_buff_pos := recv_buff_pos d + word_of_nat n\<rparr>) = session c
      \<and> unread (d\<lparr>recv_buff_pos := recv_buff_pos d + word_of_nat n\<rparr>) = drop n (buffered c) @ incoming (outside c)"
    if "buffer_ok u" "n \<le> length (buffered c)" for n
    using conn_ok_advance [OF d(1) [OF that(1)], of n] that d
    by (simp add: unread_def session_def)
  have "connection.outcome alloc p fin todo 0 (length (buffered c)) (res, (q, u))"
    using connection.execute_outcome [OF exp agree todo] x by metis
  then consider "res = Inr (length todo, 1)" "length todo \<le> length (buffered c)" "connection.delivered p fin (q, u)"
    | "res = Inr (length (buffered c), 0)" "length (buffered c) < length todo"
        "connection.expects p fin (drop (length (buffered c)) todo) (q, u)"
    | n rc where "res = Inr (n, rc)" "rc < 0" "n \<le> length (buffered c)" "buffer_ok u" "memory_tight alloc (length p)"
    unfolding connection.outcome_def by auto
  then show ?thesis
  proof cases
    case 1
    then have "buffer_ok u" by (simp add: connection.delivered_def)
    moreover have "drop (length todo) (buffered c) @ incoming (outside c) = extra"
      using stream 1(2) unfolding unread_def by (metis append_eq_conv_conj drop_append diff_is_0_eq drop0)
    ultimately show ?thesis
      using run step [OF 1(1)] moved [OF _ 1(2)] 1(3) d(3) by (auto simp: d_def)
  next
    case 2
    then have "buffer_ok u" by (simp add: connection.expects.simps)
    moreover have "incoming (outside c) = drop (length (buffered c)) todo @ extra"
      using stream 2(2) unfolding unread_def by (metis append_eq_conv_conj drop_append less_imp_le diff_is_0_eq drop0)
    ultimately show ?thesis
      using run step [OF 2(1)] moved [of "length (buffered c)"] 2 d(3) by (auto simp: d_def)
  next
    case 3
    then obtain e where "rc = rc_code e"
      using execute_yields [OF x [unfolded 3(1)] callbacks_yield] by (auto simp del: rc_code.simps)
    then show ?thesis
      using run step [OF 3(1)] moved [OF 3(4,3)] 3 d(3) by auto
  qed
qed

text \<open>
  One call of \<^verbatim>\<open>read_packet\<close> inside the frames of a payload \<open>p\<close>, of which \<open>todo\<close> is to come.
\<close>

lemma read_packet_cases:
  assumes ok: "conn_ok c" and uses: "uses c" and exp: "connection.expects p fin todo (packet_parser c, packet_buffer c)"
    and todo: "todo \<noteq> []" and stream: "unread c = todo @ extra" and run: "read_packet alloc c = (r, c')"
  shows "conn_ok c' \<and> session c' = session c \<and> outgoing (outside c') = outgoing (outside c) \<and>
    (r = Inr () \<and> connection.delivered p fin (packet_parser c', packet_buffer c') \<and> unread c' = extra
     \<or> r = Inl (Rc TRILOGY_AGAIN) \<and> (\<exists>todo'. todo' \<noteq> [] \<and> length todo' \<le> length todo
          \<and> connection.expects p fin todo' (packet_parser c', packet_buffer c') \<and> unread c' = todo' @ extra)
     \<or> (\<exists>rc. r = Inl (Rc rc) \<and> rc \<noteq> TRILOGY_OK \<and> rc \<noteq> TRILOGY_AGAIN)
     \<or> memory_tight alloc (length p) \<and> (\<exists>rc. r = Inl (Rc rc)))"
proof (cases "buffered c = []")
  case False
  then have "parse_received alloc c = (r, c')"
    using run buffered_empty [OF ok] by (simp add: read_packet_def)
  from parse_received_cases [OF ok exp todo stream this] show ?thesis
    by (elim conjE disjE) (auto intro!: exI [of _ "drop (length (buffered c)) todo"])
next
  case True
  obtain r1 c1 where c1: "receive c = (r1, c1)" by fastforce
  from receive_cases [OF ok uses c1 True] have R: "conn_ok c1" "session c1 = session c" "unread c1 = unread c"
      "outgoing (outside c1) = outgoing (outside c)" "packet_parser c1 = packet_parser c"
      "packet_buffer c1 = packet_buffer c"
      "r1 = Inr () \<and> buffered c1 \<noteq> [] \<or> (\<exists>rc. r1 = Inl (Rc rc) \<and> rc \<noteq> TRILOGY_OK)" by simp_all
  have step: "read_packet alloc c = checked (Pair r1) (\<lambda>_. parse_received alloc) c1"
    using True buffered_empty [OF ok] c1 by (simp add: read_packet_def checked_apply)
  from R(7) show ?thesis
  proof (elim disjE conjE exE)
    fix rc assume "r1 = Inl (Rc rc)" "rc \<noteq> TRILOGY_OK"
    then show ?thesis
      using step run R exp todo stream by (cases "rc = TRILOGY_AGAIN") (auto simp: checked_apply)
  next
    assume "r1 = Inr ()"
    then have "parse_received alloc c1 = (r, c')" using step run by (simp add: checked_apply)
    from parse_received_cases [OF R(1) _ todo _ this, of p fin extra] R exp stream
    have P: "conn_ok c'" "session c' = session c" "outgoing (outside c') = outgoing (outside c)"
      "r = Inr () \<and> connection.delivered p fin (packet_parser c', packet_buffer c') \<and> unread c' = extra
       \<or> r = Inl (Rc TRILOGY_AGAIN)
         \<and> connection.expects p fin (drop (length (buffered c1)) todo) (packet_parser c', packet_buffer c')
         \<and> length (buffered c1) < length todo \<and> unread c' = drop (length (buffered c1)) todo @ extra
       \<or> memory_tight alloc (length p) \<and> (\<exists>rc. r = Inl (Rc rc))"
      by simp_all
    have "\<exists>todo'. todo' \<noteq> [] \<and> length todo' \<le> length todo
          \<and> connection.expects p fin todo' (packet_parser c', packet_buffer c') \<and> unread c' = todo' @ extra"
      if "connection.expects p fin (drop (length (buffered c1)) todo) (packet_parser c', packet_buffer c')"
        "length (buffered c1) < length todo" "unread c' = drop (length (buffered c1)) todo @ extra"
      using that by (intro exI [of _ "drop (length (buffered c1)) todo"]) simp
    with P show ?thesis by blast
  qed
qed

text \<open>Writing moves bytes from the packet buffer to the socket, in order and none twice.\<close>

definition moved :: "'w trilogy_conn \<Rightarrow> 'w trilogy_conn \<Rightarrow> bool" where
  "moved c c' \<longleftrightarrow>
     c' = c\<lparr>packet_buffer_written := packet_buffer_written c', outside := outside c'\<rparr>
     \<and> packet_buffer_written c' \<le> buf_len (packet_buffer c)
     \<and> incoming (outside c') = incoming (outside c)
     \<and> outgoing (outside c') @ unwritten c' = outgoing (outside c) @ unwritten c"

lemma moved_trans: "moved a b \<Longrightarrow> moved b c \<Longrightarrow> moved a c"
  by (cases a, cases b, cases c) (simp add: moved_def)

lemma moved_frame:
  assumes "moved c c'"
  shows "packet_buffer c' = packet_buffer c" "packet_parser c' = packet_parser c" "session c' = session c"
    "buffered c' = buffered c" "conn_ok c' \<longleftrightarrow> conn_ok c" "uses c' \<longleftrightarrow> uses c"
  using assms by (cases c, cases c', simp add: moved_def session_def buffered_def conn_ok_def uses_def)+

lemma moved_outside:
  assumes "packet_buffer_written c \<le> buf_len (packet_buffer c)" and "outgoing w = outgoing (outside c)"
    and "incoming w = incoming (outside c)"
  shows "moved c (c\<lparr>outside := w\<rparr>)"
  using assms by (simp add: moved_def unwritten_def)

lemma flush_step:
  assumes buf: "buffer_ok (packet_buffer c)" and le: "packet_buffer_written c \<le> buf_len (packet_buffer c)"
    and "uses c" and run: "trilogy_flush_writes c = (r, c')"
  obtains (failed) e w where "wr (unwritten c) (outside c) = (Inl e, w)" "r = Inl e" "c' = c\<lparr>outside := w\<rparr>"
    | (wrote) n w where "wr (unwritten c) (outside c) = (Inr n, w)" "outside c' = w"
        "c' = c\<lparr>packet_buffer_written := packet_buffer_written c', outside := w\<rparr>"
        "packet_buffer_written c' \<le> buf_len (packet_buffer c)" "unwritten c' = drop (unat n) (unwritten c)"
        "r = (if unwritten c' = [] then Inr () else Inl (Rc TRILOGY_AGAIN))"
proof -
  obtain s where s: "socket c = Some s" "write_cb s = wr" using assms(3) by (auto simp: uses_def)
  obtain mem where mem: "buf_mem (packet_buffer c) = Some mem" "unat (buf_len (packet_buffer c)) \<le> length mem"
    using buf by (auto simp: buffer_ok_def split: option.splits)
  have len: "unat (buf_len (packet_buffer c) - packet_buffer_written c) =
      unat (buf_len (packet_buffer c)) - unat (packet_buffer_written c)"
    using le by (rule unat_sub)
  have data: "take (unat (buf_len (packet_buffer c) - packet_buffer_written c)) (drop (unat (packet_buffer_written c)) mem)
      = unwritten c"
    using mem by (simp add: unwritten_def contents_def len drop_take)
  have fits: "\<not> length mem < unat (packet_buffer_written c) + unat (buf_len (packet_buffer c) - packet_buffer_written c)"
    using mem(2) le by (simp add: len word_le_nat_alt)
  obtain a w where a: "wr (unwritten c) (outside c) = (a, w)" by fastforce
  show ?thesis
  proof (cases a)
    case (Inl e)
    have "r = Inl e" "c' = c\<lparr>outside := w\<rparr>"
      using run Inl a s mem fits
      by (simp_all add: trilogy_flush_writes_def trilogy_sock_write_def with_socket_def checked_apply data Let_def)
    with failed a Inl show ?thesis by blast
  next
    case (Inr n)
    with write_law a have n: "unat n \<le> length (unwritten c)" by blast
    define d where "d = c\<lparr>outside := w, packet_buffer_written := packet_buffer_written c + n\<rparr>"
    have "length (unwritten c) = unat (buf_len (packet_buffer c)) - unat (packet_buffer_written c)"
      using mem by (simp add: unwritten_def contents_def)
    then have sum: "unat (packet_buffer_written c + n) = unat (packet_buffer_written c) + unat n"
        "unat (packet_buffer_written c) + unat n \<le> unat (buf_len (packet_buffer c))"
      using n le unat_size_t_lt [of "buf_len (packet_buffer c)"]
      by (auto simp: word_le_nat_alt intro!: unat_add_size_t)
    then have u: "unwritten d = drop (unat n) (unwritten c)"
      by (simp add: d_def unwritten_def add.commute)
    have "(r, c') = (if packet_buffer_written d < buf_len (packet_buffer d) then Inl (Rc TRILOGY_AGAIN) else Inr (), d)"
      using run Inr a s mem fits
      by (simp add: trilogy_flush_writes_def trilogy_sock_write_def with_socket_def checked_apply data Let_def d_def
          split: if_splits)
    moreover have "unwritten d = [] \<longleftrightarrow> \<not> packet_buffer_written d < buf_len (packet_buffer d)"
      using mem by (simp add: unwritten_def contents_def word_less_nat_alt d_def not_less)
    ultimately have "c' = d" "r = (if unwritten d = [] then Inr () else Inl (Rc TRILOGY_AGAIN))" by simp_all
    with a Inr sum u show ?thesis by (intro wrote [of n w]) (simp_all add: d_def word_le_nat_alt)
  qed
qed

lemma flush_cases:
  assumes buf: "buffer_ok (packet_buffer c)" and le: "packet_buffer_written c \<le> buf_len (packet_buffer c)"
    and "uses c" and run: "trilogy_flush_writes c = (r, c')"
  shows "moved c c' \<and> (r = Inr () \<and> unwritten c' = [] \<or> (\<exists>rc. r = Inl (Rc rc) \<and> rc \<noteq> TRILOGY_OK))"
  using assms
proof (cases rule: flush_step)
  case (failed e w)
  with write_fail [OF failed(1)] moved_outside [OF le, of w] show ?thesis by auto
next
  case (wrote n w)
  with write_law [OF wrote(1)] show ?thesis by (auto simp: moved_def)
qed

lemma wait_write_cases:
  assumes "packet_buffer_written c \<le> buf_len (packet_buffer c)" and "uses c" and "trilogy_sock_wait_write c = (r, c')"
  shows "moved c c' \<and> incoming (outside c') = incoming (outside c) \<and> r \<noteq> Inl Fault \<and> r \<noteq> Inl (Rc TRILOGY_OK)"
proof -
  obtain s w where s: "socket c = Some s" "wt TRILOGY_WAIT_WRITE (outside c) = (r, w)" "c' = c\<lparr>outside := w\<rparr>"
    using assms(2,3) by (auto simp: uses_def trilogy_sock_wait_write_def with_socket_def split: prod.splits)
  with wait_law [OF s(2)] moved_outside [OF assms(1)] show ?thesis by auto
qed

lemma wait_read_cases:
  assumes "uses c" and "trilogy_sock_wait_read c = (r, c')"
  shows "c' = c\<lparr>outside := outside c'\<rparr> \<and> incoming (outside c') = incoming (outside c)
    \<and> outgoing (outside c') = outgoing (outside c) \<and> r \<noteq> Inl Fault \<and> r \<noteq> Inl (Rc TRILOGY_OK)"
proof -
  obtain s w where s: "wt TRILOGY_WAIT_READ (outside c) = (r, w)" "c' = c\<lparr>outside := w\<rparr>"
    using assms by (auto simp: uses_def trilogy_sock_wait_read_def with_socket_def split: prod.splits)
  with wait_law [OF s(1)] show ?thesis by auto
qed

text \<open>The loops.\<close>

lemma flush_loop_cases:
  assumes "buffer_ok (packet_buffer c)" and "packet_buffer_written c \<le> buf_len (packet_buffer c)"
    and "uses c" and "until_done trilogy_flush_writes trilogy_sock_wait_write c = (r, c')"
  shows "moved c c' \<and> (r = Inr () \<and> unwritten c' = [] \<or> r = Inl Hang \<or> (\<exists>rc. r = Inl (Rc rc) \<and> rc \<noteq> TRILOGY_OK))"
proof -
  define Q where "Q r c' \<longleftrightarrow> moved c c' \<and>
      (r = Inr () \<and> unwritten c' = [] \<or> r = Inl Hang \<or> (\<exists>rc. r = Inl (Rc rc) \<and> rc \<noteq> TRILOGY_OK))" for r c'
  have step: "moved c t \<and> uses t \<and> packet_buffer_written t \<le> buf_len (packet_buffer t)
      \<and> (r = Inr () \<and> unwritten t = [] \<or> (\<exists>rc. r = Inl (Rc rc) \<and> rc \<noteq> TRILOGY_OK))"
    if "moved c s" "trilogy_flush_writes s = (r, t)" for s t r
  proof -
    have "buffer_ok (packet_buffer s)" "packet_buffer_written s \<le> buf_len (packet_buffer s)" "uses s"
      using assms(1,3) moved_frame [OF that(1)] that(1) by (auto simp: moved_def)
    from flush_cases [OF this that(2)] moved_trans [OF that(1)] have
      "moved c t" "r = Inr () \<and> unwritten t = [] \<or> (\<exists>rc. r = Inl (Rc rc) \<and> rc \<noteq> TRILOGY_OK)" by blast+
    with moved_frame [OF \<open>moved c t\<close>] assms(3) show ?thesis by (auto simp: moved_def)
  qed
  have "Q r c'"
    using assms(4)
  proof (rule until_done_rule [where I = "moved c" and Q = Q])
    show "moved c c" using assms(2) by (simp add: moved_def)
    show "Q (Inl Hang) s" if "moved c s" for s using that by (simp add: Q_def)
    show "Q r t" if "moved c s" "trilogy_flush_writes s = (r, t)" for s r t
      using step [OF that] by (auto simp: Q_def)
  next
    fix s r t e u
    assume "moved c s" "trilogy_flush_writes s = (r, t)" "trilogy_sock_wait_write t = (Inl e, u)"
    with step wait_write_cases have "moved c t" "moved t u" "e \<noteq> Fault" "e \<noteq> Rc TRILOGY_OK" by blast+
    then show "Q (Inl e) u" using moved_trans by (cases e) (auto simp: Q_def)
  next
    fix s r t u
    assume "moved c s" "trilogy_flush_writes s = (r, t)" "trilogy_sock_wait_write t = (Inr (), u)"
    with step wait_write_cases have "moved c t" "moved t u" by blast+
    then show "moved c u" by (rule moved_trans)
  qed
  then show ?thesis by (simp add: Q_def)
qed

text \<open>
  A function that reads a packet and handles it, repeated until it no longer reports
  \<^verbatim>\<open>TRILOGY_AGAIN\<close>: it handles the packet that the server sent, or the socket has failed.
\<close>

lemma receive_loop_cases:
  assumes ok: "conn_ok c" and uses: "uses c"
    and exp: "connection.expects p fin todo (packet_parser c, packet_buffer c)" and todo: "todo \<noteq> []"
    and stream: "unread c = todo @ extra" and memory: "\<not> memory_tight alloc (length p)"
    and handler: "\<And>d. conn_ok d \<Longrightarrow> session d = session c \<Longrightarrow>
      connection.delivered p fin (packet_parser d, packet_buffer d) \<Longrightarrow> \<not> is_again (fst (h d))"
    and run: "until_done (checked (read_packet alloc) (\<lambda>_. h)) trilogy_sock_wait_read c = (r, c')"
  shows "(\<exists>d. h d = (r, c') \<and> conn_ok d \<and> connection.delivered p fin (packet_parser d, packet_buffer d)
            \<and> unread d = extra \<and> session d = session c \<and> outgoing (outside d) = outgoing (outside c))
       \<or> session c' = session c \<and> (r = Inl Hang \<or> (\<exists>rc. r = Inl (Rc rc) \<and> rc \<noteq> TRILOGY_OK))"
proof -
  define I where "I d \<longleftrightarrow> conn_ok d \<and> session d = session c \<and> outgoing (outside d) = outgoing (outside c)
      \<and> (\<exists>todo. todo \<noteq> [] \<and> connection.expects p fin todo (packet_parser d, packet_buffer d) \<and> unread d = todo @ extra)" for d
  define Q where "Q r c' \<longleftrightarrow> (\<exists>d. h d = (r, c') \<and> conn_ok d \<and> connection.delivered p fin (packet_parser d, packet_buffer d)
            \<and> unread d = extra \<and> session d = session c \<and> outgoing (outside d) = outgoing (outside c))
       \<or> session c' = session c \<and> (r = Inl Hang \<or> (\<exists>rc. r = Inl (Rc rc) \<and> rc \<noteq> TRILOGY_OK))" for r c'
  have step: "if is_again r then r = Inl (Rc TRILOGY_AGAIN) \<and> I t else Q r t"
    if I_s: "I s" and m: "checked (read_packet alloc) (\<lambda>_. h) s = (r, t)" for s r t
  proof -
    have c: "session s = session c" "outgoing (outside s) = outgoing (outside c)" and "conn_ok s"
      using I_s unfolding I_def by blast+
    moreover have "uses s" using session_uses [OF c(1)] uses by simp
    moreover obtain todo where "connection.expects p fin todo (packet_parser s, packet_buffer s)"
        "todo \<noteq> []" "unread s = todo @ extra"
      using I_s unfolding I_def by blast
    ultimately have s: "conn_ok s" "uses s" "connection.expects p fin todo (packet_parser s, packet_buffer s)"
        "todo \<noteq> []" "unread s = todo @ extra" by blast+
    obtain r1 d where d: "read_packet alloc s = (r1, d)" by fastforce
    note cases = read_packet_cases [OF s d]
    have frame: "conn_ok d" "session d = session c" "outgoing (outside d) = outgoing (outside c)"
      using cases c by simp_all
    have I: "I d" if "\<exists>todo'. todo' \<noteq> [] \<and> length todo' \<le> length todo
        \<and> connection.expects p fin todo' (packet_parser d, packet_buffer d) \<and> unread d = todo' @ extra"
      unfolding I_def using that frame by blast
    consider "r1 = Inr ()" "connection.delivered p fin (packet_parser d, packet_buffer d)" "unread d = extra"
      | "r1 = Inl (Rc TRILOGY_AGAIN)" "I d"
      | rc where "r1 = Inl (Rc rc)" "rc \<noteq> TRILOGY_OK" "rc \<noteq> TRILOGY_AGAIN"
      using cases memory I by blast
    then show ?thesis
    proof cases
      case 1
      then have "h d = (r, t)" using m d by (simp add: checked_apply)
      with handler [OF frame(1,2) 1(2)] 1 frame show ?thesis unfolding Q_def by (metis fst_conv)
    qed (use m d frame in \<open>auto simp: checked_apply Q_def is_again_iff\<close>)
  qed
  have wait: "session u = session t \<and> (I t \<longrightarrow> I u) \<and> w \<noteq> Inl Fault \<and> w \<noteq> Inl (Rc TRILOGY_OK)"
    if "I t" "trilogy_sock_wait_read t = (w, u)" for t w u
  proof -
    have "session t = session c" using that(1) unfolding I_def by blast
    from session_uses [OF this] uses have "uses t" by simp
    note facts = wait_read_cases [OF this that(2)]
    then have u: "u = t\<lparr>outside := outside u\<rparr>" by blast
    have "session u = session t" "buffered u = buffered t" "conn_ok u = conn_ok t"
        "packet_parser u = packet_parser t" "packet_buffer u = packet_buffer t"
      by (subst u, simp add: session_def buffered_def conn_ok_def)+
    with facts show ?thesis by (simp add: I_def unread_def)
  qed
  have "Q r c'"
    using run
  proof (rule until_done_rule [where I = I and Q = Q])
    show "I c" using ok exp todo stream by (auto simp: I_def)
    show "Q (Inl Hang) s" if "I s" for s using that by (simp add: I_def Q_def)
    show "Q r t" if "I s" "checked (read_packet alloc) (\<lambda>_. h) s = (r, t)" "\<not> is_again r" for s r t
      using step [OF that(1,2)] that(3) by simp
  next
    fix s r t e u
    assume "I s" "checked (read_packet alloc) (\<lambda>_. h) s = (r, t)" and "is_again r"
      and w: "trilogy_sock_wait_read t = (Inl e, u)"
    with step have I: "I t" by metis
    with wait [OF I w] show "Q (Inl e) u" by (cases e) (auto simp: Q_def I_def)
  next
    fix s r t u
    assume "I s" "checked (read_packet alloc) (\<lambda>_. h) s = (r, t)" and "is_again r"
      and w: "trilogy_sock_wait_read t = (Inr (), u)"
    with step have I: "I t" by metis
    with wait [OF I w] show "I u" by blast
  qed
  then show ?thesis by (simp add: Q_def)
qed

end

section \<open>Sockets that answer\<close>

text \<open>
  A live socket reports \<^verbatim>\<open>TRILOGY_AGAIN\<close> only finitely often, and a wait on it returns: then
  the loops end. \<open>patience\<close> bounds the number of calls that make no progress.
\<close>

locale responsive = transport +
  fixes patience :: "'a \<Rightarrow> nat" and live :: "'a \<Rightarrow> bool"
  assumes read_again: "live w \<Longrightarrow> rd n w = (r, w') \<Longrightarrow>
      live w' \<and> patience w' \<le> patience w \<and> (r = Inl (Rc TRILOGY_AGAIN) \<longrightarrow> patience w' < patience w)"
    and write_again: "live w \<Longrightarrow> wr bs w = (r', w') \<Longrightarrow> live w' \<and> patience w' \<le> patience w \<and>
      (r' = Inl (Rc TRILOGY_AGAIN) \<or> r' = Inr 0 \<and> bs \<noteq> [] \<longrightarrow> patience w' < patience w)"
    and wait_live: "live w \<Longrightarrow> wt k w = (r'', w') \<Longrightarrow> live w' \<and> patience w' \<le> patience w \<and> r'' \<noteq> Inl Hang"
begin

lemma wait_read_live:
  assumes "uses c" and "live (outside c)" and "trilogy_sock_wait_read c = (r, c')"
  shows "c' = c\<lparr>outside := outside c'\<rparr> \<and> live (outside c') \<and> patience (outside c') \<le> patience (outside c)
    \<and> incoming (outside c') = incoming (outside c) \<and> r \<noteq> Inl Hang \<and> r \<noteq> Inl Fault"
proof -
  obtain s w where s: "wt TRILOGY_WAIT_READ (outside c) = (r, w)" "c' = c\<lparr>outside := w\<rparr>"
    using assms(1,3) by (auto simp: uses_def trilogy_sock_wait_read_def with_socket_def split: prod.splits)
  with wait_live [OF assms(2) s(1)] wait_law [OF s(1)] show ?thesis by auto
qed

lemma wait_write_live:
  assumes "uses c" and "live (outside c)" and "trilogy_sock_wait_write c = (r, c')"
  shows "c' = c\<lparr>outside := outside c'\<rparr> \<and> live (outside c') \<and> patience (outside c') \<le> patience (outside c) \<and> r \<noteq> Inl Hang"
proof -
  obtain s w where s: "wt TRILOGY_WAIT_WRITE (outside c) = (r, w)" "c' = c\<lparr>outside := w\<rparr>"
    using assms(1,3) by (auto simp: uses_def trilogy_sock_wait_write_def with_socket_def split: prod.splits)
  with wait_live [OF assms(2) s(1)] show ?thesis by auto
qed

lemma flush_live:
  assumes "buffer_ok (packet_buffer c)" and "packet_buffer_written c \<le> buf_len (packet_buffer c)"
    and "uses c" and live: "live (outside c)" and "trilogy_flush_writes c = (r, c')"
  shows "live (outside c') \<and> (r = Inl (Rc TRILOGY_AGAIN) \<longrightarrow>
    patience (outside c') + length (unwritten c') < patience (outside c) + length (unwritten c))"
  using assms(1,2,3,5)
proof (cases rule: flush_step)
  case (failed e w)
  with write_again [OF live failed(1)] show ?thesis by (auto simp: unwritten_def)
next
  case (wrote n w)
  have "0 < unat n" if "n \<noteq> 0" using that by (simp add: unat_gt_0)
  with wrote write_again [OF live wrote(1)] write_law [OF wrote(1)] show ?thesis
    by (cases "n = 0") (auto split: if_splits)
qed

lemma flush_loop_ends:
  assumes "buffer_ok (packet_buffer c)" and "packet_buffer_written c \<le> buf_len (packet_buffer c)"
    and "uses c" and "live (outside c)"
    and run: "until_done trilogy_flush_writes trilogy_sock_wait_write c = (r, c')"
  shows "r \<noteq> Inl Hang \<and> live (outside c')"
proof -
  define I where "I d \<longleftrightarrow> buffer_ok (packet_buffer d) \<and> packet_buffer_written d \<le> buf_len (packet_buffer d)
      \<and> uses d \<and> live (outside d)" for d
  define f where "f d = patience (outside d) + length (unwritten d)" for d
  have step: "(is_again r \<longrightarrow> I t \<and> f t < f s) \<and> r \<noteq> Inl Hang \<and> live (outside t)" if "I s" "trilogy_flush_writes s = (r, t)" for s r t
  proof -
    have s: "buffer_ok (packet_buffer s)" "packet_buffer_written s \<le> buf_len (packet_buffer s)" "uses s" "live (outside s)"
      using that(1) by (simp_all add: I_def)
    note F = flush_cases [OF s(1-3) that(2)] flush_live [OF s that(2)]
    then have "moved s t" by blast
    from moved_frame [OF this] this F s show ?thesis
      by (auto simp: I_def f_def is_again_iff moved_def)
  qed
  have wait: "I u \<and> f u \<le> f t \<and> w \<noteq> Inl Hang" if "I t" "trilogy_sock_wait_write t = (w, u)" for t w u
  proof -
    have t: "uses t" "live (outside t)" using that(1) by (simp_all add: I_def)
    note W = wait_write_live [OF t that(2)]
    then have u: "u = t\<lparr>outside := outside u\<rparr>" by blast
    have "uses u = uses t" "packet_buffer u = packet_buffer t" "unwritten u = unwritten t"
        "packet_buffer_written u = packet_buffer_written t"
      by (subst u, simp add: uses_def unwritten_def)+
    with W that(1) show ?thesis by (simp add: I_def f_def)
  qed
  have I: "I c" using assms(1-4) by (simp add: I_def)
  have "r \<noteq> Inl Hang"
    by (rule until_done_ends [where I = I and f = f, OF I _ wait run]) (use step in blast)
  moreover have "live (outside c')"
    using run
  proof (rule until_done_rule [where I = I and Q = "\<lambda>_ d. live (outside d)"])
    show "live (outside d)" if "I d" for d using that by (simp add: I_def)
    show "live (outside t)" if "I s" "trilogy_flush_writes s = (r, t)" for s r t using step [OF that] by blast
    show "live (outside u)" if "I s" "trilogy_flush_writes s = (r, t)" "is_again r" "trilogy_sock_wait_write t = (Inl e, u)"
      for s r t e u
      using step [OF that(1,2)] that(3) wait [OF _ that(4)] by (simp add: I_def)
    show "I u" if "I s" "trilogy_flush_writes s = (r, t)" "is_again r" "trilogy_sock_wait_write t = (Inr (), u)" for s r t u
      using step [OF that(1,2)] that(3) wait [OF _ that(4)] by blast
  qed (rule I)
  ultimately show ?thesis ..
qed

text \<open>Whatever the server sends, reading neither faults nor reads for ever.\<close>

definition work :: "'a trilogy_conn \<Rightarrow> nat" where
  "work c = patience (outside c) + length (unread c)"

lemma receive_live:
  assumes "uses c" and "live (outside c)" and "receive c = (r, c')"
  shows "live (outside c') \<and> patience (outside c') \<le> patience (outside c)
    \<and> (r = Inl (Rc TRILOGY_AGAIN) \<longrightarrow> patience (outside c') < patience (outside c))"
proof -
  obtain s where s: "socket c = Some s" "read_cb s = rd" using assms(1) by (auto simp: uses_def)
  obtain a w where a: "rd (word_of_nat TRILOGY_DEFAULT_BUF_SIZE) (outside c) = (a, w)" by fastforce
  show ?thesis
    using read_again [OF assms(2) a] assms(3) a s
    by (auto simp: receive_def trilogy_sock_read_def with_socket_def checked_apply split: sum.splits if_splits)
qed

lemma read_packet_live:
  assumes ok: "conn_ok c" and uses: "uses c" and live: "live (outside c)" and run: "read_packet alloc c = (r, c')"
  shows "conn_ok c' \<and> session c' = session c \<and> live (outside c')
    \<and> (r = Inr () \<or> (\<exists>rc. r = Inl (Rc rc) \<and> rc \<noteq> TRILOGY_OK)) \<and> work c' \<le> work c
    \<and> (r = Inl (Rc TRILOGY_AGAIN) \<longrightarrow> work c' < work c)"
proof (cases "buffered c = []")
  case False
  then have "parse_received alloc c = (r, c')"
    using run buffered_empty [OF ok] by (simp add: read_packet_def)
  from parse_received_safe [OF ok this] False live show ?thesis
    by (auto simp: work_def unread_def)
next
  case True
  obtain r1 c1 where c1: "receive c = (r1, c1)" by fastforce
  note R = receive_cases [OF ok uses c1 True] receive_live [OF uses live c1]
  have step: "read_packet alloc c = checked (Pair r1) (\<lambda>_. parse_received alloc) c1"
    using True buffered_empty [OF ok] c1 by (simp add: read_packet_def checked_apply)
  show ?thesis
  proof (cases r1)
    case (Inl e)
    with step run R show ?thesis by (auto simp: checked_apply work_def)
  next
    case (Inr x)
    then have p: "parse_received alloc c1 = (r, c')" using step run by (simp add: checked_apply)
    have c1: "conn_ok c1" "buffered c1 \<noteq> []" using R Inr by auto
    note P = parse_received_safe [OF c1(1) p]
    have "length (unread c') \<le> length (unread c1)"
      and "r = Inl (Rc TRILOGY_AGAIN) \<longrightarrow> length (unread c') < length (unread c1)"
      using P c1(2) by (auto simp: unread_def)
    with P R show ?thesis by (auto simp: work_def)
  qed
qed

lemma receive_loop_ends:
  assumes "conn_ok c" and "uses c" and "live (outside c)"
    and handler: "\<And>d. conn_ok d \<Longrightarrow> \<not> is_again (fst (h d)) \<and> fst (h d) \<noteq> Inl Hang"
    and run: "until_done (checked (read_packet alloc) (\<lambda>_. h)) trilogy_sock_wait_read c = (r, c')"
  shows "r \<noteq> Inl Hang"
proof -
  let ?m = "checked (read_packet alloc) (\<lambda>_. h)"
  define I where "I d \<longleftrightarrow> conn_ok d \<and> uses d \<and> live (outside d)" for d
  have step: "(is_again r \<longrightarrow> I t \<and> work t < work s) \<and> r \<noteq> Inl Hang" if "I s" "?m s = (r, t)" for s r t
  proof -
    obtain x d where d: "read_packet alloc s = (x, d)" by fastforce
    have s: "conn_ok s" "uses s" "live (outside s)" using that(1) by (simp_all add: I_def)
    note P = read_packet_live [OF s d]
    have "session d = session s" using P by blast
    from session_uses [OF this] s(2) have "uses d" by simp
    with P that(2) d handler [of d] show ?thesis
      by (cases x) (auto simp: checked_apply is_again_iff I_def)
  qed
  have wait: "I u \<and> work u \<le> work t \<and> w \<noteq> Inl Hang" if "I t" "trilogy_sock_wait_read t = (w, u)" for t w u
  proof -
    have t: "uses t" "live (outside t)" "conn_ok t" using that(1) by (simp_all add: I_def)
    note W = wait_read_live [OF t(1,2) that(2)]
    then have u: "u = t\<lparr>outside := outside u\<rparr>" by blast
    have "uses u = uses t" "conn_ok u = conn_ok t" "buffered u = buffered t"
      by (subst u, simp add: uses_def conn_ok_def buffered_def)+
    with W t show ?thesis by (simp add: I_def work_def unread_def)
  qed
  have I: "I c" using assms(1-3) by (simp add: I_def)
  show ?thesis by (rule until_done_ends [where I = I and f = work, OF I step wait run])
qed

end

section \<open>Sockets that do not fail\<close>

text \<open>
  On a live socket nothing worse happens than interruptions and transfers in pieces: a read
  ends the stream only when no byte is to come. Then every loop gets its work done.
\<close>

locale reliable = responsive +
  assumes read_done: "live w \<Longrightarrow> rd n w = (Inl e, w') \<Longrightarrow> e = Rc TRILOGY_AGAIN"
    and read_end: "live w \<Longrightarrow> rd n w = (Inr [], w') \<Longrightarrow> n = 0 \<or> incoming w = []"
    and write_done: "live w \<Longrightarrow> wr bs w = (Inl e, w') \<Longrightarrow> e = Rc TRILOGY_AGAIN"
    and wait_done: "live w \<Longrightarrow> wt k w = (r, w') \<Longrightarrow> r = Inr ()"
begin

lemma receive_done:
  assumes ok: "conn_ok c" and uses: "uses c" and live: "live (outside c)" and empty: "buffered c = []"
    and some: "unread c \<noteq> []" and run: "receive c = (r, c')"
  shows "r = Inr () \<or> r = Inl (Rc TRILOGY_AGAIN)"
proof -
  obtain s where s: "socket c = Some s" "read_cb s = rd" using uses by (auto simp: uses_def)
  let ?n = "word_of_nat TRILOGY_DEFAULT_BUF_SIZE :: size_t"
  have n: "unat ?n = TRILOGY_DEFAULT_BUF_SIZE" "?n \<noteq> 0" by (simp_all add: TRILOGY_DEFAULT_BUF_SIZE_def)
  obtain a w where a: "rd ?n (outside c) = (a, w)" by fastforce
  have "incoming (outside c) \<noteq> []" using empty some by (simp add: unread_def)
  then have "a \<noteq> Inr []" using read_end [OF live, of ?n w] a n(2) by blast
  moreover have "length bs \<le> TRILOGY_DEFAULT_BUF_SIZE" if "a = Inr bs" for bs
    using read_law a that n(1) by fastforce
  moreover have "e = Rc TRILOGY_AGAIN" if "a = Inl e" for e using read_done [OF live] a that by blast
  ultimately show ?thesis
    using run a s by (cases a) (auto simp: receive_def trilogy_sock_read_def with_socket_def checked_apply)
qed

lemma read_packet_done:
  assumes ok: "conn_ok c" and uses: "uses c" and live: "live (outside c)"
    and exp: "connection.expects p fin todo (packet_parser c, packet_buffer c)" and todo: "todo \<noteq> []"
    and stream: "unread c = todo @ extra" and memory: "\<not> memory_tight alloc (length p)"
    and run: "read_packet alloc c = (r, c')"
  shows "r = Inr () \<or> r = Inl (Rc TRILOGY_AGAIN)"
proof (cases "buffered c = []")
  case False
  then have "parse_received alloc c = (r, c')"
    using run buffered_empty [OF ok] by (simp add: read_packet_def)
  from parse_received_cases [OF ok exp todo stream this] memory show ?thesis by blast
next
  case True
  obtain r1 c1 where c1: "receive c = (r1, c1)" by fastforce
  note R = receive_cases [OF ok uses c1 True]
  have step: "read_packet alloc c = checked (Pair r1) (\<lambda>_. parse_received alloc) c1"
    using True buffered_empty [OF ok] c1 by (simp add: read_packet_def checked_apply)
  have "unread c \<noteq> []" using stream todo by simp
  from receive_done [OF ok uses live True this c1] show ?thesis
  proof
    assume "r1 = Inr ()"
    then have p: "parse_received alloc c1 = (r, c')" using step run by simp
    have "conn_ok c1" "connection.expects p fin todo (packet_parser c1, packet_buffer c1)" "unread c1 = todo @ extra"
      using R exp stream by simp_all
    from parse_received_cases [OF this(1,2) todo this(3) p] memory show ?thesis by blast
  qed (use step run in \<open>simp add: checked_apply\<close>)
qed

text \<open>The packet is handled.\<close>

lemma receive_loop_done:
  assumes ok: "conn_ok c" and uses: "uses c" and live: "live (outside c)"
    and exp: "connection.expects p fin todo (packet_parser c, packet_buffer c)" and todo: "todo \<noteq> []"
    and stream: "unread c = todo @ extra" and memory: "\<not> memory_tight alloc (length p)"
    and handler: "\<And>d. conn_ok d \<Longrightarrow> session d = session c \<Longrightarrow>
      connection.delivered p fin (packet_parser d, packet_buffer d) \<Longrightarrow> \<not> is_again (fst (h d))"
    and run: "until_done (checked (read_packet alloc) (\<lambda>_. h)) trilogy_sock_wait_read c = (r, c')"
  shows "retry (checked (read_packet alloc) (\<lambda>_. h)) trilogy_sock_wait_read c = Some (r, c')
    \<and> (\<exists>d. h d = (r, c') \<and> conn_ok d \<and> connection.delivered p fin (packet_parser d, packet_buffer d)
            \<and> unread d = extra \<and> session d = session c \<and> outgoing (outside d) = outgoing (outside c) \<and> live (outside d))"
proof -
  let ?m = "checked (read_packet alloc) (\<lambda>_. h)"
  define I where "I d \<longleftrightarrow> conn_ok d \<and> uses d \<and> live (outside d) \<and> session d = session c
      \<and> outgoing (outside d) = outgoing (outside c)
      \<and> (\<exists>todo. todo \<noteq> [] \<and> connection.expects p fin todo (packet_parser d, packet_buffer d) \<and> unread d = todo @ extra)" for d
  define Q where "Q r c' \<longleftrightarrow> (\<exists>d. h d = (r, c') \<and> conn_ok d \<and> connection.delivered p fin (packet_parser d, packet_buffer d)
      \<and> unread d = extra \<and> session d = session c \<and> outgoing (outside d) = outgoing (outside c) \<and> live (outside d))" for r c'
  have step: "if is_again r then I t \<and> work t < work s else Q r t" if I_s: "I s" and m: "?m s = (r, t)" for s r t
  proof -
    have s: "conn_ok s" "uses s" "live (outside s)" "session s = session c" "outgoing (outside s) = outgoing (outside c)"
      using I_s unfolding I_def by blast+
    obtain todo where t: "connection.expects p fin todo (packet_parser s, packet_buffer s)" "todo \<noteq> []" "unread s = todo @ extra"
      using I_s unfolding I_def by blast
    obtain r1 d where d: "read_packet alloc s = (r1, d)" by fastforce
    note cases = read_packet_cases [OF s(1,2) t d]
    note facts = read_packet_live [OF s(1-3) d]
    have frame: "conn_ok d" "session d = session c" "outgoing (outside d) = outgoing (outside c)" "live (outside d)"
      using cases facts s(4,5) by simp_all
    have "uses d" using session_uses [OF frame(2)] uses by simp
    from read_packet_done [OF s(1-3) t memory d] show ?thesis
    proof
      assume r1: "r1 = Inr ()"
      then have h: "h d = (r, t)" using m d by (simp add: checked_apply)
      have "connection.delivered p fin (packet_parser d, packet_buffer d)" "unread d = extra"
        using cases r1 memory by auto
      with handler [OF frame(1,2) this(1)] h frame show ?thesis unfolding Q_def by (metis fst_conv)
    next
      assume r1: "r1 = Inl (Rc TRILOGY_AGAIN)"
      then have "r = Inl (Rc TRILOGY_AGAIN)" "t = d" using m d by (simp_all add: checked_apply)
      moreover have "\<exists>todo'. todo' \<noteq> [] \<and> connection.expects p fin todo' (packet_parser d, packet_buffer d) \<and> unread d = todo' @ extra"
        using cases r1 memory by auto
      ultimately show ?thesis
        using facts r1 frame \<open>uses d\<close> unfolding I_def is_again_iff by simp
    qed
  qed
  have wait: "w = Inr () \<and> I u \<and> work u \<le> work t" if I_t: "I t" and w: "trilogy_sock_wait_read t = (w, u)" for t w u
  proof -
    have t: "uses t" "live (outside t)" using I_t unfolding I_def by blast+
    obtain s w' where s: "wt TRILOGY_WAIT_READ (outside t) = (w, w')"
      using t(1) w by (auto simp: uses_def trilogy_sock_wait_read_def with_socket_def split: prod.splits)
    note L = wait_read_live [OF t w] wait_read_cases [OF t(1) w]
    then have u: "u = t\<lparr>outside := outside u\<rparr>" by blast
    have "uses u = uses t" "conn_ok u = conn_ok t" "buffered u = buffered t" "session u = session t"
        "packet_parser u = packet_parser t" "packet_buffer u = packet_buffer t"
      by (subst u, simp add: uses_def conn_ok_def buffered_def session_def)+
    with L I_t wait_done [OF t(2) s] show ?thesis by (simp add: I_def work_def unread_def)
  qed
  have I: "I c" using assms(1-3) exp todo stream unfolding I_def by blast
  have "retry ?m trilogy_sock_wait_read c \<noteq> None"
  proof (rule retry_ends [where I = I and f = work, OF I])
    fix s r t u
    assume "I s" "?m s = (r, t)" "is_again r" and w: "trilogy_sock_wait_read t = (Inr (), u)"
    with step have t: "I t" "work t < work s" by presburger+
    from wait [OF t(1) w] t(2) show "I u \<and> work u < work s" by linarith
  qed
  then have some: "retry ?m trilogy_sock_wait_read c = Some (r, c')" using run by (auto simp: until_done_def)
  then have "Q r c'"
  proof (rule retry_Some_rule [where I = I and Q = Q])
    show "I c" by (rule I)
    show "Q r t" if "I s" "?m s = (r, t)" "\<not> is_again r" for s r t using step [OF that(1,2)] that(3) by simp
    show "Q (Inl e) u" if "I s" "?m s = (r, t)" "is_again r" "trilogy_sock_wait_read t = (Inl e, u)" for s r t e u
      using step [OF that(1,2)] that(3) wait [OF _ that(4)] by auto
    show "I u" if "I s" "?m s = (r, t)" "is_again r" "trilogy_sock_wait_read t = (Inr (), u)" for s r t u
      using step [OF that(1,2)] that(3) wait [OF _ that(4)] by auto
  qed
  with some show ?thesis unfolding Q_def by blast
qed

text \<open>The packet buffer is written.\<close>

lemma flush_done:
  assumes "buffer_ok (packet_buffer c)" and "packet_buffer_written c \<le> buf_len (packet_buffer c)"
    and "uses c" and live: "live (outside c)" and "trilogy_flush_writes c = (r, c')"
  shows "r = Inr () \<or> r = Inl (Rc TRILOGY_AGAIN)"
  using assms(1,2,3,5)
proof (cases rule: flush_step)
  case (failed e w)
  with write_done [OF live failed(1)] show ?thesis by simp
qed auto

lemma wait_write_done:
  assumes "uses c" and "live (outside c)" and "trilogy_sock_wait_write c = (r, c')"
  shows "r = Inr ()"
proof -
  obtain w where "wt TRILOGY_WAIT_WRITE (outside c) = (r, w)"
    using assms(1,3) by (auto simp: uses_def trilogy_sock_wait_write_def with_socket_def split: prod.splits)
  with wait_done [OF assms(2)] show ?thesis by blast
qed

lemma flush_loop_done:
  assumes "buffer_ok (packet_buffer c)" and "packet_buffer_written c \<le> buf_len (packet_buffer c)"
    and "uses c" and "live (outside c)"
    and run: "until_done trilogy_flush_writes trilogy_sock_wait_write c = (r, c')"
  shows "r = Inr () \<and> live (outside c')"
proof -
  define I where "I d \<longleftrightarrow> buffer_ok (packet_buffer d) \<and> packet_buffer_written d \<le> buf_len (packet_buffer d)
      \<and> uses d \<and> live (outside d)" for d
  have step: "(r = Inr () \<or> r = Inl (Rc TRILOGY_AGAIN)) \<and> I t" if "I s" "trilogy_flush_writes s = (r, t)" for s r t
  proof -
    have s: "buffer_ok (packet_buffer s)" "packet_buffer_written s \<le> buf_len (packet_buffer s)" "uses s" "live (outside s)"
      using that(1) by (simp_all add: I_def)
    have m: "moved s t" using flush_cases [OF s(1-3) that(2)] by blast
    from flush_done [OF s that(2)] flush_live [OF s that(2)] moved_frame [OF m] m s show ?thesis
      by (simp add: I_def moved_def)
  qed
  have wait: "w = Inr () \<and> I u" if "I t" "trilogy_sock_wait_write t = (w, u)" for t w u
  proof -
    have t: "uses t" "live (outside t)" using that(1) by (simp_all add: I_def)
    note W = wait_write_live [OF t that(2)]
    then have u: "u = t\<lparr>outside := outside u\<rparr>" by blast
    have "uses u = uses t" "packet_buffer u = packet_buffer t" "packet_buffer_written u = packet_buffer_written t"
      by (subst u, simp add: uses_def)+
    with W that(1) wait_write_done [OF t that(2)] show ?thesis by (simp add: I_def)
  qed
  have "r \<noteq> Inl Hang" using flush_loop_ends [OF assms] by blast
  moreover have "r = Inr () \<and> I c' \<or> r = Inl Hang"
    using run
  proof (rule until_done_rule [where I = I and Q = "\<lambda>r t. r = Inr () \<and> I t \<or> r = Inl Hang"])
    show "I c" using assms(1-4) by (simp add: I_def)
    show "r = Inr () \<and> I t \<or> r = Inl Hang" if "I s" "trilogy_flush_writes s = (r, t)" "\<not> is_again r" for s r t
      using step [OF that(1,2)] that(3) by auto
    show "Inl e = Inr () \<and> I u \<or> Inl e = Inl Hang"
      if "I s" "trilogy_flush_writes s = (r, t)" "trilogy_sock_wait_write t = (Inl e, u)" for s r t e u
      using step [OF that(1,2)] wait [OF _ that(3)] by blast
    show "I u" if "I s" "trilogy_flush_writes s = (r, t)" "trilogy_sock_wait_write t = (Inr (), u)" for s r t u
      using step [OF that(1,2)] wait [OF _ that(3)] by blast
  qed simp
  ultimately show ?thesis by (auto simp: I_def)
qed

end

end
