(* ===== verification/Client.thy ===== *)
theory Client
  imports Connection
begin

text \<open>
  The non-blocking interface of \<^verbatim>\<open>src/client.c\<close>: one function that sends and one that receives for
  each command, the handling of the packets a server answers with, and the life of a
  connection. A function that fails returns its code as \<open>Inl (Rc code)\<close> and keeps the changes it
  has made to the connection; its results are the value on \<^verbatim>\<open>TRILOGY_OK\<close>. An out parameter that is
  assigned together with another code is a second component of the state.
\<close>

section \<open>The packet in the buffer\<close>

definition current_packet_type :: "('w trilogy_conn, nat) op" where
  "current_packet_type = (\<lambda>c.
     case buf_mem (packet_buffer c) of
       Some (b # _) \<Rightarrow> (Inr (unat b), c)
     | _ \<Rightarrow> (Inl Fault, c))"

text \<open>Run a parser on the packet in the buffer.\<close>

definition parse_packet :: "(u8 list \<Rightarrow> size_t \<Rightarrow> stop + 'a) \<Rightarrow> ('w trilogy_conn, 'a) op" where
  "parse_packet f = (\<lambda>c.
     case buf_mem (packet_buffer c) of
       None \<Rightarrow> (Inl Fault, c)
     | Some mem \<Rightarrow> (f mem (buf_len (packet_buffer c)), c))"

abbreviation packet_is :: "nat \<Rightarrow> TRILOGY_PACKET_TYPE_t \<Rightarrow> bool" where
  "packet_is t ty \<equiv> t = packet_type_code ty"

section \<open>Responses\<close>

definition set_error :: "trilogy_err_packet \<Rightarrow> 'w trilogy_conn \<Rightarrow> 'w trilogy_conn" where
  "set_error packet c = c\<lparr>error_code := err_error_code packet, error_message := err_error_message packet\<rparr>"

definition read_ok_packet :: "('w trilogy_conn, unit) op" where
  "read_ok_packet =
     checked get_state (\<lambda>c.
     checked (parse_packet (\<lambda>buff len. trilogy_parse_ok_packet buff len (capabilities c))) (\<lambda>ok_packet.
     checked (if has_capability (capabilities c) TRILOGY_CAPABILITIES_PROTOCOL_41
              then put_state (\<lambda>c. c\<lparr>warning_count := ok_warning_count ok_packet,
                                    server_status := ok_status_flags ok_packet\<rparr>)
              else ret ()) (\<lambda>_.
     checked (put_state (\<lambda>c. c\<lparr>affected_rows := ok_affected_rows ok_packet,
                               last_insert_id := ok_last_insert_id ok_packet\<rparr>)) (\<lambda>_.
     if 0 < length (ok_last_gtid ok_packet) \<and> length (ok_last_gtid ok_packet) < TRILOGY_MAX_LAST_GTID_LEN
     then put_state (\<lambda>c. c\<lparr>last_gtid := blit 0 (ok_last_gtid ok_packet) (last_gtid c),
                           last_gtid_len := word_of_nat (length (ok_last_gtid ok_packet))\<rparr>)
     else ret ()))))"

definition read_err_packet :: "('w trilogy_conn, 'a) op" where
  "read_err_packet =
     checked get_state (\<lambda>c.
     checked (parse_packet (\<lambda>buff len. trilogy_parse_err_packet buff len (capabilities c))) (\<lambda>err_packet.
     checked (put_state (set_error err_packet)) (\<lambda>_. throw TRILOGY_ERR)))"

definition read_deprecated_eof_packet :: "('w trilogy_conn, unit) op" where
  "read_deprecated_eof_packet =
     checked get_state (\<lambda>c.
     checked (parse_packet (\<lambda>buff len. trilogy_parse_eof_packet buff len (capabilities c))) (\<lambda>eof_packet.
     checked (if has_capability (capabilities c) TRILOGY_CAPABILITIES_PROTOCOL_41
              then put_state (\<lambda>c. c\<lparr>warning_count := eof_warning_count eof_packet,
                                    server_status := eof_status_flags eof_packet\<rparr>)
              else ret ()) (\<lambda>_.
     throw TRILOGY_EOF)))"

text \<open>A result that is turned into \<^verbatim>\<open>TRILOGY_OK\<close>.\<close>

definition accepting :: "trilogy_rc \<Rightarrow> ('s, unit) op \<Rightarrow> ('s, unit) op" where
  "accepting e m = (\<lambda>s. case m s of (r, s') \<Rightarrow> (if r = Inl (Rc e) then Inr () else r, s'))"

definition read_eof_packet :: "('w trilogy_conn, unit) op" where
  "read_eof_packet =
     checked get_state (\<lambda>c.
     if has_capability (capabilities c) TRILOGY_CAPABILITIES_DEPRECATE_EOF then read_ok_packet
     else accepting TRILOGY_EOF read_deprecated_eof_packet)"

definition handle_generic_response :: "('w trilogy_conn, unit) op" where
  "handle_generic_response =
     checked current_packet_type (\<lambda>t.
     if packet_is t TRILOGY_PACKET_OK then read_ok_packet
     else if packet_is t TRILOGY_PACKET_ERR then read_err_packet
     else throw TRILOGY_UNEXPECTED_PACKET)"

definition read_generic_response :: "allocator \<Rightarrow> ('w trilogy_conn, unit) op" where
  "read_generic_response alloc = checked (read_packet alloc) (\<lambda>_. handle_generic_response)"

section \<open>Connecting\<close>

definition trilogy_connect_send_socket :: "'w trilogy_sock \<Rightarrow> ('w trilogy_conn, unit) op" where
  "trilogy_connect_send_socket sock =
     checked (\<lambda>c. case connect_cb sock (outside c) of (r, w) \<Rightarrow> (r, c\<lparr>outside := w\<rparr>)) (\<lambda>_.
     put_state (\<lambda>c. c\<lparr>socket := Some sock,
                      packet_parser := (packet_parser c)\<lparr>sequence_number := 0\<rparr>\<rparr>))"

definition trilogy_connect_recv :: "allocator \<Rightarrow> trilogy_handshake \<Rightarrow> ('w trilogy_conn, trilogy_handshake) op" where
  "trilogy_connect_recv alloc handshake_out =
     checked (read_packet alloc) (\<lambda>_.
     checked current_packet_type (\<lambda>t.
     if packet_is t TRILOGY_PACKET_ERR then read_err_packet
     else
       checked (parse_packet (\<lambda>buff len. trilogy_parse_handshake_packet buff len handshake_out)) (\<lambda>handshake.
       checked (put_state (\<lambda>c. c\<lparr>capabilities := hs_capabilities handshake,
                                 server_status := hs_server_status handshake\<rparr>)) (\<lambda>_.
       ret handshake))))"

text \<open>The password that the options describe; a builder reads \<^verbatim>\<open>password_len\<close> bytes of it.\<close>

definition password_bytes :: "trilogy_sockopt \<Rightarrow> ('s, u8 list) op" where
  "password_bytes opts =
     (if opt_password_len opts = 0 then ret []
      else case opt_password opts of
        None \<Rightarrow> halt Fault
      | Some p \<Rightarrow> if unat (opt_password_len opts) \<le> length p then ret (take (unat (opt_password_len opts)) p)
                  else halt Fault)"

definition parser_sequence :: "('w trilogy_conn, u8) op" where
  "parser_sequence = checked get_state (\<lambda>c. ret (sequence_number (packet_parser c)))"

definition trilogy_auth_send ::
  "(u8 list \<Rightarrow> u8 list) \<Rightarrow> (u8 list \<Rightarrow> u8 list) \<Rightarrow> allocator \<Rightarrow> trilogy_handshake \<Rightarrow> ('w trilogy_conn, unit) op" where
  "trilogy_auth_send sha1 sha256 alloc handshake =
     checked parser_sequence (\<lambda>seq.
     checked (begin_command_phase alloc seq) (\<lambda>builder.
     checked socket_opts (\<lambda>opts.
     checked (password_bytes opts) (\<lambda>pass.
     checked (with_builder builder
                (trilogy_build_auth_packet sha1 sha256 alloc (opt_username opts) pass (opt_database opts)
                   (uint (opt_encoding opts)) (hs_auth_plugin handshake) (hs_scramble handshake) (opt_flags opts))) (\<lambda>_.
     begin_write)))))"

definition trilogy_ssl_request_send :: "allocator \<Rightarrow> ('w trilogy_conn, unit) op" where
  "trilogy_ssl_request_send alloc =
     checked parser_sequence (\<lambda>seq.
     checked (begin_command_phase alloc seq) (\<lambda>builder.
     checked (set_socket_opts (\<lambda>opts. opts\<lparr>opt_flags := opt_flags opts OR capability TRILOGY_CAPABILITIES_SSL\<rparr>)) (\<lambda>_.
     checked socket_opts (\<lambda>opts.
     checked (with_builder builder
                (trilogy_build_ssl_request_packet alloc (opt_flags opts) (uint (opt_encoding opts)))) (\<lambda>_.
     begin_write)))))"

definition trilogy_auth_switch_send ::
  "(u8 list \<Rightarrow> u8 list) \<Rightarrow> (u8 list \<Rightarrow> u8 list) \<Rightarrow> allocator \<Rightarrow> trilogy_handshake \<Rightarrow> ('w trilogy_conn, unit) op" where
  "trilogy_auth_switch_send sha1 sha256 alloc handshake =
     checked parser_sequence (\<lambda>seq.
     checked (begin_command_phase alloc seq) (\<lambda>builder.
     checked socket_opts (\<lambda>opts.
     checked (password_bytes opts) (\<lambda>pass.
     checked (with_builder builder
                (trilogy_build_auth_switch_response_packet sha1 sha256 alloc pass (hs_auth_plugin handshake)
                   (hs_scramble handshake) (opt_enable_cleartext_plugin opts))) (\<lambda>_.
     begin_write)))))"

definition trilogy_auth_clear_password :: "('w trilogy_conn, unit) op" where
  "trilogy_auth_clear_password =
     checked socket_opts (\<lambda>opts.
     case opt_password opts of
       None \<Rightarrow> ret ()
     | Some p \<Rightarrow>
         if unat (opt_password_len opts) > length p then halt Fault
         else set_socket_opts (\<lambda>opts. opts\<lparr>opt_password :=
                Some (blit 0 (replicate (unat (opt_password_len opts)) 0) p)\<rparr>))"

section \<open>The answer to an authentication\<close>

text \<open>
  \<^verbatim>\<open>trilogy_auth_recv\<close> changes the connection and the handshake of the caller. \<open>local\<close> stands for
  what its local packet structure holds before the parser fills it.
\<close>

abbreviation on_conn :: "('w trilogy_conn, 'a) op \<Rightarrow> ('w trilogy_conn \<times> 'x, 'a) op" where
  "on_conn \<equiv> on_part fst (\<lambda>c (_, x). (c, x))"

definition put_out :: "'x \<Rightarrow> ('w trilogy_conn \<times> 'x, unit) op" where
  "put_out x = put_state (\<lambda>(c, _). (c, x))"

definition read_auth_switch_packet ::
  "trilogy_auth_switch_request_packet \<Rightarrow> ('w trilogy_conn \<times> trilogy_handshake, unit) op" where
  "read_auth_switch_packet local =
     checked get_state (\<lambda>(c, handshake).
     checked (on_conn (parse_packet (\<lambda>buff len.
       trilogy_parse_auth_switch_request_packet buff len (capabilities c) local))) (\<lambda>packet.
     checked
       (if_plugin ''mysql_native_password'' (switch_auth_plugin packet) (ret ())
         (if_plugin ''caching_sha2_password'' (switch_auth_plugin packet) (ret ())
           (if_plugin ''mysql_clear_password'' (switch_auth_plugin packet) (ret ())
             (throw TRILOGY_PROTOCOL_VIOLATION)))) (\<lambda>_.
     checked (put_out (handshake\<lparr>hs_auth_plugin := switch_auth_plugin packet,
                                 hs_scramble := switch_scramble packet\<rparr>)) (\<lambda>_.
     throw TRILOGY_AUTH_SWITCH))))"

definition FAST_AUTH_OK :: u8 where "FAST_AUTH_OK = 3"
definition FAST_AUTH_FAIL :: u8 where "FAST_AUTH_FAIL = 4"

text \<open>Go on with \<open>k\<close> when \<open>m\<close> reports \<^verbatim>\<open>TRILOGY_AGAIN\<close>.\<close>

definition on_again :: "('s, unit) op \<Rightarrow> ('s, unit) op \<Rightarrow> ('s, unit) op" where
  "on_again m k = (\<lambda>s. case m s of (r, s') \<Rightarrow> if is_again r then k s' else (r, s'))"

text \<open>The second byte of the packet, which the code reads without a look at the length.\<close>

definition second_byte :: "('w trilogy_conn, u8) op" where
  "second_byte = (\<lambda>c.
     case buf_mem (packet_buffer c) of
       Some (_ # b # _) \<Rightarrow> (Inr b, c)
     | _ \<Rightarrow> (Inl Fault, c))"

text \<open>Send the password in the clear, over the transport that was found to be safe.\<close>

definition send_clear_password :: "allocator \<Rightarrow> ('w trilogy_conn, unit) op" where
  "send_clear_password alloc =
     checked parser_sequence (\<lambda>seq.
     checked (begin_command_phase alloc seq) (\<lambda>builder.
     checked socket_opts (\<lambda>opts.
     checked (password_bytes opts) (\<lambda>pass.
     checked (with_builder builder (trilogy_build_auth_clear_password alloc pass (opt_password_len opts))) (\<lambda>_.
     on_again begin_write
       (checked trilogy_sock_wait_write (\<lambda>_. until_done trilogy_flush_writes trilogy_sock_wait_write)))))))"

definition auth_more_data :: "allocator \<Rightarrow> ('w trilogy_conn, unit) op" where
  "auth_more_data alloc =
     checked socket_opts (\<lambda>opts.
     let use_ssl = has_capability (opt_flags opts) TRILOGY_CAPABILITIES_SSL;
         has_unix_socket = (opt_path opts \<noteq> None)
     in if \<not> use_ssl \<and> \<not> has_unix_socket then throw TRILOGY_UNSUPPORTED
        else
          checked second_byte (\<lambda>byte.
          checked (if byte = FAST_AUTH_OK then ret ()
                   else if byte = FAST_AUTH_FAIL then send_clear_password alloc
                   else throw TRILOGY_UNEXPECTED_PACKET) (\<lambda>_.
          checked (until_done (read_packet alloc) trilogy_sock_wait_read) (\<lambda>_.
          checked trilogy_auth_clear_password (\<lambda>_.
          handle_generic_response)))))"

definition trilogy_auth_recv ::
  "allocator \<Rightarrow> trilogy_auth_switch_request_packet \<Rightarrow> ('w trilogy_conn \<times> trilogy_handshake, unit) op" where
  "trilogy_auth_recv alloc local =
     checked (on_conn (read_packet alloc)) (\<lambda>_.
     checked (on_conn current_packet_type) (\<lambda>t.
     if packet_is t TRILOGY_PACKET_AUTH_MORE_DATA then on_conn (auth_more_data alloc)
     else if packet_is t TRILOGY_PACKET_EOF then read_auth_switch_packet local
     else on_conn (checked trilogy_auth_clear_password (\<lambda>_. handle_generic_response))))"

section \<open>Commands\<close>

definition trilogy_change_db_send :: "allocator \<Rightarrow> u8 list \<Rightarrow> size_t \<Rightarrow> ('w trilogy_conn, unit) op" where
  "trilogy_change_db_send alloc name name_len =
     checked (begin_command_phase alloc 0) (\<lambda>builder.
     checked (with_builder builder (trilogy_build_change_db_packet alloc name name_len)) (\<lambda>_.
     begin_write))"

definition trilogy_change_db_recv :: "allocator \<Rightarrow> ('w trilogy_conn, unit) op" where
  "trilogy_change_db_recv alloc = read_generic_response alloc"

definition trilogy_set_option_send :: "allocator \<Rightarrow> u16 \<Rightarrow> ('w trilogy_conn, unit) op" where
  "trilogy_set_option_send alloc option =
     checked (begin_command_phase alloc 0) (\<lambda>builder.
     checked (with_builder builder (trilogy_build_set_option_packet alloc option)) (\<lambda>_.
     begin_write))"

definition trilogy_set_option_recv :: "allocator \<Rightarrow> ('w trilogy_conn, unit) op" where
  "trilogy_set_option_recv alloc =
     checked (read_packet alloc) (\<lambda>_.
     checked current_packet_type (\<lambda>t.
     if packet_is t TRILOGY_PACKET_OK \<or> packet_is t TRILOGY_PACKET_EOF then read_ok_packet
     else if packet_is t TRILOGY_PACKET_ERR then read_err_packet
     else throw TRILOGY_UNEXPECTED_PACKET))"

definition trilogy_ping_send :: "allocator \<Rightarrow> ('w trilogy_conn, unit) op" where
  "trilogy_ping_send alloc =
     checked (begin_command_phase alloc 0) (\<lambda>builder.
     checked (with_builder builder (trilogy_build_ping_packet alloc)) (\<lambda>_.
     begin_write))"

definition trilogy_ping_recv :: "allocator \<Rightarrow> ('w trilogy_conn, unit) op" where
  "trilogy_ping_recv alloc = read_generic_response alloc"

definition trilogy_query_send :: "allocator \<Rightarrow> u8 list \<Rightarrow> size_t \<Rightarrow> ('w trilogy_conn, unit) op" where
  "trilogy_query_send alloc query query_len =
     checked (begin_command_phase alloc 0) (\<lambda>builder.
     checked (with_builder builder (trilogy_build_query_packet alloc query query_len)) (\<lambda>builder.
     checked (put_state (\<lambda>c. c\<lparr>packet_parser := (packet_parser c)\<lparr>sequence_number := bld_seq builder\<rparr>\<rparr>)) (\<lambda>_.
     begin_write)))"

text \<open>The switch on the type of the answer.\<close>

definition query_response :: "('w trilogy_conn \<times> u64, unit) op" where
  "query_response =
     checked (on_conn current_packet_type) (\<lambda>t.
     if packet_is t TRILOGY_PACKET_OK then on_conn read_ok_packet
     else if packet_is t TRILOGY_PACKET_ERR then on_conn read_err_packet
     else
       checked (on_conn (parse_packet trilogy_parse_result_packet)) (\<lambda>result_packet.
       checked (on_conn (put_state (\<lambda>c. c\<lparr>column_count := res_column_count result_packet,
                                          started_reading_rows := False\<rparr>))) (\<lambda>_.
       checked (put_out (res_column_count result_packet)) (\<lambda>_.
       throw TRILOGY_HAVE_RESULTS))))"

definition trilogy_query_recv :: "allocator \<Rightarrow> ('w trilogy_conn \<times> u64, unit) op" where
  "trilogy_query_recv alloc = checked (on_conn (read_packet alloc)) (\<lambda>_. query_response)"

section \<open>Results\<close>

definition trilogy_read_column :: "allocator \<Rightarrow> ('w trilogy_conn, trilogy_column_packet) op" where
  "trilogy_read_column alloc =
     checked (read_packet alloc) (\<lambda>_.
     parse_packet (\<lambda>buff len. trilogy_parse_column_packet buff len False))"

definition read_eof :: "allocator \<Rightarrow> ('w trilogy_conn, unit) op" where
  "read_eof alloc = checked (read_packet alloc) (\<lambda>_. read_eof_packet)"

text \<open>The packet after the last row: an EOF or OK packet with the EOF marker, shorter than 9 bytes.\<close>

definition ends_rows :: "nat \<Rightarrow> 'w trilogy_conn \<Rightarrow> bool" where
  "ends_rows t c \<longleftrightarrow> packet_is t TRILOGY_PACKET_EOF \<and> buf_len (packet_buffer c) < 9"

definition row_response :: "trilogy_value list \<Rightarrow> ('w trilogy_conn, trilogy_value list) op" where
  "row_response values_out =
     checked current_packet_type (\<lambda>t.
     checked get_state (\<lambda>c.
     if ends_rows t c then checked read_eof_packet (\<lambda>_. throw TRILOGY_EOF)
     else if packet_is t TRILOGY_PACKET_ERR then read_err_packet
     else parse_packet (\<lambda>buff len. trilogy_parse_row_packet buff len (column_count c) values_out)))"

definition trilogy_read_row :: "allocator \<Rightarrow> trilogy_value list \<Rightarrow> ('w trilogy_conn, trilogy_value list) op" where
  "trilogy_read_row alloc values_out =
     checked get_state (\<lambda>c.
     checked (if \<not> started_reading_rows c then
                checked (if \<not> has_capability (capabilities c) TRILOGY_CAPABILITIES_DEPRECATE_EOF
                         then read_eof alloc else ret ()) (\<lambda>_.
                put_state (\<lambda>c. c\<lparr>started_reading_rows := True\<rparr>))
              else ret ()) (\<lambda>_.
     checked (read_packet alloc) (\<lambda>_. row_response values_out)))"

text \<open>
  The loop over the rows that are thrown away returns at the first code, \<^verbatim>\<open>TRILOGY_AGAIN\<close> included;
  it does not end while the socket goes on to deliver rows.
\<close>

partial_function (option) drain_rows ::
  "allocator \<Rightarrow> 'w trilogy_conn \<Rightarrow> ((stop + unit) \<times> 'w trilogy_conn) option" where
  "drain_rows alloc c =
     (case checked (read_packet alloc) (\<lambda>_. current_packet_type) c of (r, c') \<Rightarrow>
        (case r of
           Inl e \<Rightarrow> Some (Inl e, c')
         | Inr t \<Rightarrow> if ends_rows t c' then Some (Inr (), c') else drain_rows alloc c'))"

definition trilogy_drain_results :: "allocator \<Rightarrow> ('w trilogy_conn, unit) op" where
  "trilogy_drain_results alloc =
     checked get_state (\<lambda>c.
     checked (if \<not> started_reading_rows c then
                checked (read_eof alloc) (\<lambda>_. put_state (\<lambda>c. c\<lparr>started_reading_rows := True\<rparr>))
              else ret ()) (\<lambda>_ c.
     case drain_rows alloc c of None \<Rightarrow> (Inl Hang, c) | Some x \<Rightarrow> x))"

section \<open>Closing\<close>

definition trilogy_close_send :: "allocator \<Rightarrow> ('w trilogy_conn, unit) op" where
  "trilogy_close_send alloc =
     checked (begin_command_phase alloc 0) (\<lambda>builder.
     checked (with_builder builder (trilogy_build_quit_packet alloc)) (\<lambda>_.
     begin_write))"

definition trilogy_close_recv :: "allocator \<Rightarrow> ('w trilogy_conn, unit) op" where
  "trilogy_close_recv alloc =
     checked (ignored trilogy_sock_shutdown) (\<lambda>_ c.
     case read_packet alloc c of (r, c') \<Rightarrow>
       (case r of
          Inl (Rc TRILOGY_CLOSED_CONNECTION) \<Rightarrow> (Inr (), c')
        | Inr _ \<Rightarrow> (Inl (Rc TRILOGY_PROTOCOL_VIOLATION), c')
        | Inl e \<Rightarrow> (Inl e, c')))"

definition trilogy_free :: "('w trilogy_conn, unit) op" where
  "trilogy_free =
     checked get_state (\<lambda>c.
     checked (if socket c \<noteq> None
              then checked (ignored trilogy_sock_close) (\<lambda>_. put_state (\<lambda>c. c\<lparr>socket := None\<rparr>))
              else ret ()) (\<lambda>_.
     put_state (\<lambda>c. c\<lparr>packet_buffer := trilogy_buffer_free (packet_buffer c)\<rparr>)))"

definition trilogy_discard :: "('w trilogy_conn, unit) op" where
  "trilogy_discard = checked trilogy_sock_shutdown (\<lambda>_. trilogy_free)"

section \<open>Prepared statements\<close>

definition trilogy_stmt_prepare_send :: "allocator \<Rightarrow> u8 list \<Rightarrow> size_t \<Rightarrow> ('w trilogy_conn, unit) op" where
  "trilogy_stmt_prepare_send alloc stmt stmt_len =
     checked (begin_command_phase alloc 0) (\<lambda>builder.
     checked (with_builder builder (trilogy_build_stmt_prepare_packet alloc stmt stmt_len)) (\<lambda>_.
     begin_write))"

definition trilogy_stmt_prepare_recv :: "allocator \<Rightarrow> ('w trilogy_conn, trilogy_stmt_ok_packet) op" where
  "trilogy_stmt_prepare_recv alloc =
     checked (read_packet alloc) (\<lambda>_.
     checked current_packet_type (\<lambda>t.
     if packet_is t TRILOGY_PACKET_OK then
       checked (parse_packet trilogy_parse_stmt_ok_packet) (\<lambda>stmt.
       checked (put_state (\<lambda>c. c\<lparr>warning_count := stmt_ok_warning_count stmt\<rparr>)) (\<lambda>_.
       ret stmt))
     else if packet_is t TRILOGY_PACKET_ERR then read_err_packet
     else throw TRILOGY_UNEXPECTED_PACKET))"

definition trilogy_stmt_execute_send ::
  "allocator \<Rightarrow> trilogy_stmt_ok_packet \<Rightarrow> u8 \<Rightarrow> trilogy_binary_value list option \<Rightarrow> ('w trilogy_conn, unit) op" where
  "trilogy_stmt_execute_send alloc stmt flags binds =
     checked (begin_command_phase alloc 0) (\<lambda>builder.
     checked (with_builder builder
       (trilogy_build_stmt_execute_packet alloc (stmt_ok_id stmt) flags binds (stmt_ok_parameter_count stmt))) (\<lambda>builder.
     checked (put_state (\<lambda>c. c\<lparr>packet_parser := (packet_parser c)\<lparr>sequence_number := bld_seq builder\<rparr>\<rparr>)) (\<lambda>_.
     begin_write)))"

definition trilogy_stmt_execute_recv :: "allocator \<Rightarrow> ('w trilogy_conn \<times> u64, unit) op" where
  "trilogy_stmt_execute_recv alloc =
     checked (on_conn (read_packet alloc)) (\<lambda>_.
     checked (on_conn current_packet_type) (\<lambda>t.
     if packet_is t TRILOGY_PACKET_OK then on_conn read_ok_packet
     else if packet_is t TRILOGY_PACKET_ERR then on_conn read_err_packet
     else
       checked (on_conn (parse_packet trilogy_parse_result_packet)) (\<lambda>result_packet.
       checked (on_conn (put_state (\<lambda>c. c\<lparr>column_count := res_column_count result_packet\<rparr>))) (\<lambda>_.
       put_out (res_column_count result_packet)))))"

definition trilogy_stmt_bind_data_send ::
  "allocator \<Rightarrow> trilogy_stmt_ok_packet \<Rightarrow> u16 \<Rightarrow> u8 list \<Rightarrow> size_t \<Rightarrow> ('w trilogy_conn, unit) op" where
  "trilogy_stmt_bind_data_send alloc stmt param_num data data_len =
     checked (begin_command_phase alloc 0) (\<lambda>builder.
     checked (with_builder builder
       (trilogy_build_stmt_bind_data_packet alloc (stmt_ok_id stmt) param_num data data_len)) (\<lambda>_.
     begin_write))"

definition trilogy_stmt_read_row ::
  "allocator \<Rightarrow> trilogy_stmt_ok_packet \<Rightarrow> trilogy_column_packet list \<Rightarrow> trilogy_binary_value list \<Rightarrow>
   ('w trilogy_conn, trilogy_binary_value list) op" where
  "trilogy_stmt_read_row alloc stmt columns values_out =
     checked (read_packet alloc) (\<lambda>_.
     checked current_packet_type (\<lambda>t.
     checked get_state (\<lambda>c.
     if ends_rows t c then checked read_eof_packet (\<lambda>_. throw TRILOGY_EOF)
     else if packet_is t TRILOGY_PACKET_ERR then read_err_packet
     else parse_packet (\<lambda>buff len.
            trilogy_parse_stmt_row_packet buff len columns (ucast (stmt_ok_column_count stmt)) values_out))))"

definition trilogy_stmt_reset_send :: "allocator \<Rightarrow> trilogy_stmt_ok_packet \<Rightarrow> ('w trilogy_conn, unit) op" where
  "trilogy_stmt_reset_send alloc stmt =
     checked (begin_command_phase alloc 0) (\<lambda>builder.
     checked (with_builder builder (trilogy_build_stmt_reset_packet alloc (stmt_ok_id stmt))) (\<lambda>_.
     begin_write))"

definition trilogy_stmt_reset_recv :: "allocator \<Rightarrow> ('w trilogy_conn, unit) op" where
  "trilogy_stmt_reset_recv alloc = read_generic_response alloc"

definition trilogy_stmt_close_send :: "allocator \<Rightarrow> trilogy_stmt_ok_packet \<Rightarrow> ('w trilogy_conn, unit) op" where
  "trilogy_stmt_close_send alloc stmt =
     checked (begin_command_phase alloc 0) (\<lambda>builder.
     checked (with_builder builder (trilogy_build_stmt_close_packet alloc (stmt_ok_id stmt))) (\<lambda>_.
     begin_write))"

end
