(* ===== verification/Socket.thy ===== *)
theory Socket
  imports Transport Client
begin

text \<open>
  The plain sockets of \<^verbatim>\<open>src/socket.c\<close>: the callbacks over a file descriptor, the connection to the
  first address that answers, and the handlers that replace them after a shutdown. The system
  calls are those of POSIX on one stream: a kernel holds the bytes that will arrive and those
  that were accepted, and a finite schedule of verdicts decides what happens to the next calls,
  each of which can fail with any error or transfer fewer bytes than asked; when the schedule
  is used up, calls succeed. The sockets meet the contract \<open>transport\<close>, whatever the schedule.
  The callbacks over OpenSSL are in the theory Tls.
\<close>

section \<open>System calls\<close>

datatype errno = EINTR | EAGAIN | EPIPE | EINPROGRESS | EBADF | Errno int

datatype verdict = Fails errno | Allows nat

record addrinfo =
  ai_family :: int
  ai_protocol :: int
  ai_addr :: "u8 list"

definition PF_UNIX :: int where "PF_UNIX = 1"

record kernel =
  schedule :: "verdict list"
  to_read :: "u8 list"
  written :: "u8 list"
  open_fds :: "int list"
  next_fd :: nat
  resolver :: "u8 list \<Rightarrow> u16 \<Rightarrow> addrinfo list option"

text \<open>A call that is to succeed or fail; the number is for the calls that transfer bytes.\<close>

definition syscall :: "kernel \<Rightarrow> (errno + nat option) \<times> kernel" where
  "syscall k =
     (case schedule k of
        [] \<Rightarrow> (Inr None, k)
      | Fails e # vs \<Rightarrow> (Inl e, k\<lparr>schedule := vs\<rparr>)
      | Allows m # vs \<Rightarrow> (Inr (Some m), k\<lparr>schedule := vs\<rparr>))"

definition at_most :: "nat option \<Rightarrow> nat \<Rightarrow> nat" where
  "at_most limit n = (case limit of None \<Rightarrow> n | Some m \<Rightarrow> min m n)"

text \<open>Linux transfers at most this many bytes in one call.\<close>

definition MAX_RW_COUNT :: nat where
  "MAX_RW_COUNT = 0x7ffff000"

definition sys_read :: "int \<Rightarrow> nat \<Rightarrow> kernel \<Rightarrow> (errno + u8 list) \<times> kernel" where
  "sys_read fd n k =
     (if fd \<notin> set (open_fds k) then (Inl EBADF, k)
      else case syscall k of
        (Inl e, k) \<Rightarrow> (Inl e, k)
      | (Inr limit, k) \<Rightarrow>
          let m = at_most limit (min n MAX_RW_COUNT)
          in (Inr (take m (to_read k)), k\<lparr>to_read := drop m (to_read k)\<rparr>))"

definition sys_write :: "int \<Rightarrow> u8 list \<Rightarrow> kernel \<Rightarrow> (errno + nat) \<times> kernel" where
  "sys_write fd bs k =
     (if fd \<notin> set (open_fds k) then (Inl EBADF, k)
      else case syscall k of
        (Inl e, k) \<Rightarrow> (Inl e, k)
      | (Inr limit, k) \<Rightarrow>
          let m = at_most limit (min (length bs) MAX_RW_COUNT)
          in (Inr m, k\<lparr>written := written k @ take m bs\<rparr>))"

text \<open>\<^verbatim>\<open>recv\<close> of one byte with \<^verbatim>\<open>MSG_PEEK\<close>: the number of bytes there.\<close>

definition sys_peek :: "int \<Rightarrow> kernel \<Rightarrow> (errno + nat) \<times> kernel" where
  "sys_peek fd k =
     (if fd \<notin> set (open_fds k) then (Inl EBADF, k)
      else case syscall k of (Inl e, k) \<Rightarrow> (Inl e, k) | (Inr _, k) \<Rightarrow> (Inr (min 1 (length (to_read k))), k))"

definition sys_socket :: "kernel \<Rightarrow> (errno + int) \<times> kernel" where
  "sys_socket k =
     (case syscall k of
        (Inl e, k) \<Rightarrow> (Inl e, k)
      | (Inr _, k) \<Rightarrow> (Inr (int (next_fd k)), k\<lparr>open_fds := int (next_fd k) # open_fds k, next_fd := next_fd k + 1\<rparr>))"

definition sys_close :: "int \<Rightarrow> kernel \<Rightarrow> (errno + unit) \<times> kernel" where
  "sys_close fd k =
     (if fd \<notin> set (open_fds k) then (Inl EBADF, k)
      else case syscall k of
        (Inl e, k) \<Rightarrow> (Inl e, k\<lparr>open_fds := removeAll fd (open_fds k)\<rparr>)
      | (Inr _, k) \<Rightarrow> (Inr (), k\<lparr>open_fds := removeAll fd (open_fds k)\<rparr>))"

section \<open>The socket\<close>

text \<open>
  \<^verbatim>\<open>struct trilogy_sock\<close> without its public part, which is the record of callbacks, and with
  the kernel. \<open>shut\<close> holds after \<^verbatim>\<open>_cb_raw_shutdown\<close> has replaced the handlers, \<open>sock_freed\<close> after the
  structure was freed.
\<close>

record raw_sock =
  sock_addr :: "addrinfo list option"
  sock_fd :: int
  shut :: bool
  sock_freed :: bool
  sys :: kernel

definition on_sys :: "(kernel \<Rightarrow> (errno + 'a) \<times> kernel) \<Rightarrow> (raw_sock, errno + 'a) op" where
  "on_sys f = (\<lambda>s. case f (sys s) of (r, k) \<Rightarrow> (Inr r, s\<lparr>sys := k\<rparr>))"

definition cb_raw_fd :: "(raw_sock, int) op" where
  "cb_raw_fd = (\<lambda>s. (Inr (sock_fd s), s))"

text \<open>
  \<^verbatim>\<open>poll\<close> on the descriptor, again while it is interrupted. A negative descriptor is ignored
  by \<^verbatim>\<open>poll\<close>, which then waits for ever.
\<close>

function poll_loop :: "kernel \<Rightarrow> (stop + unit) \<times> kernel" where
  "poll_loop k =
     (case syscall k of
        (Inl e, k') \<Rightarrow> if e = EINTR then poll_loop k' else (Inl (Rc TRILOGY_SYSERR), k')
      | (Inr _, k') \<Rightarrow> (Inr (), k'))"
  by pat_completeness auto
termination
  by (relation "measure (\<lambda>k. length (schedule k))")
    (auto simp: syscall_def split: list.splits verdict.splits)

declare poll_loop.simps [simp del]

definition cb_wait :: "trilogy_wait \<Rightarrow> (raw_sock, unit) op" where
  "cb_wait wait = (\<lambda>s.
     if sock_fd s < 0 then (Inl Hang, s)
     else case poll_loop (sys s) of (r, k) \<Rightarrow> (r, s\<lparr>sys := k\<rparr>))"

definition cb_raw_read :: "size_t \<Rightarrow> (raw_sock, u8 list) op" where
  "cb_raw_read nread =
     checked get_state (\<lambda>s.
     checked (on_sys (sys_read (sock_fd s) (unat nread))) (\<lambda>r.
     case r of
       Inl e \<Rightarrow> if e = EINTR \<or> e = EAGAIN then throw TRILOGY_AGAIN else throw TRILOGY_SYSERR
     | Inr bs \<Rightarrow> ret bs))"

definition cb_raw_write :: "u8 list \<Rightarrow> (raw_sock, size_t) op" where
  "cb_raw_write buf =
     checked get_state (\<lambda>s.
     checked (on_sys (sys_write (sock_fd s) buf)) (\<lambda>r.
     case r of
       Inl e \<Rightarrow> if e = EINTR \<or> e = EAGAIN then throw TRILOGY_AGAIN
                else if e = EPIPE then throw TRILOGY_CLOSED_CONNECTION else throw TRILOGY_SYSERR
     | Inr n \<Rightarrow> ret (word_of_nat n)))"

text \<open>
  Closing; the strings of the options and the structure are freed, so that closing it again is an
  access to freed memory. \<^verbatim>\<open>close\<close> answers \<open>-1\<close> for any error, which is \<^verbatim>\<open>TRILOGY_ERR\<close>.
\<close>

definition cb_raw_close :: "(raw_sock, unit) op" where
  "cb_raw_close =
     checked get_state (\<lambda>s.
     if sock_freed s then halt Fault
     else
       checked (if sock_fd s \<noteq> -1 then on_sys (sys_close (sock_fd s)) else ret (Inr ())) (\<lambda>rc.
       checked (put_state (\<lambda>s. s\<lparr>sock_addr := None, sock_freed := True\<rparr>)) (\<lambda>_.
       case rc of Inl _ \<Rightarrow> throw TRILOGY_ERR | Inr _ \<Rightarrow> ret ())))"

definition cb_raw_shutdown :: "(raw_sock, unit) op" where
  "cb_raw_shutdown =
     checked (put_state (\<lambda>s. s\<lparr>shut := True\<rparr>)) (\<lambda>_.
     checked get_state (\<lambda>s.
     checked (if sock_fd s \<noteq> -1 then checked (on_sys (sys_close (sock_fd s))) (\<lambda>_. ret ()) else ret ()) (\<lambda>_.
     put_state (\<lambda>s. s\<lparr>sock_fd := -1\<rparr>))))"

text \<open>The handlers that perform no action.\<close>

definition cb_shutdown_connect :: "(raw_sock, unit) op" where
  "cb_shutdown_connect = throw TRILOGY_CLOSED_CONNECTION"

definition cb_shutdown_write :: "u8 list \<Rightarrow> (raw_sock, size_t) op" where
  "cb_shutdown_write buf = throw TRILOGY_CLOSED_CONNECTION"

definition cb_shutdown_read :: "size_t \<Rightarrow> (raw_sock, u8 list) op" where
  "cb_shutdown_read nread = throw TRILOGY_CLOSED_CONNECTION"

definition cb_shutdown_wait :: "trilogy_wait \<Rightarrow> (raw_sock, unit) op" where
  "cb_shutdown_wait wait = ret ()"

definition cb_shutdown_shutdown :: "(raw_sock, unit) op" where
  "cb_shutdown_shutdown = ret ()"

section \<open>Connecting\<close>

text \<open>A call for its effect on the descriptor only.\<close>

definition step :: "(raw_sock, errno + unit) op" where
  "step = on_sys (\<lambda>k. case syscall k of (r, k) \<Rightarrow> (map_sum id (\<lambda>_. ()) r, k))"

definition set_nonblocking_fd :: "(raw_sock, unit) op" where
  "set_nonblocking_fd =
     checked step (\<lambda>r. case r of Inl _ \<Rightarrow> throw TRILOGY_SYSERR | Inr _ \<Rightarrow>
     checked step (\<lambda>r. case r of Inl _ \<Rightarrow> throw TRILOGY_SYSERR | Inr _ \<Rightarrow> ret ()))"

definition setsockopt :: "(raw_sock, unit) op" where
  "setsockopt = checked step (\<lambda>r. case r of Inl _ \<Rightarrow> throw TRILOGY_SYSERR | Inr _ \<Rightarrow> ret ())"

text \<open>
  What is done with the new descriptor: the options of the socket, the call of \<^verbatim>\<open>connect\<close>, the wait
  for it, and the result of the connection, which \<^verbatim>\<open>getsockopt\<close> stores and the last verdict gives.
  Any code leads to the label \<^verbatim>\<open>fail\<close> or \<^verbatim>\<open>failrc\<close>.
\<close>

definition raw_connect_steps :: "trilogy_sockopt \<Rightarrow> (raw_sock, unit) op" where
  "raw_connect_steps opts =
     checked get_state (\<lambda>s.
     checked (case sock_addr s of
                Some (first # _) \<Rightarrow> if ai_family first \<noteq> PF_UNIX then setsockopt else ret ()
              | _ \<Rightarrow> halt Fault) (\<lambda>_.
     checked (if opt_keepalive_enabled opts then
                checked setsockopt (\<lambda>_.
                checked (if opt_keepalive_idle opts > 0 then setsockopt else ret ()) (\<lambda>_.
                checked (if opt_keepalive_interval opts > 0 then setsockopt else ret ()) (\<lambda>_.
                if opt_keepalive_count opts > 0 then setsockopt else ret ())))
              else ret ()) (\<lambda>_.
     checked set_nonblocking_fd (\<lambda>_.
     checked step (\<lambda>r.
     checked (case r of
                Inl e \<Rightarrow> if e \<noteq> EINPROGRESS \<and> e \<noteq> EAGAIN then throw TRILOGY_SYSERR else ret ()
              | Inr _ \<Rightarrow> ret ()) (\<lambda>_.
     checked (cb_wait TRILOGY_WAIT_CONNECT) (\<lambda>_.
     checked setsockopt (\<lambda>_.
     checked (on_sys syscall) (\<lambda>sockerr.
     case sockerr of Inl _ \<Rightarrow> throw TRILOGY_SYSERR | Inr _ \<Rightarrow> ret ())))))))))"

definition raw_connect_internal :: "trilogy_sockopt \<Rightarrow> addrinfo \<Rightarrow> (raw_sock, unit) op" where
  "raw_connect_internal opts ai =
     checked (on_sys sys_socket) (\<lambda>fd.
     case fd of
       Inl _ \<Rightarrow> checked (put_state (\<lambda>s. s\<lparr>sock_fd := -1\<rparr>)) (\<lambda>_. throw TRILOGY_SYSERR)
     | Inr fd \<Rightarrow>
         checked (put_state (\<lambda>s. s\<lparr>sock_fd := fd\<rparr>)) (\<lambda>_ s.
         case raw_connect_steps opts s of
           (Inl (Rc rc), s) \<Rightarrow>
             checked (on_sys (sys_close (sock_fd s))) (\<lambda>_.
             checked (put_state (\<lambda>s. s\<lparr>sock_fd := -1\<rparr>)) (\<lambda>_. throw rc)) s
         | (r, s) \<Rightarrow> (r, s)))"

fun connect_loop :: "trilogy_sockopt \<Rightarrow> addrinfo list \<Rightarrow> (raw_sock, unit) op" where
  "connect_loop opts [] = throw TRILOGY_ERR"
| "connect_loop opts (ai # ais) = (\<lambda>s.
     case raw_connect_internal opts ai s of
       (Inr x, s) \<Rightarrow> (Inr x, s)
     | (Inl (Rc rc), s) \<Rightarrow> if ais = [] then (Inl (Rc rc), s) else connect_loop opts ais s
     | (Inl e, s) \<Rightarrow> (Inl e, s))"

definition cb_raw_connect :: "trilogy_sockopt \<Rightarrow> (raw_sock, unit) op" where
  "cb_raw_connect opts =
     checked get_state (\<lambda>s. connect_loop opts (case sock_addr s of None \<Rightarrow> [] | Some ais \<Rightarrow> ais))"

section \<open>The table of callbacks\<close>

text \<open>The handler that is installed: the raw one, or its stub after a shutdown.\<close>

definition handler :: "(raw_sock, 'a) op \<Rightarrow> (raw_sock, 'a) op \<Rightarrow> (raw_sock, 'a) op" where
  "handler raw stub = (\<lambda>s. if shut s then stub s else raw s)"

definition raw_socket :: "trilogy_sockopt \<Rightarrow> raw_sock trilogy_sock" where
  "raw_socket opts =
     \<lparr>connect_cb = handler (cb_raw_connect opts) cb_shutdown_connect,
      read_cb = (\<lambda>n. handler (cb_raw_read n) (cb_shutdown_read n)),
      write_cb = (\<lambda>bs. handler (cb_raw_write bs) (cb_shutdown_write bs)),
      wait_cb = (\<lambda>w. handler (cb_wait w) (cb_shutdown_wait w)),
      shutdown_cb = handler cb_raw_shutdown cb_shutdown_shutdown,
      close_cb = cb_raw_close,
      fd_cb = cb_raw_fd,
      sock_opts = opts\<rparr>"

definition strdupnullok :: "u8 list option \<Rightarrow> u8 list option" where
  "strdupnullok str = map_option (\<lambda>s. c_string s @ [0]) str"

definition copied_opts :: "trilogy_sockopt \<Rightarrow> trilogy_sockopt" where
  "copied_opts opts = opts\<lparr>
     opt_hostname := strdupnullok (opt_hostname opts), opt_path := strdupnullok (opt_path opts),
     opt_database := strdupnullok (opt_database opts), opt_username := strdupnullok (opt_username opts),
     opt_password := map_option (take (unat (opt_password_len opts))) (opt_password opts),
     opt_ssl_ca := strdupnullok (opt_ssl_ca opts), opt_ssl_capath := strdupnullok (opt_ssl_capath opts),
     opt_ssl_cert := strdupnullok (opt_ssl_cert opts), opt_ssl_cipher := strdupnullok (opt_ssl_cipher opts),
     opt_ssl_crl := strdupnullok (opt_ssl_crl opts), opt_ssl_crlpath := strdupnullok (opt_ssl_crlpath opts),
     opt_ssl_key := strdupnullok (opt_ssl_key opts), opt_tls_ciphersuites := strdupnullok (opt_tls_ciphersuites opts)\<rparr>"

text \<open>A new socket: its public part and its private one; allocation is taken to succeed.\<close>

definition new_socket :: "trilogy_sockopt \<Rightarrow> (raw_sock, raw_sock trilogy_sock) op" where
  "new_socket opts =
     checked (put_state (\<lambda>s. s\<lparr>sock_addr := None, sock_fd := -1, shut := False, sock_freed := False\<rparr>)) (\<lambda>_.
     ret (raw_socket (copied_opts opts)))"

definition trilogy_sock_new :: "trilogy_sockopt \<Rightarrow> (raw_sock, raw_sock trilogy_sock) op" where
  "trilogy_sock_new opts =
     (case opt_password opts of
        Some p \<Rightarrow> if unat (opt_password_len opts) > length p then halt Fault else new_socket opts
      | None \<Rightarrow> new_socket opts)"

text \<open>The room for the path in \<^verbatim>\<open>struct sockaddr_un\<close>.\<close>

definition SUN_PATH_SIZE :: nat where
  "SUN_PATH_SIZE = 108"

definition trilogy_sock_resolve :: "raw_sock trilogy_sock \<Rightarrow> (raw_sock, unit) op" where
  "trilogy_sock_resolve sock =
     (case opt_hostname (sock_opts sock) of
        Some host \<Rightarrow>
          checked get_state (\<lambda>s.
          case resolver (sys s) (c_string host) (opt_port (sock_opts sock)) of
            None \<Rightarrow> throw TRILOGY_DNS_ERR
          | Some ais \<Rightarrow> put_state (\<lambda>s. s\<lparr>sock_addr := Some ais\<rparr>))
      | None \<Rightarrow>
          (case opt_path (sock_opts sock) of
             Some path \<Rightarrow>
               if length (c_string path) + 1 > SUN_PATH_SIZE
               then checked (ignored cb_raw_close) (\<lambda>_. throw TRILOGY_ERR)
               else put_state (\<lambda>s. s\<lparr>sock_addr := Some
                      [\<lparr>ai_family = PF_UNIX, ai_protocol = 0, ai_addr = c_string path @ [0]\<rparr>]\<rparr>)
           | None \<Rightarrow> checked (ignored cb_raw_close) (\<lambda>_. throw TRILOGY_ERR)))"

function check_loop :: "int \<Rightarrow> kernel \<Rightarrow> (stop + unit) \<times> kernel" where
  "check_loop fd k =
     (case sys_peek fd k of
        (Inr n, k') \<Rightarrow> if n > 0 then (Inr (), k') else (Inl (Rc TRILOGY_CLOSED_CONNECTION), k')
      | (Inl e, k') \<Rightarrow>
          if e = EINTR then check_loop fd k'
          else if e = EAGAIN then (Inr (), k') else (Inl (Rc TRILOGY_SYSERR), k'))"
  by pat_completeness auto
termination
  by (relation "measure (\<lambda>(_, k). length (schedule k))")
    (auto simp: sys_peek_def syscall_def split: if_splits list.splits verdict.splits)

declare check_loop.simps [simp del]

definition trilogy_sock_check :: "(raw_sock, unit) op" where
  "trilogy_sock_check = (\<lambda>s. case check_loop (sock_fd s) (sys s) of (r, k) \<Rightarrow> (r, s\<lparr>sys := k\<rparr>))"

text \<open>\<^verbatim>\<open>trilogy_connect_send\<close> of \<^verbatim>\<open>src/client.c\<close>, which makes the socket.\<close>

definition trilogy_connect_send :: "trilogy_sockopt \<Rightarrow> (raw_sock trilogy_conn, unit) op" where
  "trilogy_connect_send opts =
     checked (on_part outside (\<lambda>w c. c\<lparr>outside := w\<rparr>) (trilogy_sock_new opts)) (\<lambda>sock.
     checked (on_part outside (\<lambda>w c. c\<lparr>outside := w\<rparr>) (trilogy_sock_resolve sock)) (\<lambda>_.
     trilogy_connect_send_socket sock))"

section \<open>They are stream sockets\<close>

abbreviation raw_read :: "size_t \<Rightarrow> (raw_sock, u8 list) op" where
  "raw_read n \<equiv> handler (cb_raw_read n) (cb_shutdown_read n)"

abbreviation raw_write :: "u8 list \<Rightarrow> (raw_sock, size_t) op" where
  "raw_write bs \<equiv> handler (cb_raw_write bs) (cb_shutdown_write bs)"

abbreviation raw_wait :: "trilogy_wait \<Rightarrow> (raw_sock, unit) op" where
  "raw_wait w \<equiv> handler (cb_wait w) (cb_shutdown_wait w)"

lemma raw_socket_callbacks [simp]:
  "read_cb (raw_socket opts) = raw_read" "write_cb (raw_socket opts) = raw_write" "wait_cb (raw_socket opts) = raw_wait"
  by (simp_all add: raw_socket_def)

lemma syscall_keeps:
  assumes "syscall k = (r, k')"
  shows "to_read k' = to_read k \<and> written k' = written k \<and> open_fds k' = open_fds k \<and> next_fd k' = next_fd k
    \<and> length (schedule k') \<le> length (schedule k) \<and> (r \<noteq> Inr None \<longrightarrow> length (schedule k') < length (schedule k))"
  using assms by (auto simp: syscall_def split: list.splits verdict.splits)

lemma sys_read_cases:
  assumes "sys_read fd n k = (r, k')"
  shows "written k' = written k \<and> length (schedule k') \<le> length (schedule k)
    \<and> (case r of Inl e \<Rightarrow> to_read k' = to_read k \<and> (e \<noteq> EBADF \<longrightarrow> length (schedule k') < length (schedule k))
       | Inr bs \<Rightarrow> length bs \<le> n \<and> to_read k = bs @ to_read k')"
  using assms syscall_keeps [of k]
  by (fastforce simp: sys_read_def at_most_def Let_def split: if_splits prod.splits sum.splits option.splits)

lemma sys_write_cases:
  assumes "sys_write fd bs k = (r, k')"
  shows "to_read k' = to_read k \<and> length (schedule k') \<le> length (schedule k)
    \<and> (case r of Inl e \<Rightarrow> written k' = written k \<and> (e \<noteq> EBADF \<longrightarrow> length (schedule k') < length (schedule k))
       | Inr n \<Rightarrow> n \<le> length bs \<and> n \<le> MAX_RW_COUNT \<and> written k' = written k @ take n bs
           \<and> (n = 0 \<longrightarrow> bs = [] \<or> length (schedule k') < length (schedule k)))"
proof (cases "fd \<in> set (open_fds k)")
  case True
  obtain x k1 where k1: "syscall k = (x, k1)" by fastforce
  show ?thesis
  proof (cases x)
    case (Inr limit)
    define m where "m = at_most limit (min (length bs) MAX_RW_COUNT)"
    have "m = 0 \<Longrightarrow> bs = [] \<or> limit \<noteq> None"
      by (cases limit) (auto simp: m_def at_most_def MAX_RW_COUNT_def min_def split: if_splits)
    moreover have "m \<le> length bs" "m \<le> MAX_RW_COUNT" by (auto simp: m_def at_most_def split: option.splits)
    ultimately show ?thesis
      using assms True k1 Inr syscall_keeps [OF k1] by (auto simp: sys_write_def Let_def m_def [symmetric])
  qed (use assms True k1 syscall_keeps [OF k1] in \<open>auto simp: sys_write_def\<close>)
qed (use assms in \<open>auto simp: sys_write_def\<close>)

lemma poll_loop_cases:
  "poll_loop k = (r, k') \<Longrightarrow> to_read k' = to_read k \<and> written k' = written k \<and> open_fds k' = open_fds k
    \<and> next_fd k' = next_fd k \<and> length (schedule k') \<le> length (schedule k) \<and> (r = Inr () \<or> r = Inl (Rc TRILOGY_SYSERR))"
proof (induction k arbitrary: r k' rule: poll_loop.induct)
  case (1 k)
  obtain x k1 where k1: "syscall k = (x, k1)" by fastforce
  note keeps = syscall_keeps [OF k1]
  show ?case
  proof (cases "x = Inl EINTR")
    case True
    then have "poll_loop k1 = (r, k')" using "1.prems" k1 by (simp add: poll_loop.simps [of k])
    from "1.IH" [OF k1 [symmetric] True refl this] keeps show ?thesis by auto
  next
    case False
    then show ?thesis using "1.prems" k1 keeps by (auto simp: poll_loop.simps [of k] split: sum.splits if_splits)
  qed
qed

interpretation raw: transport raw_read raw_write raw_wait "\<lambda>s. to_read (sys s)" "\<lambda>s. written (sys s)"
proof
  fix n w bs w'
  assume "raw_read n w = (Inr bs, w')"
  then show "length bs \<le> unat n \<and> to_read (sys w) = bs @ to_read (sys w') \<and> written (sys w') = written (sys w)"
    using sys_read_cases [of "sock_fd w" "unat n" "sys w"]
    by (auto simp: handler_def cb_raw_read_def cb_shutdown_read_def on_sys_def checked_apply
        split: if_splits sum.splits prod.splits)
next
  fix n w e w'
  assume "raw_read n w = (Inl e, w')"
  then show "(\<exists>rc. e = Rc rc \<and> rc \<noteq> TRILOGY_OK) \<and> to_read (sys w') = to_read (sys w) \<and> written (sys w') = written (sys w)"
    using sys_read_cases [of "sock_fd w" "unat n" "sys w"]
    by (auto simp: handler_def cb_raw_read_def cb_shutdown_read_def on_sys_def checked_apply
        split: if_splits sum.splits prod.splits)
next
  fix bs w n w'
  assume run: "raw_write bs w = (Inr n, w')"
  then obtain m k where m: "sys_write (sock_fd w) bs (sys w) = (Inr m, k)" "n = word_of_nat m" "sys w' = k"
    by (auto simp: handler_def cb_raw_write_def cb_shutdown_write_def on_sys_def checked_apply
        split: if_splits sum.splits prod.splits)
  note cases = sys_write_cases [OF m(1)]
  then have "unat (word_of_nat m :: size_t) = m"
    by (intro unat_word_of_nat_size_t) (simp add: MAX_RW_COUNT_def)
  with m cases show "unat n \<le> length bs \<and> written (sys w') = written (sys w) @ take (unat n) bs
      \<and> to_read (sys w') = to_read (sys w)" by simp
next
  fix bs w e w'
  assume "raw_write bs w = (Inl e, w')"
  then show "(\<exists>rc. e = Rc rc \<and> rc \<noteq> TRILOGY_OK) \<and> written (sys w') = written (sys w) \<and> to_read (sys w') = to_read (sys w)"
    using sys_write_cases [of "sock_fd w" bs "sys w"]
    by (auto simp: handler_def cb_raw_write_def cb_shutdown_write_def on_sys_def checked_apply
        split: if_splits sum.splits prod.splits)
next
  fix k w r w'
  assume "raw_wait k w = (r, w')"
  then show "r \<noteq> Inl Fault \<and> r \<noteq> Inl (Rc TRILOGY_OK) \<and> to_read (sys w') = to_read (sys w) \<and> written (sys w') = written (sys w)"
    using poll_loop_cases [of "sys w"]
    by (fastforce simp: handler_def cb_wait_def cb_shutdown_wait_def split: if_splits prod.splits)
qed

text \<open>With a finite schedule they are responsive: each \<^verbatim>\<open>TRILOGY_AGAIN\<close> uses up a verdict.\<close>

definition connected :: "raw_sock \<Rightarrow> bool" where
  "connected s \<longleftrightarrow> 0 \<le> sock_fd s \<or> shut s"

interpretation live_raw: responsive raw_read raw_write raw_wait "\<lambda>s. to_read (sys s)" "\<lambda>s. written (sys s)"
  "\<lambda>s. length (schedule (sys s))" connected
proof
  fix w n r w'
  assume w: "connected w" and run: "raw_read n w = (r, w')"
  show "connected w' \<and> length (schedule (sys w')) \<le> length (schedule (sys w))
      \<and> (r = Inl (Rc TRILOGY_AGAIN) \<longrightarrow> length (schedule (sys w')) < length (schedule (sys w)))"
  proof (cases "shut w")
    case False
    obtain x k where x: "sys_read (sock_fd w) (unat n) (sys w) = (x, k)" by fastforce
    show ?thesis
      using run False w x sys_read_cases [OF x]
      by (auto simp: handler_def cb_raw_read_def on_sys_def checked_apply connected_def split: sum.splits if_splits)
  qed (use run w in \<open>auto simp: handler_def cb_shutdown_read_def\<close>)
next
  fix w bs r w'
  assume w: "connected w" and run: "raw_write bs w = (r, w')"
  show "connected w' \<and> length (schedule (sys w')) \<le> length (schedule (sys w))
      \<and> (r = Inl (Rc TRILOGY_AGAIN) \<or> r = Inr 0 \<and> bs \<noteq> [] \<longrightarrow> length (schedule (sys w')) < length (schedule (sys w)))"
  proof (cases "shut w")
    case False
    obtain x k where x: "sys_write (sock_fd w) bs (sys w) = (x, k)" by fastforce
    have zero: "(word_of_nat m :: size_t) = 0 \<longleftrightarrow> m = 0" if "m \<le> MAX_RW_COUNT" for m
      using that unat_word_of_nat_size_t [of m] by (auto simp: MAX_RW_COUNT_def)
    show ?thesis
      using run False w x sys_write_cases [OF x] zero
      by (auto simp: handler_def cb_raw_write_def on_sys_def checked_apply connected_def split: sum.splits if_splits)
  qed (use run w in \<open>auto simp: handler_def cb_shutdown_write_def\<close>)
next
  fix w k r w'
  assume w: "connected w" and run: "raw_wait k w = (r, w')"
  then show "connected w' \<and> length (schedule (sys w')) \<le> length (schedule (sys w)) \<and> r \<noteq> Inl Hang"
    using poll_loop_cases [of "sys w"]
    by (fastforce simp: handler_def cb_wait_def cb_shutdown_wait_def connected_def split: if_splits prod.splits)
qed

text \<open>
  On an open socket whose calls are at worst interrupted or transfer in pieces, the loops get
  their work done.
\<close>

fun mild :: "verdict \<Rightarrow> bool" where
  "mild (Fails e) \<longleftrightarrow> e = EINTR"
| "mild (Allows m) \<longleftrightarrow> 0 < m"

definition usable :: "raw_sock \<Rightarrow> bool" where
  "usable s \<longleftrightarrow> \<not> shut s \<and> 0 \<le> sock_fd s \<and> sock_fd s \<in> set (open_fds (sys s)) \<and> list_all mild (schedule (sys s))"

lemma syscall_mild:
  assumes "list_all mild (schedule k)" and "syscall k = (r, k')"
  shows "list_all mild (schedule k') \<and> r \<noteq> Inr (Some 0) \<and> (\<forall>e. r = Inl e \<longrightarrow> e = EINTR)"
  using assms by (auto simp: syscall_def split: list.splits verdict.splits)

lemma poll_loop_mild:
  "list_all mild (schedule k) \<Longrightarrow> poll_loop k = (r, k') \<Longrightarrow> list_all mild (schedule k') \<and> r = Inr ()"
proof (induction k arbitrary: r k' rule: poll_loop.induct)
  case (1 k)
  obtain x k1 where k1: "syscall k = (x, k1)" by fastforce
  note M = syscall_mild [OF "1.prems"(1) k1]
  show ?case
  proof (cases x)
    case (Inl e)
    then have "poll_loop k1 = (r, k')" "e = EINTR" using "1.prems"(2) k1 M by (auto simp: poll_loop.simps [of k])
    with "1.IH" [OF k1 [symmetric] Inl] M show ?thesis by blast
  qed (use "1.prems"(2) k1 M in \<open>simp add: poll_loop.simps [of k]\<close>)
qed

lemma sys_read_mild:
  assumes ok: "list_all mild (schedule k)" and fd: "fd \<in> set (open_fds k)" and run: "sys_read fd n k = (r, k')"
  shows "list_all mild (schedule k') \<and> open_fds k' = open_fds k
    \<and> (\<forall>e. r = Inl e \<longrightarrow> e = EINTR) \<and> (r = Inr [] \<longrightarrow> n = 0 \<or> to_read k = [])"
proof -
  obtain x k1 where k1: "syscall k = (x, k1)" by fastforce
  from syscall_mild [OF ok k1] syscall_keeps [OF k1] k1 fd run show ?thesis
    by (auto simp: sys_read_def at_most_def MAX_RW_COUNT_def Let_def split: sum.splits option.splits if_splits)
qed

lemma sys_write_mild:
  assumes ok: "list_all mild (schedule k)" and fd: "fd \<in> set (open_fds k)" and run: "sys_write fd bs k = (r, k')"
  shows "list_all mild (schedule k') \<and> open_fds k' = open_fds k \<and> (\<forall>e. r = Inl e \<longrightarrow> e = EINTR)"
proof -
  obtain x k1 where k1: "syscall k = (x, k1)" by fastforce
  from syscall_mild [OF ok k1] syscall_keeps [OF k1] k1 fd run show ?thesis
    by (auto simp: sys_write_def Let_def split: sum.splits)
qed

lemma raw_read_usable:
  assumes "usable w" and "raw_read n w = (r, w')"
  shows "usable w' \<and> (\<forall>e. r = Inl e \<longrightarrow> e = Rc TRILOGY_AGAIN) \<and> (r = Inr [] \<longrightarrow> n = 0 \<or> to_read (sys w) = [])"
proof -
  obtain x k where k: "sys_read (sock_fd w) (unat n) (sys w) = (x, k)" by fastforce
  have w: "list_all mild (schedule (sys w))" "sock_fd w \<in> set (open_fds (sys w))" using assms(1) by (simp_all add: usable_def)
  from sys_read_mild [OF w k] assms k show ?thesis
    by (auto simp: handler_def usable_def cb_raw_read_def on_sys_def checked_apply unat_eq_zero split: sum.splits)
qed

lemma raw_write_usable:
  assumes "usable w" and "raw_write bs w = (r, w')"
  shows "usable w' \<and> (\<forall>e. r = Inl e \<longrightarrow> e = Rc TRILOGY_AGAIN)"
proof -
  obtain x k where k: "sys_write (sock_fd w) bs (sys w) = (x, k)" by fastforce
  have w: "list_all mild (schedule (sys w))" "sock_fd w \<in> set (open_fds (sys w))" using assms(1) by (simp_all add: usable_def)
  from sys_write_mild [OF w k] assms k show ?thesis
    by (auto simp: handler_def usable_def cb_raw_write_def on_sys_def checked_apply split: sum.splits)
qed

lemma raw_wait_usable:
  assumes "usable w" and "raw_wait k w = (r, w')"
  shows "usable w' \<and> r = Inr ()"
proof -
  obtain x l where l: "poll_loop (sys w) = (x, l)" by fastforce
  have w: "list_all mild (schedule (sys w))" using assms(1) by (simp add: usable_def)
  from poll_loop_mild [OF w l] poll_loop_cases [OF l] assms l show ?thesis
    by (auto simp: handler_def usable_def cb_wait_def)
qed

lemma usable_connected: "usable w \<Longrightarrow> connected w"
  by (simp add: usable_def connected_def)

interpretation sure_raw: reliable raw_read raw_write raw_wait "\<lambda>s. to_read (sys s)" "\<lambda>s. written (sys s)"
  "\<lambda>s. length (schedule (sys s))" usable
proof
  fix w n r w'
  assume w: "usable w" and run: "raw_read n w = (r, w')"
  show "usable w' \<and> length (schedule (sys w')) \<le> length (schedule (sys w))
      \<and> (r = Inl (Rc TRILOGY_AGAIN) \<longrightarrow> length (schedule (sys w')) < length (schedule (sys w)))"
    using raw_read_usable [OF w run] live_raw.read_again [OF usable_connected [OF w] run] by blast
next
  fix w bs r w'
  assume w: "usable w" and run: "raw_write bs w = (r, w')"
  show "usable w' \<and> length (schedule (sys w')) \<le> length (schedule (sys w))
      \<and> (r = Inl (Rc TRILOGY_AGAIN) \<or> r = Inr 0 \<and> bs \<noteq> [] \<longrightarrow> length (schedule (sys w')) < length (schedule (sys w)))"
    using raw_write_usable [OF w run] live_raw.write_again [OF usable_connected [OF w] run] by blast
next
  fix w k r w'
  assume w: "usable w" and run: "raw_wait k w = (r, w')"
  show "usable w' \<and> length (schedule (sys w')) \<le> length (schedule (sys w)) \<and> r \<noteq> Inl Hang"
    using raw_wait_usable [OF w run] live_raw.wait_live [OF usable_connected [OF w] run] by blast
qed (blast dest: raw_read_usable raw_write_usable raw_wait_usable)+

section \<open>Descriptors\<close>

text \<open>What the calls on a descriptor leave alone, and the codes they may end with.\<close>

definition frame :: "raw_sock \<Rightarrow> int \<times> addrinfo list option \<times> bool \<times> int list \<times> nat" where
  "frame s = (sock_fd s, sock_addr s, shut s, open_fds (sys s), next_fd (sys s))"

definition quiet :: "int \<times> addrinfo list option \<times> bool \<times> int list \<times> nat \<Rightarrow> (raw_sock, 'a) op \<Rightarrow> bool" where
  "quiet f m \<longleftrightarrow> holds (\<lambda>s. frame s = f) m (\<lambda>_ s. frame s = f)
     (\<lambda>e s. frame s = f \<and> (\<exists>rc. e = Rc rc \<and> rc \<noteq> TRILOGY_OK))"

named_theorems quiet_intros "calls that leave the descriptors alone"

lemma quiet_checked [quiet_intros]: "quiet f m \<Longrightarrow> (\<And>x. quiet f (k x)) \<Longrightarrow> quiet f (checked m k)"
  unfolding quiet_def by (rule holds_checked)

lemma quiet_ret [quiet_intros]: "quiet f (ret x)"
  by (simp add: quiet_def holds_ret)

lemma quiet_throw [quiet_intros]: "rc \<noteq> TRILOGY_OK \<Longrightarrow> quiet f (throw rc)"
  by (simp add: quiet_def holds_halt)

lemma quiet_if [quiet_intros]: "quiet f m \<Longrightarrow> quiet f m' \<Longrightarrow> quiet f (if c then m else m')"
  by simp

lemma quiet_case [quiet_intros]: "(\<And>e. quiet f (m e)) \<Longrightarrow> (\<And>x. quiet f (k x)) \<Longrightarrow> quiet f (case r of Inl e \<Rightarrow> m e | Inr x \<Rightarrow> k x)"
  by (cases r) simp_all

lemma quiet_syscall [quiet_intros]: "quiet f (on_sys syscall)"
  using syscall_keeps by (auto simp: quiet_def holds_def on_sys_def frame_def split: prod.splits)

lemma quiet_step [quiet_intros]: "quiet f step"
  using syscall_keeps by (auto simp: quiet_def holds_def step_def on_sys_def frame_def split: prod.splits)

lemma quiet_setsockopt [quiet_intros]: "quiet f setsockopt"
  unfolding setsockopt_def by (intro quiet_intros) simp

lemma quiet_set_nonblocking_fd [quiet_intros]: "quiet f set_nonblocking_fd"
  unfolding set_nonblocking_fd_def by (intro quiet_intros) simp_all

lemma quiet_wait [quiet_intros]: "0 \<le> fst f \<Longrightarrow> quiet f (cb_wait w)"
  using poll_loop_cases by (fastforce simp: quiet_def holds_def cb_wait_def frame_def split: prod.splits)

lemma quiet_steps:
  assumes "0 \<le> fd" and "addr = Some (a # as)"
  shows "quiet (fd, addr, others) (raw_connect_steps opts)"
proof -
  have head: "quiet (fd, addr, others) (checked get_state (\<lambda>s. checked
      (case sock_addr s of Some (first # _) \<Rightarrow> if ai_family first \<noteq> PF_UNIX then setsockopt else ret () | _ \<Rightarrow> halt Fault) k))"
    if "\<And>x. quiet (fd, addr, others) (k x)" for k :: "unit \<Rightarrow> (raw_sock, unit) op"
    unfolding quiet_def
  proof (rule holds_get_state)
    fix t assume "frame t = (fd, addr, others)"
    then have "sock_addr t = Some (a # as)" using assms(2) by (simp add: frame_def)
    with that show "holds (\<lambda>s. frame s = (fd, addr, others))
       (checked (case sock_addr t of Some (first # _) \<Rightarrow> if ai_family first \<noteq> PF_UNIX then setsockopt else ret ()
          | _ \<Rightarrow> halt Fault) k)
       (\<lambda>_ s. frame s = (fd, addr, others)) (\<lambda>e s. frame s = (fd, addr, others) \<and> (\<exists>rc. e = Rc rc \<and> rc \<noteq> TRILOGY_OK))"
      unfolding quiet_def [symmetric] by (auto intro!: quiet_intros)
  qed
  show ?thesis
    unfolding raw_connect_steps_def by (intro head quiet_intros) (use assms in simp_all)
qed

text \<open>Descriptors are numbers that were handed out.\<close>

definition fds_ok :: "kernel \<Rightarrow> bool" where
  "fds_ok k \<longleftrightarrow> (\<forall>fd \<in> set (open_fds k). 0 \<le> fd \<and> fd < int (next_fd k))"

text \<open>\<open>owns fds r s\<close>: beside \<open>fds\<close>, the socket has opened its own descriptor if it is connected, and none otherwise.\<close>

definition owns :: "int list \<Rightarrow> stop + unit \<Rightarrow> raw_sock \<Rightarrow> bool" where
  "owns fds r s \<longleftrightarrow> fds_ok (sys s) \<and>
     (r = Inr () \<and> 0 \<le> sock_fd s \<and> sock_fd s \<notin> set fds \<and> open_fds (sys s) = sock_fd s # fds
      \<or> (\<exists>rc. r = Inl (Rc rc) \<and> rc \<noteq> TRILOGY_OK) \<and> sock_fd s = -1 \<and> open_fds (sys s) = fds)"

lemma raw_connect_internal_owns:
  assumes run: "raw_connect_internal opts ai s = (r, s')" and addr: "sock_addr s = Some (a # as)" and fds: "fds_ok (sys s)"
  shows "owns (open_fds (sys s)) r s' \<and> sock_addr s' = sock_addr s"
proof -
  obtain x k where k: "syscall (sys s) = (x, k)" by fastforce
  note keeps = syscall_keeps [OF k]
  show ?thesis
  proof (cases x)
    case (Inl e)
    with run k keeps fds show ?thesis
      by (auto simp: raw_connect_internal_def on_sys_def sys_socket_def checked_apply owns_def fds_ok_def)
  next
    case (Inr limit)
    define fd where "fd = int (next_fd (sys s))"
    define t where "t = s\<lparr>sys := k\<lparr>open_fds := fd # open_fds (sys s), next_fd := next_fd (sys s) + 1\<rparr>, sock_fd := fd\<rparr>"
    have fresh: "fd \<notin> set (open_fds (sys s))" "0 \<le> fd" using fds by (auto simp: fds_ok_def fd_def)
    have frame: "frame t = (fd, sock_addr s, shut s, fd # open_fds (sys s), next_fd (sys s) + 1)"
      by (simp add: frame_def t_def)
    have ok: "fds_ok l" if "open_fds l = fd # open_fds (sys s) \<or> open_fds l = open_fds (sys s)"
        "next_fd l = next_fd (sys s) + 1" for l
      using that fds by (force simp: fds_ok_def fd_def)
    obtain y u where u: "raw_connect_steps opts t = (y, u)" by fastforce
    have q: "quiet (frame t) (raw_connect_steps opts)"
      unfolding frame using fresh(2) addr by (rule quiet_steps)
    have go: "(r, s') = (case (y, u) of
           (Inl (Rc rc), s) \<Rightarrow>
             checked (on_sys (sys_close (sock_fd s))) (\<lambda>_.
             checked (put_state (\<lambda>s. s\<lparr>sock_fd := -1\<rparr>)) (\<lambda>_. throw rc)) s
         | (r, s) \<Rightarrow> (r, s))"
      using run k Inr keeps u
      by (simp add: raw_connect_internal_def on_sys_def sys_socket_def checked_apply fd_def t_def)
    have "frame u = frame t \<and> (case y of Inl e \<Rightarrow> \<exists>rc. e = Rc rc \<and> rc \<noteq> TRILOGY_OK | Inr _ \<Rightarrow> True)"
      using q u unfolding quiet_def by (cases y) (auto dest: holds_Inr holds_Inl)
    then have f: "sock_fd u = fd" "sock_addr u = sock_addr s" "open_fds (sys u) = fd # open_fds (sys s)"
        "next_fd (sys u) = next_fd (sys s) + 1" and y: "case y of Inl e \<Rightarrow> \<exists>rc. e = Rc rc \<and> rc \<noteq> TRILOGY_OK | Inr _ \<Rightarrow> True"
      unfolding frame by (simp_all add: frame_def)
    show ?thesis
    proof (cases y)
      case (Inr z)
      with go fresh ok [of "sys u"] f show ?thesis by (simp add: owns_def)
    next
      case (Inl e)
      then obtain rc where rc: "e = Rc rc" "rc \<noteq> TRILOGY_OK" using y by auto
      obtain z v where v: "syscall (sys u) = (z, v)" by fastforce
      have "removeAll fd (fd # open_fds (sys s)) = open_fds (sys s)" using fresh(1) by simp
      with go Inl rc f v syscall_keeps [OF v] ok show ?thesis
        by (cases z) (simp_all add: owns_def on_sys_def sys_close_def checked_apply)
    qed
  qed
qed

lemma connect_loop_owns:
  "connect_loop opts ais s = (r, s') \<Longrightarrow> ais \<noteq> [] \<Longrightarrow> sock_addr s = Some (a # as) \<Longrightarrow> fds_ok (sys s) \<Longrightarrow>
   owns (open_fds (sys s)) r s'"
proof (induction ais arbitrary: s)
  case (Cons ai ais)
  obtain x t where t: "raw_connect_internal opts ai s = (x, t)" by fastforce
  note one = raw_connect_internal_owns [OF t Cons.prems(3,4)]
  show ?case
  proof (cases x)
    case (Inr y)
    with one t Cons.prems(1) show ?thesis by simp
  next
    case (Inl e)
    then obtain rc where rc: "e = Rc rc" using one by (auto simp: owns_def)
    show ?thesis
    proof (cases "ais = []")
      case True
      with one t rc Inl Cons.prems(1) show ?thesis by simp
    next
      case False
      have "connect_loop opts ais t = (r, s')" "open_fds (sys t) = open_fds (sys s)" "fds_ok (sys t)"
          "sock_addr t = Some (a # as)"
        using False t rc Inl Cons.prems one by (auto simp: owns_def)
      with Cons.IH [of t] False show ?thesis by simp
    qed
  qed
qed simp

lemma shutdown_stops:
  assumes "cb_raw_shutdown s = (r, s')"
  shows "r = Inr () \<and> shut s' \<and> sock_fd s' = -1 \<and> (sock_fd s \<noteq> -1 \<longrightarrow> sock_fd s \<notin> set (open_fds (sys s')))
    \<and> set (open_fds (sys s')) \<subseteq> set (open_fds (sys s))"
  using assms syscall_keeps [of "sys s"]
  by (auto simp: cb_raw_shutdown_def on_sys_def sys_close_def checked_apply split: if_splits prod.splits sum.splits)

section \<open>Connections over them\<close>

lemma raw_uses: "socket c = Some (raw_socket opts) \<Longrightarrow> raw.uses c"
  by (simp add: raw.uses_def)

lemma shut_reads:
  assumes "socket c = Some (raw_socket opts)" and "shut (outside c)"
  shows "trilogy_sock_read n c = (Inl (Rc TRILOGY_CLOSED_CONNECTION), c)"
    and "trilogy_sock_write bs c = (Inl (Rc TRILOGY_CLOSED_CONNECTION), c)"
  using assms
  by (simp_all add: trilogy_sock_read_def trilogy_sock_write_def with_socket_def handler_def cb_shutdown_read_def
      cb_shutdown_write_def checked_apply)

end
