(* ===== verification/Blocking.thy ===== *)
theory Blocking
  imports Client
begin

text \<open>
  The blocking interface of \<^verbatim>\<open>src/blocking.c\<close>: each function sends, waits until the packet buffer is
  written, and repeats the receiving function until it reports something else than
  \<^verbatim>\<open>TRILOGY_AGAIN\<close>, waiting for the socket in between. The loops are \<open>until_done\<close>; a loop that does
  not end is \<open>Hang\<close>.
\<close>

section \<open>The code\<close>

definition flush_full :: "('w trilogy_conn, unit) op" where
  "flush_full = checked trilogy_sock_wait_write (\<lambda>_. until_done trilogy_flush_writes trilogy_sock_wait_write)"

text \<open>Authentication; \<open>local\<close> and \<open>unset\<close> are what the local structures hold before they are filled.\<close>

definition trilogy_connect_auth_switch ::
  "(u8 list \<Rightarrow> u8 list) \<Rightarrow> (u8 list \<Rightarrow> u8 list) \<Rightarrow> allocator \<Rightarrow> trilogy_auth_switch_request_packet \<Rightarrow>
   ('w trilogy_conn \<times> trilogy_handshake, unit) op" where
  "trilogy_connect_auth_switch sha1 sha256 alloc local =
     checked get_state (\<lambda>(_, handshake).
     checked (on_conn (on_again (trilogy_auth_switch_send sha1 sha256 alloc handshake) flush_full)) (\<lambda>_.
     until_done (trilogy_auth_recv alloc local) (on_conn trilogy_sock_wait_read)))"

definition trilogy_connect_handshake ::
  "(u8 list \<Rightarrow> u8 list) \<Rightarrow> (u8 list \<Rightarrow> u8 list) \<Rightarrow> allocator \<Rightarrow> trilogy_auth_switch_request_packet \<Rightarrow>
   trilogy_handshake \<Rightarrow> ('w trilogy_conn, unit) op" where
  "trilogy_connect_handshake sha1 sha256 alloc local unset =
     checked (until_done (trilogy_connect_recv alloc unset) trilogy_sock_wait_read) (\<lambda>handshake.
     checked (on_again (trilogy_auth_send sha1 sha256 alloc handshake) flush_full) (\<lambda>_ c.
     case until_done (trilogy_auth_recv alloc local) (on_conn trilogy_sock_wait_read) (c, handshake) of
       (r, s) \<Rightarrow>
         (case (if r = Inl (Rc TRILOGY_AUTH_SWITCH)
                then trilogy_connect_auth_switch sha1 sha256 alloc local s else (r, s)) of
            (r', (c', _)) \<Rightarrow> (r', c'))))"

definition trilogy_connect_sock ::
  "(u8 list \<Rightarrow> u8 list) \<Rightarrow> (u8 list \<Rightarrow> u8 list) \<Rightarrow> allocator \<Rightarrow> trilogy_auth_switch_request_packet \<Rightarrow>
   trilogy_handshake \<Rightarrow> 'w trilogy_sock \<Rightarrow> ('w trilogy_conn, unit) op" where
  "trilogy_connect_sock sha1 sha256 alloc local unset sock =
     checked (trilogy_connect_send_socket sock) (\<lambda>_. trilogy_connect_handshake sha1 sha256 alloc local unset)"

definition trilogy_change_db :: "allocator \<Rightarrow> u8 list \<Rightarrow> size_t \<Rightarrow> ('w trilogy_conn, unit) op" where
  "trilogy_change_db alloc name name_len =
     checked (on_again (trilogy_change_db_send alloc name name_len) flush_full) (\<lambda>_.
     until_done (trilogy_change_db_recv alloc) trilogy_sock_wait_read)"

definition trilogy_set_option :: "allocator \<Rightarrow> u16 \<Rightarrow> ('w trilogy_conn, unit) op" where
  "trilogy_set_option alloc option =
     checked (on_again (trilogy_set_option_send alloc option) flush_full) (\<lambda>_.
     until_done (trilogy_set_option_recv alloc) trilogy_sock_wait_read)"

definition trilogy_ping :: "allocator \<Rightarrow> ('w trilogy_conn, unit) op" where
  "trilogy_ping alloc =
     checked (on_again (trilogy_ping_send alloc) flush_full) (\<lambda>_.
     until_done (trilogy_ping_recv alloc) trilogy_sock_wait_read)"

definition trilogy_query :: "allocator \<Rightarrow> u8 list \<Rightarrow> size_t \<Rightarrow> ('w trilogy_conn \<times> u64, unit) op" where
  "trilogy_query alloc query query_len =
     checked (on_conn (on_again (trilogy_query_send alloc query query_len) flush_full)) (\<lambda>_.
     until_done (trilogy_query_recv alloc) (on_conn trilogy_sock_wait_read))"

definition trilogy_read_full_column :: "allocator \<Rightarrow> ('w trilogy_conn, trilogy_column_packet) op" where
  "trilogy_read_full_column alloc = until_done (trilogy_read_column alloc) trilogy_sock_wait_read"

definition trilogy_read_full_row :: "allocator \<Rightarrow> trilogy_value list \<Rightarrow> ('w trilogy_conn, trilogy_value list) op" where
  "trilogy_read_full_row alloc values_out = until_done (trilogy_read_row alloc values_out) trilogy_sock_wait_read"

definition trilogy_close :: "allocator \<Rightarrow> ('w trilogy_conn, unit) op" where
  "trilogy_close alloc =
     checked (on_again (trilogy_close_send alloc) flush_full) (\<lambda>_.
     until_done (trilogy_close_recv alloc) trilogy_sock_wait_read)"

definition trilogy_stmt_prepare ::
  "allocator \<Rightarrow> u8 list \<Rightarrow> size_t \<Rightarrow> ('w trilogy_conn, trilogy_stmt_ok_packet) op" where
  "trilogy_stmt_prepare alloc stmt stmt_len =
     checked (on_again (trilogy_stmt_prepare_send alloc stmt stmt_len) flush_full) (\<lambda>_.
     until_done (trilogy_stmt_prepare_recv alloc) trilogy_sock_wait_read)"

definition trilogy_stmt_execute ::
  "allocator \<Rightarrow> trilogy_stmt_ok_packet \<Rightarrow> u8 \<Rightarrow> trilogy_binary_value list option \<Rightarrow>
   ('w trilogy_conn \<times> u64, unit) op" where
  "trilogy_stmt_execute alloc stmt flags binds =
     checked (on_conn (on_again (trilogy_stmt_execute_send alloc stmt flags binds) flush_full)) (\<lambda>_.
     until_done (trilogy_stmt_execute_recv alloc) (on_conn trilogy_sock_wait_read))"

definition trilogy_stmt_bind_data ::
  "allocator \<Rightarrow> trilogy_stmt_ok_packet \<Rightarrow> u16 \<Rightarrow> u8 list \<Rightarrow> size_t \<Rightarrow> ('w trilogy_conn, unit) op" where
  "trilogy_stmt_bind_data alloc stmt param_num data data_len =
     on_again (trilogy_stmt_bind_data_send alloc stmt param_num data data_len) flush_full"

definition trilogy_stmt_read_full_row ::
  "allocator \<Rightarrow> trilogy_stmt_ok_packet \<Rightarrow> trilogy_column_packet list \<Rightarrow> trilogy_binary_value list \<Rightarrow>
   ('w trilogy_conn, trilogy_binary_value list) op" where
  "trilogy_stmt_read_full_row alloc stmt columns values_out =
     until_done (trilogy_stmt_read_row alloc stmt columns values_out) trilogy_sock_wait_read"

definition trilogy_stmt_reset :: "allocator \<Rightarrow> trilogy_stmt_ok_packet \<Rightarrow> ('w trilogy_conn, unit) op" where
  "trilogy_stmt_reset alloc stmt =
     checked (on_again (trilogy_stmt_reset_send alloc stmt) flush_full) (\<lambda>_.
     until_done (trilogy_stmt_reset_recv alloc) trilogy_sock_wait_read)"

definition trilogy_stmt_close :: "allocator \<Rightarrow> trilogy_stmt_ok_packet \<Rightarrow> ('w trilogy_conn, unit) op" where
  "trilogy_stmt_close alloc stmt = on_again (trilogy_stmt_close_send alloc stmt) flush_full"

end
