(* ===== verification/Commands.thy ===== *)
theory Commands
  imports Socket Blocking "HOL-Library.Sublist"
begin

text \<open>
  The commands of the client as exchanges over a socket: what is sent is the frames of the
  command, whole and in order, and the answer is handled when its last byte is there.
\<close>

section \<open>Connecting\<close>

text \<open>\<^verbatim>\<open>trilogy_connect\<close> of \<^verbatim>\<open>src/blocking.c\<close>, which makes a plain socket.\<close>

definition trilogy_connect ::
  "(u8 list \<Rightarrow> u8 list) \<Rightarrow> (u8 list \<Rightarrow> u8 list) \<Rightarrow> allocator \<Rightarrow> trilogy_auth_switch_request_packet \<Rightarrow>
   trilogy_handshake \<Rightarrow> trilogy_sockopt \<Rightarrow> (raw_sock trilogy_conn, unit) op" where
  "trilogy_connect sha1 sha256 alloc local unset opts =
     checked (trilogy_connect_send opts) (\<lambda>_. trilogy_connect_handshake sha1 sha256 alloc local unset)"

section \<open>Building a command\<close>

definition packet_limit :: "trilogy_sockopt \<Rightarrow> size_t" where
  "packet_limit opts = (if opt_max_allowed_packet opts > 0 then opt_max_allowed_packet opts else SIZE_MAX)"

lemma begin_command_phase_cases:
  assumes buf: "buffer_ok (packet_buffer c)" and sock: "socket c = Some s"
    and run: "begin_command_phase alloc seq c = (r, c')"
  shows "buffer_ok (packet_buffer c') \<and> c' = c\<lparr>packet_buffer := packet_buffer c', packet_parser := packet_parser c'\<rparr>
    \<and> (case r of
         Inr b \<Rightarrow> building seq (packet_limit (sock_opts s)) [] b \<and> bld_buffer b = packet_buffer c'
           \<and> packet_parser c' = (packet_parser c)\<lparr>sequence_number := seq + 1\<rparr>
       | Inl e \<Rightarrow> refuses alloc 8 e)"
proof -
  let ?b = "unset_builder\<lparr>bld_buffer := packet_buffer c\<rparr>"
  obtain x b where b: "trilogy_builder_init alloc (packet_buffer c) seq ?b = (x, b)" by fastforce
  note init = builder_init_building [OF buf, of alloc seq 1]
  show ?thesis
  proof (cases x)
    case (Inl e)
    then have "build_fails alloc 1 0 e b" using holds_Inl [OF init TrueI] b by blast
    with run b Inl show ?thesis
      by (auto simp: begin_command_phase_def with_builder_def checked_apply build_fails_def)
  next
    case (Inr y)
    then have bld: "building seq SIZE_MAX [] b" using holds_Inr [OF init TrueI] b by blast
    then have ok: "buffer_ok (bld_buffer b)" by (auto simp: building_def filled_def builder_fields_def)
    let ?max = "opt_max_allowed_packet (sock_opts s)"
    define c1 where "c1 = c\<lparr>packet_buffer := bld_buffer b\<rparr>"
    have b1: "b\<lparr>bld_buffer := packet_buffer c1\<rparr> = b" by (simp add: c1_def)
    show ?thesis
    proof (cases "?max > 0")
      case True
      have set: "holds (building seq SIZE_MAX []) (trilogy_builder_set_max_packet_length ?max) (\<lambda>_. building seq ?max []) (\<lambda>_ _. False)"
        by (rule set_max_packet_length_building) simp
      obtain z b2 where b2: "trilogy_builder_set_max_packet_length ?max b = (z, b2)" by fastforce
      then have z: "z = Inr ()" "building seq ?max [] b2"
        using holds_Inr [OF set bld] holds_Inl [OF set bld] by (cases z; auto)+
      then have "buffer_ok (bld_buffer b2)" by (auto simp: building_def filled_def builder_fields_def)
      with run b Inr sock True b2 z show ?thesis
        by (auto simp: begin_command_phase_def with_builder_def checked_apply socket_opts_def ignored_def packet_limit_def)
    next
      case False
      with run b Inr sock bld ok show ?thesis
        by (auto simp: begin_command_phase_def with_builder_def checked_apply socket_opts_def packet_limit_def)
    qed
  qed
qed

text \<open>The common part of the functions that send.\<close>

definition built_command :: "allocator \<Rightarrow> u8 \<Rightarrow> (trilogy_builder, unit) op \<Rightarrow> ('w trilogy_conn, trilogy_builder) op" where
  "built_command alloc seq m = checked (begin_command_phase alloc seq) (\<lambda>builder. with_builder builder m)"

text \<open>The codes of a command that could not be built.\<close>

definition not_built :: "allocator \<Rightarrow> size_t \<Rightarrow> nat \<Rightarrow> stop \<Rightarrow> bool" where
  "not_built alloc lim n e \<longleftrightarrow> e = Rc TRILOGY_MAX_PACKET_EXCEEDED \<and> unat lim \<le> n \<or> refuses alloc (2 * n + 8) e"

lemma not_built_code: "not_built alloc lim n e \<Longrightarrow> \<exists>rc. e = Rc rc \<and> rc \<noteq> TRILOGY_OK \<and> rc \<noteq> TRILOGY_AGAIN"
  by (auto simp: not_built_def refuses_def)

lemma built_command_cases:
  assumes buf: "buffer_ok (packet_buffer c)" and sock: "socket c = Some s" and m: "builds alloc m payload"
    and run: "built_command alloc seq m c = (r, c')"
  shows "buffer_ok (packet_buffer c') \<and> c' = c\<lparr>packet_buffer := packet_buffer c', packet_parser := packet_parser c'\<rparr>
    \<and> (case r of
         Inr b \<Rightarrow> contents (packet_buffer c') = frames seq payload
           \<and> bld_seq b = seq + word_of_nat (length payload div TRILOGY_MAX_PACKET_LEN) + 1
           \<and> packet_parser c' = (packet_parser c)\<lparr>sequence_number := seq + 1\<rparr>
       | Inl e \<Rightarrow> not_built alloc (packet_limit (sock_opts s)) (length payload) e)"
proof -
  obtain x c1 where c1: "begin_command_phase alloc seq c = (x, c1)" by fastforce
  note P = begin_command_phase_cases [OF buf sock c1]
  show ?thesis
  proof (cases x)
    case (Inl e)
    have "refuses alloc 8 e \<Longrightarrow> refuses alloc (2 * length payload + 8) e" by (erule refuses_mono) (rule le_add2)
    with P run c1 Inl show ?thesis by (auto simp: built_command_def checked_apply not_built_def)
  next
    case (Inr b)
    let ?lim = "packet_limit (sock_opts s)"
    have "?lim \<noteq> 0" by (auto simp: packet_limit_def)
    with m have B: "holds (building seq ?lim []) m
           (\<lambda>_ b. buffer_ok (bld_buffer b) \<and> contents (bld_buffer b) = frames seq payload
              \<and> bld_seq b = seq + word_of_nat (length payload div TRILOGY_MAX_PACKET_LEN) + 1)
           (build_fails alloc ?lim (length payload))"
      by (simp add: builds_def)
    from P Inr have start: "building seq ?lim [] b" and "b\<lparr>bld_buffer := packet_buffer c1\<rparr> = b" by simp_all
    moreover obtain y b2 where b2: "m b = (y, b2)" by fastforce
    ultimately have "(r, c') = (map_sum id (\<lambda>_. b2) y, c1\<lparr>packet_buffer := bld_buffer b2\<rparr>)"
      using run c1 Inr by (simp add: built_command_def checked_apply with_builder_def)
    with P Inr holds_Inr [OF B start] holds_Inl [OF B start] b2 show ?thesis
      by (cases y; cases c; cases c1) (auto simp: build_fails_def not_built_def)
  qed
qed

section \<open>Sending it\<close>

lemma on_again_checked:
  "m c = (Inr x, c1) \<Longrightarrow> on_again (checked m k) f c = on_again (k x) f c1"
  "m c = (Inl e, c1) \<Longrightarrow> e \<noteq> Rc TRILOGY_AGAIN \<Longrightarrow> on_again (checked m k) f c = (Inl e, c1)"
  by (simp_all add: on_again_def checked_apply is_again_iff)

context transport
begin

lemma write_all_cases:
  assumes buf: "buffer_ok (packet_buffer c)" and uses: "uses c" and run: "on_again begin_write flush_full c = (r, c')"
  shows "moved (c\<lparr>packet_buffer_written := 0\<rparr>) c'
    \<and> (r = Inr () \<and> unwritten c' = [] \<or> r = Inl Hang \<or> (\<exists>rc. r = Inl (Rc rc) \<and> rc \<noteq> TRILOGY_OK))"
proof -
  let ?c = "c\<lparr>packet_buffer_written := 0\<rparr>"
  have c: "buffer_ok (packet_buffer ?c)" "packet_buffer_written ?c \<le> buf_len (packet_buffer ?c)" "uses ?c"
    using buf uses by (simp_all add: uses_def)
  obtain x d where d: "trilogy_flush_writes ?c = (x, d)" by fastforce
  note F = flush_cases [OF c d]
  then have moved: "moved ?c d" by blast
  note frame = moved_frame [OF moved]
  show ?thesis
  proof (cases "is_again x")
    case False
    then have "r = x" "c' = d" using run d by (simp_all add: on_again_def begin_write_def)
    with F show ?thesis by blast
  next
    case True
    have le: "packet_buffer_written d \<le> buf_len (packet_buffer d)" using moved frame(1) by (simp add: moved_def)
    have "uses d" using frame(6) c(3) by simp
    obtain w u where u: "trilogy_sock_wait_write d = (w, u)" by fastforce
    note W = wait_write_cases [OF le \<open>uses d\<close> u]
    then have mu: "moved ?c u" using moved_trans [OF moved] by blast
    have run': "(r, c') = checked (Pair w) (\<lambda>_. until_done trilogy_flush_writes trilogy_sock_wait_write) u"
      using run d True u by (simp add: on_again_def begin_write_def flush_full_def checked_apply)
    show ?thesis
    proof (cases w)
      case (Inl e)
      with run' W mu show ?thesis by (cases e) (auto simp: checked_apply)
    next
      case (Inr y)
      have "buffer_ok (packet_buffer u)" "packet_buffer_written u \<le> buf_len (packet_buffer u)" "uses u"
        using moved_frame [OF mu] c mu by (simp_all add: moved_def)
      note loop = flush_loop_cases [OF this]
      have "until_done trilogy_flush_writes trilogy_sock_wait_write u = (r, c')" using run' Inr by simp
      from loop [OF this] moved_trans [OF mu] show ?thesis by blast
    qed
  qed
qed

text \<open>
  A function that sends refuses to build, or it writes the whole packet buffer. \<open>f\<close> is what it
  does to the parser after it has built.
\<close>

lemma sending:
  assumes buf: "buffer_ok (packet_buffer c)" and sock: "socket c = Some s" and uses: "uses c"
    and m: "builds alloc m payload"
    and k: "\<And>b d. k b d = begin_write (d\<lparr>packet_parser := f b (packet_parser d)\<rparr>)"
  obtains (refused) e c1 where "on_again (checked (built_command alloc seq m) k) fl c = (Inl e, c1)"
      "not_built alloc (packet_limit (sock_opts s)) (length payload) e"
      "session c1 = session c" "buffered c1 = buffered c" "outside c1 = outside c" "conn_ok c1 \<longleftrightarrow> conn_ok c"
      "buffer_ok (packet_buffer c1)"
    | (built) b d where "on_again (checked (built_command alloc seq m) k) fl c = on_again begin_write fl d"
      "buffer_ok (packet_buffer d)" "uses d" "session d = session c" "buffered d = buffered c" "outside d = outside c"
      "conn_ok d \<longleftrightarrow> conn_ok c" "contents (packet_buffer d) = frames seq payload"
      "packet_parser d = f b ((packet_parser c)\<lparr>sequence_number := seq + 1\<rparr>)"
      "bld_seq b = seq + word_of_nat (length payload div TRILOGY_MAX_PACKET_LEN) + 1"
proof -
  obtain x c1 where c1: "built_command alloc seq m c = (x, c1)" by fastforce
  note P = built_command_cases [OF buf sock m c1]
  then obtain u q where c1_eq: "c1 = c\<lparr>packet_buffer := u, packet_parser := q\<rparr>" and u: "buffer_ok (packet_buffer c1)"
    by blast
  then have frame: "session c1 = session c" "buffered c1 = buffered c" "outside c1 = outside c" "uses c1"
      "conn_ok c1 \<longleftrightarrow> conn_ok c"
    using buf uses by (simp_all add: session_def buffered_def uses_def conn_ok_def)
  show ?thesis
  proof (cases x)
    case (Inl e)
    with P have e: "not_built alloc (packet_limit (sock_opts s)) (length payload) e" by simp
    then have "e \<noteq> Rc TRILOGY_AGAIN" using not_built_code by fastforce
    then have "on_again (checked (built_command alloc seq m) k) fl c = (Inl e, c1)"
      using on_again_checked(2) c1 Inl by fastforce
    from refused [OF this e frame(1-3,5) u] show ?thesis .
  next
    case (Inr b)
    define d where "d = c1\<lparr>packet_parser := f b (packet_parser c1)\<rparr>"
    have "on_again (k b) fl c1 = on_again begin_write fl d"
      by (simp add: on_again_def k d_def)
    then have "on_again (checked (built_command alloc seq m) k) fl c = on_again begin_write fl d"
      using on_again_checked(1) [of "built_command alloc seq m" c b c1 k fl] c1 Inr by simp
    moreover have "contents (packet_buffer d) = frames seq payload"
      "packet_parser d = f b ((packet_parser c)\<lparr>sequence_number := seq + 1\<rparr>)"
      "bld_seq b = seq + word_of_nat (length payload div TRILOGY_MAX_PACKET_LEN) + 1"
      using P Inr by (simp_all add: d_def)
    moreover have "buffer_ok (packet_buffer d)" "uses d" "session d = session c" "buffered d = buffered c"
        "outside d = outside c" "conn_ok d \<longleftrightarrow> conn_ok c"
      using u frame by (simp_all add: d_def uses_def session_def buffered_def conn_ok_def)
    ultimately show ?thesis by (intro built [of d b])
  qed
qed

text \<open>A command that was built is sent whole, or an initial part of it is and a code is returned.\<close>

lemma send_cases:
  assumes buf: "buffer_ok (packet_buffer c)" and sock: "socket c = Some s" and uses: "uses c"
    and m: "builds alloc m payload"
    and k: "\<And>b d. k b d = begin_write (d\<lparr>packet_parser := f b (packet_parser d)\<rparr>)"
    and run: "on_again (checked (built_command alloc seq m) k) flush_full c = (r, c')"
  shows "session c' = session c \<and> unread c' = unread c \<and> (conn_ok c' \<longleftrightarrow> conn_ok c)
    \<and> buffer_ok (packet_buffer c')
    \<and> (\<exists>sent. outgoing (outside c') = outgoing (outside c) @ sent \<and> prefix sent (frames seq payload)
         \<and> (r = Inr () \<and> sent = frames seq payload
              \<and> (\<exists>b. bld_seq b = seq + word_of_nat (length payload div TRILOGY_MAX_PACKET_LEN) + 1
                    \<and> packet_parser c' = f b ((packet_parser c)\<lparr>sequence_number := seq + 1\<rparr>))
            \<or> r = Inl Hang \<or> (\<exists>rc. r = Inl (Rc rc) \<and> rc \<noteq> TRILOGY_OK)))"
  using buf sock uses m k
proof (cases rule: sending [where seq = seq and k = k and f = f and fl = flush_full])
  case (refused e c1)
  with run have "r = Inl e" "c' = c1" by simp_all
  moreover obtain rc where "e = Rc rc" "rc \<noteq> TRILOGY_OK" using not_built_code [OF refused(2)] by blast
  ultimately show ?thesis using refused by (intro conjI exI [of _ "[]"]) (simp_all add: unread_def)
next
  case (built b d)
  then have "on_again begin_write flush_full d = (r, c')" using run by simp
  note W = write_all_cases [OF built(2,3) this]
  let ?d = "d\<lparr>packet_buffer_written := 0\<rparr>"
  have moved: "moved ?d c'" using W by blast
  note fr = moved_frame [OF moved]
  have start: "unwritten ?d = frames seq payload" "outside ?d = outside c" "session ?d = session c"
      "buffered ?d = buffered c" "conn_ok ?d \<longleftrightarrow> conn_ok c"
    using built by (simp_all add: unwritten_def session_def buffered_def conn_ok_def)
  have "unwritten c' = drop (unat (packet_buffer_written c')) (frames seq payload)"
    using fr(1) built(8) by (simp add: unwritten_def)
  then obtain sent where sent: "frames seq payload = sent @ unwritten c'" by (metis append_take_drop_id)
  have "outgoing (outside c') @ unwritten c' = outgoing (outside c) @ sent @ unwritten c'"
    using moved start sent by (simp add: moved_def)
  then have "outgoing (outside c') = outgoing (outside c) @ sent" by simp
  moreover have "prefix sent (frames seq payload)" using sent by simp
  moreover have "r = Inr () \<longrightarrow> sent = frames seq payload" using W sent by auto
  moreover have "packet_parser c' = f b ((packet_parser c)\<lparr>sequence_number := seq + 1\<rparr>)" using fr(2) built(9) by simp
  moreover have "buffer_ok (packet_buffer c')" using fr(1) built(2) by simp
  moreover have "unread c' = unread c" using moved fr(4) start by (simp add: unread_def moved_def)
  ultimately show ?thesis using W fr start built(10) by metis
qed

end

end
