(* ===== verification/Exchange.thy ===== *)
theory Exchange
  imports Commands Protocol_Encode
begin

text \<open>
  Commands over a socket that does not fail: the command is sent whole, the answer is awaited,
  received and handled, and the connection is ready for the next command.
\<close>

section \<open>Between commands\<close>

definition ready :: "'w trilogy_conn \<Rightarrow> bool" where
  "ready c \<longleftrightarrow> conn_ok c \<and> state (packet_parser c) = S_LEN_0 \<and> \<not> fragment (packet_parser c)
     \<and> \<not> deferred_end_callback (packet_parser c)"

text \<open>The packet \<open>p\<close> is in the packet buffer, and the parser waits for the next one.\<close>

definition arrived :: "u8 list \<Rightarrow> u8 \<Rightarrow> 'w trilogy_conn \<Rightarrow> bool" where
  "arrived p fin c \<longleftrightarrow> ready c \<and> contents (packet_buffer c) = p \<and> sequence_number (packet_parser c) = fin"

lemma delivered_arrived:
  "conn_ok c \<Longrightarrow> connection.delivered p fin (packet_parser c, packet_buffer c) \<longleftrightarrow> arrived p fin c"
  by (auto simp: connection.delivered_def arrived_def ready_def conn_ok_def)

lemma ready_expects:
  "ready c \<Longrightarrow> connection.expects p (after_fragments (sequence_number (packet_parser c)) p)
     (frames (sequence_number (packet_parser c)) p) (packet_parser c, packet_buffer c)"
  by (rule connection.expects_start) (simp_all add: ready_def conn_ok_def)

lemma frames_not_Nil [simp]: "frames seq p \<noteq> []"
  by (simp add: frames_body packet_header_def)

text \<open>Memory and limit that a command of \<open>n\<close> bytes needs.\<close>

definition affordable :: "allocator \<Rightarrow> size_t \<Rightarrow> nat \<Rightarrow> bool" where
  "affordable alloc lim n \<longleftrightarrow> generous alloc \<and> n < unat lim \<and> n < 2 ^ 60"

lemma affordable_built: "affordable alloc lim n \<Longrightarrow> \<not> not_built alloc lim n e"
  by (auto simp: affordable_def not_built_def refuses_def)

section \<open>A handler with a result of its own\<close>

text \<open>
  The functions with an out parameter run on pairs. Their loop is that of a handler on the
  connection that returns the result and the parameter as its value.
\<close>

definition paired :: "('w trilogy_conn \<times> 'x, 'a) op \<Rightarrow> 'x \<Rightarrow> ('w trilogy_conn, (stop + 'a) \<times> 'x) op" where
  "paired h x = (\<lambda>c. case h (c, x) of (r, (c', x')) \<Rightarrow> (Inr (r, x'), c'))"

lemma retry_paired:
  assumes "retry (checked m (\<lambda>_. paired h x)) wait c = Some (y, c')"
  shows "case y of
      Inl e \<Rightarrow> retry (checked (on_conn m) (\<lambda>_. h)) (on_conn wait) (c, x) = Some (Inl e, (c', x))
    | Inr (r, x') \<Rightarrow> \<not> is_again r \<longrightarrow>
        retry (checked (on_conn m) (\<lambda>_. h)) (on_conn wait) (c, x) = Some (r, (c', x'))"
proof -
  let ?loop = "retry (checked (on_conn m) (\<lambda>_. h)) (on_conn wait)"
  have first: "checked (on_conn m) (\<lambda>_. h) (s, x) =
      (case m s of (Inl e, d) \<Rightarrow> (Inl e, (d, x)) | (Inr _, d) \<Rightarrow> h (d, x))" for s
    by (simp add: checked_apply on_part_def split: prod.splits sum.splits)
  have waited: "on_conn wait (d, x) = (case wait d of (w, u) \<Rightarrow> (w, (u, x)))" for d
    by (simp add: on_part_def split: prod.splits)
  have failed: "?loop (s, x) = Some (Inl e, (d, x))" if "m s = (Inl e, d)" "e \<noteq> Rc TRILOGY_AGAIN" for s e d
    using that by (subst retry.simps) (simp add: first is_again_iff)
  have handled: "?loop (s, x) = Some (r, (t, x'))"
    if "m s = (Inr z, d)" "h (d, x) = (r, (t, x'))" "\<not> is_again r" for s z d r t x'
    using that by (subst retry.simps) (simp add: first)
  have again: "?loop (s, x) = (case wait d of (Inl e, u) \<Rightarrow> Some (Inl e, (u, x)) | (Inr _, u) \<Rightarrow> ?loop (u, x))"
    if "m s = (Inl (Rc TRILOGY_AGAIN), d)" for s d
    using that by (subst retry.simps) (simp add: first waited split: prod.splits sum.splits)
  have body: "(\<exists>e. m s = (Inl e, t) \<and> r = Inl e) \<or> (\<exists>z d r' x'. m s = (Inr z, d) \<and> h (d, x) = (r', (t, x')) \<and> r = Inr (r', x'))"
    if "checked m (\<lambda>_. paired h x) s = (r, t)" for s r t
    using that by (auto simp: checked_apply paired_def split: prod.splits sum.splits)
  define Q where "Q y t \<longleftrightarrow> (case y of Inl e \<Rightarrow> ?loop (c, x) = Some (Inl e, (t, x))
      | Inr (r, x') \<Rightarrow> \<not> is_again r \<longrightarrow> ?loop (c, x) = Some (r, (t, x')))" for y t
  have "Q y c'"
    using assms
  proof (rule retry_Some_rule [where I = "\<lambda>s. ?loop (c, x) = ?loop (s, x)" and Q = Q])
    fix s r t
    assume s: "?loop (c, x) = ?loop (s, x)" and run: "checked m (\<lambda>_. paired h x) s = (r, t)" and r: "\<not> is_again r"
    from body [OF run] show "Q r t"
      using r unfolding Q_def s by (auto simp: is_again_iff dest: failed handled)
  next
    fix s r t e u
    assume s: "?loop (c, x) = ?loop (s, x)" and run: "checked m (\<lambda>_. paired h x) s = (r, t)" and r: "is_again r"
      and w: "wait t = (Inl e, u)"
    have "m s = (Inl (Rc TRILOGY_AGAIN), t)" using body [OF run] r by (auto simp: is_again_iff)
    then show "Q (Inl e) u" using w by (simp add: Q_def s again)
  next
    fix s r t u
    assume s: "?loop (c, x) = ?loop (s, x)" and run: "checked m (\<lambda>_. paired h x) s = (r, t)" and r: "is_again r"
      and w: "wait t = (Inr (), u)"
    have "m s = (Inl (Rc TRILOGY_AGAIN), t)" using body [OF run] r by (auto simp: is_again_iff)
    then show "?loop (c, x) = ?loop (u, x)" using w by (simp add: s again)
  qed simp
  then show ?thesis by (simp add: Q_def)
qed

section \<open>Loops that end\<close>

lemma checked_unit: "checked m (\<lambda>_. ret ()) = (m :: ('s, unit) op)"
  by (rule ext) (simp add: checked_apply split: prod.splits sum.splits)

context responsive
begin

text \<open>Whatever bytes arrive, the loop that reads a packet ends with one or with a code.\<close>

lemma read_loop_safe:
  assumes ok: "conn_ok c" and uses: "uses c" and live: "live (outside c)"
    and run: "until_done (read_packet alloc) trilogy_sock_wait_read c = (r, c')"
  shows "conn_ok c' \<and> session c' = session c \<and> live (outside c') \<and> (r = Inr () \<or> (\<exists>rc. r = Inl (Rc rc) \<and> rc \<noteq> TRILOGY_OK))"
proof -
  let ?m = "checked (read_packet alloc) (\<lambda>_. ret ())"
  have hang: "r \<noteq> Inl Hang"
    by (rule receive_loop_ends [OF ok uses live, of "ret ()" alloc r c']) (use run in \<open>simp_all only: checked_unit\<close>, simp)
  define I where "I d \<longleftrightarrow> conn_ok d \<and> session d = session c \<and> live (outside d)" for d
  define Q where "Q r c' \<longleftrightarrow> I c' \<and> (r = Inl Hang \<or> r = Inr () \<or> (\<exists>rc. r = Inl (Rc rc) \<and> rc \<noteq> TRILOGY_OK))" for r c'
  have uses_I: "uses d" if "I d" for d using that session_uses [of d c] uses by (simp add: I_def)
  have step: "I t \<and> (r = Inr () \<or> (\<exists>rc. r = Inl (Rc rc) \<and> rc \<noteq> TRILOGY_OK))" if "I s" "read_packet alloc s = (r, t)" for s r t
    using read_packet_live [OF _ uses_I [OF that(1)] _ that(2)] that(1) by (auto simp: I_def)
  have wait: "I u \<and> w \<noteq> Inl Fault \<and> w \<noteq> Inl (Rc TRILOGY_OK)" if "I t" "trilogy_sock_wait_read t = (w, u)" for t w u
  proof -
    note W = wait_read_live [OF uses_I [OF that(1)] _ that(2)] wait_read_cases [OF uses_I [OF that(1)] that(2)]
    then have u: "u = t\<lparr>outside := outside u\<rparr>" by blast
    have "conn_ok u = conn_ok t" "session u = session t" by (subst u, simp add: conn_ok_def session_def)+
    with W that(1) show ?thesis by (auto simp: I_def)
  qed
  have "Q r c'"
    using run
  proof (rule until_done_rule [where I = I and Q = Q])
    show "I c" using ok live by (simp add: I_def)
    show "Q (Inl Hang) s" if "I s" for s using that by (simp add: Q_def)
    show "Q r t" if "I s" "read_packet alloc s = (r, t)" for s r t using step [OF that] by (simp add: Q_def)
    show "Q (Inl e) u" if "I s" "read_packet alloc s = (r, t)" "trilogy_sock_wait_read t = (Inl e, u)" for s r t e u
      using wait [OF _ that(3)] step [OF that(1,2)] by (cases e) (auto simp: Q_def)
    show "I u" if "I s" "read_packet alloc s = (r, t)" "trilogy_sock_wait_read t = (Inr (), u)" for s r t u
      using wait [OF _ that(3)] step [OF that(1,2)] by blast
  qed
  with hang show ?thesis by (simp add: Q_def I_def)
qed

lemma write_all_ends:
  assumes buf: "buffer_ok (packet_buffer c)" and uses: "uses c" and live: "live (outside c)"
    and run: "on_again begin_write flush_full c = (r, c')"
  shows "r \<noteq> Inl Hang \<and> live (outside c')"
proof -
  let ?c = "c\<lparr>packet_buffer_written := 0\<rparr>"
  have c: "buffer_ok (packet_buffer ?c)" "packet_buffer_written ?c \<le> buf_len (packet_buffer ?c)" "uses ?c"
      "live (outside ?c)"
    using buf uses live by (simp_all add: uses_def)
  obtain x d where d: "trilogy_flush_writes ?c = (x, d)" by fastforce
  note F = flush_cases [OF c(1-3) d] flush_live [OF c d]
  have moved: "moved ?c d" using F by blast
  show ?thesis
  proof (cases "is_again x")
    case False
    then show ?thesis using run d F by (auto simp: on_again_def begin_write_def)
  next
    case True
    have le: "packet_buffer_written d \<le> buf_len (packet_buffer d)" and ud: "uses d" and ld: "live (outside d)"
      using moved moved_frame [OF moved] c(3) F by (simp_all add: moved_def)
    obtain w u where u: "trilogy_sock_wait_write d = (w, u)" by fastforce
    have mu: "moved ?c u" using wait_write_cases [OF le ud u] moved_trans [OF moved] by blast
    note W = wait_write_live [OF ud ld u]
    have run': "(r, c') = checked (Pair w) (\<lambda>_. until_done trilogy_flush_writes trilogy_sock_wait_write) u"
      using run d True u by (simp add: on_again_def begin_write_def flush_full_def checked_apply)
    show ?thesis
    proof (cases w)
      case (Inl e)
      with run' W show ?thesis by (simp add: checked_apply)
    next
      case (Inr y)
      have "buffer_ok (packet_buffer u)" "packet_buffer_written u \<le> buf_len (packet_buffer u)" "uses u" "live (outside u)"
        using moved_frame [OF mu] c mu W by (simp_all add: moved_def)
      from flush_loop_ends [OF this, of r c'] run' Inr show ?thesis by simp
    qed
  qed
qed

text \<open>Sending a command ends.\<close>

lemma send_ends:
  assumes buf: "buffer_ok (packet_buffer c)" and sock: "socket c = Some s" and uses: "uses c" and live: "live (outside c)"
    and m: "builds alloc m payload"
    and k: "\<And>b d. k b d = begin_write (d\<lparr>packet_parser := f b (packet_parser d)\<rparr>)"
    and run: "on_again (checked (built_command alloc seq m) k) flush_full c = (r, c')"
  shows "r \<noteq> Inl Hang \<and> live (outside c')"
  using buf sock uses m k
proof (cases rule: sending [where seq = seq and k = k and f = f and fl = flush_full])
  case (refused e c1)
  with run live not_built_code [OF refused(2)] show ?thesis by auto
next
  case (built b d)
  then have "on_again begin_write flush_full d = (r, c')" "live (outside d)" using run live by simp_all
  with write_all_ends [OF built(2,3)] show ?thesis by blast
qed

end

context transport
begin

text \<open>A packet that was cut anywhere arrives whole, or the socket has failed.\<close>

lemma packet_cases:
  assumes ready: "ready c" and uses: "uses c"
    and stream: "unread c = frames (sequence_number (packet_parser c)) p @ extra"
    and memory: "\<not> memory_tight alloc (length p)"
    and run: "until_done (read_packet alloc) trilogy_sock_wait_read c = (r, c')"
  shows "session c' = session c \<and>
     (r = Inr () \<and> arrived p (after_fragments (sequence_number (packet_parser c)) p) c' \<and> unread c' = extra
      \<or> r = Inl Hang \<or> (\<exists>rc. r = Inl (Rc rc) \<and> rc \<noteq> TRILOGY_OK))"
proof -
  let ?fin = "after_fragments (sequence_number (packet_parser c)) p"
  have ok: "conn_ok c" using ready by (simp add: ready_def)
  have "until_done (checked (read_packet alloc) (\<lambda>_. ret ())) trilogy_sock_wait_read c = (r, c')"
    using run by (simp only: checked_unit)
  from receive_loop_cases [OF ok uses ready_expects [OF ready] frames_not_Nil stream memory _ this]
  consider d where "ret () d = (r, c')" "conn_ok d" "connection.delivered p ?fin (packet_parser d, packet_buffer d)"
      "unread d = extra" "session d = session c"
    | "session c' = session c" "r = Inl Hang \<or> (\<exists>rc. r = Inl (Rc rc) \<and> rc \<noteq> TRILOGY_OK)"
    by auto
  then show ?thesis
  proof cases
    case 1
    then have "arrived p ?fin d" using delivered_arrived by blast
    with 1 show ?thesis by (simp add: ret_def)
  qed blast
qed

end

section \<open>On a socket that does not fail\<close>

context reliable
begin

lemma write_all_done:
  assumes buf: "buffer_ok (packet_buffer c)" and uses: "uses c" and live: "live (outside c)"
    and run: "on_again begin_write flush_full c = (r, c')"
  shows "r = Inr () \<and> live (outside c')"
proof -
  let ?c = "c\<lparr>packet_buffer_written := 0\<rparr>"
  have c: "buffer_ok (packet_buffer ?c)" "packet_buffer_written ?c \<le> buf_len (packet_buffer ?c)" "uses ?c"
      "live (outside ?c)"
    using buf uses live by (simp_all add: uses_def)
  obtain x d where d: "trilogy_flush_writes ?c = (x, d)" by fastforce
  have moved: "moved ?c d" using flush_cases [OF c(1-3) d] by blast
  note frame = moved_frame [OF moved]
  have live_d: "live (outside d)" using flush_live [OF c d] by blast
  from flush_done [OF c d] show ?thesis
  proof
    assume "x = Inr ()"
    then show ?thesis using run d live_d by (simp add: on_again_def begin_write_def)
  next
    assume x: "x = Inl (Rc TRILOGY_AGAIN)"
    have le: "packet_buffer_written d \<le> buf_len (packet_buffer d)" and "uses d"
      using moved frame c(3) by (simp_all add: moved_def)
    obtain w u where u: "trilogy_sock_wait_write d = (w, u)" by fastforce
    have mu: "moved ?c u" using wait_write_cases [OF le \<open>uses d\<close> u] moved_trans [OF moved] by blast
    have "w = Inr ()" "live (outside u)"
      using wait_write_done [OF \<open>uses d\<close> live_d u] wait_write_live [OF \<open>uses d\<close> live_d u] by simp_all
    moreover have "buffer_ok (packet_buffer u)" "packet_buffer_written u \<le> buf_len (packet_buffer u)" "uses u"
      using moved_frame [OF mu] c mu by (simp_all add: moved_def)
    moreover have "(r, c') = checked (Pair w) (\<lambda>_. until_done trilogy_flush_writes trilogy_sock_wait_write) u"
      using run d x u by (simp add: on_again_def begin_write_def flush_full_def checked_apply)
    ultimately show ?thesis using flush_loop_done [of u r c'] by simp
  qed
qed

text \<open>A command that the limit and the memory allow is sent whole.\<close>

lemma send_done:
  assumes buf: "buffer_ok (packet_buffer c)" and sock: "socket c = Some s" and uses: "uses c" and live: "live (outside c)"
    and m: "builds alloc m payload"
    and k: "\<And>b d. k b d = begin_write (d\<lparr>packet_parser := f b (packet_parser d)\<rparr>)"
    and fits: "affordable alloc (packet_limit (sock_opts s)) (length payload)"
    and run: "on_again (checked (built_command alloc seq m) k) flush_full c = (r, c')"
  shows "r = Inr () \<and> live (outside c') \<and> session c' = session c \<and> unread c' = unread c \<and> (conn_ok c' \<longleftrightarrow> conn_ok c)
    \<and> outgoing (outside c') = outgoing (outside c) @ frames seq payload
    \<and> (\<exists>b. bld_seq b = seq + word_of_nat (length payload div TRILOGY_MAX_PACKET_LEN) + 1
          \<and> packet_parser c' = f b ((packet_parser c)\<lparr>sequence_number := seq + 1\<rparr>))"
proof -
  have "r = Inr () \<and> live (outside c')"
    using buf sock uses m k
  proof (cases rule: sending [where seq = seq and k = k and f = f and fl = flush_full])
    case (refused e c1)
    with affordable_built [OF fits] show ?thesis by blast
  next
    case (built b d)
    then have "on_again begin_write flush_full d = (r, c')" "live (outside d)" using run live by simp_all
    with write_all_done [OF built(2,3)] show ?thesis by blast
  qed
  with send_cases [OF buf sock uses m k run] show ?thesis by auto
qed

text \<open>An answer that is on its way is received and handled.\<close>

lemma answer_done:
  assumes ready: "ready c" and uses: "uses c" and live: "live (outside c)"
    and stream: "unread c = frames (sequence_number (packet_parser c)) p @ extra"
    and memory: "\<not> memory_tight alloc (length p)"
    and handler: "\<And>d. arrived p (after_fragments (sequence_number (packet_parser c)) p) d \<Longrightarrow>
      session d = session c \<Longrightarrow> \<not> is_again (fst (h d))"
    and run: "until_done (checked (read_packet alloc) (\<lambda>_. h)) trilogy_sock_wait_read c = (r, c')"
  obtains (handled) d where "retry (checked (read_packet alloc) (\<lambda>_. h)) trilogy_sock_wait_read c = Some (r, c')"
    and "h d = (r, c')" and "arrived p (after_fragments (sequence_number (packet_parser c)) p) d"
    and "unread d = extra" and "session d = session c" and "outgoing (outside d) = outgoing (outside c)"
    and "live (outside d)" and "uses d"
proof -
  let ?fin = "after_fragments (sequence_number (packet_parser c)) p"
  have ok: "conn_ok c" using ready by (simp add: ready_def)
  have h: "\<not> is_again (fst (h d))" if "conn_ok d" "session d = session c"
      "connection.delivered p ?fin (packet_parser d, packet_buffer d)" for d
    using handler delivered_arrived [OF that(1)] that(2,3) by blast
  obtain d where "retry (checked (read_packet alloc) (\<lambda>_. h)) trilogy_sock_wait_read c = Some (r, c')"
      and "h d = (r, c')" and "conn_ok d" and "connection.delivered p ?fin (packet_parser d, packet_buffer d)"
      and "unread d = extra" and "session d = session c" and "outgoing (outside d) = outgoing (outside c)"
      and "live (outside d)"
    using receive_loop_done [OF ok uses live ready_expects [OF ready] frames_not_Nil stream memory h run] by blast
  moreover from this have "uses d" using session_uses [of d c] uses by simp
  ultimately show ?thesis using delivered_arrived [of d p ?fin] by (intro handled [of d]) simp_all
qed

lemma answer_done_paired:
  assumes ready: "ready c" and uses: "uses c" and live: "live (outside c)"
    and stream: "unread c = frames (sequence_number (packet_parser c)) p @ extra"
    and memory: "\<not> memory_tight alloc (length p)"
    and handler: "\<And>d. arrived p (after_fragments (sequence_number (packet_parser c)) p) d \<Longrightarrow>
      session d = session c \<Longrightarrow> \<not> is_again (fst (h (d, x)))"
    and run: "until_done (checked (on_conn (read_packet alloc)) (\<lambda>_. h)) (on_conn trilogy_sock_wait_read) (c, x) = (r, (c', x'))"
  obtains (handled) d where "h (d, x) = (r, (c', x'))"
    and "arrived p (after_fragments (sequence_number (packet_parser c)) p) d"
    and "unread d = extra" and "session d = session c" and "outgoing (outside d) = outgoing (outside c)"
    and "live (outside d)" and "uses d"
proof -
  let ?fin = "after_fragments (sequence_number (packet_parser c)) p"
  obtain y t where yt: "until_done (checked (read_packet alloc) (\<lambda>_. paired h x)) trilogy_sock_wait_read c = (y, t)" by fastforce
  have "\<not> is_again (fst (paired h x d))" for d by (simp add: paired_def split: prod.splits)
  then obtain d where loop: "retry (checked (read_packet alloc) (\<lambda>_. paired h x)) trilogy_sock_wait_read c = Some (y, t)"
      and d: "paired h x d = (y, t)" "arrived p ?fin d" "unread d = extra" "session d = session c"
        "outgoing (outside d) = outgoing (outside c)" "live (outside d)" "uses d"
    using answer_done [OF ready uses live stream memory _ yt] by blast
  obtain r0 x0 where h: "h (d, x) = (r0, (t, x0))" "y = Inr (r0, x0)"
    using d(1) by (auto simp: paired_def split: prod.splits)
  with handler [OF d(2,4)] retry_paired [OF loop] have
    "retry (checked (on_conn (read_packet alloc)) (\<lambda>_. h)) (on_conn trilogy_sock_wait_read) (c, x) = Some (r0, (t, x0))"
    by simp
  then have "r0 = r" "t = c'" "x0 = x'" using run by (simp_all add: until_done_def)
  with handled h d show ?thesis by simp
qed

end

section \<open>Reading the packet that arrived\<close>

lemma arrived_buffer:
  assumes "arrived p fin c"
  obtains mem where "buf_mem (packet_buffer c) = Some mem" "unat (buf_len (packet_buffer c)) \<le> length mem"
    "take (unat (buf_len (packet_buffer c))) mem = p"
  using assms by (auto simp: arrived_def ready_def conn_ok_def buffer_ok_def contents_def split: option.splits)

lemma current_packet_type_arrived:
  assumes "arrived (b # bs) fin c"
  shows "current_packet_type c = (Inr (unat b), c)"
  using assms
proof (rule arrived_buffer)
  fix mem assume "buf_mem (packet_buffer c) = Some mem" "take (unat (buf_len (packet_buffer c))) mem = b # bs"
  then show ?thesis by (cases mem; cases "unat (buf_len (packet_buffer c))") (simp_all add: current_packet_type_def)
qed

lemma parse_packet_arrived:
  assumes "arrived p fin c" and "parses m p y" and "\<And>buff len. f buff len = fst (m (TRILOGY_READER buff len))"
  shows "parse_packet f c = (Inr y, c)"
  using assms(1)
proof (rule arrived_buffer)
  fix mem assume mem: "buf_mem (packet_buffer c) = Some mem" "unat (buf_len (packet_buffer c)) \<le> length mem"
    "take (unat (buf_len (packet_buffer c))) mem = p"
  have "fst (m (TRILOGY_READER mem (buf_len (packet_buffer c)))) = Inr y"
    by (rule parses_start) (use mem assms(2) in simp_all)
  with mem(1) assms(3) show ?thesis by (simp add: parse_packet_def)
qed

text \<open>What an OK packet leaves in the connection.\<close>

definition note_ok :: "trilogy_ok_packet \<Rightarrow> 'w trilogy_conn \<Rightarrow> 'w trilogy_conn" where
  "note_ok p c =
     (let c = c\<lparr>warning_count := ok_warning_count p, server_status := ok_status_flags p,
                affected_rows := ok_affected_rows p, last_insert_id := ok_last_insert_id p\<rparr>
      in if 0 < length (ok_last_gtid p) \<and> length (ok_last_gtid p) < TRILOGY_MAX_LAST_GTID_LEN
         then c\<lparr>last_gtid := blit 0 (ok_last_gtid p) (last_gtid c),
                last_gtid_len := word_of_nat (length (ok_last_gtid p))\<rparr>
         else c)"

lemma read_ok_packet_arrived:
  assumes "arrived p fin c" and "parses (parse_ok_packet (capabilities c)) p ok"
    and "has_capability (capabilities c) TRILOGY_CAPABILITIES_PROTOCOL_41"
  shows "read_ok_packet c = (Inr (), note_ok ok c)"
  using parse_packet_arrived [OF assms(1,2) trilogy_parse_ok_packet_def] assms(3)
  by (simp add: read_ok_packet_def checked_apply note_ok_def Let_def)

lemma read_err_packet_arrived:
  assumes "arrived p fin c" and "parses (parse_err_packet (capabilities c)) p err"
  shows "read_err_packet c = (Inl (Rc TRILOGY_ERR), set_error err c)"
  using parse_packet_arrived [OF assms(1,2) trilogy_parse_err_packet_def]
  by (simp add: read_err_packet_def checked_apply)

lemma result_packet_arrived:
  assumes "arrived p fin c" and "parses parse_result_packet p res"
  shows "parse_packet trilogy_parse_result_packet c = (Inr res, c)"
  using parse_packet_arrived [OF assms trilogy_parse_result_packet_def] .

text \<open>The answers to a command, as a server of the 4.1 protocol sends them.\<close>

datatype reply =
    Ok_reply u64 u64 u16 u16 ok_tail
  | Err_reply trilogy_err_packet
  | Columns_reply u64

primrec reply_bytes :: "u32 \<Rightarrow> reply \<Rightarrow> u8 list" where
  "reply_bytes caps (Ok_reply affected last_id flags warnings t) = ok_packet_bytes affected last_id flags warnings t"
| "reply_bytes caps (Err_reply err) = err_packet_bytes caps err"
| "reply_bytes caps (Columns_reply n) = lenenc_bytes n"

primrec reply_valid :: "u32 \<Rightarrow> reply \<Rightarrow> bool" where
  "reply_valid caps (Ok_reply affected last_id flags warnings t) \<longleftrightarrow> ok_tail_valid caps flags t"
| "reply_valid caps (Err_reply err) \<longleftrightarrow> err_packet_valid caps err"
| "reply_valid caps (Columns_reply n) \<longleftrightarrow> n \<noteq> 0"

text \<open>What the client makes of it: the result, and the changes to the connection.\<close>

primrec reply_result :: "reply \<Rightarrow> stop + unit" where
  "reply_result (Ok_reply affected last_id flags warnings t) = Inr ()"
| "reply_result (Err_reply err) = Inl (Rc TRILOGY_ERR)"
| "reply_result (Columns_reply n) = Inl (Rc TRILOGY_HAVE_RESULTS)"

primrec note_reply :: "reply \<Rightarrow> 'w trilogy_conn \<Rightarrow> 'w trilogy_conn" where
  "note_reply (Ok_reply affected last_id flags warnings t) =
     note_ok (with_ok_tail t (plain_ok_packet affected last_id flags warnings))"
| "note_reply (Err_reply err) = set_error err"
| "note_reply (Columns_reply n) = (\<lambda>c. c\<lparr>column_count := n, started_reading_rows := False\<rparr>)"

primrec reply_count :: "reply \<Rightarrow> u64 \<Rightarrow> u64" where
  "reply_count (Ok_reply affected last_id flags warnings t) count = count"
| "reply_count (Err_reply err) count = count"
| "reply_count (Columns_reply n) count = n"

lemma note_reply_frame [simp]:
  "packet_parser (note_reply a c) = packet_parser c" "packet_buffer (note_reply a c) = packet_buffer c"
  "outside (note_reply a c) = outside c" "socket (note_reply a c) = socket c"
  "buffered (note_reply a c) = buffered c" "conn_ok (note_reply a c) \<longleftrightarrow> conn_ok c"
  "capabilities (note_reply a c) = capabilities c"
  by (cases a; simp add: note_ok_def set_error_def Let_def buffered_def conn_ok_def)+

lemma lenenc_bytes_first:
  assumes "n \<noteq> 0"
  shows "\<exists>b bs. lenenc_bytes n = b # bs \<and> unat b \<noteq> 0 \<and> unat b \<noteq> 255"
proof (cases "n < 251")
  case True
  then have "unat n < 251" by (simp add: word_less_nat_alt)
  then have "unat (ucast n :: u8) = unat n" by (simp add: unsigned_ucast_eq take_bit_eq_mod)
  then show ?thesis using True assms \<open>unat n < 251\<close> by (auto simp: lenenc_bytes_def unat_eq_zero)
qed (auto simp: lenenc_bytes_def)

lemma on_conn_apply: "on_conn m (c, x) = (case m c of (r, c') \<Rightarrow> (r, (c', x)))"
  by (simp add: on_part_def split: prod.splits)

lemma packet_codes: "packet_is t TRILOGY_PACKET_OK \<longleftrightarrow> t = 0" "packet_is t TRILOGY_PACKET_ERR \<longleftrightarrow> t = 255"
  "packet_is t TRILOGY_PACKET_EOF \<longleftrightarrow> t = 254" "packet_is t TRILOGY_PACKET_AUTH_MORE_DATA \<longleftrightarrow> t = 1"
  by simp_all

lemma ok_reply_handled:
  assumes "arrived (ok_packet_bytes affected last_id flags warnings t) fin c"
    and "ok_tail_valid (capabilities c) flags t"
    and "has_capability (capabilities c) TRILOGY_CAPABILITIES_PROTOCOL_41"
  shows "current_packet_type c = (Inr 0, c)"
    and "read_ok_packet c = (Inr (), note_ok (with_ok_tail t (plain_ok_packet affected last_id flags warnings)) c)"
proof -
  show "read_ok_packet c = (Inr (), note_ok (with_ok_tail t (plain_ok_packet affected last_id flags warnings)) c)"
    by (rule read_ok_packet_arrived [OF assms(1) parses_ok_packet]) (use assms in simp_all)
  show "current_packet_type c = (Inr 0, c)"
    using current_packet_type_arrived [of 0 _ fin c] assms(1) unfolding ok_packet_bytes_def by simp
qed

lemma err_reply_handled:
  assumes "arrived (err_packet_bytes (capabilities c) err) fin c" and "err_packet_valid (capabilities c) err"
  shows "current_packet_type c = (Inr 255, c)"
    and "(read_err_packet :: ('w trilogy_conn, unit) op) c = (Inl (Rc TRILOGY_ERR), set_error err c)"
proof -
  show "(read_err_packet :: ('w trilogy_conn, unit) op) c = (Inl (Rc TRILOGY_ERR), set_error err c)"
    by (rule read_err_packet_arrived [OF assms(1) parses_err_packet [OF assms(2)]])
  show "current_packet_type c = (Inr 255, c)"
    using current_packet_type_arrived [of 255 _ fin c] assms(1) unfolding err_packet_bytes_def by simp
qed

lemma columns_reply_handled:
  assumes "arrived (lenenc_bytes n) fin c" and "n \<noteq> 0"
  shows "\<exists>t. current_packet_type c = (Inr t, c) \<and> t \<noteq> 0 \<and> t \<noteq> 255"
    and "parse_packet trilogy_parse_result_packet c = (Inr \<lparr>res_column_count = n\<rparr>, c)"
proof -
  show "parse_packet trilogy_parse_result_packet c = (Inr \<lparr>res_column_count = n\<rparr>, c)"
    using result_packet_arrived [OF _ parses_result_packet, of "\<lparr>res_column_count = n\<rparr>" fin c] assms(1)
    by (simp add: result_packet_bytes_def)
  show "\<exists>t. current_packet_type c = (Inr t, c) \<and> t \<noteq> 0 \<and> t \<noteq> 255"
    using current_packet_type_arrived [of _ _ fin c] assms(1) lenenc_bytes_first [OF assms(2)] by force
qed

lemma query_answer_handled:
  assumes arr: "arrived (reply_bytes (capabilities c) a) fin c" and valid: "reply_valid (capabilities c) a"
    and cap: "has_capability (capabilities c) TRILOGY_CAPABILITIES_PROTOCOL_41"
  shows "query_response (c, x) = (reply_result a, (note_reply a c, reply_count a x))"
proof (cases a)
  case (Ok_reply affected last_id flags warnings t)
  with ok_reply_handled [of affected last_id flags warnings t fin c] arr valid cap show ?thesis
    by (simp add: query_response_def checked_apply on_conn_apply)
next
  case (Err_reply err)
  with err_reply_handled [of c err fin] arr valid show ?thesis
    by (simp add: query_response_def checked_apply on_conn_apply)
next
  case (Columns_reply n)
  with columns_reply_handled [of n fin c] arr valid show ?thesis
    by (auto simp: query_response_def checked_apply on_conn_apply put_out_def)
qed

lemma generic_answer_handled:
  assumes arr: "arrived (reply_bytes (capabilities c) a) fin c" and valid: "reply_valid (capabilities c) a"
    and cap: "has_capability (capabilities c) TRILOGY_CAPABILITIES_PROTOCOL_41" and "\<And>n. a \<noteq> Columns_reply n"
  shows "handle_generic_response c = (reply_result a, note_reply a c)"
proof (cases a)
  case (Ok_reply affected last_id flags warnings t)
  with ok_reply_handled [of affected last_id flags warnings t fin c] arr valid cap show ?thesis
    by (simp add: checked_apply handle_generic_response_def)
next
  case (Err_reply err)
  with err_reply_handled [of c err fin] arr valid show ?thesis
    by (simp add: checked_apply handle_generic_response_def)
qed (use assms in blast)

section \<open>The exchanges\<close>

lemma query_send_built:
  "trilogy_query_send alloc sql len =
     checked (built_command alloc 0 (trilogy_build_query_packet alloc sql len)) (\<lambda>b.
     checked (put_state (\<lambda>c. c\<lparr>packet_parser := (packet_parser c)\<lparr>sequence_number := bld_seq b\<rparr>\<rparr>)) (\<lambda>_. begin_write))"
  by (simp add: trilogy_query_send_def built_command_def checked_assoc)

lemma ping_send_built:
  "trilogy_ping_send alloc = checked (built_command alloc 0 (trilogy_build_ping_packet alloc)) (\<lambda>_. begin_write)"
  by (simp add: trilogy_ping_send_def built_command_def checked_assoc)

lemma change_db_send_built:
  "trilogy_change_db_send alloc name len =
     checked (built_command alloc 0 (trilogy_build_change_db_packet alloc name len)) (\<lambda>_. begin_write)"
  by (simp add: trilogy_change_db_send_def built_command_def checked_assoc)

lemma set_option_send_built:
  "trilogy_set_option_send alloc option =
     checked (built_command alloc 0 (trilogy_build_set_option_packet alloc option)) (\<lambda>_. begin_write)"
  by (simp add: trilogy_set_option_send_def built_command_def checked_assoc)

lemma stmt_reset_send_built:
  "trilogy_stmt_reset_send alloc stmt =
     checked (built_command alloc 0 (trilogy_build_stmt_reset_packet alloc (stmt_ok_id stmt))) (\<lambda>_. begin_write)"
  by (simp add: trilogy_stmt_reset_send_def built_command_def checked_assoc)

lemma stmt_execute_send_built:
  "trilogy_stmt_execute_send alloc stmt flags binds =
     checked (built_command alloc 0 (trilogy_build_stmt_execute_packet alloc (stmt_ok_id stmt) flags binds (stmt_ok_parameter_count stmt))) (\<lambda>b.
     checked (put_state (\<lambda>c. c\<lparr>packet_parser := (packet_parser c)\<lparr>sequence_number := bld_seq b\<rparr>\<rparr>)) (\<lambda>_. begin_write))"
  by (simp add: trilogy_stmt_execute_send_def built_command_def checked_assoc)

lemma begin_write_numbered:
  "checked (put_state (\<lambda>c. c\<lparr>packet_parser := (packet_parser c)\<lparr>sequence_number := bld_seq b\<rparr>\<rparr>)) (\<lambda>_. begin_write) d =
     begin_write (d\<lparr>packet_parser := (\<lambda>b q. q\<lparr>sequence_number := bld_seq b\<rparr>) b (packet_parser d)\<rparr>)"
  by simp

lemma begin_write_plain: "begin_write d = begin_write (d\<lparr>packet_parser := (\<lambda>_ q. q) b (packet_parser d)\<rparr>)"
  by simp

lemma stmt_prepare_send_built:
  "trilogy_stmt_prepare_send alloc sql len =
     checked (built_command alloc 0 (trilogy_build_stmt_prepare_packet alloc sql len)) (\<lambda>_. begin_write)"
  by (simp add: trilogy_stmt_prepare_send_def built_command_def checked_assoc)

context reliable
begin

lemma ready_send:
  "ready c \<Longrightarrow> conn_ok c' \<Longrightarrow> packet_parser c' = (packet_parser c)\<lparr>sequence_number := n\<rparr> \<Longrightarrow>
   ready c' \<and> sequence_number (packet_parser c') = n"
  by (simp add: ready_def)

lemma query_done:
  assumes ready: "ready c" and uses: "uses c" and live: "live (outside c)" and sock: "socket c = Some s"
    and cap: "has_capability (capabilities c) TRILOGY_CAPABILITIES_PROTOCOL_41"
    and len: "unat len \<le> length sql" and fits: "affordable alloc (packet_limit (sock_opts s)) (unat len + 1)"
    and valid: "reply_valid (capabilities c) a" and memory: "\<not> memory_tight alloc (length (reply_bytes (capabilities c) a))"
    and stream: "unread c = frames (after_fragments 0 (0x03 # take (unat len) sql)) (reply_bytes (capabilities c) a) @ extra"
    and run: "trilogy_query alloc sql len (c, x) = (r, (c', x'))"
  obtains (answered) d where "r = reply_result a" and "c' = note_reply a d" and "x' = reply_count a x"
    and "ready d" and "unread d = extra" and "session d = session c" and "live (outside d)"
    and "outgoing (outside d) = outgoing (outside c) @ frames 0 (0x03 # take (unat len) sql)"
    and "sequence_number (packet_parser d) =
      after_fragments (after_fragments 0 (0x03 # take (unat len) sql)) (reply_bytes (capabilities c) a)"
proof -
  let ?payload = "0x03 # take (unat len) sql"
  have "unat len < object_limit" using fits by (simp add: affordable_def object_limit_def)
  note builds = query_builds [OF len this, of alloc]
  have buf: "buffer_ok (packet_buffer c)" using ready by (simp add: ready_def conn_ok_def)
  have fits': "affordable alloc (packet_limit (sock_opts s)) (length ?payload)" using fits len by simp
  obtain y c1 where c1: "on_again (trilogy_query_send alloc sql len) flush_full c = (y, c1)" by fastforce
  have k: "checked (put_state (\<lambda>c. c\<lparr>packet_parser := (packet_parser c)\<lparr>sequence_number := bld_seq b\<rparr>\<rparr>)) (\<lambda>_. begin_write) d =
      begin_write (d\<lparr>packet_parser := (packet_parser d)\<lparr>sequence_number := bld_seq b\<rparr>\<rparr>)" for b and d :: "'a trilogy_conn"
    by simp
  note S = send_done [OF buf sock uses live builds k fits' c1 [unfolded query_send_built]]
  then have y: "y = Inr ()" and live1: "live (outside c1)" and sess: "session c1 = session c"
      and unread: "unread c1 = unread c" and ok: "conn_ok c1"
      and out: "outgoing (outside c1) = outgoing (outside c) @ frames 0 ?payload"
    using ready by (simp_all add: ready_def)
  have "packet_parser c1 = (packet_parser c)\<lparr>sequence_number := after_fragments 0 ?payload\<rparr>"
    using S by (auto simp: after_fragments_def)
  from ready_send [OF ready ok this] have ready1: "ready c1" and seq: "sequence_number (packet_parser c1) = after_fragments 0 ?payload"
    by blast+
  have uses1: "uses c1" using session_uses [OF sess] uses by simp
  have caps: "capabilities d = capabilities c" if "session d = session c1" for d using that sess by (simp add: session_def)
  have loop: "until_done (trilogy_query_recv alloc) (on_conn trilogy_sock_wait_read) (c1, x) = (r, (c', x'))"
    using run c1 y by (simp add: trilogy_query_def on_conn_apply checked_apply)
  have handled: "query_response (d, x) = (reply_result a, (note_reply a d, reply_count a x))"
    if "arrived (reply_bytes (capabilities c) a) fin d" "session d = session c1" for d fin
    using query_answer_handled [of d a fin] that valid cap caps [OF that(2)] by simp
  have result: "\<not> is_again (reply_result a)" by (cases a) simp_all
  have stream1: "unread c1 = frames (sequence_number (packet_parser c1)) (reply_bytes (capabilities c) a) @ extra"
    using stream unread seq by simp
  show ?thesis
  proof (rule answer_done_paired [OF ready1 uses1 live1 stream1 memory _ loop [unfolded trilogy_query_recv_def]])
    show "\<not> is_again (fst (query_response (d, x)))"
      if "arrived (reply_bytes (capabilities c) a) (after_fragments (sequence_number (packet_parser c1)) (reply_bytes (capabilities c) a)) d"
        "session d = session c1" for d
      using handled [OF that] result by simp
  next
    fix d
    assume d: "query_response (d, x) = (r, (c', x'))"
        "arrived (reply_bytes (capabilities c) a) (after_fragments (sequence_number (packet_parser c1)) (reply_bytes (capabilities c) a)) d"
        "unread d = extra" "session d = session c1" "outgoing (outside d) = outgoing (outside c1)" "live (outside d)"
    with handled [OF d(2,4)] sess out seq show ?thesis by (intro answered [of d]) (simp_all add: arrived_def)
  qed
qed

text \<open>The commands that are answered by a single packet and leave the sequence number at one.\<close>

lemma generic_done:
  assumes ready: "ready c" and uses: "uses c" and live: "live (outside c)" and sock: "socket c = Some s"
    and cap: "has_capability (capabilities c) TRILOGY_CAPABILITIES_PROTOCOL_41"
    and m: "builds alloc m payload" and fits: "affordable alloc (packet_limit (sock_opts s)) (length payload)"
    and valid: "reply_valid (capabilities c) a" "\<And>n. a \<noteq> Columns_reply n"
    and memory: "\<not> memory_tight alloc (length (reply_bytes (capabilities c) a))"
    and stream: "unread c = frames 1 (reply_bytes (capabilities c) a) @ extra"
    and run: "checked (on_again (checked (built_command alloc 0 m) (\<lambda>_. begin_write)) flush_full) (\<lambda>_.
      until_done (read_generic_response alloc) trilogy_sock_wait_read) c = (r, c')"
  obtains (answered) d where "r = reply_result a" and "c' = note_reply a d"
    and "ready d" and "unread d = extra" and "session d = session c" and "live (outside d)"
    and "outgoing (outside d) = outgoing (outside c) @ frames 0 payload"
proof -
  have buf: "buffer_ok (packet_buffer c)" using ready by (simp add: ready_def conn_ok_def)
  obtain y c1 where c1: "on_again (checked (built_command alloc 0 m) (\<lambda>_. begin_write)) flush_full c = (y, c1)" by fastforce
  have k: "begin_write d = begin_write (d\<lparr>packet_parser := (\<lambda>_ q. q) b (packet_parser d)\<rparr>)"
    for b :: trilogy_builder and d :: "'a trilogy_conn" by simp
  note S = send_done [OF buf sock uses live m k fits c1]
  then have y: "y = Inr ()" and live1: "live (outside c1)" and sess: "session c1 = session c"
      and unread: "unread c1 = unread c" and ok: "conn_ok c1"
      and out: "outgoing (outside c1) = outgoing (outside c) @ frames 0 payload"
      and "packet_parser c1 = (packet_parser c)\<lparr>sequence_number := 1\<rparr>"
    using ready by (auto simp: ready_def)
  from ready_send [OF ready ok this(7)] have ready1: "ready c1" and seq: "sequence_number (packet_parser c1) = 1" by blast+
  have uses1: "uses c1" using session_uses [OF sess] uses by simp
  have caps: "capabilities d = capabilities c" if "session d = session c1" for d using that sess by (simp add: session_def)
  have loop: "until_done (checked (read_packet alloc) (\<lambda>_. handle_generic_response)) trilogy_sock_wait_read c1 = (r, c')"
    using run c1 y by (simp add: checked_apply read_generic_response_def)
  have handled: "handle_generic_response d = (reply_result a, note_reply a d)"
    if "arrived (reply_bytes (capabilities c) a) fin d" "session d = session c1" for d fin
    using generic_answer_handled [of d a fin] that valid cap caps [OF that(2)] by simp
  have result: "\<not> is_again (reply_result a)" by (cases a) simp_all
  have stream1: "unread c1 = frames (sequence_number (packet_parser c1)) (reply_bytes (capabilities c) a) @ extra"
    using stream unread seq by simp
  show ?thesis
  proof (rule answer_done [OF ready1 uses1 live1 stream1 memory _ loop])
    show "\<not> is_again (fst (handle_generic_response d))"
      if "arrived (reply_bytes (capabilities c) a) (after_fragments (sequence_number (packet_parser c1)) (reply_bytes (capabilities c) a)) d"
        "session d = session c1" for d
      using handled [OF that] result by simp
  next
    fix d
    assume d: "handle_generic_response d = (r, c')"
        "arrived (reply_bytes (capabilities c) a) (after_fragments (sequence_number (packet_parser c1)) (reply_bytes (capabilities c) a)) d"
        "unread d = extra" "session d = session c1" "outgoing (outside d) = outgoing (outside c1)" "live (outside d)"
    with handled [OF d(2,4)] sess out show ?thesis by (intro answered [of d]) (simp_all add: arrived_def)
  qed
qed

end

text \<open>The GTID that an OK packet reports is noted when it leaves room for a terminator.\<close>

definition reported_gtid :: "ok_tail \<Rightarrow> u8 list" where
  "reported_gtid t = (case t of Ok_changes status es \<Rightarrow> latest_gtid [] es | _ \<Rightarrow> [])"

definition noted :: "reply \<Rightarrow> 'w trilogy_conn \<Rightarrow> 'w trilogy_conn \<Rightarrow> bool" where
  "noted a c c' \<longleftrightarrow>
     (case a of
        Ok_reply affected last_id flags warnings t \<Rightarrow>
          affected_rows c' = affected \<and> last_insert_id c' = last_id
          \<and> server_status c' = flags \<and> warning_count c' = warnings
          \<and> (let gtid = reported_gtid t
             in if gtid \<noteq> [] \<and> length gtid < TRILOGY_MAX_LAST_GTID_LEN
                then take (unat (last_gtid_len c')) (last_gtid c') = gtid
                else last_gtid_len c' = last_gtid_len c \<and> last_gtid c' = last_gtid c)
      | Err_reply err \<Rightarrow> error_code c' = err_error_code err \<and> error_message c' = err_error_message err
      | Columns_reply n \<Rightarrow> column_count c' = n \<and> \<not> started_reading_rows c')"

lemma noted_reply:
  assumes "session d = session c"
  shows "noted a c (note_reply a d)"
proof (cases a)
  case (Ok_reply affected last_id flags warnings t)
  have "unat (word_of_nat (length g) :: size_t) = length g" if "length g < TRILOGY_MAX_LAST_GTID_LEN" for g :: "u8 list"
    using that by (intro unat_word_of_nat_size_t) (simp add: TRILOGY_MAX_LAST_GTID_LEN_def)
  with Ok_reply assms show ?thesis
    by (cases t) (auto simp: noted_def reported_gtid_def note_ok_def plain_ok_packet_def session_def blit_def Let_def)
qed (simp_all add: noted_def set_error_def)

end
