(* ===== verification/Result_Sets.thy ===== *)
theory Result_Sets
  imports Exchange
begin

text \<open>
  Result sets: the columns and the rows of a table that a server sends, read one by one with the
  blocking functions, up to the packet that ends it. A row can be read in several rounds, and
  the packet between the columns and the rows is skipped once.
\<close>

section \<open>Packets in a row\<close>

fun packets :: "u8 \<Rightarrow> u8 list list \<Rightarrow> u8 list" where
  "packets seq [] = []"
| "packets seq (p # ps) = frames seq p @ packets (after_fragments seq p) ps"

text \<open>The packet at the end of the columns or the rows, in the two variants of the protocol.\<close>

definition end_packet :: "u32 \<Rightarrow> u16 \<Rightarrow> u16 \<Rightarrow> u8 list" where
  "end_packet caps flags warnings =
     (if has_capability caps TRILOGY_CAPABILITIES_DEPRECATE_EOF
      then [0xfe] @ lenenc_bytes 0 @ lenenc_bytes 0 @ le_bytes 2 flags @ le_bytes 2 warnings @ ok_tail_bytes (Ok_info [])
      else eof_packet_bytes caps \<lparr>eof_warning_count = warnings, eof_status_flags = flags\<rparr>)"

definition note_end :: "u16 \<Rightarrow> u16 \<Rightarrow> 'w trilogy_conn \<Rightarrow> 'w trilogy_conn" where
  "note_end flags warnings c =
     (if has_capability (capabilities c) TRILOGY_CAPABILITIES_DEPRECATE_EOF
      then note_ok (with_ok_tail (Ok_info []) (plain_ok_packet 0 0 flags warnings)) c
      else c\<lparr>warning_count := warnings, server_status := flags\<rparr>)"

lemma end_packet_form:
  assumes "has_capability caps TRILOGY_CAPABILITIES_PROTOCOL_41"
  shows "\<exists>bs. end_packet caps flags warnings = 254 # bs" and "length (end_packet caps flags warnings) < 9"
  using assms by (simp_all add: end_packet_def eof_packet_bytes_def lenenc_bytes_def)

lemma arrived_length: "arrived p fin c \<Longrightarrow> length p = unat (buf_len (packet_buffer c))"
  by (metis arrived_buffer length_take min_absorb2)

lemma read_eof_packet_arrived:
  assumes "arrived (end_packet (capabilities c) flags warnings) fin c"
    and cap: "has_capability (capabilities c) TRILOGY_CAPABILITIES_PROTOCOL_41"
  shows "read_eof_packet c = (Inr (), note_end flags warnings c)"
proof (cases "has_capability (capabilities c) TRILOGY_CAPABILITIES_DEPRECATE_EOF")
  case True
  have "parses (parse_ok_packet (capabilities c)) (end_packet (capabilities c) flags warnings)
      (with_ok_tail (Ok_info []) (plain_ok_packet 0 0 flags warnings))"
    using parses_ok_fields [OF cap, of flags "Ok_info []"] True by (simp add: end_packet_def)
  from read_ok_packet_arrived [OF assms(1) this cap] True show ?thesis
    by (simp add: read_eof_packet_def note_end_def)
next
  case False
  have "parses (parse_eof_packet (capabilities c)) (end_packet (capabilities c) flags warnings)
      \<lparr>eof_warning_count = warnings, eof_status_flags = flags\<rparr>"
    unfolding end_packet_def if_not_P [OF False] using cap by (intro parses_eof_packet) simp
  from parse_packet_arrived [OF assms(1) this trilogy_parse_eof_packet_def] False cap show ?thesis
    by (simp add: read_eof_packet_def note_end_def accepting_def read_deprecated_eof_packet_def checked_apply)
qed

section \<open>Rows\<close>

lemma lenenc_string_first:
  "\<exists>b bs. lenenc_string s = b # bs \<and> unat b \<noteq> 255 \<and> (unat b = 254 \<longrightarrow> 9 \<le> length (lenenc_string s))"
proof -
  let ?n = "word_of_nat (length s) :: u64"
  have small: "unat (ucast ?n :: u8) < 251" if "?n < 251"
  proof -
    from that have "unat ?n < 251" by (simp add: word_less_nat_alt)
    then show ?thesis by (simp add: unsigned_ucast_eq take_bit_eq_mod)
  qed
  then show ?thesis by (auto simp: lenenc_string_def lenenc_bytes_def)
qed

lemma row_first:
  assumes "vs \<noteq> []"
  shows "\<exists>b bs. row_packet_bytes vs = b # bs \<and> unat b \<noteq> 255 \<and> (unat b = 254 \<longrightarrow> 9 \<le> length (row_packet_bytes vs))"
proof -
  obtain v ws where vs: "vs = v # ws" using assms by (cases vs) auto
  show ?thesis
  proof (cases v)
    case (Some s)
    with lenenc_string_first [of s] vs show ?thesis by (auto simp: row_packet_bytes_def)
  qed (simp add: vs row_packet_bytes_def)
qed

lemma row_handled:
  assumes arr: "arrived (row_packet_bytes vs) fin c" and n: "unat (column_count c) = length vs" "vs \<noteq> []"
    and room: "length vs \<le> length out" and small: "\<And>bs. Some bs \<in> set vs \<Longrightarrow> length bs < 2 ^ 64"
  shows "row_response out c = (Inr (stored_row 0 vs out), c)"
proof -
  obtain b bs where row: "row_packet_bytes vs = b # bs" "unat b \<noteq> 255" "unat b = 254 \<longrightarrow> 9 \<le> length (row_packet_bytes vs)"
    using row_first [OF n(2)] by blast
  have t: "current_packet_type c = (Inr (unat b), c)" using current_packet_type_arrived arr row(1) by metis
  have "length (row_packet_bytes vs) = unat (buf_len (packet_buffer c))"
    by (rule arrived_length [OF arr])
  with row(3) have "\<not> ends_rows (unat b) c" by (auto simp: ends_rows_def word_less_nat_alt)
  with t row(2) parse_packet_arrived [OF arr parses_row_packet [OF n(1) room small] trilogy_parse_row_packet_def]
  show ?thesis by (simp add: row_response_def checked_apply)
qed

lemma end_handled:
  assumes arr: "arrived (end_packet (capabilities c) flags warnings) fin c"
    and cap: "has_capability (capabilities c) TRILOGY_CAPABILITIES_PROTOCOL_41"
  shows "row_response out c = (Inl (Rc TRILOGY_EOF), note_end flags warnings c)"
proof -
  obtain bs where p: "end_packet (capabilities c) flags warnings = 254 # bs"
      "length (end_packet (capabilities c) flags warnings) < 9"
    using end_packet_form [OF cap] by blast
  have t: "current_packet_type c = (Inr 254, c)" using current_packet_type_arrived [of 254 bs fin c] arr p(1) by simp
  have "length (end_packet (capabilities c) flags warnings) = unat (buf_len (packet_buffer c))"
    by (rule arrived_length [OF arr])
  with p(2) have "ends_rows 254 c" by (simp add: ends_rows_def word_less_nat_alt)
  with t read_eof_packet_arrived [OF arr cap] show ?thesis by (simp add: row_response_def checked_apply)
qed

section \<open>Loops\<close>

lemma retry_cong:
  assumes "P s" and m: "\<And>s. P s \<Longrightarrow> m s = m' s"
    and inv: "\<And>s r t u. P s \<Longrightarrow> m s = (r, t) \<Longrightarrow> is_again r \<Longrightarrow> wait t = (Inr (), u) \<Longrightarrow> P u"
    and run: "retry m' wait s = Some (r, t)"
  shows "retry m wait s = Some (r, t)"
proof -
  define Q where "Q r t \<longleftrightarrow> retry m wait s = Some (r, t)" for r t
  have once: "retry m wait s' = (case m s' of (r, s1) \<Rightarrow> if is_again r
      then (case wait s1 of (w, s2) \<Rightarrow> (case w of Inl e \<Rightarrow> Some (Inl e, s2) | Inr _ \<Rightarrow> retry m wait s2)) else Some (r, s1))" for s'
    by (rule retry.simps)
  have "Q r t"
    using run
  proof (rule retry_Some_rule [where I = "\<lambda>s'. P s' \<and> retry m wait s = retry m wait s'" and Q = Q])
    show "P s \<and> retry m wait s = retry m wait s" using assms(1) by simp
  next
    fix s' r t
    assume "P s' \<and> retry m wait s = retry m wait s'" "m' s' = (r, t)" "\<not> is_again r"
    with m [of s'] once [of s'] show "Q r t" unfolding Q_def by simp
  next
    fix s' r t e u
    assume "P s' \<and> retry m wait s = retry m wait s'" "m' s' = (r, t)" "is_again r" "wait t = (Inl e, u)"
    with m [of s'] once [of s'] show "Q (Inl e) u" unfolding Q_def by simp
  next
    fix s' r t u
    assume "P s' \<and> retry m wait s = retry m wait s'" "m' s' = (r, t)" "is_again r" "wait t = (Inr (), u)"
    with m [of s'] once [of s'] inv [of s' r t u] show "P u \<and> retry m wait s = retry m wait u" by simp
  qed
  then show ?thesis by (simp add: Q_def)
qed

text \<open>A first part that is not repeated once it is done.\<close>

lemma retry_first_part:
  assumes "P s" and m: "\<And>s. P s \<Longrightarrow> m s = checked m1 k s"
    and inv: "\<And>s r t u. P s \<Longrightarrow> m1 s = (r, t) \<Longrightarrow> is_again r \<Longrightarrow> wait t = (Inr (), u) \<Longrightarrow> P u"
    and k: "\<And>s y t. P s \<Longrightarrow> m1 s = (Inr y, t) \<Longrightarrow> k y t = m t"
    and run: "retry m1 wait s = Some (Inr x, t)"
  shows "retry m wait s = retry m wait t"
proof -
  define Q where "Q r t \<longleftrightarrow> (\<forall>x. r = Inr x \<longrightarrow> retry m wait s = retry m wait t)" for r :: "stop + 'c" and t
  have once: "retry m wait s' = (case m s' of (r, s1) \<Rightarrow> if is_again r
      then (case wait s1 of (w, s2) \<Rightarrow> (case w of Inl e \<Rightarrow> Some (Inl e, s2) | Inr _ \<Rightarrow> retry m wait s2)) else Some (r, s1))" for s'
    by (rule retry.simps)
  have "Q (Inr x) t"
    using run
  proof (rule retry_Some_rule [where I = "\<lambda>s'. P s' \<and> retry m wait s = retry m wait s'" and Q = Q])
    show "P s \<and> retry m wait s = retry m wait s" using assms(1) by simp
  next
    fix s' r t
    assume s': "P s' \<and> retry m wait s = retry m wait s'" and m1: "m1 s' = (r, t)"
    show "Q r t" unfolding Q_def
    proof (intro allI impI)
      fix x assume "r = Inr x"
      then have "m s' = m t" using m [of s'] k [of s' x t] m1 s' by (simp add: checked_apply)
      with once [of s'] once [of t] s' show "retry m wait s = retry m wait t" by simp
    qed
  next
    fix s' r t u
    assume s': "P s' \<and> retry m wait s = retry m wait s'" and m1: "m1 s' = (r, t)" "is_again r" "wait t = (Inr (), u)"
    then have "m s' = (Inl (Rc TRILOGY_AGAIN), t)" using m [of s'] by (simp add: checked_apply is_again_iff)
    with m1 s' once [of s'] inv [of s' r t u] show "P u \<and> retry m wait s = retry m wait u" by simp
  qed (simp add: Q_def)
  then show ?thesis by (simp add: Q_def)
qed

section \<open>What reading a row leaves alone\<close>

definition keeps :: "('w trilogy_conn, 'a) op \<Rightarrow> bool" where
  "keeps m \<longleftrightarrow> (\<forall>c r d. m c = (r, d) \<longrightarrow>
     started_reading_rows d = started_reading_rows c \<and> capabilities d = capabilities c \<and> column_count d = column_count c)"

named_theorems keeps_intros "operations that keep the description of the rows"

lemma keeps_checked [keeps_intros]: "keeps m \<Longrightarrow> (\<And>x. keeps (k x)) \<Longrightarrow> keeps (checked m k)"
  unfolding keeps_def by (auto simp: checked_apply split: prod.splits sum.splits)

lemma keeps_basic [keeps_intros]: "keeps (ret x)" "keeps (throw e)" "keeps (halt h)" "keeps get_state"
  by (simp_all add: keeps_def)

lemma keeps_if [keeps_intros]: "keeps m \<Longrightarrow> keeps m' \<Longrightarrow> keeps (if b then m else m')"
  by simp

lemma keeps_packet [keeps_intros]: "keeps current_packet_type" "keeps (parse_packet f)"
  by (auto simp: keeps_def current_packet_type_def parse_packet_def split: option.splits list.splits)

lemma keeps_put [keeps_intros]:
  "(\<And>c. started_reading_rows (f c) = started_reading_rows c \<and> capabilities (f c) = capabilities c
      \<and> column_count (f c) = column_count c) \<Longrightarrow> keeps (put_state f)"
  by (simp add: keeps_def)

lemma keeps_accepting [keeps_intros]: "keeps m \<Longrightarrow> keeps (accepting e m)"
  by (auto simp: keeps_def accepting_def split: prod.splits)

lemma keeps_with_socket [keeps_intros]: "keeps (with_socket f)"
  by (auto simp: keeps_def with_socket_def split: option.splits prod.splits)

lemma keeps_on_parser [keeps_intros]: "keeps (on_part (\<lambda>c. (packet_parser c, packet_buffer c))
    (\<lambda>x c. c\<lparr>packet_parser := fst x, packet_buffer := snd x\<rparr>) m)"
  by (auto simp: keeps_def on_part_def split: prod.splits)

lemma keeps_wait: "keeps trilogy_sock_wait_read"
  unfolding trilogy_sock_wait_read_def by (rule keeps_intros)

lemma keeps_return_code [keeps_intros]: "keeps (return_code n)"
  by (simp add: return_code_def keeps_intros split: option.splits)

lemma keeps_receive: "keeps receive"
  unfolding receive_def trilogy_sock_read_def by (intro keeps_intros) simp_all

lemma keeps_parse_received: "keeps (parse_received alloc)"
  unfolding parse_received_def Let_def split_def by (intro keeps_intros) simp_all

lemma keeps_read_packet: "keeps (read_packet alloc)"
  unfolding read_packet_def by (intro keeps_intros keeps_receive keeps_parse_received)

lemma keeps_eof_packet: "keeps read_eof_packet"
  unfolding read_eof_packet_def read_ok_packet_def read_deprecated_eof_packet_def
  by (intro keeps_intros) simp_all

lemma keeps_row_response: "keeps (row_response out)"
  unfolding row_response_def read_err_packet_def
  by (intro keeps_intros keeps_eof_packet) (simp_all add: set_error_def)

lemma keepsD: "keeps m \<Longrightarrow> m c = (r, d) \<Longrightarrow>
    started_reading_rows d = started_reading_rows c \<and> capabilities d = capabilities c \<and> column_count d = column_count c"
  by (simp add: keeps_def)

text \<open>\<^verbatim>\<open>trilogy_read_row\<close> in the three situations.\<close>

lemma read_row_started:
  "started_reading_rows c \<Longrightarrow>
   trilogy_read_row alloc out c = checked (read_packet alloc) (\<lambda>_. row_response out) c"
  by (simp add: trilogy_read_row_def)

lemma read_row_unstarted:
  assumes "\<not> started_reading_rows c" and "has_capability (capabilities c) TRILOGY_CAPABILITIES_DEPRECATE_EOF"
  shows "trilogy_read_row alloc out c = trilogy_read_row alloc out (c\<lparr>started_reading_rows := True\<rparr>)"
  using assms by (simp add: trilogy_read_row_def checked_apply)

lemma read_row_after_columns:
  assumes "\<not> started_reading_rows c" and "\<not> has_capability (capabilities c) TRILOGY_CAPABILITIES_DEPRECATE_EOF"
  shows "trilogy_read_row alloc out c =
    checked (checked (read_packet alloc) (\<lambda>_. checked read_eof_packet (\<lambda>_. put_state (\<lambda>c. c\<lparr>started_reading_rows := True\<rparr>))))
      (\<lambda>_. checked (read_packet alloc) (\<lambda>_. row_response out)) c"
  using assms by (simp add: trilogy_read_row_def read_eof_def checked_assoc)

lemma retry_rows:
  assumes "started_reading_rows c"
    and "retry (checked (read_packet alloc) (\<lambda>_. row_response out)) trilogy_sock_wait_read c = Some (r, c')"
  shows "retry (trilogy_read_row alloc out) trilogy_sock_wait_read c = Some (r, c')"
proof (rule retry_cong [where P = started_reading_rows, OF assms(1) read_row_started _ assms(2)])
  fix s r t u
  assume s: "started_reading_rows s" "trilogy_read_row alloc out s = (r, t)" and w: "trilogy_sock_wait_read t = (Inr (), u)"
  have "keeps (checked (read_packet alloc) (\<lambda>_. row_response out))"
    by (intro keeps_intros keeps_read_packet keeps_row_response)
  from keepsD [OF this s(2) [unfolded read_row_started [OF s(1)]]] keepsD [OF keeps_wait w] s(1)
  show "started_reading_rows u" by simp
qed

lemma retry_unstarted:
  assumes "\<not> started_reading_rows c" and "has_capability (capabilities c) TRILOGY_CAPABILITIES_DEPRECATE_EOF"
  shows "retry (trilogy_read_row alloc out) wait c = retry (trilogy_read_row alloc out) wait (c\<lparr>started_reading_rows := True\<rparr>)"
  by (subst (1 2) retry.simps) (simp add: read_row_unstarted [OF assms])

lemma retry_after_columns:
  assumes "\<not> started_reading_rows c" and "\<not> has_capability (capabilities c) TRILOGY_CAPABILITIES_DEPRECATE_EOF"
    and "retry (checked (read_packet alloc) (\<lambda>_. checked read_eof_packet (\<lambda>_. put_state (\<lambda>c. c\<lparr>started_reading_rows := True\<rparr>))))
      trilogy_sock_wait_read c = Some (Inr (), d)"
  shows "retry (trilogy_read_row alloc out) trilogy_sock_wait_read c = retry (trilogy_read_row alloc out) trilogy_sock_wait_read d"
proof -
  let ?m1 = "checked (read_packet alloc) (\<lambda>_. checked read_eof_packet (\<lambda>_. put_state (\<lambda>c. c\<lparr>started_reading_rows := True\<rparr>)))
      :: ('a trilogy_conn, unit) op"
  define P where "P c \<longleftrightarrow> \<not> started_reading_rows c \<and> \<not> has_capability (capabilities c) TRILOGY_CAPABILITIES_DEPRECATE_EOF"
    for c :: "'a trilogy_conn"
  have skipped: "case r of Inl e \<Rightarrow> P t | Inr _ \<Rightarrow> started_reading_rows t" if "P s" "?m1 s = (r, t)" for s r t
  proof -
    obtain r1 s1 where s1: "read_packet alloc s = (r1, s1)" by fastforce
    obtain r2 s2 where s2: "read_eof_packet s1 = (r2, s2)" by fastforce
    from that keepsD [OF keeps_read_packet s1] keepsD [OF keeps_eof_packet s2] s1 s2 show ?thesis
      by (cases r1; cases r2) (auto simp: P_def checked_apply)
  qed
  show ?thesis
  proof (rule retry_first_part [where P = P, OF _ _ _ _ assms(3)])
    show "P c" using assms(1,2) by (simp add: P_def)
    show "trilogy_read_row alloc out s = checked ?m1 (\<lambda>_. checked (read_packet alloc) (\<lambda>_. row_response out)) s"
      if "P s" for s
      using read_row_after_columns [of s alloc out] that unfolding P_def by blast
    show "checked (read_packet alloc) (\<lambda>_. row_response out) t = trilogy_read_row alloc out t"
      if "P s" "?m1 s = (Inr y, t)" for s y t
      using skipped [OF that] read_row_started [of t alloc out] by simp
    show "P u" if "P s" "?m1 s = (r, t)" "is_again r" "trilogy_sock_wait_read t = (Inr (), u)" for s r t u
      using skipped [OF that(1,2)] that(3) keepsD [OF keeps_wait that(4)] by (auto simp: is_again_iff P_def)
  qed
qed

section \<open>The table\<close>

text \<open>The calls of a client that knows the numbers of columns and rows.\<close>

primrec read_columns :: "allocator \<Rightarrow> nat \<Rightarrow> ('w trilogy_conn, trilogy_column_packet list) op" where
  "read_columns alloc 0 = ret []"
| "read_columns alloc (Suc n) =
     checked (trilogy_read_full_column alloc) (\<lambda>p. checked (read_columns alloc n) (\<lambda>ps. ret (p # ps)))"

primrec read_rows :: "allocator \<Rightarrow> trilogy_value list \<Rightarrow> nat \<Rightarrow> ('w trilogy_conn, trilogy_value list list) op" where
  "read_rows alloc out 0 = ret []"
| "read_rows alloc out (Suc n) =
     checked (trilogy_read_full_row alloc out) (\<lambda>vs. checked (read_rows alloc out n) (\<lambda>rows. ret (vs # rows)))"

context reliable
begin

definition expecting :: "u8 list list \<Rightarrow> u8 list \<Rightarrow> 'a trilogy_conn \<Rightarrow> bool" where
  "expecting ps extra c \<longleftrightarrow> ready c \<and> uses c \<and> live (outside c)
     \<and> unread c = packets (sequence_number (packet_parser c)) ps @ extra"

lemma packet_done:
  assumes exp: "expecting (p # ps) extra c" and memory: "\<not> memory_tight alloc (length p)"
    and handler: "\<And>d fin. arrived p fin d \<Longrightarrow> session d = session c \<Longrightarrow> \<not> is_again (fst (h d))"
  obtains (handled) d fin r c' where "retry (checked (read_packet alloc) (\<lambda>_. h)) trilogy_sock_wait_read c = Some (r, c')"
    and "h d = (r, c')" and "arrived p fin d" and "expecting ps extra d" and "session d = session c"
    and "outgoing (outside d) = outgoing (outside c)"
proof -
  obtain r c' where run: "until_done (checked (read_packet alloc) (\<lambda>_. h)) trilogy_sock_wait_read c = (r, c')" by fastforce
  have c: "ready c" "uses c" "live (outside c)" using exp by (simp_all add: expecting_def)
  have stream: "unread c = frames (sequence_number (packet_parser c)) p
      @ packets (after_fragments (sequence_number (packet_parser c)) p) ps @ extra"
    using exp by (simp add: expecting_def)
  show ?thesis
    by (rule answer_done [OF c stream memory handler run])
      (use handled in \<open>auto simp: expecting_def arrived_def\<close>)
qed

lemma expecting_cong:
  assumes "expecting ps extra c" and "packet_parser d = packet_parser c" "packet_buffer d = packet_buffer c"
    "outside d = outside c" "socket d = socket c" "buffered d = buffered c" "conn_ok d \<longleftrightarrow> conn_ok c"
  shows "expecting ps extra d"
  using assms by (simp add: expecting_def ready_def uses_def unread_def)

lemma column_done:
  assumes exp: "expecting (column_packet_bytes False fixed filler p # ps) extra c"
    and memory: "\<not> memory_tight alloc (length (column_packet_bytes False fixed filler p))"
    and valid: "\<forall>bs \<in> set (column_strings p). length bs < 2 ^ 64" "col_default_value p = []"
  shows "\<exists>d. trilogy_read_full_column alloc c = (Inr p, d) \<and> expecting ps extra d \<and> session d = session c
    \<and> outgoing (outside d) = outgoing (outside c)"
proof -
  let ?h = "parse_packet (\<lambda>buff len. trilogy_parse_column_packet buff len False)"
  have h: "?h d = (Inr p, d)" if "arrived (column_packet_bytes False fixed filler p) fin d" for d :: "'a trilogy_conn" and fin
    by (rule parse_packet_arrived [OF that parses_column_packet trilogy_parse_column_packet_def])
      (use valid in simp_all)
  obtain d fin r c' where "retry (checked (read_packet alloc) (\<lambda>_. ?h)) trilogy_sock_wait_read c = Some (r, c')"
    "?h d = (r, c')" "arrived (column_packet_bytes False fixed filler p) fin d" "expecting ps extra d" "session d = session c"
    "outgoing (outside d) = outgoing (outside c)"
    by (rule packet_done [OF exp memory, where h = ?h]) (use h in \<open>simp, blast\<close>)
  with h [of fin d] show ?thesis
    by (auto simp: trilogy_read_full_column_def trilogy_read_column_def until_done_def)
qed

text \<open>The skipped packet, and the flag.\<close>

lemma rows_start:
  assumes exp: "expecting (if has_capability (capabilities c) TRILOGY_CAPABILITIES_DEPRECATE_EOF then ps
        else end_packet (capabilities c) flags warnings # ps) extra c"
    and start: "\<not> started_reading_rows c" and cap: "has_capability (capabilities c) TRILOGY_CAPABILITIES_PROTOCOL_41"
    and memory: "\<not> memory_tight alloc 9"
  shows "\<exists>d. retry (trilogy_read_row alloc out) trilogy_sock_wait_read c = retry (trilogy_read_row alloc out) trilogy_sock_wait_read d
    \<and> expecting ps extra d \<and> started_reading_rows d \<and> capabilities d = capabilities c \<and> column_count d = column_count c
    \<and> socket d = socket c \<and> outgoing (outside d) = outgoing (outside c)"
proof (cases "has_capability (capabilities c) TRILOGY_CAPABILITIES_DEPRECATE_EOF")
  case True
  have "expecting ps extra (c\<lparr>started_reading_rows := True\<rparr>)"
    by (rule expecting_cong [of ps extra c]) (use exp True in \<open>simp_all add: buffered_def conn_ok_def\<close>)
  with retry_unstarted [OF start True] show ?thesis by (intro exI [of _ "c\<lparr>started_reading_rows := True\<rparr>"]) simp
next
  case False
  let ?h = "checked read_eof_packet (\<lambda>_. put_state (\<lambda>c. c\<lparr>started_reading_rows := True\<rparr>)) :: ('a trilogy_conn, unit) op"
  let ?p = "end_packet (capabilities c) flags warnings"
  have h: "?h d = (Inr (), (note_end flags warnings d)\<lparr>started_reading_rows := True\<rparr>)"
    if "arrived ?p fin d" "session d = session c" for d fin
  proof -
    have "capabilities d = capabilities c" using that(2) by (simp add: session_def)
    with read_eof_packet_arrived [of d flags warnings fin] that(1) cap show ?thesis by (simp add: checked_apply)
  qed
  have exp': "expecting (?p # ps) extra c" using exp False by simp
  have memory': "\<not> memory_tight alloc (length ?p)"
    using memory end_packet_form(2) [OF cap, of flags warnings] by (auto simp: memory_tight_def)
  obtain d fin r c' where d: "retry (checked (read_packet alloc) (\<lambda>_. ?h)) trilogy_sock_wait_read c = Some (r, c')"
    "?h d = (r, c')" "arrived ?p fin d" "expecting ps extra d" "session d = session c"
    "outgoing (outside d) = outgoing (outside c)"
    by (rule packet_done [OF exp' memory', where h = ?h]) (use h in \<open>simp, blast\<close>)
  let ?d = "(note_end flags warnings d)\<lparr>started_reading_rows := True\<rparr>"
  have r: "r = Inr ()" "c' = ?d" using h [OF d(3,5)] d(2) by simp_all
  have "expecting ps extra ?d"
    by (rule expecting_cong [OF d(4)])
      (simp_all add: note_end_def note_ok_def Let_def buffered_def conn_ok_def)
  moreover have "capabilities ?d = capabilities c" "column_count ?d = column_count c" "socket ?d = socket c"
      "outgoing (outside ?d) = outgoing (outside c)"
    using d(5,6) by (simp_all add: session_def note_end_def note_ok_def Let_def)
  ultimately show ?thesis
    using retry_after_columns [OF start False d(1) [unfolded r]] by (intro exI [of _ ?d]) simp
qed

text \<open>The rows \<open>ps\<close> are to come, the packet before them included.\<close>

definition rows_ahead :: "u8 list list \<Rightarrow> u8 list \<Rightarrow> 'a trilogy_conn \<Rightarrow> bool" where
  "rows_ahead ps extra c \<longleftrightarrow>
     has_capability (capabilities c) TRILOGY_CAPABILITIES_PROTOCOL_41 \<and>
     (if started_reading_rows c then expecting ps extra c
      else \<exists>flags warnings. expecting (if has_capability (capabilities c) TRILOGY_CAPABILITIES_DEPRECATE_EOF then ps
             else end_packet (capabilities c) flags warnings # ps) extra c)"

lemma rows_ahead_start:
  assumes "rows_ahead ps extra c" and "\<not> memory_tight alloc 9"
  shows "\<exists>d. retry (trilogy_read_row alloc out) trilogy_sock_wait_read c = retry (trilogy_read_row alloc out) trilogy_sock_wait_read d
    \<and> expecting ps extra d \<and> started_reading_rows d \<and> capabilities d = capabilities c \<and> column_count d = column_count c
    \<and> socket d = socket c \<and> outgoing (outside d) = outgoing (outside c)"
  using assms rows_start by (cases "started_reading_rows c") (auto simp: rows_ahead_def)

lemma row_done:
  assumes ahead: "rows_ahead (row_packet_bytes vs # ps) extra c" and n: "unat (column_count c) = length vs" "vs \<noteq> []"
    and room: "length vs \<le> length out" and small: "\<And>bs. Some bs \<in> set vs \<Longrightarrow> length bs < 2 ^ 64"
    and memory: "\<not> memory_tight alloc (length (row_packet_bytes vs) + 9)"
  shows "\<exists>d. trilogy_read_full_row alloc out c = (Inr (stored_row 0 vs out), d) \<and> rows_ahead ps extra d
    \<and> capabilities d = capabilities c \<and> column_count d = column_count c
    \<and> socket d = socket c \<and> outgoing (outside d) = outgoing (outside c)"
proof -
  have memory': "\<not> memory_tight alloc 9" "\<not> memory_tight alloc (length (row_packet_bytes vs))"
    using memory by (auto simp: memory_tight_def)
  obtain c1 where start: "retry (trilogy_read_row alloc out) trilogy_sock_wait_read c = retry (trilogy_read_row alloc out) trilogy_sock_wait_read c1"
      and exp: "expecting (row_packet_bytes vs # ps) extra c1" and started: "started_reading_rows c1"
      and same: "capabilities c1 = capabilities c" "column_count c1 = column_count c" "socket c1 = socket c"
        "outgoing (outside c1) = outgoing (outside c)"
    using rows_ahead_start [OF ahead memory'(1)] by blast
  have h: "row_response out d = (Inr (stored_row 0 vs out), d)"
    if "arrived (row_packet_bytes vs) fin d" "session d = session c1" for d fin
    using that n same by (intro row_handled [OF that(1) _ n(2) room small]) (simp_all add: session_def)
  obtain d fin r c' where d: "retry (checked (read_packet alloc) (\<lambda>_. row_response out)) trilogy_sock_wait_read c1 = Some (r, c')"
    "row_response out d = (r, c')" "arrived (row_packet_bytes vs) fin d" "expecting ps extra d" "session d = session c1"
    "outgoing (outside d) = outgoing (outside c1)"
    by (rule packet_done [OF exp memory'(2), where h = "row_response out"]) (use h in \<open>simp, blast\<close>)
  have r: "r = Inr (stored_row 0 vs out)" "c' = d" using h [OF d(3,5)] d(2) by simp_all
  have "trilogy_read_full_row alloc out c = (Inr (stored_row 0 vs out), d)"
    using retry_rows [OF started d(1)] start r by (simp add: trilogy_read_full_row_def until_done_def)
  moreover have "rows_ahead ps extra d" "capabilities d = capabilities c" "column_count d = column_count c"
      "socket d = socket c" "outgoing (outside d) = outgoing (outside c)"
    using d(4-6) same started ahead by (simp_all add: rows_ahead_def session_def)
  ultimately show ?thesis by blast
qed

lemma rows_end:
  assumes ahead: "rows_ahead (end_packet (capabilities c) flags warnings # ps) extra c" and memory: "\<not> memory_tight alloc 9"
  shows "\<exists>d. trilogy_read_full_row alloc out c = (Inl (Rc TRILOGY_EOF), d) \<and> expecting ps extra d
    \<and> server_status d = flags \<and> warning_count d = warnings \<and> capabilities d = capabilities c
    \<and> socket d = socket c \<and> outgoing (outside d) = outgoing (outside c)"
proof -
  let ?p = "end_packet (capabilities c) flags warnings"
  have cap: "has_capability (capabilities c) TRILOGY_CAPABILITIES_PROTOCOL_41" using ahead by (simp add: rows_ahead_def)
  have memory': "\<not> memory_tight alloc (length ?p)"
    using memory end_packet_form(2) [OF cap, of flags warnings] by (auto simp: memory_tight_def)
  obtain c1 where start: "retry (trilogy_read_row alloc out) trilogy_sock_wait_read c = retry (trilogy_read_row alloc out) trilogy_sock_wait_read c1"
      and exp: "expecting (?p # ps) extra c1" and started: "started_reading_rows c1"
      and same: "capabilities c1 = capabilities c" "column_count c1 = column_count c" "socket c1 = socket c"
        "outgoing (outside c1) = outgoing (outside c)"
    using rows_ahead_start [OF ahead memory] by blast
  have h: "row_response out d = (Inl (Rc TRILOGY_EOF), note_end flags warnings d)"
    if "arrived ?p fin d" "session d = session c1" for d fin
  proof -
    have "capabilities d = capabilities c" using that(2) same by (simp add: session_def)
    with end_handled [of d flags warnings fin out] that(1) cap show ?thesis by simp
  qed
  obtain d fin r c' where d: "retry (checked (read_packet alloc) (\<lambda>_. row_response out)) trilogy_sock_wait_read c1 = Some (r, c')"
    "row_response out d = (r, c')" "arrived ?p fin d" "expecting ps extra d" "session d = session c1"
    "outgoing (outside d) = outgoing (outside c1)"
    by (rule packet_done [OF exp memory', where h = "row_response out"]) (use h in \<open>simp, blast\<close>)
  have r: "r = Inl (Rc TRILOGY_EOF)" "c' = note_end flags warnings d" using h [OF d(3,5)] d(2) by simp_all
  have "trilogy_read_full_row alloc out c = (Inl (Rc TRILOGY_EOF), note_end flags warnings d)"
    using retry_rows [OF started d(1)] start r by (simp add: trilogy_read_full_row_def until_done_def)
  moreover have "expecting ps extra (note_end flags warnings d)"
    by (rule expecting_cong [OF d(4)]) (simp_all add: note_end_def note_ok_def Let_def buffered_def conn_ok_def)
  moreover have "server_status (note_end flags warnings d) = flags" "warning_count (note_end flags warnings d) = warnings"
      "capabilities (note_end flags warnings d) = capabilities c" "socket (note_end flags warnings d) = socket c"
      "outgoing (outside (note_end flags warnings d)) = outgoing (outside c)"
    using d(5,6) same by (simp_all add: note_end_def note_ok_def Let_def plain_ok_packet_def session_def)
  ultimately show ?thesis by blast
qed

lemma rows_done:
  assumes "rows_ahead (map row_packet_bytes rows @ ps) extra c"
    and "\<And>vs. vs \<in> set rows \<Longrightarrow> length vs = unat (column_count c)" and "column_count c \<noteq> 0"
    and "unat (column_count c) \<le> length out"
    and "\<And>vs bs. vs \<in> set rows \<Longrightarrow> Some bs \<in> set vs \<Longrightarrow> length bs < 2 ^ 64"
    and "\<And>vs. vs \<in> set rows \<Longrightarrow> \<not> memory_tight alloc (length (row_packet_bytes vs) + 9)"
  shows "\<exists>d. read_rows alloc out (length rows) c = (Inr (map (\<lambda>vs. stored_row 0 vs out) rows), d)
    \<and> rows_ahead ps extra d \<and> capabilities d = capabilities c \<and> column_count d = column_count c"
  using assms
proof (induction rows arbitrary: c)
  case (Cons vs rows)
  have "unat (column_count c) \<noteq> 0" using Cons.prems(3) by (simp add: unat_eq_zero)
  then have vs: "unat (column_count c) = length vs" "vs \<noteq> []" using Cons.prems(2) [of vs] by auto
  have "rows_ahead (row_packet_bytes vs # map row_packet_bytes rows @ ps) extra c" using Cons.prems(1) by simp
  then obtain d where d: "trilogy_read_full_row alloc out c = (Inr (stored_row 0 vs out), d)"
      "rows_ahead (map row_packet_bytes rows @ ps) extra d" "capabilities d = capabilities c" "column_count d = column_count c"
    using row_done [of vs _ extra c out alloc] vs Cons.prems(4,5,6) by force
  from Cons.IH [OF d(2)] Cons.prems(2-6) d(3,4) obtain e where
    "read_rows alloc out (length rows) d = (Inr (map (\<lambda>vs. stored_row 0 vs out) rows), e)"
    "rows_ahead ps extra e" "capabilities e = capabilities c" "column_count e = column_count c"
    by auto
  with d(1) show ?case by (simp add: checked_apply)
qed simp

lemma columns_done:
  assumes "expecting (map (column_packet_bytes False fixed filler) cols @ ps) extra c"
    and "\<And>p. p \<in> set cols \<Longrightarrow> (\<forall>bs \<in> set (column_strings p). length bs < 2 ^ 64) \<and> col_default_value p = []"
    and "\<And>p. p \<in> set cols \<Longrightarrow> \<not> memory_tight alloc (length (column_packet_bytes False fixed filler p))"
  shows "\<exists>d. read_columns alloc (length cols) c = (Inr cols, d) \<and> expecting ps extra d \<and> session d = session c"
  using assms
proof (induction cols arbitrary: c)
  case (Cons p cols)
  have "expecting (column_packet_bytes False fixed filler p # map (column_packet_bytes False fixed filler) cols @ ps) extra c"
    using Cons.prems(1) by simp
  then obtain d where d: "trilogy_read_full_column alloc c = (Inr p, d)"
      "expecting (map (column_packet_bytes False fixed filler) cols @ ps) extra d" "session d = session c"
    using column_done Cons.prems(2,3) [of p] by force
  from Cons.IH [OF d(2)] Cons.prems(2,3) d(3) obtain e where
    "read_columns alloc (length cols) d = (Inr cols, e)" "expecting ps extra e" "session e = session c" by auto
  with d(1) show ?case by (simp add: checked_apply)
qed simp

text \<open>A query with a table as its answer.\<close>

lemma table_done:
  assumes ready: "ready c" and uses: "uses c" and live: "live (outside c)" and sock: "socket c = Some s"
    and cap: "has_capability (capabilities c) TRILOGY_CAPABILITIES_PROTOCOL_41"
    and len: "unat len \<le> length sql" and fits: "affordable alloc (packet_limit (sock_opts s)) (unat len + 1)"
    and cols: "cols \<noteq> []" "length cols < 2 ^ 64" "length cols \<le> length out"
      "\<And>p. p \<in> set cols \<Longrightarrow> (\<forall>bs \<in> set (column_strings p). length bs < 2 ^ 64) \<and> col_default_value p = []
         \<and> length (column_packet_bytes False fixed filler p) \<le> 2 ^ 62"
    and rows: "\<And>vs. vs \<in> set rows \<Longrightarrow> length vs = length cols \<and> length (row_packet_bytes vs) + 9 \<le> 2 ^ 62
         \<and> (\<forall>bs. Some bs \<in> set vs \<longrightarrow> length bs < 2 ^ 64)"
    and stream: "unread c = packets (after_fragments 0 (0x03 # take (unat len) sql))
      (lenenc_bytes (word_of_nat (length cols)) # map (column_packet_bytes False fixed filler) cols
       @ (if has_capability (capabilities c) TRILOGY_CAPABILITIES_DEPRECATE_EOF then []
          else [end_packet (capabilities c) flags0 warnings0])
       @ map row_packet_bytes rows @ [end_packet (capabilities c) flags warnings]) @ extra"
  shows "\<exists>c1 c2 c3 c4.
      trilogy_query alloc sql len (c, count) = (Inl (Rc TRILOGY_HAVE_RESULTS), (c1, word_of_nat (length cols)))
    \<and> read_columns alloc (length cols) c1 = (Inr cols, c2)
    \<and> read_rows alloc out (length rows) c2 = (Inr (map (\<lambda>vs. stored_row 0 vs out) rows), c3)
    \<and> trilogy_read_full_row alloc out c3 = (Inl (Rc TRILOGY_EOF), c4)
    \<and> expecting [] extra c4 \<and> server_status c4 = flags \<and> warning_count c4 = warnings"
proof -
  let ?n = "word_of_nat (length cols) :: u64"
  have n: "unat ?n = length cols" using cols(2) by (intro unat_word_of_nat_size_t) simp
  then have "?n \<noteq> 0" using cols(1) by (auto simp: unat_eq_zero [symmetric])
  have generous: "generous alloc" using fits by (simp add: affordable_def)
  let ?caps = "capabilities c"
  let ?ends = "if has_capability ?caps TRILOGY_CAPABILITIES_DEPRECATE_EOF then [] else [end_packet ?caps flags0 warnings0]"
  let ?rest = "map (column_packet_bytes False fixed filler) cols @ ?ends @ map row_packet_bytes rows @ [end_packet ?caps flags warnings]"
  let ?seq = "after_fragments 0 (0x03 # take (unat len) sql)"
  have "length (lenenc_bytes ?n) \<le> 9" by (simp add: lenenc_bytes_def)
  then have memory: "\<not> memory_tight alloc (length (reply_bytes ?caps (Columns_reply ?n)))"
    using generous by (simp add: memory_tight_def)
  have stream': "unread c = frames ?seq (reply_bytes ?caps (Columns_reply ?n)) @ packets (after_fragments ?seq (lenenc_bytes ?n)) ?rest @ extra"
    using stream by simp
  obtain r c1 x where run: "trilogy_query alloc sql len (c, count) = (r, (c1, x))" by (metis prod_cases3)
  have valid: "reply_valid ?caps (Columns_reply ?n)" using \<open>?n \<noteq> 0\<close> by simp
  obtain d where d: "r = Inl (Rc TRILOGY_HAVE_RESULTS)" "c1 = note_reply (Columns_reply ?n) d" "x = ?n"
      "ready d" "unread d = packets (after_fragments ?seq (lenenc_bytes ?n)) ?rest @ extra" "session d = session c"
      "live (outside d)" "sequence_number (packet_parser d) = after_fragments ?seq (lenenc_bytes ?n)"
    by (rule query_done [OF ready uses live sock cap len fits valid memory stream' run]) simp
  have "expecting ?rest extra d"
    using d session_uses [OF d(6)] uses by (simp add: expecting_def)
  then have exp1: "expecting ?rest extra c1" by (rule expecting_cong) (simp_all add: d(2) buffered_def conn_ok_def)
  have c1: "column_count c1 = ?n" "\<not> started_reading_rows c1" "capabilities c1 = ?caps"
    using d(2,6) by (simp_all add: session_def)
  obtain c2 where c2: "read_columns alloc (length cols) c1 = (Inr cols, c2)"
      "expecting (?ends @ map row_packet_bytes rows @ [end_packet ?caps flags warnings]) extra c2" "session c2 = session c1"
    using columns_done [OF exp1] cols(4) generous by (force simp: memory_tight_def)
  have same: "column_count c2 = ?n" "\<not> started_reading_rows c2" "capabilities c2 = ?caps"
    using c2(3) c1 by (simp_all add: session_def)
  then have "rows_ahead (map row_packet_bytes rows @ [end_packet ?caps flags warnings]) extra c2"
    using c2(2) cap unfolding rows_ahead_def
    by (cases "has_capability ?caps TRILOGY_CAPABILITIES_DEPRECATE_EOF")
      (simp_all, blast intro: exI [of _ flags0] exI [of _ warnings0])
  from rows_done [OF this] obtain c3 where c3:
      "read_rows alloc out (length rows) c2 = (Inr (map (\<lambda>vs. stored_row 0 vs out) rows), c3)"
      "rows_ahead [end_packet ?caps flags warnings] extra c3" "capabilities c3 = ?caps"
    using rows same n cols(3) \<open>?n \<noteq> 0\<close> generous by (force simp: memory_tight_def)
  have "\<not> memory_tight alloc 9" using generous by (simp add: memory_tight_def)
  with rows_end [of c3 flags warnings "[]" extra alloc out] c3(2,3) obtain c4 where
      "trilogy_read_full_row alloc out c3 = (Inl (Rc TRILOGY_EOF), c4)" "expecting [] extra c4"
      "server_status c4 = flags" "warning_count c4 = warnings"
    by auto
  with run d(1,3) c2(1) c3(1) show ?thesis by blast
qed

end

end
