(* ===== verification/Any_Server.thy ===== *)
theory Any_Server
  imports Result_Sets
begin

text \<open>
  What holds whatever a server sends: every function that receives an answer ends, stays within its
  arrays and keeps the connection well formed.
\<close>

section \<open>What an answer cannot change\<close>

definition password_ok :: "trilogy_sockopt \<Rightarrow> bool" where
  "password_ok opts \<longleftrightarrow> (case opt_password opts of None \<Rightarrow> True | Some p \<Rightarrow> unat (opt_password_len opts) \<le> length p)"

text \<open>The number of columns, and the options that say whether the transport is safe.\<close>

definition outlook where
  "outlook c = (column_count c, map_option (\<lambda>s. (opt_flags (sock_opts s), opt_path (sock_opts s), password_ok (sock_opts s))) (socket c))"

definition session_frame where
  "session_frame c = (outlook c, socket c, outside c, (recv_buff c, recv_buff_pos c, recv_buff_len c), packet_buffer c)"

lemmas reads_only_parsers = reads_onlyI [OF sound_parse_ok_packet trilogy_parse_ok_packet_def]
  reads_onlyI [OF sound_parse_eof_packet trilogy_parse_eof_packet_def]
  reads_onlyI [OF sound_parse_err_packet trilogy_parse_err_packet_def]
  reads_onlyI [OF sound_parse_auth_switch trilogy_parse_auth_switch_request_packet_def]
  reads_onlyI [OF sound_parse_handshake trilogy_parse_handshake_packet_def]
  reads_onlyI [OF sound_parse_result trilogy_parse_result_packet_def]
  reads_onlyI [OF sound_parse_column trilogy_parse_column_packet_def]
  reads_onlyI [OF sound_parse_stmt_ok trilogy_parse_stmt_ok_packet_def]

text \<open>A function that ended, with a value or a code.\<close>

definition ended :: "stop + 'a \<Rightarrow> bool" where
  "ended r \<longleftrightarrow> r \<noteq> Inl Fault \<and> r \<noteq> Inl Hang \<and> r \<noteq> Inl (Rc TRILOGY_OK)"

lemma ended_simps [simp]:
  "ended (Inr x)" "ended (Inl e) \<longleftrightarrow> e \<noteq> Fault \<and> e \<noteq> Hang \<and> e \<noteq> Rc TRILOGY_OK"
  by (simp_all add: ended_def)

lemma settled_ended: "settled r \<Longrightarrow> ended r \<and> \<not> is_again r"
  by (cases r) (simp_all add: is_again_iff)

lemma on_conn_run: "on_conn m s = (r, t) \<Longrightarrow> m (fst s) = (r, fst t)"
  by (cases s) (auto simp: on_conn_apply split: prod.splits)

lemma outlook_session: "session d = session c \<Longrightarrow> outlook d = outlook c"
  by (simp add: session_def outlook_def)

context transport
begin

lemma read_packet_quiet:
  assumes ok: "conn_ok c" and uses: "uses c" and run: "read_packet alloc c = (r, c')"
  shows "conn_ok c' \<and> session c' = session c \<and> outgoing (outside c') = outgoing (outside c)"
proof (cases "buffered c = []")
  case False
  then have "parse_received alloc c = (r, c')" using run buffered_empty [OF ok] by (simp add: read_packet_def)
  with parse_received_safe [OF ok this] show ?thesis by simp
next
  case True
  obtain x d where d: "receive c = (x, d)" by fastforce
  note R = receive_cases [OF ok uses d True]
  have "read_packet alloc c = checked (Pair x) (\<lambda>_. parse_received alloc) d"
    using True buffered_empty [OF ok] d by (simp add: read_packet_def checked_apply)
  with run R parse_received_safe [of d alloc] show ?thesis by (cases x) (auto simp: checked_apply)
qed

end

context responsive
begin

section \<open>Prudent operations\<close>

text \<open>
  \<open>good J c\<close>: a well-formed connection over a socket that responds, with \<open>J\<close> of what was
  sent and of the outlook. A prudent operation keeps that, ends without a fault, and reports
  \<^verbatim>\<open>TRILOGY_AGAIN\<close> only when it has used up some of the work that is left. The state of an operation
  has the connection as its part \<open>p\<close>.
\<close>

definition good where
  "good J c \<longleftrightarrow> conn_ok c \<and> uses c \<and> live (outside c) \<and> J (outgoing (outside c)) (outlook c)"

definition prudent where
  "prudent p J m \<longleftrightarrow> (\<forall>s r t. good J (p s) \<and> m s = (r, t) \<longrightarrow>
     good J (p t) \<and> ended r \<and> work (p t) \<le> work (p s) \<and> (is_again r \<longrightarrow> work (p t) < work (p s)))"

lemma prudentD:
  assumes "prudent p J m" and "good J (p s)" and "m s = (r, t)"
  shows "good J (p t)" and "ended r" and "work (p t) \<le> work (p s)" and "is_again r \<Longrightarrow> work (p t) < work (p s)"
  using assms unfolding prudent_def by blast+

lemma prudent_ret: "prudent p J (ret x)"
  by (simp add: prudent_def)

lemma prudent_throw: "e \<noteq> TRILOGY_OK \<Longrightarrow> e \<noteq> TRILOGY_AGAIN \<Longrightarrow> prudent p J (throw e)"
  by (auto simp: prudent_def is_again_iff)

lemma prudent_if: "(b \<Longrightarrow> prudent p J m) \<Longrightarrow> (\<not> b \<Longrightarrow> prudent p J m') \<Longrightarrow> prudent p J (if b then m else m')"
  by simp

lemma prudent_get:
  assumes "\<And>s. good J (p s) \<Longrightarrow> prudent p J (k s)"
  shows "prudent p J (checked get_state k)"
  unfolding prudent_def
proof (intro allI impI, elim conjE)
  fix s r t assume s: "good J (p s)" and run: "checked get_state k s = (r, t)"
  from run have "k s s = (r, t)" by (simp add: checked_apply)
  from prudentD [OF assms [OF s] s this] show "good J (p t) \<and> ended r \<and> work (p t) \<le> work (p s) \<and> (is_again r \<longrightarrow> work (p t) < work (p s))"
    by blast
qed

lemma prudent_checked:
  assumes m: "prudent p J m" and k: "\<And>x. prudent p J (k x)"
  shows "prudent p J (checked m k)"
  unfolding prudent_def
proof (intro allI impI, elim conjE)
  fix s r t assume s: "good J (p s)" and run: "checked m k s = (r, t)"
  obtain x u where u: "m s = (x, u)" by fastforce
  note M = prudentD [OF m s u]
  show "good J (p t) \<and> ended r \<and> work (p t) \<le> work (p s) \<and> (is_again r \<longrightarrow> work (p t) < work (p s))"
  proof (cases x)
    case (Inl e)
    with run u have "r = Inl e" "t = u" by (simp_all add: checked_apply)
    with M Inl show ?thesis by (simp add: is_again_iff)
  next
    case (Inr y)
    with run u have "k y u = (r, t)" by (simp add: checked_apply)
    from prudentD [OF k M(1) this] M show ?thesis by auto
  qed
qed

lemma prudent_put:
  assumes "\<And>s. good J (p s) \<Longrightarrow> good J (p (f s)) \<and> work (p (f s)) \<le> work (p s)"
  shows "prudent p J (put_state f)"
  using assms by (simp add: prudent_def)

lemma prudent_on_conn:
  assumes "prudent (\<lambda>c. c) J m"
  shows "prudent fst J (on_conn m)"
  unfolding prudent_def
proof (intro allI impI, elim conjE)
  fix s r t assume s: "good J (fst s)" and run: "on_conn m s = (r, t)"
  from prudentD [OF assms s on_conn_run [OF run]] show "good J (fst t) \<and> ended r \<and> work (fst t) \<le> work (fst s) \<and> (is_again r \<longrightarrow> work (fst t) < work (fst s))"
    by blast
qed

lemma prudent_put_out: "prudent fst J (put_out x)"
  unfolding put_out_def by (rule prudent_put) (auto split: prod.splits)

lemma prudent_packet_type: "prudent (\<lambda>c. c) J current_packet_type"
  by (auto simp: prudent_def good_def conn_ok_def buffer_ok_def current_packet_type_def is_again_iff
      split: option.splits list.splits)

lemma prudent_parse:
  assumes "reads_only f"
  shows "prudent (\<lambda>c. c) J (parse_packet f)"
  unfolding prudent_def
proof (intro allI impI, elim conjE)
  fix c r d assume c: "good J c" and run: "parse_packet f c = (r, d)"
  obtain mem where mem: "buf_mem (packet_buffer c) = Some mem" "unat (buf_len (packet_buffer c)) \<le> length mem"
    using c by (auto simp: good_def conn_ok_def buffer_ok_def split: option.splits)
  have "settled (f mem (buf_len (packet_buffer c)))" using assms mem(2) unfolding reads_only_def by blast
  moreover have d: "f mem (buf_len (packet_buffer c)) = r \<and> d = c" using run mem by (simp add: parse_packet_def) auto
  ultimately have "settled r" by simp
  from settled_ended [OF this] c d show "good J d \<and> ended r \<and> work d \<le> work c \<and> (is_again r \<longrightarrow> work d < work c)"
    by simp
qed

lemma prudent_read_packet: "prudent (\<lambda>c. c) J (read_packet alloc)"
  unfolding prudent_def
proof (intro allI impI, elim conjE)
  fix c r d assume c: "good J c" and run: "read_packet alloc c = (r, d)"
  then have ok: "conn_ok c" "uses c" "live (outside c)" by (simp_all add: good_def)
  note R = read_packet_live [OF ok run] read_packet_quiet [OF ok(1,2) run]
  then have "session d = session c" by blast
  from session_uses [OF this] outlook_session [OF this] R c
  show "good J d \<and> ended r \<and> work d \<le> work c \<and> (is_again r \<longrightarrow> work d < work c)"
    by (auto simp: good_def is_again_iff)
qed

lemmas prudent_intros = prudent_checked prudent_if prudent_ret prudent_on_conn prudent_put_out prudent_packet_type
  prudent_read_packet

lemmas prudent_throws = prudent_throw [of TRILOGY_ERR, simplified] prudent_throw [of TRILOGY_EOF, simplified]
  prudent_throw [of TRILOGY_UNEXPECTED_PACKET, simplified] prudent_throw [of TRILOGY_HAVE_RESULTS, simplified]
  prudent_throw [of TRILOGY_UNSUPPORTED, simplified] prudent_throw [of TRILOGY_PROTOCOL_VIOLATION, simplified]
  prudent_throw [of TRILOGY_AUTH_SWITCH, simplified]

lemmas prudent_parses = reads_only_parsers [THEN prudent_parse]

text \<open>A change of the fields that hold what the last answers said.\<close>

lemma prudent_note:
  assumes "\<And>c. session_frame (f c) = session_frame c"
  shows "prudent (\<lambda>c. c) J (put_state f)"
proof (rule prudent_put)
  fix c assume "good J c"
  with assms [of c] show "good J (f c) \<and> work (f c) \<le> work c"
    by (auto simp: good_def session_frame_def conn_ok_def uses_def outlook_def work_def unread_def buffered_def)
qed

section \<open>Answers\<close>

lemma prudent_ok_packet: "prudent (\<lambda>c. c) J read_ok_packet"
  unfolding read_ok_packet_def
  by (intro prudent_get prudent_intros prudent_parses prudent_note) (simp_all add: session_frame_def outlook_def)

lemma prudent_err_packet: "prudent (\<lambda>c. c) J read_err_packet"
  unfolding read_err_packet_def
  by (intro prudent_get prudent_intros prudent_throws prudent_parses prudent_note) (simp add: session_frame_def outlook_def set_error_def)

lemma prudent_accepting: "prudent p J m \<Longrightarrow> prudent p J (accepting e m)"
  unfolding prudent_def accepting_def by (auto split: prod.splits if_splits)

lemma prudent_eof_packet: "prudent (\<lambda>c. c) J read_eof_packet"
  unfolding read_eof_packet_def read_deprecated_eof_packet_def
  by (intro prudent_get prudent_ok_packet prudent_accepting prudent_intros prudent_throws prudent_parses prudent_note)
    (simp_all add: session_frame_def outlook_def)

lemma prudent_generic: "prudent (\<lambda>c. c) J handle_generic_response"
  unfolding handle_generic_response_def
  by (intro prudent_intros prudent_ok_packet prudent_err_packet prudent_throws)

lemma prudent_generic_recv: "prudent (\<lambda>c. c) J (read_generic_response alloc)"
  unfolding read_generic_response_def by (intro prudent_intros prudent_generic)

lemma prudent_set_option_recv: "prudent (\<lambda>c. c) J (trilogy_set_option_recv alloc)"
  unfolding trilogy_set_option_recv_def
  by (intro prudent_intros prudent_ok_packet prudent_err_packet prudent_throws)

lemma prudent_read_column: "prudent (\<lambda>c. c) J (trilogy_read_column alloc)"
  unfolding trilogy_read_column_def by (intro prudent_intros prudent_parses)

lemma prudent_prepare_recv: "prudent (\<lambda>c. c) J (trilogy_stmt_prepare_recv alloc)"
  unfolding trilogy_stmt_prepare_recv_def
  by (intro prudent_intros prudent_ok_packet prudent_err_packet prudent_throws prudent_parses prudent_note)
    (simp add: session_frame_def outlook_def)

lemma prudent_connect_recv: "prudent (\<lambda>c. c) J (trilogy_connect_recv alloc unset)"
  unfolding trilogy_connect_recv_def
  by (intro prudent_intros prudent_err_packet prudent_parses prudent_note) (simp add: session_frame_def outlook_def)

text \<open>A result that fixes the number of columns, which \<open>J\<close> must not speak of.\<close>

definition unaware where
  "unaware J \<longleftrightarrow> (\<forall>out n n' x. J out (n, x) = J out (n', x))"

lemma prudent_columns: "unaware J \<Longrightarrow> prudent (\<lambda>c. c) J (put_state (\<lambda>c. c\<lparr>column_count := n, started_reading_rows := False\<rparr>))"
  "unaware J \<Longrightarrow> prudent (\<lambda>c. c) J (put_state (\<lambda>c. c\<lparr>column_count := n\<rparr>))"
  by (rule prudent_put; auto simp: good_def conn_ok_def uses_def outlook_def work_def unread_def buffered_def unaware_def)+

lemma prudent_query_recv: "unaware J \<Longrightarrow> prudent fst J (trilogy_query_recv alloc)"
  unfolding trilogy_query_recv_def query_response_def
  by (intro prudent_intros prudent_ok_packet prudent_err_packet prudent_throws prudent_parses prudent_columns)

lemma prudent_execute_recv: "unaware J \<Longrightarrow> prudent fst J (trilogy_stmt_execute_recv alloc)"
  unfolding trilogy_stmt_execute_recv_def
  by (intro prudent_intros prudent_ok_packet prudent_err_packet prudent_throws prudent_parses prudent_columns)

lemma prudent_read_row:
  assumes "\<And>out n x. J out (n, x) \<Longrightarrow> unat n \<le> length values"
  shows "prudent (\<lambda>c. c) J (trilogy_read_row alloc values)"
proof -
  have "prudent (\<lambda>c. c) J (parse_packet (\<lambda>buff len. trilogy_parse_row_packet buff len (column_count c) values))"
    if "good J c" for c
    using that assms by (intro prudent_parse reads_onlyI [OF sound_parse_row trilogy_parse_row_packet_def])
      (auto simp: good_def outlook_def)
  then show ?thesis
    unfolding trilogy_read_row_def row_response_def read_eof_def
    by (intro prudent_get prudent_intros prudent_eof_packet prudent_err_packet prudent_throws prudent_note)
      (simp_all add: session_frame_def outlook_def)
qed

lemma prudent_stmt_read_row:
  assumes "unat (stmt_ok_column_count stmt) \<le> length values" and "unat (stmt_ok_column_count stmt) \<le> length columns"
  shows "prudent (\<lambda>c. c) J (trilogy_stmt_read_row alloc stmt columns values)"
proof -
  have n: "unat (ucast (stmt_ok_column_count stmt) :: u64) = unat (stmt_ok_column_count stmt)"
    using unsigned_less [of "stmt_ok_column_count stmt", where ?'a = nat] by (simp add: unsigned_ucast_eq take_bit_nat_eq_self)
  have "unat (stmt_ok_column_count stmt) < 2 ^ 16" using unsigned_less [of "stmt_ok_column_count stmt", where ?'a = nat] by simp
  then have "reads_only (\<lambda>buff len. trilogy_parse_stmt_row_packet buff len columns (ucast (stmt_ok_column_count stmt)) values)"
    using assms n by (intro reads_onlyI [OF sound_parse_stmt_row trilogy_parse_stmt_row_packet_def]) simp_all
  then show ?thesis
    unfolding trilogy_stmt_read_row_def
    by (intro prudent_get prudent_intros prudent_eof_packet prudent_err_packet prudent_throws prudent_parse)
qed

section \<open>Loops\<close>

lemma prudent_loop:
  assumes m: "prudent p J m" and wait: "\<And>s r t. good J (p s) \<Longrightarrow> wait s = (r, t) \<Longrightarrow> good J (p t) \<and> ended r \<and> work (p t) \<le> work (p s)"
    and s: "good J (p s)" and run: "until_done m wait s = (r, t)"
  shows "good J (p t) \<and> ended r"
proof -
  let ?I = "\<lambda>s. good J (p s)"
  have "r \<noteq> Inl Hang"
  proof (rule until_done_ends [where I = ?I and f = "\<lambda>s. work (p s)", OF s _ _ run])
    show "(is_again r \<longrightarrow> good J (p t) \<and> work (p t) < work (p s)) \<and> r \<noteq> Inl Hang" if "?I s" "m s = (r, t)" for s r t
      using prudentD [OF m that] by (auto simp: ended_def)
    show "?I u \<and> work (p u) \<le> work (p t) \<and> w \<noteq> Inl Hang" if "?I t" "wait t = (w, u)" for t w u
      using wait [OF that] by (auto simp: ended_def)
  qed
  moreover define Q :: "stop + 'c \<Rightarrow> 'b \<Rightarrow> bool" where "Q r t \<longleftrightarrow> r = Inl Hang \<or> good J (p t) \<and> ended r" for r t
  have "Q r t"
    using run
  proof (rule until_done_rule [where I = ?I and Q = Q])
    show "?I s" by (rule s)
    show "Q r t" if "?I s" "m s = (r, t)" for s r t using prudentD [OF m that] by (simp add: Q_def)
    show "Q (Inl e) u" if "?I s" "m s = (r, t)" "wait t = (Inl e, u)" for s r t e u
      using wait [OF prudentD(1) [OF m that(1,2)] that(3)] by (simp add: Q_def)
    show "?I u" if "?I s" "m s = (r, t)" "wait t = (Inr (), u)" for s r t u
      using wait [OF prudentD(1) [OF m that(1,2)] that(3)] by blast
  qed (simp add: Q_def)
  ultimately show ?thesis by (simp add: Q_def)
qed

lemma good_wait:
  assumes c: "good J c" and run: "trilogy_sock_wait_read c = (r, d)"
  shows "good J d \<and> ended r \<and> work d \<le> work c"
proof -
  have u: "uses c" "live (outside c)" using c by (simp_all add: good_def)
  note W = wait_read_live [OF u run] wait_read_cases [OF u(1) run]
  then have d: "d = c\<lparr>outside := outside d\<rparr>" by blast
  have "conn_ok d = conn_ok c" "session d = session c" "buffered d = buffered c"
    by (subst d, simp add: conn_ok_def session_def buffered_def)+
  with W c session_uses [of d c] outlook_session [of d c] show ?thesis
    by (auto simp: good_def work_def unread_def ended_def)
qed

lemma answer_safe:
  assumes "prudent (\<lambda>c. c) J m" and "good J c" and "until_done m trilogy_sock_wait_read c = (r, d)"
  shows "good J d \<and> ended r"
  by (rule prudent_loop [where p = "\<lambda>c. c", OF assms(1) good_wait assms(2,3)])

lemma answer_safe_paired:
  assumes m: "prudent fst J m" and s: "good J (fst s)" and run: "until_done m (on_conn trilogy_sock_wait_read) s = (r, t)"
  shows "good J (fst t) \<and> ended r"
proof (rule prudent_loop [where p = fst, OF m _ s run])
  show "good J (fst t) \<and> ended r \<and> work (fst t) \<le> work (fst s)"
    if "good J (fst s)" "on_conn trilogy_sock_wait_read s = (r, t)" for s r t
    by (rule good_wait [OF that(1) on_conn_run [OF that(2)]])
qed

section \<open>Commands\<close>

text \<open>Sending a command and reading its answer; nothing is asked of what was sent before.\<close>

abbreviation fit where
  "fit \<equiv> good (\<lambda>_ _. True)"

lemma send_safe:
  assumes c: "fit c" and m: "builds alloc m payload"
    and k: "\<And>b d. k b d = begin_write (d\<lparr>packet_parser := f b (packet_parser d)\<rparr>)"
    and run: "on_again (checked (built_command alloc seq m) k) flush_full c = (r, c')"
  shows "fit c' \<and> ended r"
proof -
  have ok: "conn_ok c" "buffer_ok (packet_buffer c)" "uses c" "live (outside c)"
    using c by (simp_all add: good_def conn_ok_def)
  then obtain s where s: "socket c = Some s" by (auto simp: uses_def)
  note S = send_cases [OF ok(2) s ok(3) m k run] send_ends [OF ok(2) s ok(3,4) m k run]
  then have "session c' = session c" by blast
  from session_uses [OF this] S ok show ?thesis by (auto simp: good_def)
qed

lemma command_safe:
  assumes c: "fit c" and m: "builds alloc m payload"
    and k: "\<And>b d. k b d = begin_write (d\<lparr>packet_parser := f b (packet_parser d)\<rparr>)"
    and answer: "prudent (\<lambda>c. c) (\<lambda>_ _. True) h"
    and run: "checked (on_again (checked (built_command alloc seq m) k) flush_full) (\<lambda>_. until_done h trilogy_sock_wait_read) c = (r, c')"
  shows "fit c' \<and> ended r"
proof -
  obtain x d where d: "on_again (checked (built_command alloc seq m) k) flush_full c = (x, d)" by fastforce
  note S = send_safe [OF c m k d]
  show ?thesis
  proof (cases x)
    case (Inl e)
    with run d have "r = Inl e" "c' = d" by (simp_all add: checked_apply)
    with S Inl show ?thesis by simp
  next
    case (Inr y)
    with run d have "until_done h trilogy_sock_wait_read d = (r, c')" by (simp add: checked_apply)
    from answer_safe [OF answer _ this] S show ?thesis by blast
  qed
qed

lemma command_safe_paired:
  assumes c: "fit c" and m: "builds alloc m payload"
    and k: "\<And>b d. k b d = begin_write (d\<lparr>packet_parser := f b (packet_parser d)\<rparr>)"
    and answer: "prudent fst (\<lambda>_ _. True) h"
    and run: "checked (on_conn (on_again (checked (built_command alloc seq m) k) flush_full))
      (\<lambda>_. until_done h (on_conn trilogy_sock_wait_read)) (c, x) = (r, (c', x'))"
  shows "fit c' \<and> ended r"
proof -
  obtain y d where d: "on_again (checked (built_command alloc seq m) k) flush_full c = (y, d)" by fastforce
  note S = send_safe [OF c m k d]
  show ?thesis
  proof (cases y)
    case (Inl e)
    with run d have "r = Inl e" "c' = d" by (simp_all add: checked_apply on_conn_apply)
    with S Inl show ?thesis by simp
  next
    case (Inr z)
    with run d have "until_done h (on_conn trilogy_sock_wait_read) (d, x) = (r, (c', x'))" by (simp add: checked_apply on_conn_apply)
    from answer_safe_paired [OF answer _ this] S show ?thesis by simp
  qed
qed

end

section \<open>Plain sockets\<close>

text \<open>A function that ended with the connection ready to be used again, or closed.\<close>

definition survived :: "stop + 'a \<Rightarrow> raw_sock trilogy_conn \<Rightarrow> bool" where
  "survived r c \<longleftrightarrow> ended r \<and> conn_ok c \<and> connected (outside c) \<and> raw.uses c"

lemma survivedI: "live_raw.good J c \<and> ended r \<Longrightarrow> survived r c"
  by (simp add: survived_def live_raw.good_def)

end
