(* ===== verification/Login.thy ===== *)
theory Login
  imports Any_Server
begin

text \<open>
  The connection phase: the handshake of the server is received, the answer of the client sent, and
  the verdict of the server handled; and what the client may send of the password.
\<close>

section \<open>The password\<close>

definition password_given :: "trilogy_sockopt \<Rightarrow> u8 list \<Rightarrow> bool" where
  "password_given opts pass \<longleftrightarrow>
     (case opt_password opts of
        None \<Rightarrow> opt_password_len opts = 0 \<and> pass = []
      | Some p \<Rightarrow> unat (opt_password_len opts) \<le> length p \<and> pass = take (unat (opt_password_len opts)) p)"

definition cleared :: "trilogy_sockopt \<Rightarrow> trilogy_sockopt" where
  "cleared opts = opts\<lparr>opt_password :=
     map_option (\<lambda>p. replicate (unat (opt_password_len opts)) 0 @ drop (unat (opt_password_len opts)) p) (opt_password opts)\<rparr>"

abbreviation clear_socket :: "'w trilogy_sock \<Rightarrow> 'w trilogy_sock" where
  "clear_socket s \<equiv> s\<lparr>sock_opts := cleared (sock_opts s)\<rparr>"

lemma password_bytes_given: "password_given opts pass \<Longrightarrow> password_bytes opts = ret pass"
  by (auto simp: password_given_def password_bytes_def split: option.splits)

lemma clear_password_given:
  assumes "socket c = Some s" and "password_given (sock_opts s) pass"
  shows "trilogy_auth_clear_password c = (Inr (), c\<lparr>socket := Some (clear_socket s)\<rparr>)"
  using assms
  by (auto simp: trilogy_auth_clear_password_def socket_opts_def set_socket_opts_def checked_apply cleared_def
      password_given_def blit_def split: option.splits)

section \<open>Sending the answer\<close>

lemma auth_send_built:
  assumes buf: "buffer_ok (packet_buffer c)" and sock: "socket c = Some s" and pass: "password_given (sock_opts s) pass"
  shows "trilogy_auth_send sha1 sha256 alloc h c =
    checked (built_command alloc (sequence_number (packet_parser c))
      (trilogy_build_auth_packet sha1 sha256 alloc (opt_username (sock_opts s)) pass (opt_database (sock_opts s))
         (uint (opt_encoding (sock_opts s))) (hs_auth_plugin h) (hs_scramble h) (opt_flags (sock_opts s)))) (\<lambda>_. begin_write) c"
proof -
  obtain r c1 where c1: "begin_command_phase alloc (sequence_number (packet_parser c)) c = (r, c1)" by fastforce
  then have "c1 = c\<lparr>packet_buffer := packet_buffer c1, packet_parser := packet_parser c1\<rparr>"
    using begin_command_phase_cases [OF buf sock c1] by blast
  then have "socket c1 = socket c" by (metis trilogy_conn.ext_inject trilogy_conn.surjective trilogy_conn.update_convs(14,15))
  with sock c1 show ?thesis
    by (cases r) (simp_all add: trilogy_auth_send_def parser_sequence_def checked_assoc built_command_def checked_apply
        socket_opts_def password_bytes_given [OF pass])
qed


section \<open>Handling the answers\<close>

definition after_auth :: "trilogy_auth_switch_request_packet \<Rightarrow> allocator \<Rightarrow> ('w trilogy_conn \<times> trilogy_handshake, unit) op" where
  "after_auth local alloc =
     checked (on_conn current_packet_type) (\<lambda>t.
     if packet_is t TRILOGY_PACKET_AUTH_MORE_DATA then on_conn (auth_more_data alloc)
     else if packet_is t TRILOGY_PACKET_EOF then read_auth_switch_packet local
     else on_conn (checked trilogy_auth_clear_password (\<lambda>_. handle_generic_response)))"

lemma reply_first:
  assumes "reply_valid caps a" and "\<And>n. a \<noteq> Columns_reply n"
  obtains b bs where "reply_bytes caps a = b # bs" "unat b = 0 \<or> unat b = 255"
  using assms by (cases a) (auto simp: ok_packet_bytes_def err_packet_bytes_def)

lemma auth_answer_handled:
  assumes arr: "arrived (reply_bytes (capabilities c) a) fin c" and valid: "reply_valid (capabilities c) a"
    and cap: "has_capability (capabilities c) TRILOGY_CAPABILITIES_PROTOCOL_41" and single: "\<And>n. a \<noteq> Columns_reply n"
    and sock: "socket c = Some s" and pass: "password_given (sock_opts s) pass"
  shows "after_auth local alloc (c, h) = (reply_result a, (note_reply a (c\<lparr>socket := Some (clear_socket s)\<rparr>), h))"
proof -
  let ?c = "c\<lparr>socket := Some (clear_socket s)\<rparr>"
  obtain b bs where b: "reply_bytes (capabilities c) a = b # bs" "unat b = 0 \<or> unat b = 255"
    using reply_first [OF valid single] by metis
  have "arrived (reply_bytes (capabilities ?c) a) fin ?c" using arr by (simp add: arrived_def ready_def conn_ok_def)
  from generic_answer_handled [OF this] valid cap single have "handle_generic_response ?c = (reply_result a, note_reply a ?c)" by simp
  then show ?thesis
    using current_packet_type_arrived [of b bs fin c] arr b clear_password_given [OF sock pass]
    by (auto simp: after_auth_def on_conn_apply checked_apply packet_type_code_def)
qed

definition after_hello :: "trilogy_handshake \<Rightarrow> ('w trilogy_conn, trilogy_handshake) op" where
  "after_hello out =
     checked current_packet_type (\<lambda>t.
     if packet_is t TRILOGY_PACKET_ERR then read_err_packet
     else
       checked (parse_packet (\<lambda>buff len. trilogy_parse_handshake_packet buff len out)) (\<lambda>handshake.
       checked (put_state (\<lambda>c. c\<lparr>capabilities := hs_capabilities handshake,
                                 server_status := hs_server_status handshake\<rparr>)) (\<lambda>_.
       ret handshake)))"

lemma handshake_handled:
  assumes arr: "arrived (handshake_bytes h version reserved plugin) fin c"
    and valid: "parses (parse_handshake_packet out) (handshake_bytes h version reserved plugin) h'"
  shows "after_hello out c = (Inr h', c\<lparr>capabilities := hs_capabilities h', server_status := hs_server_status h'\<rparr>)"
proof -
  obtain bs where "handshake_bytes h version reserved plugin = 0xa # bs" by (simp add: handshake_bytes_def)
  with arr have "current_packet_type c = (Inr 10, c)" using current_packet_type_arrived [of "0xa" bs fin c] by simp
  moreover have "parse_packet (\<lambda>buff len. trilogy_parse_handshake_packet buff len out) c = (Inr h', c)"
    by (rule parse_packet_arrived [OF arr valid]) (simp add: trilogy_parse_handshake_packet_def)
  ultimately show ?thesis by (simp add: after_hello_def checked_apply packet_type_code_def)
qed

section \<open>The connection phase\<close>

context reliable
begin

lemma connect_done:
  assumes ready: "ready c" and uses: "uses c" and live: "live (outside c)" and sock: "socket c = Some s"
    and shake: "parses (parse_handshake_packet unset) (handshake_bytes h version reserved plugin) h'"
    and cap: "has_capability (hs_capabilities h') TRILOGY_CAPABILITIES_PROTOCOL_41"
    and pass: "password_given (sock_opts s) pass"
    and builds: "builds alloc (trilogy_build_auth_packet sha1 sha256 alloc (opt_username (sock_opts s)) pass
         (opt_database (sock_opts s)) (uint (opt_encoding (sock_opts s))) (hs_auth_plugin h') (hs_scramble h')
         (opt_flags (sock_opts s))) payload"
    and fits: "affordable alloc (packet_limit (sock_opts s)) (length payload)"
    and valid: "reply_valid (hs_capabilities h') a" "\<And>n. a \<noteq> Columns_reply n"
    and memory: "\<not> memory_tight alloc (length (handshake_bytes h version reserved plugin))"
      "\<not> memory_tight alloc (length (reply_bytes (hs_capabilities h') a))"
    and seq: "seq = after_fragments (sequence_number (packet_parser c)) (handshake_bytes h version reserved plugin)"
    and stream: "unread c = frames (sequence_number (packet_parser c)) (handshake_bytes h version reserved plugin)
      @ frames (seq + 1) (reply_bytes (hs_capabilities h') a) @ extra"
    and run: "trilogy_connect_handshake sha1 sha256 alloc local unset c = (r, c')"
  obtains (connected) d where "r = reply_result a" and "c' = note_reply a (d\<lparr>socket := Some (clear_socket s)\<rparr>)"
    and "ready d" and "unread d = extra" and "live (outside d)" and "socket d = Some s"
    and "capabilities d = hs_capabilities h'"
    and "outgoing (outside d) = outgoing (outside c) @ frames seq payload"
proof -
  let ?hello = "handshake_bytes h version reserved plugin" and ?reply = "reply_bytes (hs_capabilities h') a"
  obtain x c1 where c1: "until_done (trilogy_connect_recv alloc unset) trilogy_sock_wait_read c = (x, c1)" by fastforce
  note hello = handshake_handled [OF _ shake]
  have loop1: "until_done (checked (read_packet alloc) (\<lambda>_. after_hello unset)) trilogy_sock_wait_read c = (x, c1)"
    using c1 by (simp add: trilogy_connect_recv_def after_hello_def)
  obtain d where d: "after_hello unset d = (x, c1)" "arrived ?hello seq d" "unread d = frames (seq + 1) ?reply @ extra"
        "session d = session c" "outgoing (outside d) = outgoing (outside c)" "live (outside d)" "uses d"
  proof (rule answer_done [OF ready uses live stream memory(1) _ loop1])
    show "\<not> is_again (fst (after_hello unset d))"
      if "arrived ?hello (after_fragments (sequence_number (packet_parser c)) ?hello) d" "session d = session c" for d
      using hello [OF that(1)] by simp
  qed (use that seq in blast)
  then have x: "x = Inr h'" and c1': "c1 = d\<lparr>capabilities := hs_capabilities h', server_status := hs_server_status h'\<rparr>"
    using hello [OF d(2)] by simp_all
  have sock1: "socket c1 = Some s" using c1' d(4) sock by (simp add: session_def)
  have ready1: "ready c1" and seq1: "sequence_number (packet_parser c1) = seq" and outside1: "outside c1 = outside d"
    and unread1: "unread c1 = unread d" and caps1: "capabilities c1 = hs_capabilities h'"
    using c1' d(2) by (simp_all add: arrived_def ready_def conn_ok_def unread_def buffered_def)
  have uses1: "uses c1" using uses sock sock1 by (simp add: uses_def)
  have buf1: "buffer_ok (packet_buffer c1)" using ready1 by (simp add: ready_def conn_ok_def)
  obtain y c2 where c2: "on_again (trilogy_auth_send sha1 sha256 alloc h') flush_full c1 = (y, c2)" by fastforce
  have k: "begin_write d = begin_write (d\<lparr>packet_parser := (\<lambda>_ q. q) b (packet_parser d)\<rparr>)"
    for b :: trilogy_builder and d :: "'a trilogy_conn" by simp
  have "on_again (checked (built_command alloc seq (trilogy_build_auth_packet sha1 sha256 alloc (opt_username (sock_opts s)) pass
         (opt_database (sock_opts s)) (uint (opt_encoding (sock_opts s))) (hs_auth_plugin h') (hs_scramble h')
         (opt_flags (sock_opts s)))) (\<lambda>_. begin_write)) flush_full c1 = (y, c2)"
    using c2 auth_send_built [OF buf1 sock1 pass] seq1 by (simp add: on_again_def)
  from send_done [OF buf1 sock1 uses1 _ builds k fits this] d(6) outside1
  have y: "y = Inr ()" and live2: "live (outside c2)" and sess2: "session c2 = session c1" and unread2: "unread c2 = unread c1"
    and ok2: "conn_ok c2" and out2: "outgoing (outside c2) = outgoing (outside c1) @ frames seq payload"
    and parser2: "packet_parser c2 = (packet_parser c1)\<lparr>sequence_number := seq + 1\<rparr>"
    using ready1 by (auto simp: ready_def)
  from ready_send [OF ready1 ok2 parser2] have ready2: "ready c2" and seq2: "sequence_number (packet_parser c2) = seq + 1" by blast+
  have sock2: "socket c2 = Some s" and caps2: "capabilities c2 = hs_capabilities h'"
    using sess2 sock1 caps1 by (simp_all add: session_def)
  have uses2: "uses c2" using uses sock sock2 by (simp add: uses_def)
  have stream2: "unread c2 = frames (sequence_number (packet_parser c2)) ?reply @ extra"
    using unread2 unread1 d(3) seq2 by simp
  obtain r0 c3 h3 where z: "until_done (trilogy_auth_recv alloc local) (on_conn trilogy_sock_wait_read) (c2, h') = (r0, (c3, h3))"
    by (metis surj_pair)
  have loop: "until_done (checked (on_conn (read_packet alloc)) (\<lambda>_. after_auth local alloc)) (on_conn trilogy_sock_wait_read)
      (c2, h') = (r0, (c3, h3))"
    using z by (simp add: trilogy_auth_recv_def after_auth_def)
  have caps: "capabilities e = hs_capabilities h'" "socket e = Some s" if "session e = session c2" for e
    using that caps2 sock2 by (simp_all add: session_def)
  have handled: "after_auth local alloc (e, h') = (reply_result a, (note_reply a (e\<lparr>socket := Some (clear_socket s)\<rparr>), h'))"
    if "arrived ?reply fin e" "session e = session c2" for e fin
    using auth_answer_handled [of e a fin s pass local alloc h'] that valid cap caps [OF that(2)] pass by simp
  have result: "\<not> is_again (reply_result a)" "reply_result a \<noteq> Inl (Rc TRILOGY_AUTH_SWITCH)" by (cases a; simp)+
  show thesis
  proof (rule answer_done_paired [OF ready2 uses2 live2 stream2 memory(2) _ loop])
    show "\<not> is_again (fst (after_auth local alloc (e, h')))"
      if "arrived ?reply (after_fragments (sequence_number (packet_parser c2)) ?reply) e" "session e = session c2" for e
      using handled [OF that] result by simp
  next
    fix e assume e: "after_auth local alloc (e, h') = (r0, (c3, h3))"
        "arrived ?reply (after_fragments (sequence_number (packet_parser c2)) ?reply) e" "unread e = extra"
        "session e = session c2" "outgoing (outside e) = outgoing (outside c2)" "live (outside e)"
    then have r0: "r0 = reply_result a" "c3 = note_reply a (e\<lparr>socket := Some (clear_socket s)\<rparr>)"
      using handled [OF e(2,4)] by simp_all
    have "(r, c') = (r0, c3)"
      using run c1 x c2 y z r0(1) result(2) by (simp add: trilogy_connect_handshake_def checked_apply)
    moreover have "ready e" using e(2) by (simp add: arrived_def)
    ultimately show thesis using connected [of e] r0 e caps [OF e(4)] out2 d(5) outside1 by simp
  qed
qed

end

text \<open>The parts of the packet, the name of the plugin in its array, and the socket without the password.\<close>

lemma auth_payload_parts:
  "length u \<le> length (auth_packet_payload u db charset resp flags)"
  "length (fst resp) \<le> length (auth_packet_payload u db charset resp flags)"
  "length (snd resp) \<le> length (auth_packet_payload u db charset resp flags)"
  "db = Some d \<Longrightarrow> length d \<le> length (auth_packet_payload u db charset resp flags)"
  by (simp_all add: auth_packet_payload_def)

lemma c_string_field:
  assumes "0 \<notin> set plugin"
  shows "c_string (blit 0 (plugin @ [0]) field) = plugin" and "0 \<in> set (blit 0 (plugin @ [0]) field)"
  using assms by (auto simp: c_string_def blit_def takeWhile_append)

lemma socket_frame: "conn_ok (c\<lparr>socket := s\<rparr>) = conn_ok c" "buffered (c\<lparr>socket := s\<rparr>) = buffered c"
  by (simp_all add: conn_ok_def buffered_def)

lemma raw_connect_cleared: "cb_raw_connect (cleared opts) = cb_raw_connect opts"
proof -
  have "raw_connect_steps (cleared opts) = raw_connect_steps opts"
    by (simp add: raw_connect_steps_def cleared_def)
  then have "raw_connect_internal (cleared opts) = raw_connect_internal opts"
    by (intro ext) (simp only: raw_connect_internal_def)
  then have "connect_loop (cleared opts) ais s = connect_loop opts ais s" for ais s
    by (induction ais arbitrary: s) (simp_all split: prod.splits sum.splits stop.splits)
  then show ?thesis by (intro ext) (simp add: cb_raw_connect_def checked_apply)
qed

lemma clear_raw_socket: "clear_socket (raw_socket opts) = raw_socket (cleared opts)"
  by (simp add: raw_socket_def raw_connect_cleared)

section \<open>What the client does not send\<close>

text \<open>
  Without TLS and off the local host, no answer of the server makes the client send more: \<open>sent\<close>
  is all that was sent when the reading began.
\<close>

definition unsafe_wire where
  "unsafe_wire sent out x \<longleftrightarrow> out = sent \<and>
     (\<exists>flags. snd x = Some (flags, None, True) \<and> \<not> has_capability flags TRILOGY_CAPABILITIES_SSL)"

lemma switch_request_plugin:
  assumes "trilogy_parse_auth_switch_request_packet buff len caps local = Inr p"
    and "auth_plugin_size \<le> length (switch_auth_plugin local)"
  shows "0 \<in> set (switch_auth_plugin p)"
proof -
  obtain r where run: "parse_auth_switch_request_packet caps local (TRILOGY_READER buff len) = (Inr p, r)"
    using assms(1) by (metis prod.collapse trilogy_parse_auth_switch_request_packet_def)
  then obtain plugin where "switch_auth_plugin p = blit 0 (plugin @ [0]) (switch_auth_plugin local)"
      "\<not> length plugin > auth_plugin_size - 1"
    by (auto simp: parse_auth_switch_request_packet_def checked_eq_Inr split: if_splits)
  then show ?thesis by (simp add: blit_def)
qed

context responsive
begin

lemma prudent_post:
  assumes m: "prudent p J m" and Q: "\<And>s x t. m s = (Inr x, t) \<Longrightarrow> Q x" and k: "\<And>x. Q x \<Longrightarrow> prudent p J (k x)"
  shows "prudent p J (checked m k)"
proof -
  have "checked m k = checked m (\<lambda>x. if Q x then k x else throw TRILOGY_ERR)"
    by (rule ext) (auto simp: checked_apply Q split: prod.splits sum.splits)
  moreover have "prudent p J (checked m (\<lambda>x. if Q x then k x else throw TRILOGY_ERR))"
    by (rule prudent_checked [OF m]) (simp add: k prudent_throws)
  ultimately show ?thesis by simp
qed

lemma prudent_clear_password: "prudent (\<lambda>c. c) (unsafe_wire sent) trilogy_auth_clear_password"
  unfolding prudent_def
proof (intro allI impI, elim conjE)
  fix c r d assume c: "good (unsafe_wire sent) c" and run: "trilogy_auth_clear_password c = (r, d)"
  obtain s where s: "socket c = Some s" "password_ok (sock_opts s)"
    using c by (auto simp: good_def unsafe_wire_def outlook_def)
  then have "r = Inr () \<and> (d = c \<or> d = c\<lparr>socket := Some (clear_socket s)\<rparr>)"
    using run by (auto simp: trilogy_auth_clear_password_def socket_opts_def set_socket_opts_def checked_apply cleared_def
        password_ok_def blit_def split: option.splits)
  moreover have "good (unsafe_wire sent) (c\<lparr>socket := Some (clear_socket s)\<rparr>)" "work (c\<lparr>socket := Some (clear_socket s)\<rparr>) = work c"
    using c s by (auto simp: good_def unsafe_wire_def outlook_def conn_ok_def uses_def work_def unread_def buffered_def
        cleared_def password_ok_def split: option.splits)
  ultimately show "good (unsafe_wire sent) d \<and> ended r \<and> work d \<le> work c \<and> (is_again r \<longrightarrow> work d < work c)"
    using c by auto
qed

lemma prudent_auth_recv:
  assumes "auth_plugin_size \<le> length (switch_auth_plugin local)"
  shows "prudent fst (unsafe_wire sent) (trilogy_auth_recv alloc local)"
proof -
  have more: "prudent (\<lambda>c. c) (unsafe_wire sent) (auth_more_data alloc)"
    by (auto simp: prudent_def good_def unsafe_wire_def outlook_def auth_more_data_def socket_opts_def checked_apply is_again_iff)
  have switch: "prudent fst (unsafe_wire sent) (read_auth_switch_packet local)"
    unfolding read_auth_switch_packet_def
  proof (rule prudent_get)
    fix s :: "'a trilogy_conn \<times> trilogy_handshake"
    obtain c h where s: "s = (c, h)" by fastforce
    let ?m = "on_conn (parse_packet (\<lambda>buff len. trilogy_parse_auth_switch_request_packet buff len (capabilities c) local))"
    have post: "0 \<in> set (switch_auth_plugin p)" if "?m t = (Inr p, u)" for t p u
      using switch_request_plugin [OF _ assms] that by (cases t) (auto simp: on_conn_apply parse_packet_def split: option.splits)
    show "prudent fst (unsafe_wire sent) ((\<lambda>(c, handshake).
       checked (on_conn (parse_packet (\<lambda>buff len. trilogy_parse_auth_switch_request_packet buff len (capabilities c) local))) (\<lambda>packet.
       checked
         (if_plugin ''mysql_native_password'' (switch_auth_plugin packet) (ret ())
           (if_plugin ''caching_sha2_password'' (switch_auth_plugin packet) (ret ())
             (if_plugin ''mysql_clear_password'' (switch_auth_plugin packet) (ret ())
               (throw TRILOGY_PROTOCOL_VIOLATION)))) (\<lambda>_.
       checked (put_out (handshake\<lparr>hs_auth_plugin := switch_auth_plugin packet,
                                   hs_scramble := switch_scramble packet\<rparr>)) (\<lambda>_.
       throw TRILOGY_AUTH_SWITCH)))) s)"
      unfolding s prod.case
      by (rule prudent_post [where Q = "\<lambda>p. 0 \<in> set (switch_auth_plugin p)", OF _ post])
        (auto simp: if_plugin_eq intro!: prudent_intros prudent_throws prudent_parses)
  qed
  show ?thesis
    unfolding trilogy_auth_recv_def
    by (intro prudent_intros prudent_generic prudent_clear_password more switch)
qed

end

end
