(* ===== verification/Escape.thy ===== *)
theory Escape
  imports Connection
begin

text \<open>
  \<^verbatim>\<open>trilogy_escape\<close> of \<^verbatim>\<open>src/client.c\<close>: a string is escaped into the packet buffer, byte by byte through
  a table, or by doubling single quotes when the server does not take backslashes. Both loops
  compute a reference function on the bytes, and a reader of SQL literals recovers the string
  from it and meets no quote that would end the literal.
\<close>

section \<open>The code\<close>

definition escape_lookup_table :: "u8 \<Rightarrow> u8" where
  "escape_lookup_table c =
     (if c = 0x22 then 0x22 else if c = 0 then 0x30 else if c = 0x27 then 0x27 else if c = 0x5c then 0x5c
      else if c = 0x0a then 0x6e else if c = 0x0d then 0x72 else if c = 26 then 0x5a else 0)"

text \<open>The bytes from the cursor to the end, in the two modes.\<close>

function double_quotes :: "allocator \<Rightarrow> u8 list \<Rightarrow> (trilogy_buffer, unit) op" where
  "double_quotes alloc cursor =
     (if cursor = [] then ret ()
      else
        case memchr 0x27 cursor of
          Some n \<Rightarrow>
            checked (trilogy_buffer_write alloc (take n cursor) (word_of_nat n)) (\<lambda>_.
            checked (trilogy_buffer_write alloc [0x27, 0x27] 2) (\<lambda>_.
            double_quotes alloc (drop (n + 1) cursor)))
        | None \<Rightarrow> trilogy_buffer_write alloc cursor (word_of_nat (length cursor)))"
  by pat_completeness auto
termination by (relation "measure (\<lambda>(_, cursor). length cursor)") auto

function backslashes :: "allocator \<Rightarrow> u8 list \<Rightarrow> (trilogy_buffer, unit) op" where
  "backslashes alloc cursor =
     (if cursor = [] then ret ()
      else
        let n = length (takeWhile (\<lambda>c. escape_lookup_table c = 0) cursor)
        in checked (trilogy_buffer_write alloc (take n cursor) (word_of_nat n)) (\<lambda>_.
           if n < length cursor then
             checked (trilogy_buffer_putc alloc 0x5c) (\<lambda>_.
             checked (trilogy_buffer_putc alloc (escape_lookup_table (cursor ! n))) (\<lambda>_.
             backslashes alloc (drop (n + 1) cursor)))
           else ret ()))"
  by pat_completeness auto
termination by (relation "measure (\<lambda>(_, cursor). length cursor)") auto

declare double_quotes.simps [simp del] backslashes.simps [simp del]

lemma escape_nothing [simp]: "double_quotes alloc [] = ret ()" "backslashes alloc [] = ret ()"
  by (simp_all add: double_quotes.simps backslashes.simps)

definition trilogy_escape :: "allocator \<Rightarrow> u8 list \<Rightarrow> size_t \<Rightarrow> ('w trilogy_conn, u8 list) op" where
  "trilogy_escape alloc str len =
     checked get_state (\<lambda>c.
     checked (on_packet_buffer
       (checked (put_state (\<lambda>b. b\<lparr>buf_len := 0\<rparr>)) (\<lambda>_.
        checked (trilogy_buffer_expand alloc len) (\<lambda>_.
        if unat len > length str then halt Fault
        else if server_status c AND server_status_flag TRILOGY_SERVER_STATUS_NO_BACKSLASH_ESCAPES \<noteq> 0
        then double_quotes alloc (take (unat len) str)
        else backslashes alloc (take (unat len) str))))) (\<lambda>_.
     checked get_state (\<lambda>c. ret (contents (packet_buffer c)))))"

section \<open>What is computed\<close>

definition escape_byte :: "u8 \<Rightarrow> u8 list" where
  "escape_byte c = (if escape_lookup_table c = 0 then [c] else [0x5c, escape_lookup_table c])"

definition quote_byte :: "u8 \<Rightarrow> u8 list" where
  "quote_byte c = (if c = 0x27 then [0x27, 0x27] else [c])"

abbreviation escaped :: "u8 list \<Rightarrow> u8 list" where
  "escaped s \<equiv> concat (map escape_byte s)"

abbreviation quoted :: "u8 list \<Rightarrow> u8 list" where
  "quoted s \<equiv> concat (map quote_byte s)"

lemma escaped_plain: "\<forall>c\<in>set s. escape_lookup_table c = 0 \<Longrightarrow> escaped s = s"
  by (induction s) (simp_all add: escape_byte_def)

lemma quoted_plain: "0x27 \<notin> set s \<Longrightarrow> quoted s = s"
  by (induction s) (auto simp: quote_byte_def)

lemma length_escaped: "length s \<le> length (escaped s)" "length s \<le> length (quoted s)"
  by (induction s) (auto simp: escape_byte_def quote_byte_def)

lemma length_escaped_le: "length (escaped s) \<le> 2 * length s" "length (quoted s) \<le> 2 * length s"
  by (induction s) (auto simp: escape_byte_def quote_byte_def)

text \<open>One append, and what comes after it; \<open>n\<close> bounds the bytes in all.\<close>

abbreviation fills :: "allocator \<Rightarrow> u8 list \<Rightarrow> u8 list \<Rightarrow> nat \<Rightarrow> (trilogy_buffer, unit) op \<Rightarrow> bool" where
  "fills alloc p q n m \<equiv> holds (\<lambda>b. buffer_ok b \<and> contents b = p) m
     (\<lambda>_ b. buffer_ok b \<and> contents b = q) (\<lambda>e b. buffer_ok b \<and> refuses alloc n e)"

lemma fills_write:
  assumes "length bs < object_limit" and "length p + length bs \<le> n"
  shows "fills alloc p (p @ bs) n (trilogy_buffer_write alloc bs (word_of_nat (length bs)))"
proof -
  have w: "unat (word_of_nat (length bs) :: size_t) = length bs"
    using assms(1) by (intro unat_word_of_nat_size_t) (simp add: object_limit_def)
  show ?thesis
    by (rule holds_weaken [OF buffer_write_holds [of "word_of_nat (length bs)" bs p alloc]])
      (use assms w in \<open>auto intro: refuses_mono\<close>)
qed

lemma fills_putc:
  assumes "length p + 1 \<le> n"
  shows "fills alloc p (p @ [c]) n (trilogy_buffer_putc alloc c)"
  by (rule holds_weaken [OF buffer_putc_holds [of p alloc c]]) (use assms in \<open>auto intro: refuses_mono\<close>)

lemma fills_then:
  assumes "fills alloc p q n m" and "fills alloc q r n k"
  shows "fills alloc p r n (checked m (\<lambda>_. k))"
  using assms by (rule holds_checked)

lemma fills_done: "fills alloc p p n (ret ())"
  by (simp add: holds_ret)

lemma double_quotes_fills:
  assumes "length s < object_limit" and "length p + length (quoted s) \<le> n"
  shows "fills alloc p (p @ quoted s) n (double_quotes alloc s)"
  using assms
proof (induction s arbitrary: p rule: length_induct)
  case (1 s)
  show ?case
  proof (cases "memchr 0x27 s")
    case None
    then have "quoted s = s" by (simp add: memchr_None quoted_plain)
    then show ?thesis
      using fills_write [OF 1(2), of p n alloc] None 1(3) fills_done [of p alloc n]
      by (cases "s = []") (simp_all add: double_quotes.simps [of alloc s] ret_def)
  next
    case (Some k)
    define t where "t = drop (k + 1) s"
    note found = memchr_Some [OF Some]
    have s: "s = take k s @ [0x27] @ t"
      using id_take_nth_drop [of k s] found by (simp add: t_def)
    have q: "quoted s = take k s @ [0x27, 0x27] @ quoted t"
      by (subst s) (use found in \<open>simp add: quoted_plain quote_byte_def\<close>)
    have lens: "length (take k s) = k" "length t < length s" "length t < object_limit"
      using found 1(2) by (auto simp: t_def)
    have "fills alloc p (((p @ take k s) @ [0x27, 0x27]) @ quoted t) n
        (checked (trilogy_buffer_write alloc (take k s) (word_of_nat (length (take k s)))) (\<lambda>_.
         checked (trilogy_buffer_write alloc [0x27, 0x27] (word_of_nat (length [0x27, 0x27 :: u8]))) (\<lambda>_.
         double_quotes alloc t)))"
      using 1(2,3) lens
      by (intro fills_then [OF fills_write] fills_then [OF fills_write] "1.IH" [rule_format, OF lens(2,3)])
        (simp_all add: q object_limit_def)
    with Some lens(1) q show ?thesis
      by (subst double_quotes.simps) (auto simp: t_def)
  qed
qed

lemma backslashes_fills:
  assumes "length s < object_limit" and "length p + length (escaped s) \<le> n"
  shows "fills alloc p (p @ escaped s) n (backslashes alloc s)"
  using assms
proof (induction s arbitrary: p rule: length_induct)
  case (1 s)
  define k where "k = length (takeWhile (\<lambda>c. escape_lookup_table c = 0) s)"
  have plain: "take k s = takeWhile (\<lambda>c. escape_lookup_table c = 0) s"
    by (simp add: k_def takeWhile_eq_take [symmetric])
  then have e: "escaped (take k s) = take k s"
    by (intro escaped_plain) (auto dest: set_takeWhileD)
  have k: "length (take k s) = k" "k \<le> length s" by (simp_all add: k_def length_takeWhile_le)
  note unfold = backslashes.simps [of alloc s, folded k_def, unfolded Let_def]
  consider "s = []" | "s \<noteq> []" "k = length s" | "k < length s" using k(2) by linarith
  then show ?case
  proof cases
    case 1
    with fills_done [of p alloc n] show ?thesis by (simp add: ret_def)
  next
    case 2
    then have "escaped s = s" using e by simp
    then show ?thesis
      using fills_then [OF fills_write [OF "1.prems"(1)] fills_done, of p n alloc] "1.prems"(2) 2
      by (simp add: unfold)
  next
    case 3
    define t where "t = drop (k + 1) s"
    have c: "escape_lookup_table (s ! k) \<noteq> 0" using 3 nth_length_takeWhile by (auto simp: k_def)
    have s: "s = take k s @ [s ! k] @ t" using id_take_nth_drop [OF 3] by (simp add: t_def)
    have q: "escaped s = take k s @ [0x5c] @ [escape_lookup_table (s ! k)] @ escaped t"
      by (subst s) (use c e in \<open>simp add: escape_byte_def\<close>)
    have lens: "length t < length s" "length t < object_limit" using 3 "1.prems"(1) by (auto simp: t_def)
    have "fills alloc p ((((p @ take k s) @ [0x5c]) @ [escape_lookup_table (s ! k)]) @ escaped t) n
        (checked (trilogy_buffer_write alloc (take k s) (word_of_nat (length (take k s)))) (\<lambda>_.
         checked (trilogy_buffer_putc alloc 0x5c) (\<lambda>_.
         checked (trilogy_buffer_putc alloc (escape_lookup_table (s ! k))) (\<lambda>_.
         backslashes alloc t))))"
      using "1.prems" lens k
      by (intro fills_then [OF fills_write] fills_then [OF fills_putc] "1.IH" [rule_format, OF lens])
        (simp_all add: q)
    with 3 k(1) q show ?thesis by (auto simp: unfold t_def)
  qed
qed

section \<open>What a reader of the literal sees\<close>

text \<open>
  The characters of an SQL literal up to its end, in the two modes. A quote that is not
  escaped ends the literal: there is no string then.
\<close>

definition unescape_byte :: "u8 \<Rightarrow> u8" where
  "unescape_byte c =
     (if c = 0x30 then 0 else if c = 0x6e then 0x0a else if c = 0x72 then 0x0d else if c = 0x5a then 26 else c)"

fun unescape :: "u8 list \<Rightarrow> u8 list option" where
  "unescape [] = Some []"
| "unescape [c] = (if c = 0x5c \<or> c = 0x27 \<or> c = 0x22 then None else Some [c])"
| "unescape (c # d # s) =
     (if c = 0x5c then map_option ((#) (unescape_byte d)) (unescape s)
      else if c = 0x27 \<or> c = 0x22 then None
      else map_option ((#) c) (unescape (d # s)))"

fun unquote :: "u8 list \<Rightarrow> u8 list option" where
  "unquote [] = Some []"
| "unquote [c] = (if c = 0x27 then None else Some [c])"
| "unquote (c # d # s) =
     (if c = 0x27 then (if d = 0x27 then map_option ((#) 0x27) (unquote s) else None)
      else map_option ((#) c) (unquote (d # s)))"

lemma unescape_plain:
  "c \<noteq> 0x5c \<Longrightarrow> c \<noteq> 0x27 \<Longrightarrow> c \<noteq> 0x22 \<Longrightarrow> unescape (c # s) = map_option ((#) c) (unescape s)"
  by (cases s) simp_all

lemma unquote_plain: "c \<noteq> 0x27 \<Longrightarrow> unquote (c # s) = map_option ((#) c) (unquote s)"
  by (cases s) simp_all

lemma unescape_escaped: "unescape (escaped s) = Some s"
proof (induction s)
  case (Cons c s)
  then show ?case
    by (cases "escape_lookup_table c = 0")
      (auto simp: escape_byte_def unescape_plain escape_lookup_table_def unescape_byte_def split: if_splits)
qed simp

lemma unquote_quoted: "unquote (quoted s) = Some s"
  by (induction s) (auto simp: quote_byte_def unquote_plain)

section \<open>The function as a whole\<close>

abbreviation no_backslash_escapes :: "'w trilogy_conn \<Rightarrow> bool" where
  "no_backslash_escapes c \<equiv>
     server_status c AND server_status_flag TRILOGY_SERVER_STATUS_NO_BACKSLASH_ESCAPES \<noteq> 0"

lemma escape_cases:
  assumes ok: "buffer_ok (packet_buffer c)" and len: "unat len \<le> length str" "unat len < object_limit"
    and run: "trilogy_escape alloc str len c = (r, c')"
  shows "buffer_ok (packet_buffer c') \<and> c' = c\<lparr>packet_buffer := packet_buffer c'\<rparr>
    \<and> (let s = take (unat len) str; e = (if no_backslash_escapes c then quoted s else escaped s)
       in r = Inr e \<and> contents (packet_buffer c') = e \<or> (\<exists>x. r = Inl x \<and> refuses alloc (length e) x))"
proof -
  define s where "s = take (unat len) str"
  define e where "e = (if no_backslash_escapes c then quoted s else escaped s)"
  have ls: "length s = unat len" "length s < object_limit" "length s \<le> length e"
    using len length_escaped [of s] by (simp_all add: s_def e_def)
  let ?body = "if no_backslash_escapes c then double_quotes alloc s else backslashes alloc s"
  have body: "fills alloc [] e (length e) ?body"
    using double_quotes_fills [OF ls(2), of "[]" "length e" alloc] backslashes_fills [OF ls(2), of "[]" "length e" alloc]
    by (cases "no_backslash_escapes c") (simp_all add: e_def)
  have "fills alloc [] [] (length e) (trilogy_buffer_expand alloc len)"
    by (rule holds_weaken [OF store.reserve_law [of len "[]" alloc]])
      (use len ls in \<open>auto intro: refuses_mono\<close>)
  note expand = fills_then [OF this body]
  define m where "m = checked (put_state (\<lambda>b. b\<lparr>buf_len := 0\<rparr>)) (\<lambda>_. checked (trilogy_buffer_expand alloc len) (\<lambda>_. ?body))"
  have all: "holds buffer_ok m (\<lambda>_ b. buffer_ok b \<and> contents b = e) (\<lambda>x b. buffer_ok b \<and> refuses alloc (length e) x)"
    unfolding m_def by (rule holds_put_state_then [OF expand]) (simp add: buffer_ok_reset)
  obtain x u where u: "m (packet_buffer c) = (x, u)" by fastforce
  have "trilogy_escape alloc str len c =
      checked (on_packet_buffer m) (\<lambda>_. checked get_state (\<lambda>c. ret (contents (packet_buffer c)))) c"
    using len(1) unfolding trilogy_escape_def m_def s_def by (simp add: not_less)
  then have run': "(r, c') = (case x of Inl y \<Rightarrow> Inl y | Inr _ \<Rightarrow> Inr (contents u), c\<lparr>packet_buffer := u\<rparr>)"
    using run u by (simp add: on_part_def checked_apply split: sum.splits)
  then show ?thesis
    using holds_Inr [OF all ok] holds_Inl [OF all ok] u
    by (cases x) (auto simp: e_def s_def Let_def)
qed

end
