(* ===== verification/Tls.thy ===== *)
theory Tls
  imports Exchange
begin

text \<open>
  The encrypted sockets of \<^verbatim>\<open>src/socket.c\<close>: how a context of OpenSSL is set up from the options, how a
  connected socket is upgraded, and the callbacks that replace the plain ones. OpenSSL is a
  parameter: a function from the calls that were made so far, with their answers, and the
  next call to its answer, which may also do anything to the kernel. The socket keeps the list of
  calls, so a theorem about a run is one about what the code asked of the library and in
  which order, for every library. The code is that of a build against OpenSSL 1.1.1 or later.
\<close>

section \<open>Calls of OpenSSL\<close>

text \<open>
  A call with its arguments. A pointer to an object of the library is the number the library
  answered when it was made, \<open>0\<close> for \<^verbatim>\<open>NULL\<close>. The store and the parameters that are read from
  a context or a connection are named by it; \<open>Errno_value\<close> reads \<^verbatim>\<open>errno\<close>.
\<close>

datatype ssl_call =
    ERR_clear_error
  | ERR_peek_error
  | ERR_put_error
  | Errno_value
  | SSL_CTX_new
  | SSL_CTX_free int
  | SSL_CTX_set_min_proto_version int int
  | SSL_CTX_set_max_proto_version int int
  | SSL_CTX_set_cipher_list int "u8 list"
  | SSL_CTX_set_ciphersuites int "u8 list"
  | SSL_CTX_set_verify int int
  | SSL_CTX_load_verify_locations int "u8 list option" "u8 list option"
  | SSL_CTX_set_default_verify_paths int
  | SSL_CTX_use_PrivateKey_file int "u8 list"
  | SSL_CTX_use_certificate_chain_file int "u8 list"
  | SSL_CTX_check_private_key int
  | X509_STORE_load_locations int "u8 list option" "u8 list option"
  | X509_STORE_set_flags int int
  | SSL_new int
  | SSL_free int
  | SSL_set_tlsext_host_name int "u8 list"
  | X509_VERIFY_PARAM_set_hostflags int int
  | X509_VERIFY_PARAM_set1_host int "u8 list"
  | SSL_set_fd int int
  | SSL_connect int
  | SSL_get_error int int
  | SSL_read int int
  | SSL_write int "u8 list" int
  | SSL_in_init int
  | SSL_shutdown int

record ssl_answer =
  ans_ret :: int
  ans_data :: "u8 list"

type_synonym ssl_event = "ssl_call \<times> ssl_answer"

type_synonym openssl = "ssl_event list \<Rightarrow> ssl_call \<Rightarrow> kernel \<Rightarrow> ssl_answer \<times> kernel"

text \<open>Constants of its headers.\<close>

definition SSL_VERIFY_NONE :: int where "SSL_VERIFY_NONE = 0"
definition SSL_VERIFY_PEER :: int where "SSL_VERIFY_PEER = 1"
definition X509_V_FLAG_CRL_CHECK :: int where "X509_V_FLAG_CRL_CHECK = 4"
definition X509_V_FLAG_CRL_CHECK_ALL :: int where "X509_V_FLAG_CRL_CHECK_ALL = 8"
definition X509_CHECK_FLAG_NO_PARTIAL_WILDCARDS :: int where "X509_CHECK_FLAG_NO_PARTIAL_WILDCARDS = 4"
definition SSL_ERROR_WANT_READ :: int where "SSL_ERROR_WANT_READ = 2"
definition SSL_ERROR_WANT_WRITE :: int where "SSL_ERROR_WANT_WRITE = 3"
definition SSL_ERROR_SYSCALL :: int where "SSL_ERROR_SYSCALL = 5"
definition SSL_ERROR_ZERO_RETURN :: int where "SSL_ERROR_ZERO_RETURN = 6"

lemmas ssl_constants = SSL_VERIFY_NONE_def SSL_VERIFY_PEER_def X509_V_FLAG_CRL_CHECK_def
  X509_V_FLAG_CRL_CHECK_ALL_def X509_CHECK_FLAG_NO_PARTIAL_WILDCARDS_def SSL_ERROR_WANT_READ_def
  SSL_ERROR_WANT_WRITE_def SSL_ERROR_SYSCALL_def SSL_ERROR_ZERO_RETURN_def

section \<open>The socket\<close>

text \<open>
  The plain socket, the connection of OpenSSL, the callbacks that are installed for reading,
  writing, shutting down and closing, and the calls so far.
\<close>

datatype handlers = Raw_handlers | Ssl_handlers | Shut_handlers

record tls_sock =
  tls_raw :: raw_sock
  tls_ssl :: int
  tls_handlers :: handlers
  calls :: "ssl_event list"

abbreviation on_raw :: "(raw_sock, 'a) op \<Rightarrow> (tls_sock, 'a) op" where
  "on_raw \<equiv> on_part tls_raw (\<lambda>r s. s\<lparr>tls_raw := r\<rparr>)"

definition call :: "openssl \<Rightarrow> ssl_call \<Rightarrow> (tls_sock, ssl_answer) op" where
  "call lib c = (\<lambda>s.
     case lib (calls s) c (sys (tls_raw s)) of
       (a, k) \<Rightarrow> (Inr a, s\<lparr>calls := calls s @ [(c, a)], tls_raw := (tls_raw s)\<lparr>sys := k\<rparr>\<rparr>))"

text \<open>A call whose answer is ignored, and one that goes to \<^verbatim>\<open>fail\<close> when the answer is \<open>0\<close>.\<close>

definition perform :: "openssl \<Rightarrow> ssl_call \<Rightarrow> (tls_sock, unit) op" where
  "perform lib c = checked (call lib c) (\<lambda>_. ret ())"

definition demand :: "openssl \<Rightarrow> ssl_call \<Rightarrow> (tls_sock, unit) op" where
  "demand lib c = checked (call lib c) (\<lambda>a. if ans_ret a = 0 then throw TRILOGY_OPENSSL_ERR else ret ())"

definition if_given :: "'a option \<Rightarrow> ('a \<Rightarrow> ('s, unit) op) \<Rightarrow> ('s, unit) op" where
  "if_given x f = (case x of None \<Rightarrow> ret () | Some y \<Rightarrow> f y)"

definition when_true :: "bool \<Rightarrow> ('s, unit) op \<Rightarrow> ('s, unit) op" where
  "when_true b m = (if b then m else ret ())"

text \<open>The cast \<^verbatim>\<open>(int)\<close> of a size.\<close>

definition c_int :: "size_t \<Rightarrow> int" where
  "c_int n = sint (ucast n :: 32 word)"

section \<open>Reading and writing\<close>

text \<open>What an answer of \<^verbatim>\<open>SSL_read\<close> or \<^verbatim>\<open>SSL_write\<close> means to the client; a positive one is passed on.\<close>

definition ssl_io_return :: "openssl \<Rightarrow> int \<Rightarrow> (tls_sock, unit) op" where
  "ssl_io_return lib ret_value =
     (if ret_value \<le> 0 then
        checked get_state (\<lambda>s.
        checked (call lib (SSL_get_error (tls_ssl s) ret_value)) (\<lambda>a.
        let rc = ans_ret a
        in if rc = SSL_ERROR_WANT_WRITE \<or> rc = SSL_ERROR_WANT_READ then throw TRILOGY_AGAIN
           else if rc = SSL_ERROR_ZERO_RETURN then throw TRILOGY_CLOSED_CONNECTION
           else if rc = SSL_ERROR_SYSCALL then
             checked (call lib ERR_peek_error) (\<lambda>queued.
             if ans_ret queued = 0 then
               checked (call lib Errno_value) (\<lambda>errno.
               if ans_ret errno = 0 then throw TRILOGY_CLOSED_CONNECTION else throw TRILOGY_SYSERR)
             else throw TRILOGY_OPENSSL_ERR)
           else throw TRILOGY_OPENSSL_ERR))
      else ret ())"

definition cb_ssl_read :: "openssl \<Rightarrow> size_t \<Rightarrow> (tls_sock, u8 list) op" where
  "cb_ssl_read lib nread =
     checked (perform lib ERR_clear_error) (\<lambda>_.
     checked get_state (\<lambda>s.
     checked (call lib (SSL_read (tls_ssl s) (c_int nread))) (\<lambda>a.
     checked (ssl_io_return lib (ans_ret a)) (\<lambda>_.
     ret (take (nat (ans_ret a)) (ans_data a))))))"

definition cb_ssl_write :: "openssl \<Rightarrow> u8 list \<Rightarrow> (tls_sock, size_t) op" where
  "cb_ssl_write lib buf =
     checked (perform lib ERR_clear_error) (\<lambda>_.
     checked get_state (\<lambda>s.
     checked (call lib (SSL_write (tls_ssl s) buf (c_int (word_of_nat (length buf))))) (\<lambda>a.
     checked (ssl_io_return lib (ans_ret a)) (\<lambda>_.
     ret (word_of_int (ans_ret a))))))"

section \<open>Closing\<close>

definition tls_raw_shutdown :: "(tls_sock, unit) op" where
  "tls_raw_shutdown =
     checked (put_state (\<lambda>s. s\<lparr>tls_handlers := Shut_handlers\<rparr>)) (\<lambda>_. on_raw cb_raw_shutdown)"

definition cb_ssl_shutdown :: "openssl \<Rightarrow> (tls_sock, unit) op" where
  "cb_ssl_shutdown lib =
     checked get_state (\<lambda>s.
     checked (perform lib (SSL_free (tls_ssl s))) (\<lambda>_.
     checked (put_state (\<lambda>s. s\<lparr>tls_ssl := 0\<rparr>)) (\<lambda>_.
     tls_raw_shutdown)))"

definition cb_ssl_close :: "openssl \<Rightarrow> (tls_sock, unit) op" where
  "cb_ssl_close lib =
     checked get_state (\<lambda>s.
     checked (when_true (tls_ssl s \<noteq> 0)
       (checked (call lib (SSL_in_init (tls_ssl s))) (\<lambda>a.
        checked (when_true (ans_ret a = 0)
          (checked (perform lib (SSL_shutdown (tls_ssl s))) (\<lambda>_. perform lib ERR_clear_error))) (\<lambda>_.
        checked (perform lib (SSL_free (tls_ssl s))) (\<lambda>_.
        put_state (\<lambda>s. s\<lparr>tls_ssl := 0\<rparr>)))))) (\<lambda>_.
     on_raw cb_raw_close))"

section \<open>Setting up a context\<close>

definition trilogy_tls_version_map :: "trilogy_tls_version \<Rightarrow> int" where
  "trilogy_tls_version_map v =
     (case v of TRILOGY_TLS_VERSION_UNDEF \<Rightarrow> 0 | TRILOGY_TLS_VERSION_10 \<Rightarrow> 0x301
      | TRILOGY_TLS_VERSION_11 \<Rightarrow> 0x302 | TRILOGY_TLS_VERSION_12 \<Rightarrow> 0x303 | TRILOGY_TLS_VERSION_13 \<Rightarrow> 0x304)"

text \<open>Both return what OpenSSL answered; \<open>0\<close> is the failure the callers look for.\<close>

definition trilogy_set_min_proto_version :: "openssl \<Rightarrow> int \<Rightarrow> trilogy_tls_version \<Rightarrow> (tls_sock, int) op" where
  "trilogy_set_min_proto_version lib ctx version =
     (let ssl_ver = trilogy_tls_version_map version
      in if ssl_ver = 0 then checked (perform lib ERR_put_error) (\<lambda>_. ret 0)
         else checked (call lib (SSL_CTX_set_min_proto_version ctx ssl_ver)) (\<lambda>a. ret (ans_ret a)))"

definition trilogy_set_max_proto_version :: "openssl \<Rightarrow> int \<Rightarrow> trilogy_tls_version \<Rightarrow> (tls_sock, int) op" where
  "trilogy_set_max_proto_version lib ctx version =
     (let ssl_ver = trilogy_tls_version_map version
      in if ssl_ver = 0 then checked (perform lib ERR_put_error) (\<lambda>_. ret 0)
         else checked (call lib (SSL_CTX_set_max_proto_version ctx ssl_ver)) (\<lambda>a. ret (ans_ret a)))"

definition or_fail :: "('s, int) op \<Rightarrow> ('s, unit) op" where
  "or_fail m = checked m (\<lambda>n. if n = 0 then throw TRILOGY_OPENSSL_ERR else ret ())"

definition default_ciphers :: "u8 list" where
  "default_ciphers = ascii (''ECDHE-ECDSA-AES128-GCM-SHA256:ECDHE-RSA-AES128-GCM-SHA256:'' @
     ''ECDHE-ECDSA-AES256-GCM-SHA384:ECDHE-RSA-AES256-GCM-SHA384:'' @
     ''ECDHE-ECDSA-CHACHA20-POLY1305:ECDHE-RSA-CHACHA20-POLY1305'')"

definition verify_mode :: "trilogy_ssl_mode \<Rightarrow> int option" where
  "verify_mode mode =
     (case mode of TRILOGY_SSL_DISABLED \<Rightarrow> None
      | TRILOGY_SSL_VERIFY_IDENTITY \<Rightarrow> Some SSL_VERIFY_PEER | TRILOGY_SSL_VERIFY_CA \<Rightarrow> Some SSL_VERIFY_PEER
      | TRILOGY_SSL_REQUIRED_NOVERIFY \<Rightarrow> Some SSL_VERIFY_NONE | TRILOGY_SSL_PREFERRED_NOVERIFY \<Rightarrow> Some SSL_VERIFY_NONE)"

text \<open>The settings, up to the first one that fails.\<close>

definition ssl_ctx_versions :: "openssl \<Rightarrow> int \<Rightarrow> trilogy_sockopt \<Rightarrow> (tls_sock, unit) op" where
  "ssl_ctx_versions lib ctx opts =
     checked (if opt_tls_min_version opts \<noteq> TRILOGY_TLS_VERSION_UNDEF
              then or_fail (trilogy_set_min_proto_version lib ctx (opt_tls_min_version opts))
              else or_fail (trilogy_set_min_proto_version lib ctx TRILOGY_TLS_VERSION_12)) (\<lambda>_.
     when_true (opt_tls_max_version opts \<noteq> TRILOGY_TLS_VERSION_UNDEF)
       (or_fail (trilogy_set_max_proto_version lib ctx (opt_tls_max_version opts))))"

definition ssl_ctx_ciphers :: "openssl \<Rightarrow> int \<Rightarrow> trilogy_sockopt \<Rightarrow> (tls_sock, unit) op" where
  "ssl_ctx_ciphers lib ctx opts =
     checked (demand lib (SSL_CTX_set_cipher_list ctx
       (case opt_ssl_cipher opts of Some s \<Rightarrow> c_string s | None \<Rightarrow> default_ciphers))) (\<lambda>_.
     if_given (opt_tls_ciphersuites opts) (\<lambda>s. demand lib (SSL_CTX_set_ciphersuites ctx (c_string s))))"

definition ssl_ctx_verify :: "openssl \<Rightarrow> int \<Rightarrow> trilogy_sockopt \<Rightarrow> (tls_sock, unit) op" where
  "ssl_ctx_verify lib ctx opts =
     checked (if_given (verify_mode (opt_ssl_mode opts)) (\<lambda>m. perform lib (SSL_CTX_set_verify ctx m))) (\<lambda>_.
     if opt_ssl_ca opts \<noteq> None \<or> opt_ssl_capath opts \<noteq> None
     then demand lib (SSL_CTX_load_verify_locations ctx
            (map_option c_string (opt_ssl_ca opts)) (map_option c_string (opt_ssl_capath opts)))
     else demand lib (SSL_CTX_set_default_verify_paths ctx))"

definition ssl_ctx_certificate :: "openssl \<Rightarrow> int \<Rightarrow> trilogy_sockopt \<Rightarrow> (tls_sock, unit) op" where
  "ssl_ctx_certificate lib ctx opts =
     when_true (opt_ssl_cert opts \<noteq> None \<or> opt_ssl_key opts \<noteq> None)
       (checked (if_given (opt_ssl_key opts) (\<lambda>s. demand lib (SSL_CTX_use_PrivateKey_file ctx (c_string s)))) (\<lambda>_.
        checked (if_given (opt_ssl_cert opts) (\<lambda>s. demand lib (SSL_CTX_use_certificate_chain_file ctx (c_string s)))) (\<lambda>_.
        demand lib (SSL_CTX_check_private_key ctx))))"

definition ssl_ctx_revocation :: "openssl \<Rightarrow> int \<Rightarrow> trilogy_sockopt \<Rightarrow> (tls_sock, unit) op" where
  "ssl_ctx_revocation lib ctx opts =
     when_true (opt_ssl_crl opts \<noteq> None \<or> opt_ssl_crlpath opts \<noteq> None)
       (checked (demand lib (X509_STORE_load_locations ctx
          (map_option c_string (opt_ssl_crl opts)) (map_option c_string (opt_ssl_crlpath opts)))) (\<lambda>_.
        demand lib (X509_STORE_set_flags ctx (X509_V_FLAG_CRL_CHECK OR X509_V_FLAG_CRL_CHECK_ALL))))"

definition ssl_ctx_settings :: "openssl \<Rightarrow> int \<Rightarrow> trilogy_sockopt \<Rightarrow> (tls_sock, unit) op" where
  "ssl_ctx_settings lib ctx opts =
     checked (ssl_ctx_versions lib ctx opts) (\<lambda>_.
     checked (ssl_ctx_ciphers lib ctx opts) (\<lambda>_.
     checked (ssl_ctx_verify lib ctx opts) (\<lambda>_.
     checked (ssl_ctx_certificate lib ctx opts) (\<lambda>_.
     ssl_ctx_revocation lib ctx opts))))"

text \<open>\<open>or_else m f\<close> runs \<open>f\<close> where the code has a \<^verbatim>\<open>goto fail\<close>.\<close>

definition or_else :: "('s, 'a) op \<Rightarrow> ('s, 'a) op \<Rightarrow> ('s, 'a) op" where
  "or_else m f = (\<lambda>s. case m s of (Inl (Rc _), s') \<Rightarrow> f s' | (r, s') \<Rightarrow> (r, s'))"

text \<open>The context, or \<open>0\<close>.\<close>

definition trilogy_ssl_ctx :: "openssl \<Rightarrow> trilogy_sockopt \<Rightarrow> (tls_sock, int) op" where
  "trilogy_ssl_ctx lib opts =
     checked (call lib SSL_CTX_new) (\<lambda>a.
     let ctx = ans_ret a
     in or_else (checked (ssl_ctx_settings lib ctx opts) (\<lambda>_. ret ctx))
          (checked (perform lib (SSL_CTX_free ctx)) (\<lambda>_. ret 0)))"

section \<open>The upgrade\<close>

definition ssl_identity :: "openssl \<Rightarrow> trilogy_sockopt \<Rightarrow> (tls_sock, unit) op" where
  "ssl_identity lib opts =
     checked get_state (\<lambda>s.
     checked (when_true (opt_ssl_mode opts = TRILOGY_SSL_VERIFY_IDENTITY \<and> opt_hostname opts = None)
       (checked (perform lib ERR_put_error) (\<lambda>_. throw TRILOGY_OPENSSL_ERR))) (\<lambda>_.
     checked (if_given (opt_hostname opts) (\<lambda>host.
       demand lib (SSL_set_tlsext_host_name (tls_ssl s) (c_string host)))) (\<lambda>_.
     when_true (opt_ssl_mode opts = TRILOGY_SSL_VERIFY_IDENTITY)
       (checked (perform lib (X509_VERIFY_PARAM_set_hostflags (tls_ssl s) X509_CHECK_FLAG_NO_PARTIAL_WILDCARDS)) (\<lambda>_.
        if_given (opt_hostname opts) (\<lambda>host.
          demand lib (X509_VERIFY_PARAM_set1_host (tls_ssl s) (c_string host))))))))"

text \<open>One round of the handshake: done, or again after a wait, or \<^verbatim>\<open>fail\<close>.\<close>

definition tls_wait :: "trilogy_wait \<Rightarrow> (tls_sock, unit) op" where
  "tls_wait w = on_raw (raw_wait w)"

definition ssl_connect_round :: "openssl \<Rightarrow> (tls_sock, bool) op" where
  "ssl_connect_round lib =
     checked (perform lib ERR_clear_error) (\<lambda>_.
     checked get_state (\<lambda>s.
     checked (call lib (SSL_connect (tls_ssl s))) (\<lambda>a.
     if ans_ret a = 1 then ret True
     else
       checked (call lib (SSL_get_error (tls_ssl s) (ans_ret a))) (\<lambda>e.
       if ans_ret e = SSL_ERROR_WANT_READ then checked (tls_wait TRILOGY_WAIT_READ) (\<lambda>_. ret False)
       else if ans_ret e = SSL_ERROR_WANT_WRITE then checked (tls_wait TRILOGY_WAIT_WRITE) (\<lambda>_. ret False)
       else throw TRILOGY_OPENSSL_ERR))))"

partial_function (option) ssl_connect_loop ::
  "openssl \<Rightarrow> tls_sock \<Rightarrow> ((stop + unit) \<times> tls_sock) option" where
  "ssl_connect_loop lib s =
     (case ssl_connect_round lib s of (r, s') \<Rightarrow>
        (case r of
           Inl e \<Rightarrow> Some (Inl e, s')
         | Inr done \<Rightarrow> if done then Some (Inr (), s') else ssl_connect_loop lib s'))"

definition ssl_handshake :: "openssl \<Rightarrow> (tls_sock, unit) op" where
  "ssl_handshake lib = (\<lambda>s. case ssl_connect_loop lib s of None \<Rightarrow> (Inl Hang, s) | Some x \<Rightarrow> x)"

definition trilogy_sock_upgrade_ssl :: "openssl \<Rightarrow> trilogy_sockopt \<Rightarrow> (tls_sock, unit) op" where
  "trilogy_sock_upgrade_ssl lib opts =
     checked (perform lib ERR_clear_error) (\<lambda>_.
     checked (trilogy_ssl_ctx lib opts) (\<lambda>ctx.
     if ctx = 0 then throw TRILOGY_OPENSSL_ERR
     else
       checked (call lib (SSL_new ctx)) (\<lambda>a.
       checked (put_state (\<lambda>s. s\<lparr>tls_ssl := ans_ret a\<rparr>)) (\<lambda>_.
       checked (perform lib (SSL_CTX_free ctx)) (\<lambda>_.
       or_else
         (checked (ssl_identity lib opts) (\<lambda>_.
          checked get_state (\<lambda>s.
          checked (demand lib (SSL_set_fd (tls_ssl s) (sock_fd (tls_raw s)))) (\<lambda>_.
          checked (ssl_handshake lib) (\<lambda>_.
          put_state (\<lambda>s. s\<lparr>tls_handlers := Ssl_handlers\<rparr>))))))
         (checked get_state (\<lambda>s.
          checked (perform lib (SSL_free (tls_ssl s))) (\<lambda>_.
          checked (put_state (\<lambda>s. s\<lparr>tls_ssl := 0\<rparr>)) (\<lambda>_.
          throw TRILOGY_OPENSSL_ERR)))))))))"

section \<open>The table of callbacks\<close>

definition by_handlers :: "(tls_sock, 'a) op \<Rightarrow> (tls_sock, 'a) op \<Rightarrow> (tls_sock, 'a) op \<Rightarrow> (tls_sock, 'a) op" where
  "by_handlers raw tls stub = (\<lambda>s.
     case tls_handlers s of Raw_handlers \<Rightarrow> raw s | Ssl_handlers \<Rightarrow> tls s | Shut_handlers \<Rightarrow> stub s)"

definition tls_read :: "openssl \<Rightarrow> size_t \<Rightarrow> (tls_sock, u8 list) op" where
  "tls_read lib n = by_handlers (on_raw (raw_read n)) (cb_ssl_read lib n) (on_raw (cb_shutdown_read n))"

definition tls_write :: "openssl \<Rightarrow> u8 list \<Rightarrow> (tls_sock, size_t) op" where
  "tls_write lib bs = by_handlers (on_raw (raw_write bs)) (cb_ssl_write lib bs) (on_raw (cb_shutdown_write bs))"

definition tls_socket :: "openssl \<Rightarrow> trilogy_sockopt \<Rightarrow> tls_sock trilogy_sock" where
  "tls_socket lib opts =
     \<lparr>connect_cb = on_raw (handler (cb_raw_connect opts) cb_shutdown_connect),
      read_cb = tls_read lib, write_cb = tls_write lib, wait_cb = tls_wait,
      shutdown_cb = by_handlers tls_raw_shutdown (cb_ssl_shutdown lib) (on_raw cb_shutdown_shutdown),
      close_cb = by_handlers (on_raw cb_raw_close) (cb_ssl_close lib) (on_raw cb_raw_close),
      fd_cb = on_raw cb_raw_fd,
      sock_opts = opts\<rparr>"

section \<open>They are stream sockets\<close>

text \<open>
  The bytes an event brought from the peer or took for it. \<open>delivers lib m\<close> is what OpenSSL
  documents of its two transfers, for a peer that sends \<open>m\<close>: a positive answer is at most the
  number that was asked for, and reads deliver the bytes of the peer in order.
\<close>

definition event_received :: "ssl_event \<Rightarrow> u8 list" where
  "event_received e = (case e of (SSL_read p n, a) \<Rightarrow> take (nat (ans_ret a)) (ans_data a) | _ \<Rightarrow> [])"

definition event_sent :: "ssl_event \<Rightarrow> u8 list" where
  "event_sent e = (case e of (SSL_write p bs n, a) \<Rightarrow> take (nat (ans_ret a)) bs | _ \<Rightarrow> [])"

definition received :: "ssl_event list \<Rightarrow> u8 list" where
  "received h = concat (map event_received h)"

definition sent :: "ssl_event list \<Rightarrow> u8 list" where
  "sent h = concat (map event_sent h)"

lemma received_simps [simp]:
  "received [] = []" "received (e # h) = event_received e @ received h" "received (h @ h') = received h @ received h'"
  by (simp_all add: received_def)

lemma sent_simps [simp]:
  "sent [] = []" "sent (e # h) = event_sent e @ sent h" "sent (h @ h') = sent h @ sent h'"
  by (simp_all add: sent_def)

definition delivers :: "openssl \<Rightarrow> u8 list \<Rightarrow> bool" where
  "delivers lib m \<longleftrightarrow>
     (\<forall>h k p n. let a = fst (lib h (SSL_read p n) k)
        in 0 < ans_ret a \<longrightarrow> ans_ret a \<le> n \<and> ans_ret a = int (length (ans_data a))
             \<and> prefix (ans_data a) (drop (length (received h)) m))
   \<and> (\<forall>h k p bs n. ans_ret (fst (lib h (SSL_write p bs n) k)) \<le> max 0 n)"

text \<open>The bytes still to come, and those that were taken, by the handlers that are installed.\<close>

definition tls_incoming :: "u8 list \<Rightarrow> tls_sock \<Rightarrow> u8 list" where
  "tls_incoming m s = (case tls_handlers s of
     Raw_handlers \<Rightarrow> to_read (sys (tls_raw s)) | Ssl_handlers \<Rightarrow> drop (length (received (calls s))) m | Shut_handlers \<Rightarrow> [])"

definition tls_outgoing :: "tls_sock \<Rightarrow> u8 list" where
  "tls_outgoing s = (case tls_handlers s of Raw_handlers \<Rightarrow> written (sys (tls_raw s)) | _ \<Rightarrow> sent (calls s))"

lemma on_raw_apply: "on_raw f s = (r, s') \<longleftrightarrow> (\<exists>t. f (tls_raw s) = (r, t) \<and> s' = s\<lparr>tls_raw := t\<rparr>)"
  by (auto simp: on_part_def split: prod.splits)

lemma call_apply: "call lib c s = (r, s') \<longleftrightarrow> (\<exists>a k. lib (calls s) c (sys (tls_raw s)) = (a, k) \<and> r = Inr a
    \<and> s' = s\<lparr>calls := calls s @ [(c, a)], tls_raw := (tls_raw s)\<lparr>sys := k\<rparr>\<rparr>)"
  by (auto simp: call_def split: prod.splits)

lemma perform_apply: "perform lib c s = (r, s') \<longleftrightarrow> r = Inr () \<and> (\<exists>a. call lib c s = (Inr a, s'))"
  by (auto simp: perform_def checked_apply call_def split: prod.splits)

lemma demand_apply: "demand lib c s = (r, s') \<longleftrightarrow>
    (\<exists>a. call lib c s = (Inr a, s') \<and> r = (if ans_ret a = 0 then Inl (Rc TRILOGY_OPENSSL_ERR) else Inr ()))"
  by (auto simp: demand_def checked_apply call_def split: prod.splits)

text \<open>Beside the calls, what the operations leave alone.\<close>

definition extends :: "tls_sock \<Rightarrow> ssl_event list \<Rightarrow> tls_sock \<Rightarrow> bool" where
  "extends s h s' \<longleftrightarrow> calls s' = calls s @ h \<and> tls_ssl s' = tls_ssl s \<and> tls_handlers s' = tls_handlers s
     \<and> sock_fd (tls_raw s') = sock_fd (tls_raw s)"

lemma extends_refl [simp]: "extends s [] s"
  by (simp add: extends_def)

lemma extends_trans: "extends s h t \<Longrightarrow> extends t h' u \<Longrightarrow> extends s (h @ h') u"
  by (simp add: extends_def)

lemma call_extends: "call lib c s = (r, s') \<Longrightarrow> \<exists>a. r = Inr a \<and> extends s [(c, a)] s'"
  by (auto simp: call_apply extends_def)

lemma ssl_io_return_cases:
  assumes "ssl_io_return lib n s = (r, s')"
  shows "(0 < n \<longleftrightarrow> r = Inr ()) \<and> (r = Inr () \<and> s' = s \<or> (\<exists>rc. r = Inl (Rc rc) \<and> rc \<noteq> TRILOGY_OK))
    \<and> (\<exists>h. extends s h s' \<and> received h = [] \<and> sent h = [])"
proof (cases "n \<le> 0")
  case True
  have one: "\<exists>h. extends s h u \<and> received h = [] \<and> sent h = []"
    if "extends s h t" "received h = []" "sent h = []" "call lib c t = (x, u)"
       "\<And>a. event_received (c, a) = [] \<and> event_sent (c, a) = []" for s h t c x u
    using that call_extends [OF that(4)] extends_trans by fastforce
  obtain a s1 where c1: "call lib (SSL_get_error (tls_ssl s) n) s = (Inr a, s1)"
    using call_extends [of lib "SSL_get_error (tls_ssl s) n" s] by (metis surj_pair)
  obtain b s2 where c2: "call lib ERR_peek_error s1 = (Inr b, s2)"
    using call_extends [of lib ERR_peek_error s1] by (metis surj_pair)
  obtain e s3 where c3: "call lib Errno_value s2 = (Inr e, s3)"
    using call_extends [of lib Errno_value s2] by (metis surj_pair)
  have h1: "\<exists>h. extends s h s1 \<and> received h = [] \<and> sent h = []"
    using one [of s "[]" s, OF _ _ _ c1] by (simp add: event_received_def event_sent_def)
  then have h2: "\<exists>h. extends s h s2 \<and> received h = [] \<and> sent h = []"
    using one [OF _ _ _ c2] by (fastforce simp: event_received_def event_sent_def)
  then have h3: "\<exists>h. extends s h s3 \<and> received h = [] \<and> sent h = []"
    using one [OF _ _ _ c3] by (fastforce simp: event_received_def event_sent_def)
  show ?thesis using assms True h1 h2 h3
    by (auto simp: ssl_io_return_def checked_apply c1 c2 c3 Let_def split: if_splits)
qed (use assms in \<open>auto simp: ssl_io_return_def intro: exI [of _ "[]"]\<close>)

lemma c_int_le: "c_int n \<le> int (unat n)"
proof -
  have "take_bit 32 (uint (ucast n :: 32 word)) \<le> uint (ucast n :: 32 word)"
    by (simp add: take_bit_int_less_eq_self_iff)
  then have "sint (ucast n :: 32 word) \<le> uint (ucast n :: 32 word)"
    by (simp add: sint_uint signed_take_bit_eq_take_bit_minus split: if_splits)
  also have "\<dots> \<le> uint n" by (simp add: unsigned_ucast_eq take_bit_int_less_eq_self_iff)
  finally show ?thesis by (simp add: c_int_def)
qed

lemma call_cases:
  obtains a t where "call lib c s = (Inr a, t)" "a = fst (lib (calls s) c (sys (tls_raw s)))" "extends s [(c, a)] t"
proof -
  obtain a k where "lib (calls s) c (sys (tls_raw s)) = (a, k)" by fastforce
  then show ?thesis by (intro that) (auto simp: call_def extends_def)
qed

text \<open>Whatever the handlers, the socket keeps the contract of a stream.\<close>

lemma delivers_read:
  assumes "delivers lib m" and "a = fst (lib h (SSL_read p n) k)" and "0 < ans_ret a"
  shows "ans_ret a \<le> n \<and> ans_ret a = int (length (ans_data a)) \<and> prefix (ans_data a) (drop (length (received h)) m)"
  using assms unfolding delivers_def Let_def by blast

lemma delivers_write: "delivers lib m \<Longrightarrow> a = fst (lib h (SSL_write p bs n) k) \<Longrightarrow> ans_ret a \<le> max 0 n"
  unfolding delivers_def by blast

lemma cb_ssl_read_cases:
  assumes lib: "delivers lib m" and run: "cb_ssl_read lib n s = (r, s')"
  shows "\<exists>h. extends s h s' \<and> sent h = []
    \<and> (case r of Inr bs \<Rightarrow> length bs \<le> unat n \<and> received h = bs
                      \<and> prefix bs (drop (length (received (calls s))) m)
       | Inl e \<Rightarrow> (\<exists>rc. e = Rc rc \<and> rc \<noteq> TRILOGY_OK) \<and> received h = [])"
proof -
  obtain a s1 where s1: "call lib ERR_clear_error s = (Inr a, s1)" "extends s [(ERR_clear_error, a)] s1" by (rule call_cases)
  let ?rcall = "SSL_read (tls_ssl s1) (c_int n)"
  obtain b s2 where s2: "call lib ?rcall s1 = (Inr b, s2)" "b = fst (lib (calls s1) ?rcall (sys (tls_raw s1)))"
    "extends s1 [(?rcall, b)] s2" by (rule call_cases)
  obtain x s3 where s3: "ssl_io_return lib (ans_ret b) s2 = (x, s3)" by fastforce
  from ssl_io_return_cases [OF this] obtain h where x: "0 < ans_ret b \<longleftrightarrow> x = Inr ()"
      "x = Inr () \<and> s3 = s2 \<or> (\<exists>rc. x = Inl (Rc rc) \<and> rc \<noteq> TRILOGY_OK)"
      and h: "extends s2 h s3" "received h = []" "sent h = []" by blast
  have ext: "extends s ([(ERR_clear_error, a), (?rcall, b)] @ h) s3"
    using extends_trans [OF extends_trans [OF s1(2) s2(3)] h(1)] by simp
  have "received (calls s1) = received (calls s)" using s1(2) by (simp add: extends_def event_received_def)
  then have b: "0 < ans_ret b \<Longrightarrow> ans_ret b \<le> c_int n \<and> ans_ret b = int (length (ans_data b))
      \<and> prefix (ans_data b) (drop (length (received (calls s))) m)"
    using delivers_read [OF lib s2(2)] by metis
  have run': "(r, s') = (case x of Inl e \<Rightarrow> Inl e | Inr _ \<Rightarrow> Inr (take (nat (ans_ret b)) (ans_data b)), s3)"
    using run s1(1) s2(1) s3 by (cases x) (simp_all add: cb_ssl_read_def perform_def checked_apply)
  show ?thesis
  proof (cases x)
    case (Inl e)
    then show ?thesis using run' ext x h
      by (intro exI [of _ "[(ERR_clear_error, a), (?rcall, b)] @ h"]) (auto simp: event_received_def event_sent_def)
  next
    case (Inr y)
    then have pos: "0 < ans_ret b" using x by simp
    have "int (length (ans_data b)) \<le> int (unat n)" using b [OF pos] c_int_le [of n] by linarith
    then have "length (ans_data b) \<le> unat n" by (simp only: of_nat_le_iff)
    then show ?thesis using run' ext x h b Inr pos
      by (intro exI [of _ "[(ERR_clear_error, a), (?rcall, b)] @ h"]) (auto simp: event_received_def event_sent_def)
  qed
qed

lemma cb_ssl_write_cases:
  assumes lib: "delivers lib m" and run: "cb_ssl_write lib bs s = (r, s')"
  shows "\<exists>h. extends s h s' \<and> received h = []
    \<and> (case r of Inr n \<Rightarrow> unat n \<le> length bs \<and> sent h = take (unat n) bs
       | Inl e \<Rightarrow> (\<exists>rc. e = Rc rc \<and> rc \<noteq> TRILOGY_OK) \<and> sent h = [])"
proof -
  obtain a s1 where s1: "call lib ERR_clear_error s = (Inr a, s1)" "extends s [(ERR_clear_error, a)] s1" by (rule call_cases)
  let ?n = "c_int (word_of_nat (length bs))"
  let ?wcall = "SSL_write (tls_ssl s1) bs ?n"
  obtain b s2 where s2: "call lib ?wcall s1 = (Inr b, s2)" "b = fst (lib (calls s1) ?wcall (sys (tls_raw s1)))"
    "extends s1 [(?wcall, b)] s2" by (rule call_cases)
  obtain x s3 where s3: "ssl_io_return lib (ans_ret b) s2 = (x, s3)" by fastforce
  from ssl_io_return_cases [OF this] obtain h where x: "0 < ans_ret b \<longleftrightarrow> x = Inr ()"
      "x = Inr () \<and> s3 = s2 \<or> (\<exists>rc. x = Inl (Rc rc) \<and> rc \<noteq> TRILOGY_OK)"
      and h: "extends s2 h s3" "received h = []" "sent h = []" by blast
  have ext: "extends s ([(ERR_clear_error, a), (?wcall, b)] @ h) s3"
    using extends_trans [OF extends_trans [OF s1(2) s2(3)] h(1)] by simp
  have "?n \<le> int (unat (word_of_nat (length bs) :: size_t))" by (rule c_int_le)
  also have "\<dots> \<le> int (length bs)" by (simp add: unsigned_of_nat take_bit_nat_less_eq_self)
  finally have "?n \<le> int (length bs)" .
  then have b: "ans_ret b \<le> int (length bs)" using delivers_write [OF lib s2(2)] by (simp add: max_def split: if_splits)
  have "?n < 2 ^ 31" using sint_lt [of "ucast (word_of_nat (length bs) :: size_t) :: 32 word"] by (simp add: c_int_def)
  then have small: "ans_ret b < 2 ^ 31" using delivers_write [OF lib s2(2)] by (simp add: max_def split: if_splits)
  have run': "(r, s') = (case x of Inl e \<Rightarrow> Inl e | Inr _ \<Rightarrow> Inr (word_of_int (ans_ret b)), s3)"
    using run s1(1) s2(1) s3 by (cases x) (simp_all add: cb_ssl_write_def perform_def checked_apply)
  show ?thesis
  proof (cases x)
    case (Inl e)
    then show ?thesis using run' ext x h
      by (intro exI [of _ "[(ERR_clear_error, a), (?wcall, b)] @ h"]) (auto simp: event_received_def event_sent_def)
  next
    case (Inr y)
    then have pos: "0 < ans_ret b" using x by simp
    then have "unat (word_of_int (ans_ret b) :: size_t) = nat (ans_ret b)"
      using small by (simp add: unsigned_of_int take_bit_int_eq_self)
    then show ?thesis using run' ext x h b Inr pos
      by (intro exI [of _ "[(ERR_clear_error, a), (?wcall, b)] @ h"]) (auto simp: event_received_def event_sent_def)
  qed
qed


lemma prefix_of_drop: "prefix bs (drop n m) \<Longrightarrow> drop n m = bs @ drop (n + length bs) m"
  by (metis add.commute append_eq_conv_conj drop_drop prefix_def)

lemma tls_transport:
  assumes lib: "delivers lib m"
  shows "transport (tls_read lib) (tls_write lib) tls_wait (tls_incoming m) tls_outgoing"
proof
  fix n w bs w'
  assume run: "tls_read lib n w = (Inr bs, w')"
  show "length bs \<le> unat n \<and> tls_incoming m w = bs @ tls_incoming m w' \<and> tls_outgoing w' = tls_outgoing w"
  proof (cases "tls_handlers w")
    case Ssl_handlers
    then have "cb_ssl_read lib n w = (Inr bs, w')" using run by (simp add: tls_read_def by_handlers_def)
    from cb_ssl_read_cases [OF lib this] obtain h where "extends w h w'" "sent h = []" "length bs \<le> unat n" "received h = bs" "prefix bs (drop (length (received (calls w))) m)" by auto
    then show ?thesis using Ssl_handlers prefix_of_drop [of bs "length (received (calls w))" m]
      by (auto simp: tls_incoming_def tls_outgoing_def extends_def)
  qed (use run raw.read_law [of n "tls_raw w"] in \<open>auto simp: tls_read_def by_handlers_def tls_incoming_def tls_outgoing_def on_raw_apply
         cb_shutdown_read_def\<close>)
next
  fix n w e w'
  assume run: "tls_read lib n w = (Inl e, w')"
  show "(\<exists>rc. e = Rc rc \<and> rc \<noteq> TRILOGY_OK) \<and> tls_incoming m w' = tls_incoming m w \<and> tls_outgoing w' = tls_outgoing w"
  proof (cases "tls_handlers w")
    case Ssl_handlers
    then have "cb_ssl_read lib n w = (Inl e, w')" using run by (simp add: tls_read_def by_handlers_def)
    from cb_ssl_read_cases [OF lib this] obtain h where "extends w h w'" "sent h = []" "received h = []" "\<exists>rc. e = Rc rc \<and> rc \<noteq> TRILOGY_OK" by auto
    then show ?thesis using Ssl_handlers by (auto simp: tls_incoming_def tls_outgoing_def extends_def)
  qed (use run raw.read_fail [of n "tls_raw w"] in \<open>auto simp: tls_read_def by_handlers_def tls_incoming_def tls_outgoing_def on_raw_apply
         cb_shutdown_read_def\<close>)
next
  fix bs w n w'
  assume run: "tls_write lib bs w = (Inr n, w')"
  show "unat n \<le> length bs \<and> tls_outgoing w' = tls_outgoing w @ take (unat n) bs \<and> tls_incoming m w' = tls_incoming m w"
  proof (cases "tls_handlers w")
    case Ssl_handlers
    then have "cb_ssl_write lib bs w = (Inr n, w')" using run by (simp add: tls_write_def by_handlers_def)
    from cb_ssl_write_cases [OF lib this] obtain h where "extends w h w'" "received h = []" "unat n \<le> length bs" "sent h = take (unat n) bs" by auto
    then show ?thesis using Ssl_handlers by (auto simp: tls_incoming_def tls_outgoing_def extends_def)
  qed (use run raw.write_law [of bs "tls_raw w"] in \<open>auto simp: tls_write_def by_handlers_def tls_incoming_def tls_outgoing_def on_raw_apply
         cb_shutdown_write_def\<close>)
next
  fix bs w e w'
  assume run: "tls_write lib bs w = (Inl e, w')"
  show "(\<exists>rc. e = Rc rc \<and> rc \<noteq> TRILOGY_OK) \<and> tls_outgoing w' = tls_outgoing w \<and> tls_incoming m w' = tls_incoming m w"
  proof (cases "tls_handlers w")
    case Ssl_handlers
    then have "cb_ssl_write lib bs w = (Inl e, w')" using run by (simp add: tls_write_def by_handlers_def)
    from cb_ssl_write_cases [OF lib this] obtain h where "extends w h w'" "received h = []" "sent h = []" "\<exists>rc. e = Rc rc \<and> rc \<noteq> TRILOGY_OK" by auto
    then show ?thesis using Ssl_handlers by (auto simp: tls_incoming_def tls_outgoing_def extends_def)
  qed (use run raw.write_fail [of bs "tls_raw w"] in \<open>auto simp: tls_write_def by_handlers_def tls_incoming_def tls_outgoing_def on_raw_apply
         cb_shutdown_write_def\<close>)
next
  fix k w r w'
  assume "tls_wait k w = (r, w')"
  then show "r \<noteq> Inl Fault \<and> r \<noteq> Inl (Rc TRILOGY_OK) \<and> tls_incoming m w' = tls_incoming m w \<and> tls_outgoing w' = tls_outgoing w"
    using raw.wait_law [of k "tls_raw w"]
    by (auto simp: tls_wait_def tls_incoming_def tls_outgoing_def on_raw_apply split: handlers.splits)
qed

lemma tls_socket_callbacks [simp]:
  "read_cb (tls_socket lib opts) = tls_read lib" "write_cb (tls_socket lib opts) = tls_write lib"
  "wait_cb (tls_socket lib opts) = tls_wait" "sock_opts (tls_socket lib opts) = opts"
  by (simp_all add: tls_socket_def)

lemma tls_uses:
  assumes "delivers lib m" and "socket c = Some (tls_socket lib opts)"
  shows "transport.uses (tls_read lib) (tls_write lib) tls_wait c"
  using assms(2) by (simp add: transport.uses_def [OF tls_transport [OF assms(1)]])

end
