(* ===== verification/Tls_Setup.thy ===== *)
theory Tls_Setup
  imports Tls
begin

text \<open>
  What the set-up of \<open>Tls\<close> asks of OpenSSL, for every library and every course of the handshake: the
  calls that configure a connection are exactly those of a plan that is read off the options, all
  of them granted before the handshake, and each object that is made is freed again.
\<close>

section \<open>What is asked of OpenSSL\<close>

text \<open>
  The calls that decide how a connection is secured, and those that make and free objects. A
  configuring call is granted when its answer is not \<open>0\<close>, where it has one.
\<close>

definition configures :: "ssl_event \<Rightarrow> bool" where
  "configures e = (case fst e of
      SSL_CTX_set_min_proto_version _ _ \<Rightarrow> True | SSL_CTX_set_max_proto_version _ _ \<Rightarrow> True
    | SSL_CTX_set_cipher_list _ _ \<Rightarrow> True | SSL_CTX_set_ciphersuites _ _ \<Rightarrow> True
    | SSL_CTX_set_verify _ _ \<Rightarrow> True | SSL_CTX_load_verify_locations _ _ _ \<Rightarrow> True
    | SSL_CTX_set_default_verify_paths _ \<Rightarrow> True | SSL_CTX_use_PrivateKey_file _ _ \<Rightarrow> True
    | SSL_CTX_use_certificate_chain_file _ _ \<Rightarrow> True | SSL_CTX_check_private_key _ \<Rightarrow> True
    | X509_STORE_load_locations _ _ _ \<Rightarrow> True | X509_STORE_set_flags _ _ \<Rightarrow> True
    | SSL_set_tlsext_host_name _ _ \<Rightarrow> True | X509_VERIFY_PARAM_set_hostflags _ _ \<Rightarrow> True
    | X509_VERIFY_PARAM_set1_host _ _ \<Rightarrow> True | SSL_set_fd _ _ \<Rightarrow> True | _ \<Rightarrow> False)"

definition granted :: "ssl_event \<Rightarrow> bool" where
  "granted e = (case fst e of
      SSL_CTX_set_verify _ _ \<Rightarrow> True | X509_VERIFY_PARAM_set_hostflags _ _ \<Rightarrow> True
    | _ \<Rightarrow> configures e \<longrightarrow> ans_ret (snd e) \<noteq> 0)"

text \<open>The contexts and the connections that were made and not freed, latest first.\<close>

definition object_step :: "ssl_event \<Rightarrow> int list \<times> int list \<Rightarrow> int list \<times> int list" where
  "object_step e = (\<lambda>(ctxs, conns). case fst e of
      SSL_CTX_new \<Rightarrow> (if ans_ret (snd e) = 0 then ctxs else ans_ret (snd e) # ctxs, conns)
    | SSL_new _ \<Rightarrow> (ctxs, if ans_ret (snd e) = 0 then conns else ans_ret (snd e) # conns)
    | SSL_CTX_free p \<Rightarrow> (if p = 0 then ctxs else remove1 p ctxs, conns)
    | SSL_free p \<Rightarrow> (ctxs, if p = 0 then conns else remove1 p conns)
    | _ \<Rightarrow> (ctxs, conns))"

definition live_objects :: "ssl_event list \<Rightarrow> int list \<times> int list" where
  "live_objects h = fold object_step h ([], [])"

text \<open>\<open>configured p m cs\<close>: \<open>m\<close> makes and frees nothing, and the configuring calls of a run that succeeds are \<open>cs\<close>.\<close>

definition configured :: "int \<Rightarrow> (tls_sock, unit) op \<Rightarrow> ssl_call list \<Rightarrow> bool" where
  "configured p m cs \<longleftrightarrow> (\<forall>s r s'. tls_ssl s = p \<longrightarrow> m s = (r, s') \<longrightarrow> (r = Inr () \<or> r = Inl (Rc TRILOGY_OPENSSL_ERR)) \<and>
     (\<exists>h. extends s h s' \<and> fold object_step h = id
        \<and> (r = Inr () \<longrightarrow> map fst (filter configures h) = cs \<and> list_all granted h)))"

named_theorems configured_intros

lemma configured_ret [configured_intros]: "configured p (ret ()) []"
  by (auto simp: configured_def intro: exI [of _ "[]"])

lemma configured_fail: "configured p (throw TRILOGY_OPENSSL_ERR) cs"
  by (auto simp: configured_def intro: exI [of _ "[]"])

lemma configured_checked [configured_intros]:
  assumes m: "configured p m cs" and k: "configured p k ds"
  shows "configured p (checked m (\<lambda>_. k)) (cs @ ds)"
  unfolding configured_def
proof (intro allI impI)
  fix s r s'
  assume p: "tls_ssl s = p" and run: "checked m (\<lambda>_. k) s = (r, s')"
  obtain x t where t: "m s = (x, t)" by fastforce
  from m p t obtain h where h: "extends s h t" "fold object_step h = id" "x = Inr () \<or> x = Inl (Rc TRILOGY_OPENSSL_ERR)"
      "x = Inr () \<longrightarrow> map fst (filter configures h) = cs \<and> list_all granted h"
    unfolding configured_def by blast
  show "(r = Inr () \<or> r = Inl (Rc TRILOGY_OPENSSL_ERR)) \<and> (\<exists>h. extends s h s' \<and> fold object_step h = id
        \<and> (r = Inr () \<longrightarrow> map fst (filter configures h) = cs @ ds \<and> list_all granted h))"
  proof (cases x)
    case (Inl e)
    then show ?thesis using run t h by (auto simp: checked_apply)
  next
    case (Inr y)
    then have "k t = (r, s')" using run t by (simp add: checked_apply)
    moreover have "tls_ssl t = p" using h(1) p by (simp add: extends_def)
    ultimately obtain h' where h': "extends t h' s'" "fold object_step h' = id" "r = Inr () \<or> r = Inl (Rc TRILOGY_OPENSSL_ERR)"
        "r = Inr () \<longrightarrow> map fst (filter configures h') = ds \<and> list_all granted h'"
      using k unfolding configured_def by blast
    show ?thesis using extends_trans [OF h(1) h'(1)] h h' Inr by (intro conjI exI [of _ "h @ h'"]) auto
  qed
qed

lemma configured_perform:
  assumes "\<And>a. object_step (c, a) = id" and "\<And>a. granted (c, a)"
  shows "configured p (perform lib c) (if configures (c, a) then [c] else [])"
proof -
  have "configures (c, b) = configures (c, a)" for b by (simp add: configures_def)
  then show ?thesis using assms call_extends [of lib c]
    by (fastforce simp: configured_def perform_apply)
qed

lemma configured_demand:
  assumes "\<And>a. object_step (c, a) = id" and "\<And>a. configures (c, a)"
  shows "configured p (demand lib c) [c]"
  using assms call_extends [of lib c] by (fastforce simp: configured_def demand_apply granted_def split: ssl_call.splits)

lemma configured_get [configured_intros]:
  assumes "\<And>s. tls_ssl s = p \<Longrightarrow> configured p (k s) cs"
  shows "configured p (checked get_state k) cs"
  using assms unfolding configured_def by simp

lemma configured_when [configured_intros]:
  "configured p m cs \<Longrightarrow> configured p (when_true b m) (if b then cs else [])"
  using configured_ret by (simp add: when_true_def)

lemma configured_given [configured_intros]:
  "(\<And>y. configured p (f y) (cs y)) \<Longrightarrow> configured p (if_given x f) (case x of None \<Rightarrow> [] | Some y \<Rightarrow> cs y)"
  using configured_ret by (cases x) (simp_all add: if_given_def)

lemma configured_if [configured_intros]:
  "configured p m cs \<Longrightarrow> configured p k ds \<Longrightarrow> configured p (if b then m else k) (if b then cs else ds)"
  by simp

lemma configured_eq: "configured p m cs \<Longrightarrow> cs = ds \<Longrightarrow> configured p m ds"
  by simp

lemma demands [configured_intros]:
  "configured p (demand lib (SSL_CTX_set_cipher_list c b)) [SSL_CTX_set_cipher_list c b]"
  "configured p (demand lib (SSL_CTX_set_ciphersuites c b)) [SSL_CTX_set_ciphersuites c b]"
  "configured p (demand lib (SSL_CTX_load_verify_locations c x y)) [SSL_CTX_load_verify_locations c x y]"
  "configured p (demand lib (SSL_CTX_set_default_verify_paths c)) [SSL_CTX_set_default_verify_paths c]"
  "configured p (demand lib (SSL_CTX_use_PrivateKey_file c b)) [SSL_CTX_use_PrivateKey_file c b]"
  "configured p (demand lib (SSL_CTX_use_certificate_chain_file c b)) [SSL_CTX_use_certificate_chain_file c b]"
  "configured p (demand lib (SSL_CTX_check_private_key c)) [SSL_CTX_check_private_key c]"
  "configured p (demand lib (X509_STORE_load_locations c x y)) [X509_STORE_load_locations c x y]"
  "configured p (demand lib (X509_STORE_set_flags c n)) [X509_STORE_set_flags c n]"
  "configured p (demand lib (SSL_set_tlsext_host_name c b)) [SSL_set_tlsext_host_name c b]"
  "configured p (demand lib (X509_VERIFY_PARAM_set1_host c b)) [X509_VERIFY_PARAM_set1_host c b]"
  "configured p (demand lib (SSL_set_fd c n)) [SSL_set_fd c n]"
  "configured p (demand lib (SSL_CTX_set_min_proto_version c n)) [SSL_CTX_set_min_proto_version c n]"
  "configured p (demand lib (SSL_CTX_set_max_proto_version c n)) [SSL_CTX_set_max_proto_version c n]"
  by (rule configured_demand; simp add: object_step_def configures_def fun_eq_iff)+

lemma performs [configured_intros]:
  "configured p (perform lib (SSL_CTX_set_verify c n)) [SSL_CTX_set_verify c n]"
  "configured p (perform lib (X509_VERIFY_PARAM_set_hostflags c n)) [X509_VERIFY_PARAM_set_hostflags c n]"
  "configured p (perform lib ERR_put_error) []"
  "configured p (perform lib ERR_clear_error) []"
  by (rule configured_eq, rule configured_perform; simp add: object_step_def configures_def granted_def fun_eq_iff)+

lemma proto_demand:
  assumes "v \<noteq> TRILOGY_TLS_VERSION_UNDEF"
  shows "or_fail (trilogy_set_min_proto_version lib c v) = demand lib (SSL_CTX_set_min_proto_version c (trilogy_tls_version_map v))"
    and "or_fail (trilogy_set_max_proto_version lib c v) = demand lib (SSL_CTX_set_max_proto_version c (trilogy_tls_version_map v))"
proof -
  have "trilogy_tls_version_map v \<noteq> 0" using assms by (cases v) (simp_all add: trilogy_tls_version_map_def)
  moreover have "checked (checked m (\<lambda>a. ret (ans_ret a))) f = checked m (\<lambda>a. f (ans_ret a))"
    for m :: "(tls_sock, ssl_answer) op" and f :: "int \<Rightarrow> (tls_sock, unit) op"
    by (auto simp: checked_def fun_eq_iff split: prod.splits sum.splits)
  ultimately show "or_fail (trilogy_set_min_proto_version lib c v) = demand lib (SSL_CTX_set_min_proto_version c (trilogy_tls_version_map v))"
    and "or_fail (trilogy_set_max_proto_version lib c v) = demand lib (SSL_CTX_set_max_proto_version c (trilogy_tls_version_map v))"
    by (simp_all add: or_fail_def demand_def trilogy_set_min_proto_version_def trilogy_set_max_proto_version_def Let_def)
qed

text \<open>What the options ask for.\<close>

definition context_plan :: "int \<Rightarrow> trilogy_sockopt \<Rightarrow> ssl_call list" where
  "context_plan ctx opts =
     [SSL_CTX_set_min_proto_version ctx (trilogy_tls_version_map
        (if opt_tls_min_version opts = TRILOGY_TLS_VERSION_UNDEF then TRILOGY_TLS_VERSION_12 else opt_tls_min_version opts))]
     @ (if opt_tls_max_version opts = TRILOGY_TLS_VERSION_UNDEF then []
        else [SSL_CTX_set_max_proto_version ctx (trilogy_tls_version_map (opt_tls_max_version opts))])
     @ [SSL_CTX_set_cipher_list ctx (case opt_ssl_cipher opts of Some s \<Rightarrow> c_string s | None \<Rightarrow> default_ciphers)]
     @ (case opt_tls_ciphersuites opts of None \<Rightarrow> [] | Some s \<Rightarrow> [SSL_CTX_set_ciphersuites ctx (c_string s)])
     @ (case verify_mode (opt_ssl_mode opts) of None \<Rightarrow> [] | Some m \<Rightarrow> [SSL_CTX_set_verify ctx m])
     @ [if opt_ssl_ca opts = None \<and> opt_ssl_capath opts = None then SSL_CTX_set_default_verify_paths ctx
        else SSL_CTX_load_verify_locations ctx (map_option c_string (opt_ssl_ca opts)) (map_option c_string (opt_ssl_capath opts))]
     @ (case opt_ssl_key opts of None \<Rightarrow> [] | Some s \<Rightarrow> [SSL_CTX_use_PrivateKey_file ctx (c_string s)])
     @ (case opt_ssl_cert opts of None \<Rightarrow> [] | Some s \<Rightarrow> [SSL_CTX_use_certificate_chain_file ctx (c_string s)])
     @ (if opt_ssl_cert opts = None \<and> opt_ssl_key opts = None then [] else [SSL_CTX_check_private_key ctx])
     @ (if opt_ssl_crl opts = None \<and> opt_ssl_crlpath opts = None then []
        else [X509_STORE_load_locations ctx (map_option c_string (opt_ssl_crl opts)) (map_option c_string (opt_ssl_crlpath opts)),
              X509_STORE_set_flags ctx (X509_V_FLAG_CRL_CHECK OR X509_V_FLAG_CRL_CHECK_ALL)])"

definition connection_plan :: "int \<Rightarrow> trilogy_sockopt \<Rightarrow> ssl_call list" where
  "connection_plan p opts =
     (case opt_hostname opts of None \<Rightarrow> [] | Some host \<Rightarrow> [SSL_set_tlsext_host_name p (c_string host)])
     @ (if opt_ssl_mode opts \<noteq> TRILOGY_SSL_VERIFY_IDENTITY then []
        else [X509_VERIFY_PARAM_set_hostflags p X509_CHECK_FLAG_NO_PARTIAL_WILDCARDS]
             @ (case opt_hostname opts of None \<Rightarrow> [] | Some host \<Rightarrow> [X509_VERIFY_PARAM_set1_host p (c_string host)]))"

lemma settings_configured: "configured p (ssl_ctx_settings lib ctx opts) (context_plan ctx opts)"
proof -
  have "configured p (ssl_ctx_versions lib ctx opts)
     ([SSL_CTX_set_min_proto_version ctx (trilogy_tls_version_map
        (if opt_tls_min_version opts = TRILOGY_TLS_VERSION_UNDEF then TRILOGY_TLS_VERSION_12 else opt_tls_min_version opts))]
     @ (if opt_tls_max_version opts = TRILOGY_TLS_VERSION_UNDEF then []
        else [SSL_CTX_set_max_proto_version ctx (trilogy_tls_version_map (opt_tls_max_version opts))]))"
    unfolding ssl_ctx_versions_def
    by (rule configured_checked) (simp_all add: when_true_def proto_demand demands configured_ret)
  moreover have "configured p (ssl_ctx_ciphers lib ctx opts)
     ([SSL_CTX_set_cipher_list ctx (case opt_ssl_cipher opts of Some s \<Rightarrow> c_string s | None \<Rightarrow> default_ciphers)]
     @ (case opt_tls_ciphersuites opts of None \<Rightarrow> [] | Some s \<Rightarrow> [SSL_CTX_set_ciphersuites ctx (c_string s)]))"
    unfolding ssl_ctx_ciphers_def by (intro configured_intros)
  moreover have "configured p (ssl_ctx_verify lib ctx opts)
     ((case verify_mode (opt_ssl_mode opts) of None \<Rightarrow> [] | Some m \<Rightarrow> [SSL_CTX_set_verify ctx m])
     @ (if opt_ssl_ca opts \<noteq> None \<or> opt_ssl_capath opts \<noteq> None
        then [SSL_CTX_load_verify_locations ctx (map_option c_string (opt_ssl_ca opts)) (map_option c_string (opt_ssl_capath opts))]
        else [SSL_CTX_set_default_verify_paths ctx]))"
    unfolding ssl_ctx_verify_def by (intro configured_intros)
  moreover have "configured p (ssl_ctx_certificate lib ctx opts)
     (if opt_ssl_cert opts \<noteq> None \<or> opt_ssl_key opts \<noteq> None then
       (case opt_ssl_key opts of None \<Rightarrow> [] | Some s \<Rightarrow> [SSL_CTX_use_PrivateKey_file ctx (c_string s)])
       @ (case opt_ssl_cert opts of None \<Rightarrow> [] | Some s \<Rightarrow> [SSL_CTX_use_certificate_chain_file ctx (c_string s)])
       @ [SSL_CTX_check_private_key ctx] else [])"
    unfolding ssl_ctx_certificate_def by (intro configured_intros)
  moreover have "configured p (ssl_ctx_revocation lib ctx opts)
     (if opt_ssl_crl opts \<noteq> None \<or> opt_ssl_crlpath opts \<noteq> None then
        [X509_STORE_load_locations ctx (map_option c_string (opt_ssl_crl opts)) (map_option c_string (opt_ssl_crlpath opts))]
        @ [X509_STORE_set_flags ctx (X509_V_FLAG_CRL_CHECK OR X509_V_FLAG_CRL_CHECK_ALL)] else [])"
    unfolding ssl_ctx_revocation_def by (intro configured_intros)
  ultimately show ?thesis
    unfolding ssl_ctx_settings_def
    by (rule configured_eq [OF configured_checked [OF _ configured_checked [OF _ configured_checked [OF _ configured_checked]]]])
       (auto simp: context_plan_def)
qed

lemma identity_configured: "configured p (ssl_identity lib opts) (connection_plan p opts)"
  unfolding ssl_identity_def
proof (rule configured_get)
  fix s assume [simp]: "tls_ssl s = p"
  have "configured p (checked (perform lib ERR_put_error) (\<lambda>_. throw TRILOGY_OPENSSL_ERR)) ([] @ [])"
    by (intro configured_checked performs configured_fail)
  note inner = configured_checked [OF configured_when [OF this] configured_checked [OF
    configured_given [OF demands(10)] configured_when [OF configured_checked [OF performs(2) configured_given [OF demands(11)]]]]]
  show "configured p (checked (when_true (opt_ssl_mode opts = TRILOGY_SSL_VERIFY_IDENTITY \<and> opt_hostname opts = None)
       (checked (perform lib ERR_put_error) (\<lambda>_. throw TRILOGY_OPENSSL_ERR))) (\<lambda>_.
     checked (if_given (opt_hostname opts) (\<lambda>host.
       demand lib (SSL_set_tlsext_host_name (tls_ssl s) (c_string host)))) (\<lambda>_.
     when_true (opt_ssl_mode opts = TRILOGY_SSL_VERIFY_IDENTITY)
       (checked (perform lib (X509_VERIFY_PARAM_set_hostflags (tls_ssl s) X509_CHECK_FLAG_NO_PARTIAL_WILDCARDS)) (\<lambda>_.
        if_given (opt_hostname opts) (\<lambda>host.
          demand lib (X509_VERIFY_PARAM_set1_host (tls_ssl s) (c_string host)))))))) (connection_plan p opts)"
    by (rule configured_eq [OF inner]) (auto simp: connection_plan_def split: option.splits)
qed

lemma identity_named:
  assumes run: "ssl_identity lib opts s = (Inr (), s')" and "opt_ssl_mode opts = TRILOGY_SSL_VERIFY_IDENTITY"
  shows "opt_hostname opts \<noteq> None"
proof
  assume "opt_hostname opts = None"
  then show False using run assms(2)
    by (auto simp: ssl_identity_def when_true_def checked_apply perform_def call_def split: prod.splits)
qed

section \<open>The handshake and the upgrade\<close>

lemma tls_wait_cases:
  assumes "tls_wait w s = (r, s')"
  shows "extends s [] s' \<and> (r = Inr () \<or> r = Inl Hang \<or> r = Inl (Rc TRILOGY_SYSERR))"
  using assms poll_loop_cases [of "sys (tls_raw s)"]
  by (fastforce simp: tls_wait_def on_raw_apply handler_def cb_wait_def cb_shutdown_wait_def extends_def
      split: if_splits prod.splits)

lemma call_step: "call lib c s = (Inr a, t) \<Longrightarrow> checked (call lib c) k s = k a t"
  by (simp add: checked_apply)

lemma perform_step: "call lib c s = (Inr a, t) \<Longrightarrow> checked (perform lib c) k s = k () t"
  by (simp add: perform_def checked_apply)

text \<open>A run that ends in a last call of \<^verbatim>\<open>SSL_connect\<close> that was answered \<open>1\<close>.\<close>

definition connects :: "int \<Rightarrow> ssl_event list \<Rightarrow> bool" where
  "connects p h \<longleftrightarrow> (\<exists>h' a. h = h' @ [(SSL_connect p, a)] \<and> ans_ret a = 1)"

definition silent :: "ssl_event list \<Rightarrow> bool" where
  "silent h \<longleftrightarrow> fold object_step h = id \<and> filter configures h = [] \<and> list_all granted h"

lemma silent_append: "silent h \<Longrightarrow> silent h' \<Longrightarrow> silent (h @ h')"
  by (simp add: silent_def)

lemma connects_append: "connects p h' \<Longrightarrow> connects p (h @ h')"
  by (auto simp: connects_def)

lemma connect_round_cases:
  assumes run: "ssl_connect_round lib s = (r, s')"
  shows "(\<exists>h. extends s h s' \<and> silent h \<and> (r = Inr True \<longrightarrow> connects (tls_ssl s) h))
    \<and> (r = Inr True \<or> r = Inr False \<or> r = Inl Hang \<or> (\<exists>rc. r = Inl (Rc rc) \<and> rc \<noteq> TRILOGY_OK))"
proof -
  obtain a s1 where s1: "call lib ERR_clear_error s = (Inr a, s1)" "extends s [(ERR_clear_error, a)] s1" by (rule call_cases)
  let ?connect = "SSL_connect (tls_ssl s1)"
  obtain b s2 where s2: "call lib ?connect s1 = (Inr b, s2)" "extends s1 [(?connect, b)] s2" by (rule call_cases)
  have p: "tls_ssl s1 = tls_ssl s" using s1(2) by (simp add: extends_def)
  have e2: "extends s [(ERR_clear_error, a), (?connect, b)] s2" using extends_trans [OF s1(2) s2(2)] by simp
  show ?thesis
  proof (cases "ans_ret b = 1")
    case True
    then have "r = Inr True" "s' = s2" using run s1(1) s2(1)
      by (simp_all add: ssl_connect_round_def perform_def checked_apply)
    then show ?thesis using e2 True p
      by (intro conjI exI [of _ "[(ERR_clear_error, a), (?connect, b)]"])
         (auto simp: silent_def connects_def object_step_def configures_def granted_def fun_eq_iff)
  next
    case False
    let ?error = "SSL_get_error (tls_ssl s1) (ans_ret b)"
    obtain e s3 where s3: "call lib ?error s2 = (Inr e, s3)" "extends s2 [(?error, e)] s3" by (rule call_cases)
    let ?h = "[(ERR_clear_error, a), (?connect, b), (?error, e)]"
    have e3: "extends s ?h s3" using extends_trans [OF e2 s3(2)] by simp
    have h: "silent ?h"
      by (simp add: silent_def object_step_def configures_def granted_def fun_eq_iff)
    have run3: "(r, s') =
        (if ans_ret e = SSL_ERROR_WANT_READ then checked (tls_wait TRILOGY_WAIT_READ) (\<lambda>_. ret False) s3
         else if ans_ret e = SSL_ERROR_WANT_WRITE then checked (tls_wait TRILOGY_WAIT_WRITE) (\<lambda>_. ret False) s3
         else (Inl (Rc TRILOGY_OPENSSL_ERR), s3))"
      using run False
      by (auto simp: ssl_connect_round_def perform_step [OF s1(1)] call_step [OF s2(1)] call_step [OF s3(1)]
          split: if_splits)
    have waits: "r \<noteq> Inr True \<and> extends s ?h s' \<and> (r = Inr False \<or> r = Inl Hang \<or> r = Inl (Rc TRILOGY_SYSERR))"
      if "checked (tls_wait w) (\<lambda>_. ret False) s3 = (r, s')" for w
    proof -
      obtain x s4 where s4: "tls_wait w s3 = (x, s4)" by fastforce
      note w = tls_wait_cases [OF s4]
      then have "extends s (?h @ []) s4" using extends_trans [OF e3] by blast
      then show ?thesis using that s4 w by (auto simp: checked_apply split: sum.splits)
    qed
    have "r \<noteq> Inr True \<and> extends s ?h s' \<and> (r = Inr False \<or> r = Inl Hang \<or> (\<exists>rc. r = Inl (Rc rc) \<and> rc \<noteq> TRILOGY_OK))"
      using run3 waits e3 by (auto split: if_splits)
    then show ?thesis using h by blast
  qed
qed

lemma connect_loop_cases:
  assumes "ssl_connect_loop lib s = Some x"
  shows "(\<exists>h. extends s h (snd x) \<and> silent h \<and> (fst x = Inr () \<longrightarrow> connects (tls_ssl s) h))
     \<and> (fst x = Inr () \<or> fst x = Inl Hang \<or> (\<exists>rc. fst x = Inl (Rc rc) \<and> rc \<noteq> TRILOGY_OK))"
  using assms
proof (induct lib s x rule: ssl_connect_loop.raw_induct [rotated, consumes 1, case_names step])
  case (step loop lib s x)
  obtain r t where t: "ssl_connect_round lib s = (r, t)" by fastforce
  from connect_round_cases [OF t] obtain h where h: "extends s h t" "silent h" "r = Inr True \<longrightarrow> connects (tls_ssl s) h"
      and r: "r = Inr True \<or> r = Inr False \<or> r = Inl Hang \<or> (\<exists>rc. r = Inl (Rc rc) \<and> rc \<noteq> TRILOGY_OK)" by blast
  show ?case
  proof (cases "r = Inr False")
    case True
    then have "loop lib t = Some x" using step(2) t by simp
    from step(1) [OF this] obtain h' where h': "extends t h' (snd x)" "silent h'" "fst x = Inr () \<longrightarrow> connects (tls_ssl t) h'"
      and x: "fst x = Inr () \<or> fst x = Inl Hang \<or> (\<exists>rc. fst x = Inl (Rc rc) \<and> rc \<noteq> TRILOGY_OK)" by blast
    have "tls_ssl t = tls_ssl s" using h(1) by (simp add: extends_def)
    then show ?thesis using extends_trans [OF h(1) h'(1)] silent_append [OF h(2) h'(2)] h'(3) x connects_append by metis
  next
    case False
    then have "x = (case r of Inl e \<Rightarrow> Inl e | Inr _ \<Rightarrow> Inr (), t)" using step(2) t r by auto
    then show ?thesis using h r False by (cases r) auto
  qed
qed

lemma handshake_cases:
  assumes "ssl_handshake lib s = (r, s')"
  shows "(\<exists>h. extends s h s' \<and> silent h \<and> (r = Inr () \<longrightarrow> connects (tls_ssl s) h))
    \<and> (r = Inr () \<or> r = Inl Hang \<or> (\<exists>rc. r = Inl (Rc rc) \<and> rc \<noteq> TRILOGY_OK))"
proof (cases "ssl_connect_loop lib s")
  case None
  then show ?thesis using assms by (auto simp: ssl_handshake_def silent_def intro: exI [of _ "[]"])
next
  case (Some x)
  then show ?thesis using assms connect_loop_cases [OF Some] by (simp add: ssl_handshake_def)
qed

lemma ssl_ctx_cases:
  assumes run: "trilogy_ssl_ctx lib opts s = (r, s')"
  obtains (made) ctx h a h' where "r = Inr ctx" "ctx \<noteq> 0" "extends s h s'" "h = (SSL_CTX_new, a) # h'" "ans_ret a = ctx"
      "fold object_step h' = id" "map fst (filter configures h) = context_plan ctx opts" "list_all granted h"
  | (none) h where "r = Inr 0" "extends s h s'" "fold object_step h = id"
proof -
  obtain a s1 where s1: "call lib SSL_CTX_new s = (Inr a, s1)" "extends s [(SSL_CTX_new, a)] s1" by (rule call_cases)
  let ?ctx = "ans_ret a"
  obtain x s2 where s2: "ssl_ctx_settings lib ?ctx opts s1 = (x, s2)" by fastforce
  from settings_configured [of "tls_ssl s1" lib ?ctx opts] s2 obtain h where h: "extends s1 h s2" "fold object_step h = id"
      "x = Inr () \<longrightarrow> map fst (filter configures h) = context_plan ?ctx opts \<and> list_all granted h"
      and x: "x = Inr () \<or> x = Inl (Rc TRILOGY_OPENSSL_ERR)"
    unfolding configured_def by blast
  have e2: "extends s ((SSL_CTX_new, a) # h) s2" using extends_trans [OF s1(2) h(1)] by simp
  have new: "configures (SSL_CTX_new, a) = False" "granted (SSL_CTX_new, a)" by (simp_all add: configures_def granted_def)
  obtain b s3 where s3: "call lib (SSL_CTX_free ?ctx) s2 = (Inr b, s3)" "extends s2 [(SSL_CTX_free ?ctx, b)] s3"
    by (rule call_cases)
  have e3: "extends s ((SSL_CTX_new, a) # h @ [(SSL_CTX_free ?ctx, b)]) s3" using extends_trans [OF e2 s3(2)] by simp
  have free: "object_step (SSL_CTX_free ?ctx, b) \<circ> object_step (SSL_CTX_new, a) = id"
    by (auto simp: object_step_def fun_eq_iff)
  show ?thesis
  proof (cases "x = Inr ()")
    case True
    then have "r = Inr ?ctx" "s' = s2" using run s1(1) s2 by (simp_all add: trilogy_ssl_ctx_def checked_apply or_else_def Let_def)
    show ?thesis
    proof (cases "?ctx = 0")
      case False
      show ?thesis by (rule made [OF \<open>r = Inr ?ctx\<close> False _ refl refl h(2)]) (use e2 h(3) new True \<open>s' = s2\<close> in auto)
    next
      case True
      then have "object_step (SSL_CTX_new, a) = id" by (auto simp: object_step_def fun_eq_iff)
      then show ?thesis using none [OF _ e2 [folded \<open>s' = s2\<close>]] \<open>r = Inr ?ctx\<close> True h(2) by simp
    qed
  next
    case False
    then have "r = Inr 0" "s' = s3" using run s1(1) s2 s3(1) x
      by (simp_all add: trilogy_ssl_ctx_def checked_apply or_else_def Let_def perform_def)
    then show ?thesis using none [OF _ e3 [folded \<open>s' = s3\<close>]] h(2) free by simp
  qed
qed

lemma configured_run:
  assumes "configured p m cs" and "m s = (r, s')" and "tls_ssl s = p"
  obtains h where "extends s h s'" "fold object_step h = id"
    "r = Inr () \<longrightarrow> map fst (filter configures h) = cs \<and> list_all granted h" "r = Inr () \<or> r = Inl (Rc TRILOGY_OPENSSL_ERR)"
  using assms unfolding configured_def by blast

lemma when_true_simps [simp]: "when_true True m = m" "when_true False m = ret ()"
  by (simp_all add: when_true_def)

lemma or_else_Rc: "m s = (Inl (Rc rc), t) \<Longrightarrow> or_else m f s = f t"
  by (simp add: or_else_def)

lemma or_else_Inr: "m s = (Inr x, t) \<Longrightarrow> or_else m f s = (Inr x, t)"
  by (simp add: or_else_def)

lemma or_else_Hang: "m s = (Inl Hang, t) \<Longrightarrow> or_else m f s = (Inl Hang, t)"
  by (simp add: or_else_def)

text \<open>The part of the upgrade after the connection was made.\<close>

definition upgrade_steps :: "openssl \<Rightarrow> trilogy_sockopt \<Rightarrow> (tls_sock, unit) op" where
  "upgrade_steps lib opts =
     checked (ssl_identity lib opts) (\<lambda>_.
     checked get_state (\<lambda>s.
     checked (demand lib (SSL_set_fd (tls_ssl s) (sock_fd (tls_raw s)))) (\<lambda>_.
     checked (ssl_handshake lib) (\<lambda>_.
     put_state (\<lambda>s. s\<lparr>tls_handlers := Ssl_handlers\<rparr>)))))"

lemma upgrade_steps_cases:
  assumes run: "upgrade_steps lib opts s = (r, s')"
  obtains (upgraded) h where "r = Inr ()" "extends s h (s'\<lparr>tls_handlers := tls_handlers s\<rparr>)" "tls_handlers s' = Ssl_handlers"
      "fold object_step h = id" "connects (tls_ssl s) h" "list_all granted h"
      "map fst (filter configures h) = connection_plan (tls_ssl s) opts @ [SSL_set_fd (tls_ssl s) (sock_fd (tls_raw s))]"
      "opt_ssl_mode opts = TRILOGY_SSL_VERIFY_IDENTITY \<longrightarrow> opt_hostname opts \<noteq> None"
  | (failed) h rc where "r = Inl (Rc rc)" "extends s h s'" "fold object_step h = id"
  | (hangs) "r = Inl Hang"
proof -
  let ?p = "tls_ssl s"
  obtain x s1 where s1: "ssl_identity lib opts s = (x, s1)" by fastforce
  from configured_run [OF identity_configured s1 refl] obtain h1 where h1: "extends s h1 s1" "fold object_step h1 = id"
      "x = Inr () \<longrightarrow> map fst (filter configures h1) = connection_plan ?p opts \<and> list_all granted h1"
      and x: "x = Inr () \<or> x = Inl (Rc TRILOGY_OPENSSL_ERR)" .
  show ?thesis
  proof (cases "x = Inr ()")
    case False
    then have "ssl_identity lib opts s = (Inl (Rc TRILOGY_OPENSSL_ERR), s1)" using s1 x by simp
    then have "r = Inl (Rc TRILOGY_OPENSSL_ERR)" "s' = s1"
      using run by (simp_all add: upgrade_steps_def checked_Inl [of "ssl_identity lib opts" s "Rc TRILOGY_OPENSSL_ERR" s1])
    then show ?thesis using failed h1 by blast
  next
    case True
    have s1_frame: "tls_ssl s1 = ?p" "sock_fd (tls_raw s1) = sock_fd (tls_raw s)" using h1(1) by (simp_all add: extends_def)
    let ?set = "SSL_set_fd ?p (sock_fd (tls_raw s))"
    have run1: "checked (demand lib ?set) (\<lambda>_. checked (ssl_handshake lib) (\<lambda>_.
        put_state (\<lambda>s. s\<lparr>tls_handlers := Ssl_handlers\<rparr>))) s1 = (r, s')"
      using run s1_frame by (simp add: upgrade_steps_def checked_Inr [of "ssl_identity lib opts" s, OF s1 [unfolded True]])
    obtain y s2 where s2: "demand lib ?set s1 = (y, s2)" by fastforce
    from configured_run [OF demands(12) s2 s1_frame(1)] obtain h2 where h2: "extends s1 h2 s2"
        "fold object_step h2 = id" "y = Inr () \<longrightarrow> map fst (filter configures h2) = [?set] \<and> list_all granted h2"
        and y: "y = Inr () \<or> y = Inl (Rc TRILOGY_OPENSSL_ERR)" .
    have e2: "extends s (h1 @ h2) s2" by (rule extends_trans [OF h1(1) h2(1)])
    show ?thesis
    proof (cases "y = Inr ()")
      case False
      then have "demand lib ?set s1 = (Inl (Rc TRILOGY_OPENSSL_ERR), s2)" using s2 y by simp
      then have "r = Inl (Rc TRILOGY_OPENSSL_ERR)" "s' = s2" using run1
        by (simp_all add: checked_Inl [of "demand lib ?set" s1 "Rc TRILOGY_OPENSSL_ERR" s2])
      then show ?thesis using failed e2 h1(2) h2(2) by simp
    next
      case y_ok: True
      obtain z s3 where s3: "ssl_handshake lib s2 = (z, s3)" by fastforce
      from handshake_cases [OF this] obtain h3 where h3: "extends s2 h3 s3" "silent h3" "z = Inr () \<longrightarrow> connects (tls_ssl s2) h3"
          and z: "z = Inr () \<or> z = Inl Hang \<or> (\<exists>rc. z = Inl (Rc rc) \<and> rc \<noteq> TRILOGY_OK)" by blast
      have e3: "extends s (h1 @ h2 @ h3) s3" using extends_trans [OF e2 h3(1)] by simp
      have objects: "fold object_step (h1 @ h2 @ h3) = id" using h1 h2 h3 by (simp add: silent_def)
      have run': "(r, s') = (case z of Inl e \<Rightarrow> (Inl e, s3) | Inr _ \<Rightarrow> (Inr (), s3\<lparr>tls_handlers := Ssl_handlers\<rparr>))"
        using run1 s3 by (cases z) (auto simp: checked_Inr [of "demand lib ?set" s1, OF s2 [unfolded y_ok]]
          checked_Inr [of "ssl_handshake lib" s2 "()" s3] checked_Inl [of "ssl_handshake lib" s2 _ s3])
      show ?thesis
      proof (cases "z = Inr ()")
        case z_ok: True
        have s': "r = Inr ()" "s' = s3\<lparr>tls_handlers := Ssl_handlers\<rparr>" using run' z_ok by simp_all
        show ?thesis
        proof (rule upgraded [OF s'(1) _ _ objects])
          show "extends s (h1 @ h2 @ h3) (s'\<lparr>tls_handlers := tls_handlers s\<rparr>)" using e3 s'(2) by (simp add: extends_def)
          show "tls_handlers s' = Ssl_handlers" using s'(2) by simp
          show "connects ?p (h1 @ h2 @ h3)" using h3(3) z_ok e2 connects_append by (auto simp: extends_def)
          show "list_all granted (h1 @ h2 @ h3)" using h1 h2 h3 True y_ok by (simp add: silent_def)
          show "map fst (filter configures (h1 @ h2 @ h3)) = connection_plan ?p opts @ [?set]"
            using h1 h2 h3 True y_ok by (simp add: silent_def)
          show "opt_ssl_mode opts = TRILOGY_SSL_VERIFY_IDENTITY \<longrightarrow> opt_hostname opts \<noteq> None"
            using identity_named s1 True by blast
        qed
      next
        case False
        then have "s' = s3" "r = Inl Hang \<or> (\<exists>rc. r = Inl (Rc rc))" using run' z by auto
        then show ?thesis using hangs failed e3 objects by blast
      qed
    qed
  qed
qed

lemma upgrade_cases:
  assumes run: "trilogy_sock_upgrade_ssl lib opts s = (r, s')" and null: "tls_ssl s = 0"
  obtains (upgraded) h1 ctx a h2 where "r = Inr ()" "calls s' = calls s @ h1 @ (SSL_new ctx, a) # h2" "tls_ssl s' = ans_ret a"
      "tls_handlers s' = Ssl_handlers"
      "sock_fd (tls_raw s') = sock_fd (tls_raw s)"
      "map fst (filter configures h1) = context_plan ctx opts"
      "map fst (filter configures h2) = connection_plan (tls_ssl s') opts @ [SSL_set_fd (tls_ssl s') (sock_fd (tls_raw s))]"
      "list_all granted (h1 @ h2)" "connects (tls_ssl s') h2"
      "opt_ssl_mode opts = TRILOGY_SSL_VERIFY_IDENTITY \<longrightarrow> opt_hostname opts \<noteq> None"
      "\<And>cs ss. fold object_step (h1 @ (SSL_new ctx, a) # h2) (cs, ss) = (cs, if tls_ssl s' = 0 then ss else tls_ssl s' # ss)"
  | (failed) h where "r = Inl (Rc TRILOGY_OPENSSL_ERR)" "calls s' = calls s @ h" "tls_ssl s' = 0"
      "tls_handlers s' = tls_handlers s" "fold object_step h = id"
  | (hangs) "r = Inl Hang"
proof -
  obtain e s1 where s1: "call lib ERR_clear_error s = (Inr e, s1)" "extends s [(ERR_clear_error, e)] s1" by (rule call_cases)
  have clear: "object_step (ERR_clear_error, b) = id" "\<not> configures (ERR_clear_error, b)" "granted (ERR_clear_error, b)" for b
    by (auto simp: object_step_def configures_def granted_def fun_eq_iff)
  obtain x s2 where s2: "trilogy_ssl_ctx lib opts s1 = (x, s2)" by fastforce
  from s2 show ?thesis
  proof (cases rule: ssl_ctx_cases)
    case (none h)
    then have "r = Inl (Rc TRILOGY_OPENSSL_ERR)" "s' = s2"
      using run by (simp_all add: trilogy_sock_upgrade_ssl_def perform_step [OF s1(1)]
        checked_Inr [of "trilogy_ssl_ctx lib opts" s1, OF s2 [unfolded none(1)]])
    then show ?thesis using failed [of "(ERR_clear_error, e) # h"] extends_trans [OF s1(2) none(2)] none null clear
      by (simp add: extends_def)
  next
    case (made ctx h c h')
    have e2: "extends s ((ERR_clear_error, e) # h) s2" using extends_trans [OF s1(2) made(3)] by simp
    obtain a s3 where s3: "call lib (SSL_new ctx) s2 = (Inr a, s3)" "extends s2 [(SSL_new ctx, a)] s3" by (rule call_cases)
    let ?p = "ans_ret a"
    let ?s3 = "s3\<lparr>tls_ssl := ?p\<rparr>"
    obtain b s4 where s4: "call lib (SSL_CTX_free ctx) ?s3 = (Inr b, s4)" "extends ?s3 [(SSL_CTX_free ctx, b)] s4"
      by (rule call_cases)
    obtain y s5 where s5: "upgrade_steps lib opts s4 = (y, s5)" by fastforce
    have run5: "(r, s') = or_else (upgrade_steps lib opts)
         (checked get_state (\<lambda>s.
          checked (perform lib (SSL_free (tls_ssl s))) (\<lambda>_.
          checked (put_state (\<lambda>s. s\<lparr>tls_ssl := 0\<rparr>)) (\<lambda>_.
          throw TRILOGY_OPENSSL_ERR)))) s4"
      using run made(2) by (simp add: trilogy_sock_upgrade_ssl_def upgrade_steps_def perform_step [OF s1(1)]
        checked_Inr [of "trilogy_ssl_ctx lib opts" s1, OF s2 [unfolded made(1)]] call_step [OF s3(1)] perform_step [OF s4(1)])
    have s4_frame: "calls s4 = calls s @ (ERR_clear_error, e) # h @ [(SSL_new ctx, a), (SSL_CTX_free ctx, b)]"
        "tls_ssl s4 = ?p" "tls_handlers s4 = tls_handlers s" "sock_fd (tls_raw s4) = sock_fd (tls_raw s)"
      using e2 s3(2) s4(2) by (simp_all add: extends_def)
    have ctx_step: "object_step (SSL_CTX_free ctx, b) (object_step (SSL_new ctx, a) (object_step (SSL_CTX_new, c) (cs, ss)))
        = object_step (SSL_new ctx, a) (cs, ss)" for cs ss
      using made(2,5) by (simp add: object_step_def)
    have fold_h: "fold object_step h = object_step (SSL_CTX_new, c)" using made(4,6) by simp
    from s5 show ?thesis
    proof (cases rule: upgrade_steps_cases)
      case (upgraded h5)
      have s': "r = Inr ()" "s' = s5" using run5 s5 upgraded(1) by (simp_all add: or_else_Inr)
      have p: "tls_ssl s' = ?p" using upgraded(2) s4_frame s' by (simp add: extends_def)
      show ?thesis
      proof (rule that(1) [of "(ERR_clear_error, e) # h" ctx a "(SSL_CTX_free ctx, b) # h5", OF s'(1)])
        show "calls s' = calls s @ ((ERR_clear_error, e) # h) @ (SSL_new ctx, a) # (SSL_CTX_free ctx, b) # h5"
          using upgraded(2) s4_frame s' by (simp add: extends_def)
      qed (use upgraded s4_frame s' p made clear ctx_step fold_h connects_append [of ?p h5 "[(SSL_CTX_free ctx, b)]"]
            in \<open>simp_all add: extends_def configures_def granted_def object_step_def\<close>)
    next
      case (failed h5 rc)
      obtain f s6 where s6: "call lib (SSL_free (tls_ssl s5)) s5 = (Inr f, s6)" "extends s5 [(SSL_free (tls_ssl s5), f)] s6"
        by (rule call_cases)
      have s': "r = Inl (Rc TRILOGY_OPENSSL_ERR)" "s' = s6\<lparr>tls_ssl := 0\<rparr>"
        using run5 by (simp_all add: or_else_Rc [of "upgrade_steps lib opts" s4, OF s5 [unfolded failed(1)]] perform_step [OF s6(1)])
      have p: "tls_ssl s5 = ?p" using failed(2) s4_frame by (simp add: extends_def)
      let ?h = "((ERR_clear_error, e) # h) @ (SSL_new ctx, a) # (SSL_CTX_free ctx, b) # h5 @ [(SSL_free ?p, f)]"
      have "fold object_step ?h (cs, ss) = (cs, ss)" for cs ss
        using fold_h clear failed(3) ctx_step [of cs ss] by (auto simp: object_step_def)
      then have "fold object_step ?h = id" by (simp add: fun_eq_iff split_paired_all)
      moreover have "calls s' = calls s @ ?h" using failed(2) s6(2) s4_frame s' p by (simp add: extends_def)
      ultimately show ?thesis using that(2) [OF s'(1)] s' failed(2) s6(2) s4_frame by (simp add: extends_def)
    next
      case hangs
      then show ?thesis using run5 s5 that(3) by (simp add: or_else_Hang)
    qed
  qed
qed

text \<open>Closing releases what the upgrade has made.\<close>

lemma live_objects_append: "live_objects (h @ h') = fold object_step h' (live_objects h)"
  by (simp add: live_objects_def)

lemma ssl_close_objects:
  assumes run: "cb_ssl_close lib s = (r, s')" and live: "live_objects (calls s) = (cs, if tls_ssl s = 0 then ss else tls_ssl s # ss)"
  shows "live_objects (calls s') = (cs, ss)"
proof (cases "tls_ssl s = 0")
  case True
  then have "on_raw cb_raw_close s = (r, s')" using run by (simp add: cb_ssl_close_def)
  then have "calls s' = calls s" by (auto simp: on_raw_apply)
  then show ?thesis using live True by simp
next
  case False
  let ?p = "tls_ssl s"
  obtain a s1 where s1: "call lib (SSL_in_init ?p) s = (Inr a, s1)" "extends s [(SSL_in_init ?p, a)] s1" by (rule call_cases)
  obtain b s2 where s2: "call lib (SSL_shutdown ?p) s1 = (Inr b, s2)" "extends s1 [(SSL_shutdown ?p, b)] s2" by (rule call_cases)
  obtain c s3 where s3: "call lib ERR_clear_error s2 = (Inr c, s3)" "extends s2 [(ERR_clear_error, c)] s3" by (rule call_cases)
  define t where "t = (if ans_ret a = 0 then s3 else s1)"
  have t: "live_objects (calls t) = live_objects (calls s)"
    using s1(2) s2(2) s3(2) by (auto simp: t_def extends_def live_objects_append object_step_def split: prod.splits)
  obtain d s4 where s4: "call lib (SSL_free ?p) t = (Inr d, s4)" "extends t [(SSL_free ?p, d)] s4" by (rule call_cases)
  have "checked (when_true (ans_ret a = 0)
          (checked (perform lib (SSL_shutdown ?p)) (\<lambda>_. perform lib ERR_clear_error))) k s1 = k () t" for k :: "unit \<Rightarrow> (tls_sock, unit) op"
    using s2(1) s3(1) by (simp add: t_def perform_def checked_apply)
  then have "on_raw cb_raw_close (s4\<lparr>tls_ssl := 0\<rparr>) = (r, s')"
    using run False by (simp add: cb_ssl_close_def checked_assoc call_step [OF s1(1)] perform_step [OF s4(1)])
  then have "calls s' = calls t @ [(SSL_free ?p, d)]" using s4(2) by (auto simp: on_raw_apply extends_def)
  then show ?thesis using t live False by (simp add: live_objects_append object_step_def)
qed

end
