(* ===== verification/Cast.thy ===== *)
theory Cast
  imports Protocol_Types Charset
begin

text \<open>
  The Ruby values of the columns: \<^verbatim>\<open>contrib/ruby/ext/trilogy-ruby/cast.c\<close>. A value of Ruby is described
  by how it is made; \<open>Funcall\<close> is a call of a method by the interpreter, which may raise in turn. The
  index of an encoding (\<^verbatim>\<open>rb_enc_find_index\<close>) and \<^verbatim>\<open>strtod\<close> are parameters.
\<close>

section \<open>Values and failures of Ruby\<close>

datatype 'f ruby_value =
    Qnil
  | Qtrue
  | Qfalse
  | Integer_value int
  | Float_value 'f
  | String_value "u8 list" "int option"
  | Funcall string string "'f ruby_value list"

text \<open>
  An exception: raised, with the format of its message and what is formatted, or made by a method of
  its class from a message and a number; or undefined behaviour.
\<close>

datatype ruby_stop = Raised string string "u8 list" | Made string string "u8 list" int | Crashed stop

type_synonym ('s, 'a) ruby = "'s \<Rightarrow> (ruby_stop + 'a) \<times> 's"

definition ruby_ret :: "'a \<Rightarrow> ('s, 'a) ruby" where
  "ruby_ret x = (\<lambda>s. (Inr x, s))"

definition ruby_stop :: "ruby_stop \<Rightarrow> ('s, 'a) ruby" where
  "ruby_stop e = (\<lambda>s. (Inl e, s))"

definition ruby_then :: "('s, 'a) ruby \<Rightarrow> ('a \<Rightarrow> ('s, 'b) ruby) \<Rightarrow> ('s, 'b) ruby" where
  "ruby_then m k = (\<lambda>s. case m s of (r, s') \<Rightarrow> (case r of Inl e \<Rightarrow> (Inl e, s') | Inr x \<Rightarrow> k x s'))"

lemma ruby_simps [simp]:
  "ruby_then (ruby_ret x) k = k x" "ruby_then (ruby_stop e) k = ruby_stop e"
  by (simp_all add: ruby_ret_def ruby_stop_def ruby_then_def)

section \<open>Data\<close>

record rb_trilogy_cast_options =
  cast :: bool
  cast_booleans :: bool
  database_local_time :: bool
  flatten_rows :: bool
  cast_decimals_to_bigdecimals :: bool

record column_info =
  ci_type :: u8
  ci_charset :: u16
  ci_len :: u32
  ci_flags :: u16
  ci_decimals :: u8

text \<open>The names of the encodings; \<open>None\<close> is \<^verbatim>\<open>NULL\<close>.\<close>

fun ruby_encoding_name_map :: "TRILOGY_ENCODING_t \<Rightarrow> string option" where
  "ruby_encoding_name_map TRILOGY_ENCODING_ARMSCII8 = None"
| "ruby_encoding_name_map TRILOGY_ENCODING_ASCII = Some ''US-ASCII''"
| "ruby_encoding_name_map TRILOGY_ENCODING_BIG5 = Some ''Big5''"
| "ruby_encoding_name_map TRILOGY_ENCODING_BINARY = Some ''BINARY''"
| "ruby_encoding_name_map TRILOGY_ENCODING_CP1250 = Some ''Windows-1250''"
| "ruby_encoding_name_map TRILOGY_ENCODING_CP1251 = Some ''Windows-1251''"
| "ruby_encoding_name_map TRILOGY_ENCODING_CP1256 = Some ''Windows-1256''"
| "ruby_encoding_name_map TRILOGY_ENCODING_CP1257 = Some ''Windows-1257''"
| "ruby_encoding_name_map TRILOGY_ENCODING_CP850 = Some ''CP850''"
| "ruby_encoding_name_map TRILOGY_ENCODING_CP852 = Some ''CP852''"
| "ruby_encoding_name_map TRILOGY_ENCODING_CP866 = Some ''IBM866''"
| "ruby_encoding_name_map TRILOGY_ENCODING_CP932 = Some ''Windows-31J''"
| "ruby_encoding_name_map TRILOGY_ENCODING_DEC8 = None"
| "ruby_encoding_name_map TRILOGY_ENCODING_EUCJPMS = Some ''eucJP-ms''"
| "ruby_encoding_name_map TRILOGY_ENCODING_EUCKR = Some ''EUC-KR''"
| "ruby_encoding_name_map TRILOGY_ENCODING_GB2312 = Some ''GB2312''"
| "ruby_encoding_name_map TRILOGY_ENCODING_GBK = Some ''GBK''"
| "ruby_encoding_name_map TRILOGY_ENCODING_GEOSTD8 = None"
| "ruby_encoding_name_map TRILOGY_ENCODING_GREEK = Some ''ISO-8859-7''"
| "ruby_encoding_name_map TRILOGY_ENCODING_HEBREW = Some ''ISO-8859-8''"
| "ruby_encoding_name_map TRILOGY_ENCODING_HP8 = None"
| "ruby_encoding_name_map TRILOGY_ENCODING_KEYBCS2 = None"
| "ruby_encoding_name_map TRILOGY_ENCODING_KOI8R = Some ''KOI8-R''"
| "ruby_encoding_name_map TRILOGY_ENCODING_KOI8U = Some ''KOI8-U''"
| "ruby_encoding_name_map TRILOGY_ENCODING_LATIN1 = Some ''UTF-8''"
| "ruby_encoding_name_map TRILOGY_ENCODING_LATIN2 = Some ''ISO-8859-2''"
| "ruby_encoding_name_map TRILOGY_ENCODING_LATIN5 = Some ''ISO-8859-9''"
| "ruby_encoding_name_map TRILOGY_ENCODING_LATIN7 = Some ''ISO-8859-13''"
| "ruby_encoding_name_map TRILOGY_ENCODING_MACCE = Some ''macCentEuro''"
| "ruby_encoding_name_map TRILOGY_ENCODING_MACROMAN = Some ''macRoman''"
| "ruby_encoding_name_map TRILOGY_ENCODING_NONE = None"
| "ruby_encoding_name_map TRILOGY_ENCODING_SJIS = Some ''Shift_JIS''"
| "ruby_encoding_name_map TRILOGY_ENCODING_SWE7 = None"
| "ruby_encoding_name_map TRILOGY_ENCODING_TIS620 = Some ''TIS-620''"
| "ruby_encoding_name_map TRILOGY_ENCODING_UCS2 = Some ''UTF-16BE''"
| "ruby_encoding_name_map TRILOGY_ENCODING_UJIS = Some ''eucJP-ms''"
| "ruby_encoding_name_map TRILOGY_ENCODING_UTF16 = Some ''UTF-16BE''"
| "ruby_encoding_name_map TRILOGY_ENCODING_UTF32 = Some ''UTF-32''"
| "ruby_encoding_name_map TRILOGY_ENCODING_UTF8 = Some ''UTF-8''"
| "ruby_encoding_name_map TRILOGY_ENCODING_UTF8MB4 = Some ''UTF-8''"

section \<open>The encoding of a column\<close>

text \<open>The state is the static array of indices; 0 is an index that was not looked up yet.\<close>

definition TRILOGY_CHARSET_MAX :: nat where "TRILOGY_CHARSET_MAX = 256"

definition encoding_for_charset :: "(string \<Rightarrow> int) \<Rightarrow> u16 \<Rightarrow> (int list, int) ruby" where
  "encoding_for_charset rb_enc_find_index charset = (\<lambda>cache.
     if length cache \<le> unat charset then (Inl (Crashed Fault), cache)
     else if cache ! unat charset \<noteq> 0 then (Inr (cache ! unat charset), cache)
     else case trilogy_encoding_from_charset (uint charset) of
         Inl e \<Rightarrow> (Inl (Crashed e), cache)
       | Inr encoding \<Rightarrow>
           let index = (case ruby_encoding_name_map encoding of Some name \<Rightarrow> rb_enc_find_index name | None \<Rightarrow> - 1)
           in (Inr index, cache[unat charset := index]))"

section \<open>Numbers\<close>

definition CAST_STACK_SIZE :: nat where "CAST_STACK_SIZE = 64"

text \<open>The bytes of a value.\<close>

definition text_bytes :: "trilogy_value \<Rightarrow> ('s, u8 list) ruby" where
  "text_bytes v =
     (if unat (val_data_len v) \<le> length (val_data v) then ruby_ret (take (unat (val_data_len v)) (val_data v))
      else ruby_stop (Crashed Fault))"

definition raise_cast :: "string \<Rightarrow> u8 list \<Rightarrow> ('s, 'a) ruby" where
  "raise_cast errmsg bytes = ruby_stop (Raised ''CastError'' errmsg bytes)"

text \<open>The string that the copy of the value on the stack is, up to its first null.\<close>

definition cstr_from_value :: "trilogy_value \<Rightarrow> string \<Rightarrow> ('s, u8 list) ruby" where
  "cstr_from_value v errmsg =
     ruby_then (text_bytes v) (\<lambda>bytes.
     if val_data_len v > word_of_nat (CAST_STACK_SIZE - 1) then raise_cast errmsg bytes
     else ruby_ret (c_string bytes))"

text \<open>A byte is a signed \<^verbatim>\<open>char\<close>; a digit is an \<^verbatim>\<open>unsigned\<close> of 32 bits.\<close>

fun ull_loop :: "u64 \<Rightarrow> u8 list \<Rightarrow> u64" where
  "ull_loop val [] = val"
| "ull_loop val (c # digits) = ull_loop (val * 10 + ucast (scast c - 0x30 :: u32)) digits"

definition ull_from_buf :: "u8 list \<Rightarrow> u64" where
  "ull_from_buf digits = ull_loop 0 digits"

text \<open>The negation wraps, where C leaves the negation of the least \<^verbatim>\<open>long long\<close> undefined.\<close>

definition ll_from_buf :: "u8 list \<Rightarrow> u64" where
  "ll_from_buf digits =
     (case digits of
        [] \<Rightarrow> 0
      | c # rest \<Rightarrow> if c = 0x2d then - ull_from_buf rest else ull_from_buf digits)"

section \<open>The scanner of the C library\<close>

text \<open>
  What the formats of the source use of \<^verbatim>\<open>sscanf\<close>: \<^verbatim>\<open>%<w>u\<close>, \<^verbatim>\<open>%<w>s\<close>, a character, and a blank, which
  matches any white space. The result is the conversions that were made before the first failure.
\<close>

datatype scan_directive = Scan_u nat | Scan_s nat | Scan_char u8 | Scan_space

datatype scanned = Scanned_u u32 | Scanned_s "u8 list"

definition is_space :: "u8 \<Rightarrow> bool" where
  "is_space c \<longleftrightarrow> c = 0x20 \<or> 0x9 \<le> c \<and> c \<le> 0xd"

definition is_digit :: "u8 \<Rightarrow> bool" where
  "is_digit c \<longleftrightarrow> 0x30 \<le> c \<and> c \<le> 0x39"

definition digits_value :: "u8 list \<Rightarrow> nat" where
  "digits_value ds = foldl (\<lambda>v d. v * 10 + (unat d - 48)) 0 ds"

text \<open>A sign counts for the width; \<open>None\<close> if there is no digit.\<close>

definition signed_prefix :: "nat \<Rightarrow> u8 list \<Rightarrow> (int \<times> u8 list) option" where
  "signed_prefix w bs =
     (let sign = (case bs of c # _ \<Rightarrow> if 0 < w \<and> (c = 0x2d \<or> c = 0x2b) then 1 else 0 | [] \<Rightarrow> 0);
          digits = takeWhile is_digit (take (w - sign) (drop sign bs));
          n = int (digits_value digits)
      in if digits = [] then None
         else Some (if sign = 1 \<and> hd bs = 0x2d then - n else n, drop (sign + length digits) bs))"

fun sscanf :: "scan_directive list \<Rightarrow> u8 list \<Rightarrow> scanned list" where
  "sscanf [] bs = []"
| "sscanf (Scan_u w # ds) bs =
     (case signed_prefix w (dropWhile is_space bs) of
        None \<Rightarrow> []
      | Some (n, rest) \<Rightarrow> Scanned_u (word_of_int n) # sscanf ds rest)"
| "sscanf (Scan_s w # ds) bs =
     (let word = takeWhile (\<lambda>c. \<not> is_space c) (take w (dropWhile is_space bs))
      in if word = [] then [] else Scanned_s word # sscanf ds (drop (length word) (dropWhile is_space bs)))"
| "sscanf (Scan_char c # ds) bs = (case bs of b # rest \<Rightarrow> if b = c then sscanf ds rest else [] | [] \<Rightarrow> [])"
| "sscanf (Scan_space # ds) bs = sscanf ds (dropWhile is_space bs)"

definition atoi :: "u8 list \<Rightarrow> int" where
  "atoi bs = (case signed_prefix (length bs) (dropWhile is_space bs) of None \<Rightarrow> 0 | Some (n, _) \<Rightarrow> n)"

definition date_format :: "scan_directive list" where
  "date_format = [Scan_u 4, Scan_char 0x2d, Scan_u 2, Scan_char 0x2d, Scan_u 2]"

definition time_format :: "scan_directive list" where
  "time_format = [Scan_u 2, Scan_char 0x3a, Scan_u 2, Scan_char 0x3a, Scan_u 2, Scan_char 0x2e, Scan_s 6]"

section \<open>Casting\<close>

definition INT2NUM :: "u32 \<Rightarrow> 'f ruby_value" where
  "INT2NUM n = Integer_value (sint n)"

text \<open>The digits after the point, filled up with zeroes.\<close>

definition microseconds :: "scanned list \<Rightarrow> int" where
  "microseconds fraction = atoi (take 6 ((case fraction of [Scanned_s msec] \<Rightarrow> msec | _ \<Rightarrow> []) @ replicate 6 0x30))"

definition time_method :: "rb_trilogy_cast_options \<Rightarrow> string" where
  "time_method options = (if database_local_time options then ''local'' else ''utc'')"

definition cast_datetime :: "rb_trilogy_cast_options \<Rightarrow> trilogy_value \<Rightarrow> ('s, 'f ruby_value) ruby" where
  "cast_datetime options v =
     ruby_then (text_bytes v) (\<lambda>bytes.
     ruby_then (cstr_from_value v ''Invalid date: %.*s'') (\<lambda>cstr.
     case sscanf (date_format @ [Scan_space] @ time_format) cstr of
       Scanned_u year # Scanned_u month # Scanned_u day # Scanned_u hour # Scanned_u minute # Scanned_u sec # fraction \<Rightarrow>
         if year = 0 \<and> month = 0 \<and> day = 0 \<and> hour = 0 \<and> minute = 0 \<and> sec = 0 then ruby_ret Qnil
         else if sint month < 1 \<or> sint day < 1 then raise_cast ''Invalid date: %.*s'' bytes
         else ruby_ret (Funcall ''Time'' (time_method options)
                [INT2NUM year, INT2NUM month, INT2NUM day, INT2NUM hour, INT2NUM minute, INT2NUM sec,
                 Integer_value (microseconds fraction)])
     | _ \<Rightarrow> ruby_ret Qnil))"

definition cast_date :: "trilogy_value \<Rightarrow> ('s, 'f ruby_value) ruby" where
  "cast_date v =
     ruby_then (text_bytes v) (\<lambda>bytes.
     ruby_then (cstr_from_value v ''Invalid date: %.*s'') (\<lambda>cstr.
     case sscanf date_format cstr of
       [Scanned_u year, Scanned_u month, Scanned_u day] \<Rightarrow>
         if year = 0 \<and> month = 0 \<and> day = 0 then ruby_ret Qnil
         else if sint month < 1 \<or> sint day < 1 then raise_cast ''Invalid date: %.*s'' bytes
         else ruby_ret (Funcall ''Date'' ''new'' [INT2NUM year, INT2NUM month, INT2NUM day])
     | _ \<Rightarrow> ruby_ret Qnil))"

definition cast_time :: "rb_trilogy_cast_options \<Rightarrow> trilogy_value \<Rightarrow> ('s, 'f ruby_value) ruby" where
  "cast_time options v =
     ruby_then (cstr_from_value v ''Invalid time: %.*s'') (\<lambda>cstr.
     case sscanf time_format cstr of
       Scanned_u hour # Scanned_u minute # Scanned_u sec # fraction \<Rightarrow>
         ruby_ret (Funcall ''Time'' (time_method options)
           [Integer_value 2000, Integer_value 1, Integer_value 1, INT2NUM hour, INT2NUM minute, INT2NUM sec,
            Integer_value (microseconds fraction)])
     | _ \<Rightarrow> ruby_ret Qnil)"

text \<open>\<open>strtod\<close> yields the number and how many bytes it consists of.\<close>

definition cast_double :: "(u8 list \<Rightarrow> 'f \<times> nat) \<Rightarrow> trilogy_value \<Rightarrow> ('s, 'f ruby_value) ruby" where
  "cast_double strtod v =
     ruby_then (text_bytes v) (\<lambda>bytes.
     ruby_then (cstr_from_value v ''Invalid double value: %.*s'') (\<lambda>cstr.
     case strtod cstr of (dbl, n) \<Rightarrow>
       if drop n cstr \<noteq> [] then raise_cast ''Invalid double value: %.*s'' bytes
       else ruby_ret (Float_value dbl)))"

definition cast_decimal :: "column_info \<Rightarrow> rb_trilogy_cast_options \<Rightarrow> trilogy_value \<Rightarrow> ('s, 'f ruby_value) ruby" where
  "cast_decimal column options v =
     ruby_then (text_bytes v) (\<lambda>bytes.
     ruby_ret (Funcall ''Kernel''
       (if ci_decimals column = 0 \<and> \<not> cast_decimals_to_bigdecimals options then ''Integer'' else ''BigDecimal'')
       [String_value bytes None]))"

definition cast_integer :: "column_info \<Rightarrow> trilogy_value \<Rightarrow> ('s, 'f ruby_value) ruby" where
  "cast_integer column v =
     ruby_then (text_bytes v) (\<lambda>bytes.
     ruby_ret (if ucast (ci_flags column) AND column_flag TRILOGY_COLUMN_FLAG_UNSIGNED \<noteq> 0
       then Integer_value (uint (ull_from_buf bytes)) else Integer_value (sint (ll_from_buf bytes))))"

text \<open>The first byte, which is read without a look at the length.\<close>

definition first_byte :: "trilogy_value \<Rightarrow> ('s, u8) ruby" where
  "first_byte v = (case val_data v of b # _ \<Rightarrow> ruby_ret b | [] \<Rightarrow> ruby_stop (Crashed Fault))"

definition ruby_bool :: "bool \<Rightarrow> 'f ruby_value" where
  "ruby_bool b = (if b then Qtrue else Qfalse)"

definition cast_string :: "(string \<Rightarrow> int) \<Rightarrow> column_info \<Rightarrow> trilogy_value \<Rightarrow> (int list, 'f ruby_value) ruby" where
  "cast_string rb_enc_find_index column v =
     ruby_then (text_bytes v) (\<lambda>bytes.
     ruby_then (encoding_for_charset rb_enc_find_index (ci_charset column)) (\<lambda>index.
     ruby_ret (String_value bytes (if index = - 1 then None else Some index))))"

definition rb_trilogy_cast_value ::
  "(u8 list \<Rightarrow> 'f \<times> nat) \<Rightarrow> (string \<Rightarrow> int) \<Rightarrow> trilogy_value \<Rightarrow> column_info \<Rightarrow> rb_trilogy_cast_options \<Rightarrow>
   (int list, 'f ruby_value) ruby" where
  "rb_trilogy_cast_value strtod rb_enc_find_index v column options =
     (let text = cast_string rb_enc_find_index column v;
          one_bit = (cast_booleans options \<and> ci_len column = 1)
      in if val_is_null v then ruby_ret Qnil
         else if \<not> cast options then text
         else case type_of_code (ci_type column) of
             None \<Rightarrow> text
           | Some t \<Rightarrow>
               if t = TRILOGY_TYPE_BIT then
                 (if one_bit then ruby_then (first_byte v) (\<lambda>b. ruby_ret (ruby_bool (b = 1))) else text)
               else if t = TRILOGY_TYPE_TINY \<and> one_bit then
                 ruby_then (first_byte v) (\<lambda>b. ruby_ret (ruby_bool (b \<noteq> 0x30)))
               else if t \<in> set [TRILOGY_TYPE_TINY, TRILOGY_TYPE_SHORT, TRILOGY_TYPE_LONG, TRILOGY_TYPE_LONGLONG,
                   TRILOGY_TYPE_INT24, TRILOGY_TYPE_YEAR] then cast_integer column v
               else if t \<in> set [TRILOGY_TYPE_DECIMAL, TRILOGY_TYPE_NEWDECIMAL] then cast_decimal column options v
               else if t \<in> set [TRILOGY_TYPE_FLOAT, TRILOGY_TYPE_DOUBLE] then cast_double strtod v
               else if t \<in> set [TRILOGY_TYPE_TIMESTAMP, TRILOGY_TYPE_DATETIME] then cast_datetime options v
               else if t = TRILOGY_TYPE_DATE then cast_date v
               else if t = TRILOGY_TYPE_TIME then cast_time options v
               else text)"

section \<open>What a server writes\<close>

definition digit :: "nat \<Rightarrow> u8" where
  "digit n = word_of_nat (48 + n mod 10)"

text \<open>A number in decimal, and a number with a fixed number of digits.\<close>

fun decimal :: "nat \<Rightarrow> u8 list" where
  "decimal n = (if n < 10 then [digit n] else decimal (n div 10) @ [digit n])"

declare decimal.simps [simp del]

definition signed_decimal :: "int \<Rightarrow> u8 list" where
  "signed_decimal i = (if i < 0 then 0x2d # decimal (nat (- i)) else decimal (nat i))"

primrec padded :: "nat \<Rightarrow> nat \<Rightarrow> u8 list" where
  "padded 0 n = []"
| "padded (Suc w) n = padded w (n div 10) @ [digit n]"

definition date_text :: "nat \<Rightarrow> nat \<Rightarrow> nat \<Rightarrow> u8 list" where
  "date_text year month day = padded 4 year @ 0x2d # padded 2 month @ 0x2d # padded 2 day"

text \<open>A time with \<open>k\<close> digits after the point; its hours have two digits, or three.\<close>

definition hours_text :: "nat \<Rightarrow> u8 list" where
  "hours_text hour = padded (if hour < 100 then 2 else 3) hour"

definition time_text :: "nat \<Rightarrow> nat \<Rightarrow> nat \<Rightarrow> nat \<Rightarrow> nat \<Rightarrow> u8 list" where
  "time_text hour minute sec k frac =
     hours_text hour @ 0x3a # padded 2 minute @ 0x3a # padded 2 sec @ (if k = 0 then [] else 0x2e # padded k frac)"

section \<open>Digits\<close>

lemma unat_digit: "unat (digit n) = 48 + n mod 10"
proof -
  have "48 + n mod 10 < 2 ^ 8" by simp
  then show ?thesis by (simp only: digit_def unat_of_nat len_of_numeral_defs(2-)) simp
qed

lemma is_digit_digit [simp]: "is_digit (digit n)"
  by (simp add: is_digit_def word_le_nat_alt unat_digit)

lemma digit_not_special [simp]:
  "digit n \<noteq> 0x2d" "digit n \<noteq> 0x2b" "digit n \<noteq> 0" "\<not> is_space (digit n)" "digit n \<noteq> 0x3a"
  by (auto simp: is_space_def word_le_nat_alt unat_digit dest!: arg_cong [where f = unat])

lemma digit_number: "(ucast (scast (digit n) - 0x30 :: u32) :: u64) = word_of_nat (n mod 10)"
proof -
  have "(ucast (scast (word_of_nat (48 + d) :: u8) - 0x30 :: u32) :: u64) = word_of_nat d" if "d \<in> set [0..<10]" for d
    using that by (auto simp: upt_rec)
  from this [of "n mod 10"] show ?thesis by (simp add: digit_def)
qed

lemma padded_simps:
  "length (padded w n) = w" "list_all is_digit (padded w n)"
  by (induction w arbitrary: n) simp_all

lemma ull_loop_append: "ull_loop v (as @ bs) = ull_loop (ull_loop v as) bs"
  by (induction as arbitrary: v) simp_all

lemma ull_decimal: "ull_from_buf (decimal n) = word_of_nat n"
proof (induction n rule: decimal.induct)
  case (1 n)
  show ?case
  proof (cases "n < 10")
    case True
    then show ?thesis by (subst decimal.simps) (simp add: ull_from_buf_def digit_number)
  next
    case False
    then have "ull_loop 0 (decimal (n div 10)) = word_of_nat (n div 10)" using 1 by (simp add: ull_from_buf_def)
    then have "ull_from_buf (decimal n) = word_of_nat (n div 10) * 10 + word_of_nat (n mod 10)"
      using False by (subst decimal.simps) (simp add: ull_from_buf_def ull_loop_append digit_number)
    also have "\<dots> = word_of_nat (n div 10 * 10 + n mod 10)" by (simp only: of_nat_add of_nat_mult) simp
    finally show ?thesis by simp
  qed
qed

lemma decimal_first: "\<exists>m ds. decimal n = digit m # ds"
proof (induction n rule: decimal.induct)
  case (1 n)
  then show ?case by (cases "n < 10") (auto simp: decimal.simps [of n])
qed

lemma ll_decimal:
  assumes "- (2 ^ 63) \<le> i" and "i < 2 ^ 63"
  shows "sint (ll_from_buf (signed_decimal i)) = i"
proof -
  have "ll_from_buf (signed_decimal i) = word_of_int i"
  proof (cases "i < 0")
    case True
    then show ?thesis by (simp add: ll_from_buf_def signed_decimal_def ull_decimal)
  next
    case False
    obtain m ds where "decimal (nat i) = digit m # ds" using decimal_first by blast
    with False ull_decimal [of "nat i"] show ?thesis by (simp add: ll_from_buf_def signed_decimal_def)
  qed
  then show ?thesis using assms by (simp add: signed_of_int signed_take_bit_int_eq_self)
qed

lemma length_decimal_less: "n < 10 ^ k \<Longrightarrow> 0 < k \<Longrightarrow> length (decimal n) \<le> k"
proof (induction k arbitrary: n)
  case (Suc k)
  show ?case
  proof (cases "n < 10")
    case True
    then show ?thesis by (simp add: decimal.simps)
  next
    case False
    then have "0 < k" using Suc.prems by (cases k) auto
    moreover have "n div 10 < 10 ^ k" using Suc.prems by (simp add: less_mult_imp_div_less mult.commute)
    ultimately show ?thesis using Suc.IH False by (simp add: decimal.simps [of n])
  qed
qed simp

section \<open>The scanner on what a server writes\<close>

lemma digits_value_append: "digits_value (as @ [digit n]) = digits_value as * 10 + n mod 10"
  by (simp add: digits_value_def unat_digit)

lemma digits_value_padded: "digits_value (padded w n) = n mod 10 ^ w"
proof (induction w arbitrary: n)
  case (Suc w)
  have "n mod (10 * 10 ^ w) = 10 * (n div 10 mod 10 ^ w) + n mod 10" by (rule mod_mult2_eq)
  with Suc show ?case by (simp add: digits_value_append)
qed (simp add: digits_value_def)

lemma padded_first: "0 < w \<Longrightarrow> \<exists>m ds. padded w n = digit m # ds"
proof (induction w arbitrary: n)
  case (Suc w)
  show ?case
  proof (cases w)
    case 0
    then show ?thesis by (simp add: exI [of _ n])
  next
    case (Suc w')
    with Suc.IH [of "n div 10"] obtain m ds where "padded w (n div 10) = digit m # ds" by auto
    then show ?thesis by simp blast
  qed
qed simp

lemma takeWhile_padded: "takeWhile is_digit (padded w n @ rest) = padded w n @ takeWhile is_digit rest"
  using padded_simps(2) [of w n] by (simp add: list_all_iff takeWhile_append2)

lemma signed_prefix_padded:
  assumes "0 < w" and "n < 10 ^ w"
  shows "signed_prefix w (padded w n @ rest) = Some (int n, rest)"
proof -
  obtain m ds where first: "padded w n = digit m # ds" using padded_first [OF assms(1)] by blast
  have "takeWhile is_digit (take w (padded w n @ rest)) = padded w n"
    using takeWhile_padded [of w n "[]"] padded_simps(1) [of w n] by simp
  moreover have "drop w (padded w n @ rest) = rest" using padded_simps(1) [of w n] by simp
  ultimately show ?thesis
    using first assms digits_value_padded [of w n] padded_simps(1) [of w n]
    by (simp add: signed_prefix_def Let_def)
qed

lemma scan_padded [simp]:
  assumes "0 < w" and "n < 10 ^ w"
  shows "sscanf (Scan_u w # ds) (padded w n @ rest) = Scanned_u (word_of_nat n) # sscanf ds rest"
proof -
  obtain m ds' where first: "padded w n = digit m # ds'" using padded_first [OF assms(1)] by blast
  then have "dropWhile is_space (padded w n @ rest) = padded w n @ rest" by simp
  with signed_prefix_padded [OF assms] show ?thesis by simp
qed

declare sscanf.simps(2,3) [simp del]

lemma padded_append: "b < 10 ^ m \<Longrightarrow> padded k a @ padded m b = padded (k + m) (a * 10 ^ m + b)"
proof (induction m arbitrary: b)
  case (Suc m)
  have "b div 10 < 10 ^ m" using Suc.prems by (simp add: less_mult_imp_div_less mult.commute)
  moreover have "(a * 10 ^ Suc m + b) div 10 = a * 10 ^ m + b div 10"
    using div_mult_self1 [of 10 b "a * 10 ^ m"] by (simp add: ac_simps)
  moreover have "digit (a * 10 ^ Suc m + b) = digit b"
    using mod_mult_self1 [of b "a * 10 ^ m" 10] by (simp add: digit_def ac_simps)
  ultimately show ?case using Suc.IH [of "b div 10"] by simp
qed simp

lemma zeroes_padded: "replicate m 0x30 = padded m 0"
proof (induction m)
  case (Suc m)
  have "replicate (Suc m) (0x30 :: u8) = replicate m 0x30 @ [0x30]" by (simp add: replicate_append_same)
  with Suc show ?case by (simp add: digit_def)
qed simp

lemma atoi_padded: "0 < w \<Longrightarrow> n < 10 ^ w \<Longrightarrow> atoi (padded w n) = int n"
proof -
  assume w: "0 < w" "n < 10 ^ w"
  obtain m ds where "padded w n = digit m # ds" using padded_first [OF w(1)] by blast
  with signed_prefix_padded [OF w, of "[]"] padded_simps(1) [of w n] show ?thesis by (simp add: atoi_def)
qed

lemma microseconds_padded:
  assumes "k \<le> 6" and "frac < 10 ^ k"
  shows "microseconds (if k = 0 then [] else [Scanned_s (padded k frac)]) = int (frac * 10 ^ (6 - k))"
proof -
  have "frac * 10 ^ (6 - k) < 10 ^ k * 10 ^ (6 - k)" using assms(2) by simp
  also have "\<dots> = 10 ^ 6" using assms(1) by (simp flip: power_add)
  finally have n: "frac * 10 ^ (6 - k) < 10 ^ 6" .
  have "take 6 (padded k frac @ replicate 6 0x30) = padded k frac @ replicate (6 - k) 0x30"
    using assms(1) padded_simps(1) [of k frac] by simp
  also have "\<dots> = padded 6 (frac * 10 ^ (6 - k))"
    using padded_append [of 0 "6 - k" k frac] assms(1) by (simp add: zeroes_padded)
  finally have "atoi (take 6 (padded k frac @ replicate 6 0x30)) = int (frac * 10 ^ (6 - k))"
    using atoi_padded [OF _ n] by simp
  moreover have "microseconds (if k = 0 then [] else [Scanned_s (padded k frac)]) =
      atoi (take 6 (padded k frac @ replicate 6 0x30))"
    by (cases "k = 0") (simp_all add: microseconds_def)
  ultimately show ?thesis by simp
qed

text \<open>What the formats find in the text of a date and of a time.\<close>

lemma scan_date:
  assumes "year < 10000" and "month < 100" and "day < 100"
  shows "sscanf (date_format @ ds) (date_text year month day @ rest) =
    Scanned_u (word_of_nat year) # Scanned_u (word_of_nat month) # Scanned_u (word_of_nat day) # sscanf ds rest"
  using assms by (simp add: date_format_def date_text_def)

lemma scan_word: "0 < k \<Longrightarrow> k \<le> w \<Longrightarrow> sscanf [Scan_s w] (padded k n) = [Scanned_s (padded k n)]"
proof -
  assume k: "0 < k" "k \<le> w"
  obtain m ds where first: "padded k n = digit m # ds" using padded_first [OF k(1)] by blast
  have "list_all (\<lambda>c. \<not> is_space c) (padded k n)" by (induction k arbitrary: n) simp_all
  then have "takeWhile (\<lambda>c. \<not> is_space c) (padded k n) = padded k n" by (simp add: list_all_iff)
  moreover have "take w (padded k n) = padded k n" using k(2) padded_simps(1) [of k n] by simp
  moreover have "dropWhile is_space (padded k n) = padded k n" using first by simp
  ultimately show ?thesis using first by (simp add: sscanf.simps(3))
qed

lemma scan_time:
  assumes "hour < 100" and "minute < 100" and "sec < 100" and "k \<le> 6"
  shows "sscanf time_format (time_text hour minute sec k frac) =
    Scanned_u (word_of_nat hour) # Scanned_u (word_of_nat minute) # Scanned_u (word_of_nat sec)
      # (if k = 0 then [] else [Scanned_s (padded k frac)])"
  using assms scan_padded [of 2 sec "[Scan_char 0x2e, Scan_s 6]" "[]"] scan_word [of k 6 frac]
  by (simp add: time_format_def time_text_def hours_text_def)

lemma INT2NUM_nat: "n < 2 ^ 31 \<Longrightarrow> INT2NUM (word_of_nat n) = Integer_value (int n)"
  by (simp add: INT2NUM_def signed_of_nat signed_take_bit_int_eq_self)

lemma word_of_nat_u32_zero: "n < 10000 \<Longrightarrow> (word_of_nat n :: u32) = 0 \<longleftrightarrow> n = 0"
  by (auto simp: word_of_nat_eq_0_iff dvd_imp_le)

section \<open>Values\<close>

text \<open>A value that is the given text.\<close>

definition text_value :: "u8 list \<Rightarrow> trilogy_value" where
  "text_value bs = \<lparr>val_is_null = False, val_data = bs, val_data_len = word_of_nat (length bs)\<rparr>"

lemma text_value_len: "val_data_len (text_value bs) = word_of_nat (length bs)"
  by (simp add: text_value_def)

lemma text_bytes_value: "length bs < 2 ^ 64 \<Longrightarrow> text_bytes (text_value bs) = ruby_ret bs"
  by (simp add: text_bytes_def text_value_def unat_of_nat)

lemma cstr_text:
  assumes "length bs \<le> 63" and "0 \<notin> set bs"
  shows "cstr_from_value (text_value bs) msg = ruby_ret bs"
proof -
  have "\<not> (word_of_nat (length bs) :: size_t) > word_of_nat (CAST_STACK_SIZE - 1)"
    using assms(1) by (simp add: CAST_STACK_SIZE_def word_less_nat_alt unat_of_nat)
  moreover have "c_string bs = bs" using assms(2) by (auto simp: c_string_def takeWhile_eq_all_conv)
  ultimately show ?thesis
    using assms(1) by (simp add: cstr_from_value_def text_value_len text_bytes_value)
qed

lemma padded_no_nul [simp]: "0 \<notin> set (padded w n)"
  by (induction w arbitrary: n) (auto simp: digit_not_special(3) [symmetric])

lemma text_plain:
  "0 \<notin> set (date_text year month day)" "length (date_text year month day) = 10"
  "0 \<notin> set (time_text hour minute sec k frac)" "k \<le> 6 \<Longrightarrow> length (time_text hour minute sec k frac) \<le> 16"
  using padded_simps(1) by (auto simp: date_text_def time_text_def hours_text_def)

lemma cast_datetime_text:
  assumes "year < 10000" and month: "0 < month" "month < 100" and day: "0 < day" "day < 100"
    and time: "hour < 100" "minute < 100" "sec < 100" "k \<le> 6" "frac < 10 ^ k"
  shows "cast_datetime options (text_value (date_text year month day @ 0x20 # time_text hour minute sec k frac)) =
    ruby_ret (Funcall ''Time'' (time_method options)
      (map (\<lambda>n. Integer_value (int n)) [year, month, day, hour, minute, sec, frac * 10 ^ (6 - k)]))"
proof -
  let ?text = "date_text year month day @ 0x20 # time_text hour minute sec k frac"
  have plain: "length ?text \<le> 63" "length ?text < 2 ^ 64" "0 \<notin> set ?text"
    using text_plain(4) [OF time(4), of hour minute sec frac] by (simp_all add: text_plain(1-3))
  have blank: "dropWhile is_space (0x20 # time_text hour minute sec k frac) = time_text hour minute sec k frac"
  proof -
    obtain m ds where "padded 2 hour = digit m # ds" using padded_first [of 2 hour] by auto
    moreover have "is_space 0x20" by (simp add: is_space_def)
    ultimately show ?thesis using time(1) by (simp add: time_text_def hours_text_def)
  qed
  have "sscanf (date_format @ [Scan_space] @ time_format) ?text =
    map (\<lambda>n. Scanned_u (word_of_nat n)) [year, month, day, hour, minute, sec] @ (if k = 0 then [] else [Scanned_s (padded k frac)])"
    using scan_date [OF assms(1) month(2) day(2)] scan_time [OF time(1-4)] blank by simp
  moreover have "sint (word_of_nat n :: u32) = int n" if "n < 100" for n
    using that by (simp add: signed_of_nat signed_take_bit_int_eq_self)
  moreover have "(word_of_nat month :: u32) \<noteq> 0" using word_of_nat_u32_zero [of month] month by simp
  ultimately show ?thesis
    using assms microseconds_padded [OF time(4,5)]
    by (simp add: cast_datetime_def text_bytes_value [OF plain(2)] cstr_text [OF plain(1,3)] INT2NUM_nat)
qed

lemma cast_date_text:
  assumes "year < 10000" and month: "0 < month" "month < 100" and day: "0 < day" "day < 100"
  shows "cast_date (text_value (date_text year month day)) =
    ruby_ret (Funcall ''Date'' ''new'' (map (\<lambda>n. Integer_value (int n)) [year, month, day]))"
proof -
  have "sscanf date_format (date_text year month day) = map (\<lambda>n. Scanned_u (word_of_nat n)) [year, month, day]"
    using scan_date [OF assms(1) month(2) day(2), of "[]" "[]"] by simp
  moreover have "sint (word_of_nat n :: u32) = int n" if "n < 100" for n
    using that by (simp add: signed_of_nat signed_take_bit_int_eq_self)
  moreover have "(word_of_nat month :: u32) \<noteq> 0" using word_of_nat_u32_zero [of month] month by simp
  ultimately show ?thesis
    using assms by (simp add: cast_date_def text_bytes_value cstr_text text_plain INT2NUM_nat)
qed

text \<open>A time with a sign or with three digits of hours is not understood.\<close>

lemma scan_signed_time: "sscanf time_format (0x2d # digit a # digit b # rest) = [Scanned_u (word_of_int (- int (a mod 10)))]"
  by (simp add: time_format_def sscanf.simps(2) signed_prefix_def is_space_def digits_value_def unat_digit Let_def)

lemma scan_long_time: "sscanf time_format (digit a # digit b # digit c # rest) = [Scanned_u (word_of_nat (a mod 10 * 10 + b mod 10))]"
  by (simp add: time_format_def sscanf.simps(2) signed_prefix_def digits_value_def unat_digit Let_def numeral_2_eq_2)

lemma cast_time_text:
  assumes time: "hour < 1000" "minute < 100" "sec < 100" "k \<le> 6" "frac < 10 ^ k"
  shows "cast_time options (text_value ((if negative then [0x2d] else []) @ time_text hour minute sec k frac)) =
    ruby_ret (if negative \<or> 100 \<le> hour then Qnil
      else Funcall ''Time'' (time_method options)
        (map (\<lambda>n. Integer_value (int n)) [2000, 1, 1, hour, minute, sec, frac * 10 ^ (6 - k)]))"
proof -
  let ?text = "(if negative then [0x2d] else []) @ time_text hour minute sec k frac"
  have plain: "length ?text \<le> 63" "0 \<notin> set ?text"
    using text_plain(4) [OF time(4), of hour minute sec frac] by (simp_all add: text_plain(3))
  obtain a b more where start: "time_text hour minute sec k frac = digit a # digit b # more"
      "100 \<le> hour \<Longrightarrow> \<exists>c rest. more = digit c # rest"
    by (rule that [of "if hour < 100 then hour div 10 else hour div 10 div 10" "if hour < 100 then hour else hour div 10"
        "drop 2 (time_text hour minute sec k frac)"])
      (auto simp: time_text_def hours_text_def numeral_2_eq_2 numeral_3_eq_3)
  consider "negative" | "\<not> negative" "100 \<le> hour" | "\<not> negative" "hour < 100" by linarith
  then show ?thesis
  proof cases
    case 1
    then have "sscanf time_format ?text = [Scanned_u (word_of_int (- int (a mod 10)))]"
      using start(1) by (simp add: scan_signed_time)
    with 1 show ?thesis unfolding cast_time_def cstr_text [OF plain] by simp
  next
    case 2
    with start obtain c rest where "time_text hour minute sec k frac = digit a # digit b # digit c # rest" by blast
    with 2 have "sscanf time_format ?text = [Scanned_u (word_of_nat (a mod 10 * 10 + b mod 10))]"
      by (simp add: scan_long_time)
    with 2 show ?thesis unfolding cast_time_def cstr_text [OF plain] by simp
  next
    case 3
    then show ?thesis
      using time scan_time [OF 3(2) time(2-4)] microseconds_padded [OF time(4,5)]
      unfolding cast_time_def cstr_text [OF plain] by (simp add: INT2NUM_nat)
  qed
qed

section \<open>The cache of the encodings\<close>

text \<open>The index that a charset has, cached or not.\<close>

definition encoding_index :: "(string \<Rightarrow> int) \<Rightarrow> TRILOGY_ENCODING_t \<Rightarrow> int" where
  "encoding_index find_index e = (case ruby_encoding_name_map e of Some name \<Rightarrow> find_index name | None \<Rightarrow> - 1)"

definition cache_ok :: "(string \<Rightarrow> int) \<Rightarrow> int list \<Rightarrow> bool" where
  "cache_ok find_index cache \<longleftrightarrow> length cache = TRILOGY_CHARSET_MAX \<and>
     (\<forall>c e. c < TRILOGY_CHARSET_MAX \<and> trilogy_encoding_from_charset (int c) = Inr e \<longrightarrow>
        cache ! c = 0 \<or> cache ! c = encoding_index find_index e)"

lemma encoding_for_charset_cached:
  assumes "cache_ok find_index cache" and "unat charset < TRILOGY_CHARSET_MAX"
  obtains e cache' where "trilogy_encoding_from_charset (uint charset) = Inr e"
    and "encoding_for_charset find_index charset cache = (Inr (encoding_index find_index e), cache')"
    and "cache_ok find_index cache'"
proof -
  have "\<not> (uint charset < 0 \<or> 255 < uint charset)"
    using assms(2) uint_nat [of charset] by (simp only: TRILOGY_CHARSET_MAX_def) linarith
  then obtain e where e: "trilogy_encoding_from_charset (uint charset) = Inr e"
    by (auto simp: trilogy_encoding_from_charset_def last_charset_value)
  have len: "\<not> length cache \<le> unat charset" using assms by (simp add: cache_ok_def)
  have cached: "cache ! unat charset = 0 \<or> cache ! unat charset = encoding_index find_index e"
    using assms e unfolding cache_ok_def uint_nat by blast
  show ?thesis
  proof (cases "cache ! unat charset = 0")
    case False
    with len cached e show ?thesis by (intro that [of e cache]) (simp_all add: encoding_for_charset_def assms(1))
  next
    case True
    let ?cache = "cache[unat charset := encoding_index find_index e]"
    have "cache_ok find_index ?cache"
      using assms e unfolding cache_ok_def uint_nat by (simp add: nth_list_update)
    with True len e show ?thesis
      by (intro that [of e ?cache]) (simp_all add: encoding_for_charset_def encoding_index_def Let_def)
  qed
qed

section \<open>The cast of a column\<close>

definition of_type :: "column_info \<Rightarrow> TRILOGY_TYPE_t \<Rightarrow> bool" where
  "of_type column t \<longleftrightarrow> type_of_code (ci_type column) = Some t"

lemma cast_of_type:
  assumes "cast options" and "of_type column t" and "\<not> val_is_null v"
  shows "rb_trilogy_cast_value strtod find_index v column options =
    (if t = TRILOGY_TYPE_TIMESTAMP \<or> t = TRILOGY_TYPE_DATETIME then cast_datetime options v
     else if t = TRILOGY_TYPE_DATE then cast_date v
     else if t = TRILOGY_TYPE_TIME then cast_time options v
     else rb_trilogy_cast_value strtod find_index v column options)"
  using assms by (auto simp: rb_trilogy_cast_value_def of_type_def Let_def)

lemma cast_integer_type:
  assumes "cast options" and "of_type column t" and "\<not> val_is_null v"
    and "t \<in> set [TRILOGY_TYPE_TINY, TRILOGY_TYPE_SHORT, TRILOGY_TYPE_LONG, TRILOGY_TYPE_LONGLONG,
       TRILOGY_TYPE_INT24, TRILOGY_TYPE_YEAR]"
    and "t = TRILOGY_TYPE_TINY \<Longrightarrow> \<not> (cast_booleans options \<and> ci_len column = 1)"
  shows "rb_trilogy_cast_value strtod find_index v column options = cast_integer column v"
  using assms by (auto simp: rb_trilogy_cast_value_def of_type_def Let_def)

lemma cast_integer_text:
  assumes "length bs < 2 ^ 64"
  shows "cast_integer column (text_value bs) = ruby_ret (Integer_value
     (if ucast (ci_flags column) AND column_flag TRILOGY_COLUMN_FLAG_UNSIGNED \<noteq> 0
      then uint (ull_from_buf bs) else sint (ll_from_buf bs)))"
  using assms by (simp add: cast_integer_def text_bytes_value)

lemma cast_integer_decimal:
  assumes range: "if ucast (ci_flags column) AND column_flag TRILOGY_COLUMN_FLAG_UNSIGNED \<noteq> 0
      then 0 \<le> i \<and> i < 2 ^ 64 else - (2 ^ 63) \<le> i \<and> i < 2 ^ 63"
  shows "cast_integer column (text_value (signed_decimal i)) = ruby_ret (Integer_value i)"
proof -
  have "\<bar>i\<bar> < 10 ^ 20" using range by (auto split: if_splits)
  then have "nat \<bar>i\<bar> < 10 ^ 20" by (simp add: nat_less_iff)
  then have "length (signed_decimal i) \<le> 21"
    using length_decimal_less [of "nat \<bar>i\<bar>" 20] by (cases "i < 0") (simp_all add: signed_decimal_def)
  then show ?thesis
    using range ll_decimal [of i] ull_decimal [of "nat i"]
    by (subst cast_integer_text) (auto simp: signed_decimal_def unsigned_of_int take_bit_int_eq_self split: if_splits)
qed

end
