(* ===== verification/Ruby_Pool.thy ===== *)
theory Ruby_Pool
  imports Trilogy_Prelude
begin

text \<open>
  The pool of packet buffers of the Ruby extension (\<^verbatim>\<open>contrib/ruby/ext/trilogy-ruby/cext.c\<close>): a client
  takes a buffer for the time of a call and gives it back, and all clients of a ractor share the pool. \<open>'b\<close>
  is what stands for a buffer: its bytes, or its address where it matters who holds it.
\<close>

section \<open>The code\<close>

record 'b buffer_pool_entry =
  entry_cap :: size_t
  entry_buff :: 'b

text \<open>The array of entries has \<^verbatim>\<open>capa\<close> elements; one that was never assigned is \<open>None\<close>.\<close>

record 'b buffer_pool =
  pool_capa :: size_t
  pool_len :: size_t
  pool_entries :: "'b buffer_pool_entry option list"

definition BUFFER_POOL_MAX_SIZE :: size_t where
  "BUFFER_POOL_MAX_SIZE = 8"

definition create_rb_buffer_pool :: "'b buffer_pool" where
  "create_rb_buffer_pool = \<lparr>pool_capa = 0, pool_len = 0, pool_entries = []\<rparr>"

definition pool_entry :: "size_t \<Rightarrow> ('b buffer_pool, 'b buffer_pool_entry) op" where
  "pool_entry i = (\<lambda>pool.
     if unat i < length (pool_entries pool)
     then (case pool_entries pool ! unat i of None \<Rightarrow> (Inl Fault, pool) | Some e \<Rightarrow> (Inr e, pool))
     else (Inl Fault, pool))"

definition set_pool_entry :: "size_t \<Rightarrow> 'b buffer_pool_entry \<Rightarrow> ('b buffer_pool, unit) op" where
  "set_pool_entry i e = (\<lambda>pool.
     if unat i < length (pool_entries pool)
     then (Inr (), pool\<lparr>pool_entries := (pool_entries pool)[unat i := Some e]\<rparr>)
     else (Inl Fault, pool))"

text \<open>What is taken; \<open>fresh\<close> is the buffer that is allocated when there is none in the pool.\<close>

definition buffer_checkout :: "'b \<Rightarrow> size_t \<Rightarrow> ('b buffer_pool, 'b buffer_pool_entry) op" where
  "buffer_checkout fresh initial_capacity =
     checked get_state (\<lambda>pool.
     if pool_len pool \<noteq> 0 then
       checked (put_state (\<lambda>pool. pool\<lparr>pool_len := pool_len pool - 1\<rparr>)) (\<lambda>_.
       checked get_state (\<lambda>pool.
       pool_entry (pool_len pool)))
     else ret \<lparr>entry_cap = initial_capacity, entry_buff = fresh\<rparr>)"

text \<open>What is given back is stored, or freed; the result tells which.\<close>

definition buffer_checkin :: "'b buffer_pool_entry \<Rightarrow> ('b buffer_pool, bool) op" where
  "buffer_checkin e =
     checked get_state (\<lambda>pool.
     if pool_len pool \<ge> BUFFER_POOL_MAX_SIZE then ret False
     else
       checked (if pool_capa pool = 0
                then put_state (\<lambda>pool. pool\<lparr>pool_entries := replicate 16 None, pool_capa := 16\<rparr>)
                else if pool_len pool \<ge> pool_capa pool
                then put_state (\<lambda>pool. let n = unat (pool_capa pool * 2)
                       in pool\<lparr>pool_capa := pool_capa pool * 2,
                               pool_entries := take n (pool_entries pool @ replicate n None)\<rparr>)
                else ret ()) (\<lambda>_.
       checked (set_pool_entry (pool_len pool) e) (\<lambda>_.
       checked (put_state (\<lambda>pool. pool\<lparr>pool_len := pool_len pool + 1\<rparr>)) (\<lambda>_.
       ret True))))"

text \<open>The buffers that are freed with the pool.\<close>

primrec freed_upto :: "nat \<Rightarrow> ('b buffer_pool, 'b list) op" where
  "freed_upto 0 = ret []"
| "freed_upto (Suc n) =
     checked (freed_upto n) (\<lambda>bs. checked (pool_entry (word_of_nat n)) (\<lambda>e. ret (bs @ [entry_buff e])))"

definition buffer_pool_free :: "('b buffer_pool, 'b list) op" where
  "buffer_pool_free =
     checked get_state (\<lambda>pool.
     if pool_capa pool \<noteq> 0 then freed_upto (unat (pool_len pool)) else ret [])"

section \<open>It is a stack of at most eight buffers\<close>

definition stored :: "'b buffer_pool \<Rightarrow> 'b buffer_pool_entry list" where
  "stored pool = map the (take (unat (pool_len pool)) (pool_entries pool))"

definition pool_ok :: "'b buffer_pool \<Rightarrow> bool" where
  "pool_ok pool \<longleftrightarrow> pool_len pool \<le> BUFFER_POOL_MAX_SIZE \<and> length (pool_entries pool) = unat (pool_capa pool)
     \<and> (pool_capa pool = 0 \<and> pool_len pool = 0 \<or> pool_capa pool = 16)
     \<and> None \<notin> set (take (unat (pool_len pool)) (pool_entries pool))"

lemma pool_start [simp]: "pool_ok create_rb_buffer_pool" "stored create_rb_buffer_pool = []"
  by (simp_all add: pool_ok_def create_rb_buffer_pool_def stored_def BUFFER_POOL_MAX_SIZE_def)

lemma pool_len_bounds:
  assumes "pool_ok pool"
  shows "unat (pool_len pool) \<le> 8" "unat (pool_len pool) \<le> length (pool_entries pool)"
    "length (stored pool) = unat (pool_len pool)"
proof -
  have "unat (pool_len pool) \<le> 8"
    using assms by (simp add: pool_ok_def BUFFER_POOL_MAX_SIZE_def word_le_nat_alt)
  moreover from this show "unat (pool_len pool) \<le> 8" .
  ultimately show "unat (pool_len pool) \<le> length (pool_entries pool)"
    using assms by (auto simp: pool_ok_def)
  then show "length (stored pool) = unat (pool_len pool)" by (simp add: stored_def)
qed

lemma pool_entry_stored:
  assumes "pool_ok pool" and "unat i < unat (pool_len pool)"
  shows "pool_entry i pool = (Inr (stored pool ! unat i), pool)"
proof -
  have n: "unat i < length (pool_entries pool)" using assms pool_len_bounds by (meson less_le_trans)
  then have "pool_entries pool ! unat i \<in> set (take (unat (pool_len pool)) (pool_entries pool))"
    using assms(2) by (auto simp: in_set_conv_nth)
  moreover have "None \<notin> set (take (unat (pool_len pool)) (pool_entries pool))" using assms(1) by (simp add: pool_ok_def)
  ultimately have "pool_entries pool ! unat i \<noteq> None" by metis
  with n assms(2) show ?thesis by (auto simp: pool_entry_def stored_def)
qed

lemma checkout_stack:
  assumes ok: "pool_ok pool"
  shows "\<exists>pool'. buffer_checkout fresh n pool =
      (Inr (if stored pool = [] then \<lparr>entry_cap = n, entry_buff = fresh\<rparr> else last (stored pool)), pool')
    \<and> pool_ok pool' \<and> stored pool' = butlast (stored pool)"
proof (cases "pool_len pool = 0")
  case True
  then have "stored pool = []" by (simp add: stored_def)
  with True ok show ?thesis by (intro exI [of _ pool]) (simp add: buffer_checkout_def checked_apply)
next
  case False
  let ?n = "unat (pool_len pool)" and ?pool = "pool\<lparr>pool_len := pool_len pool - 1\<rparr>"
  note bounds = pool_len_bounds [OF ok]
  have pos: "0 < ?n" using False by (simp add: unat_gt_0)
  have n: "unat (pool_len pool - 1) = ?n - 1" using False by (rule unat_minus_one)
  have ok': "pool_ok ?pool"
    using ok n False bounds(1) in_set_takeD [of None "?n - 1" "take ?n (pool_entries pool)"]
    by (auto simp: pool_ok_def BUFFER_POOL_MAX_SIZE_def word_le_nat_alt)
  have "pool_entry (pool_len pool - 1) pool = (Inr (stored pool ! (?n - 1)), pool)"
    using pool_entry_stored [OF ok, of "pool_len pool - 1"] pos n by simp
  then have "pool_entry (pool_len pool - 1) ?pool = (Inr (stored pool ! (?n - 1)), ?pool)"
    by (auto simp: pool_entry_def split: if_splits option.splits)
  moreover have "stored pool \<noteq> []" using bounds(3) pos by auto
  moreover have "stored pool ! (?n - 1) = last (stored pool)"
    using bounds(3) \<open>stored pool \<noteq> []\<close> by (simp add: last_conv_nth)
  moreover have "stored ?pool = butlast (stored pool)"
    using bounds by (simp add: stored_def n butlast_conv_take take_map min_def)
  ultimately show ?thesis
    using ok' False by (intro exI [of _ ?pool]) (simp add: buffer_checkout_def)
qed

lemma checkin_stack:
  assumes ok: "pool_ok pool"
  shows "\<exists>pool'. buffer_checkin e pool = (Inr (length (stored pool) < 8), pool') \<and> pool_ok pool'
    \<and> stored pool' = (if length (stored pool) < 8 then stored pool @ [e] else stored pool)"
proof (cases "pool_len pool \<ge> BUFFER_POOL_MAX_SIZE")
  case True
  then have "\<not> length (stored pool) < 8"
    using pool_len_bounds [OF ok] by (simp add: BUFFER_POOL_MAX_SIZE_def word_le_nat_alt)
  with True ok show ?thesis by (intro exI [of _ pool]) (simp add: buffer_checkin_def)
next
  case False
  let ?n = "unat (pool_len pool)"
  note bounds = pool_len_bounds [OF ok]
  have less: "?n < 8" using False by (simp add: BUFFER_POOL_MAX_SIZE_def word_le_nat_alt)
  define p1 where "p1 = (if pool_capa pool = 0 then pool\<lparr>pool_entries := replicate 16 None, pool_capa := 16\<rparr> else pool)"
  have p1: "pool_ok p1" "stored p1 = stored pool" "pool_len p1 = pool_len pool" "length (pool_entries p1) = 16"
    "pool_capa p1 = 16"
    using ok by (auto simp: p1_def pool_ok_def stored_def)
  have full: "\<not> pool_len pool \<ge> pool_capa pool" if "pool_capa pool \<noteq> 0"
    using that ok less by (auto simp: pool_ok_def word_le_nat_alt)
  let ?p2 = "p1\<lparr>pool_entries := (pool_entries p1)[?n := Some e], pool_len := pool_len pool + 1\<rparr>"
  have n: "unat (pool_len pool + 1) = Suc ?n"
    using less by (simp add: unat_word_ariths)
  have entries: "take (Suc ?n) ((pool_entries p1)[?n := Some e]) = take ?n (pool_entries p1) @ [Some e]"
    using p1(4) less by (simp add: take_Suc_conv_app_nth)
  have "pool_ok ?p2"
    using p1 n less unfolding pool_ok_def
    by (simp add: BUFFER_POOL_MAX_SIZE_def word_le_nat_alt entries)
  moreover have "stored ?p2 = stored pool @ [e]"
    using p1(2,3) n entries by (simp add: stored_def)
  moreover have "buffer_checkin e pool = (Inr True, ?p2)"
    using False full p1(3,4) less
    by (cases "pool_capa pool = 0") (auto simp: buffer_checkin_def checked_apply set_pool_entry_def p1_def)
  ultimately show ?thesis using bounds less by (intro exI [of _ ?p2]) simp
qed

lemma freed_upto_stored:
  assumes "pool_ok pool" and "n \<le> unat (pool_len pool)"
  shows "freed_upto n pool = (Inr (map entry_buff (take n (stored pool))), pool)"
  using assms(2)
proof (induction n)
  case (Suc n)
  then have "unat (word_of_nat n :: size_t) = n"
    using pool_len_bounds(1) [OF assms(1)] by (simp add: unat_of_nat)
  with Suc pool_entry_stored [OF assms(1), of "word_of_nat n"] pool_len_bounds(3) [OF assms(1)]
  show ?case by (simp add: checked_apply take_Suc_conv_app_nth)
qed simp

lemma pool_free_stored: "pool_ok pool \<Longrightarrow> buffer_pool_free pool = (Inr (map entry_buff (stored pool)), pool)"
  using freed_upto_stored [of pool "unat (pool_len pool)"] pool_len_bounds(3) [of pool]
  by (auto simp: buffer_pool_free_def pool_ok_def stored_def)

section \<open>Clients that share it\<close>

text \<open>
  The clients of a ractor take turns at any point where one waits. A buffer is an address; \<open>held\<close> is
  the packet buffer of each client that has one, and \<open>allocated\<close> the addresses that are in use.
\<close>

record 'c sharing =
  shared_pool :: "nat buffer_pool"
  held :: "'c \<Rightarrow> nat buffer_pool_entry option"
  allocated :: "nat set"

inductive pool_step :: "'c sharing \<Rightarrow> 'c sharing \<Rightarrow> bool" where
  acquire: "held s c = None \<Longrightarrow> a \<notin> allocated s \<Longrightarrow> buffer_checkout a n (shared_pool s) = (Inr e, pool) \<Longrightarrow>
     pool_step s (s\<lparr>shared_pool := pool, held := (held s)(c := Some e), allocated := insert (entry_buff e) (allocated s)\<rparr>)"
| release: "held s c = Some e \<Longrightarrow> buffer_checkin e (shared_pool s) = (Inr kept, pool) \<Longrightarrow>
     pool_step s (s\<lparr>shared_pool := pool, held := (held s)(c := None),
       allocated := (if kept then allocated s else allocated s - {entry_buff e})\<rparr>)"
| expand: "held s c = Some e \<Longrightarrow> b = entry_buff e \<or> b \<notin> allocated s \<Longrightarrow>
     pool_step s (s\<lparr>held := (held s)(c := Some \<lparr>entry_cap = cap, entry_buff = b\<rparr>),
       allocated := insert b (allocated s - {entry_buff e})\<rparr>)"
| free: "held s c = Some e \<Longrightarrow>
     pool_step s (s\<lparr>held := (held s)(c := None), allocated := allocated s - {entry_buff e}\<rparr>)"
| collect: "buffer_pool_free (shared_pool s) = (Inr bs, pool) \<Longrightarrow>
     pool_step s (s\<lparr>shared_pool := create_rb_buffer_pool, allocated := allocated s - set bs\<rparr>)"

definition unshared :: "'c sharing" where
  "unshared = \<lparr>shared_pool = create_rb_buffer_pool, held = (\<lambda>_. None), allocated = {}\<rparr>"

text \<open>No address is held twice, and those that are allocated are those that are held or stored.\<close>

definition separate :: "'c sharing \<Rightarrow> bool" where
  "separate s \<longleftrightarrow> pool_ok (shared_pool s) \<and> distinct (map entry_buff (stored (shared_pool s)))
     \<and> (\<forall>c e. held s c = Some e \<longrightarrow> entry_buff e \<notin> entry_buff ` set (stored (shared_pool s)))
     \<and> (\<forall>c d e f. held s c = Some e \<and> held s d = Some f \<and> entry_buff e = entry_buff f \<longrightarrow> c = d)
     \<and> allocated s = entry_buff ` (set (stored (shared_pool s)) \<union> ran (held s))"

lemma separateI:
  assumes "pool_ok (shared_pool s)" and "distinct (map entry_buff (stored (shared_pool s)))"
    and "\<And>c e. held s c = Some e \<Longrightarrow> entry_buff e \<notin> entry_buff ` set (stored (shared_pool s))"
    and "\<And>c d e f. held s c = Some e \<Longrightarrow> held s d = Some f \<Longrightarrow> entry_buff e = entry_buff f \<Longrightarrow> c = d"
    and "allocated s = entry_buff ` (set (stored (shared_pool s)) \<union> ran (held s))"
  shows "separate s"
  using assms unfolding separate_def by blast

lemma separateD:
  assumes "separate s"
  shows "pool_ok (shared_pool s)" "distinct (map entry_buff (stored (shared_pool s)))"
    "held s c = Some e \<Longrightarrow> entry_buff e \<notin> entry_buff ` set (stored (shared_pool s))"
    "held s c = Some e \<Longrightarrow> held s d = Some f \<Longrightarrow> entry_buff e = entry_buff f \<Longrightarrow> c = d"
    "allocated s = entry_buff ` (set (stored (shared_pool s)) \<union> ran (held s))"
  using assms unfolding separate_def by blast+

lemma allocated_held: "separate s \<Longrightarrow> held s c = Some e \<Longrightarrow> entry_buff e \<in> allocated s"
  by (auto simp: separateD(5) intro: ranI)

lemma separate_unshared: "separate unshared"
  by (simp add: separate_def unshared_def ran_def)

lemma ran_reset: "held s c = Some e \<Longrightarrow> separate s \<Longrightarrow>
    entry_buff ` ran ((held s)(c := None)) = entry_buff ` ran (held s) - {entry_buff e}"
proof -
  assume c: "held s c = Some e" and sep: "separate s"
  have "ran (held s) = insert e (ran ((held s)(c := None)))"
    using c by (auto simp: ran_def split: if_splits) (metis option.inject)
  moreover have "entry_buff f \<noteq> entry_buff e" if "f \<in> ran ((held s)(c := None))" for f
    using that separateD(4) [OF sep c, of _ f] by (auto simp: ran_def split: if_splits)
  ultimately show ?thesis by auto
qed

lemma separate_acquire:
  assumes sep: "separate s" and c: "held s c = None" and a: "a \<notin> allocated s"
    and run: "buffer_checkout a n (shared_pool s) = (Inr e, pool)"
  shows "separate (s\<lparr>shared_pool := pool, held := (held s)(c := Some e), allocated := insert (entry_buff e) (allocated s)\<rparr>)"
    (is "separate ?s")
proof -
  let ?st = "stored (shared_pool s)"
  obtain pool': "pool_ok pool" "stored pool = butlast ?st"
      "e = (if ?st = [] then \<lparr>entry_cap = n, entry_buff = a\<rparr> else last ?st)"
    using checkout_stack [OF separateD(1) [OF sep], of a n] run by auto
  have split: "?st = stored pool @ (if ?st = [] then [] else [e])" using pool'(2,3) by simp
  have new: "entry_buff e \<notin> entry_buff ` set (stored pool)"
  proof (cases "?st = []")
    case False
    have "distinct (map entry_buff (stored pool @ [e]))" using separateD(2) [OF sep] split False by simp
    then show ?thesis by simp
  qed (simp add: pool'(2))
  have others: "entry_buff f \<noteq> entry_buff e" if "held s d = Some f" for d f
    using separateD(3) [OF sep that] allocated_held [OF sep that] a pool'(3) by (auto split: if_splits)
  have sub: "set (stored pool) \<subseteq> set ?st" using pool'(2) by (auto dest: in_set_butlastD)
  show ?thesis
  proof (rule separateI)
    show "distinct (map entry_buff (stored (shared_pool ?s)))"
      using separateD(2) [OF sep] pool'(2) by (simp add: map_butlast distinct_butlast)
    show "entry_buff f \<notin> entry_buff ` set (stored (shared_pool ?s))" if "held ?s d = Some f" for d f
      using that new separateD(3) [OF sep, of d f] sub by (auto split: if_splits)
    show "d = d'" if "held ?s d = Some f" "held ?s d' = Some f'" "entry_buff f = entry_buff f'" for d d' f f'
      using that separateD(4) [OF sep, of d f d' f'] others by (auto split: if_splits)
    have "set ?st \<subseteq> insert e (set (stored pool))" by (subst split) auto
    then have "insert (entry_buff e) (entry_buff ` set ?st) = insert (entry_buff e) (entry_buff ` set (stored pool))"
      using sub by auto
    moreover have "ran ((held s)(c := Some e)) = insert e (ran (held s))" using c by (simp add: ran_map_upd)
    ultimately show "allocated ?s = entry_buff ` (set (stored (shared_pool ?s)) \<union> ran (held ?s))"
      using separateD(5) [OF sep] by (simp add: image_Un) blast
  qed (use pool' in simp)
qed

lemma separate_release:
  assumes sep: "separate s" and c: "held s c = Some e" and run: "buffer_checkin e (shared_pool s) = (Inr kept, pool)"
  shows "separate (s\<lparr>shared_pool := pool, held := (held s)(c := None),
       allocated := (if kept then allocated s else allocated s - {entry_buff e})\<rparr>)" (is "separate ?s")
proof -
  let ?st = "stored (shared_pool s)"
  obtain pool': "pool_ok pool" "stored pool = (if kept then ?st @ [e] else ?st)"
    using checkin_stack [OF separateD(1) [OF sep], of e] run by auto
  show ?thesis
  proof (rule separateI)
    show "distinct (map entry_buff (stored (shared_pool ?s)))"
      using separateD(2,3) [OF sep] c pool'(2) by auto
    show "entry_buff f \<notin> entry_buff ` set (stored (shared_pool ?s))" if "held ?s d = Some f" for d f
      using that separateD(3) [OF sep, of d f] separateD(4) [OF sep c, of d f] pool'(2) by (auto split: if_splits)
    show "d = d'" if "held ?s d = Some f" "held ?s d' = Some f'" "entry_buff f = entry_buff f'" for d d' f f'
      using that separateD(4) [OF sep, of d f d' f'] by (auto split: if_splits)
    show "allocated ?s = entry_buff ` (set (stored (shared_pool ?s)) \<union> ran (held ?s))"
      using separateD(3,5) [OF sep] c pool'(2) ran_reset [OF c sep] ranI [of "held s" c e, OF c]
      by (auto simp: image_Un)
  qed (use pool' in simp)
qed

lemma separate_expand:
  assumes sep: "separate s" and c: "held s c = Some e" and b: "b = entry_buff e \<or> b \<notin> allocated s"
  shows "separate (s\<lparr>held := (held s)(c := Some \<lparr>entry_cap = cap, entry_buff = b\<rparr>),
       allocated := insert b (allocated s - {entry_buff e})\<rparr>)" (is "separate ?s")
proof -
  let ?e = "\<lparr>entry_cap = cap, entry_buff = b\<rparr>"
  have others: "entry_buff f \<noteq> b" if "held s d = Some f" "d \<noteq> c" for d f
    using b separateD(4) [OF sep that(1) c] allocated_held [OF sep that(1)] that(2) by auto
  have pool: "b \<notin> entry_buff ` set (stored (shared_pool s))"
    using b separateD(3) [OF sep c] separateD(5) [OF sep] by (auto simp: image_iff)
  show ?thesis
  proof (rule separateI)
    show "entry_buff f \<notin> entry_buff ` set (stored (shared_pool ?s))" if "held ?s d = Some f" for d f
      using that pool separateD(3) [OF sep, of d f] by (auto split: if_splits)
    show "d = d'" if d: "held ?s d = Some f" "held ?s d' = Some f'" and same: "entry_buff f = entry_buff f'" for d d' f f'
    proof (rule ccontr)
      assume "d \<noteq> d'"
      then consider "d = c" "d' \<noteq> c" | "d' = c" "d \<noteq> c" | "d \<noteq> c" "d' \<noteq> c" by blast
      then show False
      proof cases
        case 1 then have "entry_buff f = b" "held s d' = Some f'" using d by auto
        with others [OF _ 1(2)] same show False by simp
      next
        case 2 then have "entry_buff f' = b" "held s d = Some f" using d by auto
        with others [OF _ 2(2)] same show False by simp
      next
        case 3 then have "held s d = Some f" "held s d' = Some f'" using d by auto
        with separateD(4) [OF sep] same \<open>d \<noteq> d'\<close> show False by blast
      qed
    qed
    have "ran ((held s)(c := Some ?e)) = insert ?e (ran ((held s)(c := None)))" by (auto simp: ran_def)
    then show "allocated ?s = entry_buff ` (set (stored (shared_pool ?s)) \<union> ran (held ?s))"
      using separateD(3,5) [OF sep] c ran_reset [OF c sep] by (auto simp: image_Un)
  qed (use separateD [OF sep] in auto)
qed

lemma separate_free:
  assumes sep: "separate s" and c: "held s c = Some e"
  shows "separate (s\<lparr>held := (held s)(c := None), allocated := allocated s - {entry_buff e}\<rparr>)" (is "separate ?s")
proof (rule separateI)
  show "entry_buff f \<notin> entry_buff ` set (stored (shared_pool ?s))" if "held ?s d = Some f" for d f
    using that separateD(3) [OF sep, of d f] by (auto split: if_splits)
  show "d = d'" if "held ?s d = Some f" "held ?s d' = Some f'" "entry_buff f = entry_buff f'" for d d' f f'
    using that separateD(4) [OF sep, of d f d' f'] by (auto split: if_splits)
  show "allocated ?s = entry_buff ` (set (stored (shared_pool ?s)) \<union> ran (held ?s))"
    using separateD(3,5) [OF sep] c ran_reset [OF c sep] by (auto simp: image_Un)
qed (use separateD [OF sep] in auto)

lemma separate_collect:
  assumes sep: "separate s" and run: "buffer_pool_free (shared_pool s) = (Inr bs, pool)"
  shows "separate (s\<lparr>shared_pool := create_rb_buffer_pool, allocated := allocated s - set bs\<rparr>)" (is "separate ?s")
proof (rule separateI)
  have bs: "bs = map entry_buff (stored (shared_pool s))"
    using run unfolding pool_free_stored [OF separateD(1) [OF sep]] by (auto simp del: map_map)
  show "d = d'" if "held ?s d = Some f" "held ?s d' = Some f'" "entry_buff f = entry_buff f'" for d d' f f'
    using that separateD(4) [OF sep, of d f d' f'] by simp
  have "entry_buff f \<notin> set bs" if "f \<in> ran (held s)" for f
    using that separateD(3) [OF sep] bs by (auto simp: ran_def)
  then show "allocated ?s = entry_buff ` (set (stored (shared_pool ?s)) \<union> ran (held ?s))"
    using separateD(5) [OF sep] bs by (auto simp: image_Un)
qed simp_all

lemma separate_step: "pool_step s t \<Longrightarrow> separate s \<Longrightarrow> separate t"
  by (induction rule: pool_step.induct)
    (simp_all add: separate_acquire separate_release separate_expand separate_free separate_collect)

lemma separate_reachable: "pool_step\<^sup>*\<^sup>* unshared s \<Longrightarrow> separate s"
  by (induction rule: rtranclp_induct) (auto intro: separate_unshared separate_step)

end
