(* ===== verification/Ruby_Client.thy ===== *)
theory Ruby_Client
  imports Ruby_Pool Cast Escape Blocking Socket
begin

text \<open>
  The methods of the Ruby extension (\<^verbatim>\<open>contrib/ruby/ext/trilogy-ruby/cext.c\<close>): each takes a buffer from the
  pool, calls the client, waits for the socket through the interpreter, and raises an exception for a
  code of the client. The interpreter is a parameter.
\<close>

section \<open>The interpreter\<close>

text \<open>
  What the sockets of an interpreter act on: the state \<open>'v\<close> of the socket and what is behind it, the pool
  and the cache of encodings that all clients share, and the exception that a wait has raised, which
  leaves the frames of C by \<^verbatim>\<open>rb_jump_tag\<close>.
\<close>

record 'v rb_world =
  rb_net :: 'v
  rb_pool :: "u8 list buffer_pool"
  rb_encodings :: "int list"
  rb_pending :: "ruby_stop option"

datatype rb_wait_flag = RB_WAITFD_IN | RB_WAITFD_OUT

text \<open>
  \<^item> \<open>vm_wait\<close>: what \<^verbatim>\<open>rb_wait_for_single_fd\<close> returns, or the exception it raises; other clients
    may run while it waits, and \<open>vm_others\<close> is what they leave of the pool and of the cache;
  \<^item> \<open>vm_errno\<close>: \<^verbatim>\<open>errno\<close>; \<open>vm_ssl_error\<close>: the library, the reason and the text of the error that
    \<^verbatim>\<open>ERR_get_error\<close> takes from its queue, and \<open>vm_ssl_clear\<close> the state when the queue is empty;
  \<^item> \<open>vm_xmalloc\<close>: the memory of \<^verbatim>\<open>RB_ALLOC_N\<close>; \<open>vm_values\<close>: that of the array for the values of a
    row; \<open>vm_room\<close>: the exception for an array of so many elements of a size, if it is raised;
  \<^item> \<open>vm_export\<close>: \<^verbatim>\<open>rb_str_export_to_enc\<close>; \<open>vm_asciicompat\<close>: \<^verbatim>\<open>rb_enc_asciicompat\<close>;
  \<^item> \<open>vm_funcall\<close>: the exception that a method raises; \<open>vm_find_index\<close> and \<open>vm_strtod\<close>: see Cast.
\<close>

record ('v, 'f) rb_vm =
  vm_wait :: "int \<Rightarrow> rb_wait_flag \<Rightarrow> timeval option \<Rightarrow> 'v rb_world \<Rightarrow> ruby_stop + int"
  vm_others :: "'v rb_world \<Rightarrow> u8 list buffer_pool \<times> int list"
  vm_errno :: "'v \<Rightarrow> int"
  vm_ssl_error :: "'v \<Rightarrow> int \<times> int \<times> u8 list"
  vm_ssl_clear :: "'v \<Rightarrow> 'v"
  vm_xmalloc :: "size_t \<Rightarrow> u8 list"
  vm_values :: "u64 \<Rightarrow> trilogy_value list"
  vm_room :: "nat \<Rightarrow> u64 \<Rightarrow> ruby_stop option"
  vm_export :: "int \<Rightarrow> u8 list \<Rightarrow> ruby_stop + u8 list"
  vm_asciicompat :: "int \<Rightarrow> bool"
  vm_funcall :: "'f ruby_value \<Rightarrow> ruby_stop option"
  vm_find_index :: "string \<Rightarrow> int"
  vm_strtod :: "u8 list \<Rightarrow> 'f \<times> nat"

section \<open>The context\<close>

record 'v trilogy_ctx =
  ctx_conn :: "'v rb_world trilogy_conn"
  ctx_server_version :: "u8 list"
  ctx_query_flags :: u32
  ctx_encoding :: int

text \<open>
  Call the client. An exception that a wait has raised continues to the caller; the code or the value
  that the C function would have returned is not seen.
\<close>

definition run_c :: "('v rb_world trilogy_conn, 'a) op \<Rightarrow> ('v trilogy_ctx, trilogy_rc + 'a) ruby" where
  "run_c m = (\<lambda>ctx.
     case m (ctx_conn ctx) of (r, c) \<Rightarrow>
       (case rb_pending (outside c) of
          Some e \<Rightarrow> (Inl e, ctx\<lparr>ctx_conn := c\<lparr>outside := (outside c)\<lparr>rb_pending := None\<rparr>\<rparr>\<rparr>)
        | None \<Rightarrow>
            (case r of
               Inr x \<Rightarrow> (Inr (Inr x), ctx\<lparr>ctx_conn := c\<rparr>)
             | Inl (Rc rc) \<Rightarrow> (Inr (Inl rc), ctx\<lparr>ctx_conn := c\<rparr>)
             | Inl e \<Rightarrow> (Inl (Crashed e), ctx\<lparr>ctx_conn := c\<rparr>))))"

text \<open>A call whose code is not looked at.\<close>

definition run_void :: "('v rb_world trilogy_conn, 'a) op \<Rightarrow> ('v trilogy_ctx, unit) ruby" where
  "run_void m = ruby_then (run_c m) (\<lambda>_. ruby_ret ())"

definition get_ctx :: "('v trilogy_ctx, 'v trilogy_ctx) ruby" where
  "get_ctx = (\<lambda>ctx. (Inr ctx, ctx))"

definition get_open_ctx :: "('v trilogy_ctx, 'v trilogy_ctx) ruby" where
  "get_open_ctx =
     ruby_then get_ctx (\<lambda>ctx.
     if socket (ctx_conn ctx) = None
     then ruby_stop (Raised ''ConnectionClosed'' ''Attempted to use closed connection'' [])
     else ruby_ret ctx)"

section \<open>The packet buffer\<close>

abbreviation on_net :: "('v, 'a) op \<Rightarrow> ('v rb_world, 'a) op" where
  "on_net \<equiv> on_part rb_net (\<lambda>v w. w\<lparr>rb_net := v\<rparr>)"

abbreviation on_pool :: "(u8 list buffer_pool, 'a) op \<Rightarrow> ('v rb_world trilogy_conn, 'a) op" where
  "on_pool \<equiv> on_part (\<lambda>c. rb_pool (outside c)) (\<lambda>p c. c\<lparr>outside := (outside c)\<lparr>rb_pool := p\<rparr>\<rparr>)"

definition rb_trilogy_acquire_buffer :: "('v, 'f) rb_vm \<Rightarrow> ('v rb_world trilogy_conn, unit) op" where
  "rb_trilogy_acquire_buffer vm =
     checked get_state (\<lambda>c.
     if buf_mem (packet_buffer c) = None then
       let size = word_of_nat TRILOGY_DEFAULT_BUF_SIZE
       in checked (on_pool (buffer_checkout (vm_xmalloc vm size) size)) (\<lambda>e.
          put_state (\<lambda>c. c\<lparr>packet_buffer := (packet_buffer c)\<lparr>buf_mem := Some (entry_buff e), buf_cap := entry_cap e\<rparr>\<rparr>))
     else ret ())"

definition rb_trilogy_release_buffer :: "('v rb_world trilogy_conn, unit) op" where
  "rb_trilogy_release_buffer =
     checked get_state (\<lambda>c.
     case buf_mem (packet_buffer c) of
       None \<Rightarrow> ret ()
     | Some mem \<Rightarrow>
         checked (on_pool (buffer_checkin \<lparr>entry_cap = buf_cap (packet_buffer c), entry_buff = mem\<rparr>)) (\<lambda>_.
         put_state (\<lambda>c. c\<lparr>packet_buffer := (packet_buffer c)\<lparr>buf_mem := None, buf_cap := 0\<rparr>\<rparr>)))"

section \<open>Exceptions\<close>

definition trilogy_error_recoverable_p :: "trilogy_rc \<Rightarrow> bool" where
  "trilogy_error_recoverable_p rc \<longleftrightarrow> rc = TRILOGY_ERR \<or> rc = TRILOGY_MAX_PACKET_EXCEEDED"

definition EPIPE_code :: int where "EPIPE_code = 32"
definition ERR_LIB_SYS :: int where "ERR_LIB_SYS = 2"

text \<open>The message of an exception is \<open>msg\<close>, followed by the given text.\<close>

definition trilogy_syserr_fail_str :: "int \<Rightarrow> u8 list \<Rightarrow> ruby_stop" where
  "trilogy_syserr_fail_str e msg =
     (if e = EPIPE_code then Raised ''EOFError'' '': TRILOGY_CLOSED_CONNECTION: EPIPE'' msg
      else Made ''SyscallError'' ''from_errno'' msg e)"

text \<open>The last part of \<^verbatim>\<open>handle_trilogy_error\<close>, after the connection was shut down.\<close>

definition error_exception :: "('v, 'f) rb_vm \<Rightarrow> int \<Rightarrow> trilogy_rc \<Rightarrow> u8 list \<Rightarrow> 'v rb_world trilogy_conn \<Rightarrow> ruby_stop" where
  "error_exception vm errno rc msg c =
     (case rc of
        TRILOGY_SYSERR \<Rightarrow> trilogy_syserr_fail_str errno msg
      | TRILOGY_TIMEOUT \<Rightarrow> Raised ''TimeoutError'' '''' msg
      | TRILOGY_ERR \<Rightarrow> Made ''ProtocolError'' ''from_code''
          (error_message c @ ascii '' ('' @ msg @ ascii '')'') (uint (error_code c))
      | TRILOGY_OPENSSL_ERR \<Rightarrow>
          (case vm_ssl_error vm (rb_net (outside c)) of (lib, reason, text) \<Rightarrow>
             if lib = ERR_LIB_SYS then trilogy_syserr_fail_str reason msg
             else Raised ''SSLError'' '''' (msg @ ascii '': SSL Error: '' @ text))
      | TRILOGY_DNS_ERR \<Rightarrow> Raised ''BaseConnectionError'' '': TRILOGY_DNS_ERROR'' msg
      | TRILOGY_CLOSED_CONNECTION \<Rightarrow> Raised ''EOFError'' '': TRILOGY_CLOSED_CONNECTION'' msg
      | TRILOGY_AUTH_PLUGIN_ERROR \<Rightarrow> Raised ''AuthPluginError'' '': TRILOGY_AUTH_PLUGIN_ERROR'' msg
      | TRILOGY_UNSUPPORTED \<Rightarrow> Raised ''BaseConnectionError'' '': TRILOGY_UNSUPPORTED'' msg
      | _ \<Rightarrow> Raised ''QueryError'' ('': '' @ (case trilogy_error (rc_code rc) of Some name \<Rightarrow> name | None \<Rightarrow> '''')) msg)"

abbreviation clear_ssl_errors :: "('v, 'f) rb_vm \<Rightarrow> ('v rb_world trilogy_conn, unit) op" where
  "clear_ssl_errors vm \<equiv> put_state (\<lambda>c. c\<lparr>outside := (outside c)\<lparr>rb_net := vm_ssl_clear vm (rb_net (outside c))\<rparr>\<rparr>)"

definition handle_trilogy_error :: "('v, 'f) rb_vm \<Rightarrow> trilogy_rc \<Rightarrow> u8 list \<Rightarrow> ('v trilogy_ctx, 'a) ruby" where
  "handle_trilogy_error vm rc msg =
     ruby_then (run_void rb_trilogy_release_buffer) (\<lambda>_.
     ruby_then get_ctx (\<lambda>ctx.
     let errno_was = vm_errno vm (rb_net (outside (ctx_conn ctx)))
     in ruby_then (if \<not> trilogy_error_recoverable_p rc \<and> socket (ctx_conn ctx) \<noteq> None
                   then run_void trilogy_sock_shutdown else ruby_ret ()) (\<lambda>_.
        ruby_then get_ctx (\<lambda>ctx.
        ruby_then (if rc = TRILOGY_OPENSSL_ERR then run_void (clear_ssl_errors vm) else ruby_ret ()) (\<lambda>_.
        ruby_stop (error_exception vm errno_was rc msg (ctx_conn ctx)))))))"

text \<open>Call the client, and raise for a code.\<close>

definition expect_ok :: "('v, 'f) rb_vm \<Rightarrow> u8 list \<Rightarrow> ('v rb_world trilogy_conn, 'a) op \<Rightarrow> ('v trilogy_ctx, 'a) ruby" where
  "expect_ok vm msg m =
     ruby_then (run_c m) (\<lambda>r. case r of Inl rc \<Rightarrow> handle_trilogy_error vm rc msg | Inr x \<Rightarrow> ruby_ret x)"

section \<open>Waiting\<close>

text \<open>
  \<^verbatim>\<open>trilogy_flush_writes\<close> until it no longer reports \<^verbatim>\<open>TRILOGY_AGAIN\<close>. Unlike \<^verbatim>\<open>src/blocking.c\<close>, the
  extension tries before it waits.
\<close>

definition flush_writes :: "('w trilogy_conn, unit) op" where
  "flush_writes = until_done trilogy_flush_writes trilogy_sock_wait_write"

text \<open>
  A loop that tells the code of the wait (\<open>Inl\<close>) from the result of the function it repeats.
\<close>

definition outcome :: "('s, 'a) op \<Rightarrow> ('s, stop + 'a) op" where
  "outcome m = (\<lambda>s. case m s of (r, s') \<Rightarrow> if is_again r then (Inl (Rc TRILOGY_AGAIN), s') else (Inr r, s'))"

definition attempt :: "('s, 'a) op \<Rightarrow> ('s, unit) op \<Rightarrow> ('s, stop + 'a) op" where
  "attempt m wait = until_done (outcome m) wait"

text \<open>
  The socket of a Ruby client: the callbacks act on \<open>rb_net\<close>, and the wait is that of the interpreter
  until a shutdown has replaced it (\<open>down\<close>).
\<close>

definition ruby_timeout :: "trilogy_sockopt \<Rightarrow> trilogy_wait \<Rightarrow> timeval option" where
  "ruby_timeout opts wait =
     (let none = (\<lambda>t. tv_sec t = 0 \<and> tv_usec t = 0);
          timeout = (case wait of
              TRILOGY_WAIT_READ \<Rightarrow> opt_read_timeout opts
            | TRILOGY_WAIT_WRITE \<Rightarrow> opt_write_timeout opts
            | TRILOGY_WAIT_CONNECT \<Rightarrow> if none (opt_connect_timeout opts) then opt_write_timeout opts else opt_connect_timeout opts
            | TRILOGY_WAIT_HANDSHAKE \<Rightarrow> opt_connect_timeout opts)
      in if none timeout then None else Some timeout)"

definition ruby_wait_flag :: "trilogy_wait \<Rightarrow> rb_wait_flag" where
  "ruby_wait_flag wait = (if wait = TRILOGY_WAIT_READ \<or> wait = TRILOGY_WAIT_HANDSHAKE then RB_WAITFD_IN else RB_WAITFD_OUT)"

definition cb_ruby_wait :: "('v, 'f) rb_vm \<Rightarrow> 'v trilogy_sock \<Rightarrow> trilogy_wait \<Rightarrow> ('v rb_world, unit) op" where
  "cb_ruby_wait vm sock wait =
     checked (on_net (fd_cb sock)) (\<lambda>fd.
     checked get_state (\<lambda>w.
     checked (put_state (\<lambda>w. w\<lparr>rb_pool := fst (vm_others vm w), rb_encodings := snd (vm_others vm w)\<rparr>)) (\<lambda>_.
     case vm_wait vm fd (ruby_wait_flag wait) (ruby_timeout (sock_opts sock) wait) w of
       Inl e \<Rightarrow>
         checked (ignored (on_net (shutdown_cb sock))) (\<lambda>_.
         checked (put_state (\<lambda>w. w\<lparr>rb_pending := Some e\<rparr>)) (\<lambda>_. throw TRILOGY_SYSERR))
     | Inr rc \<Rightarrow>
         if rc < 0 then throw TRILOGY_SYSERR
         else if rc = 0 then throw TRILOGY_TIMEOUT
         else ret ())))"

definition ruby_socket :: "('v, 'f) rb_vm \<Rightarrow> ('v \<Rightarrow> bool) \<Rightarrow> 'v trilogy_sock \<Rightarrow> 'v rb_world trilogy_sock" where
  "ruby_socket vm down sock =
     \<lparr>connect_cb = on_net (connect_cb sock), read_cb = (\<lambda>n. on_net (read_cb sock n)),
      write_cb = (\<lambda>bs. on_net (write_cb sock bs)),
      wait_cb = (\<lambda>k w. if down (rb_net w) then on_net (wait_cb sock k) w else cb_ruby_wait vm sock k w),
      shutdown_cb = on_net (shutdown_cb sock), close_cb = on_net (close_cb sock), fd_cb = on_net (fd_cb sock),
      sock_opts = sock_opts sock\<rparr>"

end
