(* ===== verification/Ruby_Methods.thy ===== *)
theory Ruby_Methods
  imports Ruby_Client
begin

text \<open>
  The methods themselves, from \<^verbatim>\<open>allocate_trilogy\<close> on. Strings that the caller passes are their bytes.
\<close>

section \<open>Objects\<close>

definition TRILOGY_FLAGS_CAST :: u32 where "TRILOGY_FLAGS_CAST = 1"
definition TRILOGY_FLAGS_CAST_BOOLEANS :: u32 where "TRILOGY_FLAGS_CAST_BOOLEANS = 2"
definition TRILOGY_FLAGS_LOCAL_TIMEZONE :: u32 where "TRILOGY_FLAGS_LOCAL_TIMEZONE = 4"
definition TRILOGY_FLAGS_FLATTEN_ROWS :: u32 where "TRILOGY_FLAGS_FLATTEN_ROWS = 8"
definition TRILOGY_FLAGS_CAST_ALL_DECIMALS_TO_BIGDECIMALS :: u32 where
  "TRILOGY_FLAGS_CAST_ALL_DECIMALS_TO_BIGDECIMALS = 16"
definition TRILOGY_FLAGS_DEFAULT :: u32 where "TRILOGY_FLAGS_DEFAULT = TRILOGY_FLAGS_CAST"

text \<open>On memory that the interpreter has zeroed.\<close>

definition allocate_trilogy :: "('v trilogy_ctx, unit) ruby" where
  "allocate_trilogy =
     (\<lambda>ctx. run_void trilogy_init_no_buffer (ctx\<lparr>ctx_query_flags := TRILOGY_FLAGS_DEFAULT\<rparr>))"

text \<open>When the object is collected, before its memory is freed.\<close>

definition free_trilogy :: "('v trilogy_ctx, unit) ruby" where
  "free_trilogy = run_void trilogy_free"

section \<open>Connecting\<close>

text \<open>
  \<open>new\<close> and \<open>resolve\<close> are \<^verbatim>\<open>trilogy_sock_new\<close> and \<^verbatim>\<open>trilogy_sock_resolve\<close>. The wait while the socket
  connects is part of its \<open>connect_cb\<close>.
\<close>

abbreviation on_sock :: "('v, 'a) op \<Rightarrow> ('v rb_world trilogy_conn, 'a) op" where
  "on_sock m \<equiv> on_part outside (\<lambda>w c. c\<lparr>outside := w\<rparr>) (on_net m)"

definition or_close :: "'v trilogy_sock \<Rightarrow> ('v rb_world trilogy_conn, unit) op \<Rightarrow> ('v rb_world trilogy_conn, unit) op" where
  "or_close sock m = (\<lambda>c.
     case m c of
       (Inl (Rc rc), c') \<Rightarrow> checked (ignored (on_sock (close_cb sock))) (\<lambda>_. throw rc) c'
     | x \<Rightarrow> x)"

definition trilogy_sock_wait_handshake :: "('w trilogy_conn, unit) op" where
  "trilogy_sock_wait_handshake = with_socket (\<lambda>s. wait_cb s TRILOGY_WAIT_HANDSHAKE)"

definition try_connect ::
  "('v, 'f) rb_vm \<Rightarrow> allocator \<Rightarrow> trilogy_handshake \<Rightarrow> ('v \<Rightarrow> bool) \<Rightarrow> ('v, 'v trilogy_sock) op \<Rightarrow>
   ('v trilogy_sock \<Rightarrow> ('v, unit) op) \<Rightarrow> ('v rb_world trilogy_conn, trilogy_handshake) op" where
  "try_connect vm alloc unset down new resolve =
     checked (on_sock new) (\<lambda>sock.
     checked (or_close sock (on_sock (resolve sock))) (\<lambda>_.
     checked (or_close sock (trilogy_connect_send_socket (ruby_socket vm down sock))) (\<lambda>_.
     until_done (trilogy_connect_recv alloc unset) trilogy_sock_wait_handshake)))"

text \<open>
  The loop that waits for the verdict; the handshake is a local variable of the caller.
\<close>

definition auth_recv_loop ::
  "allocator \<Rightarrow> trilogy_auth_switch_request_packet \<Rightarrow> trilogy_handshake \<Rightarrow>
   ('w trilogy_conn, (stop + unit) \<times> trilogy_handshake) op" where
  "auth_recv_loop alloc local handshake = (\<lambda>c.
     case attempt (trilogy_auth_recv alloc local) (on_conn trilogy_sock_wait_read) (c, handshake) of
       (r, (c', handshake')) \<Rightarrow> (map_sum id (\<lambda>x. (x, handshake')) r, c'))"

definition run_auth_recv ::
  "allocator \<Rightarrow> trilogy_auth_switch_request_packet \<Rightarrow> trilogy_handshake \<Rightarrow>
   ('v trilogy_ctx, trilogy_rc + (trilogy_rc + unit) \<times> trilogy_handshake) ruby" where
  "run_auth_recv alloc local handshake =
     ruby_then (run_c (auth_recv_loop alloc local handshake)) (\<lambda>r.
     case r of
       Inl rc \<Rightarrow> ruby_ret (Inl rc)
     | Inr (Inr x, h) \<Rightarrow> ruby_ret (Inr (Inr x, h))
     | Inr (Inl (Rc rc), h) \<Rightarrow> ruby_ret (Inr (Inl rc, h))
     | Inr (Inl e, h) \<Rightarrow> ruby_stop (Crashed e))"

definition auth_switch ::
  "('v, 'f) rb_vm \<Rightarrow> (u8 list \<Rightarrow> u8 list) \<Rightarrow> (u8 list \<Rightarrow> u8 list) \<Rightarrow> allocator \<Rightarrow> trilogy_auth_switch_request_packet \<Rightarrow>
   trilogy_handshake \<Rightarrow> ('v trilogy_ctx, unit) ruby" where
  "auth_switch vm sha1 sha256 alloc local handshake =
     ruby_then (expect_ok vm (ascii ''trilogy_auth_switch_send'')
       (on_again (trilogy_auth_switch_send sha1 sha256 alloc handshake) flush_writes)) (\<lambda>_.
     ruby_then (run_auth_recv alloc local handshake) (\<lambda>r.
     case r of
       Inr (Inr x, _) \<Rightarrow> ruby_ret ()
     | Inr (Inl rc, _) \<Rightarrow> handle_trilogy_error vm rc (ascii ''trilogy_auth_recv'')
     | Inl rc \<Rightarrow> handle_trilogy_error vm rc (ascii ''trilogy_auth_recv'')))"

text \<open>\<open>upgrade\<close> is \<^verbatim>\<open>trilogy_sock_upgrade_ssl\<close> on the socket of the connection.\<close>

definition upgrade_if_wanted ::
  "('v, 'f) rb_vm \<Rightarrow> allocator \<Rightarrow> ('v rb_world trilogy_conn, unit) op \<Rightarrow> trilogy_ssl_mode \<Rightarrow> trilogy_handshake \<Rightarrow>
   ('v trilogy_ctx, unit) ruby" where
  "upgrade_if_wanted vm alloc upgrade ssl_mode handshake =
     (if ssl_mode \<noteq> TRILOGY_SSL_DISABLED then
        if has_capability (hs_capabilities handshake) TRILOGY_CAPABILITIES_SSL then
          ruby_then (expect_ok vm (ascii ''trilogy_ssl_request_send'')
            (on_again (trilogy_ssl_request_send alloc) flush_writes)) (\<lambda>_.
          expect_ok vm (ascii ''trilogy_ssl_upgrade'') upgrade)
        else if ssl_mode \<noteq> TRILOGY_SSL_PREFERRED_NOVERIFY
        then ruby_stop (Raised ''SSLError'' ''SSL required, not supported by server'' [])
        else ruby_ret ()
      else ruby_ret ())"

definition authenticate ::
  "('v, 'f) rb_vm \<Rightarrow> (u8 list \<Rightarrow> u8 list) \<Rightarrow> (u8 list \<Rightarrow> u8 list) \<Rightarrow> allocator \<Rightarrow> trilogy_auth_switch_request_packet \<Rightarrow>
   ('v rb_world trilogy_conn, unit) op \<Rightarrow> trilogy_ssl_mode \<Rightarrow> trilogy_handshake \<Rightarrow> ('v trilogy_ctx, unit) ruby" where
  "authenticate vm sha1 sha256 alloc local upgrade ssl_mode handshake =
     ruby_then (upgrade_if_wanted vm alloc upgrade ssl_mode handshake) (\<lambda>_.
     ruby_then (expect_ok vm (ascii ''trilogy_auth_send'')
       (on_again (trilogy_auth_send sha1 sha256 alloc handshake) flush_writes)) (\<lambda>_.
     ruby_then (run_auth_recv alloc local handshake) (\<lambda>r.
     case r of
       Inl rc \<Rightarrow> handle_trilogy_error vm rc (ascii ''trilogy_auth_recv'')
     | Inr (Inr x, _) \<Rightarrow> ruby_ret ()
     | Inr (Inl rc, handshake') \<Rightarrow>
         if rc = TRILOGY_AUTH_SWITCH then auth_switch vm sha1 sha256 alloc local handshake'
         else handle_trilogy_error vm rc
           (if rc = TRILOGY_UNSUPPORTED
            then ascii ''trilogy_auth_recv: caching_sha2_password requires either TCP with TLS or a unix socket''
            else ascii ''trilogy_auth_recv''))))"

text \<open>What \<^verbatim>\<open>rb_trilogy_connect\<close> does with the options it has read.\<close>

definition connect_message :: "trilogy_sockopt \<Rightarrow> u8 list" where
  "connect_message opts = ascii ''trilogy_connect - unable to connect to '' @
     (case opt_path opts of
        Some path \<Rightarrow> c_string path
      | None \<Rightarrow> (case opt_hostname opts of Some host \<Rightarrow> c_string host | None \<Rightarrow> []) @ ascii '':'' @ decimal (unat (opt_port opts)))"

definition rb_trilogy_connect ::
  "('v, 'f) rb_vm \<Rightarrow> (u8 list \<Rightarrow> u8 list) \<Rightarrow> (u8 list \<Rightarrow> u8 list) \<Rightarrow> allocator \<Rightarrow> trilogy_auth_switch_request_packet \<Rightarrow>
   trilogy_handshake \<Rightarrow> ('v \<Rightarrow> bool) \<Rightarrow> (trilogy_sockopt \<Rightarrow> ('v, 'v trilogy_sock) op) \<Rightarrow> ('v trilogy_sock \<Rightarrow> ('v, unit) op) \<Rightarrow>
   ('v rb_world trilogy_conn, unit) op \<Rightarrow> int \<Rightarrow> trilogy_sockopt \<Rightarrow> ('v trilogy_ctx, 'f ruby_value) ruby" where
  "rb_trilogy_connect vm sha1 sha256 alloc local unset down new resolve upgrade encoding connopt =
     ruby_then (\<lambda>ctx. (Inr (), ctx\<lparr>ctx_encoding := encoding\<rparr>)) (\<lambda>_.
     ruby_then (run_void (rb_trilogy_acquire_buffer vm)) (\<lambda>_.
     ruby_then (expect_ok vm (connect_message connopt) (try_connect vm alloc unset down (new connopt) resolve)) (\<lambda>handshake.
     ruby_then (\<lambda>ctx. (Inr (), ctx\<lparr>ctx_server_version := take server_version_size (hs_server_version handshake) @ [0]\<rparr>)) (\<lambda>_.
     ruby_then (authenticate vm sha1 sha256 alloc local upgrade (opt_ssl_mode connopt) handshake) (\<lambda>_.
     ruby_then (run_void rb_trilogy_release_buffer) (\<lambda>_.
     ruby_ret Qnil))))))"

section \<open>Commands that are answered by one packet\<close>

text \<open>The part that \<^verbatim>\<open>change_db\<close>, \<^verbatim>\<open>set_server_option\<close> and \<^verbatim>\<open>ping\<close> have in common.\<close>

definition rb_command ::
  "('v, 'f) rb_vm \<Rightarrow> ('v rb_world trilogy_conn, unit) op \<Rightarrow> string \<Rightarrow> ('v rb_world trilogy_conn, unit) op \<Rightarrow> string \<Rightarrow>
   ('v trilogy_ctx, 'f ruby_value) ruby" where
  "rb_command vm send send_msg recv recv_msg =
     ruby_then (run_void (rb_trilogy_acquire_buffer vm)) (\<lambda>_.
     ruby_then (expect_ok vm (ascii send_msg) (on_again send flush_writes)) (\<lambda>_.
     ruby_then (expect_ok vm (ascii recv_msg) (until_done recv trilogy_sock_wait_read)) (\<lambda>_.
     ruby_then (run_void rb_trilogy_release_buffer) (\<lambda>_.
     ruby_ret Qtrue))))"

definition rb_trilogy_change_db ::
  "('v, 'f) rb_vm \<Rightarrow> allocator \<Rightarrow> u8 list \<Rightarrow> ('v trilogy_ctx, 'f ruby_value) ruby" where
  "rb_trilogy_change_db vm alloc database =
     ruby_then get_open_ctx (\<lambda>_.
     rb_command vm (trilogy_change_db_send alloc database (word_of_nat (length database))) ''trilogy_change_db_send''
       (trilogy_change_db_recv alloc) ''trilogy_change_db_recv'')"

definition rb_trilogy_set_server_option ::
  "('v, 'f) rb_vm \<Rightarrow> allocator \<Rightarrow> u32 \<Rightarrow> ('v trilogy_ctx, 'f ruby_value) ruby" where
  "rb_trilogy_set_server_option vm alloc option =
     ruby_then get_open_ctx (\<lambda>_.
     rb_command vm (trilogy_set_option_send alloc (ucast option)) ''trilogy_set_option_send''
       (trilogy_set_option_recv alloc) ''trilogy_set_option_recv'')"

definition rb_trilogy_ping :: "('v, 'f) rb_vm \<Rightarrow> allocator \<Rightarrow> ('v trilogy_ctx, 'f ruby_value) ruby" where
  "rb_trilogy_ping vm alloc =
     ruby_then get_open_ctx (\<lambda>_.
     rb_command vm (trilogy_ping_send alloc) ''trilogy_ping_send'' (trilogy_ping_recv alloc) ''trilogy_ping_recv'')"

section \<open>Queries\<close>

definition load_query_options :: "u32 \<Rightarrow> rb_trilogy_cast_options" where
  "load_query_options query_flags =
     \<lparr>cast = (query_flags AND TRILOGY_FLAGS_CAST \<noteq> 0),
      cast_booleans = (query_flags AND TRILOGY_FLAGS_CAST_BOOLEANS \<noteq> 0),
      database_local_time = (query_flags AND TRILOGY_FLAGS_LOCAL_TIMEZONE \<noteq> 0),
      flatten_rows = (query_flags AND TRILOGY_FLAGS_FLATTEN_ROWS \<noteq> 0),
      cast_decimals_to_bigdecimals = (query_flags AND TRILOGY_FLAGS_CAST_ALL_DECIMALS_TO_BIGDECIMALS \<noteq> 0)\<rparr>"

datatype 'f rb_rows = Rows "'f ruby_value list list" | Flat "'f ruby_value list"

text \<open>A result; the time that the query took, a reading of a clock, is left out.\<close>

record 'f rb_result =
  res_fields :: "u8 list list"
  res_rows :: "'f rb_rows"
  res_last_insert_id :: "'f ruby_value"
  res_affected_rows :: "'f ruby_value"

text \<open>What \<^verbatim>\<open>read_query_error\<close> leaves to the caller: a code and the name of the function.\<close>

type_synonym query_error = "trilogy_rc \<times> u8 list"

definition query_recv_loop :: "allocator \<Rightarrow> ('w trilogy_conn, (stop + unit) \<times> u64) op" where
  "query_recv_loop alloc = (\<lambda>c.
     case attempt (trilogy_query_recv alloc) (on_conn trilogy_sock_wait_read) (c, 0) of
       (r, (c', count)) \<Rightarrow> (map_sum id (\<lambda>x. (x, count)) r, c'))"

text \<open>The interpreter makes an array, of \<open>n\<close> elements of \<open>width\<close> bytes, or raises.\<close>

definition rb_room :: "('v, 'f) rb_vm \<Rightarrow> nat \<Rightarrow> u64 \<Rightarrow> ('s, unit) ruby" where
  "rb_room vm width n = (case vm_room vm width n of Some e \<Rightarrow> ruby_stop e | None \<Rightarrow> ruby_ret ())"

definition column_info_of :: "trilogy_column_packet \<Rightarrow> column_info" where
  "column_info_of column = \<lparr>ci_type = col_type column, ci_charset = col_charset column, ci_len = col_len column,
     ci_flags = col_flags column, ci_decimals = col_decimals column\<rparr>"

primrec ruby_columns :: "allocator \<Rightarrow> nat \<Rightarrow> ('v trilogy_ctx, query_error + trilogy_column_packet list) ruby" where
  "ruby_columns alloc 0 = ruby_ret (Inr [])"
| "ruby_columns alloc (Suc n) =
     ruby_then (run_c (until_done (trilogy_read_column alloc) trilogy_sock_wait_read)) (\<lambda>r.
     case r of
       Inl rc \<Rightarrow> ruby_ret (Inl (rc, ascii ''trilogy_read_column''))
     | Inr column \<Rightarrow>
         ruby_then (ruby_columns alloc n) (\<lambda>rest. ruby_ret (map_sum id (\<lambda>columns. column # columns) rest)))"

definition on_cache :: "(int list, 'a) ruby \<Rightarrow> ('v trilogy_ctx, 'a) ruby" where
  "on_cache m = (\<lambda>ctx.
     case m (rb_encodings (outside (ctx_conn ctx))) of
       (r, cache) \<Rightarrow> (r, ctx\<lparr>ctx_conn := (ctx_conn ctx)\<lparr>outside := (outside (ctx_conn ctx))\<lparr>rb_encodings := cache\<rparr>\<rparr>\<rparr>))"

text \<open>A cast uses and fills the cache of the encodings; the method that makes the value may raise.\<close>

definition ruby_cast ::
  "('v, 'f) rb_vm \<Rightarrow> rb_trilogy_cast_options \<Rightarrow> trilogy_value \<Rightarrow> column_info \<Rightarrow> ('v trilogy_ctx, 'f ruby_value) ruby" where
  "ruby_cast vm options v column =
     ruby_then (on_cache (rb_trilogy_cast_value (vm_strtod vm) (vm_find_index vm) v column options)) (\<lambda>x.
     case vm_funcall vm x of Some e \<Rightarrow> ruby_stop e | None \<Rightarrow> ruby_ret x)"

text \<open>The values of a row, one per column; the array of values has at least as many elements.\<close>

fun cast_row ::
  "('v, 'f) rb_vm \<Rightarrow> rb_trilogy_cast_options \<Rightarrow> trilogy_value list \<Rightarrow> column_info list \<Rightarrow>
   ('v trilogy_ctx, 'f ruby_value list) ruby" where
  "cast_row vm options vs [] = ruby_ret []"
| "cast_row vm options [] (i # is) = ruby_stop (Crashed Fault)"
| "cast_row vm options (v # vs) (i # is) =
     ruby_then (ruby_cast vm options v i) (\<lambda>x.
     ruby_then (cast_row vm options vs is) (\<lambda>xs. ruby_ret (x # xs)))"

text \<open>One round of the loop over the rows: the values of a row, or \<open>None\<close> after the last.\<close>

definition read_row_round ::
  "allocator \<Rightarrow> trilogy_value list \<Rightarrow> ('v trilogy_ctx, query_error + trilogy_value list option) ruby" where
  "read_row_round alloc row_values =
     ruby_then (run_c (attempt (trilogy_read_row alloc row_values) trilogy_sock_wait_read)) (\<lambda>r.
     case r of
       Inl rc \<Rightarrow> ruby_ret (Inl (rc, ascii ''trilogy_read_row''))
     | Inr (Inr values) \<Rightarrow> ruby_ret (Inr (Some values))
     | Inr (Inl (Rc rc)) \<Rightarrow>
         if rc = TRILOGY_EOF then ruby_ret (Inr None) else ruby_ret (Inl (rc, ascii ''trilogy_read_row''))
     | Inr (Inl e) \<Rightarrow> ruby_stop (Crashed e))"

partial_function (option) rows_loop ::
  "('v, 'f) rb_vm \<Rightarrow> allocator \<Rightarrow> rb_trilogy_cast_options \<Rightarrow> column_info list \<Rightarrow> trilogy_value list \<Rightarrow>
   'f ruby_value list list \<Rightarrow> 'v trilogy_ctx \<Rightarrow>
   ((ruby_stop + (query_error + 'f ruby_value list list)) \<times> 'v trilogy_ctx) option" where
  "rows_loop vm alloc options infos row_values rows ctx =
     (case read_row_round alloc row_values ctx of (r, ctx1) \<Rightarrow>
        (case r of
           Inl e \<Rightarrow> Some (Inl e, ctx1)
         | Inr (Inl q) \<Rightarrow> Some (Inr (Inl q), ctx1)
         | Inr (Inr None) \<Rightarrow> Some (Inr (Inr rows), ctx1)
         | Inr (Inr (Some values)) \<Rightarrow>
             (case ruby_then (rb_room vm 8 (word_of_nat (length infos))) (\<lambda>_. cast_row vm options values infos) ctx1 of
                (x, ctx2) \<Rightarrow>
                  (case x of
                     Inl e \<Rightarrow> Some (Inl e, ctx2)
                   | Inr row \<Rightarrow> rows_loop vm alloc options infos values (rows @ [row]) ctx2))))"

definition ruby_rows ::
  "('v, 'f) rb_vm \<Rightarrow> allocator \<Rightarrow> rb_trilogy_cast_options \<Rightarrow> column_info list \<Rightarrow> trilogy_value list \<Rightarrow>
   ('v trilogy_ctx, query_error + 'f ruby_value list list) ruby" where
  "ruby_rows vm alloc options infos row_values = (\<lambda>ctx.
     case rows_loop vm alloc options infos row_values [] ctx of
       None \<Rightarrow> (Inl (Crashed Hang), ctx)
     | Some x \<Rightarrow> x)"

text \<open>Rows that are flattened are pushed value by value to the one array.\<close>

definition read_table ::
  "('v, 'f) rb_vm \<Rightarrow> allocator \<Rightarrow> rb_trilogy_cast_options \<Rightarrow> u64 \<Rightarrow> ('v trilogy_ctx, query_error + 'f rb_result) ruby" where
  "read_table vm alloc options count =
     ruby_then (rb_room vm 16 count) (\<lambda>_.
     ruby_then (ruby_columns alloc (unat count)) (\<lambda>r.
     case r of
       Inl q \<Rightarrow> ruby_ret (Inl q)
     | Inr columns \<Rightarrow>
         ruby_then (rb_room vm 24 count) (\<lambda>_.
         ruby_then (ruby_rows vm alloc options (map column_info_of columns) (vm_values vm count)) (\<lambda>r.
         ruby_ret (map_sum id (\<lambda>rows.
           \<lparr>res_fields = map col_name columns,
            res_rows = (if flatten_rows options then Flat (concat rows) else Rows rows),
            res_last_insert_id = Qnil, res_affected_rows = Qnil\<rparr>) r)))))"

definition read_query_response ::
  "('v, 'f) rb_vm \<Rightarrow> allocator \<Rightarrow> rb_trilogy_cast_options \<Rightarrow> ('v trilogy_ctx, query_error + 'f rb_result) ruby" where
  "read_query_response vm alloc options =
     ruby_then (run_c (query_recv_loop alloc)) (\<lambda>r.
     case r of
       Inl rc \<Rightarrow> handle_trilogy_error vm rc (ascii ''trilogy_query_recv'')
     | Inr (Inl (Rc rc), count) \<Rightarrow>
         if rc = TRILOGY_HAVE_RESULTS
         then ruby_then (rb_room vm 8 count) (\<lambda>_. read_table vm alloc options count)
         else ruby_ret (Inl (rc, ascii ''trilogy_query_recv''))
     | Inr (Inl e, _) \<Rightarrow> ruby_stop (Crashed e)
     | Inr (Inr x, count) \<Rightarrow>
         ruby_then (rb_room vm 8 count) (\<lambda>_.
         ruby_then get_ctx (\<lambda>ctx.
         ruby_ret (Inr \<lparr>res_fields = [], res_rows = Rows [],
           res_last_insert_id = Integer_value (uint (last_insert_id (ctx_conn ctx))),
           res_affected_rows = Integer_value (uint (affected_rows (ctx_conn ctx)))\<rparr>))))"

text \<open>\<open>rb_protect m h\<close>: an exception of \<open>m\<close> is caught, \<open>h\<close> is run, and it is raised again.\<close>

definition rb_protect :: "('s, 'a) ruby \<Rightarrow> ('s, unit) ruby \<Rightarrow> ('s, 'a) ruby" where
  "rb_protect m h = (\<lambda>s.
     case m s of
       (Inl (Crashed e), s') \<Rightarrow> (Inl (Crashed e), s')
     | (Inl e, s') \<Rightarrow> ruby_then h (\<lambda>_. ruby_stop e) s'
     | (Inr x, s') \<Rightarrow> (Inr x, s'))"

definition more_results :: "'w trilogy_conn \<Rightarrow> bool" where
  "more_results c \<longleftrightarrow> server_status c AND server_status_flag TRILOGY_SERVER_STATUS_MORE_RESULTS_EXISTS \<noteq> 0"

definition execute_read_query_response ::
  "('v, 'f) rb_vm \<Rightarrow> allocator \<Rightarrow> ('v trilogy_ctx, 'f rb_result) ruby" where
  "execute_read_query_response vm alloc =
     ruby_then get_ctx (\<lambda>ctx.
     ruby_then (rb_protect (read_query_response vm alloc (load_query_options (ctx_query_flags ctx)))
       (run_void trilogy_sock_shutdown)) (\<lambda>r.
     case r of
       Inl (rc, msg) \<Rightarrow> handle_trilogy_error vm rc msg
     | Inr result \<Rightarrow>
         ruby_then get_ctx (\<lambda>ctx.
         ruby_then (if \<not> more_results (ctx_conn ctx) then run_void rb_trilogy_release_buffer else ruby_ret ()) (\<lambda>_.
         ruby_ret result))))"

text \<open>\<open>None\<close> is \<^verbatim>\<open>nil\<close>.\<close>

definition rb_trilogy_next_result :: "('v, 'f) rb_vm \<Rightarrow> allocator \<Rightarrow> ('v trilogy_ctx, 'f rb_result option) ruby" where
  "rb_trilogy_next_result vm alloc =
     ruby_then get_open_ctx (\<lambda>ctx.
     if \<not> more_results (ctx_conn ctx) then ruby_ret None
     else ruby_then (execute_read_query_response vm alloc) (\<lambda>result. ruby_ret (Some result)))"

definition rb_trilogy_more_results_exist :: "('v trilogy_ctx, bool) ruby" where
  "rb_trilogy_more_results_exist = ruby_then get_open_ctx (\<lambda>ctx. ruby_ret (more_results (ctx_conn ctx)))"

definition rb_trilogy_query :: "('v, 'f) rb_vm \<Rightarrow> allocator \<Rightarrow> u8 list \<Rightarrow> ('v trilogy_ctx, 'f rb_result) ruby" where
  "rb_trilogy_query vm alloc query =
     ruby_then get_open_ctx (\<lambda>ctx.
     case vm_export vm (ctx_encoding ctx) query of
       Inl e \<Rightarrow> ruby_stop e
     | Inr query \<Rightarrow>
         ruby_then (run_void (rb_trilogy_acquire_buffer vm)) (\<lambda>_.
         ruby_then (expect_ok vm (ascii ''trilogy_query_send'')
           (on_again (trilogy_query_send alloc query (word_of_nat (length query))) flush_writes)) (\<lambda>_.
         execute_read_query_response vm alloc)))"

section \<open>Escaping, closing, and what is read of the state\<close>

definition rb_trilogy_escape :: "('v, 'f) rb_vm \<Rightarrow> allocator \<Rightarrow> int \<Rightarrow> u8 list \<Rightarrow> ('v trilogy_ctx, 'f ruby_value) ruby" where
  "rb_trilogy_escape vm alloc str_enc str =
     ruby_then get_open_ctx (\<lambda>_.
     if \<not> vm_asciicompat vm str_enc
     then ruby_stop (Raised ''EncCompatError'' ''input string must be ASCII-compatible'' [])
     else
       ruby_then (run_void (rb_trilogy_acquire_buffer vm)) (\<lambda>_.
       ruby_then (expect_ok vm (ascii ''trilogy_escape'') (trilogy_escape alloc str (word_of_nat (length str)))) (\<lambda>escaped.
       ruby_then (run_void rb_trilogy_release_buffer) (\<lambda>_.
       ruby_ret (String_value escaped (Some str_enc))))))"

definition rb_trilogy_close :: "('v, 'f) rb_vm \<Rightarrow> allocator \<Rightarrow> ('v trilogy_ctx, 'f ruby_value) ruby" where
  "rb_trilogy_close vm alloc =
     ruby_then get_ctx (\<lambda>ctx.
     if socket (ctx_conn ctx) = None then ruby_ret Qnil
     else
       ruby_then (run_void (rb_trilogy_acquire_buffer vm)) (\<lambda>_.
       ruby_then (run_c (on_again (trilogy_close_send alloc) flush_writes)) (\<lambda>r.
       ruby_then (case r of
           Inl rc \<Rightarrow> ruby_ret ()
         | Inr x \<Rightarrow> run_void (until_done (trilogy_close_recv alloc) trilogy_sock_wait_read)) (\<lambda>_.
       ruby_then (run_void (clear_ssl_errors vm)) (\<lambda>_.
       ruby_then (run_void rb_trilogy_release_buffer) (\<lambda>_.
       ruby_then (run_void trilogy_free) (\<lambda>_.
       ruby_ret Qnil)))))))"

definition rb_trilogy_closed :: "('v trilogy_ctx, bool) ruby" where
  "rb_trilogy_closed = ruby_then get_ctx (\<lambda>ctx. ruby_ret (socket (ctx_conn ctx) = None))"

text \<open>\<open>check\<close> is \<^verbatim>\<open>trilogy_sock_check\<close>, which looks at the descriptor itself.\<close>

definition rb_trilogy_check ::
  "('v, 'f) rb_vm \<Rightarrow> ('v, unit) op \<Rightarrow> ('v trilogy_ctx, 'f ruby_value) ruby" where
  "rb_trilogy_check vm check =
     ruby_then get_open_ctx (\<lambda>_.
     ruby_then (run_c (on_sock check)) (\<lambda>r.
     case r of
       Inl rc \<Rightarrow> if rc \<noteq> TRILOGY_AGAIN then handle_trilogy_error vm rc (ascii ''trilogy_sock_check'') else ruby_ret Qtrue
     | Inr x \<Rightarrow> ruby_ret Qtrue))"

definition rb_trilogy_discard :: "('v, 'f) rb_vm \<Rightarrow> ('v trilogy_ctx, 'f ruby_value) ruby" where
  "rb_trilogy_discard vm =
     ruby_then get_ctx (\<lambda>ctx.
     if socket (ctx_conn ctx) = None then ruby_ret Qtrue
     else
       ruby_then (run_c trilogy_discard) (\<lambda>r.
       case r of
         Inr x \<Rightarrow> ruby_ret Qtrue
       | Inl rc \<Rightarrow>
           if rc = TRILOGY_SYSERR
           then ruby_then get_ctx (\<lambda>ctx. ruby_stop
             (trilogy_syserr_fail_str (vm_errno vm (rb_net (outside (ctx_conn ctx)))) (ascii ''Failed to discard connection'')))
           else ruby_ret Qfalse))"

definition rb_trilogy_last_insert_id :: "('v trilogy_ctx, 'f ruby_value) ruby" where
  "rb_trilogy_last_insert_id = ruby_then get_open_ctx (\<lambda>ctx. ruby_ret (Integer_value (uint (last_insert_id (ctx_conn ctx)))))"

definition rb_trilogy_affected_rows :: "('v trilogy_ctx, 'f ruby_value) ruby" where
  "rb_trilogy_affected_rows = ruby_then get_open_ctx (\<lambda>ctx. ruby_ret (Integer_value (uint (affected_rows (ctx_conn ctx)))))"

definition rb_trilogy_warning_count :: "('v trilogy_ctx, 'f ruby_value) ruby" where
  "rb_trilogy_warning_count = ruby_then get_open_ctx (\<lambda>ctx. ruby_ret (Integer_value (uint (warning_count (ctx_conn ctx)))))"

definition rb_trilogy_last_gtid :: "int option \<Rightarrow> ('v trilogy_ctx, 'f ruby_value) ruby" where
  "rb_trilogy_last_gtid binary =
     ruby_then get_open_ctx (\<lambda>ctx.
     let len = last_gtid_len (ctx_conn ctx); gtid = last_gtid (ctx_conn ctx)
     in if len > 0 then
          if unat len \<le> length gtid then ruby_ret (String_value (take (unat len) gtid) binary)
          else ruby_stop (Crashed Fault)
        else ruby_ret Qnil)"

definition rb_trilogy_query_flags :: "('v trilogy_ctx, 'f ruby_value) ruby" where
  "rb_trilogy_query_flags = ruby_then get_ctx (\<lambda>ctx. ruby_ret (Integer_value (uint (ctx_query_flags ctx))))"

definition rb_trilogy_query_flags_set :: "u32 \<Rightarrow> ('v trilogy_ctx, u32) ruby" where
  "rb_trilogy_query_flags_set query_flags = (\<lambda>ctx. (Inr query_flags, ctx\<lparr>ctx_query_flags := query_flags\<rparr>))"

definition rb_trilogy_server_status :: "('v trilogy_ctx, 'f ruby_value) ruby" where
  "rb_trilogy_server_status = ruby_then get_open_ctx (\<lambda>ctx. ruby_ret (Integer_value (uint (server_status (ctx_conn ctx)))))"

definition rb_trilogy_server_version :: "int option \<Rightarrow> ('v trilogy_ctx, 'f ruby_value) ruby" where
  "rb_trilogy_server_version binary =
     ruby_then get_open_ctx (\<lambda>ctx. ruby_ret (String_value (c_string (ctx_server_version ctx)) binary))"

end
