(* ===== verification/Ruby_Safety.thy ===== *)
theory Ruby_Safety
  imports Ruby_Methods Tls
begin

text \<open>
  How the methods of the Ruby extension end. An exception either is the server's own error, after which both
  sides are in step and the buffer is back in the pool, or it has shut the connection down.
\<close>

section \<open>Sequences\<close>

lemma ruby_then_apply:
  "ruby_then m k s = (case m s of (r, t) \<Rightarrow> (case r of Inl e \<Rightarrow> (Inl e, t) | Inr x \<Rightarrow> k x t))"
  by (simp add: ruby_then_def)

lemma ruby_then_cases:
  assumes "ruby_then m k s = (r, t)"
  obtains (stopped) e where "m s = (Inl e, t)" "r = Inl e"
    | (went_on) x u where "m s = (Inr x, u)" "k x u = (r, t)"
  using assms by (auto simp: ruby_then_apply split: prod.splits sum.splits)

lemma ruby_apply [simp]: "ruby_ret x s = (Inr x, s)" "ruby_stop e s = (Inl e, s)" "get_ctx ctx = (Inr ctx, ctx)"
  by (simp_all add: ruby_ret_def ruby_stop_def get_ctx_def)

section \<open>Sockets that an exception closes\<close>

text \<open>An exception is pending only when the socket is down.\<close>

definition guarded :: "('v \<Rightarrow> bool) \<Rightarrow> 'v rb_world \<Rightarrow> bool" where
  "guarded down w \<longleftrightarrow> rb_pending w = None \<or> down (rb_net w)"

definition keeps_guard :: "('v \<Rightarrow> bool) \<Rightarrow> ('v rb_world, 'a) op \<Rightarrow> bool" where
  "keeps_guard down f \<longleftrightarrow> (\<forall>w r w'. f w = (r, w') \<and> guarded down w \<longrightarrow> guarded down w')"

definition attached_to :: "'v rb_world trilogy_sock \<Rightarrow> ('v \<Rightarrow> bool) \<Rightarrow> 'v rb_world trilogy_conn \<Rightarrow> bool" where
  "attached_to sock down c \<longleftrightarrow> socket c = Some sock \<and> guarded down (outside c)"

text \<open>Between two calls of methods nothing is pending.\<close>

definition in_order :: "'v rb_world trilogy_sock \<Rightarrow> ('v \<Rightarrow> bool) \<Rightarrow> 'v trilogy_ctx \<Rightarrow> bool" where
  "in_order sock down ctx \<longleftrightarrow> attached_to sock down (ctx_conn ctx) \<and> rb_pending (outside (ctx_conn ctx)) = None"

definition is_down :: "('v \<Rightarrow> bool) \<Rightarrow> 'v trilogy_ctx \<Rightarrow> bool" where
  "is_down down ctx \<longleftrightarrow> down (rb_net (outside (ctx_conn ctx)))"

definition released :: "'v trilogy_ctx \<Rightarrow> bool" where
  "released ctx \<longleftrightarrow> buf_mem (packet_buffer (ctx_conn ctx)) = None"

text \<open>The exceptions that leave the connection open: the error of the server, and a packet that is too large to send.\<close>

definition own_error :: "ruby_stop \<Rightarrow> bool" where
  "own_error e \<longleftrightarrow> (\<exists>msg n. e = Made ''ProtocolError'' ''from_code'' msg n)
     \<or> (\<exists>msg. e = Raised ''QueryError'' '': TRILOGY_MAX_PACKET_EXCEEDED'' msg)"

definition stops_well :: "('v \<Rightarrow> bool) \<Rightarrow> ruby_stop \<Rightarrow> 'v trilogy_ctx \<Rightarrow> bool" where
  "stops_well down e ctx \<longleftrightarrow> (\<exists>x. e = Crashed x) \<or> is_down down ctx \<or> own_error e \<and> released ctx"

text \<open>The interpreter does not bring a socket back that is down.\<close>

definition spares :: "('v \<Rightarrow> bool) \<Rightarrow> ('v, 'f) rb_vm \<Rightarrow> bool" where
  "spares down vm \<longleftrightarrow> (\<forall>v. down (vm_ssl_clear vm v) \<longleftrightarrow> down v)"

locale closing_socket =
  fixes sock :: "'v rb_world trilogy_sock" and down :: "'v \<Rightarrow> bool"
  assumes read_guard: "keeps_guard down (read_cb sock n)"
    and write_guard: "keeps_guard down (write_cb sock bs)"
    and wait_guard: "keeps_guard down (wait_cb sock k)"
    and shutdown_guard: "keeps_guard down (shutdown_cb sock)"
    and shutdown_down: "shutdown_cb sock w = (r, w') \<Longrightarrow> r \<noteq> Inl Fault \<Longrightarrow> r \<noteq> Inl Hang \<Longrightarrow> down (rb_net w')"
begin

abbreviation attached :: "'v rb_world trilogy_conn \<Rightarrow> bool" where "attached \<equiv> attached_to sock down"
abbreviation fine :: "'v trilogy_ctx \<Rightarrow> bool" where "fine \<equiv> in_order sock down"
abbreviation closed :: "'v trilogy_ctx \<Rightarrow> bool" where "closed \<equiv> is_down down"
abbreviation proper_stop :: "ruby_stop \<Rightarrow> 'v trilogy_ctx \<Rightarrow> bool" where "proper_stop \<equiv> stops_well down"

text \<open>The state of an operation has the connection as its part \<open>p\<close>.\<close>

definition tame :: "('s \<Rightarrow> 'v rb_world trilogy_conn) \<Rightarrow> ('s, 'a) op \<Rightarrow> bool" where
  "tame p m \<longleftrightarrow> (\<forall>s. attached (p s) \<longrightarrow> attached (p (snd (m s))))"

abbreviation tame_conn :: "('v rb_world trilogy_conn, 'a) op \<Rightarrow> bool" where
  "tame_conn \<equiv> tame (\<lambda>c. c)"

lemma tameD: "tame p m \<Longrightarrow> m s = (r, t) \<Longrightarrow> attached (p s) \<Longrightarrow> attached (p t)"
  unfolding tame_def by (metis snd_conv)

lemma tameI: "(\<And>s r t. m s = (r, t) \<Longrightarrow> attached (p s) \<Longrightarrow> attached (p t)) \<Longrightarrow> tame p m"
  unfolding tame_def by (metis prod.collapse)

lemma tame_basic: "tame p (ret x)" "tame p (halt e)" "tame p get_state"
  by (simp_all add: tame_def)

lemma tame_checked: "tame p m \<Longrightarrow> (\<And>x. tame p (k x)) \<Longrightarrow> tame p (checked m k)"
proof (rule tameI)
  fix s r t assume m: "tame p m" and k: "\<And>x. tame p (k x)" and run: "checked m k s = (r, t)" and s: "attached (p s)"
  obtain x u where u: "m s = (x, u)" by fastforce
  with run tameD [OF m u s] tameD [OF k] show "attached (p t)" by (cases x) (auto simp: checked_apply)
qed

lemma tame_get: "(\<And>s. tame p (k s)) \<Longrightarrow> tame p (checked get_state k)"
  by (simp add: tame_def)

lemma tame_cases:
  "tame p m \<Longrightarrow> tame p m' \<Longrightarrow> tame p (if b then m else m')"
  "tame p m \<Longrightarrow> (\<And>y. tame p (k y)) \<Longrightarrow> tame p (case x of None \<Rightarrow> m | Some y \<Rightarrow> k y)"
  by (simp_all split: option.splits)

lemma tame_put: "(\<And>c. socket (f c) = socket c \<and> outside (f c) = outside c) \<Longrightarrow> tame_conn (put_state f)"
  by (simp add: tame_def attached_to_def)

lemma tame_on_parser: "tame_conn (on_part (\<lambda>c. (packet_parser c, packet_buffer c))
    (\<lambda>x c. c\<lparr>packet_parser := fst x, packet_buffer := snd x\<rparr>) m)"
  by (simp add: tame_def attached_to_def on_part_def split_def)

lemma tame_on_buffer: "tame_conn (on_packet_buffer m)"
  by (simp add: tame_def attached_to_def on_part_def split_def)

lemma tame_builder: "tame_conn (with_builder b m)"
  by (simp add: tame_def attached_to_def with_builder_def split_def)

lemma tame_socket_opts: "tame_conn socket_opts"
  by (simp add: tame_def socket_opts_def split: option.splits)

lemma tame_with_socket: "keeps_guard down (f sock) \<Longrightarrow> tame_conn (with_socket f)"
proof (rule tameI)
  fix c r d assume "keeps_guard down (f sock)" "with_socket f c = (r, d)" "attached c"
  then show "attached d" by (auto simp: attached_to_def with_socket_def keeps_guard_def split: prod.splits)
qed

lemma tame_ignored: "tame p m \<Longrightarrow> tame p (ignored m)"
proof (rule tameI)
  fix s r t assume m: "tame p m" and run: "ignored m s = (r, t)" and s: "attached (p s)"
  obtain x u where u: "m s = (x, u)" by fastforce
  then have "t = u" using run by (auto simp: ignored_def split: sum.splits stop.splits)
  with tameD [OF m u s] show "attached (p t)" by simp
qed

lemma tame_sock:
  "tame_conn (trilogy_sock_read n)" "tame_conn (trilogy_sock_write bs)" "tame_conn trilogy_sock_wait_read"
  "tame_conn trilogy_sock_wait_write" "tame_conn trilogy_sock_shutdown"
  unfolding trilogy_sock_read_def trilogy_sock_write_def trilogy_sock_wait_read_def trilogy_sock_wait_write_def
    trilogy_sock_shutdown_def
  by (intro tame_checked tame_cases tame_basic tame_with_socket read_guard write_guard wait_guard shutdown_guard)+

lemma tame_until_done: "tame p m \<Longrightarrow> tame p wait \<Longrightarrow> tame p (until_done m wait)"
proof (rule tameI)
  fix s r t assume m: "tame p m" and wait: "tame p wait" and run: "until_done m wait s = (r, t)" and s: "attached (p s)"
  show "attached (p t)"
    by (rule until_done_rule [where I = "\<lambda>s. attached (p s)" and Q = "\<lambda>_ s. attached (p s)", OF run s])
      (blast intro: tameD [OF m] tameD [OF wait])+
qed

lemma tame_outcome: "tame p m \<Longrightarrow> tame p (outcome m)"
  by (simp add: tame_def outcome_def split_def)

lemma tame_attempt: "tame p m \<Longrightarrow> tame p wait \<Longrightarrow> tame p (attempt m wait)"
  unfolding attempt_def by (intro tame_until_done tame_outcome)

lemma tame_on_again: "tame p m \<Longrightarrow> tame p k \<Longrightarrow> tame p (on_again m k)"
  by (simp add: tame_def on_again_def split_def)

lemma tame_packet: "tame_conn current_packet_type" "tame_conn (parse_packet f)"
  by (simp_all add: tame_def current_packet_type_def parse_packet_def split: option.splits list.splits)

lemma tame_accepting: "tame p m \<Longrightarrow> tame p (accepting e m)"
  by (simp add: tame_def accepting_def split_def)

lemma tame_on_conn: "tame_conn m \<Longrightarrow> tame fst (on_conn m)"
  by (simp add: tame_def on_part_def split_def)

lemma tame_put_out: "tame fst (put_out x)"
  by (simp add: tame_def put_out_def split_def)

lemmas tame_intros = tame_get tame_checked tame_basic tame_cases tame_on_parser tame_on_buffer tame_builder
  tame_socket_opts tame_sock tame_on_again tame_packet tame_accepting tame_ignored tame_until_done
  tame_attempt tame_on_conn tame_put_out

text \<open>The functions of the client.\<close>

lemma tame_read_packet: "tame_conn (read_packet alloc)"
proof -
  have "tame_conn (return_code n)" for n by (simp add: return_code_def tame_basic split: option.splits)
  then show ?thesis
    unfolding read_packet_def receive_def parse_received_def Let_def split_def
    by (intro tame_intros tame_put) simp_all
qed

lemma tame_flush: "tame_conn trilogy_flush_writes"
  unfolding trilogy_flush_writes_def Let_def by (intro tame_intros tame_put) simp

lemma tame_writes: "tame_conn begin_write" "tame_conn flush_writes"
  unfolding begin_write_def flush_writes_def by (intro tame_intros tame_put tame_flush; simp)+

lemma tame_begin: "tame_conn (begin_command_phase alloc seq)"
  unfolding begin_command_phase_def by (intro tame_intros tame_put) simp_all

lemma tame_err: "tame_conn read_err_packet"
  unfolding read_err_packet_def by (intro tame_intros tame_put) (simp add: set_error_def)

lemma tame_ok: "tame_conn read_ok_packet"
  unfolding read_ok_packet_def by (intro tame_intros tame_put) simp_all

lemma tame_eof: "tame_conn read_eof_packet"
  unfolding read_eof_packet_def read_deprecated_eof_packet_def by (intro tame_intros tame_ok tame_put) simp_all

lemma tame_sends:
  "tame_conn (trilogy_change_db_send alloc name len)" "tame_conn (trilogy_set_option_send alloc option)" "tame_conn (trilogy_ping_send alloc)"
  "tame_conn (trilogy_query_send alloc query len)"
  unfolding trilogy_change_db_send_def trilogy_set_option_send_def trilogy_ping_send_def trilogy_query_send_def
  by (intro tame_intros tame_begin tame_writes tame_put; simp)+

lemma tame_recvs:
  "tame_conn (trilogy_change_db_recv alloc)" "tame_conn (trilogy_set_option_recv alloc)" "tame_conn (trilogy_ping_recv alloc)"
  unfolding trilogy_change_db_recv_def trilogy_set_option_recv_def trilogy_ping_recv_def read_generic_response_def
    handle_generic_response_def
  by (intro tame_intros tame_read_packet tame_ok tame_err)+

lemma tame_column: "tame_conn (trilogy_read_column alloc)"
  unfolding trilogy_read_column_def by (intro tame_intros tame_read_packet)

lemma tame_row: "tame_conn (trilogy_read_row alloc vs)"
  unfolding trilogy_read_row_def row_response_def read_eof_def
  by (intro tame_intros tame_read_packet tame_eof tame_err tame_put) simp_all

lemma tame_escape: "tame_conn (trilogy_escape alloc str len)"
  unfolding trilogy_escape_def by (intro tame_intros)

lemma tame_query_recv: "tame_conn (query_recv_loop alloc)"
proof -
  have "tame fst (attempt (trilogy_query_recv alloc) (on_conn trilogy_sock_wait_read))"
    unfolding trilogy_query_recv_def query_response_def
    by (intro tame_intros tame_read_packet tame_ok tame_err tame_put) simp
  then show ?thesis by (simp add: query_recv_loop_def tame_def split_def)
qed

lemma tame_buffers: "tame_conn (rb_trilogy_acquire_buffer vm)" "tame_conn rb_trilogy_release_buffer"
proof -
  have pool: "tame_conn (on_pool m)" for m :: "(u8 list buffer_pool, 'b) op"
    by (simp add: tame_def attached_to_def guarded_def on_part_def split_def)
  show "tame_conn (rb_trilogy_acquire_buffer vm)"
    unfolding rb_trilogy_acquire_buffer_def Let_def by (intro tame_intros tame_put pool) simp
  show "tame_conn rb_trilogy_release_buffer"
    unfolding rb_trilogy_release_buffer_def by (intro tame_intros tame_put pool) simp
qed

section \<open>How a method ends\<close>

definition keeps_fine :: "('v trilogy_ctx, 'a) ruby \<Rightarrow> bool" where
  "keeps_fine m \<longleftrightarrow> (\<forall>ctx. fine ctx \<longrightarrow> fine (snd (m ctx)))"

lemma keeps_fineD: "keeps_fine m \<Longrightarrow> m ctx = (r, ctx') \<Longrightarrow> fine ctx \<Longrightarrow> fine ctx'"
  unfolding keeps_fine_def by (metis snd_conv)

lemma keeps_fineI: "(\<And>ctx r ctx'. m ctx = (r, ctx') \<Longrightarrow> fine ctx \<Longrightarrow> fine ctx') \<Longrightarrow> keeps_fine m"
  unfolding keeps_fine_def by (metis prod.collapse)

lemma run_c_ends:
  assumes m: "tame_conn m" and ctx: "fine ctx" and run: "run_c m ctx = (r, ctx')"
  shows "fine ctx' \<and> (\<forall>e. r = Inl e \<longrightarrow> (\<exists>x. e = Crashed x) \<or> closed ctx')"
proof -
  obtain x c where c: "m (ctx_conn ctx) = (x, c)" by fastforce
  have "attached c" using tameD [OF m c] ctx by (simp add: in_order_def)
  then show ?thesis
    using run c by (cases "rb_pending (outside c)") (auto simp: run_c_def in_order_def is_down_def attached_to_def guarded_def
        split: sum.splits stop.splits)
qed

lemma keeps_fine_basic: "keeps_fine (ruby_ret x)" "keeps_fine (ruby_stop e)" "keeps_fine get_ctx" "keeps_fine (Pair r)"
  by (simp_all add: keeps_fine_def)

lemma keeps_fine_then: "keeps_fine m \<Longrightarrow> (\<And>x. keeps_fine (k x)) \<Longrightarrow> keeps_fine (ruby_then m k)"
proof (rule keeps_fineI)
  fix ctx r ctx'
  assume m: "keeps_fine m" and k: "\<And>x. keeps_fine (k x)" and run: "ruby_then m k ctx = (r, ctx')" and ctx: "fine ctx"
  from run show "fine ctx'"
    by (cases rule: ruby_then_cases) (use keeps_fineD [OF m] keeps_fineD [OF k] ctx in blast)+
qed

lemma keeps_fine_run: "tame_conn m \<Longrightarrow> keeps_fine (run_c m)" "tame_conn m \<Longrightarrow> keeps_fine (run_void m)"
proof -
  show c: "keeps_fine (run_c m)" if "tame_conn m" for m :: "('v rb_world trilogy_conn, 'b) op"
    by (rule keeps_fineI) (use run_c_ends [OF that] in blast)
  show "keeps_fine (run_void m)" if "tame_conn m" unfolding run_void_def by (intro keeps_fine_then c keeps_fine_basic that)
qed

lemma keeps_fine_cases:
  "keeps_fine m \<Longrightarrow> keeps_fine m' \<Longrightarrow> keeps_fine (if b then m else m')"
  "(\<And>e. keeps_fine (h e)) \<Longrightarrow> (\<And>y. keeps_fine (k y)) \<Longrightarrow> keeps_fine (case r of Inl e \<Rightarrow> h e | Inr y \<Rightarrow> k y)"
  "keeps_fine m \<Longrightarrow> (\<And>y. keeps_fine (l y)) \<Longrightarrow> keeps_fine (case x of None \<Rightarrow> m | Some y \<Rightarrow> l y)"
  "(\<And>a b. keeps_fine (g a b)) \<Longrightarrow> keeps_fine (case p of (a, b) \<Rightarrow> g a b)"
  "(\<And>rc. keeps_fine (f rc)) \<Longrightarrow> keeps_fine m \<Longrightarrow> keeps_fine m' \<Longrightarrow>
    keeps_fine (case s of Rc rc \<Rightarrow> f rc | Fault \<Rightarrow> m | Hang \<Rightarrow> m')"
  by (simp_all split: sum.splits option.splits prod.splits stop.splits)

lemma tame_clear: "spares down vm \<Longrightarrow> tame_conn (clear_ssl_errors vm)"
  by (simp add: spares_def tame_def attached_to_def guarded_def)

lemma release_buffer_empties:
  assumes "rb_trilogy_release_buffer c = (r, d)"
  shows "r \<noteq> Inl (Rc rc)" "r = Inr x \<Longrightarrow> buf_mem (packet_buffer d) = None"
  using assms by (auto simp: rb_trilogy_release_buffer_def checked_apply on_part_def buffer_checkin_def set_pool_entry_def
      split: option.splits prod.splits sum.splits if_splits)

lemma release_empties:
  assumes run: "run_void rb_trilogy_release_buffer ctx = (Inr x, ctx')"
  shows "buf_mem (packet_buffer (ctx_conn ctx')) = None"
proof -
  obtain r c where c: "rb_trilogy_release_buffer (ctx_conn ctx) = (r, c)" by fastforce
  have "\<exists>y. r = Inr y \<and> ctx_conn ctx' = c"
    using run c release_buffer_empties(1) [OF c]
    by (auto simp: run_void_def run_c_def ruby_then_apply split: option.splits sum.splits stop.splits)
  then obtain y where y: "r = Inr y" "ctx_conn ctx' = c" by blast
  show ?thesis using release_buffer_empties(2) [OF c y(1)] y(2) by simp
qed

definition ends :: "('a \<Rightarrow> 'v trilogy_ctx \<Rightarrow> bool) \<Rightarrow> ('v trilogy_ctx, 'a) ruby \<Rightarrow> bool" where
  "ends Q m \<longleftrightarrow> (\<forall>ctx r ctx'. fine ctx \<and> m ctx = (r, ctx') \<longrightarrow>
     fine ctx' \<and> (case r of Inl e \<Rightarrow> proper_stop e ctx' | Inr x \<Rightarrow> Q x ctx'))"

lemma endsD:
  assumes "ends Q m" and "fine ctx" and "m ctx = (r, ctx')"
  shows "fine ctx'" "r = Inl e \<Longrightarrow> proper_stop e ctx'" "r = Inr x \<Longrightarrow> Q x ctx'"
  using assms unfolding ends_def by (auto split: sum.splits)

lemma endsI:
  assumes "\<And>ctx r ctx'. fine ctx \<Longrightarrow> m ctx = (r, ctx') \<Longrightarrow> fine ctx'"
    and "\<And>ctx e ctx'. fine ctx \<Longrightarrow> m ctx = (Inl e, ctx') \<Longrightarrow> proper_stop e ctx'"
    and "\<And>ctx x ctx'. fine ctx \<Longrightarrow> m ctx = (Inr x, ctx') \<Longrightarrow> Q x ctx'"
  shows "ends Q m"
  using assms unfolding ends_def by (auto split: sum.splits)

lemma ends_then: "ends (\<lambda>_ _. True) m \<Longrightarrow> (\<And>x. ends Q (k x)) \<Longrightarrow> ends Q (ruby_then m k)"
proof -
  assume m: "ends (\<lambda>_ _. True) m" and k: "\<And>x. ends Q (k x)"
  have "fine ctx' \<and> (case r of Inl e \<Rightarrow> proper_stop e ctx' | Inr x \<Rightarrow> Q x ctx')"
    if ctx: "fine ctx" and run: "ruby_then m k ctx = (r, ctx')" for ctx r ctx'
    using run
  proof (cases rule: ruby_then_cases)
    case (stopped e)
    with endsD(1,2) [OF m ctx stopped(1)] show ?thesis by simp
  next
    case (went_on x u)
    note K = endsD [OF k endsD(1) [OF m ctx went_on(1)] went_on(2)]
    then show ?thesis by (cases r) simp_all
  qed
  then show ?thesis unfolding ends_def by blast
qed

lemma ends_ret: "ends (\<lambda>_ _. True) (ruby_ret x)"
  by (rule endsI) simp_all

lemma ends_get: "ends (\<lambda>_ _. True) get_ctx"
  by (rule endsI) simp_all

lemma ends_run: "tame_conn m \<Longrightarrow> ends (\<lambda>_ _. True) (run_c m)"
  by (rule endsI) (use run_c_ends in \<open>fastforce simp: stops_well_def\<close>)+

lemma ends_void: "tame_conn m \<Longrightarrow> ends (\<lambda>_ _. True) (run_void m)"
  unfolding run_void_def by (intro ends_then ends_run ends_ret)

lemma ends_release: "ends (\<lambda>_. released) (run_void rb_trilogy_release_buffer)"
proof (rule endsI)
  note E = endsD [OF ends_void [OF tame_buffers(2)]]
  show "fine ctx'" if "fine ctx" "run_void rb_trilogy_release_buffer ctx = (r, ctx')" for ctx r ctx' using E(1) [OF that] .
  show "proper_stop e ctx'" if "fine ctx" "run_void rb_trilogy_release_buffer ctx = (Inl e, ctx')" for ctx e ctx'
    using E(2) [OF that refl] .
qed (simp add: released_def release_empties)

lemma shutdown_closes:
  assumes ctx: "fine ctx" and run: "run_void trilogy_sock_shutdown ctx = (r, ctx')"
  shows "fine ctx' \<and> (closed ctx' \<or> (\<exists>x. r = Inl (Crashed x))) \<and> packet_buffer (ctx_conn ctx') = packet_buffer (ctx_conn ctx)"
proof -
  have s: "socket (ctx_conn ctx) = Some sock" using ctx by (simp add: in_order_def attached_to_def)
  obtain x w where w: "shutdown_cb sock (outside (ctx_conn ctx)) = (x, w)" by fastforce
  have g: "rb_pending w = None \<or> down (rb_net w)"
    using shutdown_guard w ctx by (auto simp: keeps_guard_def in_order_def attached_to_def guarded_def)
  have "closed ctx' \<or> (\<exists>x. r = Inl (Crashed x))"
    using run s w shutdown_down [OF w] g
    by (auto simp: run_void_def run_c_def ruby_then_apply trilogy_sock_shutdown_def with_socket_def is_down_def
        split: option.splits sum.splits stop.splits)
  moreover have "packet_buffer (ctx_conn ctx') = packet_buffer (ctx_conn ctx)"
    using run s w by (auto simp: run_void_def run_c_def ruby_then_apply trilogy_sock_shutdown_def with_socket_def
        split: option.splits sum.splits stop.splits)
  moreover have "fine ctx'" using keeps_fineD [OF keeps_fine_run(2) [OF tame_sock(5)] run ctx] .
  ultimately show ?thesis by simp
qed

lemma ends_mono: "ends P m \<Longrightarrow> (\<And>x ctx. P x ctx \<Longrightarrow> Q x ctx) \<Longrightarrow> ends Q m"
  unfolding ends_def by (fastforce split: sum.splits)

lemma own_errors: "trilogy_error_recoverable_p rc \<Longrightarrow> own_error (error_exception vm n rc msg c)"
  using trilogy_error_code [of TRILOGY_MAX_PACKET_EXCEEDED]
  by (auto simp: trilogy_error_recoverable_p_def error_exception_def own_error_def)

lemma clear_run:
  "rb_pending (outside (ctx_conn ctx)) = None \<Longrightarrow>
    run_void (clear_ssl_errors vm) ctx = (Inr (), ctx\<lparr>ctx_conn := (ctx_conn ctx)\<lparr>outside :=
      (outside (ctx_conn ctx))\<lparr>rb_net := vm_ssl_clear vm (rb_net (outside (ctx_conn ctx)))\<rparr>\<rparr>\<rparr>)"
  by (simp add: run_void_def run_c_def ruby_then_apply)

lemma clear_closed:
  assumes "spares down vm" and "fine ctx" and "run_void (clear_ssl_errors vm) ctx = (r, ctx')"
  shows "closed ctx' = closed ctx"
proof -
  have "ctx' = ctx\<lparr>ctx_conn := (ctx_conn ctx)\<lparr>outside :=
      (outside (ctx_conn ctx))\<lparr>rb_net := vm_ssl_clear vm (rb_net (outside (ctx_conn ctx)))\<rparr>\<rparr>\<rparr>"
    using assms(2,3) clear_run [of ctx vm] by (simp add: in_order_def)
  then show ?thesis using assms(1) by (simp add: is_down_def spares_def)
qed

lemma ends_handle:
  assumes vm: "spares down vm"
  shows "ends Q (handle_trilogy_error vm rc msg)"
proof -
  have "fine ctx' \<and> (\<exists>e. r = Inl e \<and> proper_stop e ctx')"
    if ctx: "fine ctx" and run: "handle_trilogy_error vm rc msg ctx = (r, ctx')" for ctx r ctx'
    using run [unfolded handle_trilogy_error_def Let_def]
  proof (cases rule: ruby_then_cases)
    case (stopped e)
    from endsD [OF ends_release ctx stopped(1)] stopped(2) show ?thesis by simp
  next
    case (went_on x c1)
    note c1 = endsD(1,3) [OF ends_release ctx went_on(1)]
    let ?shut = "if \<not> trilogy_error_recoverable_p rc \<and> socket (ctx_conn c1) \<noteq> None
                   then run_void trilogy_sock_shutdown else ruby_ret ()"
    from went_on(2) [unfolded ruby_then_apply [of get_ctx], simplified] show ?thesis
    proof (cases rule: ruby_then_cases)
      case (stopped e)
      then have run: "run_void trilogy_sock_shutdown c1 = (Inl e, ctx')" by (simp split: if_splits)
      from endsD(1,2) [OF ends_void [OF tame_sock(5)] c1(1) run] stopped(2) show ?thesis by simp
    next
      case (went_on y c2)
      have "socket (ctx_conn c1) \<noteq> None" using c1(1) by (simp add: in_order_def attached_to_def)
      then have c2: "fine c2 \<and> (if trilogy_error_recoverable_p rc then released c2 else closed c2)"
        using went_on(1) c1 shutdown_closes [OF c1(1), of _ c2] by (auto split: if_splits)
      from went_on(2) [unfolded ruby_then_apply [of get_ctx], simplified] show ?thesis
      proof (cases rule: ruby_then_cases)
        case (stopped e)
        then have run: "run_void (clear_ssl_errors vm) c2 = (Inl e, ctx')" by (simp split: if_splits)
        from endsD(1,2) [OF ends_void [OF tame_clear [OF vm]] _ run] c2 stopped(2) show ?thesis by simp
      next
        case (went_on z c3)
        have "fine c3 \<and> (if trilogy_error_recoverable_p rc then released c3 else closed c3)"
        proof (cases "rc = TRILOGY_OPENSSL_ERR")
          case True
          then have run: "run_void (clear_ssl_errors vm) c2 = (Inr z, c3)" using went_on(1) by simp
          have "closed c2" using c2 True by (simp add: trilogy_error_recoverable_p_def)
          then have "closed c3" using clear_closed [OF vm _ run] c2 by simp
          with True endsD(1) [OF ends_void [OF tame_clear [OF vm]] _ run] c2 show ?thesis
            by (simp add: trilogy_error_recoverable_p_def)
        next
          case False
          with went_on(1) have "c3 = c2" by simp
          with c2 show ?thesis by simp
        qed
        with went_on(2) show ?thesis by (auto simp: stops_well_def own_errors split: if_splits)
      qed
    qed
  qed
  then show ?thesis unfolding ends_def by fastforce
qed

lemma ends_cases:
  "(\<And>e. ends Q (h e)) \<Longrightarrow> (\<And>y. ends Q (k y)) \<Longrightarrow> ends Q (case r of Inl e \<Rightarrow> h e | Inr y \<Rightarrow> k y)"
  "ends Q m \<Longrightarrow> (\<And>y. ends Q (l y)) \<Longrightarrow> ends Q (case x of None \<Rightarrow> m | Some y \<Rightarrow> l y)"
  "(\<And>a b. ends Q (g a b)) \<Longrightarrow> ends Q (case p of (a, b) \<Rightarrow> g a b)"
  "ends Q m \<Longrightarrow> ends Q m' \<Longrightarrow> ends Q (if b then m else m')"
  by (simp_all split: sum.splits option.splits prod.splits)

lemma ends_expect: "spares down vm \<Longrightarrow> tame_conn m \<Longrightarrow> ends (\<lambda>_ _. True) (expect_ok vm msg m)"
  unfolding expect_ok_def by (intro ends_then ends_run ends_cases ends_handle ends_ret)

section \<open>The methods\<close>

lemma keeps_fine_ends: "ends Q m \<Longrightarrow> keeps_fine m"
  by (rule keeps_fineI) (rule endsD(1))

lemma keeps_fine_room: "keeps_fine (rb_room vm width n)"
  by (simp add: keeps_fine_def rb_room_def split: option.splits)

lemma keeps_fine_cast: "keeps_fine (ruby_cast vm options v i)"
proof -
  have "keeps_fine (on_cache m)" for m :: "(int list, 'b) ruby"
    by (simp add: keeps_fine_def on_cache_def in_order_def attached_to_def guarded_def split_def)
  then show ?thesis unfolding ruby_cast_def by (intro keeps_fine_then keeps_fine_cases keeps_fine_basic)
qed

lemma keeps_fine_cast_row: "keeps_fine (cast_row vm options vs infos)"
  by (induction vm options vs infos rule: cast_row.induct)
    (simp_all add: keeps_fine_basic keeps_fine_then keeps_fine_cast)

lemma keeps_fine_columns: "keeps_fine (ruby_columns alloc n)"
  by (induction n) (simp_all add: keeps_fine_basic keeps_fine_then keeps_fine_cases keeps_fine_run tame_until_done
      tame_column tame_sock)

lemma keeps_fine_round: "keeps_fine (read_row_round alloc vs)"
  unfolding read_row_round_def
  by (intro keeps_fine_then keeps_fine_run keeps_fine_cases keeps_fine_basic tame_attempt tame_row tame_sock)

lemma rows_loop_fine:
  "rows_loop vm alloc options infos row_values rows ctx = Some (r, ctx') \<Longrightarrow> fine ctx \<Longrightarrow> fine ctx'"
proof -
  have step: "keeps_fine (ruby_then (rb_room vm 8 n) (\<lambda>_. cast_row vm options vs infos))"
    for vm :: "('v, 'f) rb_vm" and n options vs infos
    by (intro keeps_fine_then keeps_fine_room keeps_fine_cast_row)
  have "fine ctx \<longrightarrow> fine (snd x)"
    if "rows_loop vm alloc options infos row_values rows ctx = Some x" for x
    using that
  proof (induction rule: rows_loop.raw_induct [rotated 1, consumes 1])
    case (1 loop vm alloc options infos row_values rows ctx x)
    obtain q ctx1 where q: "read_row_round alloc row_values ctx = (q, ctx1)" by fastforce
    show ?case
    proof
      assume ctx: "fine ctx"
      note ctx1 = keeps_fineD [OF keeps_fine_round q ctx]
      show "fine (snd x)"
        using 1(2) q ctx1
        by (auto split: prod.splits sum.splits option.splits dest: keeps_fineD [OF step _ ctx1] 1(1))
    qed
  qed
  then show "rows_loop vm alloc options infos row_values rows ctx = Some (r, ctx') \<Longrightarrow> fine ctx \<Longrightarrow> fine ctx'"
    by fastforce
qed

lemma keeps_fine_rows: "keeps_fine (ruby_rows vm alloc options infos vs)"
  by (rule keeps_fineI) (auto simp: ruby_rows_def split: option.splits dest: rows_loop_fine)

lemma keeps_fine_table: "keeps_fine (read_table vm alloc options n)"
  unfolding read_table_def
  by (intro keeps_fine_then keeps_fine_room keeps_fine_columns keeps_fine_cases keeps_fine_rows keeps_fine_basic)

lemma keeps_fine_response: "spares down vm \<Longrightarrow> keeps_fine (read_query_response vm alloc options)"
  unfolding read_query_response_def
  by (intro keeps_fine_then keeps_fine_room keeps_fine_run keeps_fine_cases keeps_fine_basic keeps_fine_table
      keeps_fine_ends [OF ends_handle] tame_query_recv)

lemma ends_protect:
  assumes m: "keeps_fine m"
  shows "ends (\<lambda>_ _. True) (rb_protect m (run_void trilogy_sock_shutdown))"
proof -
  have "fine ctx' \<and> (\<forall>e. r = Inl e \<longrightarrow> proper_stop e ctx')"
    if ctx: "fine ctx" and run: "rb_protect m (run_void trilogy_sock_shutdown) ctx = (r, ctx')" for ctx r ctx'
  proof -
    obtain x c1 where x: "m ctx = (x, c1)" by fastforce
    note c1 = keeps_fineD [OF m x ctx]
    show ?thesis
    proof (cases "\<exists>e. x = Inl e \<and> \<not> (\<exists>y. e = Crashed y)")
      case True
      then obtain e where e: "x = Inl e" "\<not> (\<exists>y. e = Crashed y)" by blast
      have "ruby_then (run_void trilogy_sock_shutdown) (\<lambda>_. ruby_stop e) c1 = (r, ctx')"
        using run x e by (cases e) (simp_all add: rb_protect_def)
      then show ?thesis
      proof (cases rule: ruby_then_cases)
        case (stopped e')
        with shutdown_closes [OF c1 stopped(1)] show ?thesis by (auto simp: stops_well_def)
      next
        case (went_on y u)
        with shutdown_closes [OF c1 went_on(1)] show ?thesis by (auto simp: stops_well_def)
      qed
    next
      case False
      then show ?thesis
        using run x c1 by (auto simp: rb_protect_def stops_well_def split: sum.splits ruby_stop.splits)
    qed
  qed
  then show ?thesis unfolding ends_def by (fastforce split: sum.splits)
qed

lemma ends_any: "ends Q m \<Longrightarrow> ends (\<lambda>_ _. True) m"
  by (rule ends_mono) simp_all

text \<open>A value leaves the buffer in the pool, unless more results are to be read with it.\<close>

abbreviation settled :: "'a \<Rightarrow> 'v trilogy_ctx \<Rightarrow> bool" where
  "settled \<equiv> \<lambda>_ ctx. released ctx \<or> more_results (ctx_conn ctx)"

lemma ends_finish: "ends settled (ruby_then (run_void rb_trilogy_release_buffer) (\<lambda>_. ruby_ret x))"
proof (rule endsI)
  note E = endsD [OF ends_then [OF ends_any [OF ends_release] ends_ret]]
  fix ctx ctx' assume ctx: "fine ctx"
  show "fine ctx'" if "ruby_then (run_void rb_trilogy_release_buffer) (\<lambda>_. ruby_ret x) ctx = (r, ctx')" for r
    by (rule E(1) [OF ctx that])
  show "proper_stop e ctx'" if "ruby_then (run_void rb_trilogy_release_buffer) (\<lambda>_. ruby_ret x) ctx = (Inl e, ctx')" for e
    by (rule E(2) [OF ctx that refl])
  show "settled y ctx'" if "ruby_then (run_void rb_trilogy_release_buffer) (\<lambda>_. ruby_ret x) ctx = (Inr y, ctx')" for y
    using that endsD(3) [OF ends_release ctx] by (cases rule: ruby_then_cases) auto
qed

lemma open_fine: "fine ctx \<Longrightarrow> ruby_then get_open_ctx k ctx = k ctx ctx"
  by (simp add: get_open_ctx_def ruby_then_apply in_order_def attached_to_def)

lemma ends_open: "(\<And>ctx. ends Q (k ctx)) \<Longrightarrow> ends Q (ruby_then get_open_ctx k)"
proof (rule endsI)
  assume k: "\<And>ctx. ends Q (k ctx)"
  fix ctx ctx' assume ctx: "fine ctx"
  note run = open_fine [OF ctx, of k]
  show "fine ctx'" if "ruby_then get_open_ctx k ctx = (r, ctx')" for r
    by (rule endsD(1) [OF k ctx that [unfolded run]])
  show "proper_stop e ctx'" if "ruby_then get_open_ctx k ctx = (Inl e, ctx')" for e
    by (rule endsD(2) [OF k ctx that [unfolded run] refl])
  show "Q x ctx'" if "ruby_then get_open_ctx k ctx = (Inr x, ctx')" for x
    by (rule endsD(3) [OF k ctx that [unfolded run] refl])
qed

lemma ends_command:
  "spares down vm \<Longrightarrow> tame_conn send \<Longrightarrow> tame_conn recv \<Longrightarrow> ends settled (rb_command vm send send_msg recv recv_msg)"
  unfolding rb_command_def
  by (intro ends_then ends_void ends_expect ends_finish tame_buffers tame_on_again tame_writes tame_until_done tame_sock)

lemma ends_commands:
  assumes "spares down vm"
  shows "ends settled (rb_trilogy_change_db vm alloc database)" "ends settled (rb_trilogy_set_server_option vm alloc option)"
    "ends settled (rb_trilogy_ping vm alloc)"
  unfolding rb_trilogy_change_db_def rb_trilogy_set_server_option_def rb_trilogy_ping_def
  by (intro ends_open ends_command assms tame_sends tame_recvs)+

lemma ends_escape: "spares down vm \<Longrightarrow> vm_asciicompat vm enc \<Longrightarrow> ends settled (rb_trilogy_escape vm alloc enc str)"
  unfolding rb_trilogy_escape_def
  by (simp, intro ends_open ends_then ends_void ends_expect ends_finish tame_buffers tame_escape)

lemma ends_execute: "spares down vm \<Longrightarrow> ends settled (execute_read_query_response vm alloc)"
proof -
  assume vm: "spares down vm"
  have last: "ends settled (ruby_then get_ctx (\<lambda>ctx.
         ruby_then (if \<not> more_results (ctx_conn ctx) then run_void rb_trilogy_release_buffer else ruby_ret ()) (\<lambda>_.
         ruby_ret result)))" for result :: "'f rb_result"
  proof -
    have "ruby_then get_ctx (\<lambda>ctx.
         ruby_then (if \<not> more_results (ctx_conn ctx) then run_void rb_trilogy_release_buffer else ruby_ret ()) (\<lambda>_.
         ruby_ret result)) ctx =
       (if more_results (ctx_conn ctx) then (Inr result, ctx)
        else ruby_then (run_void rb_trilogy_release_buffer) (\<lambda>_. ruby_ret result) ctx)" for ctx :: "'v trilogy_ctx"
      by (simp add: ruby_then_apply)
    then show ?thesis using ends_finish [of result] unfolding ends_def by (auto split: if_splits)
  qed
  show ?thesis
    unfolding execute_read_query_response_def
    by (intro ends_then ends_get ends_protect keeps_fine_response vm ends_cases ends_handle last)
qed

lemma ends_query:
  "spares down vm \<Longrightarrow> vm_export vm (ctx_encoding ctx) query = Inr q \<Longrightarrow> fine ctx \<Longrightarrow>
    rb_trilogy_query vm alloc query ctx = (r, ctx') \<Longrightarrow>
    fine ctx' \<and> (case r of Inl e \<Rightarrow> proper_stop e ctx' | Inr x \<Rightarrow> settled x ctx')"
proof -
  assume vm: "spares down vm" and q: "vm_export vm (ctx_encoding ctx) query = Inr q" and ctx: "fine ctx"
    and run: "rb_trilogy_query vm alloc query ctx = (r, ctx')"
  let ?m = "ruby_then (run_void (rb_trilogy_acquire_buffer vm)) (\<lambda>_.
         ruby_then (expect_ok vm (ascii ''trilogy_query_send'')
           (on_again (trilogy_query_send alloc q (word_of_nat (length q))) flush_writes)) (\<lambda>_.
         execute_read_query_response vm alloc))"
  have "ends settled ?m"
    by (intro ends_then ends_void ends_expect ends_execute vm tame_buffers tame_on_again tame_sends tame_writes)
  moreover have "?m ctx = (r, ctx')"
    using run q ctx by (simp add: rb_trilogy_query_def get_open_ctx_def ruby_then_apply in_order_def attached_to_def)
  ultimately show ?thesis using ctx unfolding ends_def by blast
qed

lemma ends_map: "ends settled m \<Longrightarrow> ends settled (ruby_then m (\<lambda>x. ruby_ret (f x)))"
proof (rule endsI)
  assume m: "ends settled m"
  note E = endsD [OF ends_then [OF ends_any [OF m] ends_ret]]
  fix ctx ctx' assume ctx: "fine ctx"
  show "fine ctx'" if "ruby_then m (\<lambda>x. ruby_ret (f x)) ctx = (r, ctx')" for r by (rule E(1) [OF ctx that])
  show "proper_stop e ctx'" if "ruby_then m (\<lambda>x. ruby_ret (f x)) ctx = (Inl e, ctx')" for e by (rule E(2) [OF ctx that refl])
  show "settled y ctx'" if "ruby_then m (\<lambda>x. ruby_ret (f x)) ctx = (Inr y, ctx')" for y
    using that endsD(3) [OF m ctx] by (cases rule: ruby_then_cases) auto
qed

lemma ends_next: "spares down vm \<Longrightarrow> ends (\<lambda>x. if x = None then (\<lambda>_. True) else settled x) (rb_trilogy_next_result vm alloc)"
proof -
  assume vm: "spares down vm"
  have "ends (\<lambda>x. if x = None then (\<lambda>_. True) else settled x)
      (if \<not> more_results (ctx_conn ctx) then ruby_ret None
       else ruby_then (execute_read_query_response vm alloc) (\<lambda>result. ruby_ret (Some result)))" for ctx :: "'v trilogy_ctx"
  proof (cases "more_results (ctx_conn ctx)")
    case True
    then show ?thesis by (simp, intro ends_mono [OF ends_map [OF ends_execute [OF vm]]]) simp
  next
    case False
    then show ?thesis by (auto simp: ends_def)
  qed
  then show ?thesis unfolding rb_trilogy_next_result_def by (intro ends_open)
qed

end

section \<open>Every method ends well\<close>

definition ends_well :: "'v rb_world trilogy_sock \<Rightarrow> ('v \<Rightarrow> bool) \<Rightarrow> ('v trilogy_ctx, 'a) ruby \<Rightarrow> bool" where
  "ends_well sock down m \<longleftrightarrow> (\<forall>ctx r ctx'. in_order sock down ctx \<and> m ctx = (r, ctx') \<longrightarrow>
     in_order sock down ctx' \<and> (ctx' = ctx \<or> (case r of
        Inl e \<Rightarrow> stops_well down e ctx'
      | Inr x \<Rightarrow> released ctx' \<or> more_results (ctx_conn ctx'))))"

context closing_socket
begin

lemma ends_well_settled: "ends settled m \<Longrightarrow> ends_well sock down m"
  unfolding ends_well_def ends_def by blast

lemma next_ends_well: "spares down vm \<Longrightarrow> ends_well sock down (rb_trilogy_next_result vm alloc)"
proof -
  assume vm: "spares down vm"
  have "in_order sock down ctx' \<and> (ctx' = ctx \<or> (case r of Inl e \<Rightarrow> proper_stop e ctx' | Inr x \<Rightarrow> settled x ctx'))"
    if ctx: "fine ctx" and run: "rb_trilogy_next_result vm alloc ctx = (r, ctx')" for ctx r ctx'
  proof (cases "more_results (ctx_conn ctx)")
    case True
    have "ends settled (ruby_then (execute_read_query_response vm alloc) (\<lambda>result. ruby_ret (Some result)))"
      by (rule ends_map [OF ends_execute [OF vm]])
    moreover have "ruby_then (execute_read_query_response vm alloc) (\<lambda>result. ruby_ret (Some result)) ctx = (r, ctx')"
      using run True by (simp add: rb_trilogy_next_result_def open_fine [OF ctx])
    ultimately show ?thesis using ctx unfolding ends_def by blast
  next
    case False
    then show ?thesis using run ctx by (simp add: rb_trilogy_next_result_def open_fine [OF ctx])
  qed
  then show ?thesis unfolding ends_well_def by blast
qed

lemma query_ends_well: "spares down vm \<Longrightarrow> ends_well sock down (rb_trilogy_query vm alloc query)"
proof -
  assume vm: "spares down vm"
  have "in_order sock down ctx' \<and> (ctx' = ctx \<or> (case r of Inl e \<Rightarrow> proper_stop e ctx' | Inr x \<Rightarrow> settled x ctx'))"
    if ctx: "fine ctx" and run: "rb_trilogy_query vm alloc query ctx = (r, ctx')" for ctx r ctx'
  proof (cases "vm_export vm (ctx_encoding ctx) query")
    case (Inl e)
    then show ?thesis using run ctx by (simp add: rb_trilogy_query_def open_fine [OF ctx])
  next
    case (Inr q)
    from ends_query [OF vm this ctx run] show ?thesis by blast
  qed
  then show ?thesis unfolding ends_well_def by blast
qed

lemma escape_ends_well: "spares down vm \<Longrightarrow> ends_well sock down (rb_trilogy_escape vm alloc enc str)"
proof (cases "vm_asciicompat vm enc")
  case True
  assume "spares down vm"
  with True show ?thesis by (intro ends_well_settled ends_escape)
next
  case False
  then show ?thesis by (auto simp: ends_well_def rb_trilogy_escape_def open_fine)
qed

lemmas all_end_well = query_ends_well next_ends_well escape_ends_well ends_commands [THEN ends_well_settled]

end

end
