(* ===== verification/Ruby_Sockets.thy ===== *)
theory Ruby_Sockets
  imports Ruby_Safety
begin

text \<open>
  The sockets of \<^verbatim>\<open>src/socket.c\<close>, plain and encrypted, are ones that an exception of a Ruby client closes, and
  stay closed.
\<close>

section \<open>The sockets of the client\<close>

text \<open>A socket that stays down; \<open>ruby_socket\<close> on it is one that an exception closes.\<close>

definition lasting :: "('v \<Rightarrow> bool) \<Rightarrow> ('v, 'a) op \<Rightarrow> bool" where
  "lasting down f \<longleftrightarrow> (\<forall>v. down v \<longrightarrow> down (snd (f v)))"

lemma lastingD: "lasting down f \<Longrightarrow> f v = (r, v') \<Longrightarrow> down v \<Longrightarrow> down v'"
  unfolding lasting_def by (metis snd_conv)

lemma keeps_guardD: "keeps_guard down f \<Longrightarrow> f w = (r, w') \<Longrightarrow> guarded down w \<Longrightarrow> guarded down w'"
  unfolding keeps_guard_def by blast

lemma keeps_guardI: "(\<And>w r w'. f w = (r, w') \<Longrightarrow> guarded down w \<Longrightarrow> guarded down w') \<Longrightarrow> keeps_guard down f"
  unfolding keeps_guard_def by blast

lemma on_net_guard: "lasting down f \<Longrightarrow> keeps_guard down (on_net f)"
  by (auto simp: lasting_def keeps_guard_def guarded_def on_part_def split_def)

lemma cb_ruby_wait_guard:
  assumes fd: "lasting down (fd_cb sock)" and shutdown: "lasting down (shutdown_cb sock)"
    and down: "\<And>v r v'. shutdown_cb sock v = (r, v') \<Longrightarrow> r \<noteq> Inl Fault \<Longrightarrow> r \<noteq> Inl Hang \<Longrightarrow> down v'"
  shows "keeps_guard down (cb_ruby_wait vm sock k)"
  unfolding keeps_guard_def
proof (intro allI impI)
  fix w r w' assume "cb_ruby_wait vm sock k w = (r, w') \<and> guarded down w"
  then have run: "cb_ruby_wait vm sock k w = (r, w')" and w: "guarded down w" by simp_all
  obtain x v where x: "fd_cb sock (rb_net w) = (x, v)" by fastforce
  let ?w1 = "w\<lparr>rb_net := v\<rparr>"
  let ?w2 = "?w1\<lparr>rb_pool := fst (vm_others vm ?w1), rb_encodings := snd (vm_others vm ?w1)\<rparr>"
  have w1: "guarded down ?w1" using lastingD [OF fd x] w by (auto simp: guarded_def)
  then have w2: "guarded down ?w2" by (simp add: guarded_def)
  show "guarded down w'"
  proof (cases x)
    case (Inl e)
    then show ?thesis using run x w1 by (auto simp: cb_ruby_wait_def checked_apply on_part_def)
  next
    case (Inr n)
    obtain y u where y: "shutdown_cb sock v = (y, u)" by fastforce
    from lastingD [OF shutdown y] w2 have w3: "guarded down (?w2\<lparr>rb_net := u\<rparr>)" by (auto simp: guarded_def)
    show ?thesis
      using run x Inr w2 w3 y down [OF y]
      by (auto simp: cb_ruby_wait_def checked_apply on_part_def ignored_def guarded_def
          split: sum.splits stop.splits if_splits)
  qed
qed

lemma ruby_socket_closing:
  assumes "\<And>n. lasting down (read_cb sock n)" and "\<And>bs. lasting down (write_cb sock bs)"
    and "\<And>k. lasting down (wait_cb sock k)" and "lasting down (fd_cb sock)" and "lasting down (shutdown_cb sock)"
    and down: "\<And>v r v'. shutdown_cb sock v = (r, v') \<Longrightarrow> r \<noteq> Inl Fault \<Longrightarrow> r \<noteq> Inl Hang \<Longrightarrow> down v'"
  shows "closing_socket (ruby_socket vm down sock) down"
proof
  show "keeps_guard down (wait_cb (ruby_socket vm down sock) k)" for k
  proof -
    note K = cb_ruby_wait_guard [OF assms(4,5) down, where vm = vm and k = k] on_net_guard [OF assms(3), of k]
    have at: "wait_cb (ruby_socket vm down sock) k w =
        (if down (rb_net w) then on_net (wait_cb sock k) w else cb_ruby_wait vm sock k w)" for w
      by (simp add: ruby_socket_def)
    show ?thesis
    proof (rule keeps_guardI)
      fix w r w' assume run: "wait_cb (ruby_socket vm down sock) k w = (r, w')" and w: "guarded down w"
      show "guarded down w'"
      proof (cases "down (rb_net w)")
        case True
        with run at have "on_net (wait_cb sock k) w = (r, w')" by simp
        from keeps_guardD [OF K(2) this w] show ?thesis .
      next
        case False
        with run at have "cb_ruby_wait vm sock k w = (r, w')" by simp
        from keeps_guardD [OF K(1) this w] show ?thesis .
      qed
    qed
  qed
  show "down (rb_net w')"
    if run: "shutdown_cb (ruby_socket vm down sock) w = (r, w')" and r: "r \<noteq> Inl Fault" "r \<noteq> Inl Hang" for w r w'
  proof -
    obtain x v where x: "shutdown_cb sock (rb_net w) = (x, v)" by fastforce
    then have "x = r" "w' = w\<lparr>rb_net := v\<rparr>" using run by (simp_all add: ruby_socket_def on_part_def)
    with down [OF x] r show ?thesis by simp
  qed
qed (simp_all add: ruby_socket_def on_net_guard assms(1,2,5))

lemma lasting_basic: "lasting down (ret x)" "lasting down (throw e)"
  by (simp_all add: lasting_def)

lemma lasting_handler: "lasting shut stub \<Longrightarrow> lasting shut (handler raw stub)"
  by (simp add: lasting_def handler_def)

lemma raw_lasting:
  "lasting shut (read_cb (raw_socket opts) n)" "lasting shut (write_cb (raw_socket opts) bs)"
  "lasting shut (wait_cb (raw_socket opts) k)" "lasting shut (fd_cb (raw_socket opts))"
  "lasting shut (shutdown_cb (raw_socket opts))"
  by (simp_all add: raw_socket_def lasting_def handler_def cb_shutdown_read_def cb_shutdown_write_def cb_shutdown_wait_def
      cb_raw_fd_def cb_shutdown_shutdown_def)

interpretation plain: closing_socket "ruby_socket vm shut (raw_socket opts)" shut
  for vm :: "(raw_sock, 'f) rb_vm" and opts
proof (rule ruby_socket_closing)
  show "shut v'" if "shutdown_cb (raw_socket opts) v = (r, v')" for v r v'
    using that shutdown_stops [of v r v']
    by (auto simp: raw_socket_def handler_def cb_shutdown_shutdown_def split: if_splits)
qed (rule raw_lasting)+

definition tls_down :: "tls_sock \<Rightarrow> bool" where
  "tls_down s \<longleftrightarrow> tls_handlers s = Shut_handlers"

lemma tls_lasting:
  "lasting tls_down (read_cb (tls_socket lib opts) n)" "lasting tls_down (write_cb (tls_socket lib opts) bs)"
  "lasting tls_down (wait_cb (tls_socket lib opts) k)" "lasting tls_down (fd_cb (tls_socket lib opts))"
  "lasting tls_down (shutdown_cb (tls_socket lib opts))"
  by (simp_all add: lasting_def tls_down_def tls_socket_def tls_read_def tls_write_def tls_wait_def by_handlers_def
      on_part_def split_def cb_shutdown_read_def cb_shutdown_write_def cb_shutdown_wait_def cb_raw_fd_def)

interpretation encrypted: closing_socket "ruby_socket vm tls_down (tls_socket lib opts)" tls_down
  for vm :: "(tls_sock, 'f) rb_vm" and lib opts
proof (rule ruby_socket_closing)
  have down: "tls_down v'" if "tls_raw_shutdown v = (r, v')" for v r v'
    using that by (auto simp: tls_raw_shutdown_def tls_down_def on_part_def split: prod.splits)
  show "tls_down v'" if "shutdown_cb (tls_socket lib opts) v = (r, v')" for v r v'
    using that down
    by (auto simp: tls_socket_def by_handlers_def cb_ssl_shutdown_def checked_apply cb_shutdown_shutdown_def on_part_def
        tls_down_def perform_def call_def split: handlers.splits prod.splits)
qed (rule tls_lasting)+

end
