(* ===== verification/Ruby_Results.thy ===== *)
theory Ruby_Results
  imports Ruby_Methods
begin

text \<open>
  What a query returns to a Ruby program: a table whose rows have one value for each field.
\<close>

section \<open>Values of sequences\<close>

lemma ruby_then_value:
  assumes "ruby_then m k s = (Inr y, t)"
  obtains x u where "m s = (Inr x, u)" "k x u = (Inr y, t)"
  using assms by (auto simp: ruby_then_def split: prod.splits sum.splits)

lemma ruby_ret_value [simp]: "ruby_ret x s = (Inr y, t) \<longleftrightarrow> y = x \<and> t = s"
  by (auto simp: ruby_ret_def)

lemma ruby_stop_value [simp]: "ruby_stop e s \<noteq> (Inr y, t)"
  by (simp add: ruby_stop_def)

lemma Inr_map_sum: "Inr y = map_sum f g x \<longleftrightarrow> (\<exists>z. x = Inr z \<and> y = g z)"
  by (cases x) auto

lemma handle_raises: "handle_trilogy_error vm rc msg ctx \<noteq> (Inr x, ctx')"
  by (auto simp: handle_trilogy_error_def Let_def elim!: ruby_then_value)

section \<open>The shape of a table\<close>

definition well_shaped :: "'f rb_result \<Rightarrow> bool" where
  "well_shaped res \<longleftrightarrow>
     (case res_rows res of
        Rows rows \<Rightarrow> list_all (\<lambda>row. length row = length (res_fields res)) rows
      | Flat values \<Rightarrow> length (res_fields res) dvd length values)
     \<and> (res_fields res \<noteq> [] \<longrightarrow> res_last_insert_id res = Qnil \<and> res_affected_rows res = Qnil)"

lemma cast_row_length: "cast_row vm options vs infos ctx = (Inr xs, ctx') \<Longrightarrow> length xs = length infos"
proof (induction vm options vs infos arbitrary: xs ctx ctx' rule: cast_row.induct)
  case (3 vm options v vs i infos)
  then show ?case by (auto elim!: ruby_then_value)
qed simp_all

lemma rows_loop_shape:
  assumes "rows_loop vm alloc options infos row_values rows ctx = Some (Inr (Inr rows'), ctx')"
    and "list_all (\<lambda>row. length row = length infos) rows"
  shows "list_all (\<lambda>row. length row = length infos) rows'"
proof -
  have "list_all (\<lambda>row. length row = length infos) rows \<longrightarrow>
      (\<forall>rows' ctx'. x = (Inr (Inr rows'), ctx') \<longrightarrow> list_all (\<lambda>row. length row = length infos) rows')"
    if "rows_loop vm alloc options infos row_values rows ctx = Some x" for x
    using that
  proof (induction rule: rows_loop.raw_induct [rotated 1, consumes 1])
    case (1 loop vm alloc options infos row_values rows ctx x)
    from 1(2) show ?case
      by (auto split: prod.splits sum.splits option.splits dest!: 1(1) elim!: ruby_then_value dest: cast_row_length)
  qed
  with assms show ?thesis by blast
qed

lemma dvd_concat: "list_all (\<lambda>row. length row = n) rows \<Longrightarrow> n dvd length (concat rows)"
  by (induction rows) auto

lemma ruby_columns_length: "ruby_columns alloc n ctx = (Inr (Inr columns), ctx') \<Longrightarrow> length columns = n"
proof (induction n arbitrary: columns ctx ctx')
  case (Suc n)
  from Suc.prems show ?case
    by (auto simp: Inr_map_sum elim!: ruby_then_value dest!: Suc.IH split: sum.splits)
qed simp

lemma ruby_rows_shape:
  "ruby_rows vm alloc options infos vs ctx = (Inr (Inr rows), ctx') \<Longrightarrow> list_all (\<lambda>row. length row = length infos) rows"
  by (auto simp: ruby_rows_def split: option.splits dest: rows_loop_shape)

lemma read_table_shape:
  assumes "read_table vm alloc options count ctx = (Inr (Inr res), ctx')"
  shows "well_shaped res \<and> length (res_fields res) = unat count
    \<and> (\<exists>values. res_rows res = Flat values) = flatten_rows options"
  using assms
  by (auto simp: read_table_def Inr_map_sum well_shaped_def dvd_concat elim!: ruby_then_value split: sum.splits if_splits
      dest!: ruby_columns_length ruby_rows_shape)

lemma read_query_response_shape:
  "read_query_response vm alloc options ctx = (Inr (Inr res), ctx') \<Longrightarrow> well_shaped res"
  by (auto simp: read_query_response_def well_shaped_def [of "\<lparr>res_fields = [], res_rows = Rows [],
      res_last_insert_id = a, res_affected_rows = b\<rparr>" for a b] handle_raises elim!: ruby_then_value
      dest: read_table_shape split: sum.splits prod.splits stop.splits if_splits)

lemma rb_protect_value: "rb_protect m h ctx = (Inr x, ctx') \<Longrightarrow> m ctx = (Inr x, ctx')"
  by (auto simp: rb_protect_def elim!: ruby_then_value split: prod.splits sum.splits ruby_stop.splits)

lemma execute_shape: "execute_read_query_response vm alloc ctx = (Inr res, ctx') \<Longrightarrow> well_shaped res"
  by (auto simp: execute_read_query_response_def handle_raises elim!: ruby_then_value
      dest!: rb_protect_value read_query_response_shape split: sum.splits prod.splits)

lemma query_shape: "rb_trilogy_query vm alloc query ctx = (Inr res, ctx') \<Longrightarrow> well_shaped res"
  by (auto simp: rb_trilogy_query_def elim!: ruby_then_value dest: execute_shape split: sum.splits)

lemma next_result_shape: "rb_trilogy_next_result vm alloc ctx = (Inr (Some res), ctx') \<Longrightarrow> well_shaped res"
  by (auto simp: rb_trilogy_next_result_def elim!: ruby_then_value dest!: execute_shape split: if_splits)

end
