(* ===== verification/Ruby_Errors.thy ===== *)
theory Ruby_Errors
  imports Ruby_Sockets Ruby_Results
begin

text \<open>
  What \<^verbatim>\<open>handle_trilogy_error\<close> does to a client with a plain socket.
\<close>

section \<open>Errors over a plain socket\<close>

abbreviation plain_socket :: "(raw_sock, 'f) rb_vm \<Rightarrow> trilogy_sockopt \<Rightarrow> raw_sock rb_world trilogy_sock" where
  "plain_socket vm opts \<equiv> ruby_socket vm shut (raw_socket opts)"

text \<open>The pool after the buffer of a connection was given back.\<close>

definition given_back :: "'w trilogy_conn \<Rightarrow> u8 list buffer_pool_entry list \<Rightarrow> u8 list buffer_pool_entry list" where
  "given_back c entries =
     (case buf_mem (packet_buffer c) of
        None \<Rightarrow> entries
      | Some mem \<Rightarrow> if length entries < 8 then entries @ [\<lparr>entry_cap = buf_cap (packet_buffer c), entry_buff = mem\<rparr>] else entries)"

lemma release_run:
  fixes c :: "'v rb_world trilogy_conn"
  assumes pool: "pool_ok (rb_pool (outside c))"
  obtains c' pool' where "rb_trilogy_release_buffer c = (Inr (), c')"
    "outside c' = (outside c)\<lparr>rb_pool := pool'\<rparr>" "pool_ok pool'" "stored pool' = given_back c (stored (rb_pool (outside c)))"
    "buf_mem (packet_buffer c') = None" "socket c' = socket c" "error_message c' = error_message c" "error_code c' = error_code c"
proof (cases "buf_mem (packet_buffer c)")
  case None
  then show ?thesis
    using that [of c "rb_pool (outside c)"] pool by (simp add: rb_trilogy_release_buffer_def given_back_def)
next
  case (Some mem)
  let ?e = "\<lparr>entry_cap = buf_cap (packet_buffer c), entry_buff = mem\<rparr>"
  obtain pool' where pool': "buffer_checkin ?e (rb_pool (outside c)) = (Inr (length (stored (rb_pool (outside c))) < 8), pool')"
      "pool_ok pool'" "stored pool' = given_back c (stored (rb_pool (outside c)))"
    using checkin_stack [OF pool, of ?e] Some by (auto simp: given_back_def)
  then show ?thesis
    using Some that [of "c\<lparr>outside := (outside c)\<lparr>rb_pool := pool'\<rparr>,
        packet_buffer := (packet_buffer c)\<lparr>buf_mem := None, buf_cap := 0\<rparr>\<rparr>" pool']
    by (simp add: rb_trilogy_release_buffer_def checked_apply on_part_def)
qed

lemma run_void_value:
  "m (ctx_conn ctx) = (Inr x, c) \<Longrightarrow> rb_pending (outside c) = None \<Longrightarrow> run_void m ctx = (Inr (), ctx\<lparr>ctx_conn := c\<rparr>)"
  by (simp add: run_void_def run_c_def ruby_then_apply)

lemma plain_shutdown:
  assumes "socket c = Some (plain_socket vm opts)"
  obtains v where "trilogy_sock_shutdown c = (Inr (), c\<lparr>outside := (outside c)\<lparr>rb_net := v\<rparr>\<rparr>)" "shut v"
proof -
  obtain r v where v: "shutdown_cb (raw_socket opts) (rb_net (outside c)) = (r, v)" by fastforce
  then have "r = Inr () \<and> shut v"
    using shutdown_stops [of "rb_net (outside c)" r v]
    by (auto simp: raw_socket_def handler_def cb_shutdown_shutdown_def split: if_splits)
  with v assms that [of v] show ?thesis
    by (simp add: trilogy_sock_shutdown_def with_socket_def ruby_socket_def on_part_def)
qed

lemma error_exception_cong:
  "error_message c = error_message d \<Longrightarrow> error_code c = error_code d \<Longrightarrow> rb_net (outside c) = rb_net (outside d) \<Longrightarrow>
    error_exception vm n rc msg c = error_exception vm n rc msg d"
  by (cases rc) (simp_all add: error_exception_def)

lemma handle_plain:
  fixes ctx :: "raw_sock trilogy_ctx"
  assumes sock: "socket (ctx_conn ctx) = Some (plain_socket vm opts)" and pending: "rb_pending (outside (ctx_conn ctx)) = None"
    and pool: "pool_ok (rb_pool (outside (ctx_conn ctx)))" and run: "handle_trilogy_error vm rc msg ctx = (r, ctx')"
  obtains v c' pool' where "r = Inl (error_exception vm (vm_errno vm (rb_net (outside (ctx_conn ctx)))) rc msg
         ((ctx_conn ctx)\<lparr>outside := (outside (ctx_conn ctx))\<lparr>rb_net := v\<rparr>\<rparr>))" "ctx' = ctx\<lparr>ctx_conn := c'\<rparr>"
    "if trilogy_error_recoverable_p rc then v = rb_net (outside (ctx_conn ctx)) else shut v"
    "outside c' = (outside (ctx_conn ctx))\<lparr>rb_pool := pool', rb_net := (if rc = TRILOGY_OPENSSL_ERR then vm_ssl_clear vm v else v)\<rparr>"
    "pool_ok pool'" "stored pool' = given_back (ctx_conn ctx) (stored (rb_pool (outside (ctx_conn ctx))))"
    "buf_mem (packet_buffer c') = None"
proof -
  let ?c = "ctx_conn ctx"
  obtain c1 pool' where c1: "rb_trilogy_release_buffer ?c = (Inr (), c1)" "outside c1 = (outside ?c)\<lparr>rb_pool := pool'\<rparr>"
      "pool_ok pool'" "stored pool' = given_back ?c (stored (rb_pool (outside ?c)))"
      "buf_mem (packet_buffer c1) = None" "socket c1 = socket ?c" "error_message c1 = error_message ?c" "error_code c1 = error_code ?c"
    by (rule release_run [OF pool])
  have release: "run_void rb_trilogy_release_buffer ctx = (Inr (), ctx\<lparr>ctx_conn := c1\<rparr>)"
    using c1(1,2) pending by (simp add: run_void_value)
  obtain v2 where v2: "trilogy_sock_shutdown c1 = (Inr (), c1\<lparr>outside := (outside c1)\<lparr>rb_net := v2\<rparr>\<rparr>)" "shut v2"
    using c1(6) sock plain_shutdown [of c1 vm opts] by metis
  define v where "v = (if trilogy_error_recoverable_p rc then rb_net (outside ?c) else v2)"
  let ?c2 = "c1\<lparr>outside := (outside c1)\<lparr>rb_net := v\<rparr>\<rparr>"
  have shut: "(if \<not> trilogy_error_recoverable_p rc \<and> socket c1 \<noteq> None then run_void trilogy_sock_shutdown else ruby_ret ())
      (ctx\<lparr>ctx_conn := c1\<rparr>) = (Inr (), ctx\<lparr>ctx_conn := ?c2\<rparr>)"
    using v2 c1(2,6) sock pending by (simp add: v_def run_void_value ruby_ret_def)
  let ?c3 = "?c2\<lparr>outside := (outside ?c2)\<lparr>rb_net := (if rc = TRILOGY_OPENSSL_ERR then vm_ssl_clear vm v else v)\<rparr>\<rparr>"
  have clear: "(if rc = TRILOGY_OPENSSL_ERR then run_void (clear_ssl_errors vm) else ruby_ret ())
      (ctx\<lparr>ctx_conn := ?c2\<rparr>) = (Inr (), ctx\<lparr>ctx_conn := ?c3\<rparr>)"
    using c1(2) pending by (simp add: run_void_value ruby_ret_def)
  have "error_exception vm n rc msg ?c2 = error_exception vm n rc msg (?c\<lparr>outside := (outside ?c)\<lparr>rb_net := v\<rparr>\<rparr>)" for n
    by (rule error_exception_cong) (simp_all add: c1)
  then have ended: "r = Inl (error_exception vm (vm_errno vm (rb_net (outside ?c))) rc msg (?c\<lparr>outside := (outside ?c)\<lparr>rb_net := v\<rparr>\<rparr>))"
      "ctx' = ctx\<lparr>ctx_conn := ?c3\<rparr>"
    using run release shut clear c1(2)
    by (simp_all add: handle_trilogy_error_def ruby_then_apply get_ctx_def Let_def ruby_stop_def)
  have "if trilogy_error_recoverable_p rc then v = rb_net (outside ?c) else shut v" using v2(2) by (simp add: v_def)
  from that [OF ended this] c1 show thesis by simp
qed

section \<open>Connecting\<close>

lemma upgrade_first:
  assumes mode: "ssl_mode \<notin> {TRILOGY_SSL_DISABLED, TRILOGY_SSL_PREFERRED_NOVERIFY}"
    and run: "upgrade_if_wanted vm alloc upgrade ssl_mode hs ctx = (Inr x, d)"
  shows "has_capability (hs_capabilities hs) TRILOGY_CAPABILITIES_SSL \<and> (\<exists>c. upgrade c = (Inr (), ctx_conn d))"
proof (cases "has_capability (hs_capabilities hs) TRILOGY_CAPABILITIES_SSL")
  case True
  with mode run obtain u where "expect_ok vm (ascii ''trilogy_ssl_upgrade'') upgrade u = (Inr x, d)"
    by (auto simp: upgrade_if_wanted_def elim!: ruby_then_value)
  then obtain v where "run_c upgrade u = (Inr (Inr v), d)"
    by (auto simp: expect_ok_def handle_raises elim!: ruby_then_value split: sum.splits)
  then have "upgrade (ctx_conn u) = (Inr (), ctx_conn d)"
    by (auto simp: run_c_def split: prod.splits option.splits sum.splits stop.splits)
  with True show ?thesis by blast
next
  case False
  with mode run show ?thesis by (simp add: upgrade_if_wanted_def)
qed

lemma c_string_strdup: "c_string (c_string s @ [0]) = c_string s"
  by (induction s) (simp_all add: c_string_def)

text \<open>A path that does not fit: the socket is closed, and freed, by both functions.\<close>

lemma long_path_fault:
  assumes path: "opt_path opts = Some path" "opt_hostname opts = None" "SUN_PATH_SIZE \<le> length (c_string path)"
    and password: "\<And>p. opt_password opts = Some p \<Longrightarrow> unat (opt_password_len opts) \<le> length p"
  shows "\<exists>c'. try_connect vm alloc unset shut (trilogy_sock_new opts) trilogy_sock_resolve c = (Inl Fault, c')
    \<and> rb_pending (outside c') = rb_pending (outside c) \<and> open_fds (sys (rb_net (outside c'))) = open_fds (sys (rb_net (outside c)))"
proof -
  have new: "trilogy_sock_new opts s = (Inr (raw_socket (copied_opts opts)),
      s\<lparr>sock_addr := None, sock_fd := -1, shut := False, sock_freed := False\<rparr>)" for s
    using password by (auto simp: trilogy_sock_new_def new_socket_def split: option.splits)
  have path': "opt_path (copied_opts opts) = Some (c_string path @ [0])" "opt_hostname (copied_opts opts) = None"
    using path by (simp_all add: copied_opts_def strdupnullok_def)
  show ?thesis
    using path(3)
    by (simp add: try_connect_def checked_apply on_part_def new or_close_def trilogy_sock_resolve_def path' raw_socket_def
        c_string_strdup ignored_def cb_raw_close_def)
qed

lemma expect_ok_crash:
  "m (ctx_conn ctx) = (Inl Fault, c) \<Longrightarrow> rb_pending (outside c) = None \<Longrightarrow>
    expect_ok vm msg m ctx = (Inl (Crashed Fault), ctx\<lparr>ctx_conn := c\<rparr>)"
  by (simp add: expect_ok_def run_c_def ruby_then_apply)

end
