(* ===== verification/Ruby_Exchange.thy ===== *)
theory Ruby_Exchange
  imports Ruby_Errors Any_Server
begin

text \<open>
  A Ruby client over a plain socket that does not fail: its methods return what the server sent. The
  loops of the extension, which try to write before they wait and tell a wait from a result, are
  reduced to those of \<^verbatim>\<open>src/blocking.c\<close>.
\<close>

section \<open>Loops of the extension\<close>

text \<open>Where waiting never fails, \<open>attempt\<close> has the result of the plain loop.\<close>

lemma retry_outcome:
  assumes run: "retry m wait c = Some (r, c')" and I: "I c"
    and m: "\<And>s r t. I s \<Longrightarrow> m s = (r, t) \<Longrightarrow> I t"
    and wait: "\<And>t w u. I t \<Longrightarrow> wait t = (w, u) \<Longrightarrow> w = Inr () \<and> I u"
  shows "retry (outcome m) wait c = Some (Inr r, c')"
  using run
proof (rule retry_Some_rule [where I = "\<lambda>s. I s \<and> retry (outcome m) wait c = retry (outcome m) wait s"
      and Q = "\<lambda>r t. retry (outcome m) wait c = Some (Inr r, t)"])
  show "I c \<and> retry (outcome m) wait c = retry (outcome m) wait c" using I by simp
  show "retry (outcome m) wait c = Some (Inr r, t)"
    if "I s \<and> retry (outcome m) wait c = retry (outcome m) wait s" "m s = (r, t)" "\<not> is_again r" for s r t
  proof -
    have "retry (outcome m) wait s = Some (Inr r, t)" using that(2,3) by (subst retry.simps) (simp add: outcome_def)
    with that(1) show ?thesis by simp
  qed
  show "retry (outcome m) wait c = Some (Inr (Inl e), u)"
    if "I s \<and> retry (outcome m) wait c = retry (outcome m) wait s" "m s = (r, t)" "is_again r" "wait t = (Inl e, u)" for s r t e u
    using that wait [OF m that(4)] by auto
  show "I u \<and> retry (outcome m) wait c = retry (outcome m) wait u"
    if "I s \<and> retry (outcome m) wait c = retry (outcome m) wait s" "m s = (r, t)" "is_again r" "wait t = (Inr (), u)" for s r t u
  proof -
    have "I u" using wait [OF m that(4)] that(1,2) by blast
    moreover have "retry (outcome m) wait s = retry (outcome m) wait u"
      using that(2,3,4) by (subst retry.simps) (simp add: outcome_def is_again_iff)
    ultimately show ?thesis using that(1) by simp
  qed
qed

context reliable
begin

lemma prudent_attempt:
  assumes m: "prudent p J m" and s: "good J (p s)" and run: "until_done m wait s = (r, t)"
    and wait: "\<And>s r t. good J (p s) \<Longrightarrow> wait s = (r, t) \<Longrightarrow> r = Inr () \<and> good J (p t) \<and> work (p t) \<le> work (p s)"
  shows "attempt m wait s = (Inr r, t)"
proof -
  have "good J (p t) \<and> ended r"
    by (rule prudent_loop [OF m _ s run]) (use wait in fastforce)
  then have "retry m wait s = Some (r, t)" using run by (auto simp: until_done_def split: option.splits)
  then have "retry (outcome m) wait s = Some (Inr r, t)"
    by (rule retry_outcome [where I = "\<lambda>s. good J (p s)", OF _ s]) (use prudentD(1) [OF m] wait in blast)+
  then show ?thesis by (simp add: attempt_def until_done_def)
qed

lemma good_wait_done:
  assumes c: "good J c" and run: "trilogy_sock_wait_read c = (r, d)"
  shows "r = Inr () \<and> good J d \<and> work d \<le> work c"
proof -
  obtain w where "wt TRILOGY_WAIT_READ (outside c) = (r, w)"
    using c run by (auto simp: good_def uses_def trilogy_sock_wait_read_def with_socket_def split: prod.splits)
  with wait_done [of "outside c"] good_wait [OF c run] c show ?thesis by (auto simp: good_def)
qed

lemma write_on_done:
  assumes buf: "buffer_ok (packet_buffer c)" and uses: "uses c" and live: "live (outside c)"
    and run: "on_again begin_write flush_writes c = (r, c')"
  shows "r = Inr () \<and> live (outside c') \<and> moved (c\<lparr>packet_buffer_written := 0\<rparr>) c' \<and> unwritten c' = []"
proof -
  let ?c = "c\<lparr>packet_buffer_written := 0\<rparr>"
  have c: "buffer_ok (packet_buffer ?c)" "packet_buffer_written ?c \<le> buf_len (packet_buffer ?c)" "uses ?c"
      "live (outside ?c)"
    using buf uses live by (simp_all add: uses_def)
  obtain x d where d: "trilogy_flush_writes ?c = (x, d)" by fastforce
  note F = flush_cases [OF c(1-3) d]
  then have moved: "moved ?c d" by blast
  have live_d: "live (outside d)" using flush_live [OF c d] by blast
  from flush_done [OF c d] show ?thesis
  proof
    assume "x = Inr ()"
    then show ?thesis using run d live_d F by (auto simp: on_again_def begin_write_def)
  next
    assume x: "x = Inl (Rc TRILOGY_AGAIN)"
    then have loop: "until_done trilogy_flush_writes trilogy_sock_wait_write d = (r, c')"
      using run d by (simp add: on_again_def begin_write_def flush_writes_def)
    have D: "buffer_ok (packet_buffer d)" "packet_buffer_written d \<le> buf_len (packet_buffer d)" "uses d"
      using moved_frame [OF moved] moved c by (simp_all add: moved_def)
    from flush_loop_done [OF D live_d loop] flush_loop_cases [OF D loop] moved_trans [OF moved] show ?thesis by auto
  qed
qed

lemma send_on_done:
  assumes buf: "buffer_ok (packet_buffer c)" and sock: "socket c = Some s" and uses: "uses c" and live: "live (outside c)"
    and m: "builds alloc m payload"
    and k: "\<And>b d. k b d = begin_write (d\<lparr>packet_parser := f b (packet_parser d)\<rparr>)"
    and fits: "affordable alloc (packet_limit (sock_opts s)) (length payload)"
    and run: "on_again (checked (built_command alloc seq m) k) flush_writes c = (r, c')"
  shows "r = Inr () \<and> live (outside c') \<and> session c' = session c \<and> unread c' = unread c \<and> (conn_ok c' \<longleftrightarrow> conn_ok c)
    \<and> outgoing (outside c') = outgoing (outside c) @ frames seq payload
    \<and> (\<exists>b. bld_seq b = seq + word_of_nat (length payload div TRILOGY_MAX_PACKET_LEN) + 1
          \<and> packet_parser c' = f b ((packet_parser c)\<lparr>sequence_number := seq + 1\<rparr>))"
  using buf sock uses m k
proof (cases rule: sending [where seq = seq and k = k and f = f and fl = flush_writes])
  case (refused e c1)
  with affordable_built [OF fits] show ?thesis by blast
next
  case (built b d)
  then have "on_again begin_write flush_writes d = (r, c')" "live (outside d)" using run live by simp_all
  note W = write_on_done [OF built(2,3) this(2,1)]
  then have moved: "moved (d\<lparr>packet_buffer_written := 0\<rparr>) c'" by blast
  note fr = moved_frame [OF moved]
  have start: "unwritten (d\<lparr>packet_buffer_written := 0\<rparr>) = frames seq payload"
      "session (d\<lparr>packet_buffer_written := 0\<rparr>) = session c" "buffered (d\<lparr>packet_buffer_written := 0\<rparr>) = buffered c"
      "conn_ok (d\<lparr>packet_buffer_written := 0\<rparr>) \<longleftrightarrow> conn_ok c"
    using built by (simp_all add: unwritten_def session_def buffered_def conn_ok_def)
  have "outgoing (outside c') = outgoing (outside c) @ frames seq payload"
    using moved W start(1) built(6) by (simp add: moved_def)
  moreover have "unread c' = unread c" using moved fr(4) start(3) built(6) by (simp add: unread_def moved_def)
  moreover have "packet_parser c' = f b ((packet_parser c)\<lparr>sequence_number := seq + 1\<rparr>)" using fr(2) built(9) by simp
  ultimately show ?thesis using W fr(3,5) start(2,4) built(10) by auto
qed

end

section \<open>The plain socket of a Ruby client\<close>

abbreviation ruby_read :: "size_t \<Rightarrow> (raw_sock rb_world, u8 list) op" where
  "ruby_read n \<equiv> on_net (raw_read n)"

abbreviation ruby_write :: "u8 list \<Rightarrow> (raw_sock rb_world, size_t) op" where
  "ruby_write bs \<equiv> on_net (raw_write bs)"

abbreviation ruby_wait :: "(raw_sock, 'f) rb_vm \<Rightarrow> trilogy_sockopt \<Rightarrow> trilogy_wait \<Rightarrow> (raw_sock rb_world, unit) op" where
  "ruby_wait vm opts \<equiv> wait_cb (plain_socket vm opts)"

text \<open>The buffers of a pool are whole.\<close>

definition pool_good :: "u8 list buffer_pool \<Rightarrow> bool" where
  "pool_good pool \<longleftrightarrow> pool_ok pool \<and>
     list_all (\<lambda>e. buffer_ok \<lparr>buf_len = 0, buf_cap = entry_cap e, buf_mem = Some (entry_buff e)\<rparr>) (stored pool)"

text \<open>
  An interpreter in which a wait ends when the descriptor is ready, the other clients leave the pool and
  the cache in order, and there is memory.
\<close>

definition considerate :: "('v, 'f) rb_vm \<Rightarrow> bool" where
  "considerate vm \<longleftrightarrow> (\<forall>fd flag t w. \<exists>n. vm_wait vm fd flag t w = Inr n \<and> 0 < n)
     \<and> (\<forall>w. pool_good (rb_pool w) \<longrightarrow> pool_good (fst (vm_others vm w)))
     \<and> (\<forall>w. cache_ok (vm_find_index vm) (rb_encodings w) \<longrightarrow> cache_ok (vm_find_index vm) (snd (vm_others vm w)))
     \<and> (\<forall>n. length (vm_xmalloc vm n) = unat n) \<and> (\<forall>width n. vm_room vm width n = None)
     \<and> (\<forall>n. unat n \<le> length (vm_values vm n))"

definition calm :: "(raw_sock, 'f) rb_vm \<Rightarrow> raw_sock rb_world \<Rightarrow> bool" where
  "calm vm w \<longleftrightarrow> usable (rb_net w) \<and> rb_pending w = None \<and> pool_good (rb_pool w)
     \<and> cache_ok (vm_find_index vm) (rb_encodings w)"

lemma considerate_wait:
  assumes "considerate vm" and "\<not> shut (rb_net w)" and "ruby_wait vm opts k w = (r, w')"
  shows "r = Inr () \<and> w' = w\<lparr>rb_pool := fst (vm_others vm w), rb_encodings := snd (vm_others vm w)\<rparr>"
proof -
  obtain n where "vm_wait vm (sock_fd (rb_net w)) (ruby_wait_flag k) (ruby_timeout opts k) w = Inr n" "0 < n"
    using assms(1) unfolding considerate_def by blast
  with assms(2,3) show ?thesis
    by (auto simp: ruby_socket_def cb_ruby_wait_def raw_socket_def checked_apply on_part_def cb_raw_fd_def)
qed

lemma raw_fd [simp]: "fd_cb (raw_socket opts) = cb_raw_fd"
  by (simp add: raw_socket_def)

lemma ruby_wait_keeps:
  assumes run: "ruby_wait vm opts k w = (r, w')"
  shows "r \<noteq> Inl Fault \<and> r \<noteq> Inl (Rc TRILOGY_OK) \<and> to_read (sys (rb_net w')) = to_read (sys (rb_net w))
    \<and> written (sys (rb_net w')) = written (sys (rb_net w))"
proof (cases "shut (rb_net w)")
  case True
  then show ?thesis using run by (auto simp: ruby_socket_def on_part_def handler_def cb_shutdown_wait_def)
next
  case False
  let ?w2 = "w\<lparr>rb_pool := fst (vm_others vm w), rb_encodings := snd (vm_others vm w)\<rparr>"
  obtain x v where v: "shutdown_cb (raw_socket opts) (rb_net w) = (x, v)" by fastforce
  have "x = Inr () \<and> to_read (sys v) = to_read (sys (rb_net w)) \<and> written (sys v) = written (sys (rb_net w))"
    using v False syscall_keeps [of "sys (rb_net w)"]
    by (auto simp: raw_socket_def handler_def cb_raw_shutdown_def checked_apply on_sys_def sys_close_def
        split: if_splits prod.splits sum.splits)
  then show ?thesis
    using run False v
    by (auto simp: ruby_socket_def cb_ruby_wait_def checked_apply on_part_def cb_raw_fd_def ignored_def
        split: sum.splits if_splits)
qed

text \<open>The laws of a stream for any interpreter, and those of one that does not fail for a considerate one.\<close>

abbreviation net_incoming :: "raw_sock rb_world \<Rightarrow> u8 list" where
  "net_incoming w \<equiv> to_read (sys (rb_net w))"

abbreviation net_outgoing :: "raw_sock rb_world \<Rightarrow> u8 list" where
  "net_outgoing w \<equiv> written (sys (rb_net w))"

abbreviation net_patience :: "raw_sock rb_world \<Rightarrow> nat" where
  "net_patience w \<equiv> length (schedule (sys (rb_net w)))"

lemma on_net_run: "on_net m w = (r, w') \<Longrightarrow> m (rb_net w) = (r, rb_net w') \<and> w' = w\<lparr>rb_net := rb_net w'\<rparr>"
  by (auto simp: on_part_def split: prod.splits)

interpretation ruby: transport ruby_read ruby_write "ruby_wait vm opts" net_incoming net_outgoing
  for vm :: "(raw_sock, 'f) rb_vm" and opts
proof
  show "length bs \<le> unat n \<and> net_incoming w = bs @ net_incoming w' \<and> net_outgoing w' = net_outgoing w"
    if "ruby_read n w = (Inr bs, w')" for n w bs w'
    using raw.read_law on_net_run [OF that] by blast
  show "(\<exists>rc. e = Rc rc \<and> rc \<noteq> TRILOGY_OK) \<and> net_incoming w' = net_incoming w \<and> net_outgoing w' = net_outgoing w"
    if "ruby_read n w = (Inl e, w')" for n w e w'
    using raw.read_fail on_net_run [OF that] by blast
  show "unat n \<le> length bs \<and> net_outgoing w' = net_outgoing w @ take (unat n) bs \<and> net_incoming w' = net_incoming w"
    if "ruby_write bs w = (Inr n, w')" for n w bs w'
    using raw.write_law on_net_run [OF that] by blast
  show "(\<exists>rc. e = Rc rc \<and> rc \<noteq> TRILOGY_OK) \<and> net_outgoing w' = net_outgoing w \<and> net_incoming w' = net_incoming w"
    if "ruby_write bs w = (Inl e, w')" for bs w e w'
    using raw.write_fail on_net_run [OF that] by blast
  show "r \<noteq> Inl Fault \<and> r \<noteq> Inl (Rc TRILOGY_OK) \<and> net_incoming w' = net_incoming w \<and> net_outgoing w' = net_outgoing w"
    if "ruby_wait vm opts k w = (r, w')" for k w r w'
    using ruby_wait_keeps [OF that] .
qed

lemma calm_cong: "calm vm w \<Longrightarrow> usable (rb_net w') \<Longrightarrow> w' = w\<lparr>rb_net := rb_net w'\<rparr> \<Longrightarrow> calm vm w'"
  unfolding calm_def by (metis rb_world.select_convs rb_world.surjective rb_world.update_convs(1))

lemma calm_waits:
  assumes "considerate vm" and "calm vm w" and "ruby_wait vm opts k w = (r, w')"
  shows "r = Inr () \<and> calm vm w' \<and> net_patience w' = net_patience w"
proof -
  have "\<not> shut (rb_net w)" using assms(2) by (simp add: calm_def usable_def)
  note W = considerate_wait [OF assms(1) this assms(3)]
  with assms(1,2) show ?thesis by (simp add: calm_def considerate_def)
qed

lemma ruby_reliable:
  assumes vm: "considerate vm"
  shows "reliable ruby_read ruby_write (ruby_wait vm opts) net_incoming net_outgoing net_patience (calm vm)"
proof
  show "calm vm w' \<and> net_patience w' \<le> net_patience w \<and> (r = Inl (Rc TRILOGY_AGAIN) \<longrightarrow> net_patience w' < net_patience w)"
    if w: "calm vm w" and "ruby_read n w = (r, w')" for w n r w'
  proof -
    note run = on_net_run [OF that(2)]
    have u: "usable (rb_net w)" using w by (simp add: calm_def)
    from sure_raw.read_again [OF u] run calm_cong [OF w] show ?thesis by blast
  qed
  show "calm vm w' \<and> net_patience w' \<le> net_patience w \<and> (r = Inl (Rc TRILOGY_AGAIN) \<or> r = Inr 0 \<and> bs \<noteq> [] \<longrightarrow> net_patience w' < net_patience w)"
    if w: "calm vm w" and "ruby_write bs w = (r, w')" for w bs r w'
  proof -
    note run = on_net_run [OF that(2)]
    have u: "usable (rb_net w)" using w by (simp add: calm_def)
    from sure_raw.write_again [OF u] run calm_cong [OF w] show ?thesis by blast
  qed
  show "calm vm w' \<and> net_patience w' \<le> net_patience w \<and> r \<noteq> Inl Hang"
    if "calm vm w" "ruby_wait vm opts k w = (r, w')" for w k r w'
    using calm_waits [OF vm that] by simp
  show "e = Rc TRILOGY_AGAIN" if "calm vm w" "ruby_read n w = (Inl e, w')" for w n e w'
    using sure_raw.read_done on_net_run [OF that(2)] that(1) unfolding calm_def by blast
  show "n = 0 \<or> net_incoming w = []" if "calm vm w" "ruby_read n w = (Inr [], w')" for w n w'
    using sure_raw.read_end on_net_run [OF that(2)] that(1) unfolding calm_def by blast
  show "e = Rc TRILOGY_AGAIN" if "calm vm w" "ruby_write bs w = (Inl e, w')" for w bs e w'
    using sure_raw.write_done on_net_run [OF that(2)] that(1) unfolding calm_def by blast
  show "r = Inr ()" if "calm vm w" "ruby_wait vm opts k w = (r, w')" for w k r w'
    using calm_waits [OF vm that] by simp
qed

section \<open>Between two methods\<close>

text \<open>The connection has no packet buffer, and the parser waits for the next packet.\<close>

definition at_rest :: "(raw_sock, 'f) rb_vm \<Rightarrow> trilogy_sockopt \<Rightarrow> raw_sock trilogy_ctx \<Rightarrow> bool" where
  "at_rest vm opts ctx \<longleftrightarrow> (let c = ctx_conn ctx in
     socket c = Some (plain_socket vm opts) \<and> calm vm (outside c) \<and> buf_mem (packet_buffer c) = None
     \<and> length (recv_buff c) = TRILOGY_DEFAULT_BUF_SIZE \<and> recv_buff_pos c \<le> recv_buff_len c
     \<and> unat (recv_buff_len c) \<le> TRILOGY_DEFAULT_BUF_SIZE
     \<and> state (packet_parser c) = S_LEN_0 \<and> \<not> fragment (packet_parser c) \<and> \<not> deferred_end_callback (packet_parser c))"

text \<open>Within a method.\<close>

definition engaged :: "(raw_sock, 'f) rb_vm \<Rightarrow> trilogy_sockopt \<Rightarrow> raw_sock rb_world trilogy_conn \<Rightarrow> bool" where
  "engaged vm opts c \<longleftrightarrow> ready c \<and> socket c = Some (plain_socket vm opts) \<and> calm vm (outside c)"

abbreviation ruby_unread :: "raw_sock rb_world trilogy_conn \<Rightarrow> u8 list" where
  "ruby_unread c \<equiv> buffered c @ net_incoming (outside c)"

abbreviation uses_ruby :: "(raw_sock, 'f) rb_vm \<Rightarrow> trilogy_sockopt \<Rightarrow> raw_sock rb_world trilogy_conn \<Rightarrow> bool" where
  "uses_ruby vm opts \<equiv> transport.uses ruby_read ruby_write (ruby_wait vm opts)"

lemma ruby_uses: "socket c = Some (plain_socket vm opts) \<Longrightarrow> uses_ruby vm opts c"
  unfolding ruby.uses_def by (simp add: ruby_socket_def)

lemma ruby_unread_eq: "transport.unread net_incoming c = ruby_unread c"
  by (simp add: ruby.unread_def)

lemma run_c_calm:
  assumes "m (ctx_conn ctx) = (r, c)" and "calm vm (outside c)"
  shows "run_c m ctx = ((case r of Inr x \<Rightarrow> Inr (Inr x) | Inl (Rc rc) \<Rightarrow> Inr (Inl rc) | Inl e \<Rightarrow> Inl (Crashed e)), ctx\<lparr>ctx_conn := c\<rparr>)"
  using assms by (auto simp: run_c_def calm_def split: sum.splits stop.splits)

lemma expect_ok_calm:
  "m (ctx_conn ctx) = (Inr x, c) \<Longrightarrow> calm vm (outside c) \<Longrightarrow> expect_ok vm msg m ctx = (Inr x, ctx\<lparr>ctx_conn := c\<rparr>)"
  by (simp add: expect_ok_def ruby_then_apply run_c_calm)

lemma expect_ok_code:
  "m (ctx_conn ctx) = (Inl (Rc rc), c) \<Longrightarrow> calm vm (outside c) \<Longrightarrow>
    expect_ok vm msg m ctx = handle_trilogy_error vm rc msg (ctx\<lparr>ctx_conn := c\<rparr>)"
  by (simp add: expect_ok_def ruby_then_apply run_c_calm)

lemma run_void_calm:
  "m (ctx_conn ctx) = (Inr x, c) \<Longrightarrow> calm vm (outside c) \<Longrightarrow> run_void m ctx = (Inr (), ctx\<lparr>ctx_conn := c\<rparr>)"
  by (simp add: run_void_def ruby_then_apply run_c_calm)

text \<open>A buffer is taken; its length is the one that the connection had before.\<close>

lemma acquire_good:
  assumes vm: "considerate vm" and ctx: "at_rest vm opts ctx"
  obtains c where "run_void (rb_trilogy_acquire_buffer vm) ctx = (Inr (), ctx\<lparr>ctx_conn := c\<rparr>)"
    and "engaged vm opts (c\<lparr>packet_buffer := (packet_buffer c)\<lparr>buf_len := 0\<rparr>\<rparr>)"
    and "session c = session (ctx_conn ctx)" and "packet_parser c = packet_parser (ctx_conn ctx)"
    and "buffered c = buffered (ctx_conn ctx)" and "rb_net (outside c) = rb_net (outside (ctx_conn ctx))"
proof -
  let ?c = "ctx_conn ctx" and ?size = "word_of_nat TRILOGY_DEFAULT_BUF_SIZE :: size_t"
  let ?pool = "rb_pool (outside (ctx_conn ctx))"
  have calm: "calm vm (outside ?c)" using ctx by (simp add: at_rest_def Let_def)
  then have pool: "pool_ok ?pool" "pool_good ?pool" by (simp_all add: calm_def pool_good_def)
  obtain pool' where run: "buffer_checkout (vm_xmalloc vm ?size) ?size ?pool =
      (Inr (if stored ?pool = [] then \<lparr>entry_cap = ?size, entry_buff = vm_xmalloc vm ?size\<rparr> else last (stored ?pool)), pool')"
      "pool_ok pool'" "stored pool' = butlast (stored ?pool)"
    using checkout_stack [OF pool(1)] by blast
  define e where "e = (if stored ?pool = [] then \<lparr>entry_cap = ?size, entry_buff = vm_xmalloc vm ?size\<rparr> else last (stored ?pool))"
  have size: "unat ?size = TRILOGY_DEFAULT_BUF_SIZE" by (simp add: TRILOGY_DEFAULT_BUF_SIZE_def)
  have "buffer_ok \<lparr>buf_len = 0, buf_cap = ?size, buf_mem = Some (vm_xmalloc vm ?size)\<rparr>"
    using vm size by (simp add: considerate_def buffer_ok_def object_limit_def TRILOGY_DEFAULT_BUF_SIZE_def)
  moreover have "buffer_ok \<lparr>buf_len = 0, buf_cap = entry_cap e, buf_mem = Some (entry_buff e)\<rparr>"
    if "e \<in> set (stored ?pool)" for e
    using pool(2) that by (simp add: pool_good_def list_all_iff)
  ultimately have e: "buffer_ok \<lparr>buf_len = 0, buf_cap = entry_cap e, buf_mem = Some (entry_buff e)\<rparr>"
    by (simp add: e_def)
  define c where "c = ?c\<lparr>outside := (outside ?c)\<lparr>rb_pool := pool'\<rparr>,
    packet_buffer := (packet_buffer ?c)\<lparr>buf_mem := Some (entry_buff e), buf_cap := entry_cap e\<rparr>\<rparr>"
  have "pool_good pool'"
    using pool(2) run(2,3) by (auto simp: pool_good_def list_all_iff dest: in_set_butlastD)
  then have calm': "calm vm (outside c)" using calm by (simp add: calm_def c_def)
  have "rb_trilogy_acquire_buffer vm ?c = (Inr (), c)"
    using ctx run(1) by (simp add: at_rest_def Let_def rb_trilogy_acquire_buffer_def checked_apply on_part_def c_def e_def)
  from run_void_calm [of "rb_trilogy_acquire_buffer vm" ctx, OF this calm'] show ?thesis
  proof (rule that)
    have "packet_buffer c\<lparr>buf_len := 0\<rparr> = \<lparr>buf_len = 0, buf_cap = entry_cap e, buf_mem = Some (entry_buff e)\<rparr>"
      by (simp add: c_def)
    then show "engaged vm opts (c\<lparr>packet_buffer := (packet_buffer c)\<lparr>buf_len := 0\<rparr>\<rparr>)"
      using ctx e calm' by (simp add: engaged_def ready_def conn_ok_def at_rest_def Let_def) (simp add: c_def)
  qed (simp_all add: c_def session_def buffered_def)
qed

lemma built_command_length:
  "built_command alloc seq m (c\<lparr>packet_buffer := (packet_buffer c)\<lparr>buf_len := n\<rparr>\<rparr>) = built_command alloc seq m c"
proof -
  have "trilogy_builder_init alloc (buff\<lparr>buf_len := n\<rparr>) seq (b\<lparr>bld_buffer := buff\<lparr>buf_len := n\<rparr>\<rparr>) =
      trilogy_builder_init alloc buff seq (b\<lparr>bld_buffer := buff\<rparr>)" for buff b
    by (simp add: trilogy_builder_init_def)
  then have "begin_command_phase alloc seq (c\<lparr>packet_buffer := (packet_buffer c)\<lparr>buf_len := n\<rparr>\<rparr>) = begin_command_phase alloc seq c"
    by (simp add: begin_command_phase_def with_builder_def checked_apply)
  then show ?thesis by (simp add: built_command_def checked_apply)
qed

text \<open>And given back.\<close>

lemma release_good:
  assumes c: "engaged vm opts (ctx_conn ctx)"
  obtains ctx' where "run_void rb_trilogy_release_buffer ctx = (Inr (), ctx')" and "at_rest vm opts ctx'"
    and "session (ctx_conn ctx') = session (ctx_conn ctx)" and "buffered (ctx_conn ctx') = buffered (ctx_conn ctx)"
    and "rb_net (outside (ctx_conn ctx')) = rb_net (outside (ctx_conn ctx))"
    and "error_message (ctx_conn ctx') = error_message (ctx_conn ctx)"
    and "packet_parser (ctx_conn ctx') = packet_parser (ctx_conn ctx)"
    and "ctx_query_flags ctx' = ctx_query_flags ctx" "ctx_encoding ctx' = ctx_encoding ctx"
proof -
  let ?c = "ctx_conn ctx"
  let ?pool = "rb_pool (outside ?c)"
  have buf: "buffer_ok (packet_buffer ?c)" and calm: "calm vm (outside ?c)"
    using c by (simp_all add: engaged_def ready_def conn_ok_def)
  obtain mem where mem: "buf_mem (packet_buffer ?c) = Some mem" using buf by (auto simp: buffer_ok_def split: option.splits)
  let ?e = "\<lparr>entry_cap = buf_cap (packet_buffer ?c), entry_buff = mem\<rparr>"
  have pool: "pool_ok ?pool" "pool_good ?pool" using calm by (simp_all add: calm_def pool_good_def)
  obtain kept pool' where run: "buffer_checkin ?e ?pool = (Inr kept, pool')" "pool_ok pool'"
      "stored pool' = (if length (stored ?pool) < 8 then stored ?pool @ [?e] else stored ?pool)"
    using checkin_stack [OF pool(1), of ?e] by blast
  have "buffer_ok \<lparr>buf_len = 0, buf_cap = entry_cap ?e, buf_mem = Some (entry_buff ?e)\<rparr>"
    using buf mem by (simp add: buffer_ok_def)
  then have good: "pool_good pool'" using pool(2) run(2,3) by (simp add: pool_good_def)
  define d where "d = ?c\<lparr>outside := (outside ?c)\<lparr>rb_pool := pool'\<rparr>,
    packet_buffer := (packet_buffer ?c)\<lparr>buf_mem := None, buf_cap := 0\<rparr>\<rparr>"
  have calm': "calm vm (outside d)" using calm good by (simp add: calm_def d_def)
  have "rb_trilogy_release_buffer ?c = (Inr (), d)"
    using mem run(1) by (simp add: rb_trilogy_release_buffer_def checked_apply on_part_def d_def)
  from run_void_calm [of rb_trilogy_release_buffer ctx, OF this calm'] show ?thesis
  proof (rule that)
    show "at_rest vm opts (ctx\<lparr>ctx_conn := d\<rparr>)"
      using c calm' by (simp add: at_rest_def Let_def engaged_def ready_def conn_ok_def) (simp add: d_def)
  qed (simp_all add: d_def session_def buffered_def)
qed

end
