(* ===== verification/Ruby_Answers.thy ===== *)
theory Ruby_Answers
  imports Ruby_Exchange
begin

text \<open>
  Commands and queries of a Ruby client over a plain socket that does not fail: what the server answers is what
  the method returns or raises, and the client is at rest again.
\<close>

section \<open>Sending\<close>

lemma ruby_sent:
  assumes vm: "considerate vm" and ctx: "at_rest vm opts ctx" and m: "builds alloc m payload"
    and k: "\<And>b d. k b d = begin_write (d\<lparr>packet_parser := f b (packet_parser d)\<rparr>)"
    and fits: "affordable alloc (packet_limit opts) (length payload)"
  obtains c b where "ruby_then (run_void (rb_trilogy_acquire_buffer vm)) (\<lambda>_.
      ruby_then (expect_ok vm msg (on_again (checked (built_command alloc seq m) k) flush_writes)) next_step) ctx
        = next_step () (ctx\<lparr>ctx_conn := c\<rparr>)"
    and "conn_ok c" and "socket c = Some (plain_socket vm opts)" and "calm vm (outside c)"
    and "session c = session (ctx_conn ctx)" and "ruby_unread c = ruby_unread (ctx_conn ctx)"
    and "net_outgoing (outside c) = net_outgoing (outside (ctx_conn ctx)) @ frames seq payload"
    and "bld_seq b = seq + word_of_nat (length payload div TRILOGY_MAX_PACKET_LEN) + 1"
    and "packet_parser c = f b ((packet_parser (ctx_conn ctx))\<lparr>sequence_number := seq + 1\<rparr>)"
proof -
  obtain c0 where c0: "run_void (rb_trilogy_acquire_buffer vm) ctx = (Inr (), ctx\<lparr>ctx_conn := c0\<rparr>)"
      "engaged vm opts (c0\<lparr>packet_buffer := (packet_buffer c0)\<lparr>buf_len := 0\<rparr>\<rparr>)"
      "session c0 = session (ctx_conn ctx)" "packet_parser c0 = packet_parser (ctx_conn ctx)"
      "buffered c0 = buffered (ctx_conn ctx)" "rb_net (outside c0) = rb_net (outside (ctx_conn ctx))"
    by (rule acquire_good [OF vm ctx])
  let ?c = "c0\<lparr>packet_buffer := (packet_buffer c0)\<lparr>buf_len := 0\<rparr>\<rparr>"
  let ?send = "on_again (checked (built_command alloc seq m) k) flush_writes"
  have c: "buffer_ok (packet_buffer ?c)" "socket ?c = Some (plain_socket vm opts)" "calm vm (outside ?c)" "conn_ok ?c"
    using c0(2) unfolding engaged_def ready_def conn_ok_def by blast+
  have same: "?send ?c = ?send c0"
    unfolding on_again_def checked_apply by (simp only: built_command_length)
  obtain r d where run: "?send ?c = (r, d)" by fastforce
  have fits': "affordable alloc (packet_limit (sock_opts (plain_socket vm opts))) (length payload)"
    using fits by (simp add: ruby_socket_def raw_socket_def)
  note S = reliable.send_on_done [OF ruby_reliable [OF vm] c(1,2) ruby_uses [OF c(2)] c(3) m k fits' run, unfolded ruby_unread_eq]
  have sess: "session d = session (ctx_conn ctx)" using S c0(3) by (simp add: session_def)
  then have sock: "socket d = Some (plain_socket vm opts)" using c0(3) c(2) S by (simp add: session_def)
  have "expect_ok vm msg ?send (ctx\<lparr>ctx_conn := c0\<rparr>) = (Inr (), ctx\<lparr>ctx_conn := d\<rparr>)"
    using S run same by (intro expect_ok_calm [THEN trans]) simp_all
  then have go: "ruby_then (run_void (rb_trilogy_acquire_buffer vm)) (\<lambda>_. ruby_then (expect_ok vm msg ?send) next_step) ctx
      = next_step () (ctx\<lparr>ctx_conn := d\<rparr>)"
    using c0(1) by (simp add: ruby_then_apply)
  obtain b where "bld_seq b = seq + word_of_nat (length payload div TRILOGY_MAX_PACKET_LEN) + 1"
      "packet_parser d = f b ((packet_parser (ctx_conn ctx))\<lparr>sequence_number := seq + 1\<rparr>)"
    using S c0(4) by auto
  from that [OF go _ sock _ sess _ _ this] show ?thesis
    using S c0(5,6) c(4) by (simp add: buffered_def)
qed

section \<open>The error of the server\<close>

lemma handle_error_good:
  assumes c: "engaged vm opts (ctx_conn ctx)"
  obtains ctx' where "handle_trilogy_error vm TRILOGY_ERR msg ctx = (Inl (Made ''ProtocolError'' ''from_code''
      (error_message (ctx_conn ctx) @ ascii '' ('' @ msg @ ascii '')'') (uint (error_code (ctx_conn ctx)))), ctx')"
    and "at_rest vm opts ctx'" and "session (ctx_conn ctx') = session (ctx_conn ctx)"
    and "ruby_unread (ctx_conn ctx') = ruby_unread (ctx_conn ctx)"
    and "net_outgoing (outside (ctx_conn ctx')) = net_outgoing (outside (ctx_conn ctx))"
proof (rule release_good [OF c])
  fix ctx' assume R: "run_void rb_trilogy_release_buffer ctx = (Inr (), ctx')" "at_rest vm opts ctx'"
    "session (ctx_conn ctx') = session (ctx_conn ctx)" "buffered (ctx_conn ctx') = buffered (ctx_conn ctx)"
    "rb_net (outside (ctx_conn ctx')) = rb_net (outside (ctx_conn ctx))"
  have "error_message (ctx_conn ctx') = error_message (ctx_conn ctx)" "error_code (ctx_conn ctx') = error_code (ctx_conn ctx)"
    using R(3) by (simp_all add: session_def)
  then show ?thesis
    using R by (intro that [of ctx'])
      (simp_all add: handle_trilogy_error_def ruby_then_apply trilogy_error_recoverable_p_def error_exception_def Let_def)
qed

section \<open>Commands\<close>

text \<open>What a method makes of an answer of one packet.\<close>

primrec ruby_verdict :: "'a \<Rightarrow> u8 list \<Rightarrow> reply \<Rightarrow> ruby_stop + 'a" where
  "ruby_verdict x msg (Ok_reply affected last_id flags warnings t) = Inr x"
| "ruby_verdict x msg (Err_reply err) = Inl (Made ''ProtocolError'' ''from_code''
     (err_error_message err @ ascii '' ('' @ msg @ ascii '')'') (uint (err_error_code err)))"
| "ruby_verdict x msg (Columns_reply n) = Inr x"

lemma note_reply_engaged:
  "ready d \<Longrightarrow> socket d = Some (plain_socket vm opts) \<Longrightarrow> calm vm (outside d) \<Longrightarrow> engaged vm opts (note_reply a d)"
  by (simp add: engaged_def ready_def)

lemma noted_session: "session c' = session d \<Longrightarrow> noted a c d \<Longrightarrow> noted a c c'"
  by (auto simp: noted_def session_def Let_def split: reply.splits)

lemma command_answered:
  assumes vm: "considerate vm" and ctx: "at_rest vm opts ctx"
    and cap: "has_capability (capabilities (ctx_conn ctx)) TRILOGY_CAPABILITIES_PROTOCOL_41"
    and m: "builds alloc m payload" and fits: "affordable alloc (packet_limit opts) (length payload)"
    and valid: "reply_valid (capabilities (ctx_conn ctx)) a" "\<And>n. a \<noteq> Columns_reply n"
    and memory: "\<not> memory_tight alloc (length (reply_bytes (capabilities (ctx_conn ctx)) a))"
    and stream: "ruby_unread (ctx_conn ctx) = frames 1 (reply_bytes (capabilities (ctx_conn ctx)) a) @ extra"
    and run: "rb_command vm (checked (built_command alloc 0 m) (\<lambda>_. begin_write)) send_msg (read_generic_response alloc) recv_msg ctx
      = (r, ctx')"
  shows "r = ruby_verdict Qtrue (ascii recv_msg) a \<and> at_rest vm opts ctx' \<and> noted a (ctx_conn ctx) (ctx_conn ctx')
    \<and> ruby_unread (ctx_conn ctx') = extra
    \<and> net_outgoing (outside (ctx_conn ctx')) = net_outgoing (outside (ctx_conn ctx)) @ frames 0 payload"
proof -
  let ?c0 = "ctx_conn ctx"
  let ?reply = "reply_bytes (capabilities ?c0) a"
  let ?rest = "\<lambda>_. ruby_then (expect_ok vm (ascii recv_msg) (until_done (read_generic_response alloc) trilogy_sock_wait_read)) (\<lambda>_.
     ruby_then (run_void rb_trilogy_release_buffer) (\<lambda>_. ruby_ret Qtrue))"
  obtain c b where sent: "rb_command vm (checked (built_command alloc 0 m) (\<lambda>_. begin_write)) send_msg (read_generic_response alloc) recv_msg ctx
        = ?rest () (ctx\<lparr>ctx_conn := c\<rparr>)"
    and c: "conn_ok c" "socket c = Some (plain_socket vm opts)" "calm vm (outside c)" "session c = session ?c0"
      "ruby_unread c = ruby_unread ?c0" "net_outgoing (outside c) = net_outgoing (outside ?c0) @ frames 0 payload"
    and parser: "packet_parser c = (\<lambda>_ q. q) b ((packet_parser ?c0)\<lparr>sequence_number := 0 + 1\<rparr>)"
    unfolding rb_command_def by (rule ruby_sent [OF vm ctx m begin_write_plain fits, where msg = "ascii send_msg" and next_step = ?rest])
  have ready: "ready c" "sequence_number (packet_parser c) = 1"
    using c(1) parser ctx by (simp_all add: ready_def at_rest_def Let_def)
  have caps: "capabilities d = capabilities ?c0" if "session d = session c" for d using that c(4) by (simp add: session_def)
  have handled: "handle_generic_response d = (reply_result a, note_reply a d)"
    if "arrived ?reply fin d" "session d = session c" for d fin
    using generic_answer_handled [of d a fin] that valid cap caps [OF that(2)] by simp
  have result: "\<not> is_again (reply_result a)" by (cases a) simp_all
  have stream': "transport.unread net_incoming c = frames (sequence_number (packet_parser c)) ?reply @ extra"
    using stream c(5) ready(2) by (simp add: ruby_unread_eq)
  obtain y d' where loop: "until_done (checked (read_packet alloc) (\<lambda>_. handle_generic_response)) trilogy_sock_wait_read c = (y, d')"
    by fastforce
  obtain d where d: "handle_generic_response d = (y, d')" "arrived ?reply (after_fragments (sequence_number (packet_parser c)) ?reply) d"
      "transport.unread net_incoming d = extra" "session d = session c" "net_outgoing (outside d) = net_outgoing (outside c)"
      "calm vm (outside d)"
    by (rule reliable.answer_done [OF ruby_reliable [OF vm] ready(1) ruby_uses [OF c(2)] c(3) stream' memory _ loop])
      (use handled result in auto)
  have y: "y = reply_result a" "d' = note_reply a d" using handled [OF d(2,4)] d(1) by simp_all
  have sock: "socket d = Some (plain_socket vm opts)" using d(4) c(2) by (simp add: session_def)
  have eng: "engaged vm opts d'" unfolding y(2) using d(2,6) sock by (intro note_reply_engaged) (simp_all add: arrived_def)
  have frame: "ruby_unread d' = extra" "net_outgoing (outside d') = net_outgoing (outside ?c0) @ frames 0 payload"
    using d(3,5) c(6) by (simp_all add: y(2) ruby_unread_eq)
  have noted: "noted a ?c0 d'" unfolding y(2) by (rule noted_reply) (simp add: d(4) c(4))
  have go: "(r, ctx') = ?rest () (ctx\<lparr>ctx_conn := c\<rparr>)" using run sent by simp
  have eng': "engaged vm opts (ctx_conn (ctx\<lparr>ctx_conn := d'\<rparr>))" using eng by simp
  have calm': "calm vm (outside d')" using eng by (simp add: engaged_def)
  show ?thesis
  proof (cases a)
    case (Err_reply err)
    obtain ctx2 where H: "handle_trilogy_error vm TRILOGY_ERR (ascii recv_msg) (ctx\<lparr>ctx_conn := d'\<rparr>) =
        ((Inl (Made ''ProtocolError'' ''from_code'' (error_message d' @ ascii '' ('' @ ascii recv_msg @ ascii '')'') (uint (error_code d'))))
          :: ruby_stop + unit, ctx2)"
      "at_rest vm opts ctx2" "session (ctx_conn ctx2) = session d'" "ruby_unread (ctx_conn ctx2) = ruby_unread d'"
      "net_outgoing (outside (ctx_conn ctx2)) = net_outgoing (outside d')"
      using handle_error_good [OF eng', of "ascii recv_msg"] by auto
    have "expect_ok vm (ascii recv_msg) (until_done (read_generic_response alloc) trilogy_sock_wait_read) (ctx\<lparr>ctx_conn := c\<rparr>)
        = handle_trilogy_error vm TRILOGY_ERR (ascii recv_msg) (ctx\<lparr>ctx_conn := d'\<rparr>)"
      by (rule expect_ok_code [THEN trans]) (use loop y(1) Err_reply calm' in \<open>simp_all add: read_generic_response_def\<close>)
    then have "r = ruby_verdict Qtrue (ascii recv_msg) a" "ctx' = ctx2"
      using go H(1) Err_reply by (simp_all add: ruby_then_apply y(2) set_error_def)
    with H frame noted_session [OF H(3) noted] show ?thesis by simp
  next
    case (Ok_reply affected last_id flags warnings t)
    obtain ctx2 where R: "run_void rb_trilogy_release_buffer (ctx\<lparr>ctx_conn := d'\<rparr>) = (Inr (), ctx2)" "at_rest vm opts ctx2"
        "session (ctx_conn ctx2) = session d'" "buffered (ctx_conn ctx2) = buffered d'"
        "rb_net (outside (ctx_conn ctx2)) = rb_net (outside d')"
      using release_good [OF eng'] by auto
    have "expect_ok vm (ascii recv_msg) (until_done (read_generic_response alloc) trilogy_sock_wait_read) (ctx\<lparr>ctx_conn := c\<rparr>)
        = (Inr (), ctx\<lparr>ctx_conn := d'\<rparr>)"
      by (rule expect_ok_calm [THEN trans]) (use loop y(1) Ok_reply calm' in \<open>simp_all add: read_generic_response_def\<close>)
    then have "r = Inr Qtrue" "ctx' = ctx2" using go R(1) by (simp_all add: ruby_then_apply ruby_ret_def)
    with R frame noted_session [OF R(3) noted] Ok_reply show ?thesis by simp
  qed (use valid(2) in blast)
qed

end
