(* ===== verification/Ruby_Tables.thy ===== *)
theory Ruby_Tables
  imports Ruby_Answers
begin

text \<open>
  Queries of a Ruby client over a plain socket that does not fail.
\<close>

section \<open>The first answer\<close>

lemma good_true: "conn_ok c \<Longrightarrow> uses_ruby vm opts c \<Longrightarrow> calm vm (outside c) \<Longrightarrow> considerate vm \<Longrightarrow>
    responsive.good ruby_read ruby_write (ruby_wait vm opts) net_outgoing (calm vm) (\<lambda>_ _. True) c"
  using responsive.good_def [OF reliable.axioms(1) [OF ruby_reliable]] by blast

lemma query_recv_good:
  assumes vm: "considerate vm" and c: "engaged vm opts c"
    and cap: "has_capability (capabilities c) TRILOGY_CAPABILITIES_PROTOCOL_41"
    and valid: "reply_valid (capabilities c) a" and memory: "\<not> memory_tight alloc (length (reply_bytes (capabilities c) a))"
    and stream: "ruby_unread c = frames (sequence_number (packet_parser c)) (reply_bytes (capabilities c) a) @ extra"
  obtains d where "query_recv_loop alloc c = (Inr (reply_result a, reply_count a 0), note_reply a d)"
    and "engaged vm opts d" and "session d = session c" and "ruby_unread d = extra"
    and "net_outgoing (outside d) = net_outgoing (outside c)"
    and "sequence_number (packet_parser d) = after_fragments (sequence_number (packet_parser c)) (reply_bytes (capabilities c) a)"
proof -
  note R = ruby_reliable [OF vm, of opts]
  let ?reply = "reply_bytes (capabilities c) a"
  have ready: "ready c" and sock: "socket c = Some (plain_socket vm opts)" and calm: "calm vm (outside c)"
    using c by (simp_all add: engaged_def)
  obtain y d' x' where run: "until_done (trilogy_query_recv alloc) (on_conn trilogy_sock_wait_read) (c, 0) = (y, (d', x'))"
    by (metis prod_cases3)
  have handled: "query_response (d, 0) = (reply_result a, (note_reply a d, reply_count a 0))"
    if "arrived ?reply fin d" "session d = session c" for d fin
  proof -
    have "capabilities d = capabilities c" using that(2) by (simp add: session_def)
    then show ?thesis using query_answer_handled [of d a fin] that valid cap by simp
  qed
  have result: "\<not> is_again (reply_result a)" by (cases a) simp_all
  have stream': "transport.unread net_incoming c = frames (sequence_number (packet_parser c)) ?reply @ extra"
    using stream by (simp add: ruby_unread_eq)
  obtain d where d: "query_response (d, 0) = (y, (d', x'))" "arrived ?reply (after_fragments (sequence_number (packet_parser c)) ?reply) d"
      "transport.unread net_incoming d = extra" "session d = session c" "net_outgoing (outside d) = net_outgoing (outside c)"
      "calm vm (outside d)"
    by (rule reliable.answer_done_paired [OF R ready ruby_uses [OF sock] calm stream' memory _ run [unfolded trilogy_query_recv_def]])
      (use handled result in auto)
  have y: "y = reply_result a" "d' = note_reply a d" "x' = reply_count a 0" using handled [OF d(2,4)] d(1) by simp_all
  have "attempt (trilogy_query_recv alloc) (on_conn trilogy_sock_wait_read) (c, 0) = (Inr y, (d', x'))"
  proof (rule reliable.prudent_attempt [OF R responsive.prudent_query_recv [OF reliable.axioms(1) [OF R]] _ run])
    show "responsive.unaware (\<lambda>_ _. True)" by (simp add: responsive.unaware_def [OF reliable.axioms(1) [OF R]])
    show "responsive.good ruby_read ruby_write (ruby_wait vm opts) net_outgoing (calm vm) (\<lambda>_ _. True) (fst (c, 0 :: u64))"
      using good_true [OF _ ruby_uses [OF sock] calm vm] ready by (simp add: ready_def)
  next
    fix s r t
    assume g: "responsive.good ruby_read ruby_write (ruby_wait vm opts) net_outgoing (calm vm) (\<lambda>_ _. True) (fst s)"
      and w: "on_conn trilogy_sock_wait_read s = (r, t)"
    from reliable.good_wait_done [OF R g on_conn_run [OF w]]
    show "r = Inr () \<and> responsive.good ruby_read ruby_write (ruby_wait vm opts) net_outgoing (calm vm) (\<lambda>_ _. True) (fst t)
        \<and> responsive.work net_incoming net_patience (fst t) \<le> responsive.work net_incoming net_patience (fst s)" .
  qed
  then have "query_recv_loop alloc c = (Inr (reply_result a, reply_count a 0), note_reply a d)"
    by (simp add: query_recv_loop_def y)
  moreover have "socket d = Some (plain_socket vm opts)" using d(4) sock by (simp add: session_def)
  ultimately show ?thesis
    using d(2-6) by (intro that [of d]) (simp_all add: engaged_def arrived_def ruby_unread_eq)
qed

section \<open>Queries without a table\<close>

text \<open>What a query returns for an OK packet.\<close>

primrec ok_result :: "reply \<Rightarrow> 'f rb_result" where
  "ok_result (Ok_reply affected last_id flags warnings t) = \<lparr>res_fields = [], res_rows = Rows [],
     res_last_insert_id = Integer_value (uint last_id), res_affected_rows = Integer_value (uint affected)\<rparr>"
| "ok_result (Err_reply err) = \<lparr>res_fields = [], res_rows = Rows [], res_last_insert_id = Qnil, res_affected_rows = Qnil\<rparr>"
| "ok_result (Columns_reply n) = \<lparr>res_fields = [], res_rows = Rows [], res_last_insert_id = Qnil, res_affected_rows = Qnil\<rparr>"

text \<open>After a result the client is at rest, or the next result is to be read.\<close>

definition after_result :: "(raw_sock, 'f) rb_vm \<Rightarrow> trilogy_sockopt \<Rightarrow> raw_sock trilogy_ctx \<Rightarrow> bool" where
  "after_result vm opts ctx \<longleftrightarrow>
     (if more_results (ctx_conn ctx) then engaged vm opts (ctx_conn ctx) else at_rest vm opts ctx)"

lemma rb_room_good: "considerate vm \<Longrightarrow> rb_room vm width n s = (Inr (), s)"
  by (simp add: rb_room_def considerate_def ruby_ret_def)

text \<open>The end of a result that was read.\<close>

lemma execute_value:
  assumes run: "read_query_response vm alloc (load_query_options (ctx_query_flags ctx)) ctx = (Inr (Inr res), d)"
    and d: "engaged vm opts (ctx_conn d)"
  obtains ctx' where "execute_read_query_response vm alloc ctx = (Inr res, ctx')" and "after_result vm opts ctx'"
    and "session (ctx_conn ctx') = session (ctx_conn d)" and "ruby_unread (ctx_conn ctx') = ruby_unread (ctx_conn d)"
    and "net_outgoing (outside (ctx_conn ctx')) = net_outgoing (outside (ctx_conn d))"
proof (cases "more_results (ctx_conn d)")
  case True
  then show ?thesis
    using run d that [of d] by (simp add: execute_read_query_response_def ruby_then_apply rb_protect_def after_result_def)
next
  case False
  obtain ctx' where R: "run_void rb_trilogy_release_buffer d = (Inr (), ctx')" "at_rest vm opts ctx'"
      "session (ctx_conn ctx') = session (ctx_conn d)" "buffered (ctx_conn ctx') = buffered (ctx_conn d)"
      "rb_net (outside (ctx_conn ctx')) = rb_net (outside (ctx_conn d))"
    using release_good [OF d] by auto
  have "\<not> more_results (ctx_conn ctx')" using False R(3) by (simp add: more_results_def session_def)
  with False run R that [of ctx'] show ?thesis
    by (simp add: execute_read_query_response_def ruby_then_apply rb_protect_def after_result_def)
qed

lemma execute_replied:
  assumes vm: "considerate vm" and c: "engaged vm opts (ctx_conn ctx)"
    and cap: "has_capability (capabilities (ctx_conn ctx)) TRILOGY_CAPABILITIES_PROTOCOL_41"
    and valid: "reply_valid (capabilities (ctx_conn ctx)) a" "\<And>n. a \<noteq> Columns_reply n"
    and memory: "\<not> memory_tight alloc (length (reply_bytes (capabilities (ctx_conn ctx)) a))"
    and stream: "ruby_unread (ctx_conn ctx) = frames (sequence_number (packet_parser (ctx_conn ctx)))
      (reply_bytes (capabilities (ctx_conn ctx)) a) @ extra"
    and run: "execute_read_query_response vm alloc ctx = (r, ctx')"
  shows "r = ruby_verdict (ok_result a) (ascii ''trilogy_query_recv'') a
    \<and> (case r of Inr _ \<Rightarrow> after_result vm opts ctx' | Inl _ \<Rightarrow> at_rest vm opts ctx')
    \<and> noted a (ctx_conn ctx) (ctx_conn ctx') \<and> ruby_unread (ctx_conn ctx') = extra
    \<and> net_outgoing (outside (ctx_conn ctx')) = net_outgoing (outside (ctx_conn ctx))"
proof -
  obtain d where d: "query_recv_loop alloc (ctx_conn ctx) = (Inr (reply_result a, reply_count a 0), note_reply a d)"
      "engaged vm opts d" "session d = session (ctx_conn ctx)" "ruby_unread d = extra"
      "net_outgoing (outside d) = net_outgoing (outside (ctx_conn ctx))"
    by (rule query_recv_good [OF vm c cap valid(1) memory stream]) blast
  let ?d = "ctx\<lparr>ctx_conn := note_reply a d\<rparr>"
  have eng: "engaged vm opts (ctx_conn ?d)" using d(2) by (simp add: engaged_def note_reply_engaged ready_def)
  then have calm: "calm vm (outside (note_reply a d))" by (simp add: engaged_def)
  have noted: "noted a (ctx_conn ctx) (note_reply a d)" by (rule noted_reply [OF d(3)])
  have frame: "ruby_unread (note_reply a d) = extra"
      "net_outgoing (outside (note_reply a d)) = net_outgoing (outside (ctx_conn ctx))" using d(4,5) by simp_all
  have recv: "run_c (query_recv_loop alloc) ctx = (Inr (Inr (reply_result a, reply_count a 0)), ?d)"
    using run_c_calm [where m = "query_recv_loop alloc" and ctx = ctx, OF d(1) calm] by simp
  show ?thesis
  proof (cases a)
    case (Ok_reply affected last_id flags warnings t)
    have "last_insert_id (note_reply a d) = last_id" "affected_rows (note_reply a d) = affected"
      using noted by (simp_all add: Ok_reply noted_def)
    then have "read_query_response vm alloc (load_query_options (ctx_query_flags ctx)) ctx = (Inr (Inr (ok_result a)), ?d)"
      using recv by (simp add: read_query_response_def ruby_then_apply Ok_reply rb_room_good [OF vm])
    from execute_value [OF this eng] obtain ctx2 where X: "execute_read_query_response vm alloc ctx = (Inr (ok_result a), ctx2)"
        "after_result vm opts ctx2" "session (ctx_conn ctx2) = session (note_reply a d)"
        "ruby_unread (ctx_conn ctx2) = ruby_unread (note_reply a d)"
        "net_outgoing (outside (ctx_conn ctx2)) = net_outgoing (outside (note_reply a d))" by auto
    have "r = Inr (ok_result a)" "ctx' = ctx2" using X(1) run by simp_all
    then show ?thesis using X frame noted_session [OF X(3) noted] Ok_reply by simp
  next
    case (Err_reply err)
    have "read_query_response vm alloc (load_query_options (ctx_query_flags ctx)) ctx
        = (Inr (Inl (TRILOGY_ERR, ascii ''trilogy_query_recv'')), ?d)"
      using recv by (simp add: read_query_response_def ruby_then_apply Err_reply)
    then have "execute_read_query_response vm alloc ctx = handle_trilogy_error vm TRILOGY_ERR (ascii ''trilogy_query_recv'') ?d"
      by (simp add: execute_read_query_response_def ruby_then_apply rb_protect_def)
    then have run': "handle_trilogy_error vm TRILOGY_ERR (ascii ''trilogy_query_recv'') ?d = (r, ctx')" using run by simp
    show ?thesis
    proof (rule handle_error_good [OF eng, where msg = "ascii ''trilogy_query_recv''" and 'b = "'a rb_result"])
      fix ctx2 assume H: "handle_trilogy_error vm TRILOGY_ERR (ascii ''trilogy_query_recv'') ?d = (Inl (Made ''ProtocolError'' ''from_code''
          (error_message (ctx_conn ?d) @ ascii '' ('' @ ascii ''trilogy_query_recv'' @ ascii '')'') (uint (error_code (ctx_conn ?d))))
          :: ruby_stop + 'a rb_result, ctx2)" "at_rest vm opts ctx2"
        "session (ctx_conn ctx2) = session (ctx_conn ?d)" "ruby_unread (ctx_conn ctx2) = ruby_unread (ctx_conn ?d)"
        "net_outgoing (outside (ctx_conn ctx2)) = net_outgoing (outside (ctx_conn ?d))"
      have "r = ruby_verdict (ok_result a) (ascii ''trilogy_query_recv'') a" "ctx' = ctx2"
        using H(1) run' by (simp_all add: Err_reply set_error_def)
      with H(2-5) frame noted_session [OF _ noted, of "ctx_conn ctx2"] Err_reply show ?thesis by simp
    qed
  qed (use valid(2) in blast)
qed

lemma query_replied:
  assumes vm: "considerate vm" and ctx: "at_rest vm opts ctx"
    and cap: "has_capability (capabilities (ctx_conn ctx)) TRILOGY_CAPABILITIES_PROTOCOL_41"
    and sql: "vm_export vm (ctx_encoding ctx) query = Inr sql" and fits: "affordable alloc (packet_limit opts) (length sql + 1)"
  obtains c where "rb_trilogy_query vm alloc query ctx = execute_read_query_response vm alloc (ctx\<lparr>ctx_conn := c\<rparr>)"
    and "engaged vm opts c" and "session c = session (ctx_conn ctx)" and "ruby_unread c = ruby_unread (ctx_conn ctx)"
    and "net_outgoing (outside c) = net_outgoing (outside (ctx_conn ctx)) @ frames 0 (0x03 # sql)"
    and "sequence_number (packet_parser c) = after_fragments 0 (0x03 # sql)"
proof -
  let ?len = "word_of_nat (length sql) :: size_t"
  have len: "unat ?len = length sql" using fits by (intro unat_word_of_nat_size_t) (simp add: affordable_def)
  have limit: "unat ?len < object_limit" using fits by (simp add: affordable_def object_limit_def len)
  have builds: "builds alloc (trilogy_build_query_packet alloc sql ?len) (0x03 # sql)"
    using query_builds [OF _ limit, of sql alloc] len by simp
  let ?k = "\<lambda>b. checked (put_state (\<lambda>c. c\<lparr>packet_parser := (packet_parser c)\<lparr>sequence_number := bld_seq b\<rparr>\<rparr>)) (\<lambda>_. begin_write)
    :: (raw_sock rb_world trilogy_conn, unit) op"
  have fits': "affordable alloc (packet_limit opts) (length (0x03 # sql))" using fits by simp
  have k: "?k b d = begin_write (d\<lparr>packet_parser := (\<lambda>b q. q\<lparr>sequence_number := bld_seq b\<rparr>) b (packet_parser d)\<rparr>)" for b d
    by simp
  obtain c and b :: trilogy_builder where c: "ruby_then (run_void (rb_trilogy_acquire_buffer vm)) (\<lambda>_.
      ruby_then (expect_ok vm (ascii ''trilogy_query_send'') (on_again (trilogy_query_send alloc sql ?len) flush_writes))
        (\<lambda>_. execute_read_query_response vm alloc)) ctx = execute_read_query_response vm alloc (ctx\<lparr>ctx_conn := c\<rparr>)"
      "conn_ok c" "socket c = Some (plain_socket vm opts)" "calm vm (outside c)" "session c = session (ctx_conn ctx)"
      "ruby_unread c = ruby_unread (ctx_conn ctx)"
      "net_outgoing (outside c) = net_outgoing (outside (ctx_conn ctx)) @ frames 0 (0x03 # sql)"
      "bld_seq b = 0 + word_of_nat (length (0x03 # sql) div TRILOGY_MAX_PACKET_LEN) + 1"
      "packet_parser c = (\<lambda>b q. q\<lparr>sequence_number := bld_seq b\<rparr>) b ((packet_parser (ctx_conn ctx))\<lparr>sequence_number := 0 + 1\<rparr>)"
    unfolding query_send_built
    by (rule ruby_sent [where seq = 0 and f = "\<lambda>b q. q\<lparr>sequence_number := bld_seq b\<rparr>" and msg = "ascii ''trilogy_query_send''"
          and next_step = "\<lambda>_. execute_read_query_response vm alloc" and k = ?k, OF vm ctx builds k fits'])
  have "rb_trilogy_query vm alloc query ctx = execute_read_query_response vm alloc (ctx\<lparr>ctx_conn := c\<rparr>)"
    using c(1) sql ctx by (simp add: rb_trilogy_query_def get_open_ctx_def ruby_then_apply at_rest_def Let_def)
  moreover have "ready c" using c(2,9) ctx by (simp add: ready_def at_rest_def Let_def)
  moreover have "sequence_number (packet_parser c) = after_fragments 0 (0x03 # sql)"
    using c(8,9) by (simp add: after_fragments_def)
  ultimately show ?thesis using c that [of c] by (simp add: engaged_def)
qed

end
