(* ===== verification/Ruby_Rows.thy ===== *)
theory Ruby_Rows
  imports Ruby_Tables Ruby_Results
begin

text \<open>
  Tables of a Ruby client over a plain socket that does not fail: the columns and the rows that the server
  sends are the fields and the rows of the result, each value cast by the type of its column.
\<close>

section \<open>Columns\<close>

abbreviation expecting_ruby ::
  "(raw_sock, 'f) rb_vm \<Rightarrow> trilogy_sockopt \<Rightarrow> u8 list list \<Rightarrow> u8 list \<Rightarrow> raw_sock rb_world trilogy_conn \<Rightarrow> bool" where
  "expecting_ruby vm opts \<equiv> reliable.expecting ruby_read ruby_write (ruby_wait vm opts) net_incoming (calm vm)"

abbreviation rows_ahead_ruby ::
  "(raw_sock, 'f) rb_vm \<Rightarrow> trilogy_sockopt \<Rightarrow> u8 list list \<Rightarrow> u8 list \<Rightarrow> raw_sock rb_world trilogy_conn \<Rightarrow> bool" where
  "rows_ahead_ruby vm opts \<equiv> reliable.rows_ahead ruby_read ruby_write (ruby_wait vm opts) net_incoming (calm vm)"

lemma expecting_ruby_iff:
  assumes "considerate vm" and "socket c = Some (plain_socket vm opts)"
  shows "expecting_ruby vm opts ps extra c \<longleftrightarrow>
    engaged vm opts c \<and> ruby_unread c = packets (sequence_number (packet_parser c)) ps @ extra"
  using assms(2) ruby_uses [OF assms(2)]
  by (auto simp: reliable.expecting_def [OF ruby_reliable [OF assms(1)]] engaged_def ruby_unread_eq)

lemma expecting_calm: "considerate vm \<Longrightarrow> expecting_ruby vm opts ps extra c \<Longrightarrow> calm vm (outside c)"
  by (simp add: reliable.expecting_def [OF ruby_reliable])

lemma ruby_columns_good:
  assumes vm: "considerate vm"
    and "expecting_ruby vm opts (map (column_packet_bytes False fixed filler) cols @ ps) extra (ctx_conn ctx)"
    and "\<And>p. p \<in> set cols \<Longrightarrow> (\<forall>bs \<in> set (column_strings p). length bs < 2 ^ 64) \<and> col_default_value p = []"
    and "\<And>p. p \<in> set cols \<Longrightarrow> \<not> memory_tight alloc (length (column_packet_bytes False fixed filler p))"
  shows "\<exists>d. ruby_columns alloc (length cols) ctx = (Inr (Inr cols), ctx\<lparr>ctx_conn := d\<rparr>) \<and> expecting_ruby vm opts ps extra d
    \<and> session d = session (ctx_conn ctx) \<and> net_outgoing (outside d) = net_outgoing (outside (ctx_conn ctx))"
  using assms(2-)
proof (induction cols arbitrary: ctx)
  case Nil
  then show ?case by (intro exI [of _ "ctx_conn ctx"]) simp
next
  case (Cons p cols)
  have "expecting_ruby vm opts (column_packet_bytes False fixed filler p # map (column_packet_bytes False fixed filler) cols @ ps)
      extra (ctx_conn ctx)" using Cons.prems(1) by simp
  then obtain d where d: "trilogy_read_full_column alloc (ctx_conn ctx) = (Inr p, d)"
      "expecting_ruby vm opts (map (column_packet_bytes False fixed filler) cols @ ps) extra d"
      "session d = session (ctx_conn ctx)" "net_outgoing (outside d) = net_outgoing (outside (ctx_conn ctx))"
    using reliable.column_done [OF ruby_reliable [OF vm]] Cons.prems(2,3) [of p] by force
  note run = run_c_calm [of "trilogy_read_full_column alloc" ctx, OF d(1) expecting_calm [OF vm d(2)], unfolded trilogy_read_full_column_def]
  from Cons.IH [of "ctx\<lparr>ctx_conn := d\<rparr>"] d(2) Cons.prems(2,3) obtain e where
    "ruby_columns alloc (length cols) (ctx\<lparr>ctx_conn := d\<rparr>) = (Inr (Inr cols), ctx\<lparr>ctx_conn := e\<rparr>)"
    "expecting_ruby vm opts ps extra e" "session e = session d" "net_outgoing (outside e) = net_outgoing (outside d)"
    by auto
  with run d(3,4) show ?case by (intro exI [of _ e]) (simp add: ruby_then_apply)
qed

section \<open>Rows\<close>

text \<open>One row is received: the loop of the extension, over that of the client.\<close>

lemma read_row_good:
  assumes vm: "considerate vm" and run: "trilogy_read_full_row alloc vs c = (r, d)"
    and c: "conn_ok c" "uses_ruby vm opts c" "calm vm (outside c)" and room: "unat (column_count c) \<le> length vs"
  shows "attempt (trilogy_read_row alloc vs) trilogy_sock_wait_read c = (Inr r, d)"
proof -
  note R = ruby_reliable [OF vm, of opts]
  note P = responsive.good_def [OF reliable.axioms(1) [OF R]]
  let ?J = "\<lambda>out (n, x). unat n \<le> length vs"
  have good: "responsive.good ruby_read ruby_write (ruby_wait vm opts) net_outgoing (calm vm) ?J c"
    using c room by (simp add: P outlook_def)
  show ?thesis
  proof (rule reliable.prudent_attempt [OF R responsive.prudent_read_row [OF reliable.axioms(1) [OF R]] good])
    show "until_done (trilogy_read_row alloc vs) trilogy_sock_wait_read c = (r, d)"
      using run by (simp add: trilogy_read_full_row_def)
  next
    fix s r t
    assume g: "responsive.good ruby_read ruby_write (ruby_wait vm opts) net_outgoing (calm vm) ?J s"
      and w: "trilogy_sock_wait_read s = (r, t)"
    from reliable.good_wait_done [OF R g w]
    show "r = Inr () \<and> responsive.good ruby_read ruby_write (ruby_wait vm opts) net_outgoing (calm vm) ?J t
        \<and> responsive.work net_incoming net_patience t \<le> responsive.work net_incoming net_patience s" .
  qed simp
qed

lemma rows_ahead_good:
  assumes "considerate vm" and "rows_ahead_ruby vm opts ps extra c"
  shows "conn_ok c" "uses_ruby vm opts c" "calm vm (outside c)"
  using assms(2)
  by (auto simp: reliable.rows_ahead_def [OF ruby_reliable [OF assms(1)]] reliable.expecting_def [OF ruby_reliable [OF assms(1)]]
      ready_def split: if_splits)

text \<open>A value of the table is cast to the value of the result, whatever the cache of encodings holds.\<close>

definition cell :: "(raw_sock, 'f) rb_vm \<Rightarrow> rb_trilogy_cast_options \<Rightarrow> column_info \<Rightarrow> u8 list option \<Rightarrow> 'f ruby_value \<Rightarrow> bool" where
  "cell vm options i v x \<longleftrightarrow> vm_funcall vm x = None \<and>
     (case v of
        None \<Rightarrow> x = Qnil
      | Some bs \<Rightarrow> \<forall>cache. cache_ok (vm_find_index vm) cache \<longrightarrow> (\<exists>cache'. cache_ok (vm_find_index vm) cache' \<and>
          rb_trilogy_cast_value (vm_strtod vm) (vm_find_index vm) (text_value bs) i options cache = (Inr x, cache')))"

lemma stored_value_text:
  "stored_value (Some bs) v = text_value bs" "val_is_null (stored_value None v)"
  by (simp_all add: stored_value_def text_value_def)

text \<open>What changes of the connection: the cache.\<close>

definition recached :: "(raw_sock, 'f) rb_vm \<Rightarrow> raw_sock trilogy_ctx \<Rightarrow> raw_sock trilogy_ctx \<Rightarrow> bool" where
  "recached vm ctx ctx' \<longleftrightarrow> (\<exists>cache. cache_ok (vm_find_index vm) cache \<and>
     ctx' = ctx\<lparr>ctx_conn := (ctx_conn ctx)\<lparr>outside := (outside (ctx_conn ctx))\<lparr>rb_encodings := cache\<rparr>\<rparr>\<rparr>)"

lemma recached_refl: "cache_ok (vm_find_index vm) (rb_encodings (outside (ctx_conn ctx))) \<Longrightarrow> recached vm ctx ctx"
  unfolding recached_def by (intro exI [of _ "rb_encodings (outside (ctx_conn ctx))"]) simp

lemma recached_trans: "recached vm a b \<Longrightarrow> recached vm b c \<Longrightarrow> recached vm a c"
  unfolding recached_def by auto

lemma ruby_cast_good:
  assumes cache: "cache_ok (vm_find_index vm) (rb_encodings (outside (ctx_conn ctx)))" and cell: "cell vm options i v x"
  shows "\<exists>ctx'. ruby_cast vm options (stored_value v old) i ctx = (Inr x, ctx') \<and> recached vm ctx ctx'"
proof -
  let ?cast = "rb_trilogy_cast_value (vm_strtod vm) (vm_find_index vm) (stored_value v old) i options"
  have "\<exists>cache'. ?cast (rb_encodings (outside (ctx_conn ctx))) = (Inr x, cache') \<and> cache_ok (vm_find_index vm) cache'"
  proof (cases v)
    case None
    then show ?thesis using cell cache stored_value_text(2) [of old] by (simp add: cell_def rb_trilogy_cast_value_def ruby_ret_def)
  next
    case (Some bs)
    then show ?thesis using cell cache unfolding cell_def stored_value_text Some by auto
  qed
  then show ?thesis
    using cell by (auto simp: ruby_cast_def ruby_then_apply on_cache_def cell_def recached_def ruby_ret_def)
qed

lemma cast_row_good:
  assumes "cache_ok (vm_find_index vm) (rb_encodings (outside (ctx_conn ctx)))"
    and "length vs = length infos" and "list_all2 (\<lambda>(i, v) x. cell vm options i v x) (zip infos vs) xs" and "length infos \<le> length out"
  shows "\<exists>ctx'. cast_row vm options (map2 stored_value vs out @ tail) infos ctx = (Inr xs, ctx') \<and> recached vm ctx ctx'"
  using assms
proof (induction infos arbitrary: ctx vs xs out)
  case Nil
  then show ?case using recached_refl by simp
next
  case (Cons i infos)
  obtain v vs' where vs: "vs = v # vs'" using Cons.prems(2) by (cases vs) auto
  obtain old out' where out: "out = old # out'" using Cons.prems(4) by (cases out) auto
  obtain x xs' where xs: "xs = x # xs'" "cell vm options i v x" "list_all2 (\<lambda>(i, v) x. cell vm options i v x) (zip infos vs') xs'"
    using Cons.prems(3) vs by (auto simp: list_all2_Cons1)
  obtain ctx1 where 1: "ruby_cast vm options (stored_value v old) i ctx = (Inr x, ctx1)" "recached vm ctx ctx1"
    using ruby_cast_good [OF Cons.prems(1) xs(2)] by blast
  have "cache_ok (vm_find_index vm) (rb_encodings (outside (ctx_conn ctx1)))" using 1(2) by (auto simp: recached_def)
  then obtain ctx2 where 2: "cast_row vm options (map2 stored_value vs' out' @ tail) infos ctx1 = (Inr xs', ctx2)" "recached vm ctx1 ctx2"
    using Cons.IH [of ctx1 vs' xs' out'] Cons.prems(2,4) vs out xs(3) by auto
  then show ?case using 1 recached_trans [OF 1(2) 2(2)] by (simp add: vs out xs(1) ruby_then_apply ruby_ret_def)
qed

lemma recached_frame:
  assumes vm: "considerate vm" and "recached vm ctx ctx'"
  shows "rows_ahead_ruby vm opts ps extra (ctx_conn ctx) \<Longrightarrow> rows_ahead_ruby vm opts ps extra (ctx_conn ctx')"
    "session (ctx_conn ctx') = session (ctx_conn ctx)"
    "net_outgoing (outside (ctx_conn ctx')) = net_outgoing (outside (ctx_conn ctx))"
proof -
  obtain cache where cache: "cache_ok (vm_find_index vm) cache"
      and ctx': "ctx' = ctx\<lparr>ctx_conn := (ctx_conn ctx)\<lparr>outside := (outside (ctx_conn ctx))\<lparr>rb_encodings := cache\<rparr>\<rparr>\<rparr>"
    using assms(2) by (auto simp: recached_def)
  let ?d = "\<lambda>c. c\<lparr>outside := (outside c)\<lparr>rb_encodings := cache\<rparr>\<rparr> :: raw_sock rb_world trilogy_conn"
  have "expecting_ruby vm opts ps extra (?d c)" if "expecting_ruby vm opts ps extra c" for ps c
  proof -
    have "uses_ruby vm opts (?d c) \<longleftrightarrow> uses_ruby vm opts c" "buffered (?d c) = buffered c" "ready (?d c) \<longleftrightarrow> ready c"
      unfolding ruby.uses_def by (simp_all add: buffered_def ready_def conn_ok_def)
    with that cache show ?thesis
      by (simp add: reliable.expecting_def [OF ruby_reliable [OF vm]] ruby_unread_eq calm_def)
  qed
  then show "rows_ahead_ruby vm opts ps extra (ctx_conn ctx) \<Longrightarrow> rows_ahead_ruby vm opts ps extra (ctx_conn ctx')"
    by (auto simp: ctx' reliable.rows_ahead_def [OF ruby_reliable [OF vm]] split: if_splits)
  show "session (ctx_conn ctx') = session (ctx_conn ctx)"
    "net_outgoing (outside (ctx_conn ctx')) = net_outgoing (outside (ctx_conn ctx))"
    by (simp_all add: ctx' session_def)
qed

lemma stored_row_split: "stored_row 0 vs out = map2 stored_value vs out @ drop (length vs) out"
  by (simp add: stored_row_def)

text \<open>The rows \<open>rows\<close> are received and cast to \<open>xss\<close>, up to the packet that ends them.\<close>

lemma rows_loop_good:
  assumes vm: "considerate vm" and infos: "infos \<noteq> []"
    and "rows_ahead_ruby vm opts (map row_packet_bytes rows @ [end_packet (capabilities (ctx_conn ctx)) flags warnings]) extra (ctx_conn ctx)"
    and "unat (column_count (ctx_conn ctx)) = length infos" and "length infos \<le> length slots" and "socket (ctx_conn ctx) = Some s"
    and "\<And>vs. vs \<in> set rows \<Longrightarrow> length vs = length infos \<and> length (row_packet_bytes vs) + 9 \<le> 2 ^ 62
         \<and> (\<forall>bs. Some bs \<in> set vs \<longrightarrow> length bs < 2 ^ 64)" and "generous alloc"
    and "list_all2 (\<lambda>vs xs. list_all2 (\<lambda>(i, v) x. cell vm options i v x) (zip infos vs) xs) rows xss"
  shows "\<exists>ctx'. rows_loop vm alloc options infos slots acc ctx = Some (Inr (Inr (acc @ xss)), ctx')
    \<and> expecting_ruby vm opts [] extra (ctx_conn ctx') \<and> server_status (ctx_conn ctx') = flags
    \<and> warning_count (ctx_conn ctx') = warnings \<and> socket (ctx_conn ctx') = Some s
    \<and> net_outgoing (outside (ctx_conn ctx')) = net_outgoing (outside (ctx_conn ctx))"
  using assms(3-)
proof (induction rows arbitrary: ctx slots acc xss)
  case Nil
  let ?c = "ctx_conn ctx"
  note R = ruby_reliable [OF vm, of opts]
  have memory: "\<not> memory_tight alloc 9" using Nil.prems(6) by (simp add: memory_tight_def)
  have ahead: "rows_ahead_ruby vm opts [end_packet (capabilities ?c) flags warnings] extra ?c" using Nil.prems(1) by simp
  obtain d where d: "trilogy_read_full_row alloc slots ?c = (Inl (Rc TRILOGY_EOF), d)" "expecting_ruby vm opts [] extra d"
      "server_status d = flags" "warning_count d = warnings" "socket d = socket ?c" "net_outgoing (outside d) = net_outgoing (outside ?c)"
    using reliable.rows_end [OF R ahead memory] by blast
  have "attempt (trilogy_read_row alloc slots) trilogy_sock_wait_read ?c = (Inr (Inl (Rc TRILOGY_EOF)), d)"
    by (rule read_row_good [OF vm d(1) rows_ahead_good [OF vm ahead]]) (use Nil.prems in simp)
  from run_c_calm [of "attempt (trilogy_read_row alloc slots) trilogy_sock_wait_read" ctx, OF this expecting_calm [OF vm d(2)]]
  have "read_row_round alloc slots ctx = (Inr (Inr None), ctx\<lparr>ctx_conn := d\<rparr>)"
    by (simp add: read_row_round_def ruby_then_apply)
  then have "rows_loop vm alloc options infos slots acc ctx = Some (Inr (Inr acc), ctx\<lparr>ctx_conn := d\<rparr>)"
    by (subst rows_loop.simps) simp
  with d Nil.prems show ?case by (intro exI [of _ "ctx\<lparr>ctx_conn := d\<rparr>"]) simp
next
  case (Cons vs rows)
  let ?c = "ctx_conn ctx"
  note R = ruby_reliable [OF vm, of opts]
  have vs: "length vs = length infos" "\<And>bs. Some bs \<in> set vs \<Longrightarrow> length bs < 2 ^ 64" and size: "length (row_packet_bytes vs) + 9 \<le> 2 ^ 62"
    using Cons.prems(5) [of vs] by auto
  have memory: "\<not> memory_tight alloc (length (row_packet_bytes vs) + 9)" using Cons.prems(6) size by (simp add: memory_tight_def)
  let ?todo = "map row_packet_bytes rows @ [end_packet (capabilities ?c) flags warnings]"
  have ahead: "rows_ahead_ruby vm opts (row_packet_bytes vs # ?todo) extra ?c" using Cons.prems(1) by simp
  have n: "unat (column_count ?c) = length vs" "vs \<noteq> []" "length vs \<le> length slots" using Cons.prems(2,3) vs(1) infos by auto
  let ?slots = "stored_row 0 vs slots"
  obtain d where d: "trilogy_read_full_row alloc slots ?c = (Inr ?slots, d)" "rows_ahead_ruby vm opts ?todo extra d"
      "capabilities d = capabilities ?c" "column_count d = column_count ?c" "socket d = socket ?c"
      "net_outgoing (outside d) = net_outgoing (outside ?c)"
    using reliable.row_done [OF R ahead n vs(2) memory] by blast
  have "attempt (trilogy_read_row alloc slots) trilogy_sock_wait_read ?c = (Inr (Inr ?slots), d)"
    by (rule read_row_good [OF vm d(1) rows_ahead_good [OF vm ahead]]) (use n in simp)
  note calm = rows_ahead_good(3) [OF vm d(2)]
  let ?ctx1 = "ctx\<lparr>ctx_conn := d\<rparr>"
  from run_c_calm [of "attempt (trilogy_read_row alloc slots) trilogy_sock_wait_read" ctx, OF \<open>attempt _ _ _ = _\<close> calm]
  have round: "read_row_round alloc slots ctx = (Inr (Inr (Some ?slots)), ?ctx1)"
    by (simp add: read_row_round_def ruby_then_apply)
  obtain xs xss' where xss: "xss = xs # xss'" "list_all2 (\<lambda>(i, v) x. cell vm options i v x) (zip infos vs) xs"
      "list_all2 (\<lambda>vs xs. list_all2 (\<lambda>(i, v) x. cell vm options i v x) (zip infos vs) xs) rows xss'"
    using Cons.prems(7) by (auto simp: list_all2_Cons1)
  have "cache_ok (vm_find_index vm) (rb_encodings (outside (ctx_conn ?ctx1)))" using calm by (simp add: calm_def)
  then obtain ctx2 where cast: "cast_row vm options ?slots infos ?ctx1 = (Inr xs, ctx2)" and re: "recached vm ?ctx1 ctx2"
    using cast_row_good [OF _ vs(1) xss(2), of ?ctx1 slots "drop (length vs) slots"] Cons.prems(3) unfolding stored_row_split by blast
  note F = recached_frame [OF vm re]
  have step: "rows_loop vm alloc options infos slots acc ctx = rows_loop vm alloc options infos ?slots (acc @ [xs]) ctx2"
    using round cast by (subst rows_loop.simps) (simp add: ruby_then_apply rb_room_good [OF vm])
  have caps: "capabilities (ctx_conn ctx2) = capabilities ?c" "column_count (ctx_conn ctx2) = column_count ?c" "socket (ctx_conn ctx2) = socket ?c"
    using F(2) d(3-5) by (simp_all add: session_def)
  have len: "length ?slots = length slots" using n(3) by (simp add: stored_row_split)
  have "\<exists>ctx'. rows_loop vm alloc options infos ?slots (acc @ [xs]) ctx2 = Some (Inr (Inr ((acc @ [xs]) @ xss')), ctx')
    \<and> expecting_ruby vm opts [] extra (ctx_conn ctx') \<and> server_status (ctx_conn ctx') = flags
    \<and> warning_count (ctx_conn ctx') = warnings \<and> socket (ctx_conn ctx') = Some s
    \<and> net_outgoing (outside (ctx_conn ctx')) = net_outgoing (outside (ctx_conn ctx2))"
  proof (rule Cons.IH)
    show "rows_ahead_ruby vm opts (map row_packet_bytes rows @ [end_packet (capabilities (ctx_conn ctx2)) flags warnings]) extra (ctx_conn ctx2)"
      using F(1) [of opts ?todo extra] d(2) caps(1) by simp
    show "length ws = length infos \<and> length (row_packet_bytes ws) + 9 \<le> 2 ^ 62 \<and> (\<forall>bs. Some bs \<in> set ws \<longrightarrow> length bs < 2 ^ 64)"
      if "ws \<in> set rows" for ws using Cons.prems(5) [of ws] that by simp
  qed (use Cons.prems caps len xss(3) in simp_all)
  then show ?case using step F(3) d(6) xss(1) by simp
qed

section \<open>Tables\<close>

text \<open>What a query returns for a table, and the packets that carry it.\<close>

definition table_result :: "rb_trilogy_cast_options \<Rightarrow> trilogy_column_packet list \<Rightarrow> 'f ruby_value list list \<Rightarrow> 'f rb_result" where
  "table_result options cols xss =
     \<lparr>res_fields = map col_name cols, res_rows = (if flatten_rows options then Flat (concat xss) else Rows xss),
      res_last_insert_id = Qnil, res_affected_rows = Qnil\<rparr>"

definition table_packets ::
  "u32 \<Rightarrow> u64 \<Rightarrow> u16 \<Rightarrow> u16 \<times> u16 \<Rightarrow> u16 \<times> u16 \<Rightarrow> trilogy_column_packet list \<Rightarrow> u8 list option list list \<Rightarrow> u8 list list" where
  "table_packets caps fixed filler before after cols rows =
     lenenc_bytes (word_of_nat (length cols)) # map (column_packet_bytes False fixed filler) cols
     @ (if has_capability caps TRILOGY_CAPABILITIES_DEPRECATE_EOF then [] else [end_packet caps (fst before) (snd before)])
     @ map row_packet_bytes rows @ [end_packet caps (fst after) (snd after)]"

text \<open>A table that the client can hold, and its values in Ruby.\<close>

definition table_fits :: "trilogy_column_packet list \<Rightarrow> u8 list option list list \<Rightarrow> u64 \<Rightarrow> u16 \<Rightarrow> bool" where
  "table_fits cols rows fixed filler \<longleftrightarrow> cols \<noteq> [] \<and> length cols < 2 ^ 64
     \<and> (\<forall>p \<in> set cols. (\<forall>bs \<in> set (column_strings p). length bs < 2 ^ 64) \<and> col_default_value p = []
          \<and> length (column_packet_bytes False fixed filler p) \<le> 2 ^ 62)
     \<and> (\<forall>vs \<in> set rows. length vs = length cols \<and> length (row_packet_bytes vs) + 9 \<le> 2 ^ 62
          \<and> (\<forall>bs. Some bs \<in> set vs \<longrightarrow> length bs < 2 ^ 64))"

definition casts_to ::
  "(raw_sock, 'f) rb_vm \<Rightarrow> rb_trilogy_cast_options \<Rightarrow> trilogy_column_packet list \<Rightarrow> u8 list option list list \<Rightarrow> 'f ruby_value list list \<Rightarrow> bool" where
  "casts_to vm options cols rows xss \<longleftrightarrow>
     list_all2 (\<lambda>vs xs. list_all2 (\<lambda>(i, v) x. cell vm options i v x) (zip (map column_info_of cols) vs) xs) rows xss"

lemma table_read:
  assumes vm: "considerate vm" and c: "engaged vm opts (ctx_conn ctx)"
    and cap: "has_capability (capabilities (ctx_conn ctx)) TRILOGY_CAPABILITIES_PROTOCOL_41"
    and table: "table_fits cols rows fixed filler" and memory: "generous alloc" and cells: "casts_to vm options cols rows xss"
    and stream: "ruby_unread (ctx_conn ctx) = packets (sequence_number (packet_parser (ctx_conn ctx)))
      (table_packets (capabilities (ctx_conn ctx)) fixed filler before after cols rows) @ extra"
  obtains ctx' where "read_query_response vm alloc options ctx = (Inr (Inr (table_result options cols xss)), ctx')"
    and "engaged vm opts (ctx_conn ctx')" and "ruby_unread (ctx_conn ctx') = extra"
    and "server_status (ctx_conn ctx') = fst after" and "warning_count (ctx_conn ctx') = snd after"
    and "net_outgoing (outside (ctx_conn ctx')) = net_outgoing (outside (ctx_conn ctx))"
proof -
  note R = ruby_reliable [OF vm, of opts]
  let ?c = "ctx_conn ctx" and ?n = "word_of_nat (length cols) :: u64" and ?plain = "plain_socket vm opts"
  let ?a = "Columns_reply ?n" and ?caps = "capabilities (ctx_conn ctx)" and ?seq = "sequence_number (packet_parser (ctx_conn ctx))"
  let ?last = "end_packet ?caps (fst after) (snd after)"
  let ?gap = "if has_capability ?caps TRILOGY_CAPABILITIES_DEPRECATE_EOF then [] else [end_packet ?caps (fst before) (snd before)]"
  let ?rest = "map (column_packet_bytes False fixed filler) cols @ ?gap @ map row_packet_bytes rows @ [?last]"
  have n: "unat ?n = length cols" using table by (intro unat_word_of_nat_size_t) (simp add: table_fits_def)
  then have "?n \<noteq> 0" using table by (auto simp: table_fits_def unat_eq_zero [symmetric])
  have "length (lenenc_bytes ?n) \<le> 9" by (simp add: lenenc_bytes_def)
  then have "\<not> memory_tight alloc (length (reply_bytes ?caps ?a))" using memory by (simp add: memory_tight_def)
  then obtain d where d: "query_recv_loop alloc ?c = (Inr (reply_result ?a, reply_count ?a 0), note_reply ?a d)"
      "engaged vm opts d" "session d = session ?c" "ruby_unread d = packets (after_fragments ?seq (lenenc_bytes ?n)) ?rest @ extra"
      "net_outgoing (outside d) = net_outgoing (outside ?c)" "sequence_number (packet_parser d) = after_fragments ?seq (lenenc_bytes ?n)"
    using stream \<open>?n \<noteq> 0\<close>
    by (elim query_recv_good [OF vm c cap, of ?a alloc "packets (after_fragments ?seq (lenenc_bytes ?n)) ?rest @ extra", rotated])
      (simp_all add: table_packets_def)
  let ?d = "note_reply ?a d" and ?ctx1 = "ctx\<lparr>ctx_conn := note_reply ?a d\<rparr>"
  have eng: "engaged vm opts ?d" by (rule note_reply_engaged) (use d(2) in \<open>simp_all add: engaged_def\<close>)
  have calm: "calm vm (outside ?d)" and sock: "socket ?d = Some ?plain" using eng by (simp_all add: engaged_def)
  have recv: "run_c (query_recv_loop alloc) ctx = (Inr (Inr (Inl (Rc TRILOGY_HAVE_RESULTS), ?n)), ?ctx1)"
    using run_c_calm [where m = "query_recv_loop alloc" and ctx = ctx, OF d(1) calm] by simp
  have exp: "expecting_ruby vm opts ?rest extra (ctx_conn ?ctx1)"
  proof -
    have "ruby_unread ?d = packets (sequence_number (packet_parser ?d)) ?rest @ extra" using d(4,6) by (simp add: buffered_def)
    with expecting_ruby_iff [OF vm sock, of ?rest extra] eng show ?thesis by simp
  qed
  have cols: "(\<forall>bs \<in> set (column_strings p). length bs < 2 ^ 64) \<and> col_default_value p = []"
      "\<not> memory_tight alloc (length (column_packet_bytes False fixed filler p))" if "p \<in> set cols" for p
    using table that memory by (simp_all add: table_fits_def memory_tight_def)
  obtain e where e: "ruby_columns alloc (length cols) ?ctx1 = (Inr (Inr cols), ctx\<lparr>ctx_conn := e\<rparr>)"
      "expecting_ruby vm opts (?gap @ map row_packet_bytes rows @ [?last]) extra e" "session e = session ?d"
      "net_outgoing (outside e) = net_outgoing (outside ?d)"
    using ruby_columns_good [OF vm exp cols] by auto
  have same: "column_count e = ?n" "\<not> started_reading_rows e" "capabilities e = ?caps" "socket e = Some ?plain"
    using e(3) d(3) sock by (simp_all add: session_def)
  then have "rows_ahead_ruby vm opts (map row_packet_bytes rows @ [?last]) extra e"
    using e(2) cap unfolding reliable.rows_ahead_def [OF R]
    by (cases "has_capability ?caps TRILOGY_CAPABILITIES_DEPRECATE_EOF")
      (simp_all, blast intro: exI [of _ "fst before"] exI [of _ "snd before"])
  moreover have "length (vs :: u8 list option list) = length (map column_info_of cols) \<and> length (row_packet_bytes vs) + 9 \<le> 2 ^ 62
      \<and> (\<forall>bs. Some bs \<in> set vs \<longrightarrow> length bs < 2 ^ 64)" if "vs \<in> set rows" for vs
    using table that unfolding table_fits_def by auto
  moreover have "length cols \<le> length (vm_values vm ?n)" using vm n by (metis considerate_def)
  ultimately obtain ctx' where rows: "rows_loop vm alloc options (map column_info_of cols) (vm_values vm ?n) [] (ctx\<lparr>ctx_conn := e\<rparr>)
        = Some (Inr (Inr ([] @ xss)), ctx')"
      "expecting_ruby vm opts [] extra (ctx_conn ctx')" "server_status (ctx_conn ctx') = fst after"
      "warning_count (ctx_conn ctx') = snd after" "socket (ctx_conn ctx') = Some ?plain"
      "net_outgoing (outside (ctx_conn ctx')) = net_outgoing (outside e)"
    using rows_loop_good [OF vm, where infos = "map column_info_of cols" and ctx = "ctx\<lparr>ctx_conn := e\<rparr>" and opts = opts and rows = rows
        and flags = "fst after" and warnings = "snd after" and extra = extra and slots = "vm_values vm ?n" and alloc = alloc
        and options = options and xss = xss and acc = "[]" and s = ?plain]
      table cells memory same n by (auto simp: table_fits_def casts_to_def)
  have "read_table vm alloc options ?n ?ctx1 = (Inr (Inr (table_result options cols xss)), ctx')"
    using e(1) rows(1) by (simp add: read_table_def ruby_then_apply rb_room_good [OF vm] n ruby_rows_def table_result_def)
  then have "read_query_response vm alloc options ctx = (Inr (Inr (table_result options cols xss)), ctx')"
    using recv by (simp add: read_query_response_def ruby_then_apply rb_room_good [OF vm])
  moreover have "engaged vm opts (ctx_conn ctx')" "ruby_unread (ctx_conn ctx') = extra"
    using rows(2) by (simp_all add: expecting_ruby_iff [OF vm rows(5)])
  ultimately show ?thesis using that rows e(4) d(5) by simp
qed

text \<open>The whole query.\<close>

lemma table_queried:
  assumes vm: "considerate vm" and ctx: "at_rest vm opts ctx"
    and cap: "has_capability (capabilities (ctx_conn ctx)) TRILOGY_CAPABILITIES_PROTOCOL_41"
    and sql: "vm_export vm (ctx_encoding ctx) query = Inr sql" and fits: "affordable alloc (packet_limit opts) (length sql + 1)"
    and table: "table_fits cols rows fixed filler"
    and cells: "casts_to vm (load_query_options (ctx_query_flags ctx)) cols rows xss"
    and stream: "ruby_unread (ctx_conn ctx) = packets (after_fragments 0 (0x03 # sql))
      (table_packets (capabilities (ctx_conn ctx)) fixed filler before after cols rows) @ extra"
  obtains ctx' where "rb_trilogy_query vm alloc query ctx
      = (Inr (table_result (load_query_options (ctx_query_flags ctx)) cols xss), ctx')"
    and "after_result vm opts ctx'" and "ruby_unread (ctx_conn ctx') = extra"
    and "server_status (ctx_conn ctx') = fst after"
    and "net_outgoing (outside (ctx_conn ctx')) = net_outgoing (outside (ctx_conn ctx)) @ frames 0 (0x03 # sql)"
proof -
  obtain c where c: "rb_trilogy_query vm alloc query ctx = execute_read_query_response vm alloc (ctx\<lparr>ctx_conn := c\<rparr>)"
      "engaged vm opts c" "session c = session (ctx_conn ctx)" "ruby_unread c = ruby_unread (ctx_conn ctx)"
      "net_outgoing (outside c) = net_outgoing (outside (ctx_conn ctx)) @ frames 0 (0x03 # sql)"
      "sequence_number (packet_parser c) = after_fragments 0 (0x03 # sql)"
    using query_replied [OF vm ctx cap sql fits] by blast
  have caps: "capabilities c = capabilities (ctx_conn ctx)" using c(3) by (simp add: session_def)
  let ?ctx = "ctx\<lparr>ctx_conn := c\<rparr>" and ?options = "load_query_options (ctx_query_flags ctx)"
  have "generous alloc" using fits by (simp add: affordable_def)
  then obtain d where d: "read_query_response vm alloc (load_query_options (ctx_query_flags ?ctx)) ?ctx
        = (Inr (Inr (table_result ?options cols xss)), d)"
      "engaged vm opts (ctx_conn d)" "ruby_unread (ctx_conn d) = extra" "server_status (ctx_conn d) = fst after"
      "net_outgoing (outside (ctx_conn d)) = net_outgoing (outside c)"
    using table_read [OF vm, of opts ?ctx cols rows fixed filler alloc ?options xss before after extra]
      c caps cap table cells stream by auto
  obtain ctx' where E: "execute_read_query_response vm alloc ?ctx = (Inr (table_result ?options cols xss), ctx')" "after_result vm opts ctx'"
      "session (ctx_conn ctx') = session (ctx_conn d)" "ruby_unread (ctx_conn ctx') = ruby_unread (ctx_conn d)"
      "net_outgoing (outside (ctx_conn ctx')) = net_outgoing (outside (ctx_conn d))"
    using execute_value [OF d(1,2)] by blast
  have "server_status (ctx_conn ctx') = fst after" using E(3) d(4) by (simp add: session_def)
  with that [of ctx'] E d c show ?thesis by simp
qed

end
