(* ===== verification/Sample_Runs.thy ===== *)
theory Sample_Runs
  imports Binary_Rows Login Escape Tls_Setup Cast Ruby_Rows
begin

text \<open>
  Concrete inputs for the witnesses of the properties, and the equations that evaluate the
  model on them.
\<close>

section \<open>Inputs\<close>

text \<open>An allocator that grants every request with zeroes, as \<^verbatim>\<open>calloc\<close> does.\<close>

definition zero_alloc :: allocator where
  "zero_alloc = (\<lambda>_. Some (\<lambda>_. 0))"

definition small_buffer :: trilogy_buffer where
  "small_buffer = \<lparr>buf_len = 0, buf_cap = 8, buf_mem = Some [0, 0, 0, 0, 0, 0, 0, 0]\<rparr>"

definition blank_builder :: trilogy_builder where
  "blank_builder = \<lparr>bld_buffer = small_buffer, header_offset = 0, packet_length = 0,
     packet_max_length = 0, fragment_length = 0, bld_seq = 0\<rparr>"

definition blank_handshake :: trilogy_handshake where
  "blank_handshake = \<lparr>hs_proto_version = 0, hs_server_version = replicate 32 0, hs_conn_id = 0,
     hs_scramble = replicate 21 0, hs_capabilities = 0, hs_server_charset = 0, hs_server_status = 0,
     hs_auth_plugin = replicate 32 0\<rparr>"

definition sample_handshake :: trilogy_handshake where
  "sample_handshake = \<lparr>hs_proto_version = 10, hs_server_version = [], hs_conn_id = 7,
     hs_scramble = replicate 20 0x41 @ [0], hs_capabilities = TRILOGY_CAPABILITIES_CLIENT,
     hs_server_charset = 45, hs_server_status = 2, hs_auth_plugin = []\<rparr>"

definition blank_switch :: trilogy_auth_switch_request_packet where
  "blank_switch = \<lparr>switch_auth_plugin = replicate 32 0, switch_scramble = replicate 21 0\<rparr>"

text \<open>A digest for the witnesses: the sum of the bytes, repeated.\<close>

definition toy_digest :: "nat \<Rightarrow> u8 list \<Rightarrow> u8 list" where
  "toy_digest n bs = replicate n (sum_list bs + 1)"

definition sample_column :: trilogy_column_packet where
  "sample_column = \<lparr>col_catalog = [0x64, 0x65, 0x66], col_schema = [], col_table = [0x74],
     col_original_table = [0x74], col_name = [0x69, 0x64], col_original_name = [0x69, 0x64],
     col_charset = 63, col_len = 11, col_type = 3, col_flags = 0x23, col_decimals = 0,
     col_default_value = []\<rparr>"

definition blank_value :: trilogy_value where
  "blank_value = \<lparr>val_is_null = False, val_data = [], val_data_len = 0\<rparr>"

definition blank_binary_value :: trilogy_binary_value where
  "blank_binary_value = \<lparr>bv_is_null = False, bv_is_unsigned = False, bv_type = 0, bv_as = As_none\<rparr>"

definition sample_column_info :: column_info where
  "sample_column_info = \<lparr>ci_type = type_code TRILOGY_TYPE_LONGLONG, ci_charset = 45, ci_len = 20, ci_flags = 0, ci_decimals = 0\<rparr>"

definition sample_cast_options :: rb_trilogy_cast_options where
  "sample_cast_options = \<lparr>cast = True, cast_booleans = False, database_local_time = False, flatten_rows = False,
     cast_decimals_to_bigdecimals = False\<rparr>"

section \<open>Evaluation\<close>

lemma generous_zero_alloc [simp]: "generous zero_alloc"
  by (simp add: generous_def zero_alloc_def)

lemma small_buffer_ok [simp]: "buffer_ok small_buffer"
  by (simp add: buffer_ok_def small_buffer_def object_limit_def)

lemma unat_SIZE_MAX: "unat SIZE_MAX = 18446744073709551615"
proof -
  have "SIZE_MAX = (18446744073709551615 :: size_t)" by simp
  then show ?thesis by (simp only: unat_numeral) simp
qed

lemma minus_two_size_t: "(- 2 :: size_t) = 18446744073709551614"
  by simp

lemma run_result:
  assumes "fst r = Inr x"
  obtains s where "r = (Inr x, s)"
  using assms by (cases r) auto

lemmas run_buffer =
  trilogy_buffer_expand_def buffer_push_def buffer_copy_def buffer_poke_def grow_loop.simps
  realloc_def object_limit_def blit_def zero_alloc_def small_buffer_def contents_def

lemmas run_builder =
  trilogy_builder_init_def write_header_def on_part_def trilogy_builder_finalize_def
  trilogy_builder_write_uint8_def trilogy_builder_write_buffer_def write_piece_def checked_def
  TRILOGY_MAX_PACKET_LEN_def blank_builder_def Let_def minus_two_size_t word_le_nat_alt word_less_nat_alt unat_SIZE_MAX

lemmas run_parser =
  packet_parser_callbacks_def trilogy_packet_parser_init_def trilogy_packet_parser_execute_def
  parser_step_len parser_step_len_2 [OF _ refl] parser_step_seq [OF _ refl]
  parser_step_payload [OF _ refl refl] execute_loop.simps packet_begin_def packet_data_def
  packet_end_def returning_def callback_apply end_of_payload_apply

text \<open>Two packets that are parsed.\<close>

lemma sample_handshake_parsed:
  "trilogy_parse_handshake_packet (handshake_bytes sample_handshake [0x38] (replicate 10 0) [0x70])
      (word_of_nat (length (handshake_bytes sample_handshake [0x38] (replicate 10 0) [0x70]))) blank_handshake =
   Inr (received_handshake sample_handshake [0x38] [0x70] blank_handshake)"
  unfolding trilogy_parse_handshake_packet_def
  by (rule parses_whole [OF parses_handshake])
    (simp_all add: sample_handshake_def blank_handshake_def client_capabilities handshake_bytes_def)

lemma sample_ok_parsed:
  "trilogy_parse_ok_packet (ok_packet_bytes 3 4 0x4000 0 (Ok_changes [] [Gtid 0 [0x61]]))
      (word_of_nat (length (ok_packet_bytes 3 4 0x4000 0 (Ok_changes [] [Gtid 0 [0x61]]))))
      TRILOGY_CAPABILITIES_CLIENT =
   Inr (with_ok_tail (Ok_changes [] [Gtid 0 [0x61]]) (plain_ok_packet 3 4 0x4000 0))"
  unfolding trilogy_parse_ok_packet_def
  by (rule parses_whole [OF parses_ok_packet])
    (simp_all add: client_capabilities ok_packet_bytes_def lenenc_string_def lenenc_bytes_def
      TRILOGY_MAX_LAST_GTID_LEN_def)

section \<open>A connection\<close>

definition sample_opts :: trilogy_sockopt where
  "sample_opts = \<lparr>opt_hostname = None, opt_path = Some [0x73, 0], opt_database = None, opt_username = None,
     opt_password = None, opt_password_len = 0, opt_encoding = 45, opt_ssl_mode = TRILOGY_SSL_DISABLED,
     opt_tls_min_version = TRILOGY_TLS_VERSION_UNDEF, opt_tls_max_version = TRILOGY_TLS_VERSION_UNDEF,
     opt_port = 0, opt_ssl_ca = None, opt_ssl_capath = None, opt_ssl_cert = None, opt_ssl_cipher = None,
     opt_ssl_crl = None, opt_ssl_crlpath = None, opt_ssl_key = None, opt_tls_ciphersuites = None,
     opt_connect_timeout = \<lparr>tv_sec = 0, tv_usec = 0\<rparr>, opt_read_timeout = \<lparr>tv_sec = 0, tv_usec = 0\<rparr>,
     opt_write_timeout = \<lparr>tv_sec = 0, tv_usec = 0\<rparr>, opt_keepalive_enabled = False, opt_keepalive_idle = 0,
     opt_keepalive_count = 0, opt_keepalive_interval = 0, opt_enable_cleartext_plugin = False,
     opt_flags = 0, opt_max_allowed_packet = 0\<rparr>"

text \<open>The options of a connection to another host, without TLS.\<close>

definition far_opts :: trilogy_sockopt where
  "far_opts = sample_opts\<lparr>opt_hostname := Some [0x64, 0x62, 0], opt_path := None\<rparr>"

text \<open>A kernel that will deliver \<open>bs\<close>; the first calls are interrupted or transfer one byte.\<close>

definition sample_kernel :: "u8 list \<Rightarrow> kernel" where
  "sample_kernel bs = \<lparr>schedule = [Fails EINTR, Allows 1, Fails EINTR], to_read = bs, written = [],
     open_fds = [7], next_fd = 8, resolver = (\<lambda>_ _. None)\<rparr>"

definition sample_socket :: "u8 list \<Rightarrow> raw_sock" where
  "sample_socket bs = \<lparr>sock_addr = Some [\<lparr>ai_family = 2, ai_protocol = 0, ai_addr = []\<rparr>], sock_fd = 7, shut = False,
     sock_freed = False, sys = sample_kernel bs\<rparr>"

definition conn_over :: "'w trilogy_sock \<Rightarrow> 'w \<Rightarrow> 'w trilogy_conn" where
  "conn_over s w = \<lparr>affected_rows = 0, last_insert_id = 0, warning_count = 0, last_gtid = replicate 57 0,
     last_gtid_len = 0, error_code = 0, error_message = [], capabilities = TRILOGY_CAPABILITIES_CLIENT,
     server_status = 0, socket = Some s, recv_buff = replicate TRILOGY_DEFAULT_BUF_SIZE 0,
     recv_buff_pos = 0, recv_buff_len = 0, packet_parser = trilogy_packet_parser_init 0,
     packet_buffer = small_buffer, packet_buffer_written = 0, column_count = 0, started_reading_rows = False,
     outside = w\<rparr>"

lemma conn_over_ready [simp]: "ready (conn_over s w)" "conn_ok (conn_over s w)" "buffered (conn_over s w) = []"
  by (simp_all add: ready_def conn_ok_def conn_over_def buffered_def trilogy_packet_parser_init_def)

lemma conn_over_fields [simp]:
  "socket (conn_over s w) = Some s" "capabilities (conn_over s w) = TRILOGY_CAPABILITIES_CLIENT"
  "outside (conn_over s w) = w" "packet_buffer (conn_over s w) = small_buffer"
  "sequence_number (packet_parser (conn_over s w)) = 0" "server_status (conn_over s w) = 0" "column_count (conn_over s w) = 0"
  by (simp_all add: conn_over_def trilogy_packet_parser_init_def)

abbreviation sample_conn :: "u8 list \<Rightarrow> raw_sock trilogy_conn" where
  "sample_conn bs \<equiv> conn_over (raw_socket sample_opts) (sample_socket bs)"

lemma sample_socket_fields [simp]:
  "usable (sample_socket bs)" "connected (sample_socket bs)" "to_read (sys (sample_socket bs)) = bs"
  "written (sys (sample_socket bs)) = []" "open_fds (sys (sample_socket bs)) = [7]"
  by (simp_all add: usable_def connected_def sample_socket_def sample_kernel_def)

lemma raw_socket_opts [simp]: "sock_opts (raw_socket opts) = opts"
  by (simp add: raw_socket_def)

lemma sample_limit [simp]: "packet_limit sample_opts = SIZE_MAX"
  by (simp add: packet_limit_def sample_opts_def)

text \<open>A library that does not encrypt: every call succeeds, and the peer sends \<open>m\<close>.\<close>

definition sample_lib :: "u8 list \<Rightarrow> openssl" where
  "sample_lib m h c k = (case c of
      SSL_read p n \<Rightarrow> (let bs = take (nat n) (drop (length (received h)) m) in (\<lparr>ans_ret = int (length bs), ans_data = bs\<rparr>, k))
    | SSL_write p bs n \<Rightarrow> (\<lparr>ans_ret = max 0 n, ans_data = []\<rparr>, k)
    | _ \<Rightarrow> (\<lparr>ans_ret = 1, ans_data = []\<rparr>, k))"

definition sample_tls_socket :: "handlers \<Rightarrow> tls_sock" where
  "sample_tls_socket hs = \<lparr>tls_raw = sample_socket [], tls_ssl = (if hs = Ssl_handlers then 1 else 0), tls_handlers = hs, calls = []\<rparr>"

definition identity_opts :: trilogy_sockopt where
  "identity_opts = sample_opts\<lparr>opt_hostname := Some [0x64, 0x62, 0], opt_ssl_mode := TRILOGY_SSL_VERIFY_IDENTITY\<rparr>"

lemma sample_lib_delivers [simp]: "delivers (sample_lib m) m"
  by (auto simp: delivers_def sample_lib_def Let_def take_is_prefix)

lemma sample_tls_fields [simp]:
  "tls_incoming m (sample_tls_socket Ssl_handlers) = m" "tls_outgoing (sample_tls_socket Ssl_handlers) = []"
  "tls_ssl (sample_tls_socket Raw_handlers) = 0" "tls_handlers (sample_tls_socket hs) = hs"
  "calls (sample_tls_socket hs) = []" "sock_fd (tls_raw (sample_tls_socket hs)) = 7"
  by (simp_all add: sample_tls_socket_def tls_incoming_def tls_outgoing_def sample_socket_def)

definition granting :: ssl_answer where
  "granting = \<lparr>ans_ret = 1, ans_data = []\<rparr>"

definition plain_call :: "ssl_call \<Rightarrow> bool" where
  "plain_call c = (case c of SSL_read _ _ \<Rightarrow> False | SSL_write _ _ _ \<Rightarrow> False | _ \<Rightarrow> True)"

lemma sample_call: "plain_call c \<Longrightarrow> call (sample_lib m) c s = (Inr granting, s\<lparr>calls := calls s @ [(c, granting)]\<rparr>)"
  by (simp add: call_def sample_lib_def plain_call_def granting_def split: ssl_call.splits)

lemma sample_perform: "plain_call c \<Longrightarrow> perform (sample_lib m) c s = (Inr (), s\<lparr>calls := calls s @ [(c, granting)]\<rparr>)"
  by (simp add: perform_def checked_apply sample_call)

lemma sample_demand: "plain_call c \<Longrightarrow> demand (sample_lib m) c s = (Inr (), s\<lparr>calls := calls s @ [(c, granting)]\<rparr>)"
  by (simp add: demand_def checked_apply sample_call granting_def)

lemma sample_handshake: "ssl_handshake (sample_lib m) s =
    (Inr (), s\<lparr>calls := calls s @ [(ERR_clear_error, granting), (SSL_connect (tls_ssl s), granting)]\<rparr>)"
proof -
  have "ssl_connect_round (sample_lib m) s =
      (Inr True, s\<lparr>calls := calls s @ [(ERR_clear_error, granting), (SSL_connect (tls_ssl s), granting)]\<rparr>)"
    by (simp add: ssl_connect_round_def checked_apply sample_perform sample_call plain_call_def) (simp add: granting_def)
  then show ?thesis by (simp add: ssl_handshake_def ssl_connect_loop.simps [of _ s])
qed

lemmas run_tls = trilogy_sock_upgrade_ssl_def trilogy_ssl_ctx_def ssl_ctx_settings_def ssl_ctx_versions_def
  ssl_ctx_ciphers_def ssl_ctx_verify_def ssl_ctx_certificate_def ssl_ctx_revocation_def ssl_identity_def
  proto_demand sample_call sample_perform sample_demand sample_handshake plain_call_def checked_apply if_given_def
  or_else_def verify_mode_def

section \<open>A client of the Ruby extension\<close>

text \<open>An interpreter in which waiting succeeds at once and nothing else happens.\<close>

definition sample_vm :: "('v, nat) rb_vm" where
  "sample_vm = \<lparr>vm_wait = (\<lambda>fd flag timeout w. Inr 1), vm_others = (\<lambda>w. (rb_pool w, rb_encodings w)), vm_errno = (\<lambda>_. 104),
     vm_ssl_error = (\<lambda>_. (0, 0, [])), vm_ssl_clear = (\<lambda>v. v), vm_xmalloc = (\<lambda>n. replicate (unat n) 0),
     vm_values = (\<lambda>n. replicate (unat n) blank_value), vm_room = (\<lambda>_ _. None), vm_export = (\<lambda>_ s. Inr s),
     vm_asciicompat = (\<lambda>_. True), vm_funcall = (\<lambda>_. None), vm_find_index = (\<lambda>_. 1), vm_strtod = (\<lambda>_. (0, 0))\<rparr>"

definition sample_ctx :: "u8 list \<Rightarrow> raw_sock trilogy_ctx" where
  "sample_ctx bs = \<lparr>ctx_conn = (conn_over (plain_socket sample_vm sample_opts)
       \<lparr>rb_net = sample_socket bs, rb_pool = create_rb_buffer_pool, rb_encodings = replicate TRILOGY_CHARSET_MAX 0, rb_pending = None\<rparr>)
       \<lparr>packet_buffer := \<lparr>buf_len = 0, buf_cap = 0, buf_mem = None\<rparr>\<rparr>,
     ctx_server_version = [], ctx_query_flags = TRILOGY_FLAGS_DEFAULT, ctx_encoding = 1\<rparr>"

lemma sample_ctx_fields [simp]:
  "socket (ctx_conn (sample_ctx bs)) = Some (plain_socket sample_vm sample_opts)"
  "rb_pending (outside (ctx_conn (sample_ctx bs))) = None" "rb_net (outside (ctx_conn (sample_ctx bs))) = sample_socket bs"
  "rb_pool (outside (ctx_conn (sample_ctx bs))) = create_rb_buffer_pool" "buf_mem (packet_buffer (ctx_conn (sample_ctx bs))) = None"
  by (simp_all add: sample_ctx_def)

lemma sample_ctx_in_order: "in_order (plain_socket sample_vm sample_opts) shut (sample_ctx bs)"
  by (simp add: in_order_def attached_to_def guarded_def)

text \<open>The interpreter is considerate, and the client at rest.\<close>

lemma sample_considerate: "considerate sample_vm"
  by (simp add: considerate_def sample_vm_def)

lemma sample_at_rest: "at_rest sample_vm sample_opts (sample_ctx bs)"
proof -
  have "calm sample_vm (outside (ctx_conn (sample_ctx bs)))"
    by (simp add: calm_def pool_good_def cache_ok_def) (simp add: sample_ctx_def cache_ok_def)
  then show ?thesis
    by (simp add: at_rest_def Let_def) (simp add: sample_ctx_def conn_over_def trilogy_packet_parser_init_def TRILOGY_DEFAULT_BUF_SIZE_def)
qed

lemma sample_ctx_session [simp]:
  "capabilities (ctx_conn (sample_ctx bs)) = TRILOGY_CAPABILITIES_CLIENT" "buffered (ctx_conn (sample_ctx bs)) = []"
  "ctx_query_flags (sample_ctx bs) = TRILOGY_FLAGS_DEFAULT" "vm_export sample_vm (ctx_encoding (sample_ctx bs)) s = Inr s"
proof -
  show "buffered (ctx_conn (sample_ctx bs)) = []" by (simp add: sample_ctx_def buffered_def conn_over_def)
  show "vm_export sample_vm (ctx_encoding (sample_ctx bs)) s = Inr s" by (simp add: sample_vm_def)
qed (simp_all add: sample_ctx_def)

text \<open>A table of one integer column, with the rows of a number and of \<^verbatim>\<open>NULL\<close>.\<close>

lemma sample_casts: "casts_to sample_vm (load_query_options TRILOGY_FLAGS_DEFAULT) [sample_column] [[Some [0x31]], [None]]
    [[Integer_value 1], [Qnil]]"
proof -
  let ?i = "column_info_of sample_column" and ?options = "load_query_options TRILOGY_FLAGS_DEFAULT"
  have decimal: "signed_decimal 1 = [0x31]" by (simp add: signed_decimal_def decimal.simps digit_def)
  have options: "cast ?options" by (simp add: load_query_options_def TRILOGY_FLAGS_DEFAULT_def TRILOGY_FLAGS_CAST_def)
  have type: "of_type ?i TRILOGY_TYPE_LONG"
    using type_of_code_code [of TRILOGY_TYPE_LONG] by (simp add: of_type_def column_info_of_def sample_column_def)
  have "cast_integer ?i (text_value [0x31]) = (ruby_ret (Integer_value 1) :: (int list, nat ruby_value) ruby)"
    by (rule cast_integer_decimal [of _ 1, unfolded decimal]) simp
  then have "rb_trilogy_cast_value strtod find_index (text_value [0x31]) ?i ?options = (ruby_ret (Integer_value 1) :: (int list, nat ruby_value) ruby)" for strtod find_index
    by (subst cast_integer_type [OF options type]) (simp_all add: text_value_def)
  then show ?thesis by (simp add: casts_to_def cell_def ruby_ret_def sample_vm_def)
qed

definition sample_table :: "u8 list" where
  "sample_table = packets 1 (table_packets TRILOGY_CAPABILITIES_CLIENT 12 0 (0, 0) (2, 0) [sample_column] [[Some [0x31]], [None]])"

lemma sample_table_fits: "table_fits [sample_column] [[Some [0x31]], [None]] 12 0"
  by (auto simp: table_fits_def column_strings_def sample_column_def column_packet_bytes_def lenenc_string_def lenenc_bytes_def
      row_packet_bytes_def)

lemma sample_table_run:
  "\<exists>ctx'. rb_trilogy_query sample_vm zero_alloc [0x53] (sample_ctx sample_table) =
     (Inr (table_result (load_query_options TRILOGY_FLAGS_DEFAULT) [sample_column] [[Integer_value 1], [Qnil]]), ctx')"
  by (rule table_queried [OF sample_considerate sample_at_rest [of sample_table], where query = "[0x53]" and sql = "[0x53]" and alloc = zero_alloc
        and cols = "[sample_column]" and rows = "[[Some [0x31]], [None]]" and fixed = 12 and filler = 0 and extra = "[]"
        and before = "(0, 0)" and after = "(2, 0)" and xss = "[[Integer_value 1], [Qnil]]"])
    (auto simp: client_capabilities affordable_def unat_SIZE_MAX sample_table_fits sample_casts sample_table_def
      after_fragments_def TRILOGY_MAX_PACKET_LEN_def)

section \<open>Runs that show a defect\<close>

text \<open>
  The check of \<^verbatim>\<open>trilogy_buffer_expand\<close> can overflow: there is a well-formed buffer and a number of
  bytes for which it reports success without making room, because the sum of the length
  and the bytes asked for wraps around; the documented \<^verbatim>\<open>TRILOGY_TYPE_OVERFLOW\<close> is not returned.
\<close>

lemma expand_overflow_unnoticed:
  "\<exists>b n. buffer_ok b \<and> trilogy_buffer_expand alloc n b = (Inr (), b) \<and> room b < unat n"
proof (intro exI conjI)
  let ?b = "small_buffer\<lparr>buf_len := 2\<rparr>"
  show "buffer_ok ?b" by (simp add: buffer_ok_def small_buffer_def object_limit_def)
  show "trilogy_buffer_expand alloc (- 1) ?b = (Inr (), ?b)"
    by (simp add: trilogy_buffer_expand_def small_buffer_def)
  show "room ?b < unat (- 1 :: size_t)"
    by (simp add: room_def small_buffer_def unat_SIZE_MAX)
qed

text \<open>
  A packet whose last bytes could not be stored is reported twice: after the memory
  error, which leaves the parser in the payload, the next call ends the packet as deferred, and
  the one after ends it once more, before any byte of the next packet is read.
\<close>

lemma failed_packet_ends_twice:
  "\<exists>s1 s2 s3.
     trilogy_packet_parser_execute (packet_parser_callbacks (\<lambda>_. None)) [9, 0, 0, 0, 1, 2, 3, 4, 5, 6, 7, 8, 9]
       (trilogy_packet_parser_init 0, small_buffer) = (Inr (13, rc_code TRILOGY_SYSERR), s1)
     \<and> trilogy_packet_parser_execute (packet_parser_callbacks zero_alloc) [1] s1 = (Inr (0, 1), s2)
     \<and> trilogy_packet_parser_execute (packet_parser_callbacks zero_alloc) [1] s2 = (Inr (0, 1), s3)"
  by (simp add: run_parser run_buffer checked_def word_less_nat_alt update_def TRILOGY_MAX_PACKET_LEN_def)

end
