(* ===== verification/Ruby_Options.thy ===== *)
theory Ruby_Options
  imports Ruby_Methods
begin

text \<open>
  How \<^verbatim>\<open>rb_trilogy_connect\<close> reads the hash of its options, and the accessors of the timeouts
  (\<^verbatim>\<open>contrib/ruby/ext/trilogy-ruby/cext.c\<close>).
\<close>

section \<open>Values of Ruby\<close>

text \<open>
  A value of the hash; \<open>Other_object\<close> is an object of any other class, a big number included. The hash has
  no default value: a key that is absent has the value \<open>Nil\<close>.
\<close>

datatype 'f option_value = Nil | False_object | True_object | Fixnum int | Float 'f | Str "u8 list" | Other_object nat

type_synonym 'f option_hash = "string \<Rightarrow> 'f option_value"

definition RTEST :: "'f option_value \<Rightarrow> bool" where
  "RTEST v \<longleftrightarrow> v \<noteq> Nil \<and> v \<noteq> False_object"

definition wrong_type :: ruby_stop where
  "wrong_type = Raised ''TypeError'' ''wrong argument type'' []"

definition out_of_range :: ruby_stop where
  "out_of_range = Raised ''RangeError'' ''integer too big or too small to convert'' []"

text \<open>\<^verbatim>\<open>Check_Type\<close>, with the value inside.\<close>

definition check_fixnum :: "'f option_value \<Rightarrow> ruby_stop + int" where
  "check_fixnum v = (case v of Fixnum n \<Rightarrow> Inr n | _ \<Rightarrow> Inl wrong_type)"

definition check_string :: "'f option_value \<Rightarrow> ruby_stop + u8 list" where
  "check_string v = (case v of Str s \<Rightarrow> Inr s | _ \<Rightarrow> Inl wrong_type)"

text \<open>A string as an object of C: its bytes and the zero after them.\<close>

definition RSTRING_PTR :: "u8 list \<Rightarrow> u8 list" where
  "RSTRING_PTR s = s @ [0]"

definition StringValueCStr :: "u8 list \<Rightarrow> ruby_stop + u8 list" where
  "StringValueCStr s =
     (if 0 \<in> set s then Inl (Raised ''ArgumentError'' ''string contains null byte'' []) else Inr (RSTRING_PTR s))"

definition NUM2INT :: "int \<Rightarrow> ruby_stop + int" where
  "NUM2INT n = (if - (2 ^ 31) \<le> n \<and> n < 2 ^ 31 then Inr n else Inl out_of_range)"

text \<open>A number down to the least \<^verbatim>\<open>short\<close> wraps around.\<close>

definition NUM2USHORT :: "int \<Rightarrow> ruby_stop + u16" where
  "NUM2USHORT n = (if - (2 ^ 15) \<le> n \<and> n < 2 ^ 16 then Inr (word_of_int n) else Inl out_of_range)"

definition NUM2SIZET :: "int \<Rightarrow> ruby_stop + size_t" where
  "NUM2SIZET n = Inr (word_of_int n)"

text \<open>
  The arithmetic of \<^verbatim>\<open>double\<close>, and the conversion of a value to one, which may call its methods or raise.
\<close>

record 'f doubles =
  dbl_floor :: "'f \<Rightarrow> 'f"
  dbl_minus :: "'f \<Rightarrow> 'f \<Rightarrow> 'f"
  dbl_times :: "'f \<Rightarrow> 'f \<Rightarrow> 'f"
  dbl_plus :: "'f \<Rightarrow> 'f \<Rightarrow> 'f"
  dbl_divide :: "'f \<Rightarrow> 'f \<Rightarrow> 'f"
  dbl_of_int :: "int \<Rightarrow> 'f"
  dbl_to_long :: "'f \<Rightarrow> int"
  NUM2DBL :: "'f option_value \<Rightarrow> ruby_stop + 'f"

definition double_to_timeval :: "'f doubles \<Rightarrow> 'f \<Rightarrow> timeval" where
  "double_to_timeval dbl secs =
     (let whole_secs = dbl_floor dbl secs
      in \<lparr>tv_sec = dbl_to_long dbl whole_secs,
          tv_usec = dbl_to_long dbl (dbl_floor dbl (dbl_times dbl (dbl_minus dbl secs whole_secs) (dbl_of_int dbl 1000000)))\<rparr>)"

text \<open>
  A number as a member of an enumeration. The theory covers the members; with any other number the structure would
  hold that number, and \<open>Crashed Fault\<close> stands for what is left open.
\<close>

definition to_ssl_mode :: "int \<Rightarrow> ruby_stop + trilogy_ssl_mode" where
  "to_ssl_mode n =
     (if n = 0 then Inr TRILOGY_SSL_DISABLED else if n = 1 then Inr TRILOGY_SSL_VERIFY_IDENTITY
      else if n = 2 then Inr TRILOGY_SSL_VERIFY_CA else if n = 3 then Inr TRILOGY_SSL_REQUIRED_NOVERIFY
      else if n = 4 then Inr TRILOGY_SSL_PREFERRED_NOVERIFY else Inl (Crashed Fault))"

definition to_tls_version :: "int \<Rightarrow> ruby_stop + trilogy_tls_version" where
  "to_tls_version n =
     (if n = 0 then Inr TRILOGY_TLS_VERSION_UNDEF else if n = 1 then Inr TRILOGY_TLS_VERSION_10
      else if n = 2 then Inr TRILOGY_TLS_VERSION_11 else if n = 3 then Inr TRILOGY_TLS_VERSION_12
      else if n = 4 then Inr TRILOGY_TLS_VERSION_13 else Inl (Crashed Fault))"

section \<open>The options\<close>

text \<open>Each option raises an exception, or changes the structure that is made of them.\<close>

type_synonym option_step = "ruby_stop + (trilogy_sockopt \<Rightarrow> trilogy_sockopt)"

definition and_then :: "'e + 'a \<Rightarrow> ('a \<Rightarrow> 'e + 'b) \<Rightarrow> 'e + 'b" where
  "and_then x k = (case x of Inl e \<Rightarrow> Inl e | Inr a \<Rightarrow> k a)"

definition if_present :: "'f option_value \<Rightarrow> ('f option_value \<Rightarrow> option_step) \<Rightarrow> option_step" where
  "if_present val k = (if val = Nil then Inr id else k val)"

definition number_option :: "'f option_value \<Rightarrow> (int \<Rightarrow> ruby_stop + 'n) \<Rightarrow> ('n \<Rightarrow> trilogy_sockopt \<Rightarrow> trilogy_sockopt) \<Rightarrow> option_step" where
  "number_option val conv store =
     if_present val (\<lambda>val. and_then (check_fixnum val) (\<lambda>n. and_then (conv n) (\<lambda>x. Inr (store x))))"

definition string_option :: "'f option_value \<Rightarrow> (u8 list \<Rightarrow> trilogy_sockopt \<Rightarrow> trilogy_sockopt) \<Rightarrow> option_step" where
  "string_option val store =
     if_present val (\<lambda>val. and_then (check_string val) (\<lambda>s. and_then (StringValueCStr s) (\<lambda>p. Inr (store p))))"

definition time_option :: "'f doubles \<Rightarrow> 'f option_value \<Rightarrow> (timeval \<Rightarrow> trilogy_sockopt \<Rightarrow> trilogy_sockopt) \<Rightarrow> option_step" where
  "time_option dbl val store =
     if_present val (\<lambda>val. and_then (NUM2DBL dbl val) (\<lambda>secs. Inr (store (double_to_timeval dbl secs))))"

definition flag_option :: "bool \<Rightarrow> (trilogy_sockopt \<Rightarrow> trilogy_sockopt) \<Rightarrow> option_step" where
  "flag_option b store = Inr (if b then store else id)"

definition or_flags :: "u32 \<Rightarrow> trilogy_sockopt \<Rightarrow> trilogy_sockopt" where
  "or_flags f connopt = connopt\<lparr>opt_flags := opt_flags connopt OR f\<rparr>"

text \<open>A host with a port, or else the path of a local socket.\<close>

definition address_option :: "'f option_hash \<Rightarrow> option_step" where
  "address_option opts =
     (if opts ''host'' \<noteq> Nil then
        and_then (string_option (opts ''host'') (\<lambda>p c. c\<lparr>opt_hostname := Some p, opt_port := 3306\<rparr>)) (\<lambda>host.
        and_then (number_option (opts ''port'') NUM2USHORT (\<lambda>n c. c\<lparr>opt_port := n\<rparr>)) (\<lambda>port. Inr (port \<circ> host)))
      else
        and_then (string_option (opts ''socket'') (\<lambda>p c. c\<lparr>opt_path := Some p\<rparr>)) (\<lambda>path.
        Inr (path \<circ> (\<lambda>c. c\<lparr>opt_path := Some (literal ''/tmp/mysql.sock'')\<rparr>))))"

definition password_option :: "'f option_value \<Rightarrow> option_step" where
  "password_option val =
     if_present val (\<lambda>val. and_then (check_string val) (\<lambda>s.
       Inr (\<lambda>c. c\<lparr>opt_password := Some (RSTRING_PTR s), opt_password_len := word_of_nat (length s)\<rparr>)))"

text \<open>In the order of the code.\<close>

definition option_steps :: "'f doubles \<Rightarrow> 'f option_hash \<Rightarrow> option_step list" where
  "option_steps dbl opts =
    [number_option (opts ''ssl_mode'') (\<lambda>n. and_then (NUM2INT n) to_ssl_mode) (\<lambda>m c. c\<lparr>opt_ssl_mode := m\<rparr>),
     time_option dbl (opts ''connect_timeout'') (\<lambda>t c. c\<lparr>opt_connect_timeout := t\<rparr>),
     time_option dbl (opts ''read_timeout'') (\<lambda>t c. c\<lparr>opt_read_timeout := t\<rparr>),
     time_option dbl (opts ''write_timeout'') (\<lambda>t c. c\<lparr>opt_write_timeout := t\<rparr>),
     flag_option (RTEST (opts ''keepalive_enabled'')) (\<lambda>c. c\<lparr>opt_keepalive_enabled := True\<rparr>),
     number_option (opts ''keepalive_idle'') NUM2USHORT (\<lambda>n c. c\<lparr>opt_keepalive_idle := n\<rparr>),
     number_option (opts ''keepalive_count'') NUM2USHORT (\<lambda>n c. c\<lparr>opt_keepalive_count := n\<rparr>),
     number_option (opts ''keepalive_interval'') NUM2USHORT (\<lambda>n c. c\<lparr>opt_keepalive_interval := n\<rparr>),
     number_option (opts ''max_allowed_packet'') NUM2SIZET (\<lambda>n c. c\<lparr>opt_max_allowed_packet := n\<rparr>),
     address_option opts,
     string_option (opts ''username'') (\<lambda>p c. c\<lparr>opt_username := Some p\<rparr>),
     password_option (opts ''password''),
     string_option (opts ''database'') (\<lambda>p c. or_flags (capability TRILOGY_CAPABILITIES_CONNECT_WITH_DB) (c\<lparr>opt_database := Some p\<rparr>)),
     flag_option (RTEST (opts ''enable_cleartext_plugin'')) (\<lambda>c. c\<lparr>opt_enable_cleartext_plugin := True\<rparr>),
     flag_option (RTEST (opts ''found_rows'')) (or_flags (capability TRILOGY_CAPABILITIES_FOUND_ROWS)),
     flag_option (opts ''multi_result'' \<noteq> False_object) (or_flags (capability TRILOGY_CAPABILITIES_MULTI_RESULTS)),
     flag_option (RTEST (opts ''multi_statement'')) (or_flags (capability TRILOGY_CAPABILITIES_MULTI_STATEMENTS)),
     string_option (opts ''ssl_ca'') (\<lambda>p c. c\<lparr>opt_ssl_ca := Some p\<rparr>),
     string_option (opts ''ssl_capath'') (\<lambda>p c. c\<lparr>opt_ssl_capath := Some p\<rparr>),
     string_option (opts ''ssl_cert'') (\<lambda>p c. c\<lparr>opt_ssl_cert := Some p\<rparr>),
     string_option (opts ''ssl_cipher'') (\<lambda>p c. c\<lparr>opt_ssl_cipher := Some p\<rparr>),
     string_option (opts ''ssl_crl'') (\<lambda>p c. c\<lparr>opt_ssl_crl := Some p\<rparr>),
     string_option (opts ''ssl_crlpath'') (\<lambda>p c. c\<lparr>opt_ssl_crlpath := Some p\<rparr>),
     string_option (opts ''ssl_key'') (\<lambda>p c. c\<lparr>opt_ssl_key := Some p\<rparr>),
     string_option (opts ''tls_ciphersuites'') (\<lambda>p c. c\<lparr>opt_tls_ciphersuites := Some p\<rparr>),
     number_option (opts ''tls_min_version'') (\<lambda>n. and_then (NUM2INT n) to_tls_version) (\<lambda>v c. c\<lparr>opt_tls_min_version := v\<rparr>),
     number_option (opts ''tls_max_version'') (\<lambda>n. and_then (NUM2INT n) to_tls_version) (\<lambda>v c. c\<lparr>opt_tls_max_version := v\<rparr>)]"

primrec take_options :: "option_step list \<Rightarrow> trilogy_sockopt \<Rightarrow> ruby_stop + trilogy_sockopt" where
  "take_options [] connopt = Inr connopt"
| "take_options (s # ss) connopt = and_then s (\<lambda>f. take_options ss (f connopt))"

text \<open>\<^verbatim>\<open>connopt = {0}\<close>.\<close>

definition zero_sockopt :: trilogy_sockopt where
  "zero_sockopt = \<lparr>opt_hostname = None, opt_path = None, opt_database = None, opt_username = None,
     opt_password = None, opt_password_len = 0, opt_encoding = 0, opt_ssl_mode = TRILOGY_SSL_DISABLED,
     opt_tls_min_version = TRILOGY_TLS_VERSION_UNDEF, opt_tls_max_version = TRILOGY_TLS_VERSION_UNDEF,
     opt_port = 0, opt_ssl_ca = None, opt_ssl_capath = None, opt_ssl_cert = None, opt_ssl_cipher = None,
     opt_ssl_crl = None, opt_ssl_crlpath = None, opt_ssl_key = None, opt_tls_ciphersuites = None,
     opt_connect_timeout = \<lparr>tv_sec = 0, tv_usec = 0\<rparr>, opt_read_timeout = \<lparr>tv_sec = 0, tv_usec = 0\<rparr>,
     opt_write_timeout = \<lparr>tv_sec = 0, tv_usec = 0\<rparr>, opt_keepalive_enabled = False, opt_keepalive_idle = 0,
     opt_keepalive_count = 0, opt_keepalive_interval = 0, opt_enable_cleartext_plugin = False,
     opt_flags = 0, opt_max_allowed_packet = 0\<rparr>"

definition connect_options :: "'f doubles \<Rightarrow> int \<Rightarrow> 'f option_hash \<Rightarrow> ruby_stop + trilogy_sockopt" where
  "connect_options dbl charset opts =
     and_then (NUM2INT charset) (\<lambda>n. take_options (option_steps dbl opts) (zero_sockopt\<lparr>opt_encoding := word_of_int n\<rparr>))"

text \<open>The method, from its options on; the encoding is stored first.\<close>

definition rb_trilogy_connect_method ::
  "('v, 'f) rb_vm \<Rightarrow> 'f doubles \<Rightarrow> (u8 list \<Rightarrow> u8 list) \<Rightarrow> (u8 list \<Rightarrow> u8 list) \<Rightarrow> allocator \<Rightarrow> trilogy_auth_switch_request_packet \<Rightarrow>
   trilogy_handshake \<Rightarrow> ('v \<Rightarrow> bool) \<Rightarrow> (trilogy_sockopt \<Rightarrow> ('v, 'v trilogy_sock) op) \<Rightarrow> ('v trilogy_sock \<Rightarrow> ('v, unit) op) \<Rightarrow>
   ('v rb_world trilogy_conn, unit) op \<Rightarrow> int \<Rightarrow> int \<Rightarrow> 'f option_hash \<Rightarrow> ('v trilogy_ctx, 'f ruby_value) ruby" where
  "rb_trilogy_connect_method vm dbl sha1 sha256 alloc local unset down new resolve upgrade encoding charset opts =
     ruby_then (\<lambda>ctx. (Inr (), ctx\<lparr>ctx_encoding := encoding\<rparr>)) (\<lambda>_.
     case connect_options dbl charset opts of
       Inl e \<Rightarrow> ruby_stop e
     | Inr connopt \<Rightarrow> rb_trilogy_connect vm sha1 sha256 alloc local unset down new resolve upgrade encoding connopt)"

section \<open>The timeouts of an open connection\<close>

text \<open>\<open>sock_with\<close> is the socket with given options; of the callbacks, the wait reads them from the socket.\<close>

definition timeout_set ::
  "'f doubles \<Rightarrow> (trilogy_sockopt \<Rightarrow> 'v rb_world trilogy_sock) \<Rightarrow> (timeval \<Rightarrow> trilogy_sockopt \<Rightarrow> trilogy_sockopt) \<Rightarrow> 'f option_value \<Rightarrow>
   ('v trilogy_ctx, 'f option_value) ruby" where
  "timeout_set dbl sock_with store v =
     ruby_then get_open_ctx (\<lambda>ctx.
     case (if v = Nil then Inr (dbl_of_int dbl 0) else NUM2DBL dbl v) of
       Inl e \<Rightarrow> ruby_stop e
     | Inr secs \<Rightarrow>
         ruby_then (\<lambda>ctx. (Inr (), ctx\<lparr>ctx_conn := (ctx_conn ctx)\<lparr>socket :=
           map_option (\<lambda>s. sock_with (store (double_to_timeval dbl secs) (sock_opts s))) (socket (ctx_conn ctx))\<rparr>\<rparr>)) (\<lambda>_.
         ruby_ret v))"

definition rb_trilogy_read_timeout_set ::
  "'f doubles \<Rightarrow> (trilogy_sockopt \<Rightarrow> 'v rb_world trilogy_sock) \<Rightarrow> 'f option_value \<Rightarrow> ('v trilogy_ctx, 'f option_value) ruby" where
  "rb_trilogy_read_timeout_set dbl sock_with = timeout_set dbl sock_with (\<lambda>t opts. opts\<lparr>opt_read_timeout := t\<rparr>)"

definition rb_trilogy_write_timeout_set ::
  "'f doubles \<Rightarrow> (trilogy_sockopt \<Rightarrow> 'v rb_world trilogy_sock) \<Rightarrow> 'f option_value \<Rightarrow> ('v trilogy_ctx, 'f option_value) ruby" where
  "rb_trilogy_write_timeout_set dbl sock_with = timeout_set dbl sock_with (\<lambda>t opts. opts\<lparr>opt_write_timeout := t\<rparr>)"

definition timeval_to_double :: "'f doubles \<Rightarrow> timeval \<Rightarrow> 'f" where
  "timeval_to_double dbl tv =
     dbl_plus dbl (dbl_of_int dbl (tv_sec tv)) (dbl_divide dbl (dbl_of_int dbl (tv_usec tv)) (dbl_of_int dbl 1000000))"

definition timeout_get :: "'f doubles \<Rightarrow> (trilogy_sockopt \<Rightarrow> timeval) \<Rightarrow> ('v trilogy_ctx, 'f ruby_value) ruby" where
  "timeout_get dbl field =
     ruby_then get_open_ctx (\<lambda>ctx.
     case socket (ctx_conn ctx) of
       None \<Rightarrow> ruby_stop (Crashed Fault)
     | Some s \<Rightarrow> ruby_ret (Float_value (timeval_to_double dbl (field (sock_opts s)))))"

definition rb_trilogy_read_timeout :: "'f doubles \<Rightarrow> ('v trilogy_ctx, 'f ruby_value) ruby" where
  "rb_trilogy_read_timeout dbl = timeout_get dbl opt_read_timeout"

definition rb_trilogy_write_timeout :: "'f doubles \<Rightarrow> ('v trilogy_ctx, 'f ruby_value) ruby" where
  "rb_trilogy_write_timeout dbl = timeout_get dbl opt_write_timeout"

section \<open>What the options come to\<close>

lemma and_then_simps [simp]: "and_then (Inl e) k = Inl e" "and_then (Inr x) k = k x"
  by (simp_all add: and_then_def)

lemma and_then_Inr: "and_then x k = Inr y \<longleftrightarrow> (\<exists>a. x = Inr a \<and> k a = Inr y)"
  by (simp add: and_then_def split: sum.splits)

lemma and_then_Inl: "and_then x k = Inl e \<longleftrightarrow> x = Inl e \<or> (\<exists>a. x = Inr a \<and> k a = Inl e)"
  by (auto simp: and_then_def split: sum.splits)

text \<open>The first option that is not accepted decides, whatever the others have stored.\<close>

lemma take_options_append: "take_options (xs @ ys) c = and_then (take_options xs c) (take_options ys)"
  by (induction xs arbitrary: c) (simp_all add: and_then_def split: sum.splits)

lemma take_options_refused: "s \<in> set ss \<Longrightarrow> s = Inl e \<Longrightarrow> \<exists>e. take_options ss c = Inl e"
  by (induction ss arbitrary: c) (auto simp: and_then_def split: sum.splits)

text \<open>An option that leaves a field of the structure as it is.\<close>

definition leaves :: "(trilogy_sockopt \<Rightarrow> 'a) \<Rightarrow> option_step \<Rightarrow> bool" where
  "leaves field s \<longleftrightarrow> (\<forall>f c. s = Inr f \<longrightarrow> field (f c) = field c)"

lemma leaves_option:
  "(\<And>x c. field (g x c) = field c) \<Longrightarrow> leaves field (number_option v conv g)"
  "(\<And>p c. field (h p c) = field c) \<Longrightarrow> leaves field (string_option v h)"
  "(\<And>t c. field (k t c) = field c) \<Longrightarrow> leaves field (time_option dbl v k)"
  "(\<And>c. field (l c) = field c) \<Longrightarrow> leaves field (flag_option b l)"
  by (auto simp: leaves_def number_option_def string_option_def time_option_def flag_option_def if_present_def and_then_Inr)

lemma leaves_password: "(\<And>p n c. field (c\<lparr>opt_password := p, opt_password_len := n\<rparr>) = field c) \<Longrightarrow> leaves field (password_option v)"
  by (auto simp: leaves_def password_option_def if_present_def and_then_Inr)

lemma leaves_address: "(\<And>p n c. field (c\<lparr>opt_hostname := p\<rparr>) = field c \<and> field (c\<lparr>opt_path := p\<rparr>) = field c \<and> field (c\<lparr>opt_port := n\<rparr>) = field c) \<Longrightarrow>
    leaves field (address_option opts)"
  by (auto simp: leaves_def address_option_def number_option_def string_option_def if_present_def and_then_Inr split: if_splits)

lemma take_options_leaves: "list_all (leaves field) ss \<Longrightarrow> take_options ss c = Inr c' \<Longrightarrow> field c' = field c"
  by (induction ss arbitrary: c) (auto simp: and_then_Inr leaves_def)

text \<open>Where one option alone stores a field, it decides it.\<close>

lemma option_decides:
  assumes "take_options (pre @ s # post) c = Inr c'" and "list_all (leaves field) pre" and "list_all (leaves field) post"
  obtains f d where "s = Inr f" and "field d = field c" and "field c' = field (f d)"
proof -
  obtain d f where d: "take_options pre c = Inr d" "s = Inr f" "take_options post (f d) = Inr c'"
    using assms(1) by (auto simp: take_options_append and_then_Inr)
  from that [OF d(2)] take_options_leaves [OF assms(2) d(1)] take_options_leaves [OF assms(3) d(3)] show ?thesis by simp
qed

lemma address_decided:
  assumes "connect_options dbl charset opts = Inr c"
  shows "(case opts ''host'' of
        Nil \<Rightarrow> opt_hostname c = None \<and> opt_path c = Some (case opts ''socket'' of Str s \<Rightarrow> RSTRING_PTR s | _ \<Rightarrow> literal ''/tmp/mysql.sock'')
      | Str s \<Rightarrow> opt_hostname c = Some (RSTRING_PTR s) \<and> 0 \<notin> set s \<and> opt_path c = None
          \<and> opt_port c = (case opts ''port'' of Fixnum n \<Rightarrow> word_of_int n | _ \<Rightarrow> 3306)
      | _ \<Rightarrow> False)"
proof -
  let ?field = "\<lambda>c. (opt_hostname c, opt_path c, opt_port c)" and ?all = "option_steps dbl opts"
  obtain n where run: "take_options (take 9 ?all @ address_option opts # drop 10 ?all) (zero_sockopt\<lparr>opt_encoding := word_of_int n\<rparr>) = Inr c"
    using assms by (auto simp: connect_options_def and_then_Inr option_steps_def)
  have "list_all (leaves ?field) (take 9 ?all)" "list_all (leaves ?field) (drop 10 ?all)"
    by (simp_all add: option_steps_def leaves_option leaves_password or_flags_def)
  from option_decides [OF run this] obtain f d where f: "address_option opts = Inr f" and "?field d = (None, None, 0)" and "?field c = ?field (f d)"
    by (auto simp: zero_sockopt_def)
  then show ?thesis
    by (auto simp: address_option_def number_option_def string_option_def if_present_def and_then_Inr check_string_def check_fixnum_def
        StringValueCStr_def NUM2USHORT_def split: if_splits option_value.splits)
qed

text \<open>An option of the wrong class is refused before anything is done.\<close>

lemma wrong_option_refused:
  assumes "key \<in> set [''username'', ''password'', ''database'', ''ssl_ca'', ''ssl_capath'', ''ssl_cert'', ''ssl_cipher'', ''ssl_crl'', ''ssl_crlpath'',
      ''ssl_key'', ''tls_ciphersuites'']" and "opts key \<noteq> Nil" and "\<And>s. opts key \<noteq> Str s"
  shows "\<exists>e. rb_trilogy_connect_method vm dbl sha1 sha256 alloc local unset down new resolve upgrade encoding charset opts ctx
    = (Inl e, ctx\<lparr>ctx_encoding := encoding\<rparr>)"
proof -
  have wrong: "string_option (opts key) h = Inl wrong_type" "password_option (opts key) = Inl wrong_type" for h
    using assms(2,3) by (auto simp: string_option_def password_option_def if_present_def check_string_def split: option_value.splits)
  have "\<exists>s \<in> set (option_steps dbl opts). s = Inl wrong_type" using assms(1) wrong by (auto simp: option_steps_def)
  then have "\<exists>e. connect_options dbl charset opts = Inl e"
    using take_options_refused [where ss = "option_steps dbl opts"] by (auto simp: connect_options_def and_then_def split: sum.splits)
  then show ?thesis by (auto simp: rb_trilogy_connect_method_def ruby_then_def ruby_stop_def)
qed

text \<open>
  A timeout that was set is the one that the next waits of its kind are given, and the one that is read back; with
  \<^verbatim>\<open>nil\<close>, whose time is zero, they have none.
\<close>

lemma timeout_applies:
  assumes sock: "socket (ctx_conn ctx) = Some s" and v: "(if v = Nil then Inr (dbl_of_int dbl 0) else NUM2DBL dbl v) = Inr secs"
    and made: "\<And>opts. sock_opts (sock_with opts) = opts"
  shows "\<exists>ctx' s'. rb_trilogy_read_timeout_set dbl sock_with v ctx = (Inr v, ctx') \<and> socket (ctx_conn ctx') = Some s'
    \<and> s' = sock_with (sock_opts s')
    \<and> ruby_timeout (sock_opts s') TRILOGY_WAIT_READ = (let t = double_to_timeval dbl secs
         in if tv_sec t = 0 \<and> tv_usec t = 0 then None else Some t)
    \<and> ruby_timeout (sock_opts s') TRILOGY_WAIT_WRITE = ruby_timeout (sock_opts s) TRILOGY_WAIT_WRITE
    \<and> rb_trilogy_read_timeout dbl ctx' = (Inr (Float_value (timeval_to_double dbl (double_to_timeval dbl secs))), ctx')
    \<and> rb_trilogy_write_timeout dbl ctx' = (fst (rb_trilogy_write_timeout dbl ctx), ctx')"
  using sock v made
  by (simp add: rb_trilogy_read_timeout_set_def timeout_set_def rb_trilogy_read_timeout_def rb_trilogy_write_timeout_def timeout_get_def
      get_open_ctx_def get_ctx_def ruby_then_def ruby_ret_def ruby_timeout_def Let_def)

end
