(* ===== verification/Spec2Isabelle.thy ===== *)
theory Spec2Isabelle
  imports Sample_Runs Ruby_Options
begin

text \<open>
  Trilogy, a client library for MySQL-compatible servers, as a verified model.

  \<^bold>\<open>The program.\<close> A caller keeps a \<^verbatim>\<open>trilogy_conn_t\<close> and calls either the blocking functions of
  \<^verbatim>\<open>src/blocking.c\<close> or, for an event loop, the pairs of \<^verbatim>\<open>_send\<close> and \<^verbatim>\<open>_recv\<close> functions of \<^verbatim>\<open>src/client.c\<close>
  that they are made of. A function that sends builds a packet in the packet buffer of the
  connection (\<^verbatim>\<open>src/builder.c\<close>, \<^verbatim>\<open>src/protocol.c\<close>, \<^verbatim>\<open>src/buffer.c\<close>) and hands it to the socket, in as many
  pieces as the socket takes; a function that receives fills a receive buffer from the socket, runs the
  packet parser over it (\<^verbatim>\<open>src/packet_parser.c\<close>), whose callbacks collect the payload in the same packet
  buffer, and parses that payload (\<^verbatim>\<open>src/protocol.c\<close> over \<^verbatim>\<open>src/reader.c\<close>). A socket is a table of
  callbacks; \<^verbatim>\<open>src/socket.c\<close> provides one over file descriptors and replaces it by one over OpenSSL. The
  Ruby extension under \<^verbatim>\<open>contrib/ruby\<close> wraps the client: it lends each client a packet buffer from a pool
  while a method runs, waits through the interpreter, raises exceptions for the codes, and casts the values of the rows.

  \<^bold>\<open>How it is modelled.\<close> A function with state is an operation \<open>('s, 'a) op\<close>: from a state to a value or a
  \<open>stop\<close>, and the new state, which is kept when it fails. A \<open>stop\<close> is a code of the
  library (\<open>Rc\<close>), an access outside of an object (\<open>Fault\<close>) or a loop without end (\<open>Hang\<close>); the last two are
  undefined behaviour and divergence, and theorems show where they cannot happen. \<open>checked\<close> is the
  sources' \<^verbatim>\<open>CHECKED\<close>. Integers are words of their C width; a buffer is an object with its capacity;
  an allocator is any function that may refuse a request; a pointer that may be \<^verbatim>\<open>NULL\<close> is an option.

  \<^bold>\<open>Theories and sources.\<close>
  \<^item> Trilogy_Prelude: words, codes, operations, memory, shared lemmas. Error_Codes: \<^verbatim>\<open>src/error.c\<close>, \<^verbatim>\<open>error.h\<close>.
  \<^item> Buffer: \<^verbatim>\<open>src/buffer.c\<close>. Wire_Format: the layouts of the protocol as functions on bytes, the
    specification that builders and readers are compared with. Builder: \<^verbatim>\<open>src/builder.c\<close>.
    Reader: \<^verbatim>\<open>src/reader.c\<close>.
  \<^item> Packet_Parser: \<^verbatim>\<open>src/packet_parser.c\<close>. Packet_Callbacks: the callbacks of \<^verbatim>\<open>src/client.c\<close>.
  \<^item> Charset: \<^verbatim>\<open>src/charset.c\<close>. Protocol_Types: \<^verbatim>\<open>inc/trilogy/protocol.h\<close>.
    Protocol_Parse and Protocol_Rows: the parsers of \<^verbatim>\<open>src/protocol.c\<close>, text and binary rows included.
    Protocol_Build: its builders, the digests being parameters.
    Protocol_Encode, Binary_Values and Binary_Rows: what a server sends, for the round trips.
  \<^item> Connection: the state of \<^verbatim>\<open>client.h\<close>, \<^verbatim>\<open>read_packet\<close>, \<^verbatim>\<open>trilogy_flush_writes\<close>, \<^verbatim>\<open>begin_command_phase\<close>.
    Client: the rest of \<^verbatim>\<open>src/client.c\<close>. Escape: \<^verbatim>\<open>trilogy_escape\<close>. Blocking: \<^verbatim>\<open>src/blocking.c\<close>.
  \<^item> Cast: \<^verbatim>\<open>contrib/ruby/ext/trilogy-ruby/cast.c\<close>, the values that the Ruby extension makes of a row.
    Ruby_Pool: the pool of buffers of \<^verbatim>\<open>cext.c\<close>. Ruby_Client: its client over an interpreter, the wait, the errors.
    Ruby_Methods: its methods. Ruby_Options: the hash of options that a connection is
    made from, and the timeouts; the arithmetic of doubles is a parameter.
  \<^item> Socket: the plain sockets of \<^verbatim>\<open>src/socket.c\<close> over a kernel. Tls and Tls_Setup: its sockets over OpenSSL.
  \<^item> Transport, Commands, Exchange and Result_Sets: the proofs about sending a command, receiving an
    answer, and reading a table. Any_Server: what holds for any bytes a server sends. Login: the
    connection phase.
  \<^item> Ruby_Safety: what every method of the extension leaves behind, over any socket that closes; Ruby_Sockets: the
    two kinds of sockets are such. Ruby_Results: the shape of results. Ruby_Errors: exceptions. Ruby_Exchange,
    Ruby_Answers, Ruby_Tables and Ruby_Rows: the waits, commands, queries and tables over a socket that does not fail.
    Sample_Runs: the inputs of the witnesses.

  \<^bold>\<open>Interfaces.\<close> Locales state what one part promises another, and each is interpreted on the model's
  own definitions: a decoder of a wire format (interpreted for each reader), a growable buffer (what the
  builder needs of one), a sink of packets (the parser with the callbacks of the client), a socket that closes (what
  the exceptions of the extension need of one), and three of streams. A \<open>transport\<close> moves bytes in order; a
  \<open>responsive\<close> one reports \<^verbatim>\<open>TRILOGY_AGAIN\<close> finitely often; a \<open>reliable\<close> one does not fail. The
  plain sockets meet the first whatever the system calls do, the second when they are connected, the third
  when the calls are at worst interrupted or partial; the sockets over OpenSSL meet the first if OpenSSL does. The
  sockets of the extension, which wait through the interpreter, meet the first, and the third when the interpreter
  lets them wait.

  \<^bold>\<open>What is proved.\<close> C1, C2, C3 and C12 compose everything: a query, a table, the login and a command
  over a usable socket end with what the server said; the state after the login is one that the others
  start from. C4 and C5 are the same for the Ruby extension, up to the values of the rows. C10 is their counterpart for
  a server that sends anything at all. C6 to C9 are the parts of that: a packet that was built is parsed to the same
  payload whatever the pieces, commands leave in order and once, and a packet survives being cut.
  C11 and C13 are what the extension promises when something fails: an exception leaves the connection closed or in
  order, and encryption is not dropped. C14 is the framing of packets, C15 is escaping, C16 and C17 the
  descriptors, C18 to C20 the sockets over OpenSSL. C21 is the pool of buffers, C22 the exceptions, C23 the shape of
  results. C24 is the growing buffer. C25 to C32 are the parsers: round trips, and safety for any bytes a server may
  send. C33 and C34 are authentication: what a response proves, and when the password stays at home. C35
  is bound parameters. C36 to C38 are the values of the Ruby extension. C39 and C40 show two defects: the sequence
  number that a long statement leaves behind, and a socket that is closed twice. The last section has further
  facts about the parser, the builder, the reader, the handshake and the table of character sets.

  \<^bold>\<open>Bounds and loops.\<close> There is no fuel. Loops over bytes are recursive functions with a measure; the
  loops that may not end (\<open>grow_loop\<close>, \<open>retry\<close>, \<open>drain_rows\<close>, \<open>ssl_connect_loop\<close>) are partial functions into an
  option. C10 shows that \<open>retry\<close> ends whatever a server sends, and \<open>grow_loop_None_iff\<close> in Buffer
  that the first one runs for ever from a capacity of zero only. A theorem about memory has the bound \<open>2 ^ 62\<close> or
  \<open>object_limit\<close>, beyond which no C object exists.

  \<^bold>\<open>System and library calls.\<close> A \<open>kernel\<close> holds the bytes that will arrive, those that were taken, the open
  descriptors, and a schedule of verdicts for the next calls: each fails with any error or transfers
  at most some number of bytes. Every theorem is for every schedule. OpenSSL is a function from the calls
  made so far to the answer of the next; the socket records the calls, so that C18 and C20 speak of what
  the code asks of any such library.

  \<^bold>\<open>The interpreter.\<close> A \<open>rb_vm\<close> holds what the extension asks of Ruby: whether a wait on a descriptor succeeds, ends
  or raises, what other clients do to the pool meanwhile, memory, errors, and the strings that are exported. A method
  is an operation whose stop is an exception or a crash; an exception that the interpreter raises within a wait is
  pending until the method that waits is left, as in the code.

  \<^bold>\<open>Not modelled.\<close> In \<^verbatim>\<open>cext.c\<close>: the reading of the clock for the time of a query, marking and memory sizes for the
  garbage collector, and the registration of the methods; the example program; the tests; the vendored check of host
  names, which is compiled for OpenSSL before 1.0.2 only, and the branches of \<^verbatim>\<open>src/socket.c\<close> for OpenSSL
  before 1.1.0. Strings that are freed with a socket are not tracked, and the allocation of the socket
  itself is taken to succeed, as the code takes it. Times are not modelled: \<^verbatim>\<open>poll\<close> has no timeout here
  as in the code.
\<close>

text \<open>
  C1. A query is answered. On a plain socket that is at worst interrupted or slow, a client that is
  between commands sends exactly the frames of the query, waits for the answer, and returns
  what the server said: the counters and flags of an OK packet, with its GTID; the code and
  the message of an error; or the number of columns that follow. The connection is then ready
  again, and what comes after the answer is still to be read.
\<close>

theorem query_answered:
  assumes "ready c" and sock: "socket c = Some (raw_socket opts)" and "usable (outside c)"
    and "has_capability (capabilities c) TRILOGY_CAPABILITIES_PROTOCOL_41"
    and "unat len \<le> length sql" and "affordable alloc (packet_limit opts) (unat len + 1)"
    and valid: "reply_valid (capabilities c) a" "length (reply_bytes (capabilities c) a) \<le> 2 ^ 62"
    and stream: "buffered c @ to_read (sys (outside c)) =
      frames (after_fragments 0 (0x03 # take (unat len) sql)) (reply_bytes (capabilities c) a) @ extra"
    and run: "trilogy_query alloc sql len (c, count) = (r, (c', count'))"
  shows "r = reply_result a \<and> count' = reply_count a count \<and> noted a c c' \<and> ready c'
    \<and> written (sys (outside c')) = written (sys (outside c)) @ frames 0 (0x03 # take (unat len) sql)
    \<and> buffered c' @ to_read (sys (outside c')) = extra"
proof -
  have memory: "\<not> memory_tight alloc (length (reply_bytes (capabilities c) a))"
    using valid(2) assms(6) by (simp add: affordable_def memory_tight_def)
  have stream': "raw.unread c = frames (after_fragments 0 (0x03 # take (unat len) sql)) (reply_bytes (capabilities c) a) @ extra"
    using stream by (simp add: raw.unread_def)
  obtain d where "r = reply_result a" "c' = note_reply a d" "count' = reply_count a count" "ready d" "raw.unread d = extra"
      "session d = session c" "usable (outside d)"
      "written (sys (outside d)) = written (sys (outside c)) @ frames 0 (0x03 # take (unat len) sql)"
    by (rule sure_raw.query_done [OF assms(1) raw_uses [OF sock] assms(3) sock assms(4,5) _ valid(1) memory stream' run])
      (use assms(6) in simp_all)
  then show ?thesis by (simp add: noted_reply raw.unread_def ready_def)
qed

theorem query_answered_witness:
  "\<exists>r c' count'. trilogy_query zero_alloc [0x53, 0x31] 2
      (sample_conn (frames 1 (ok_packet_bytes 3 4 2 0 (Ok_info [])) @ [9]), 0) = (r, (c', count'))
     \<and> r = Inr () \<and> affected_rows c' = 3 \<and> last_insert_id c' = 4
     \<and> written (sys (outside c')) = [3, 0, 0, 0, 3, 0x53, 0x31] \<and> buffered c' @ to_read (sys (outside c')) = [9]"
proof -
  let ?a = "Ok_reply 3 4 2 0 (Ok_info [])"
  let ?c = "sample_conn (frames 1 (reply_bytes TRILOGY_CAPABILITIES_CLIENT ?a) @ [9])"
  obtain r c' count' where run: "trilogy_query zero_alloc [0x53, 0x31] 2 (?c, 0) = (r, (c', count'))"
    by (metis prod_cases3)
  have "r = reply_result ?a \<and> count' = reply_count ?a 0 \<and> noted ?a ?c c' \<and> ready c'
    \<and> written (sys (outside c')) = written (sys (outside ?c)) @ frames 0 (0x03 # take (unat (2 :: size_t)) [0x53, 0x31])
    \<and> buffered c' @ to_read (sys (outside c')) = [9]"
    by (rule query_answered [OF _ _ _ _ _ _ _ _ _ run, where opts = sample_opts])
      (simp_all add: client_capabilities affordable_def unat_SIZE_MAX ok_packet_bytes_def lenenc_bytes_def
        after_fragments_def TRILOGY_MAX_PACKET_LEN_def)
  then show ?thesis
    using run by (auto simp: noted_def frames_short packet_header_def TRILOGY_MAX_PACKET_LEN_def)
qed

text \<open>
  C2. A query with a table as its answer. With the same socket, the client learns the number of columns,
  reads the columns and the rows with the blocking functions exactly as the server sent them,
  skips the packet between columns and rows where the protocol has one, and is told the end; a
  row may take any number of rounds.
\<close>

theorem table_received:
  assumes "ready c" and sock: "socket c = Some (raw_socket opts)" and "usable (outside c)"
    and "has_capability (capabilities c) TRILOGY_CAPABILITIES_PROTOCOL_41"
    and "unat len \<le> length sql" and "affordable alloc (packet_limit opts) (unat len + 1)"
    and "cols \<noteq> []" and "length cols < 2 ^ 64" and "length cols \<le> length out"
    and cols: "\<And>p. p \<in> set cols \<Longrightarrow> (\<forall>bs \<in> set (column_strings p). length bs < 2 ^ 64) \<and> col_default_value p = []
       \<and> length (column_packet_bytes False fixed filler p) \<le> 2 ^ 62"
    and rows: "\<And>vs. vs \<in> set rows \<Longrightarrow> length vs = length cols \<and> length (row_packet_bytes vs) + 9 \<le> 2 ^ 62
       \<and> (\<forall>bs. Some bs \<in> set vs \<longrightarrow> length bs < 2 ^ 64)"
    and stream: "buffered c @ to_read (sys (outside c)) = packets (after_fragments 0 (0x03 # take (unat len) sql))
      (lenenc_bytes (word_of_nat (length cols)) # map (column_packet_bytes False fixed filler) cols
       @ (if has_capability (capabilities c) TRILOGY_CAPABILITIES_DEPRECATE_EOF then []
          else [end_packet (capabilities c) flags0 warnings0])
       @ map row_packet_bytes rows @ [end_packet (capabilities c) flags warnings]) @ extra"
  shows "\<exists>c1 c2 c3 c4.
      trilogy_query alloc sql len (c, count) = (Inl (Rc TRILOGY_HAVE_RESULTS), (c1, word_of_nat (length cols)))
    \<and> read_columns alloc (length cols) c1 = (Inr cols, c2)
    \<and> read_rows alloc out (length rows) c2 = (Inr (map (\<lambda>vs. stored_row 0 vs out) rows), c3)
    \<and> trilogy_read_full_row alloc out c3 = (Inl (Rc TRILOGY_EOF), c4)
    \<and> ready c4 \<and> buffered c4 @ to_read (sys (outside c4)) = extra
    \<and> server_status c4 = flags \<and> warning_count c4 = warnings"
proof -
  have "affordable alloc (packet_limit (sock_opts (raw_socket opts))) (unat len + 1)" using assms(6) by simp
  from sure_raw.table_done [OF assms(1) raw_uses [OF sock] assms(3) sock assms(4,5) this assms(7-9) cols rows
    stream [folded raw.unread_def], of count]
  show ?thesis unfolding sure_raw.expecting_def raw.unread_def by auto
qed

theorem table_received_witness:
  "\<exists>c1 c2 c3 c4.
      trilogy_query zero_alloc [0x53] 1 (sample_conn (packets 1 ([1] # [column_packet_bytes False 12 0 sample_column]
         @ map row_packet_bytes [[Some [0x31]], [None]] @ [end_packet TRILOGY_CAPABILITIES_CLIENT 2 0])), 0)
        = (Inl (Rc TRILOGY_HAVE_RESULTS), (c1, word_of_nat (length [sample_column])))
    \<and> read_columns zero_alloc (length [sample_column]) c1 = (Inr [sample_column], c2)
    \<and> read_rows zero_alloc [blank_value] (length [[Some [0x31 :: u8]], [None]]) c2
        = (Inr (map (\<lambda>vs. stored_row 0 vs [blank_value]) [[Some [0x31]], [None]]), c3)
    \<and> trilogy_read_full_row zero_alloc [blank_value] c3 = (Inl (Rc TRILOGY_EOF), c4)
    \<and> ready c4 \<and> buffered c4 @ to_read (sys (outside c4)) = []
    \<and> server_status c4 = 2 \<and> warning_count c4 = 0"
  by (rule table_received [where opts = sample_opts and fixed = 12 and filler = 0 and cols = "[sample_column]"
      and rows = "[[Some [0x31]], [None]]" and flags = 2 and warnings = 0 and ?flags0.0 = 0 and ?warnings0.0 = 0])
    (auto simp: client_capabilities affordable_def unat_SIZE_MAX lenenc_bytes_def after_fragments_def
      TRILOGY_MAX_PACKET_LEN_def column_strings_def sample_column_def column_packet_bytes_def lenenc_string_def
      row_packet_bytes_def)

text \<open>
  C3. The login. A client that has connected a plain socket reads the handshake of a server that speaks
  the 4.1 protocol, answers with one authentication packet, in which the user, the response to
  the scramble, the database and the plugin are where the protocol wants them, and returns what the
  server says to it: an acknowledgement, or the code and the message of an error. The
  capabilities are then those of the server, and the password has been cleared.
\<close>

theorem login_completed:
  assumes "ready c" and sock: "socket c = Some (raw_socket opts)" and "usable (outside c)"
    and fresh: "sequence_number (packet_parser c) = 0"
    and caps: "has_capability (hs_capabilities h) TRILOGY_CAPABILITIES_PROTOCOL_41"
      "has_capability (hs_capabilities h) TRILOGY_CAPABILITIES_SECURE_CONNECTION"
      "has_capability (hs_capabilities h) TRILOGY_CAPABILITIES_PLUGIN_AUTH"
    and hello: "0 \<notin> set version" "length reserved = 10" "length (hs_scramble h) = 21" "length (hs_scramble unset) = 21"
      "0 \<notin> set plugin" "length plugin \<le> 31"
      "length (handshake_bytes h version reserved plugin) < TRILOGY_MAX_PACKET_LEN"
    and user: "case opt_username opts of None \<Rightarrow> u = ascii ''root'' | Some obj \<Rightarrow> 0 \<in> set obj \<and> u = c_string obj"
    and db: "\<And>obj. opt_database opts = Some obj \<Longrightarrow> 0 \<in> set obj"
    and pass: "password_given opts pass"
    and payload: "payload = auth_packet_payload u (map_option c_string (opt_database opts)) (uint (opt_encoding opts))
      (response_bytes sha1 sha256 pass plugin (hs_scramble h)) (opt_flags opts)"
    and fits: "affordable alloc (packet_limit opts) (length payload)" "length payload < TRILOGY_MAX_PACKET_LEN"
    and valid: "reply_valid (hs_capabilities h) a" "\<And>n. a \<noteq> Columns_reply n"
      "length (reply_bytes (hs_capabilities h) a) \<le> 2 ^ 62"
    and stream: "buffered c @ to_read (sys (outside c)) =
      frames 0 (handshake_bytes h version reserved plugin) @ frames 2 (reply_bytes (hs_capabilities h) a) @ extra"
    and run: "trilogy_connect_handshake sha1 sha256 alloc local unset c = (r, c')"
  shows "r = reply_result a \<and> ready c' \<and> usable (outside c')
    \<and> socket c' = Some (raw_socket (cleared opts)) \<and> capabilities c' = hs_capabilities h
    \<and> written (sys (outside c')) = written (sys (outside c)) @ frames 1 payload
    \<and> buffered c' @ to_read (sys (outside c')) = extra
    \<and> (case a of Err_reply err \<Rightarrow> error_code c' = err_error_code err \<and> error_message c' = err_error_message err | _ \<Rightarrow> True)"
proof -
  let ?hello = "handshake_bytes h version reserved plugin" and ?h = "received_handshake h version plugin unset"
  have h: "hs_scramble ?h = hs_scramble h" "hs_capabilities ?h = hs_capabilities h"
      "c_string (hs_auth_plugin ?h) = plugin" "0 \<in> set (hs_auth_plugin ?h)"
    using c_string_field [OF hello(5)] by (simp_all add: received_handshake_def)
  have small: "length payload < object_limit" using fits(2) by (simp add: object_limit_def TRILOGY_MAX_PACKET_LEN_def)
  note parts = auth_payload_parts [where db = "map_option c_string (opt_database opts)" and charset = "uint (opt_encoding opts)"
      and resp = "response_bytes sha1 sha256 pass plugin (hs_scramble h)" and flags = "opt_flags opts"]
  have "builds alloc (trilogy_build_auth_packet sha1 sha256 alloc (opt_username opts) pass (opt_database opts)
      (uint (opt_encoding opts)) (hs_auth_plugin ?h) (hs_scramble ?h) (opt_flags opts))
    (auth_packet_payload u (map_option c_string (opt_database opts)) (uint (opt_encoding opts))
      (response_bytes sha1 sha256 pass (c_string (hs_auth_plugin ?h)) (hs_scramble ?h)) (opt_flags opts))"
  proof (rule auth_builds [OF user h(4)])
    show "0 \<in> set obj \<and> length (c_string obj) < object_limit" if "opt_database opts = Some obj" for obj
      using db [OF that] parts(4) [of "c_string obj" u] that small payload by simp
    show "length u < object_limit" using parts(1) [of u] small payload by simp
    show "length (c_string (hs_auth_plugin ?h)) < object_limit" using hello(6) h(3) by (simp add: object_limit_def)
    show "length (fst (response_bytes sha1 sha256 pass (c_string (hs_auth_plugin ?h)) (hs_scramble ?h))) < object_limit"
      unfolding h(1,3) using parts(2) [of u] small payload by simp
  qed
  then have builds: "builds alloc (trilogy_build_auth_packet sha1 sha256 alloc (opt_username opts) pass (opt_database opts)
      (uint (opt_encoding opts)) (hs_auth_plugin ?h) (hs_scramble ?h) (opt_flags opts)) payload"
    unfolding h(1,3) payload .
  have seq: "1 = after_fragments (sequence_number (packet_parser c)) ?hello"
    using hello(7) fresh by (simp add: after_fragments_def)
  have memory: "\<not> memory_tight alloc (length ?hello)" "\<not> memory_tight alloc (length (reply_bytes (hs_capabilities ?h) a))"
    using fits(1) hello(7) valid(3) h(2) by (simp_all add: affordable_def memory_tight_def TRILOGY_MAX_PACKET_LEN_def)
  obtain d where "r = reply_result a" "c' = note_reply a (d\<lparr>socket := Some (clear_socket (raw_socket opts))\<rparr>)" "ready d"
      "raw.unread d = extra" "usable (outside d)" "capabilities d = hs_capabilities ?h"
      "written (sys (outside d)) = written (sys (outside c)) @ frames 1 payload"
  proof (rule sure_raw.connect_done [OF assms(1) raw_uses [OF sock] assms(3) sock
        parses_handshake [OF caps hello(1,2,3,4,5,6)] _ _ _ _ _ _ memory seq _ run])
    fix d assume "r = reply_result a" "c' = note_reply a (d\<lparr>socket := Some (clear_socket (raw_socket opts))\<rparr>)" "ready d"
      "raw.unread d = extra" "usable (outside d)" "capabilities d = hs_capabilities ?h"
      "written (sys (outside d)) = written (sys (outside c)) @ frames 1 payload"
    then show thesis by (rule that)
  qed (use h caps pass builds fits(1) valid fresh stream in \<open>simp_all add: raw.unread_def\<close>)
  then show ?thesis
    using h by (simp add: clear_raw_socket [symmetric] raw.unread_def ready_def socket_frame)
      (simp add: set_error_def split: reply.split)
qed


theorem login_completed_witness:
  "\<exists>r c'. trilogy_connect_handshake (toy_digest 20) (toy_digest 32) zero_alloc blank_switch blank_handshake
      (sample_conn (frames 0 (handshake_bytes sample_handshake [0x38] (replicate 10 0) [0x70])
         @ frames 2 (ok_packet_bytes 0 0 2 0 (Ok_info [])))) = (r, c')
     \<and> r = Inr () \<and> capabilities c' = TRILOGY_CAPABILITIES_CLIENT
     \<and> written (sys (outside c')) = frames 1 (auth_packet_payload (ascii ''root'') None 45 ([], [0x70]) 0)"
proof -
  let ?a = "Ok_reply 0 0 2 0 (Ok_info [])" and ?hello = "handshake_bytes sample_handshake [0x38] (replicate 10 0) [0x70]"
  let ?c = "sample_conn (frames 0 ?hello @ frames 2 (reply_bytes TRILOGY_CAPABILITIES_CLIENT ?a))"
  let ?payload = "auth_packet_payload (ascii ''root'') None 45 ([], [0x70]) 0"
  obtain r c' where run: "trilogy_connect_handshake (toy_digest 20) (toy_digest 32) zero_alloc blank_switch blank_handshake ?c = (r, c')"
    by fastforce
  have opts: "opt_username sample_opts = None" "opt_database sample_opts = None" "opt_password sample_opts = None"
      "opt_password_len sample_opts = 0" "opt_encoding sample_opts = 45" "opt_flags sample_opts = 0"
    by (simp_all add: sample_opts_def)
  have root: "ascii ''root'' = [0x72, 0x6f, 0x6f, 0x74]" by (simp add: ascii_def literal_def c_string_def)
  have lengths: "length ?payload = 40" "length ?hello = 49"
    by (simp_all add: auth_packet_payload_def root zeroes_def handshake_bytes_def sample_handshake_def)
  have h: "hs_capabilities sample_handshake = TRILOGY_CAPABILITIES_CLIENT" "length (hs_scramble sample_handshake) = 21"
      "length (hs_scramble blank_handshake) = 21"
    by (simp_all add: sample_handshake_def blank_handshake_def)
  have "r = reply_result ?a \<and> ready c' \<and> usable (outside c')
    \<and> socket c' = Some (raw_socket (cleared sample_opts)) \<and> capabilities c' = hs_capabilities sample_handshake
    \<and> written (sys (outside c')) = written (sys (outside ?c)) @ frames 1 ?payload
    \<and> buffered c' @ to_read (sys (outside c')) = []
    \<and> (case ?a of Err_reply err \<Rightarrow> error_code c' = err_error_code err \<and> error_message c' = err_error_message err | _ \<Rightarrow> True)"
    by (rule login_completed [OF _ _ _ _ _ _ _ _ _ _ _ _ _ _ _ _ _ _ _ _ _ _ _ _ run, where opts = sample_opts and pass = "[]"
          and u = "ascii ''root''" and version = "[0x38]"])
      (simp_all add: opts h lengths client_capabilities password_given_def response_bytes_def affordable_def unat_SIZE_MAX
        TRILOGY_MAX_PACKET_LEN_def ok_packet_bytes_def lenenc_bytes_def)
  then show ?thesis using run h(1) by auto
qed

text \<open>
  C4. A table reaches the Ruby program. With the same socket and interpreter, the result of the query has a
  field for each column of the table, in order, and a row for each row that the server sent, whose
  values are the values of the table, each cast by the type of its column - or, if rows are flattened, all
  of them in one array. The status that ends the table says whether the client is at rest again or more results follow.
\<close>

theorem ruby_table_received:
  assumes vm: "considerate vm" and ctx: "at_rest vm opts ctx"
    and cap: "has_capability (capabilities (ctx_conn ctx)) TRILOGY_CAPABILITIES_PROTOCOL_41"
    and sql: "vm_export vm (ctx_encoding ctx) query = Inr sql" and fits: "affordable alloc (packet_limit opts) (length sql + 1)"
    and table: "table_fits cols rows fixed filler"
    and cells: "casts_to vm (load_query_options (ctx_query_flags ctx)) cols rows xss"
    and stream: "buffered (ctx_conn ctx) @ to_read (sys (rb_net (outside (ctx_conn ctx)))) = packets (after_fragments 0 (0x03 # sql))
      (table_packets (capabilities (ctx_conn ctx)) fixed filler before after cols rows) @ extra"
  shows "\<exists>ctx'. rb_trilogy_query vm alloc query ctx =
      (Inr \<lparr>res_fields = map col_name cols,
         res_rows = (if ctx_query_flags ctx AND TRILOGY_FLAGS_FLATTEN_ROWS \<noteq> 0 then Flat (concat xss) else Rows xss),
         res_last_insert_id = Qnil, res_affected_rows = Qnil\<rparr>, ctx')
    \<and> after_result vm opts ctx' \<and> server_status (ctx_conn ctx') = fst after
    \<and> written (sys (rb_net (outside (ctx_conn ctx')))) = written (sys (rb_net (outside (ctx_conn ctx)))) @ frames 0 (0x03 # sql)
    \<and> buffered (ctx_conn ctx') @ to_read (sys (rb_net (outside (ctx_conn ctx')))) = extra"
proof -
  obtain ctx' where "rb_trilogy_query vm alloc query ctx = (Inr (table_result (load_query_options (ctx_query_flags ctx)) cols xss), ctx')"
      "after_result vm opts ctx'" "ruby_unread (ctx_conn ctx') = extra" "server_status (ctx_conn ctx') = fst after"
      "net_outgoing (outside (ctx_conn ctx')) = net_outgoing (outside (ctx_conn ctx)) @ frames 0 (0x03 # sql)"
    by (rule table_queried [OF vm ctx cap sql fits table cells stream])
  then show ?thesis by (simp add: table_result_def load_query_options_def)
qed

theorem ruby_table_received_witness:
  "\<exists>ctx'. rb_trilogy_query sample_vm zero_alloc [0x53] (sample_ctx sample_table) =
      (Inr \<lparr>res_fields = [[0x69, 0x64]], res_rows = Rows [[Integer_value 1], [Qnil]],
         res_last_insert_id = Qnil, res_affected_rows = Qnil\<rparr>, ctx')
    \<and> server_status (ctx_conn ctx') = 2 \<and> written (sys (rb_net (outside (ctx_conn ctx')))) = [2, 0, 0, 0, 3, 0x53]"
proof -
  let ?ctx = "sample_ctx sample_table"
  have "\<exists>ctx'. rb_trilogy_query sample_vm zero_alloc [0x53] ?ctx =
      (Inr \<lparr>res_fields = map col_name [sample_column],
         res_rows = (if ctx_query_flags ?ctx AND TRILOGY_FLAGS_FLATTEN_ROWS \<noteq> 0 then Flat (concat [[Integer_value 1], [Qnil]])
           else Rows [[Integer_value 1], [Qnil]]),
         res_last_insert_id = Qnil, res_affected_rows = Qnil\<rparr>, ctx')
    \<and> after_result sample_vm sample_opts ctx' \<and> server_status (ctx_conn ctx') = fst (2, 0 :: u16)
    \<and> written (sys (rb_net (outside (ctx_conn ctx')))) = written (sys (rb_net (outside (ctx_conn ?ctx)))) @ frames 0 [0x03, 0x53]
    \<and> buffered (ctx_conn ctx') @ to_read (sys (rb_net (outside (ctx_conn ctx')))) = []"
    by (rule ruby_table_received [OF sample_considerate sample_at_rest, where fixed = 12 and filler = 0 and before = "(0, 0)"
          and rows = "[[Some [0x31]], [None]]"])
      (auto simp: client_capabilities affordable_def unat_SIZE_MAX sample_table_fits sample_casts sample_table_def
        after_fragments_def TRILOGY_MAX_PACKET_LEN_def)
  then show ?thesis
    by (auto simp: frames_short packet_header_def TRILOGY_MAX_PACKET_LEN_def TRILOGY_FLAGS_DEFAULT_def TRILOGY_FLAGS_CAST_def
        TRILOGY_FLAGS_FLATTEN_ROWS_def sample_column_def)
qed



text \<open>
  C6. A query that was built comes out at the other end: the bytes that
  \<^verbatim>\<open>trilogy_build_query_packet\<close> leaves in the buffer, cut into pieces anywhere and followed by
  anything, make the packet parser with the callbacks of the client collect exactly the
  command byte and the query, consume exactly these bytes, and expect the sequence number
  that the builder would use next.
\<close>

theorem query_delivered:
  assumes "buffer_ok buff" and "unat len \<le> length sql" and "unat len < 2 ^ 62"
    and sent: "checked (trilogy_builder_init alloc buff s) (\<lambda>_. trilogy_build_query_packet alloc sql len) b
      = (Inr (), b')"
    and pieces: "concat cs = contents (bld_buffer b') @ extra"
    and u: "buffer_ok u" and alloc': "generous alloc'"
    and p: "p = (trilogy_packet_parser_init g)\<lparr>sequence_number := s\<rparr>"
    and run: "feed (packet_parser_callbacks alloc') cs (p, u) = (r, (p', u'))"
  shows "r = Inr (length (contents (bld_buffer b')), 1) \<and> contents u' = 0x03 # take (unat len) sql
     \<and> sequence_number p' = bld_seq b'"
proof -
  let ?payload = "0x03 # take (unat len) sql"
  have "unat len < object_limit" using assms(3) by (simp add: object_limit_def)
  note built = built_frames [OF query_builds [OF assms(2) this] assms(1) sent]
  have b': "contents (bld_buffer b') = frames s ?payload" "bld_seq b' = after_fragments s ?payload"
    using built by (simp_all add: after_fragments_def add.assoc)
  have start: "state p = S_LEN_0" "\<not> fragment p" "\<not> deferred_end_callback p" "sequence_number p = s"
    by (simp_all add: p trilogy_packet_parser_init_def)
  have "\<not> memory_tight alloc' (length ?payload)"
    using assms(2,3) alloc' by (simp add: memory_tight_def)
  with connection.feed_frames [OF u start(1-3) _ run, of ?payload extra] pieces b' start(4)
  show ?thesis by auto
qed

theorem query_delivered_witness:
  "case checked (trilogy_builder_init zero_alloc small_buffer 3)
       (\<lambda>_. trilogy_build_query_packet zero_alloc [0x53, 0x45] 2) blank_builder of
     (r, b) \<Rightarrow> r = Inr () \<and> contents (bld_buffer b) = [3, 0, 0, 3, 3, 0x53, 0x45] \<and>
       (case feed (packet_parser_callbacks zero_alloc) [[3, 0], [0, 3, 3, 0x53], [0x45, 9, 9]]
               ((trilogy_packet_parser_init 0)\<lparr>sequence_number := 3\<rparr>, small_buffer) of
          (r, (p, u)) \<Rightarrow> r = Inr (7, 1) \<and> contents u = [3, 0x53, 0x45] \<and> sequence_number p = 4)"
proof -
  let ?run = "checked (trilogy_builder_init zero_alloc small_buffer 3)
       (\<lambda>_. trilogy_build_query_packet zero_alloc [0x53, 0x45] 2) blank_builder"
  have b: "fst ?run = Inr () \<and> contents (bld_buffer (snd ?run)) = [3, 0, 0, 3, 3, 0x53, 0x45] \<and> bld_seq (snd ?run) = 4"
    by (simp add: run_builder run_buffer trilogy_build_query_packet_def TRILOGY_CMD_QUERY_def)
  obtain r p u where f: "feed (packet_parser_callbacks zero_alloc) [[3, 0], [0, 3, 3, 0x53], [0x45, 9, 9]]
               ((trilogy_packet_parser_init 0)\<lparr>sequence_number := 3\<rparr>, small_buffer) = (r, (p, u))"
    by (metis surj_pair)
  have sent: "?run = (Inr (), snd ?run)" using b by (metis prod.collapse)
  from query_delivered [OF small_buffer_ok _ _ sent _ small_buffer_ok generous_zero_alloc refl f, of "[9, 9]"] b
  have "r = Inr (7, 1) \<and> contents u = [3, 0x53, 0x45] \<and> sequence_number p = 4" by simp
  with b f show ?thesis by (simp add: case_prod_beta)
qed

text \<open>
  C7. The packet parser with the callbacks of the client delivers any payload: fed the frames of
  the payload in pieces, it stops right after the last byte of them, having collected the
  payload, ready for the next packet; the only other outcome is a negative code from a
  buffer that could not grow, which a generous allocator rules out below \<open>2^62\<close> bytes.
\<close>

theorem payload_delivered:
  assumes "buffer_ok u" and "state q = S_LEN_0" and "\<not> fragment q" and "\<not> deferred_end_callback q"
    and "concat cs = frames (sequence_number q) p @ extra"
    and "feed (packet_parser_callbacks alloc) cs (q, u) = (r, (q', u'))"
  shows "r = Inr (length (frames (sequence_number q) p), 1) \<and> buffer_ok u' \<and> contents u' = p
           \<and> state q' = S_LEN_0 \<and> \<not> fragment q' \<and> \<not> deferred_end_callback q'
           \<and> sequence_number q' = sequence_number q + word_of_nat (length p div TRILOGY_MAX_PACKET_LEN + 1)
       \<or> (\<exists>n rc. r = Inr (n, rc) \<and> rc < 0 \<and> buffer_ok u' \<and> \<not> (generous alloc \<and> length p \<le> 2 ^ 62))"
  using connection.feed_frames [OF assms] by (auto simp: after_fragments_def memory_tight_def)

theorem payload_delivered_witness:
  "case feed (packet_parser_callbacks zero_alloc) [[2], [0, 0, 5, 0x61], [0x62]]
       ((trilogy_packet_parser_init 0)\<lparr>sequence_number := 5\<rparr>, small_buffer) of
     (r, (q, u)) \<Rightarrow> r = Inr (6, 1) \<and> contents u = [0x61, 0x62] \<and> sequence_number q = 6 \<and> state q = S_LEN_0"
proof -
  obtain r q u where f: "feed (packet_parser_callbacks zero_alloc) [[2], [0, 0, 5, 0x61], [0x62]]
       ((trilogy_packet_parser_init 0)\<lparr>sequence_number := 5\<rparr>, small_buffer) = (r, (q, u))"
    by (metis surj_pair)
  have frames: "frames 5 [0x61, 0x62] = [2, 0, 0, 5, 0x61, 0x62]"
    by (simp add: frames.simps packet_header_def TRILOGY_MAX_PACKET_LEN_def)
  have "r = Inr (6, 1) \<and> contents u = [0x61, 0x62] \<and> sequence_number q = 6 \<and> state q = S_LEN_0"
    using payload_delivered [OF small_buffer_ok _ _ _ _ f, of "[0x61, 0x62]" "[]"] frames
    by (simp add: trilogy_packet_parser_init_def TRILOGY_MAX_PACKET_LEN_def)
  with f show ?thesis by simp
qed

text \<open>
  C8. A command leaves in order and once. Whatever the calls of a connected socket do, the bytes that
  left are an initial part of the frames of the query; all of them when the function reports
  success, and otherwise it ends with a code.
\<close>

theorem command_sent_in_order:
  assumes "buffer_ok (packet_buffer c)" and sock: "socket c = Some (raw_socket opts)" and "connected (outside c)"
    and len: "unat len \<le> length sql" "unat len < object_limit"
    and run: "on_again (trilogy_query_send alloc sql len) flush_full c = (r, c')"
  shows "\<exists>sent. written (sys (outside c')) = written (sys (outside c)) @ sent
    \<and> prefix sent (frames 0 (0x03 # take (unat len) sql))
    \<and> (r = Inr () \<and> sent = frames 0 (0x03 # take (unat len) sql) \<or> (\<exists>rc. r = Inl (Rc rc) \<and> rc \<noteq> TRILOGY_OK))"
proof -
  have k: "checked (put_state (\<lambda>c. c\<lparr>packet_parser := (packet_parser c)\<lparr>sequence_number := bld_seq b\<rparr>\<rparr>)) (\<lambda>_. begin_write) d =
      begin_write (d\<lparr>packet_parser := (packet_parser d)\<lparr>sequence_number := bld_seq b\<rparr>\<rparr>)" for b and d :: "raw_sock trilogy_conn"
    by simp
  note send = assms(1) sock raw_uses [OF sock]
  from raw.send_cases [OF send query_builds [OF len] k run [unfolded query_send_built]]
    live_raw.send_ends [OF send assms(3) query_builds [OF len] k run [unfolded query_send_built]]
  show ?thesis by metis
qed

theorem command_sent_in_order_witness:
  "\<exists>r c' sent. on_again (trilogy_query_send zero_alloc [0x53] 1) flush_full (sample_conn []) = (r, c')
     \<and> written (sys (outside c')) = sent \<and> prefix sent [2, 0, 0, 0, 3, 0x53]"
proof -
  obtain r c' where run: "on_again (trilogy_query_send zero_alloc [0x53] 1) flush_full (sample_conn []) = (r, c')" by fastforce
  with command_sent_in_order [OF _ _ _ _ _ run, where opts = sample_opts] show ?thesis
    by (auto simp: object_limit_def frames_short packet_header_def TRILOGY_MAX_PACKET_LEN_def)
qed

text \<open>
  C9. A packet survives being cut. Whatever the calls of a connected socket do, the loop that reads a
  packet ends with the payload in the packet buffer and the bytes behind it unread, or with a code,
  and it leaves the session alone.
\<close>

theorem packet_intact:
  assumes "ready c" and sock: "socket c = Some (raw_socket opts)" and "connected (outside c)"
    and stream: "buffered c @ to_read (sys (outside c)) = frames (sequence_number (packet_parser c)) p @ extra"
    and memory: "generous alloc" "length p \<le> 2 ^ 62"
    and run: "until_done (read_packet alloc) trilogy_sock_wait_read c = (r, c')"
  shows "session c' = session c \<and>
     (r = Inr () \<and> ready c' \<and> contents (packet_buffer c') = p \<and> buffered c' @ to_read (sys (outside c')) = extra
        \<and> sequence_number (packet_parser c') = after_fragments (sequence_number (packet_parser c)) p
      \<or> (\<exists>rc. r = Inl (Rc rc) \<and> rc \<noteq> TRILOGY_OK))"
proof -
  have "conn_ok c" using assms(1) by (simp add: ready_def)
  moreover have "\<not> memory_tight alloc (length p)" using memory by (simp add: memory_tight_def)
  ultimately show ?thesis
    using raw.packet_cases [OF assms(1) raw_uses [OF sock] stream [folded raw.unread_def] _ run]
      live_raw.read_loop_safe [OF _ raw_uses [OF sock] assms(3) run]
    by (auto simp: arrived_def raw.unread_def)
qed

theorem packet_intact_witness:
  "\<exists>r c'. until_done (read_packet zero_alloc) trilogy_sock_wait_read (sample_conn (frames 0 [7, 8])) = (r, c')
     \<and> (r = Inr () \<and> contents (packet_buffer c') = [7, 8] \<or> (\<exists>rc. r = Inl (Rc rc)))"
proof -
  obtain r c' where run: "until_done (read_packet zero_alloc) trilogy_sock_wait_read (sample_conn (frames 0 [7, 8])) = (r, c')" by fastforce
  with packet_intact [OF _ _ _ _ _ _ run, where opts = sample_opts and p = "[7, 8]" and extra = "[]"] show ?thesis by auto
qed

text \<open>
  C10. Any server is survived. Whatever bytes come and whatever the calls of a connected socket do, each
  function that sends a command or reads a part of an answer ends with a value or a code,
  never leaves an array of the connection, and leaves the connection well formed over a connected
  socket. What is asked of the caller is that its own arrays have the lengths it says.
\<close>

theorem server_survived:
  assumes "conn_ok c" and sock: "socket c = Some (raw_socket opts)" and "connected (outside c)"
    and len: "unat len \<le> length text" "unat len < object_limit"
    and columns: "unat (column_count c) \<le> length out"
    and stmt: "unat (stmt_ok_column_count stmt) \<le> length binary_out" "unat (stmt_ok_column_count stmt) \<le> length columns"
    and binds: "unat (stmt_ok_parameter_count stmt) = length binds" "list_all bind_ok binds"
  shows "(case trilogy_query alloc text len (c, count) of (r, (c', _)) \<Rightarrow> survived r c')
    \<and> (case trilogy_change_db alloc text len c of (r, c') \<Rightarrow> survived r c')
    \<and> (case trilogy_ping alloc c of (r, c') \<Rightarrow> survived r c')
    \<and> (case trilogy_set_option alloc option c of (r, c') \<Rightarrow> survived r c')
    \<and> (case trilogy_stmt_prepare alloc text len c of (r, c') \<Rightarrow> survived r c')
    \<and> (case trilogy_stmt_execute alloc stmt flags (Some binds) (c, count) of (r, (c', _)) \<Rightarrow> survived r c')
    \<and> (case trilogy_stmt_reset alloc stmt c of (r, c') \<Rightarrow> survived r c')
    \<and> (case trilogy_read_full_column alloc c of (r, c') \<Rightarrow> survived r c')
    \<and> (case trilogy_read_full_row alloc out c of (r, c') \<Rightarrow> survived r c')
    \<and> (case trilogy_stmt_read_full_row alloc stmt columns binary_out c of (r, c') \<Rightarrow> survived r c')"
proof (intro conjI; clarsimp split: prod.splits)
  have fit: "live_raw.fit c" using assms(1-3) raw_uses [OF sock] by (simp add: live_raw.good_def)
  have unaware: "live_raw.unaware (\<lambda>_ _. True)" by (simp add: live_raw.unaware_def)
  note command = survivedI [OF live_raw.command_safe [OF fit]] and paired = survivedI [OF live_raw.command_safe_paired [OF fit]]
  show "survived r c'" if "trilogy_query alloc text len (c, count) = (r, (c', n))" for r c' n
    by (rule paired [OF query_builds [OF len] begin_write_numbered live_raw.prudent_query_recv [OF unaware]
        that [unfolded trilogy_query_def query_send_built]])
  show "survived r c'" if "trilogy_stmt_execute alloc stmt flags (Some binds) (c, count) = (r, (c', n))" for r c' n
    by (rule paired [OF execute_builds [OF binds] begin_write_numbered live_raw.prudent_execute_recv [OF unaware]
        that [unfolded trilogy_stmt_execute_def stmt_execute_send_built]])
  show "survived r c'" if "trilogy_change_db alloc text len c = (r, c')" for r c'
    by (rule command [OF change_db_builds [OF len] begin_write_plain live_raw.prudent_generic_recv
        that [unfolded trilogy_change_db_def trilogy_change_db_recv_def change_db_send_built]])
  show "survived r c'" if "trilogy_ping alloc c = (r, c')" for r c'
    by (rule command [OF ping_builds begin_write_plain live_raw.prudent_generic_recv
        that [unfolded trilogy_ping_def trilogy_ping_recv_def ping_send_built]])
  show "survived r c'" if "trilogy_set_option alloc option c = (r, c')" for r c'
    by (rule command [OF set_option_builds begin_write_plain live_raw.prudent_set_option_recv
        that [unfolded trilogy_set_option_def set_option_send_built]])
  show "survived r c'" if "trilogy_stmt_prepare alloc text len c = (r, c')" for r c'
    by (rule command [OF stmt_prepare_builds [OF len] begin_write_plain live_raw.prudent_prepare_recv
        that [unfolded trilogy_stmt_prepare_def stmt_prepare_send_built]])
  show "survived r c'" if "trilogy_stmt_reset alloc stmt c = (r, c')" for r c'
    by (rule command [OF stmt_reset_builds begin_write_plain live_raw.prudent_generic_recv
        that [unfolded trilogy_stmt_reset_def trilogy_stmt_reset_recv_def stmt_reset_send_built]])
  note answer = survivedI [OF live_raw.answer_safe]
  show "survived r c'" if "trilogy_read_full_column alloc c = (r, c')" for r c'
    by (rule answer [OF live_raw.prudent_read_column fit that [unfolded trilogy_read_full_column_def]])
  show "survived r c'" if "trilogy_stmt_read_full_row alloc stmt columns binary_out c = (r, c')" for r c'
    by (rule answer [OF live_raw.prudent_stmt_read_row [OF stmt] fit that [unfolded trilogy_stmt_read_full_row_def]])
  show "survived r c'" if "trilogy_read_full_row alloc out c = (r, c')" for r c'
  proof (rule answer [OF live_raw.prudent_read_row _ that [unfolded trilogy_read_full_row_def]])
    show "live_raw.good (\<lambda>_ x. unat (fst x) \<le> length out) c"
      using fit columns by (simp add: live_raw.good_def outlook_def)
  qed simp
qed


theorem server_survived_witness:
  "(case trilogy_query zero_alloc [0x53] 1 (sample_conn [255, 255, 255, 9, 1, 2], 0) of (r, (c', _)) \<Rightarrow> survived r c')
   \<and> (case trilogy_stmt_execute zero_alloc \<lparr>stmt_ok_id = 1, stmt_ok_column_count = 0, stmt_ok_parameter_count = 0,
        stmt_ok_warning_count = 0\<rparr> 0 (Some []) (sample_conn [255, 255, 255, 9, 1, 2], 0) of (r, (c', _)) \<Rightarrow> survived r c')
   \<and> (case trilogy_read_full_row zero_alloc [] (sample_conn [255, 255, 255, 9, 1, 2]) of (r, c') \<Rightarrow> survived r c')"
  using server_survived [of "sample_conn [255, 255, 255, 9, 1, 2]" sample_opts 1 "[0x53]" "[]"
      "\<lparr>stmt_ok_id = 1, stmt_ok_column_count = 0, stmt_ok_parameter_count = 0, stmt_ok_warning_count = 0\<rparr>" "[]" "[]" "[]"
      zero_alloc 0 0 0]
  by (simp add: object_limit_def)



text \<open>
  C12. The commands that are answered by one packet: a change of the database is sent whole, and the
  answer, an acknowledgement or an error, is what the caller gets.
\<close>

theorem change_db_answered:
  assumes "ready c" and sock: "socket c = Some (raw_socket opts)" and "usable (outside c)"
    and "has_capability (capabilities c) TRILOGY_CAPABILITIES_PROTOCOL_41"
    and len: "unat len \<le> length name" and fits: "affordable alloc (packet_limit opts) (unat len + 1)"
    and valid: "reply_valid (capabilities c) a" "\<And>n. a \<noteq> Columns_reply n"
      "length (reply_bytes (capabilities c) a) \<le> 2 ^ 62"
    and stream: "buffered c @ to_read (sys (outside c)) = frames 1 (reply_bytes (capabilities c) a) @ extra"
    and run: "trilogy_change_db alloc name len c = (r, c')"
  shows "r = reply_result a \<and> noted a c c' \<and> ready c'
    \<and> written (sys (outside c')) = written (sys (outside c)) @ frames 0 (0x02 # take (unat len) name)
    \<and> buffered c' @ to_read (sys (outside c')) = extra"
proof -
  have memory: "\<not> memory_tight alloc (length (reply_bytes (capabilities c) a))"
    using valid(3) fits by (simp add: affordable_def memory_tight_def)
  have "unat len < object_limit" using fits by (simp add: affordable_def object_limit_def)
  note builds = change_db_builds [OF len this, of alloc]
  obtain d where "r = reply_result a" "c' = note_reply a d" "ready d" "raw.unread d = extra"
      "session d = session c" "usable (outside d)"
      "written (sys (outside d)) = written (sys (outside c)) @ frames 0 (0x02 # take (unat len) name)"
    by (rule sure_raw.generic_done [OF assms(1) raw_uses [OF sock] assms(3) sock assms(4) builds _ valid(1,2) memory
        stream [folded raw.unread_def]
        run [unfolded trilogy_change_db_def trilogy_change_db_recv_def change_db_send_built]])
      (use fits len in simp_all)
  then show ?thesis by (simp add: noted_reply raw.unread_def ready_def)
qed

theorem change_db_answered_witness:
  "\<exists>r c'. trilogy_change_db zero_alloc [0x74] 1
      (sample_conn (frames 1 (err_packet_bytes TRILOGY_CAPABILITIES_CLIENT
         \<lparr>err_error_code = 1049, err_sql_state_marker = 0x23,
          err_sql_state = [0x34, 0x32, 0x30, 0x30, 0x30], err_error_message = [0x78]\<rparr>))) = (r, c')
     \<and> r = Inl (Rc TRILOGY_ERR) \<and> error_code c' = 1049 \<and> written (sys (outside c')) = [2, 0, 0, 0, 2, 0x74]"
proof -
  let ?err = "\<lparr>err_error_code = 1049, err_sql_state_marker = 0x23,
          err_sql_state = [0x34, 0x32, 0x30, 0x30, 0x30], err_error_message = [0x78]\<rparr>"
  let ?c = "sample_conn (frames 1 (reply_bytes TRILOGY_CAPABILITIES_CLIENT (Err_reply ?err)))"
  obtain r c' where run: "trilogy_change_db zero_alloc [0x74] 1 ?c = (r, c')" by fastforce
  have "r = reply_result (Err_reply ?err) \<and> noted (Err_reply ?err) ?c c' \<and> ready c'
    \<and> written (sys (outside c')) = written (sys (outside ?c)) @ frames 0 (0x02 # take (unat (1 :: size_t)) [0x74])
    \<and> buffered c' @ to_read (sys (outside c')) = []"
    by (rule change_db_answered [OF _ _ _ _ _ _ _ _ _ _ run, where opts = sample_opts])
      (simp_all add: client_capabilities affordable_def unat_SIZE_MAX err_packet_valid_def err_packet_bytes_def)
  then show ?thesis
    using run by (auto simp: noted_def frames_short packet_header_def TRILOGY_MAX_PACKET_LEN_def)
qed



text \<open>
  C14. Any data is framed: whatever its length, a builder that was begun at a sequence number,
  given the data by \<^verbatim>\<open>trilogy_builder_write_buffer\<close> and finalized holds the frames of the
  data in the format of the protocol (full frames of \<open>0xffffff\<close> bytes and a shorter last
  one), and its sequence number is the one after the last frame.
\<close>

theorem data_framed:
  assumes "buffer_ok buff" and "unat len \<le> length data" and "unat len < 2 ^ 63"
    and "checked (trilogy_builder_init alloc buff s) (\<lambda>_.
           checked (trilogy_builder_write_buffer alloc data len) (\<lambda>_. trilogy_builder_finalize)) b = (Inr (), b')"
  shows "buffer_ok (bld_buffer b') \<and> contents (bld_buffer b') = frames s (take (unat len) data)
    \<and> bld_seq b' = s + word_of_nat (unat len div TRILOGY_MAX_PACKET_LEN) + 1"
proof -
  have "unat len < object_limit" using assms(3) by (simp add: object_limit_def)
  with built_frames [OF builds_finalized [OF writes_buffer [OF assms(2)]] assms(1,4)] assms(2)
  show ?thesis by simp
qed

theorem data_framed_witness:
  "case checked (trilogy_builder_init zero_alloc small_buffer 0) (\<lambda>_.
       checked (trilogy_builder_write_buffer zero_alloc [7, 8, 9] 3) (\<lambda>_. trilogy_builder_finalize)) blank_builder of
     (r, b) \<Rightarrow> r = Inr () \<and> contents (bld_buffer b) = [3, 0, 0, 0, 7, 8, 9] \<and> bld_seq b = 1"
proof -
  let ?run = "checked (trilogy_builder_init zero_alloc small_buffer 0) (\<lambda>_.
       checked (trilogy_builder_write_buffer zero_alloc [7, 8, 9] 3) (\<lambda>_. trilogy_builder_finalize)) blank_builder"
  obtain b' where r: "?run = (Inr (), b')"
    by (rule run_result [of ?run]) (simp add: run_builder run_buffer)
  have "frames 0 [7, 8, 9] = [3, 0, 0, 0, 7, 8, 9]"
    by (simp add: frames.simps packet_header_def TRILOGY_MAX_PACKET_LEN_def)
  with data_framed [OF small_buffer_ok _ _ r] show ?thesis
    unfolding r by (simp add: TRILOGY_MAX_PACKET_LEN_def)
qed

text \<open>
  C15. What \<^verbatim>\<open>trilogy_escape\<close> returns is an SQL literal of the string: read with the rules of the
  mode of the server, it is the string again, for any bytes; the only other outcome is a code
  from a buffer that could not grow.
\<close>

theorem escape_roundtrip:
  assumes "buffer_ok (packet_buffer c)" and "unat len \<le> length str" and "unat len < object_limit"
    and run: "trilogy_escape alloc str len c = (r, c')"
  shows "(\<exists>e. r = Inr e \<and> contents (packet_buffer c') = e
        \<and> (if no_backslash_escapes c then unquote e else unescape e) = Some (take (unat len) str))
    \<or> (r = Inl (Rc TRILOGY_SYSERR) \<or> r = Inl (Rc TRILOGY_TYPE_OVERFLOW)) \<and> memory_tight alloc (2 * unat len)"
proof -
  let ?s = "take (unat len) str"
  have "length (escaped ?s) \<le> 2 * unat len" "length (quoted ?s) \<le> 2 * unat len"
    using length_escaped_le [of ?s] assms(2) by simp_all
  with escape_cases [OF assms] show ?thesis
    by (auto simp: Let_def refuses_def memory_tight_def unescape_escaped unquote_quoted)
qed

theorem escape_roundtrip_witness:
  "\<exists>e c'. trilogy_escape zero_alloc [0x69, 0x74, 0x27, 0x73, 0] 5 (sample_conn []) = (Inr e, c')
     \<and> unescape e = Some [0x69, 0x74, 0x27, 0x73, 0]"
proof -
  obtain r c' where run: "trilogy_escape zero_alloc [0x69, 0x74, 0x27, 0x73, 0] 5 (sample_conn []) = (r, c')" by fastforce
  with escape_roundtrip [OF _ _ _ run] show ?thesis by (auto simp: object_limit_def memory_tight_def)
qed

text \<open>
  C16. Connecting leaks nothing: whichever system calls fail, for any addresses, the socket has opened
  exactly one new descriptor, its own, or none and reports a code.
\<close>

theorem descriptor_owned:
  assumes "fds_ok (sys s)" and "sock_addr s = Some (a # as)" and run: "cb_raw_connect opts s = (r, s')"
  shows "r = Inr () \<and> 0 \<le> sock_fd s' \<and> sock_fd s' \<notin> set (open_fds (sys s))
      \<and> open_fds (sys s') = sock_fd s' # open_fds (sys s)
    \<or> (\<exists>rc. r = Inl (Rc rc) \<and> rc \<noteq> TRILOGY_OK) \<and> sock_fd s' = -1 \<and> open_fds (sys s') = open_fds (sys s)"
proof -
  have "connect_loop opts (a # as) s = (r, s')" using run assms(2) by (simp add: cb_raw_connect_def)
  from connect_loop_owns [OF this _ assms(2,1)] show ?thesis by (simp add: owns_def)
qed

theorem descriptor_owned_witness:
  "\<exists>r s'. cb_raw_connect sample_opts (sample_socket []) = (r, s') \<and> set [7] \<subseteq> set (open_fds (sys s'))"
proof -
  obtain r s' where run: "cb_raw_connect sample_opts (sample_socket []) = (r, s')" by fastforce
  have "fds_ok (sys (sample_socket []))" "sock_addr (sample_socket []) = Some [\<lparr>ai_family = 2, ai_protocol = 0, ai_addr = []\<rparr>]"
    by (simp_all add: fds_ok_def sample_socket_def sample_kernel_def)
  from descriptor_owned [OF this run] run show ?thesis by auto
qed

text \<open>
  C17. Closing ends with success and for good: the descriptor is closed, and every later read or write
  reports \<^verbatim>\<open>TRILOGY_CLOSED_CONNECTION\<close> without touching the system.
\<close>

theorem closed_for_good:
  assumes "conn_ok c" and sock: "socket c = Some (raw_socket opts)" and "buffered c = []" and "\<not> shut (outside c)"
    and run: "trilogy_close_recv alloc c = (r, c')"
  shows "r = Inr () \<and> shut (outside c') \<and> sock_fd (outside c') = -1
    \<and> sock_fd (outside c) \<notin> set (open_fds (sys (outside c'))) - {-1}
    \<and> trilogy_sock_write bs c' = (Inl (Rc TRILOGY_CLOSED_CONNECTION), c')
    \<and> read_packet alloc c' = (Inl (Rc TRILOGY_CLOSED_CONNECTION), c')"
proof -
  obtain x w where w: "cb_raw_shutdown (outside c) = (x, w)" by fastforce
  note stops = shutdown_stops [OF w]
  define d where "d = c\<lparr>outside := w\<rparr>"
  have shutdown: "ignored trilogy_sock_shutdown c = (Inr (), d)"
    using stops sock assms(4) w
    by (simp add: ignored_def trilogy_sock_shutdown_def with_socket_def raw_socket_def handler_def d_def)
  have d: "socket d = Some (raw_socket opts)" "shut (outside d)" using sock stops by (simp_all add: d_def)
  have "recv_buff_pos d = recv_buff_len d" using buffered_empty [OF assms(1)] assms(3) by (simp add: d_def)
  then have read: "read_packet alloc d = (Inl (Rc TRILOGY_CLOSED_CONNECTION), d)"
    using shut_reads(1) [OF d] by (simp add: read_packet_def receive_def checked_apply)
  have "r = Inr ()" "c' = d" using run shutdown read by (simp_all add: trilogy_close_recv_def checked_apply)
  with stops read shut_reads(2) [OF d] show ?thesis by (auto simp: d_def)
qed

theorem closed_for_good_witness:
  "\<exists>r c'. trilogy_close_recv zero_alloc (sample_conn [1, 2]) = (r, c') \<and> r = Inr () \<and> 7 \<notin> set (open_fds (sys (outside c')))"
proof -
  obtain r c' where run: "trilogy_close_recv zero_alloc (sample_conn [1, 2]) = (r, c')" by fastforce
  have "\<not> shut (sample_socket [1, 2])" "sock_fd (sample_socket [1, 2]) = 7" by (simp_all add: sample_socket_def)
  with closed_for_good [OF _ _ _ _ run, where opts = sample_opts] run show ?thesis by auto
qed

text \<open>
  C18. An upgrade that succeeds is secured as the options ask, whatever OpenSSL answers and however long the
  handshake takes. Before the connection is made, the calls that configure its context are
  exactly those of the plan; the connection is then given the name of the host and the descriptor; all
  of these calls are granted, and the last call is a handshake that was answered with success. In the
  verifying modes the peer is verified and nothing takes that back; to verify the identity
  there is a host name, and it is set.
\<close>

theorem upgrade_secured:
  assumes run: "trilogy_sock_upgrade_ssl lib opts s = (Inr (), s')" and null: "tls_ssl s = 0"
  shows "\<exists>h1 ctx a h2. calls s' = calls s @ h1 @ (SSL_new ctx, a) # h2 \<and> ans_ret a = tls_ssl s' \<and> tls_handlers s' = Ssl_handlers
    \<and> map fst (filter configures h1) = context_plan ctx opts
    \<and> map fst (filter configures h2) = connection_plan (tls_ssl s') opts @ [SSL_set_fd (tls_ssl s') (sock_fd (tls_raw s))]
    \<and> list_all granted (h1 @ h2) \<and> connects (tls_ssl s') h2
    \<and> (opt_ssl_mode opts \<in> {TRILOGY_SSL_VERIFY_IDENTITY, TRILOGY_SSL_VERIFY_CA} \<longrightarrow>
         {mode. SSL_CTX_set_verify ctx mode \<in> fst ` set h1} = {SSL_VERIFY_PEER})
    \<and> (opt_ssl_mode opts = TRILOGY_SSL_VERIFY_IDENTITY \<longrightarrow> (\<exists>host. opt_hostname opts = Some host
         \<and> X509_VERIFY_PARAM_set1_host (tls_ssl s') (c_string host) \<in> fst ` set h2))"
  using run null
proof (cases rule: upgrade_cases)
  case (upgraded h1 ctx a h2)
  have plan: "x \<in> fst ` set h \<and> configures (x, b) \<longleftrightarrow> x \<in> set (map fst (filter configures h))" for x b h
    by (force simp: configures_def image_iff)
  have verify: "{mode. SSL_CTX_set_verify ctx mode \<in> fst ` set h1} = {SSL_VERIFY_PEER}"
    if "opt_ssl_mode opts \<in> {TRILOGY_SSL_VERIFY_IDENTITY, TRILOGY_SSL_VERIFY_CA}"
  proof -
    have "SSL_CTX_set_verify ctx mode \<in> fst ` set h1 \<longleftrightarrow> SSL_CTX_set_verify ctx mode \<in> set (context_plan ctx opts)" for mode
      using plan [of "SSL_CTX_set_verify ctx mode" h1] upgraded(6) by (simp add: configures_def)
    then show ?thesis using that by (auto simp: context_plan_def verify_mode_def split: option.splits if_splits)
  qed
  have host: "\<exists>host. opt_hostname opts = Some host \<and> X509_VERIFY_PARAM_set1_host (tls_ssl s') (c_string host) \<in> fst ` set h2"
    if mode: "opt_ssl_mode opts = TRILOGY_SSL_VERIFY_IDENTITY"
  proof -
    obtain host where host: "opt_hostname opts = Some host" using upgraded(10) mode by auto
    then have "X509_VERIFY_PARAM_set1_host (tls_ssl s') (c_string host) \<in> set (map fst (filter configures h2))"
      using mode unfolding upgraded(7) by (simp add: connection_plan_def)
    then show ?thesis using host by auto
  qed
  show ?thesis using upgraded verify host by (intro exI [of _ h1] exI [of _ ctx] exI [of _ a] exI [of _ h2]) simp
qed simp_all

theorem upgrade_secured_witness:
  "\<exists>s'. trilogy_sock_upgrade_ssl (sample_lib []) identity_opts (sample_tls_socket Raw_handlers) = (Inr (), s')
     \<and> X509_VERIFY_PARAM_set1_host (tls_ssl s') [0x64, 0x62] \<in> fst ` set (calls s')"
proof -
  have "fst (trilogy_sock_upgrade_ssl (sample_lib []) identity_opts (sample_tls_socket Raw_handlers)) = Inr ()"
    by (simp add: run_tls identity_opts_def sample_opts_def granting_def)
  then obtain s' where run: "trilogy_sock_upgrade_ssl (sample_lib []) identity_opts (sample_tls_socket Raw_handlers) = (Inr (), s')"
    by (metis surjective_pairing)
  from upgrade_secured [OF run sample_tls_fields(3)] have "\<exists>h1 ctx a h2. calls s' = h1 @ (SSL_new ctx, a) # h2
      \<and> X509_VERIFY_PARAM_set1_host (tls_ssl s') [0x64, 0x62] \<in> fst ` set h2"
    by (elim exE conjE) (intro exI conjI, simp, simp add: identity_opts_def c_string_def)
  then show ?thesis using run by auto
qed

text \<open>
  C19. Encryption does not change what is exchanged. If OpenSSL takes and delivers bytes in order, a query over
  an upgraded socket is given to it in order and once, all of it if the function reports success; the packet
  that answers is then read whole, whatever the pieces, or the loop waits for ever or ends with a code.
\<close>

theorem tls_exchange:
  assumes "ready c" and sock: "socket c = Some (tls_socket lib opts)" and lib: "delivers lib m"
    and len: "unat len \<le> length sql" "unat len < object_limit" and memory: "generous alloc" "length p \<le> 2 ^ 62"
    and stream: "buffered c @ tls_incoming m (outside c) = frames (after_fragments 0 (0x03 # take (unat len) sql)) p @ extra"
    and send: "on_again (trilogy_query_send alloc sql len) flush_full c = (r1, c1)"
    and receive: "until_done (read_packet alloc) trilogy_sock_wait_read c1 = (r, c')"
  shows "\<exists>bs. tls_outgoing (outside c1) = tls_outgoing (outside c) @ bs \<and> prefix bs (frames 0 (0x03 # take (unat len) sql))
    \<and> (r1 = Inr () \<and> bs = frames 0 (0x03 # take (unat len) sql)
         \<and> (r = Inr () \<and> ready c' \<and> contents (packet_buffer c') = p \<and> buffered c' @ tls_incoming m (outside c') = extra
            \<or> r = Inl Hang \<or> (\<exists>rc. r = Inl (Rc rc) \<and> rc \<noteq> TRILOGY_OK))
       \<or> r1 = Inl Hang \<or> (\<exists>rc. r1 = Inl (Rc rc) \<and> rc \<noteq> TRILOGY_OK))"
proof -
  note T = tls_transport [OF lib]
  let ?payload = "0x03 # take (unat len) sql"
  have buf: "buffer_ok (packet_buffer c)" using assms(1) by (simp add: ready_def conn_ok_def)
  have k: "checked (put_state (\<lambda>c. c\<lparr>packet_parser := (packet_parser c)\<lparr>sequence_number := bld_seq b\<rparr>\<rparr>)) (\<lambda>_. begin_write) d =
      begin_write (d\<lparr>packet_parser := (packet_parser d)\<lparr>sequence_number := bld_seq b\<rparr>\<rparr>)" for b and d :: "tls_sock trilogy_conn"
    by simp
  note S = transport.send_cases [OF T buf sock tls_uses [OF lib sock] query_builds [OF len] k send [unfolded query_send_built]]
  have R: "r = Inr () \<and> ready c' \<and> contents (packet_buffer c') = p \<and> buffered c' @ tls_incoming m (outside c') = extra
      \<or> r = Inl Hang \<or> (\<exists>rc. r = Inl (Rc rc) \<and> rc \<noteq> TRILOGY_OK)" if "r1 = Inr ()"
  proof -
    have "packet_parser c1 = (packet_parser c)\<lparr>sequence_number := after_fragments 0 ?payload\<rparr>"
      using S that by (auto simp: after_fragments_def)
    moreover have "conn_ok c1" using S assms(1) by (simp add: ready_def)
    ultimately have ready1: "ready c1" and seq: "sequence_number (packet_parser c1) = after_fragments 0 ?payload"
      using assms(1) by (simp_all add: ready_def)
    have "socket c1 = Some (tls_socket lib opts)" using S sock by (simp add: session_def)
    moreover have "transport.unread (tls_incoming m) c1 = frames (sequence_number (packet_parser c1)) p @ extra"
      using S stream seq by (simp add: transport.unread_def [OF T])
    moreover have "\<not> memory_tight alloc (length p)" using memory by (simp add: memory_tight_def)
    ultimately show ?thesis using transport.packet_cases [OF T ready1 tls_uses [OF lib] _ _ receive]
      by (auto simp: arrived_def transport.unread_def [OF T])
  qed
  from S R show ?thesis by metis
qed

theorem tls_exchange_witness:
  "\<exists>r1 c1 r c' bs. on_again (trilogy_query_send zero_alloc [0x53] 1) flush_full
       (conn_over (tls_socket (sample_lib (frames 1 [7, 8])) sample_opts) (sample_tls_socket Ssl_handlers)) = (r1, c1)
     \<and> until_done (read_packet zero_alloc) trilogy_sock_wait_read c1 = (r, c') \<and> tls_outgoing (outside c1) = bs
     \<and> prefix bs [2, 0, 0, 0, 3, 0x53]"
proof -
  let ?c = "conn_over (tls_socket (sample_lib (frames 1 [7, 8])) sample_opts) (sample_tls_socket Ssl_handlers)"
  obtain r1 c1 where send: "on_again (trilogy_query_send zero_alloc [0x53] 1) flush_full ?c = (r1, c1)" by fastforce
  obtain r c' where receive: "until_done (read_packet zero_alloc) trilogy_sock_wait_read c1 = (r, c')" by fastforce
  from tls_exchange [OF _ _ sample_lib_delivers _ _ generous_zero_alloc _ _ send receive, where p = "[7, 8]" and extra = "[]"]
    send receive show ?thesis
    by (auto simp: object_limit_def frames_short packet_header_def TRILOGY_MAX_PACKET_LEN_def after_fragments_def)
qed

text \<open>
  C20. An encrypted socket leaks nothing of OpenSSL: after an upgrade, whether it succeeded or failed at
  any point, and the closing of the socket, the contexts and connections that are alive are those
  from before.
\<close>

theorem tls_objects_released:
  assumes up: "trilogy_sock_upgrade_ssl lib opts s = (r, s1)" and "r \<noteq> Inl Hang"
    and start: "tls_ssl s = 0" "tls_handlers s = Raw_handlers"
    and closed: "close_cb (tls_socket lib opts) s1 = (r', s2)"
  shows "live_objects (calls s2) = live_objects (calls s)"
  using up start(1)
proof (cases rule: upgrade_cases)
  case (upgraded h1 ctx a h2)
  obtain cs ss where s: "live_objects (calls s) = (cs, ss)" by fastforce
  have "cb_ssl_close lib s1 = (r', s2)" using closed upgraded(4) by (simp add: tls_socket_def by_handlers_def)
  moreover have "live_objects (calls s1) = (cs, if tls_ssl s1 = 0 then ss else tls_ssl s1 # ss)"
    using upgraded(2,11) s by (simp add: live_objects_append)
  ultimately show ?thesis using s by (simp add: ssl_close_objects)
next
  case (failed h)
  then have "on_raw cb_raw_close s1 = (r', s2)" using closed start by (simp add: tls_socket_def by_handlers_def)
  then have "calls s2 = calls s1" by (auto simp: on_raw_apply)
  then show ?thesis using failed by (simp add: live_objects_append)
qed (use assms in simp)

theorem tls_objects_released_witness:
  "\<exists>s1 r' s2. trilogy_sock_upgrade_ssl (sample_lib []) identity_opts (sample_tls_socket Raw_handlers) = (Inr (), s1)
     \<and> close_cb (tls_socket (sample_lib []) identity_opts) s1 = (r', s2) \<and> live_objects (calls s2) = ([], [])"
proof -
  have "fst (trilogy_sock_upgrade_ssl (sample_lib []) identity_opts (sample_tls_socket Raw_handlers)) = Inr ()"
    by (simp add: run_tls identity_opts_def sample_opts_def granting_def)
  then obtain s1 where run: "trilogy_sock_upgrade_ssl (sample_lib []) identity_opts (sample_tls_socket Raw_handlers) = (Inr (), s1)"
    by (metis surjective_pairing)
  obtain r' s2 where closed: "close_cb (tls_socket (sample_lib []) identity_opts) s1 = (r', s2)" by fastforce
  from tls_objects_released [OF run _ sample_tls_fields(3,4) closed] have "live_objects (calls s2) = ([], [])"
    by (simp add: live_objects_def)
  then show ?thesis using run closed by blast
qed





text \<open>
  C23. The shape of what a query returns. Each row of a table has one value for each field, and when rows are
  flattened the length of the one array is a multiple of the number of fields; a result with
  fields has neither an insert id nor a number of affected rows. The same holds for every further result.
\<close>

theorem result_shape:
  assumes "rb_trilogy_query vm alloc query ctx = (Inr res, ctx1) \<or> rb_trilogy_next_result vm alloc ctx = (Inr (Some res), ctx1)"
  shows "(case res_rows res of
        Rows rows \<Rightarrow> (\<forall>row \<in> set rows. length row = length (res_fields res))
      | Flat values \<Rightarrow> length (res_fields res) dvd length values)
     \<and> (res_fields res \<noteq> [] \<longrightarrow> res_last_insert_id res = Qnil \<and> res_affected_rows res = Qnil)"
proof -
  have "well_shaped res" using assms query_shape next_result_shape by blast
  then show ?thesis by (cases "res_rows res") (auto simp: well_shaped_def list_all_iff)
qed

theorem result_shape_witness:
  "\<exists>(res :: nat rb_result) ctx'. rb_trilogy_query sample_vm zero_alloc [0x53] (sample_ctx sample_table) = (Inr res, ctx')
     \<and> (case res_rows res of
        Rows rows \<Rightarrow> (\<forall>row \<in> set rows. length row = length (res_fields res))
      | Flat slots \<Rightarrow> length (res_fields res) dvd length slots)"
proof -
  obtain res :: "nat rb_result" and ctx' where run: "rb_trilogy_query sample_vm zero_alloc [0x53] (sample_ctx sample_table) = (Inr res, ctx')"
    using sample_table_run by blast
  from result_shape [OF disjI1, OF run] run show ?thesis by blast
qed

text \<open>
  C24. The buffer grows to the least doubling of its capacity that fits: when
  \<^verbatim>\<open>trilogy_buffer_expand\<close> succeeds there is room for the bytes asked for, the contents are
  kept, and no smaller doubling would have been enough.
\<close>

theorem expand_grows:
  assumes "buffer_ok b" and "unat n < 2 ^ 63" and "trilogy_buffer_expand alloc n b = (Inr (), b')"
  shows "buffer_ok b' \<and> contents b' = contents b \<and> unat n \<le> room b'
    \<and> (\<exists>k. unat (buf_cap b') = 2 ^ k * unat (buf_cap b)
         \<and> (\<forall>j<k. 2 ^ j * unat (buf_cap b) < unat (buf_len b) + unat n))"
proof -
  have n: "unat n < object_limit" using assms(2) by (simp add: object_limit_def)
  have "buffer_ok b' \<and> contents b' = contents b \<and> unat n \<le> room b'"
    using expand_holds [OF n, of "contents b" alloc] assms(1,3) by (auto dest: holds_Inr)
  with expand_least_doubling [OF assms(1) n assms(3)] show ?thesis by blast
qed

theorem expand_grows_witness:
  "\<exists>b'. trilogy_buffer_expand zero_alloc 9 small_buffer = (Inr (), b') \<and> buffer_ok b' \<and> 9 \<le> room b'"
proof -
  let ?run = "trilogy_buffer_expand zero_alloc 9 small_buffer"
  obtain b' where r: "?run = (Inr (), b')" by (rule run_result [of ?run]) (simp add: run_buffer)
  with expand_grows [OF small_buffer_ok _ r] show ?thesis by auto
qed

text \<open>
  C25. The parsers of the packets that a server sends read nothing outside the packet and
  always return: their result is the same for any two objects that agree on the first
  \<^verbatim>\<open>len\<close> bytes, and it is neither a fault nor a loop without end, nor an error with the code of
  a success or of a request to try again.
\<close>

theorem parsers_read_only_the_packet:
  "reads_only (\<lambda>buff len. trilogy_parse_ok_packet buff len caps)
   \<and> reads_only (\<lambda>buff len. trilogy_parse_eof_packet buff len caps)
   \<and> reads_only (\<lambda>buff len. trilogy_parse_err_packet buff len caps)
   \<and> reads_only (\<lambda>buff len. trilogy_parse_auth_switch_request_packet buff len caps switch)
   \<and> reads_only (\<lambda>buff len. trilogy_parse_handshake_packet buff len handshake)
   \<and> reads_only trilogy_parse_result_packet
   \<and> reads_only (\<lambda>buff len. trilogy_parse_column_packet buff len field_list)
   \<and> reads_only trilogy_parse_stmt_ok_packet"
  by (intro conjI reads_only_parsers)

text \<open>
  C26. The parsers of rows, of the text and of the binary protocol, do the same when the arrays
  of the caller have an element for each column; the bitmap of the null values is read
  within its bytes.
\<close>

theorem row_parsers_read_only_the_packet:
  assumes "unat n + 9 < 2 ^ 64"
    and "unat n \<le> length values" and "unat n \<le> length binary_values" and "unat n \<le> length columns"
  shows "reads_only (\<lambda>buff len. trilogy_parse_row_packet buff len n values)
    \<and> reads_only (\<lambda>buff len. trilogy_parse_stmt_row_packet buff len columns n binary_values)"
  using reads_onlyI [OF sound_parse_row [OF assms(2)] trilogy_parse_row_packet_def]
    reads_onlyI [OF sound_parse_stmt_row [OF assms(1,3,4)] trilogy_parse_stmt_row_packet_def]
  by (rule conjI)

theorem row_parsers_read_only_the_packet_witness:
  "reads_only (\<lambda>buff len. trilogy_parse_row_packet buff len 1 [blank_value])
    \<and> reads_only (\<lambda>buff len. trilogy_parse_stmt_row_packet buff len [sample_column] 1 [blank_binary_value])"
  by (rule row_parsers_read_only_the_packet) simp_all

text \<open>
  C27. The handshake of a server that speaks the 4.1 protocol with secure connections and
  authentication plugins is read back: every field the packet has arrives, a version
  string too long for its array is cut at 31 bytes, and scramble and plugin name fit.
\<close>

theorem handshake_roundtrip:
  assumes "has_capability (hs_capabilities h) TRILOGY_CAPABILITIES_PROTOCOL_41"
    and "has_capability (hs_capabilities h) TRILOGY_CAPABILITIES_SECURE_CONNECTION"
    and "has_capability (hs_capabilities h) TRILOGY_CAPABILITIES_PLUGIN_AUTH"
    and "0 \<notin> set version" and "length reserved = 10" and "length (hs_scramble h) = 21"
    and "length (hs_scramble out) = 21" and "0 \<notin> set plugin" and "length plugin \<le> 31"
    and "length (handshake_bytes h version reserved plugin) < 2 ^ 64"
  shows "trilogy_parse_handshake_packet (handshake_bytes h version reserved plugin)
      (word_of_nat (length (handshake_bytes h version reserved plugin))) out =
    Inr \<lparr>hs_proto_version = 0xa,
         hs_server_version = blit 0 (take 31 version @ [0]) (hs_server_version out),
         hs_conn_id = hs_conn_id h, hs_scramble = hs_scramble h, hs_capabilities = hs_capabilities h,
         hs_server_charset = hs_server_charset h, hs_server_status = hs_server_status h,
         hs_auth_plugin = blit 0 (plugin @ [0]) (hs_auth_plugin out)\<rparr>"
  unfolding trilogy_parse_handshake_packet_def
  by (rule parses_whole [OF parses_handshake [unfolded received_handshake_def]]) (use assms in simp_all)

theorem handshake_roundtrip_witness:
  "case trilogy_parse_handshake_packet (handshake_bytes sample_handshake [0x38] (replicate 10 0) [0x70])
      (word_of_nat (length (handshake_bytes sample_handshake [0x38] (replicate 10 0) [0x70]))) blank_handshake of
     Inl _ \<Rightarrow> False
   | Inr h \<Rightarrow> hs_conn_id h = 7 \<and> hs_capabilities h = TRILOGY_CAPABILITIES_CLIENT
       \<and> take 2 (hs_server_version h) = [0x38, 0] \<and> take 2 (hs_auth_plugin h) = [0x70, 0]"
  by (subst handshake_roundtrip)
    (simp_all add: sample_handshake_def blank_handshake_def client_capabilities handshake_bytes_def blit_def)

text \<open>
  C28. An OK packet is read back with its counters, its flags and what follows them: the text of
  older servers, or the status and the changes of the session, of which the last GTID is kept.
\<close>

theorem ok_packet_roundtrip:
  assumes "has_capability caps TRILOGY_CAPABILITIES_PROTOCOL_41" and "ok_tail_valid caps flags t"
    and "length (ok_packet_bytes affected last_id flags warnings t) < 2 ^ 64"
  shows "trilogy_parse_ok_packet (ok_packet_bytes affected last_id flags warnings t)
      (word_of_nat (length (ok_packet_bytes affected last_id flags warnings t))) caps =
    Inr (with_ok_tail t (plain_ok_packet affected last_id flags warnings))"
  unfolding trilogy_parse_ok_packet_def by (rule parses_whole [OF parses_ok_packet]) (use assms in simp_all)

theorem ok_packet_roundtrip_witness:
  "case trilogy_parse_ok_packet (ok_packet_bytes 3 4 0x4000 0 (Ok_changes [] [Gtid 0 [0x61], Other_entry 1 [], Gtid 0 [0x62, 0x63]]))
      (word_of_nat (length (ok_packet_bytes 3 4 0x4000 0 (Ok_changes [] [Gtid 0 [0x61], Other_entry 1 [], Gtid 0 [0x62, 0x63]]))))
      TRILOGY_CAPABILITIES_CLIENT of
     Inl _ \<Rightarrow> False
   | Inr p \<Rightarrow> ok_affected_rows p = 3 \<and> ok_last_insert_id p = 4 \<and> ok_last_gtid p = [0x62, 0x63]"
  by (subst ok_packet_roundtrip)
    (simp_all add: client_capabilities ok_packet_bytes_def plain_ok_packet_def lenenc_string_def
      lenenc_bytes_def TRILOGY_MAX_LAST_GTID_LEN_def)

text \<open>
  C29. A GTID that was accepted fits the array of the connection: whatever bytes a server sends as
  an OK packet, the GTID taken from it has at most \<^verbatim>\<open>TRILOGY_MAX_LAST_GTID_LEN\<close> bytes.
\<close>

theorem accepted_gtid_fits:
  assumes "trilogy_parse_ok_packet buff len caps = Inr p"
  shows "length (ok_last_gtid p) \<le> TRILOGY_MAX_LAST_GTID_LEN"
proof -
  obtain r where "parse_ok_packet caps (TRILOGY_READER buff len) = (Inr p, r)"
    using assms by (auto simp: trilogy_parse_ok_packet_def elim: run_result)
  then show ?thesis by (rule ok_packet_gtid_bound)
qed

theorem accepted_gtid_fits_witness:
  "\<exists>buff len p. trilogy_parse_ok_packet buff len TRILOGY_CAPABILITIES_CLIENT = Inr p
     \<and> ok_last_gtid p = [0x61] \<and> length (ok_last_gtid p) \<le> TRILOGY_MAX_LAST_GTID_LEN"
proof (intro exI conjI)
  show "length (ok_last_gtid (with_ok_tail (Ok_changes [] [Gtid 0 [0x61]]) (plain_ok_packet 3 4 0x4000 0)))
      \<le> TRILOGY_MAX_LAST_GTID_LEN"
    by (rule accepted_gtid_fits [OF sample_ok_parsed])
qed (rule sample_ok_parsed, simp add: plain_ok_packet_def)

text \<open>
  C30. A column definition is read back with all its names and attributes, whatever the server
  puts in the length of its fixed fields and in the filler.
\<close>

theorem column_packet_roundtrip:
  assumes "\<forall>bs \<in> set (column_strings p). length bs < 2 ^ 64" and "field_list \<or> col_default_value p = []"
    and "length (column_packet_bytes field_list fixed_length filler p) < 2 ^ 64"
  shows "trilogy_parse_column_packet (column_packet_bytes field_list fixed_length filler p)
      (word_of_nat (length (column_packet_bytes field_list fixed_length filler p))) field_list = Inr p"
  unfolding trilogy_parse_column_packet_def by (rule parses_whole [OF parses_column_packet]) (use assms in simp_all)

theorem column_packet_roundtrip_witness:
  "trilogy_parse_column_packet (column_packet_bytes False 12 0 sample_column)
      (word_of_nat (length (column_packet_bytes False 12 0 sample_column))) False = Inr sample_column"
  by (rule column_packet_roundtrip)
    (simp_all add: column_strings_def sample_column_def column_packet_bytes_def lenenc_string_def lenenc_bytes_def)

text \<open>
  C31. A row of the text protocol is read back into the array of the caller: each string in its
  element, a null value as such, and the elements beyond the row as they were.
\<close>

theorem row_packet_roundtrip:
  assumes "unat n = length vs" and "length vs \<le> length out" and "length (row_packet_bytes vs) < 2 ^ 64"
    and "\<And>bs. Some bs \<in> set vs \<Longrightarrow> length bs < 2 ^ 64"
  shows "trilogy_parse_row_packet (row_packet_bytes vs) (word_of_nat (length (row_packet_bytes vs))) n out =
    Inr (map2 stored_value vs out @ drop (length vs) out)"
  using parses_whole [OF parses_row_packet [OF assms(1,2,4)] assms(3)]
  by (simp add: trilogy_parse_row_packet_def stored_row_def)

theorem row_packet_roundtrip_witness:
  "trilogy_parse_row_packet (row_packet_bytes [Some [0x31], None]) (word_of_nat (length (row_packet_bytes [Some [0x31], None])))
      2 [blank_value, blank_value] =
   Inr [\<lparr>val_is_null = False, val_data = [0x31], val_data_len = 1\<rparr>,
        \<lparr>val_is_null = True, val_data = [], val_data_len = 0\<rparr>]"
  by (subst row_packet_roundtrip)
    (auto simp: row_packet_bytes_def lenenc_string_def lenenc_bytes_def stored_value_def blank_value_def)



text \<open>
  C33. The server can check the responses of both plugins without knowing the password: from the
  response and the scramble it recovers the hash of the password, whose hash is what it
  stores. The digests are parameters, of which only the fixed length of the value is used.
\<close>

theorem responses_verify:
  assumes "\<And>x. length (sha1 x) = 20" and "\<And>x. length (sha256 x) = 32"
  shows "sha1 (map2 (XOR) (trilogy_pack_scramble_native_hash sha1 scramble pass)
           (sha1 (take SCRAMBLE_LEN scramble @ sha1 (sha1 pass)))) = sha1 (sha1 pass)
    \<and> sha256 (map2 (XOR) (trilogy_pack_scramble_sha2_hash sha256 scramble pass)
           (sha256 (sha256 (sha256 pass) @ take SCRAMBLE_LEN scramble))) = sha256 (sha256 pass)"
  using native_hash_verifies [of sha1 20 scramble pass] sha2_hash_verifies [of sha256 32 scramble pass] assms
  by blast

theorem responses_verify_witness:
  "toy_digest 20 (map2 (XOR) (trilogy_pack_scramble_native_hash (toy_digest 20) [1, 2] [3])
     (toy_digest 20 (take SCRAMBLE_LEN [1, 2] @ toy_digest 20 (toy_digest 20 [3])))) = toy_digest 20 (toy_digest 20 [3])"
  using responses_verify [of "toy_digest 20" "toy_digest 32" "[1, 2]" "[3]"] by (simp add: toy_digest_def)

text \<open>
  C34. The password is kept. Without TLS and off the local host, the loop that waits for the verdict of
  the server sends nothing more, whatever the server answers: a request for the password
  in the clear is refused, and a change of the plugin is only noted. The loop ends without a fault.
\<close>

theorem password_kept:
  assumes "conn_ok c" and sock: "socket c = Some (raw_socket opts)" and "connected (outside c)"
    and "\<not> has_capability (opt_flags opts) TRILOGY_CAPABILITIES_SSL" and "opt_path opts = None" and "password_ok opts"
    and local: "auth_plugin_size \<le> length (switch_auth_plugin local)"
    and run: "until_done (trilogy_auth_recv alloc local) (on_conn trilogy_sock_wait_read) (c, h) = (r, (c', h'))"
  shows "written (sys (outside c')) = written (sys (outside c)) \<and> conn_ok c' \<and> ended r"
proof -
  have "live_raw.good (unsafe_wire (written (sys (outside c)))) (fst (c, h))"
    using assms(1-6) raw_uses [OF sock] by (simp add: live_raw.good_def unsafe_wire_def outlook_def)
  from live_raw.answer_safe_paired [OF live_raw.prudent_auth_recv [OF local] this run] show ?thesis
    by (simp add: live_raw.good_def unsafe_wire_def)
qed

theorem password_kept_witness:
  "\<exists>r c' h'. until_done (trilogy_auth_recv zero_alloc blank_switch) (on_conn trilogy_sock_wait_read)
      (conn_over (raw_socket far_opts) (sample_socket (frames 0 [1, FAST_AUTH_FAIL])), blank_handshake) = (r, (c', h'))
     \<and> written (sys (outside c')) = [] \<and> ended r"
proof -
  obtain r c' h' where run: "until_done (trilogy_auth_recv zero_alloc blank_switch) (on_conn trilogy_sock_wait_read)
      (conn_over (raw_socket far_opts) (sample_socket (frames 0 [1, FAST_AUTH_FAIL])), blank_handshake) = (r, (c', h'))"
    by (metis surj_pair)
  have "written (sys (outside c')) = written (sys (outside (conn_over (raw_socket far_opts)
      (sample_socket (frames 0 [1, FAST_AUTH_FAIL]))))) \<and> conn_ok c' \<and> ended r"
    by (rule password_kept [OF _ _ _ _ _ _ _ run, where opts = far_opts])
      (simp_all add: far_opts_def sample_opts_def has_capability_def password_ok_def blank_switch_def)
  then show ?thesis using run by auto
qed

text \<open>
  C35. What the client binds is read back by the reader of the binary protocol: a date or a timestamp whole,
  in each of the four lengths the writer chooses from; a time too, unless it is one of whole
  days or has only its sign set, which is sent as the zero time.
\<close>

theorem bound_times_received:
  "writes alloc (write_time alloc t) (time_bytes t)
   \<and> fst (get_time (TRILOGY_READER (time_bytes t) (word_of_nat (length (time_bytes t))))) = Inr (received_time t)
   \<and> (received_time t \<noteq> t \<longleftrightarrow>
        time_hour t = 0 \<and> time_minute t = 0 \<and> time_second t = 0 \<and> time_micro_seconds t = 0
        \<and> (0 < time_days t \<or> time_is_negative t))
   \<and> writes alloc (write_date alloc d) (date_bytes d)
   \<and> fst (get_date (TRILOGY_READER (date_bytes d) (word_of_nat (length (date_bytes d))))) = Inr d"
proof (intro conjI)
  show "fst (get_time (TRILOGY_READER (time_bytes t) (word_of_nat (length (time_bytes t))))) = Inr (received_time t)"
    using length_time_bytes [of t] by (intro parses_whole decodes_parses decodes_time) simp
  show "fst (get_date (TRILOGY_READER (date_bytes d) (word_of_nat (length (date_bytes d))))) = Inr d"
    using length_date_bytes [of d] by (intro parses_whole decodes_parses decodes_date) simp
  show "received_time t \<noteq> t \<longleftrightarrow>
        time_hour t = 0 \<and> time_minute t = 0 \<and> time_second t = 0 \<and> time_micro_seconds t = 0
        \<and> (0 < time_days t \<or> time_is_negative t)"
    by (cases t) (auto simp: received_time_def word_gt_0)
qed (rule writes_time writes_date)+

text \<open>
  C36. The Ruby extension reads integers as the server prints them: the decimal text of any number of
  the type of the column, signed or unsigned, is cast to that number.
\<close>

theorem integers_cast:
  assumes "cast options" and "of_type column t"
    and "t \<in> set [TRILOGY_TYPE_TINY, TRILOGY_TYPE_SHORT, TRILOGY_TYPE_LONG, TRILOGY_TYPE_LONGLONG,
      TRILOGY_TYPE_INT24, TRILOGY_TYPE_YEAR]"
    and "t = TRILOGY_TYPE_TINY \<Longrightarrow> \<not> (cast_booleans options \<and> ci_len column = 1)"
    and range: "if ucast (ci_flags column) AND column_flag TRILOGY_COLUMN_FLAG_UNSIGNED \<noteq> 0
      then 0 \<le> i \<and> i < 2 ^ 64 else - (2 ^ 63) \<le> i \<and> i < 2 ^ 63"
  shows "rb_trilogy_cast_value strtod find_index (text_value (signed_decimal i)) column options =
    ruby_ret (Integer_value i)"
proof -
  have "\<not> val_is_null (text_value (signed_decimal i))" by (simp add: text_value_def)
  from cast_integer_type [OF assms(1,2) this assms(3,4)] show ?thesis by (simp add: cast_integer_decimal [OF range])
qed

theorem integers_cast_witness:
  "rb_trilogy_cast_value (\<lambda>bs. (0 :: nat, 0)) (\<lambda>_. 1) (text_value [0x2d, 0x34, 0x32]) sample_column_info sample_cast_options
     = ruby_ret (Integer_value (- 42))"
proof -
  have "signed_decimal (- 42) = [0x2d, 0x34, 0x32]"
    by (simp add: signed_decimal_def decimal.simps digit_def)
  moreover have "type_of_code (type_code TRILOGY_TYPE_LONGLONG) = Some TRILOGY_TYPE_LONGLONG" by (rule type_of_code_code)
  ultimately show ?thesis
    using integers_cast [of sample_cast_options sample_column_info TRILOGY_TYPE_LONGLONG "- 42" "\<lambda>bs. (0 :: nat, 0)" "\<lambda>_. 1"]
    by (simp add: sample_column_info_def sample_cast_options_def of_type_def)
qed

text \<open>
  C37. Dates and times in the Ruby extension. The text of a timestamp or a date, with any number of digits
  after the point, is cast to the call that makes it with these fields and microseconds. A
  time is, too, if it is not negative and shorter than 100 hours; any other time is lost: it is
  cast to \<^verbatim>\<open>nil\<close>, although the type has times up to 838 hours of either sign.
\<close>

theorem times_cast:
  assumes "cast options" and date: "year < 10000" "0 < month" "month < 100" "0 < day" "day < 100"
    and time: "hour < 1000" "minute < 100" "sec < 100" "k \<le> 6" "frac < 10 ^ k"
  shows "((of_type column TRILOGY_TYPE_DATETIME \<or> of_type column TRILOGY_TYPE_TIMESTAMP) \<and> hour < 100 \<longrightarrow>
      rb_trilogy_cast_value strtod find_index
        (text_value (date_text year month day @ 0x20 # time_text hour minute sec k frac)) column options =
      ruby_ret (Funcall ''Time'' (time_method options)
        (map (\<lambda>n. Integer_value (int n)) [year, month, day, hour, minute, sec, frac * 10 ^ (6 - k)])))
    \<and> (of_type column TRILOGY_TYPE_DATE \<longrightarrow>
      rb_trilogy_cast_value strtod find_index (text_value (date_text year month day)) column options =
      ruby_ret (Funcall ''Date'' ''new'' (map (\<lambda>n. Integer_value (int n)) [year, month, day])))
    \<and> (of_type column TRILOGY_TYPE_TIME \<longrightarrow>
      rb_trilogy_cast_value strtod find_index
        (text_value ((if negative then [0x2d] else []) @ time_text hour minute sec k frac)) column options =
      ruby_ret (if negative \<or> 100 \<le> hour then Qnil
        else Funcall ''Time'' (time_method options)
          (map (\<lambda>n. Integer_value (int n)) [2000, 1, 1, hour, minute, sec, frac * 10 ^ (6 - k)])))"
proof -
  have plain: "\<not> val_is_null (text_value bs)" for bs by (simp add: text_value_def)
  note cast = cast_of_type [OF assms(1) _ plain]
  show ?thesis
    using cast_datetime_text [OF date _ time(2-5), where options = options]
    by (auto simp: cast [of column TRILOGY_TYPE_DATETIME] cast [of column TRILOGY_TYPE_TIMESTAMP]
        cast [of column TRILOGY_TYPE_DATE] cast [of column TRILOGY_TYPE_TIME] cast_date_text [OF date] cast_time_text [OF time])
qed

theorem times_cast_witness:
  "rb_trilogy_cast_value (\<lambda>bs. (0 :: nat, 0)) (\<lambda>_. 1) (text_value (time_text 5 6 7 1 5))
       (sample_column_info\<lparr>ci_type := type_code TRILOGY_TYPE_TIME\<rparr>) sample_cast_options
     = ruby_ret (Funcall ''Time'' ''utc''
         (map Integer_value [2000, 1, 1, 5, 6, 7, 500000]))
   \<and> rb_trilogy_cast_value (\<lambda>bs. (0 :: nat, 0)) (\<lambda>_. 1) (text_value (0x2d # time_text 5 6 7 1 5))
       (sample_column_info\<lparr>ci_type := type_code TRILOGY_TYPE_TIME\<rparr>) sample_cast_options = ruby_ret Qnil"
proof -
  have t: "of_type (sample_column_info\<lparr>ci_type := type_code TRILOGY_TYPE_TIME\<rparr>) TRILOGY_TYPE_TIME"
    using type_of_code_code [of TRILOGY_TYPE_TIME] by (simp add: of_type_def)
  have "cast sample_cast_options" "time_method sample_cast_options = ''utc''"
    by (simp_all add: sample_cast_options_def time_method_def)
  with t times_cast [of sample_cast_options 1 1 1 5 6 7 1 5 "sample_column_info\<lparr>ci_type := type_code TRILOGY_TYPE_TIME\<rparr>"
      "\<lambda>bs. (0 :: nat, 0)" "\<lambda>_. 1" False]
    times_cast [of sample_cast_options 1 1 1 5 6 7 1 5 "sample_column_info\<lparr>ci_type := type_code TRILOGY_TYPE_TIME\<rparr>"
      "\<lambda>bs. (0 :: nat, 0)" "\<lambda>_. 1" True]
  show ?thesis by simp
qed





text \<open>
  C40. A path of a local socket that does not fit the address crashes the Ruby extension: \<^verbatim>\<open>trilogy_sock_resolve\<close>
  closes and frees the socket before it returns, and \<^verbatim>\<open>try_connect\<close> closes it again.
\<close>

theorem connect_long_path:
  assumes "opt_path opts = Some path" and "opt_hostname opts = None" and "SUN_PATH_SIZE \<le> length (c_string path)"
    and "opt_password opts = None" and "rb_pending (outside (ctx_conn ctx)) = None"
  shows "\<exists>ctx'. expect_ok vm msg (try_connect vm alloc unset shut (trilogy_sock_new opts) trilogy_sock_resolve) ctx
    = (Inl (Crashed Fault), ctx')"
proof -
  obtain c' where "try_connect vm alloc unset shut (trilogy_sock_new opts) trilogy_sock_resolve (ctx_conn ctx) = (Inl Fault, c')"
      "rb_pending (outside c') = rb_pending (outside (ctx_conn ctx))"
    using long_path_fault [OF assms(1-3)] assms(4) by (metis option.distinct(1))
  from expect_ok_crash [where ctx = ctx and m = "try_connect vm alloc unset shut (trilogy_sock_new opts) trilogy_sock_resolve", OF this(1), of vm msg] this(2) assms(5) show ?thesis by auto
qed

theorem connect_long_path_witness:
  "\<exists>ctx'. expect_ok sample_vm [] (try_connect sample_vm zero_alloc blank_handshake shut
      (trilogy_sock_new (sample_opts\<lparr>opt_path := Some (replicate 108 0x61)\<rparr>)) trilogy_sock_resolve) (sample_ctx [])
    = (Inl (Crashed Fault), ctx')"
proof (rule connect_long_path)
  show "SUN_PATH_SIZE \<le> length (c_string (replicate 108 0x61))" by (simp add: SUN_PATH_SIZE_def c_string_def)
qed (simp_all add: sample_opts_def)

section \<open>Further facts\<close>

text \<open>
  The parser never reads past a piece and never loses a byte of it: a call that returns
  has consumed at most the bytes it was given, and all of them when it returns no code.
\<close>

theorem execute_consumes:
  assumes "trilogy_packet_parser_execute cb buff (p, u) = (Inr (n, rc), s)"
  shows "n \<le> length buff \<and> (rc = 0 \<longrightarrow> n = length buff)"
  using assms by (rule execute_within)

theorem execute_consumes_witness:
  "\<exists>s. trilogy_packet_parser_execute (packet_parser_callbacks zero_alloc) [2, 0, 0]
       (trilogy_packet_parser_init 0, small_buffer) = (Inr (3, 0), s)
     \<and> (3 :: nat) \<le> length [2, 0, 0 :: u8]"
proof -
  obtain s where s: "trilogy_packet_parser_execute (packet_parser_callbacks zero_alloc) [2, 0, 0]
       (trilogy_packet_parser_init 0, small_buffer) = (Inr (3, 0), s)"
    by (simp add: run_parser small_buffer_def)
  with execute_consumes [OF s] show ?thesis by blast
qed

text \<open>
  A packet with the wrong sequence number is refused: the call returns
  \<^verbatim>\<open>TRILOGY_INVALID_SEQUENCE_ID\<close> at the sequence byte, consumes the three bytes before it, and
  no payload byte reaches the callbacks.
\<close>

theorem wrong_sequence_refused:
  assumes "state p = S_LEN_0" and "\<not> fragment p" and "\<not> deferred_end_callback p"
    and "4 \<le> length buff" and "buff ! 3 \<noteq> sequence_number p" and "buffer_ok u"
  shows "\<exists>p' u'. trilogy_packet_parser_execute (packet_parser_callbacks alloc) buff (p, u) =
      (Inr (3, rc_code TRILOGY_INVALID_SEQUENCE_ID), (p', u')) \<and> contents u' = []
      \<and> sequence_number p' = sequence_number p"
proof -
  have "on_packet_begin (packet_parser_callbacks alloc) u = (Inr 0, u\<lparr>buf_len := 0\<rparr>)"
    by (simp add: packet_parser_callbacks_def packet_begin_def)
  from execute_bad_sequence [OF assms(1-5) this] buffer_ok_reset [OF assms(6)] show ?thesis by blast
qed

theorem wrong_sequence_refused_witness:
  "\<exists>p' u'. trilogy_packet_parser_execute (packet_parser_callbacks zero_alloc) [1, 0, 0, 9, 0x61]
       (trilogy_packet_parser_init 0, small_buffer) = (Inr (3, -14), (p', u'))"
  using wrong_sequence_refused [of "trilogy_packet_parser_init 0" "[1, 0, 0, 9, 0x61]" small_buffer zero_alloc]
  by (auto simp: trilogy_packet_parser_init_def)

text \<open>
  The limit on the size of a packet is exact: with memory to spare, a buffer is accepted if and
  only if the payload stays below the limit, and is refused with
  \<^verbatim>\<open>TRILOGY_MAX_PACKET_EXCEEDED\<close> otherwise. A payload of exactly the limit is refused.
\<close>

theorem packet_limit_exact:
  assumes "building s lim p b" and "unat len \<le> length data" and "generous alloc"
    and "2 * (length p + unat len) + 8 \<le> 2 ^ 62" and "lim \<noteq> 0"
  shows "fst (trilogy_builder_write_buffer alloc data len b) =
    (if length p + unat len < unat lim then Inr () else Inl (Rc TRILOGY_MAX_PACKET_EXCEEDED))"
  using assms by (rule write_buffer_limit)

theorem packet_limit_exact_witness:
  "\<exists>b. building 0 (- 1) [] b
     \<and> fst (trilogy_builder_write_buffer zero_alloc [1, 2] 2 b) = Inr ()"
proof -
  let ?run = "trilogy_builder_init zero_alloc small_buffer 0 blank_builder"
  obtain b where r: "?run = (Inr (), b)"
    by (rule run_result [of ?run]) (simp add: run_builder run_buffer)
  have b: "building 0 (- 1) [] b"
    using holds_Inr [OF builder_init_building [OF small_buffer_ok] TrueI r] .
  have "fst (trilogy_builder_write_buffer zero_alloc [1, 2] 2 b) = Inr ()"
    using packet_limit_exact [OF b, of 2 "[1, 2]" zero_alloc] by (simp add: unat_SIZE_MAX)
  with b show ?thesis by blast
qed

text \<open>
  A length-encoded integer is read back as it was written, whatever follows it, and the reader
  stands right behind it; cut off anywhere, the read reports a truncated packet.
\<close>

theorem lenenc_roundtrip:
  assumes "unat len = length (lenenc_bytes v @ ys)"
  shows "trilogy_reader_get_lenenc (TRILOGY_READER (lenenc_bytes v @ ys) len) =
      (Inr v, advance (length (lenenc_bytes v)) (TRILOGY_READER (lenenc_bytes v @ ys) len))
    \<and> (\<forall>n < length (lenenc_bytes v).
         fst (trilogy_reader_get_lenenc (TRILOGY_READER (take n (lenenc_bytes v)) (word_of_nat n))) =
         Inl (Rc TRILOGY_TRUNCATED_PACKET))"
proof (intro conjI allI impI)
  have r: "reader_ok (TRILOGY_READER (lenenc_bytes v @ ys) len)"
    "rest (TRILOGY_READER (lenenc_bytes v @ ys) len) = lenenc_bytes v @ ys"
    using assms by (simp_all add: reader_start)
  then show "trilogy_reader_get_lenenc (TRILOGY_READER (lenenc_bytes v @ ys) len) =
      (Inr v, advance (length (lenenc_bytes v)) (TRILOGY_READER (lenenc_bytes v @ ys) len))"
    by (intro decodesD [OF lenenc.decode_law]) simp_all
next
  fix n assume n: "n < length (lenenc_bytes v)"
  then have w: "unat (word_of_nat n :: size_t) = n"
    using length_lenenc_bytes [of v] by (intro unat_word_of_nat_size_t) simp
  have "fst (checked trilogy_reader_get_lenenc ret (TRILOGY_READER (take n (lenenc_bytes v)) (word_of_nat n))) =
      Inl (Rc TRILOGY_TRUNCATED_PACKET)"
    using n w by (intro lenenc.truncated [where x = v and n = n]) simp_all
  then show "fst (trilogy_reader_get_lenenc (TRILOGY_READER (take n (lenenc_bytes v)) (word_of_nat n))) =
         Inl (Rc TRILOGY_TRUNCATED_PACKET)"
    by (simp add: checked_apply split: prod.splits sum.splits)
qed

theorem lenenc_roundtrip_witness:
  "fst (trilogy_reader_get_lenenc (TRILOGY_READER (lenenc_bytes 300 @ [9]) 4)) = Inr 300
   \<and> fst (trilogy_reader_get_lenenc (TRILOGY_READER (take 2 (lenenc_bytes 300)) (word_of_nat 2))) =
       Inl (Rc TRILOGY_TRUNCATED_PACKET)"
proof -
  have "lenenc_bytes 300 = [0xfc, 0x2c, 0x01]" by (simp add: lenenc_bytes_def le_bytes_def upt_rec)
  then show ?thesis using lenenc_roundtrip [of 4 300 "[9]"] by (auto dest: spec [of _ 2])
qed

text \<open>
  What the client relies on after a handshake that was accepted: protocol version 10, the
  capabilities without which it would not go on, and strings that end within their arrays.
\<close>

theorem handshake_guarantees:
  assumes "trilogy_parse_handshake_packet buff len out = Inr h"
    and "length (hs_server_version out) = 32" and "length (hs_scramble out) = 21"
    and "length (hs_auth_plugin out) = 32"
  shows "hs_proto_version h = 10
    \<and> has_capability (hs_capabilities h) TRILOGY_CAPABILITIES_PROTOCOL_41
    \<and> has_capability (hs_capabilities h) TRILOGY_CAPABILITIES_SECURE_CONNECTION
    \<and> length (hs_server_version h) = 32 \<and> length (hs_scramble h) = 21 \<and> length (hs_auth_plugin h) = 32
    \<and> 0 \<in> set (hs_server_version h)
    \<and> (has_capability (hs_capabilities h) TRILOGY_CAPABILITIES_PLUGIN_AUTH \<longrightarrow> 0 \<in> set (hs_auth_plugin h))"
proof -
  obtain r where "parse_handshake_packet out (TRILOGY_READER buff len) = (Inr h, r)"
    using assms(1) by (auto simp: trilogy_parse_handshake_packet_def elim: run_result)
  from handshake_success [OF this assms(2-4)] show ?thesis by simp
qed

theorem handshake_guarantees_witness:
  "\<exists>buff len h. trilogy_parse_handshake_packet buff len blank_handshake = Inr h
     \<and> 0 \<in> set (hs_server_version h) \<and> hs_conn_id h = 7"
proof -
  let ?h = "received_handshake sample_handshake [0x38] [0x70] blank_handshake"
  have "hs_conn_id ?h = 7" by (simp add: received_handshake_def sample_handshake_def)
  with handshake_guarantees [OF sample_handshake_parsed] show ?thesis
    using sample_handshake_parsed by (auto simp: blank_handshake_def)
qed

text \<open>
  The password leaves the client in the clear only if the caller has enabled it: a request to
  switch to \<^verbatim>\<open>mysql_clear_password\<close> that it has not, and one to an unknown plugin, end with
  \<^verbatim>\<open>TRILOGY_AUTH_PLUGIN_ERROR\<close> and the builder untouched.
\<close>

theorem cleartext_refused:
  assumes "0 \<in> set auth_plugin" and "pass \<noteq> []"
    and "c_string auth_plugin = ascii ''mysql_clear_password'' \<and> \<not> enabled
      \<or> c_string auth_plugin \<notin> {ascii ''mysql_clear_password'', ascii ''caching_sha2_password'',
           ascii ''mysql_native_password''}"
  shows "trilogy_build_auth_switch_response_packet sha1 sha256 alloc pass auth_plugin scramble enabled b
    = (Inl (Rc TRILOGY_AUTH_PLUGIN_ERROR), b)"
  using assms by (rule switch_refused)

theorem cleartext_refused_witness:
  "trilogy_build_auth_switch_response_packet (toy_digest 20) (toy_digest 32) zero_alloc [1]
     (literal ''mysql_clear_password'') [] False blank_builder = (Inl (Rc TRILOGY_AUTH_PLUGIN_ERROR), blank_builder)"
  by (rule cleartext_refused) (simp_all add: ascii_def)

text \<open>
  The execute packet carries the statement, the flags, the bitmap of the null parameters, and
  the types and the values of all parameters, in the format of the protocol.
\<close>

theorem execute_packet_built:
  assumes "unat num = length binds" and "list_all bind_ok binds" and "buffer_ok buff"
    and "checked (trilogy_builder_init alloc buff s) (\<lambda>_.
           trilogy_build_stmt_execute_packet alloc stmt_id flags (Some binds) num) b = (Inr (), b')"
  shows "contents (bld_buffer b') = frames s (execute_payload stmt_id flags binds)"
  using built_frames(2) [OF execute_builds [OF assms(1,2)] assms(3,4)] .

theorem execute_packet_built_witness:
  "\<exists>b'. checked (trilogy_builder_init zero_alloc small_buffer 0) (\<lambda>_.
       trilogy_build_stmt_execute_packet zero_alloc 1 0
         (Some [\<lparr>bv_is_null = False, bv_is_unsigned = False, bv_type = 1, bv_as = As_uint8 5\<rparr>]) 1) blank_builder
     = (Inr (), b') \<and>
     contents (bld_buffer b') = [15, 0, 0, 0, 0x17, 1, 0, 0, 0, 0, 1, 0, 0, 0, 0, 1, 1, 0, 5]"
proof -
  have tiny: "type_of_code 1 = Some TRILOGY_TYPE_TINY" using type_of_code_code [of TRILOGY_TYPE_TINY] by simp
  let ?binds = "[\<lparr>bv_is_null = False, bv_is_unsigned = False, bv_type = 1, bv_as = As_uint8 5\<rparr>]"
  let ?run = "checked (trilogy_builder_init zero_alloc small_buffer 0) (\<lambda>_.
       trilogy_build_stmt_execute_packet zero_alloc 1 0 (Some ?binds) 1) blank_builder"
  obtain b' where r: "?run = (Inr (), b')"
    by (rule run_result [of ?run])
      (simp add: run_builder run_buffer trilogy_build_stmt_execute_packet_def TRILOGY_CMD_STMT_EXECUTE_def
        trilogy_builder_write_uint32_def write_value_def tiny)
  have "contents (bld_buffer b') = frames 0 (execute_payload 1 0 ?binds)"
    by (rule execute_packet_built [OF _ _ small_buffer_ok r])
      (simp_all add: bind_ok_def bind_value_bytes_def value_bytes_def tiny Let_def object_limit_def)
  with r show ?thesis
    by (simp add: execute_payload_def frames.simps packet_header_def TRILOGY_MAX_PACKET_LEN_def le_bytes_def
        upt_rec null_bitmap_def bind_type_bytes_def bind_value_bytes_def value_bytes_def tiny Let_def)
qed

text \<open>
  Each character set of the table has the encoding it is named after: the name of its encoding
  is the beginning of its own name, except for the collations of GB18030, which are served
  as GBK; and all numbers of the table are within the array.
\<close>

theorem charset_encodings:
  assumes "(c, name) \<in> set TRILOGY_CHARSETS"
  shows "\<exists>e. trilogy_encoding_from_charset c = Inr e \<and> 0 \<le> c \<and> c \<le> 255 \<and>
    (prefix (encoding_name e) name \<or> prefix ''GB18030'' name \<and> e = TRILOGY_ENCODING_GBK)"
  using charset_table assms
  by (auto simp: list_all_iff trilogy_encoding_from_charset_def last_charset_value split: option.splits)

theorem charset_encodings_witness:
  "\<exists>e. trilogy_encoding_from_charset 45 = Inr e \<and> (prefix (encoding_name e) ''UTF8MB4_GENERAL_CI''
     \<or> prefix ''GB18030'' ''UTF8MB4_GENERAL_CI'' \<and> e = TRILOGY_ENCODING_GBK)"
proof -
  have "(45, ''UTF8MB4_GENERAL_CI'') \<in> set TRILOGY_CHARSETS" by (simp add: TRILOGY_CHARSETS_def)
  from charset_encodings [OF this] show ?thesis by blast
qed

end
